(* ===== verification/Prelude.thy ===== *)
theory Prelude
  imports Main "HOL-Library.AList"
begin

text \<open>
  Shared vocabulary of the development: Go results and errors, time stamps, Go maps and the
  lemmas on them that every store component uses.

  A Go \<open>error\<close> is its message, because the code inspects messages
  (\<open>strings.Contains(err.Error(), ...)\<close>); a run-time panic is a separate constructor, since no
  caller of the modelled code can handle it as an error value.  A function that returns
  \<open>(T, error)\<close> is a value of \<open>error + T\<close>.

  A Go map is an association list with distinct keys.  The order of the list is the order in
  which a \<open>range\<close> loop visits the entries: Go leaves that order open, so a statement about every
  association list is a statement about every visiting order.
\<close>

named_theorems go_defs \<open>definitions of thin wrappers that proofs unfold\<close>
named_theorems map_laws \<open>lookups after updates of Go maps\<close>

subsection \<open>Errors and results\<close>

datatype error = Err string | Panic string

type_synonym 'a result = "error + 'a"

text \<open>Time stamps count nanoseconds; 0 is Go's zero \<open>time.Time\<close>.\<close>

type_synonym time = int

definition is_ok :: "'a result \<Rightarrow> bool" where
  "is_ok r = (case r of Inl e \<Rightarrow> False | Inr x \<Rightarrow> True)"

lemma is_ok_simps [simp]: "is_ok (Inr x)" "\<not> is_ok (Inl e)"
  by (simp_all add: is_ok_def)

lemma is_ok_iff: "is_ok r \<longleftrightarrow> (\<exists>x. r = Inr x)"
  by (cases r) simp_all

text \<open>The message text of \<open>err.Error()\<close>.\<close>

fun err_text :: "error \<Rightarrow> string" where
  "err_text (Err s) = s"
| "err_text (Panic s) = s"

text \<open>
  \<open>x, err := f(); if err != nil { return err }; ...\<close> for code without state.
\<close>

definition bind_res :: "'a result \<Rightarrow> ('a \<Rightarrow> 'b result) \<Rightarrow> 'b result" where
  "bind_res r k = (case r of Inl e \<Rightarrow> Inl e | Inr x \<Rightarrow> k x)"

lemma bind_res_simps [simp]:
  "bind_res (Inr x) k = k x" "bind_res (Inl e) k = Inl e"
  by (simp_all add: bind_res_def)

lemma bind_res_eq_Inr: "bind_res r k = Inr y \<longleftrightarrow> (\<exists>x. r = Inr x \<and> k x = Inr y)"
  by (cases r) simp_all

subsection \<open>Go maps\<close>

type_synonym ('k, 'v) gomap = "('k \<times> 'v) list"

abbreviation mput :: "'k \<Rightarrow> 'v \<Rightarrow> ('k, 'v) gomap \<Rightarrow> ('k, 'v) gomap" where
  "mput \<equiv> AList.update"

abbreviation mdel :: "'k \<Rightarrow> ('k, 'v) gomap \<Rightarrow> ('k, 'v) gomap" where
  "mdel \<equiv> AList.delete"

abbreviation mkeys :: "('k, 'v) gomap \<Rightarrow> 'k list" where
  "mkeys m \<equiv> map fst m"

definition mwf :: "('k, 'v) gomap \<Rightarrow> bool" where
  "mwf m = distinct (mkeys m)"

text \<open>Reading a missing key of a string map yields the zero value \<open>""\<close>.\<close>

definition mget0 :: "('k, string) gomap \<Rightarrow> 'k \<Rightarrow> string" where
  "mget0 m k = (case map_of m k of None \<Rightarrow> '''' | Some v \<Rightarrow> v)"

text \<open>
  \<open>for k, v := range m { if P(v) { return ... } }\<close>: the first entry, in visiting order, whose
  value satisfies \<open>P\<close>.
\<close>

definition range_find :: "('v \<Rightarrow> bool) \<Rightarrow> ('k, 'v) gomap \<Rightarrow> ('k \<times> 'v) option" where
  "range_find P m = List.find (\<lambda>(k, v). P v) m"

lemma mwf_Nil [simp]: "mwf []"
  by (simp add: mwf_def)

lemma mwf_single [simp]: "mwf [e]"
  by (simp add: mwf_def)

lemma mwf_mput [simp, intro]: "mwf m \<Longrightarrow> mwf (mput k v m)"
  by (simp add: mwf_def distinct_update)

lemma mwf_mdel [simp, intro]: "mwf m \<Longrightarrow> mwf (mdel k m)"
  by (simp add: mwf_def distinct_delete)

lemma map_of_mput [simp, map_laws]: "map_of (mput k v m) = (map_of m)(k \<mapsto> v)"
  by (rule update_conv')

lemma map_of_mdel [simp, map_laws]: "map_of (mdel k m) = (map_of m)(k := None)"
  by (rule delete_conv')

lemma set_mput_subset: "set (mput k v m) \<subseteq> insert (k, v) (set m)"
  by (induction m) auto

lemma keys_mput [simp]: "fst ` set (mput k v m) = insert k (fst ` set m)"
  by (simp add: dom_update)

lemma keys_mdel [simp]: "fst ` set (mdel k m) = fst ` set m - {k}"
  by (force simp: AList.delete_eq)

lemma set_mput_wf: "mwf m \<Longrightarrow> set (mput k v m) = insert (k, v) {(k', v') \<in> set m. k' \<noteq> k}"
  by (induction m) (auto simp: mwf_def rev_image_eqI)

lemma set_mdel: "set (mdel k m) = {(k', v') \<in> set m. k' \<noteq> k}"
  by (auto simp: AList.delete_eq)

lemma mwf_map_of_iff: "mwf m \<Longrightarrow> map_of m k = Some v \<longleftrightarrow> (k, v) \<in> set m"
  by (simp add: mwf_def)

lemma length_mput: "length (mput k v m) = (if k \<in> fst ` set m then length m else Suc (length m))"
  by (induction m) auto

lemma length_mdel: "mwf m \<Longrightarrow> k \<in> fst ` set m \<Longrightarrow> Suc (length (mdel k m)) = length m"
  by (induction m) (auto simp: mwf_def delete_idem)

lemma proper_subset_card: "finite S \<Longrightarrow> P \<subseteq> S \<Longrightarrow> P \<noteq> S \<longleftrightarrow> card P < card S"
  using psubset_card_mono [of S P] by auto

lemma distinct_map_inj: "distinct (map f xs) \<Longrightarrow> x \<in> set xs \<Longrightarrow> y \<in> set xs \<Longrightarrow> f x = f y \<Longrightarrow> x = y"
  by (auto simp: distinct_map dest: inj_onD)

lemma find_append_None: "\<forall>x \<in> set xs. \<not> P x \<Longrightarrow> List.find P (xs @ ys) = List.find P ys"
  by (induction xs) auto

lemma concat_map_Nil: "\<forall>x \<in> set xs. f x = [] \<Longrightarrow> concat (map f xs) = []"
  by (induction xs) auto

lemma find_SomeD: "List.find P xs = Some x \<Longrightarrow> x \<in> set xs \<and> P x"
  by (induction xs) (auto split: if_splits)

lemma range_find_Nil [simp]: "range_find P [] = None"
  by (simp add: range_find_def)

lemma range_find_Cons [simp]:
  "range_find P ((k, v) # m) = (if P v then Some (k, v) else range_find P m)"
  by (simp add: range_find_def)

lemma range_find_None: "range_find P m = None \<longleftrightarrow> (\<forall>(k, v) \<in> set m. \<not> P v)"
  by (induction m) (auto simp: range_find_def)

lemma range_find_SomeD: "range_find P m = Some (k, v) \<Longrightarrow> (k, v) \<in> set m \<and> P v"
  by (induction m) (auto split: if_splits)

lemma range_find_hit: "(k, v) \<in> set m \<Longrightarrow> P v \<Longrightarrow> range_find P m \<noteq> None"
  by (induction m) (auto split: if_splits)

text \<open>
  The result of a search loop does not depend on the visiting order when at most one entry
  matches.
\<close>

lemma range_find_unique:
  assumes "(k, v) \<in> set m" "P v" "\<And>k' v'. (k', v') \<in> set m \<Longrightarrow> P v' \<Longrightarrow> (k', v') = (k, v)"
  shows "range_find P m = Some (k, v)"
proof -
  have "range_find P m \<noteq> None"
    using assms(1,2) by (auto simp: range_find_None)
  then obtain k' v' where f: "range_find P m = Some (k', v')" by auto
  from range_find_SomeD [OF f] assms(3) have "(k', v') = (k, v)" by blast
  with f show ?thesis by simp
qed

subsection \<open>The interface of a Go map\<close>

locale go_map =
  fixes get :: "'m \<Rightarrow> 'k \<Rightarrow> 'v option"
    and put :: "'k \<Rightarrow> 'v \<Rightarrow> 'm \<Rightarrow> 'm"
    and del :: "'k \<Rightarrow> 'm \<Rightarrow> 'm"
    and size_of :: "'m \<Rightarrow> nat"
    and wf :: "'m \<Rightarrow> bool"
  assumes get_put: "get (put k v m) = (get m)(k \<mapsto> v)"
    and get_del: "get (del k m) = (get m)(k := None)"
    and wf_put: "wf m \<Longrightarrow> wf (put k v m)"
    and wf_del: "wf m \<Longrightarrow> wf (del k m)"
    and size_put: "wf m \<Longrightarrow> size_of (put k v m) = (if get m k = None then Suc (size_of m) else size_of m)"
    and size_del: "wf m \<Longrightarrow> get m k \<noteq> None \<Longrightarrow> Suc (size_of (del k m)) = size_of m"
begin

lemma put_put_same: "get (put k v (put k w m)) = get (put k v m)"
  by (simp add: get_put)

lemma put_put_swap: "k \<noteq> l \<Longrightarrow> get (put k v (put l w m)) = get (put l w (put k v m))"
  by (simp add: get_put fun_upd_twist)

lemma del_put: "get (del k (put k v m)) = get (del k m)"
  by (simp add: get_put get_del)

text \<open>Evicting one entry before an insertion keeps the size.\<close>

lemma evict_then_put_size:
  assumes "wf m" "get m e \<noteq> None"
  shows "size_of (put k v (del e m)) \<le> size_of m"
  using assms size_del [OF assms] size_put [OF wf_del [OF assms(1)], of k v e] by auto

end

interpretation gm: go_map map_of mput mdel length mwf
proof
  fix m :: "('a, 'b) gomap" and k v
  show "map_of (mput k v m) = (map_of m)(k \<mapsto> v)" by simp
  show "map_of (mdel k m) = (map_of m)(k := None)" by simp
  assume wf: "mwf m"
  then show "mwf (mput k v m)" "mwf (mdel k m)" by auto
  show "length (mput k v m) = (if map_of m k = None then Suc (length m) else length m)"
    by (simp add: length_mput map_of_eq_None_iff)
  show "map_of m k \<noteq> None \<Longrightarrow> Suc (length (mdel k m)) = length m"
    using wf by (simp add: length_mdel map_of_eq_None_iff)
qed

end
