(* ===== verification/Go_Text.thy ===== *)
theory Go_Text
  imports Prelude "HOL-Library.Char_ord"
begin

text \<open>
  The functions of Go's \<open>strings\<close> and \<open>strconv\<close> packages that the modelled code calls, on
  strings as character lists (one character per byte).
\<close>

subsection \<open>Prefixes, substrings, splitting\<close>

definition has_prefix :: "string \<Rightarrow> string \<Rightarrow> bool" where
  "has_prefix s p = (take (length p) s = p)"

fun str_contains :: "string \<Rightarrow> string \<Rightarrow> bool" where
  "str_contains [] sub = (sub = [])"
| "str_contains (c # cs) sub = (has_prefix (c # cs) sub \<or> str_contains cs sub)"

text \<open>\<open>strings.Split(s, c)\<close> for a one-character separator.\<close>

fun split_on :: "char \<Rightarrow> string \<Rightarrow> string list" where
  "split_on c [] = [[]]"
| "split_on c (x # xs) =
     (if x = c then [] # split_on c xs
      else (case split_on c xs of [] \<Rightarrow> [[x]] | p # ps \<Rightarrow> (x # p) # ps))"

text \<open>\<open>strings.Cut(s, c)\<close>: the text before and after the first separator.\<close>

fun str_cut :: "char \<Rightarrow> string \<Rightarrow> (string \<times> string) option" where
  "str_cut c [] = None"
| "str_cut c (x # xs) =
     (if x = c then Some ([], xs)
      else (case str_cut c xs of None \<Rightarrow> None | Some (a, b) \<Rightarrow> Some (x # a, b)))"

text \<open>\<open>strings.SplitN(s, c, 2)\<close>.\<close>

definition split_n2 :: "char \<Rightarrow> string \<Rightarrow> string list" where
  "split_n2 c s = (case str_cut c s of None \<Rightarrow> [s] | Some (a, b) \<Rightarrow> [a, b])"

text \<open>\<open>strings.Join(parts, sep)\<close>.\<close>

fun str_join :: "string \<Rightarrow> string list \<Rightarrow> string" where
  "str_join sep [] = []"
| "str_join sep [x] = x"
| "str_join sep (x # y # ys) = x @ sep @ str_join sep (y # ys)"

definition is_space :: "char \<Rightarrow> bool" where
  "is_space c = ((of_char c :: nat) \<in> {9, 10, 11, 12, 13, 32})"

text \<open>\<open>strings.TrimSpace\<close> and \<open>strings.Fields\<close> on ASCII text.\<close>

definition trim_space :: "string \<Rightarrow> string" where
  "trim_space s = rev (dropWhile is_space (rev (dropWhile is_space s)))"

function str_fields :: "string \<Rightarrow> string list" where
  "str_fields [] = []"
| "str_fields (c # cs) =
     (if is_space c then str_fields cs
      else (c # takeWhile (\<lambda>x. \<not> is_space x) cs) # str_fields (dropWhile (\<lambda>x. \<not> is_space x) cs))"
  by pat_completeness auto
termination by (relation "measure length") (auto simp: le_imp_less_Suc length_dropWhile_le)

definition lower_char :: "char \<Rightarrow> char" where
  "lower_char c = (if 65 \<le> (of_char c :: nat) \<and> (of_char c :: nat) \<le> 90
                   then char_of ((of_char c :: nat) + 32) else c)"

text \<open>\<open>strings.ToLower\<close> on ASCII text.\<close>

definition to_lower :: "string \<Rightarrow> string" where
  "to_lower s = map lower_char s"

text \<open>\<open>strings.ToUpper\<close> on ASCII text.\<close>

definition upper_char :: "char \<Rightarrow> char" where
  "upper_char c = (if 97 \<le> (of_char c :: nat) \<and> (of_char c :: nat) \<le> 122
                   then char_of ((of_char c :: nat) - 32) else c)"

definition to_upper :: "string \<Rightarrow> string" where
  "to_upper s = map upper_char s"

text \<open>\<open>strings.HasSuffix\<close> and \<open>strings.TrimSuffix\<close>.\<close>

definition has_suffix :: "string \<Rightarrow> string \<Rightarrow> bool" where
  "has_suffix s p = has_prefix (rev s) (rev p)"

definition trim_suffix :: "string \<Rightarrow> string \<Rightarrow> string" where
  "trim_suffix s p = (if has_suffix s p then take (length s - length p) s else s)"

lemma has_prefix_append [simp]: "has_prefix (p @ s) p"
  by (simp add: has_prefix_def)

lemma has_prefixD: "has_prefix s p \<Longrightarrow> s = p @ drop (length p) s"
  unfolding has_prefix_def by (metis append_take_drop_id)

lemma has_prefix_Nil [simp]: "has_prefix s []"
  by (simp add: has_prefix_def)

lemma str_contains_iff: "str_contains s sub \<longleftrightarrow> (\<exists>a b. s = a @ sub @ b)"
proof (induction s)
  case Nil
  show ?case by simp
next
  case (Cons c cs)
  have pre: "has_prefix (c # cs) sub \<longleftrightarrow> (\<exists>b. c # cs = sub @ b)"
    by (metis has_prefixD has_prefix_append)
  show ?case
  proof
    assume "str_contains (c # cs) sub"
    then consider "has_prefix (c # cs) sub" | "str_contains cs sub" by auto
    then show "\<exists>a b. c # cs = a @ sub @ b"
    proof cases
      case 1
      with pre obtain b where "c # cs = [] @ sub @ b" by auto
      then show ?thesis by blast
    next
      case 2
      with Cons obtain a b where "c # cs = (c # a) @ sub @ b" by auto
      then show ?thesis by blast
    qed
  next
    assume "\<exists>a b. c # cs = a @ sub @ b"
    then obtain a b where ab: "c # cs = a @ sub @ b" by blast
    show "str_contains (c # cs) sub"
    proof (cases a)
      case Nil
      with ab pre have "has_prefix (c # cs) sub" by auto
      then show ?thesis by simp
    next
      case (Cons a' as)
      with ab have "cs = as @ sub @ b" by simp
      with Cons.IH show ?thesis by auto
    qed
  qed
qed

lemma split_on_not_Nil [simp]: "split_on c s \<noteq> []"
  by (cases s) (auto split: list.splits)

lemma split_on_no_sep [simp]: "c \<notin> set s \<Longrightarrow> split_on c s = [s]"
  by (induction s) auto

lemma split_on_append: "c \<notin> set s \<Longrightarrow> split_on c (s @ c # t) = s # split_on c t"
  by (induction s) auto

lemma str_cut_append: "c \<notin> set s \<Longrightarrow> str_cut c (s @ c # t) = Some (s, t)"
  by (induction s) auto

lemma str_cut_Some: "str_cut c s = Some (a, b) \<Longrightarrow> s = a @ c # b \<and> c \<notin> set a"
  by (induction s arbitrary: a) (auto split: if_splits option.splits)

lemma str_cut_None: "str_cut c s = None \<longleftrightarrow> c \<notin> set s"
  by (induction s) (auto split: option.splits)

subsection \<open>Decimal numerals\<close>

definition digit_char :: "nat \<Rightarrow> char" where
  "digit_char d = char_of (48 + d)"

definition digit_val :: "char \<Rightarrow> nat option" where
  "digit_val c = (let n = (of_char c :: nat) in if 48 \<le> n \<and> n \<le> 57 then Some (n - 48) else None)"

fun dec :: "nat \<Rightarrow> string" where
  "dec n = (if n < 10 then [digit_char n] else dec (n div 10) @ [digit_char (n mod 10)])"

declare dec.simps [simp del]

text \<open>\<open>strconv.Itoa\<close>.\<close>

definition itoa :: "int \<Rightarrow> string" where
  "itoa v = (if v < 0 then CHR ''-'' # dec (nat (- v)) else dec (nat v))"

text \<open>A run of decimal digits, most significant first; \<open>None\<close> when some character is no digit.\<close>

fun undec_acc :: "nat \<Rightarrow> string \<Rightarrow> nat option" where
  "undec_acc n [] = Some n"
| "undec_acc n (c # cs) = (case digit_val c of None \<Rightarrow> None | Some d \<Rightarrow> undec_acc (10 * n + d) cs)"

definition undec :: "string \<Rightarrow> nat option" where
  "undec s = (if s = [] then None else undec_acc 0 s)"

lemma digit_val_char [simp]: "d < 10 \<Longrightarrow> digit_val (digit_char d) = Some d"
  by (simp add: digit_val_def digit_char_def Let_def)

text \<open>Evaluation of printed numbers.\<close>

lemma digit_char_eval:
  "digit_char 0 = CHR ''0''" "digit_char (Suc 0) = CHR ''1''" "digit_char 2 = CHR ''2''"
  "digit_char 3 = CHR ''3''" "digit_char 4 = CHR ''4''" "digit_char 5 = CHR ''5''"
  "digit_char 6 = CHR ''6''" "digit_char 7 = CHR ''7''" "digit_char 8 = CHR ''8''"
  "digit_char 9 = CHR ''9''"
  by (simp_all add: digit_char_def char_of_def bit_0)

lemmas dec_eval = dec.simps digit_char_eval

lemma digit_char_inj: "a < 10 \<Longrightarrow> b < 10 \<Longrightarrow> digit_char a = digit_char b \<Longrightarrow> a = b"
  by (metis digit_val_char option.inject)

lemma dec_not_Nil [simp]: "dec n \<noteq> []"
  by (subst dec.simps) simp

lemma dec_chars: "set (dec n) \<subseteq> {c. digit_val c \<noteq> None}"
proof (induction n rule: dec.induct)
  case (1 n)
  then show ?case by (subst dec.simps) auto
qed

lemma dec_no_sep: "digit_val c = None \<Longrightarrow> c \<notin> set (dec n)"
  using dec_chars by blast

lemma undec_acc_snoc:
  "undec_acc n (s @ [c]) =
     (case undec_acc n s of None \<Rightarrow> None | Some m \<Rightarrow> map_option (\<lambda>d. 10 * m + d) (digit_val c))"
  by (induction s arbitrary: n) (auto split: option.splits)

lemma undec_acc_dec: "undec_acc 0 (dec n) = Some n"
proof (induction n rule: dec.induct)
  case (1 n)
  show ?case
  proof (cases "n < 10")
    case True
    then show ?thesis by (subst dec.simps) simp
  next
    case False
    with "1.IH" have "undec_acc 0 (dec (n div 10)) = Some (n div 10)" by simp
    with False show ?thesis by (subst dec.simps) (simp add: undec_acc_snoc)
  qed
qed

lemma undec_dec [simp]: "undec (dec n) = Some n"
  by (simp add: undec_def undec_acc_dec)

lemma dec_inj [simp]: "dec a = dec b \<longleftrightarrow> a = b"
  by (metis option.inject undec_dec)

lemma itoa_inj: "itoa a = itoa b \<Longrightarrow> a = b"
proof -
  have neg: "dec n \<noteq> CHR ''-'' # s" for n s
    using dec_no_sep [of "CHR ''-''" n] by (auto simp: digit_val_def)
  assume "itoa a = itoa b"
  then show ?thesis
    using neg neg [symmetric] by (auto simp: itoa_def split: if_splits)
qed

lemma length_dec_3: "n < 1000 \<Longrightarrow> length (dec n) \<le> 3"
  by (simp add: dec.simps [of n] dec.simps [of "n div 10"] dec.simps [of "n div 100"]
      div_mult2_eq [symmetric])

lemma hd_dec_zero: "hd (dec n) = digit_char 0 \<Longrightarrow> n = 0"
proof (induction n rule: dec.induct)
  case (1 n)
  show ?case
  proof (cases "n < 10")
    case True
    with "1.prems" show ?thesis
      by (auto simp: dec.simps [of n] intro: digit_char_inj)
  next
    case False
    with "1.prems" have "hd (dec (n div 10)) = digit_char 0"
      by (simp add: dec.simps [of n])
    with "1.IH" False have "n div 10 = 0" by blast
    with False show ?thesis by simp
  qed
qed

subsection \<open>Integers from text\<close>

text \<open>The value \<open>strconv.Atoi\<close> returns beside its error: 0 for text that is no number, the nearest
  64-bit integer for a number out of range.\<close>

definition atoi :: "string \<Rightarrow> int" where
  "atoi s =
     (let neg = has_prefix s ''-'';
          digits = (if neg \<or> has_prefix s ''+'' then tl s else s) in
      case undec digits of
        None \<Rightarrow> 0
      | Some n \<Rightarrow> if neg then max (- int n) (- (2 ^ 63)) else min (int n) (2 ^ 63 - 1))"

lemma dec_plain: "dec n \<noteq> [] \<and> \<not> has_prefix (dec n) ''-'' \<and> \<not> has_prefix (dec n) ''+''"
proof -
  have "CHR ''-'' \<notin> set (dec n)" "CHR ''+'' \<notin> set (dec n)"
    by (rule dec_no_sep; simp add: digit_val_def)+
  moreover obtain c cs where d: "dec n = c # cs" by (cases "dec n") (use dec_not_Nil [of n] in auto)
  ultimately show ?thesis by (auto simp: has_prefix_def d)
qed

lemma atoi_dec: "n < 2 ^ 63 \<Longrightarrow> atoi (dec n) = int n"
  using dec_plain [of n] by (simp add: atoi_def Let_def)

lemma itoa_atoi: "n < 2 ^ 63 \<Longrightarrow> itoa (atoi (dec n)) = dec n"
  by (simp add: atoi_dec itoa_def)

subsection \<open>Paths (package filepath)\<close>

text \<open>
  \<open>filepath.Clean\<close> works on the elements of a path: empty ones and \<open>.\<close> are dropped, \<open>..\<close>
  removes the element before it; at the start it is dropped in a rooted path and kept otherwise.
  The accumulator holds the elements kept so far, last one first.
\<close>

fun clean_elems :: "bool \<Rightarrow> string list \<Rightarrow> string list \<Rightarrow> string list" where
  "clean_elems rooted [] acc = rev acc"
| "clean_elems rooted (e # es) acc =
     (if e = [] \<or> e = ''.'' then clean_elems rooted es acc
      else if e = ''..'' then
        (case acc of
           [] \<Rightarrow> clean_elems rooted es (if rooted then [] else [e])
         | a # as \<Rightarrow> clean_elems rooted es (if a = ''..'' then e # acc else as))
      else clean_elems rooted es (e # acc))"

definition path_clean :: "string \<Rightarrow> string" where
  "path_clean s =
     (let rooted = has_prefix s ''/''; es = clean_elems rooted (split_on (CHR ''/'') s) [] in
      if rooted then CHR ''/'' # str_join ''/'' es
      else if es = [] then ''.'' else str_join ''/'' es)"

definition path_join :: "string list \<Rightarrow> string" where
  "path_join es =
     (let es' = filter (\<lambda>e. e \<noteq> []) es in if es' = [] then [] else path_clean (str_join ''/'' es'))"

text \<open>\<open>filepath.Base\<close> and \<open>filepath.Dir\<close> of a clean path.\<close>

definition path_base :: "string \<Rightarrow> string" where
  "path_base s =
     (if s = [] then ''.''
      else case filter (\<lambda>e. e \<noteq> []) (split_on (CHR ''/'') s) of [] \<Rightarrow> ''/'' | es \<Rightarrow> last es)"

definition path_dir :: "string \<Rightarrow> string" where
  "path_dir s = path_clean (rev (dropWhile (\<lambda>c. c \<noteq> CHR ''/'') (rev s)))"

text \<open>An element that names an entry of a directory.\<close>

definition plain_elem :: "string \<Rightarrow> bool" where
  "plain_elem e \<longleftrightarrow> e \<noteq> [] \<and> e \<noteq> ''.'' \<and> e \<noteq> ''..'' \<and> CHR ''/'' \<notin> set e"

lemma split_on_elems: "e \<in> set (split_on c s) \<Longrightarrow> c \<notin> set e"
  by (induction s arbitrary: e) (auto split: if_splits list.splits)

lemma split_on_join: "\<forall>e \<in> set es. c \<notin> set e \<Longrightarrow> es \<noteq> [] \<Longrightarrow> split_on c (str_join [c] es) = es"
  by (induction "[c]" es rule: str_join.induct) (simp_all add: split_on_append)

lemma split_on_append_sep: "split_on c (s @ c # t) = split_on c s @ split_on c t"
  by (induction s) (auto split: list.splits)

lemma clean_elems_plain: "\<forall>e \<in> set es. plain_elem e \<Longrightarrow> clean_elems r es acc = rev acc @ es"
  by (induction es arbitrary: acc) (auto simp: plain_elem_def)

lemma clean_elems_append: "\<forall>e \<in> set es. plain_elem e \<Longrightarrow> clean_elems r (es @ fs) acc = clean_elems r fs (rev es @ acc)"
  by (induction es arbitrary: acc) (auto simp: plain_elem_def)

text \<open>A rooted path is made of plain elements after cleaning; in a relative one only \<open>..\<close> can be
  in front of them.\<close>

lemma clean_elems_rooted:
  "\<forall>e \<in> set es. CHR ''/'' \<notin> set e \<Longrightarrow> \<forall>e \<in> set acc. plain_elem e \<Longrightarrow> e' \<in> set (clean_elems True es acc) \<Longrightarrow> plain_elem e'"
proof (induction es arbitrary: acc)
  case (Cons e es)
  have es: "\<forall>e \<in> set es. CHR ''/'' \<notin> set e" using Cons.prems(1) by simp
  consider "e = [] \<or> e = ''.''" | "e = ''..''" | "plain_elem e" using Cons.prems(1) by (auto simp: plain_elem_def)
  then show ?case
  proof cases
    case 2
    then have "clean_elems True (e # es) acc = clean_elems True es (tl acc)"
      using Cons.prems(2) by (cases acc) (auto simp: plain_elem_def)
    then show ?thesis using Cons.IH [OF es, of "tl acc"] Cons.prems(2,3) by (cases acc) auto
  next
    case 1
    then have "clean_elems True (e # es) acc = clean_elems True es acc" by simp
    then show ?thesis using Cons.IH [OF es Cons.prems(2)] Cons.prems(3) by simp
  next
    case 3
    then have "clean_elems True (e # es) acc = clean_elems True es (e # acc)" by (simp add: plain_elem_def)
    then show ?thesis using Cons.IH [OF es, of "e # acc"] Cons.prems(2,3) 3 by simp
  qed
qed auto

definition up_then_plain :: "string list \<Rightarrow> bool" where
  "up_then_plain es \<longleftrightarrow> (\<exists>k ps. es = replicate k ''..'' @ ps \<and> (\<forall>p \<in> set ps. plain_elem p))"

lemma up_then_plain_snoc: "up_then_plain es \<Longrightarrow> plain_elem e \<Longrightarrow> up_then_plain (es @ [e])"
proof -
  assume "up_then_plain es" and e: "plain_elem e"
  then obtain k ps where "es = replicate k ''..'' @ ps" "\<forall>p \<in> set ps. plain_elem p" by (auto simp: up_then_plain_def)
  then show ?thesis unfolding up_then_plain_def using e by (intro exI [of _ k] exI [of _ "ps @ [e]"]) simp
qed

lemma up_then_plain_up: "up_then_plain es \<Longrightarrow> es = [] \<or> last es = ''..'' \<Longrightarrow> up_then_plain (es @ [''..''])"
proof -
  assume "up_then_plain es" and l: "es = [] \<or> last es = ''..''"
  then obtain k ps where e: "es = replicate k ''..'' @ ps" "\<forall>p \<in> set ps. plain_elem p" by (auto simp: up_then_plain_def)
  have "ps = []"
  proof (rule ccontr)
    assume "ps \<noteq> []"
    then have "last es \<in> set ps" "es \<noteq> []" using e by simp_all
    with l e show False by (auto simp: plain_elem_def)
  qed
  then have "es @ [''..''] = replicate (Suc k) ''..'' @ []" using e by (simp add: replicate_append_same)
  then show ?thesis unfolding up_then_plain_def by (metis empty_iff empty_set)
qed

lemma up_then_plain_butlast: "up_then_plain es \<Longrightarrow> up_then_plain (butlast es)"
proof -
  assume "up_then_plain es"
  then obtain k ps where e: "es = replicate k ''..'' @ ps" "\<forall>p \<in> set ps. plain_elem p" by (auto simp: up_then_plain_def)
  show ?thesis
  proof (cases "ps = []")
    case True
    then have "butlast es = replicate (k - 1) ''..'' @ []" using e by (cases k) (simp_all add: replicate_append_same [symmetric])
    then show ?thesis unfolding up_then_plain_def by (metis empty_iff empty_set)
  next
    case False
    then have "butlast es = replicate k ''..'' @ butlast ps" using e by (simp add: butlast_append)
    then show ?thesis unfolding up_then_plain_def using e(2) by (metis in_set_butlastD)
  qed
qed

lemma clean_elems_rel:
  "\<forall>e \<in> set es. CHR ''/'' \<notin> set e \<Longrightarrow> up_then_plain (rev acc) \<Longrightarrow> up_then_plain (clean_elems False es acc)"
proof (induction es arbitrary: acc)
  case (Cons e es)
  have es: "\<forall>e \<in> set es. CHR ''/'' \<notin> set e" using Cons.prems(1) by simp
  consider "e = [] \<or> e = ''.''" | (up) "e = ''..''" "acc = [] \<or> hd acc = ''..''" | (down) "e = ''..''" "acc \<noteq> []" "hd acc \<noteq> ''..''"
    | (plain) "plain_elem e" using Cons.prems(1) by (auto simp: plain_elem_def)
  then show ?case
  proof cases
    case up
    then have "clean_elems False (e # es) acc = clean_elems False es (''..'' # acc)" by (cases acc) simp_all
    moreover have "up_then_plain (rev (''..'' # acc))"
      using up_then_plain_up [OF Cons.prems(2)] up(2) by (cases acc) simp_all
    ultimately show ?thesis using Cons.IH [OF es] by simp
  next
    case down
    then have "clean_elems False (e # es) acc = clean_elems False es (tl acc)" by (cases acc) simp_all
    moreover have "up_then_plain (rev (tl acc))" using up_then_plain_butlast [OF Cons.prems(2)] down(2) by (cases acc) simp_all
    ultimately show ?thesis using Cons.IH [OF es] by simp
  next
    case plain
    then show ?thesis using Cons.IH [OF es] up_then_plain_snoc [OF Cons.prems(2)] by (simp add: plain_elem_def)
  next
    case 1
    then have "clean_elems False (e # es) acc = clean_elems False es acc" by simp
    then show ?thesis using Cons.IH [OF es Cons.prems(2)] by simp
  qed
qed auto

end
