(* ===== verification/Net_Addr.thy ===== *)
theory Net_Addr
  imports Go_Text "HOL-Library.Word"
begin

text \<open>
  IPv4 addresses and networks as the IPAM code uses Go's \<open>net\<close> package.  An IPv4 \<open>net.IP\<close>
  (four bytes, \<open>To4\<close>) is its big-endian 32-bit value; \<open>bytes_of\<close> and \<open>ip_of_bytes\<close> go between
  the two, and the byte loops of \<open>incIP\<close> and \<open>broadcastIPv4\<close> are written on bytes.  Text
  that is no IPv4 literal does not parse; IPv6 literals count among it.
\<close>

unbundle bit_operations_syntax

type_synonym ip = "32 word"

record ipnet =
  net_ip :: ip
  net_mask :: ip

subsection \<open>Bytes\<close>

definition bytes_of :: "ip \<Rightarrow> 8 word list" where
  "bytes_of w = [ucast (drop_bit 24 w), ucast (drop_bit 16 w), ucast (drop_bit 8 w), ucast w]"

text \<open>\<open>binary.BigEndian.Uint32\<close>.\<close>

definition ip_of_bytes :: "8 word list \<Rightarrow> ip" where
  "ip_of_bytes b =
     (push_bit 24 (ucast (b ! 0)) OR push_bit 16 (ucast (b ! 1)) OR
      push_bit 8 (ucast (b ! 2)) OR ucast (b ! 3))"

subsection \<open>Address arithmetic of the IPAM code\<close>

text \<open>The carry loop of \<open>incIP\<close>: \<open>for i := 3; i >= 0; i--\<close>.\<close>

fun inc_carry :: "nat \<Rightarrow> 8 word list \<Rightarrow> 8 word list" where
  "inc_carry i v =
     (if v ! i \<noteq> 0 then v
      else if 0 < i then inc_carry (i - 1) (v[i - 1 := v ! (i - 1) + 1])
      else v)"

declare inc_carry.simps [simp del]

definition incIP :: "ip \<Rightarrow> ip" where
  "incIP ip = (let v = bytes_of ip in ip_of_bytes (inc_carry 3 (v[3 := v ! 3 + 1])))"

definition ipv4Add :: "ip \<Rightarrow> 32 word \<Rightarrow> ip" where
  "ipv4Add ip add = ip + add"

definition broadcastIPv4 :: "ipnet \<Rightarrow> ip" where
  "broadcastIPv4 n =
     ip_of_bytes (map2 (\<lambda>a m. a OR NOT m) (bytes_of (net_ip n)) (bytes_of (net_mask n)))"

text \<open>\<open>net.CIDRMask(ones, 32)\<close> and \<open>IPNet.Contains\<close>.\<close>

definition cidr_mask :: "nat \<Rightarrow> ip" where
  "cidr_mask ones = NOT (mask (32 - ones))"

definition net_contains :: "ipnet \<Rightarrow> ip \<Rightarrow> bool" where
  "net_contains n ip = (net_ip n AND net_mask n = ip AND net_mask n)"

text \<open>\<open>Mask.Size()\<close> of a canonical mask: the number of leading ones.\<close>

definition mask_ones :: "ip \<Rightarrow> nat option" where
  "mask_ones m = List.find (\<lambda>k. cidr_mask k = m) [0..<33]"

subsection \<open>Text\<close>

definition ip_string :: "ip \<Rightarrow> string" where
  "ip_string ip = str_join ''.'' (map (\<lambda>b. dec (unat b)) (bytes_of ip))"

definition ipnet_string :: "ipnet \<Rightarrow> string" where
  "ipnet_string n =
     ip_string (net_ip n) @ ''/'' @ (case mask_ones (net_mask n) of Some k \<Rightarrow> dec k | None \<Rightarrow> ''?'')"

text \<open>One decimal field of a dotted quad: no leading zero, at most 255.\<close>

definition parse_octet :: "string \<Rightarrow> 8 word option" where
  "parse_octet s =
     (if length s > 3 \<or> (length s > 1 \<and> hd s = digit_char 0) then None
      else (case undec s of None \<Rightarrow> None | Some n \<Rightarrow> if n \<le> 255 then Some (word_of_nat n) else None))"

definition ParseIP4 :: "string \<Rightarrow> ip option" where
  "ParseIP4 s =
     (case map parse_octet (split_on (CHR ''.'') s) of
        [Some a, Some b, Some c, Some d] \<Rightarrow> Some (ip_of_bytes [a, b, c, d])
      | _ \<Rightarrow> None)"

definition ParseCIDR4 :: "string \<Rightarrow> ipnet option" where
  "ParseCIDR4 s =
     (case str_cut (CHR ''/'') s of None \<Rightarrow> None
      | Some (a, m) \<Rightarrow> (case (ParseIP4 a, undec m) of
          (Some ip, Some k) \<Rightarrow>
            if k \<le> 32 then Some \<lparr>net_ip = ip AND cidr_mask k, net_mask = cidr_mask k\<rparr> else None
        | _ \<Rightarrow> None))"

subsection \<open>Bytes and words\<close>

lemma bytes_of_nth [simp]:
  "bytes_of w ! 0 = ucast (drop_bit 24 w)" "bytes_of w ! Suc 0 = ucast (drop_bit 16 w)"
  "bytes_of w ! 2 = ucast (drop_bit 8 w)" "bytes_of w ! 3 = ucast w"
  by (simp_all add: bytes_of_def numeral_2_eq_2 numeral_3_eq_3)

lemma length_bytes_of [simp]: "length (bytes_of w) = 4"
  by (simp add: bytes_of_def)

lemma ip_of_bytes_of [simp]: "ip_of_bytes (bytes_of w) = w"
proof (rule bit_word_eqI)
  fix n :: nat
  assume n: "n < LENGTH(32)"
  consider "n < 8" | "8 \<le> n" "n < 16" | "16 \<le> n" "n < 24" | "24 \<le> n" "n < 32"
    using n by fastforce
  then show "bit (ip_of_bytes (bytes_of w)) n = bit w n"
    by cases (auto simp: ip_of_bytes_def bit_simps)
qed

lemma unat_byte: "unat (ucast (drop_bit k (w :: ip)) :: 8 word) = (unat w div 2 ^ k) mod 256"
  unfolding unsigned_ucast_eq unat_drop_bit_eq by (simp add: take_bit_eq_mod drop_bit_eq_div)

lemma unat_byte0: "unat (ucast (w :: ip) :: 8 word) = unat w mod 256"
  by (simp add: unsigned_ucast_eq take_bit_eq_mod)

lemma byte_lt: "unat (b :: 8 word) < 256"
  using unsigned_less [of b] by simp

text \<open>The four base-256 digits of a number.\<close>

lemma quad_digits:
  assumes "a < 256" "b < 256" "c < 256" "d < (256 :: nat)"
    and "N = a * 2 ^ 24 + b * 2 ^ 16 + c * 2 ^ 8 + d"
  shows "N div 2 ^ 24 mod 256 = a" "N div 2 ^ 16 mod 256 = b" "N div 2 ^ 8 mod 256 = c"
    "N mod 256 = d" "N < 2 ^ 32"
proof -
  have step: "(x * 256 + y) div 256 = x" "(x * 256 + y) mod 256 = y" if "y < 256" for x y :: nat
    using that by simp_all
  have N: "N = ((a * 256 + b) * 256 + c) * 256 + d" using assms(5) by simp
  have d1: "N div 256 = (a * 256 + b) * 256 + c" unfolding N by (rule step(1) [OF assms(4)])
  have d2: "N div 256 div 256 = a * 256 + b" unfolding d1 by (rule step(1) [OF assms(3)])
  have d3: "N div 256 div 256 div 256 = a" unfolding d2 by (rule step(1) [OF assms(2)])
  have p: "N div 2 ^ 16 = N div 256 div 256" "N div 2 ^ 24 = N div 256 div 256 div 256"
    by (simp_all add: div_mult2_eq [symmetric])
  show "N div 2 ^ 24 mod 256 = a" unfolding p d3 using assms(1) by simp
  show "N div 2 ^ 16 mod 256 = b" unfolding p d2 by (rule step(2) [OF assms(2)])
  have "N div 2 ^ 8 = N div 256" by simp
  then show "N div 2 ^ 8 mod 256 = c" by (simp only: d1 step(2) [OF assms(3)])
  show "N mod 256 = d" unfolding N by (rule step(2) [OF assms(4)])
  show "N < 2 ^ 32" using assms by simp
qed

lemma unat_word_of_nat: "n < 2 ^ 32 \<Longrightarrow> unat (word_of_nat n :: ip) = n"
  by (simp add: unat_of_nat)

lemma unat_ip_of_bytes:
  "unat (ip_of_bytes [a, b, c, d]) = unat a * 2 ^ 24 + unat b * 2 ^ 16 + unat c * 2 ^ 8 + unat d"
proof -
  define N where "N = unat a * 2 ^ 24 + unat b * 2 ^ 16 + unat c * 2 ^ 8 + unat d"
  note q = quad_digits [OF byte_lt byte_lt byte_lt byte_lt N_def]
  define w :: ip where "w = word_of_nat N"
  have w: "unat w = N" unfolding w_def by (rule unat_word_of_nat [OF q(5)])
  have "bytes_of w = [a, b, c, d]"
    unfolding bytes_of_def list.inject word_unat_eq_iff unat_byte unat_byte0 [of w] w using q by simp
  then have "ip_of_bytes [a, b, c, d] = w" by (metis ip_of_bytes_of)
  then show ?thesis by (simp only: w N_def)
qed

lemma bytes_of_ip_of_bytes [simp]: "bytes_of (ip_of_bytes [a, b, c, d]) = [a, b, c, d]"
  unfolding bytes_of_def list.inject word_unat_eq_iff unat_byte unat_byte0 [of "ip_of_bytes [a, b, c, d]"]
  using quad_digits [OF byte_lt byte_lt byte_lt byte_lt unat_ip_of_bytes [of a b c d]] by simp

lemma ip_bytes_cases:
  obtains a b c d where "bytes_of ip = [a, b, c, d]" "ip = ip_of_bytes [a, b, c, d]"
  by (metis bytes_of_def ip_of_bytes_of)

subsection \<open>The byte loops are 32-bit operations\<close>

lemma unat_byte_inc: "unat ((b :: 8 word) + 1) = (if b + 1 = 0 then 0 else unat b + 1)"
proof -
  have "unat (b + 1) = (unat b + 1) mod 256" by (simp add: unat_word_ariths)
  then show ?thesis using byte_lt [of b] by (auto simp: mod_if unat_eq_zero split: if_splits)
qed

lemma byte_inc_0: "(b :: 8 word) + 1 = 0 \<Longrightarrow> unat b = 255"
proof -
  assume 0: "b + 1 = 0"
  have "unat (b + 1) = (unat b + 1) mod 256" by (simp add: unat_word_ariths)
  with 0 have "(unat b + 1) mod 256 = 0" by simp
  with byte_lt [of b] show ?thesis by presburger
qed

lemma byte_inc_not_0: "(b :: 8 word) + 1 \<noteq> 0 \<Longrightarrow> unat b < 255"
  using unat_byte_inc [of b] byte_lt [of "b + 1"] by auto

lemma inc_carry_bytes:
  "inc_carry 3 [a, b, c, d] =
     (if d \<noteq> 0 then [a, b, c, d] else if c + 1 \<noteq> 0 then [a, b, c + 1, d]
      else if b + 1 \<noteq> 0 then [a, b + 1, c + 1, d] else [a + 1, b + 1, c + 1, d])"
  unfolding numeral_3_eq_3
  by (simp add: inc_carry.simps [of "Suc (Suc (Suc 0))"] inc_carry.simps [of "Suc (Suc 0)"]
      inc_carry.simps [of "Suc 0"] inc_carry.simps [of 0])

text \<open>\<open>incIP\<close> is addition of one with wrap-around.\<close>

lemma incIP_eq: "incIP ip = ip + 1"
proof -
  obtain a b c d where v: "bytes_of ip = [a, b, c, d]" and ip: "ip = ip_of_bytes [a, b, c, d]"
    by (rule ip_bytes_cases)
  have "unat (ip_of_bytes (inc_carry 3 [a, b, c, d + 1])) = (unat ip + 1) mod 2 ^ 32"
  proof -
    note lt = byte_lt [of a] byte_lt [of b] byte_lt [of c] byte_lt [of d]
    consider "d + 1 \<noteq> 0" | "d + 1 = 0" "c + 1 \<noteq> 0" | "d + 1 = 0" "c + 1 = 0" "b + 1 \<noteq> 0"
      | "d + 1 = 0" "c + 1 = 0" "b + 1 = 0" "a + 1 \<noteq> 0"
      | "d + 1 = 0" "c + 1 = 0" "b + 1 = 0" "a + 1 = 0" by blast
    then show ?thesis
      unfolding ip unat_ip_of_bytes inc_carry_bytes
      by cases (use lt in \<open>auto simp: unat_ip_of_bytes unat_byte_inc mod_less
          dest!: byte_inc_0 byte_inc_not_0\<close>)
  qed
  also have "\<dots> = unat (ip + 1)" by (simp add: unat_word_ariths)
  finally show ?thesis by (simp add: incIP_def v Let_def numeral_3_eq_3 word_unat_eq_iff)
qed

lemma broadcastIPv4_eq: "broadcastIPv4 n = net_ip n OR NOT (net_mask n)"
proof -
  have "bytes_of (x OR NOT m) = map2 (\<lambda>a m. a OR NOT m) (bytes_of x) (bytes_of m)" for x m :: ip
    by (simp add: bytes_of_def) (auto intro!: bit_word_eqI simp: bit_simps)
  then show ?thesis unfolding broadcastIPv4_def by (metis ip_of_bytes_of)
qed

subsection \<open>Networks as address intervals\<close>

definition wf_net :: "nat \<Rightarrow> ipnet \<Rightarrow> bool" where
  "wf_net k n \<longleftrightarrow> k \<le> 32 \<and> net_mask n = cidr_mask k \<and> 2 ^ (32 - k) dvd unat (net_ip n)"

lemma drop_bit_eq_iff: "drop_bit m x = drop_bit m y \<longleftrightarrow> unat x div 2 ^ m = unat y div 2 ^ m"
  for x y :: ip
  unfolding word_unat_eq_iff unat_drop_bit_eq by (simp add: drop_bit_eq_div)

lemma and_not_mask_eq_iff:
  "x AND NOT (mask m) = y AND NOT (mask m) \<longleftrightarrow> unat x div 2 ^ m = unat y div 2 ^ m" for x y :: ip
proof -
  have "x AND NOT (mask m) = y AND NOT (mask m) \<longleftrightarrow> drop_bit m x = drop_bit m y"
  proof
    assume "x AND NOT (mask m) = y AND NOT (mask m)"
    then have "drop_bit m (x AND NOT (mask m)) = drop_bit m (y AND NOT (mask m))" by simp
    moreover have "drop_bit m (z AND NOT (mask m)) = drop_bit m z" for z :: ip
      by (rule bit_word_eqI) (auto simp: bit_simps dest: bit_imp_le_length)
    ultimately show "drop_bit m x = drop_bit m y" by simp
  next
    assume eq: "drop_bit m x = drop_bit m y"
    show "x AND NOT (mask m) = y AND NOT (mask m)"
    proof (rule bit_word_eqI)
      fix n assume "n < LENGTH(32)"
      have "bit (drop_bit m x) (n - m) = bit (drop_bit m y) (n - m)" by (simp add: eq)
      then show "bit (x AND NOT (mask m)) n = bit (y AND NOT (mask m)) n"
        by (cases "m \<le> n") (auto simp: bit_simps)
    qed
  qed
  then show ?thesis by (simp add: drop_bit_eq_iff)
qed

lemma unat_and_not_mask: "unat (x AND NOT (mask m)) = unat x div 2 ^ m * 2 ^ m" for x :: ip
proof -
  let ?y = "x AND NOT (mask m)"
  have "take_bit m ?y = 0" by (rule bit_word_eqI) (auto simp: bit_simps)
  then have "unat ?y mod 2 ^ m = 0"
    by (simp flip: take_bit_eq_mod unsigned_take_bit_eq)
  moreover have "unat ?y div 2 ^ m = unat x div 2 ^ m"
    by (simp flip: and_not_mask_eq_iff)
  ultimately show ?thesis by (metis add.right_neutral div_mult_mod_eq)
qed

lemma wf_net_contains:
  assumes "wf_net k n"
  shows "net_contains n x \<longleftrightarrow>
    unat (net_ip n) \<le> unat x \<and> unat x < unat (net_ip n) + 2 ^ (32 - k)"
proof -
  let ?m = "32 - k"
  obtain q where q: "unat (net_ip n) = 2 ^ ?m * q" using assms by (auto simp: wf_net_def dvd_def)
  have "net_contains n x \<longleftrightarrow> unat x div 2 ^ ?m = q"
    using assms q by (auto simp: net_contains_def wf_net_def cidr_mask_def and_not_mask_eq_iff)
  also have "\<dots> \<longleftrightarrow> 2 ^ ?m * q \<le> unat x \<and> unat x < 2 ^ ?m * q + 2 ^ ?m"
    by (auto simp: div_nat_eqI dividend_less_times_div algebra_simps intro: div_nat_eqI)
  finally show ?thesis by (simp add: q)
qed

lemma wf_net_limit: "wf_net k n \<Longrightarrow> unat (net_ip n) + 2 ^ (32 - k) \<le> 2 ^ 32"
proof -
  assume "wf_net k n"
  then have k: "k \<le> 32" and dvd: "2 ^ (32 - k) dvd unat (net_ip n)" by (auto simp: wf_net_def)
  from dvd obtain q where q: "unat (net_ip n) = 2 ^ (32 - k) * q" by (rule dvdE)
  have "(2 :: nat) ^ 32 = 2 ^ (32 - k) * 2 ^ k" using k by (simp flip: power_add)
  moreover have "unat (net_ip n) < 2 ^ 32" using unsigned_less [of "net_ip n"] by simp
  ultimately have "2 ^ (32 - k) * q < 2 ^ (32 - k) * (2 :: nat) ^ k" using q by metis
  then have "q < 2 ^ k" by (simp only: nat_mult_less_cancel_disj)
  then have "2 ^ (32 - k) * (q + 1) \<le> 2 ^ (32 - k) * (2 :: nat) ^ k"
    by (intro mult_le_mono2) (simp only: Suc_eq_plus1 [symmetric] Suc_le_eq)
  with q \<open>2 ^ 32 = _\<close> show ?thesis by (simp add: algebra_simps)
qed

lemma unat_mask: "m \<le> 32 \<Longrightarrow> unat (mask m :: ip) = 2 ^ m - 1"
proof -
  assume m: "m \<le> 32"
  have "unat (mask m :: ip) = take_bit m (mask LENGTH(32))"
    unfolding mask_eq_take_bit_minus_one unsigned_take_bit_eq unsigned_minus_1_eq_mask by (rule refl)
  also have "\<dots> = mask m"
    by (rule bit_eqI) (use m in \<open>auto simp: bit_simps simp del: mask_numeral\<close>)
  also have "\<dots> = 2 ^ m - 1" by (rule mask_eq_exp_minus_1)
  finally show ?thesis .
qed

lemma wf_net_broadcast:
  assumes "wf_net k n"
  shows "unat (broadcastIPv4 n) = unat (net_ip n) + 2 ^ (32 - k) - 1"
proof -
  let ?m = "32 - k"
  have base: "unat (net_ip n) div 2 ^ ?m * 2 ^ ?m = unat (net_ip n)"
    using assms by (simp add: wf_net_def)
  then have "net_ip n AND NOT (mask ?m) = net_ip n"
    by (simp add: word_unat_eq_iff unat_and_not_mask)
  then have "net_ip n AND mask ?m = 0"
    by (metis and.assoc and.commute and_zero_eq bit.conj_cancel_right)
  then have "net_ip n + mask ?m = net_ip n OR mask ?m" by (rule disjunctive_add_eq_or)
  then have b: "broadcastIPv4 n = net_ip n + mask ?m"
    using assms by (simp add: broadcastIPv4_eq wf_net_def cidr_mask_def)
  have "unat (mask ?m :: ip) = 2 ^ ?m - 1"
    by (rule unat_mask) simp
  moreover have "unat (net_ip n) + (2 ^ ?m - 1) < 2 ^ 32"
    using wf_net_limit [OF assms] zero_less_power [of "2 :: nat" ?m] by linarith
  ultimately show ?thesis
    unfolding b by (simp add: unat_word_ariths)
qed

lemma wf_net_first: "wf_net k n \<Longrightarrow> net_contains n (net_ip n)"
  by (simp add: net_contains_def)

lemma cidr_mask_inj: "j \<le> 32 \<Longrightarrow> k \<le> 32 \<Longrightarrow> cidr_mask j = cidr_mask k \<longleftrightarrow> j = k"
proof
  assume jk: "j \<le> 32" "k \<le> 32" and "cidr_mask j = cidr_mask k"
  then have "unat (mask (32 - j) :: ip) = unat (mask (32 - k) :: ip)"
    by (simp add: cidr_mask_def)
  then have "(2 :: nat) ^ (32 - j) - 1 = 2 ^ (32 - k) - 1"
    by (simp only: unat_mask [OF diff_le_self])
  then have "(2 :: nat) ^ (32 - j) = 2 ^ (32 - k)"
    using zero_less_power [of "2 :: nat" "32 - j"] zero_less_power [of "2 :: nat" "32 - k"] by linarith
  then have "32 - j = 32 - k" by (rule power_inject_exp [THEN iffD1, rotated]) simp
  with jk show "j = k" by simp
qed simp

lemma find_upt_eq: "k < n \<Longrightarrow> (\<And>j. j < n \<Longrightarrow> P j \<longleftrightarrow> j = k) \<Longrightarrow> List.find P [0..<n] = Some k"
  by (auto simp: find_Some_iff intro!: exI [of _ k])

lemma mask_ones_cidr: "k \<le> 32 \<Longrightarrow> mask_ones (cidr_mask k) = Some k"
  unfolding mask_ones_def by (rule find_upt_eq) (auto simp: cidr_mask_inj)

lemma wf_net_and: "k \<le> 32 \<Longrightarrow> wf_net k \<lparr>net_ip = x AND cidr_mask k, net_mask = cidr_mask k\<rparr>"
  by (simp add: wf_net_def cidr_mask_def unat_and_not_mask)

lemma wf_net_masked: "wf_net k n \<Longrightarrow> net_ip n AND cidr_mask k = net_ip n"
  by (simp add: wf_net_def cidr_mask_def word_unat_eq_iff unat_and_not_mask)

text \<open>Distinct networks of one prefix length do not overlap.\<close>

lemma wf_net_disjoint:
  assumes "wf_net k a" "wf_net k b" "net_contains a x" "net_contains b x"
  shows "a = b"
proof -
  have "net_ip a = net_ip b"
    using assms wf_net_masked [OF assms(1)] wf_net_masked [OF assms(2)]
    by (simp add: net_contains_def wf_net_def)
  with assms show ?thesis by (simp add: wf_net_def)
qed

subsection \<open>Printing and parsing\<close>

lemma parse_octet_dec [simp]: "parse_octet (dec (unat (b :: 8 word))) = Some b"
proof -
  have lt: "unat b < 256" by (rule byte_lt)
  then have "length (dec (unat b)) \<le> 3" by (intro length_dec_3) simp
  moreover have "\<not> (length (dec (unat b)) > 1 \<and> hd (dec (unat b)) = digit_char 0)"
  proof
    assume "length (dec (unat b)) > 1 \<and> hd (dec (unat b)) = digit_char 0"
    then have "unat b = 0" "length (dec (unat b)) > 1" by (auto intro: hd_dec_zero)
    then show False by (simp add: dec.simps [of 0])
  qed
  ultimately show ?thesis using lt by (auto simp: parse_octet_def)
qed

lemma dot_dec: "CHR ''.'' \<notin> set (dec n)" "CHR ''/'' \<notin> set (dec n)"
  by (rule dec_no_sep, simp add: digit_val_def)+

lemma split_on_ip_string:
  "split_on (CHR ''.'') (ip_string ip) = map (\<lambda>b. dec (unat b)) (bytes_of ip)"
proof -
  obtain a b c d where "bytes_of ip = [a, b, c, d]" by (rule ip_bytes_cases)
  then show ?thesis by (simp add: ip_string_def split_on_append dot_dec)
qed

lemma ParseIP4_ip_string: "ParseIP4 (ip_string ip) = Some ip"
proof -
  obtain a b c d where v: "bytes_of ip = [a, b, c, d]" "ip = ip_of_bytes [a, b, c, d]"
    by (rule ip_bytes_cases)
  then show ?thesis by (simp add: ParseIP4_def split_on_ip_string)
qed

lemma ip_string_inj: "ip_string a = ip_string b \<longleftrightarrow> a = b"
  by (metis ParseIP4_ip_string option.inject)

lemma slash_ip_string: "CHR ''/'' \<notin> set (ip_string ip)"
proof -
  obtain a b c d where "bytes_of ip = [a, b, c, d]" by (rule ip_bytes_cases)
  then show ?thesis by (simp add: ip_string_def dot_dec)
qed

lemma ParseCIDR4_ipnet_string: "wf_net k n \<Longrightarrow> ParseCIDR4 (ipnet_string n) = Some n"
  using wf_net_masked [of k n]
  by (auto simp: ParseCIDR4_def ipnet_string_def str_cut_append slash_ip_string mask_ones_cidr
      ParseIP4_ip_string wf_net_def)

lemma ParseCIDR4_wf: "ParseCIDR4 s = Some n \<Longrightarrow> \<exists>k. wf_net k n"
proof -
  assume "ParseCIDR4 s = Some n"
  then obtain k x where "k \<le> 32" "n = \<lparr>net_ip = x AND cidr_mask k, net_mask = cidr_mask k\<rparr>"
    by (auto simp: ParseCIDR4_def split: option.splits if_splits)
  then show ?thesis using wf_net_and by blast
qed

end
