(* ===== verification/File_Store.thy ===== *)
theory File_Store
  imports Prelude
begin

text \<open>
  The JSON file protocol that all seven stores share (\<open>src/internal/store/*/store.go\<close>):
  \<open>withLock\<close> takes the process mutex and an exclusive \<open>flock\<close>, loads the document, runs a
  closure on it and replaces the file by writing a temporary file and renaming it;
  \<open>withRLock\<close> does the same without the save.

  The content of a file is the document it decodes to (\<open>Doc\<close>), bytes that are no document
  (\<open>Garbage\<close>: an empty or partly written file) or nothing (\<open>Absent\<close>); encoding a document
  and decoding it again gives it back.  Every call to the operating system can fail: a \<open>faults\<close>
  record says which calls of one execution return an error.
\<close>

subsection \<open>Files and faults\<close>

datatype 'st content = Absent | Garbage | Doc 'st

record 'st disk =
  main_file :: "'st content"
  tmp_file :: "'st content"

record faults =
  f_mkdir :: "error option"
  f_openlock :: "error option"
  f_flock :: "error option"
  f_read :: "error option"
  f_marshal :: "error option"
  f_opentmp :: "error option"
  f_write :: "error option"
  f_sync :: "error option"
  f_close :: "error option"
  f_rename :: "error option"

definition no_faults :: faults where
  "no_faults = \<lparr>f_mkdir = None, f_openlock = None, f_flock = None, f_read = None, f_marshal = None,
     f_opentmp = None, f_write = None, f_sync = None, f_close = None, f_rename = None\<rparr>"

datatype 'st read = ReadErr error | ReadNotExist error | ReadBytes "'st option"

definition no_such_file :: error where
  "no_such_file = Err ''no such file or directory''"

definition read_main :: "faults \<Rightarrow> 'st disk \<Rightarrow> 'st read" where
  "read_main fl d =
     (case f_read fl of Some e \<Rightarrow> ReadErr e
      | None \<Rightarrow> (case main_file d of
          Absent \<Rightarrow> ReadNotExist no_such_file
        | Garbage \<Rightarrow> ReadBytes None
        | Doc st \<Rightarrow> ReadBytes (Some st)))"

text \<open>\<open>if err := call(); err != nil { return err }\<close>.\<close>

definition os_call :: "error option \<Rightarrow> 'st disk \<Rightarrow> 'a result \<times> 'st disk \<Rightarrow> 'a result \<times> 'st disk" where
  "os_call e d k = (case e of Some x \<Rightarrow> (Inl x, d) | None \<Rightarrow> k)"

lemma os_call_simps [simp]: "os_call None d k = k" "os_call (Some e) d k = (Inl e, d)"
  by (simp_all add: os_call_def)

subsection \<open>The protocol\<close>

definition atomic_save :: "faults \<Rightarrow> 'st \<Rightarrow> 'st disk \<Rightarrow> unit result \<times> 'st disk" where
  "atomic_save fl st d =
     os_call (f_marshal fl) d (
     os_call (f_opentmp fl) d (
     os_call (f_write fl) (d\<lparr>tmp_file := Garbage\<rparr>) (
     os_call (f_sync fl) (d\<lparr>tmp_file := Doc st\<rparr>) (
     os_call (f_close fl) (d\<lparr>tmp_file := Doc st\<rparr>) (
     os_call (f_rename fl) (d\<lparr>tmp_file := Doc st\<rparr>)
       (Inr (), d\<lparr>main_file := Doc st, tmp_file := Absent\<rparr>))))))"

definition with_lock ::
  "('st read \<Rightarrow> 'st result) \<Rightarrow> faults \<Rightarrow> ('st \<Rightarrow> ('a \<times> 'st) result) \<Rightarrow> 'st disk \<Rightarrow> 'a result \<times> 'st disk" where
  "with_lock load fl fn d =
     os_call (f_mkdir fl) d (
     os_call (f_openlock fl) d (
     os_call (f_flock fl) d (
       case load (read_main fl d) of
         Inl e \<Rightarrow> (Inl e, d)
       | Inr st \<Rightarrow> (case fn st of
           Inl e \<Rightarrow> (Inl e, d)
         | Inr (a, st') \<Rightarrow> (case atomic_save fl st' d of
             (Inl e, d') \<Rightarrow> (Inl e, d')
           | (Inr u, d') \<Rightarrow> (Inr a, d'))))))"

definition with_rlock ::
  "('st read \<Rightarrow> 'st result) \<Rightarrow> faults \<Rightarrow> ('st \<Rightarrow> 'a result) \<Rightarrow> 'st disk \<Rightarrow> 'a result \<times> 'st disk" where
  "with_rlock load fl fn d =
     os_call (f_mkdir fl) d (
     os_call (f_openlock fl) d (
     os_call (f_flock fl) d (
       case load (read_main fl d) of
         Inl e \<Rightarrow> (Inl e, d)
       | Inr st \<Rightarrow> (case fn st of Inl e \<Rightarrow> (Inl e, d) | Inr a \<Rightarrow> (Inr a, d)))))"

text \<open>A closure that returns only an error.\<close>

definition upd :: "('st \<Rightarrow> 'st result) \<Rightarrow> 'st \<Rightarrow> (unit \<times> 'st) result" where
  "upd f st = (case f st of Inl e \<Rightarrow> Inl e | Inr st' \<Rightarrow> Inr ((), st'))"

lemma upd_eq_Inr [simp]: "upd f st = Inr (u, st') \<longleftrightarrow> f st = Inr st'"
  by (auto simp: upd_def split: sum.splits)

subsection \<open>Outcomes of a save and of a locked update\<close>

lemma atomic_save_cases:
  obtains (ok) "atomic_save fl st d = (Inr (), d\<lparr>main_file := Doc st, tmp_file := Absent\<rparr>)"
  | (fail) e t where "atomic_save fl st d = (Inl e, d\<lparr>tmp_file := t\<rparr>)"
proof -
  have "atomic_save fl st d = (Inr (), d\<lparr>main_file := Doc st, tmp_file := Absent\<rparr>)
      \<or> (\<exists>e t. atomic_save fl st d = (Inl e, d\<lparr>tmp_file := t\<rparr>))"
  proof -
    have self: "d = d\<lparr>tmp_file := tmp_file d\<rparr>" by simp
    show ?thesis
      unfolding atomic_save_def os_call_def by (auto split: option.splits intro: self)
  qed
  then show thesis using ok fail by blast
qed

lemma with_lock_cases:
  obtains (ok) st a st' where "load (read_main fl d) = Inr st" "fn st = Inr (a, st')"
      "with_lock load fl fn d = (Inr a, d\<lparr>main_file := Doc st', tmp_file := Absent\<rparr>)"
  | (fail) e t where "with_lock load fl fn d = (Inl e, d\<lparr>tmp_file := t\<rparr>)"
proof (cases "f_mkdir fl = None \<and> f_openlock fl = None \<and> f_flock fl = None")
  case False
  then have "\<exists>e. with_lock load fl fn d = (Inl e, d)"
    by (cases "f_mkdir fl"; cases "f_openlock fl"; cases "f_flock fl") (simp_all add: with_lock_def)
  then obtain e where "with_lock load fl fn d = (Inl e, d)" by blast
  then have "with_lock load fl fn d = (Inl e, d\<lparr>tmp_file := tmp_file d\<rparr>)" by simp
  then show ?thesis by (rule fail)
next
  case locked: True
  show ?thesis
  proof (cases "load (read_main fl d)")
    case (Inl e)
    with locked have "with_lock load fl fn d = (Inl e, d\<lparr>tmp_file := tmp_file d\<rparr>)"
      by (simp add: with_lock_def)
    then show ?thesis by (rule fail)
  next
    case st: (Inr st)
    show ?thesis
    proof (cases "fn st")
      case (Inl e)
      with locked st have "with_lock load fl fn d = (Inl e, d\<lparr>tmp_file := tmp_file d\<rparr>)"
        by (simp add: with_lock_def)
      then show ?thesis by (rule fail)
    next
      case r: (Inr r)
      obtain a st' where r': "fn st = Inr (a, st')" using r by (cases r) auto
      show ?thesis
      proof (cases rule: atomic_save_cases [of fl st' d])
        case ok': ok
        with locked st r' show ?thesis by (intro ok) (auto simp: with_lock_def)
      next
        case (fail e t)
        with locked st r' show ?thesis by (intro that(2)) (auto simp: with_lock_def)
      qed
    qed
  qed
qed

lemma with_rlock_disk [simp]: "snd (with_rlock load fl fn d) = d"
  by (auto simp: with_rlock_def os_call_def split: option.splits sum.splits)

subsection \<open>A save as a sequence of steps, with failures and crashes anywhere\<close>

datatype save_pc = At_marshal | At_open | At_write | At_sync | At_close | At_rename | Saved | Failed

inductive save_step :: "'st \<Rightarrow> save_pc \<times> 'st disk \<Rightarrow> save_pc \<times> 'st disk \<Rightarrow> bool" for st where
  marshal: "save_step st (At_marshal, d) (At_open, d)"
| opened: "save_step st (At_open, d) (At_write, d\<lparr>tmp_file := Garbage\<rparr>)"
| part_written: "save_step st (At_write, d) (At_write, d\<lparr>tmp_file := Garbage\<rparr>)"
| written: "save_step st (At_write, d) (At_sync, d\<lparr>tmp_file := Doc st\<rparr>)"
| synced: "save_step st (At_sync, d) (At_close, d)"
| closed: "save_step st (At_close, d) (At_rename, d)"
| renamed: "save_step st (At_rename, d) (Saved, d\<lparr>main_file := tmp_file d, tmp_file := Absent\<rparr>)"
| failed: "pc \<noteq> Saved \<Longrightarrow> save_step st (pc, d) (Failed, d)"

inductive_simps save_step_simps: "save_step st (pc, d) s'"

inductive save_reach :: "'st \<Rightarrow> 'st disk \<Rightarrow> save_pc \<times> 'st disk \<Rightarrow> bool" for st d0 where
  start: "save_reach st d0 (At_marshal, d0)"
| step: "save_reach st d0 s \<Longrightarrow> save_step st s s' \<Longrightarrow> save_reach st d0 s'"

text \<open>What holds between the steps: the main file is untouched until the rename, and the rename
  only happens when the temporary file holds the whole document.\<close>

definition save_inv :: "'st \<Rightarrow> 'st disk \<Rightarrow> save_pc \<times> 'st disk \<Rightarrow> bool" where
  "save_inv st d0 s =
     (case s of (pc, d) \<Rightarrow>
       (if pc = Saved then main_file d = Doc st else main_file d = main_file d0) \<and>
       (pc \<in> {At_sync, At_close, At_rename} \<longrightarrow> tmp_file d = Doc st))"

lemma save_reach_inv: "save_reach st d0 s \<Longrightarrow> save_inv st d0 s"
proof (induction rule: save_reach.induct)
  case start
  show ?case by (simp add: save_inv_def)
next
  case (step s s')
  from step.hyps(2) step.IH show ?case
    by (cases s; cases rule: save_step.cases) (auto simp: save_inv_def)
qed

lemma atomic_save_reach:
  "\<exists>pc. save_reach st d (pc, snd (atomic_save fl st d)) \<and> (is_ok (fst (atomic_save fl st d)) \<longleftrightarrow> pc = Saved)"
proof -
  let ?g = "d\<lparr>tmp_file := Garbage\<rparr>" and ?t = "d\<lparr>tmp_file := Doc st\<rparr>"
  have 0: "save_reach st d (At_marshal, d)" by (rule save_reach.start)
  have 1: "save_reach st d (At_open, d)" by (rule save_reach.step [OF 0 save_step.marshal])
  have 2: "save_reach st d (At_write, ?g)" by (rule save_reach.step [OF 1 save_step.opened])
  have 3: "save_reach st d (At_sync, ?t)"
    using save_reach.step [OF 2 save_step.written] by simp
  have 4: "save_reach st d (At_close, ?t)" by (rule save_reach.step [OF 3 save_step.synced])
  have 5: "save_reach st d (At_rename, ?t)" by (rule save_reach.step [OF 4 save_step.closed])
  have 6: "save_reach st d (Saved, d\<lparr>main_file := Doc st, tmp_file := Absent\<rparr>)"
    using save_reach.step [OF 5 save_step.renamed] by simp
  have f: "save_reach st d (pc, d') \<Longrightarrow> pc \<noteq> Saved \<Longrightarrow> save_reach st d (Failed, d')" for pc d'
    by (rule save_reach.step [OF _ save_step.failed])
  have fs: "save_reach st d (Failed, d)" "save_reach st d (Failed, ?g)" "save_reach st d (Failed, ?t)"
    using f [OF 0] f [OF 2] f [OF 3] by simp_all
  show ?thesis
    unfolding atomic_save_def os_call_def
    using 6 fs by (force split: option.splits)
qed

subsection \<open>Concurrent users of one file\<close>

text \<open>
  Several handles of one store (each service opens its own) run \<open>withLock\<close> concurrently.  The
  exclusive \<open>flock\<close> has at most one holder; a client that holds it loads the document, computes
  and saves, and only then releases.  \<open>tasks\<close> gives each client's closure; \<open>committed\<close> records
  the clients in the order of their saves.
\<close>

datatype 'st client = Idle | Locked | Loaded 'st | Finished

record 'st shared =
  document :: 'st
  lock_holder :: "nat option"
  clients :: "nat \<Rightarrow> 'st client"
  committed :: "nat list"

inductive lock_step :: "(nat \<Rightarrow> 'st \<Rightarrow> 'st result) \<Rightarrow> 'st shared \<Rightarrow> 'st shared \<Rightarrow> bool" for tasks where
  flock: "clients s i = Idle \<Longrightarrow> lock_holder s = None \<Longrightarrow>
     lock_step tasks s (s\<lparr>lock_holder := Some i, clients := (clients s)(i := Locked)\<rparr>)"
| load: "clients s i = Locked \<Longrightarrow>
     lock_step tasks s (s\<lparr>clients := (clients s)(i := Loaded (document s))\<rparr>)"
| save: "clients s i = Loaded st \<Longrightarrow> tasks i st = Inr st' \<Longrightarrow>
     lock_step tasks s (s\<lparr>document := st', lock_holder := None,
       clients := (clients s)(i := Finished), committed := committed s @ [i]\<rparr>)"
| give_up: "clients s i = Locked \<or> (\<exists>st. clients s i = Loaded st) \<Longrightarrow>
     lock_step tasks s (s\<lparr>lock_holder := None, clients := (clients s)(i := Finished)\<rparr>)"
| again: "clients s i = Finished \<Longrightarrow>
     lock_step tasks s (s\<lparr>clients := (clients s)(i := Idle)\<rparr>)"

inductive lock_reach :: "(nat \<Rightarrow> 'st \<Rightarrow> 'st result) \<Rightarrow> 'st \<Rightarrow> 'st shared \<Rightarrow> bool" for tasks st0 where
  init: "lock_reach tasks st0 \<lparr>document = st0, lock_holder = None, clients = (\<lambda>_. Idle), committed = []\<rparr>"
| more: "lock_reach tasks st0 s \<Longrightarrow> lock_step tasks s s' \<Longrightarrow> lock_reach tasks st0 s'"

text \<open>The serial execution of a list of tasks, one after the other.\<close>

fun serial :: "(nat \<Rightarrow> 'st \<Rightarrow> 'st result) \<Rightarrow> nat list \<Rightarrow> 'st \<Rightarrow> 'st result" where
  "serial tasks [] st = Inr st"
| "serial tasks (i # is) st = bind_res (tasks i st) (serial tasks is)"

lemma serial_snoc: "serial tasks (is @ [i]) st = bind_res (serial tasks is st) (tasks i)"
proof (induction "is" arbitrary: st)
  case Nil
  show ?case by (cases "tasks i st") simp_all
next
  case (Cons j js)
  show ?case by (cases "tasks j st") (simp_all add: Cons)
qed

definition lock_inv :: "(nat \<Rightarrow> 'st \<Rightarrow> 'st result) \<Rightarrow> 'st \<Rightarrow> 'st shared \<Rightarrow> bool" where
  "lock_inv tasks st0 s \<longleftrightarrow>
     serial tasks (committed s) st0 = Inr (document s) \<and>
     (\<forall>i. clients s i \<noteq> Idle \<and> clients s i \<noteq> Finished \<longrightarrow> lock_holder s = Some i) \<and>
     (\<forall>i st. clients s i = Loaded st \<longrightarrow> st = document s)"

lemma lock_inv_holder:
  assumes "lock_inv tasks st0 s" "clients s i = Locked \<or> (\<exists>st. clients s i = Loaded st)" "j \<noteq> i"
  shows "(clients s j = Idle \<or> clients s j = Finished) \<and> clients s j \<noteq> Loaded st'"
proof (rule ccontr)
  assume "\<not> ?thesis"
  then have "lock_holder s = Some j" using assms(1) by (auto simp: lock_inv_def)
  moreover have "lock_holder s = Some i" using assms(1,2) by (auto simp: lock_inv_def)
  ultimately show False using assms(3) by simp
qed

lemma lock_step_inv: "lock_step tasks s s' \<Longrightarrow> lock_inv tasks st0 s \<Longrightarrow> lock_inv tasks st0 s'"
proof (induction rule: lock_step.induct)
  case (save s i st st')
  have others: "\<And>j st. j \<noteq> i \<Longrightarrow>
      (clients s j = Idle \<or> clients s j = Finished) \<and> clients s j \<noteq> Loaded st"
    using lock_inv_holder [OF save.prems] save.hyps(1) by blast
  have st: "tasks i (document s) = Inr st'" and "serial tasks (committed s) st0 = Inr (document s)"
    using save unfolding lock_inv_def by metis+
  then have "serial tasks (committed s @ [i]) st0 = Inr st'" by (simp add: serial_snoc)
  with others show ?case by (auto simp: lock_inv_def)
next
  case (give_up s i)
  have others: "\<And>j st. j \<noteq> i \<Longrightarrow>
      (clients s j = Idle \<or> clients s j = Finished) \<and> clients s j \<noteq> Loaded st"
    using lock_inv_holder [OF give_up.prems give_up.hyps] .
  have "serial tasks (committed s) st0 = Inr (document s)"
    using give_up.prems by (simp add: lock_inv_def)
  with others show ?case by (auto simp: lock_inv_def)
next
  case (flock s i)
  then show ?case by (auto simp: lock_inv_def)
next
  case (load s i)
  then show ?case by (auto simp: lock_inv_def)
next
  case (again s i)
  then show ?case by (auto simp: lock_inv_def)
qed

lemma lock_reach_inv: "lock_reach tasks st0 s \<Longrightarrow> lock_inv tasks st0 s"
proof (induction rule: lock_reach.induct)
  case init
  show ?case by (simp add: lock_inv_def)
next
  case (more s s')
  then show ?case by (blast intro: lock_step_inv)
qed

subsection \<open>The contract of a store\<close>

definition doc_inv :: "('st \<Rightarrow> bool) \<Rightarrow> 'st disk \<Rightarrow> bool" where
  "doc_inv valid d = (case main_file d of Doc st \<Rightarrow> valid st | _ \<Rightarrow> True)"

text \<open>A history of locked updates, each with the faults it meets.\<close>

fun run_updates ::
  "('st read \<Rightarrow> 'st result) \<Rightarrow> (faults \<times> ('st \<Rightarrow> 'st result)) list \<Rightarrow> 'st disk \<Rightarrow> 'st disk" where
  "run_updates load [] d = d"
| "run_updates load ((fl, f) # us) d = run_updates load us (snd (with_lock load fl (upd f) d))"

subsection \<open>Store documents\<close>

text \<open>
  A service sees a store as its document; each access takes the next outcome of the script of
  input and output errors (an empty script: no error any more).
\<close>

type_synonym io_script = "error option list"

definition next_io :: "io_script \<Rightarrow> error option \<times> io_script" where
  "next_io io = (case io of [] \<Rightarrow> (None, []) | x # xs \<Rightarrow> (x, xs))"

definition store_access :: "('st \<Rightarrow> ('a \<times> 'st) result) \<Rightarrow> io_script \<times> 'st \<Rightarrow> 'a result \<times> (io_script \<times> 'st)" where
  "store_access fn s =
     (case s of (io, st) \<Rightarrow> (case next_io io of
        (Some e, io') \<Rightarrow> (Inl e, (io', st))
      | (None, io') \<Rightarrow> (case fn st of Inl e \<Rightarrow> (Inl e, (io', st)) | Inr (a, st') \<Rightarrow> (Inr a, (io', st')))))"

lemma store_access_simps:
  "store_access fn ([], st) = (case fn st of Inl e \<Rightarrow> (Inl e, ([], st)) | Inr (a, st') \<Rightarrow> (Inr a, ([], st')))"
  "store_access fn (Some e # io, st) = (Inl e, (io, st))"
  "store_access fn (None # io, st) = (case fn st of Inl e \<Rightarrow> (Inl e, (io, st)) | Inr (a, st') \<Rightarrow> (Inr a, (io, st')))"
  by (simp_all add: store_access_def next_io_def)

text \<open>The document a file stands for when it can be read.\<close>

definition doc_of :: "('st read \<Rightarrow> 'st result) \<Rightarrow> 'st disk \<Rightarrow> 'st result" where
  "doc_of load d = load (read_main no_faults d)"

lemma doc_of_saved: "doc_of load (d\<lparr>main_file := Doc st\<rparr>) = load (ReadBytes (Some st))"
  by (simp add: doc_of_def read_main_def no_faults_def)

lemma doc_of_tmp [simp]: "doc_of load (d\<lparr>tmp_file := t\<rparr>) = doc_of load d"
  by (simp add: doc_of_def read_main_def no_faults_def)

subsection \<open>The interface of a store file\<close>

text \<open>
  What a store's \<open>loadOrInit\<close> promises: a missing file yields an initial document, a document
  is normalised (nil maps become empty), everything else is an error; initial and normalised
  documents satisfy the store's invariant.
\<close>

locale json_store =
  fixes load :: "'st read \<Rightarrow> 'st result"
    and norm :: "'st \<Rightarrow> 'st"
    and valid :: "'st \<Rightarrow> bool"
  assumes load_absent: "load (ReadNotExist e) = Inr st \<Longrightarrow> valid st"
    and load_doc: "load (ReadBytes (Some st)) = Inr (norm st)"
    and load_err: "\<not> is_ok (load (ReadErr e))"
    and load_garbage: "\<not> is_ok (load (ReadBytes None))"
    and inv_norm: "valid st \<Longrightarrow> valid (norm st)"
begin

lemma loaded_inv: "doc_inv valid d \<Longrightarrow> load (read_main fl d) = Inr st \<Longrightarrow> valid st"
  using load_garbage load_err inv_norm
  by (auto simp: doc_inv_def read_main_def load_doc is_ok_iff
      split: option.splits content.splits dest: load_absent)

text \<open>Whatever calls fail, a locked update of the file is one access to its document.\<close>

lemma with_lock_access:
  assumes "doc_of load d = Inr st" "with_lock load fl fn d = (r, d')"
    and norm_id: "\<And>s. norm s = s"
  shows "\<exists>io st'. store_access fn ([io], st) = (r, ([], st')) \<and> doc_of load d' = Inr st'"
proof -
  have rd: "load (read_main fl d) = Inr s \<Longrightarrow> s = st" for s
    using assms(1) load_err by (auto simp: doc_of_def read_main_def no_faults_def is_ok_iff split: option.splits)
  show ?thesis
  proof (cases rule: with_lock_cases [of load fl d fn])
    case (ok s a st')
    then have "store_access fn ([None], st) = (r, ([], st'))"
      using rd assms(2) by (auto simp: store_access_simps)
    moreover have "doc_of load d' = Inr st'"
      using ok(3) assms(2) norm_id by (auto simp: doc_of_saved load_doc)
    ultimately show ?thesis by blast
  next
    case (fail e t)
    then have "store_access fn ([Some e], st) = (r, ([], st))" "doc_of load d' = Inr st"
      using assms by (auto simp: store_access_simps)
    then show ?thesis by blast
  qed
qed

lemma with_lock_inv:
  assumes "doc_inv valid d" "\<And>st a st'. valid st \<Longrightarrow> fn st = Inr (a, st') \<Longrightarrow> valid st'"
  shows "doc_inv valid (snd (with_lock load fl fn d))"
proof (cases rule: with_lock_cases [of load fl d fn])
  case (ok st a st')
  from assms(2) [OF loaded_inv [OF assms(1) ok(1)] ok(2)] ok(3) show ?thesis
    by (simp add: doc_inv_def)
next
  case (fail e t)
  with assms(1) show ?thesis by (simp add: doc_inv_def)
qed

lemma run_updates_inv:
  assumes "\<And>fl f st st'. (fl, f) \<in> set us \<Longrightarrow> valid st \<Longrightarrow> f st = Inr st' \<Longrightarrow> valid st'" "doc_inv valid d"
  shows "doc_inv valid (run_updates load us d)"
  using assms
proof (induction us arbitrary: d)
  case Nil
  then show ?case by simp
next
  case (Cons u us)
  obtain fl f where u: "u = (fl, f)" by (cases u)
  have "doc_inv valid (snd (with_lock load fl (upd f) d))"
    using Cons.prems u by (intro with_lock_inv) auto
  then have "doc_inv valid (run_updates load us (snd (with_lock load fl (upd f) d)))"
    by (rule Cons.IH [rotated]) (use Cons.prems(1) in auto)
  with u show ?case by simp
qed

text \<open>A reader that runs after a successful update sees the saved document.\<close>

lemma read_back:
  assumes "fst (with_lock load fl fn d) = Inr a"
  shows "\<exists>st st'. fn st = Inr (a, st') \<and>
    fst (with_rlock load no_faults g (snd (with_lock load fl fn d))) = g (norm st')"
proof (cases rule: with_lock_cases [of load fl d fn])
  case (ok st b st')
  then have "fst (with_rlock load no_faults g (snd (with_lock load fl fn d))) = g (norm st')"
    by (simp add: with_rlock_def read_main_def no_faults_def load_doc split: sum.splits)
  with ok assms show ?thesis by auto
next
  case (fail e t)
  with assms show ?thesis by simp
qed

end

subsection \<open>Properties\<close>

text \<open>A locked update is all or nothing, whatever calls fail.  If \<open>withLock\<close> reports success, the
  closure ran on the loaded document and the file holds the document it produced; if it reports an
  error, the file is unchanged.  Without faults it succeeds exactly when loading and the closure do.\<close>

theorem with_lock_atomic:
  "(case with_lock load fl fn d of
     (Inr a, d') \<Rightarrow> (\<exists>st st'. load (read_main fl d) = Inr st \<and> fn st = Inr (a, st') \<and>
        main_file d' = Doc st' \<and> tmp_file d' = Absent)
   | (Inl e, d') \<Rightarrow> main_file d' = main_file d) \<and>
   (is_ok (fst (with_lock load no_faults fn d)) \<longleftrightarrow>
      (\<exists>st. load (read_main no_faults d) = Inr st \<and> is_ok (fn st)))"
proof (rule conjI)
  show "case with_lock load fl fn d of
     (Inr a, d') \<Rightarrow> (\<exists>st st'. load (read_main fl d) = Inr st \<and> fn st = Inr (a, st') \<and>
        main_file d' = Doc st' \<and> tmp_file d' = Absent)
   | (Inl e, d') \<Rightarrow> main_file d' = main_file d"
    by (cases rule: with_lock_cases [of load fl d fn]) auto
  show "is_ok (fst (with_lock load no_faults fn d)) \<longleftrightarrow>
      (\<exists>st. load (read_main no_faults d) = Inr st \<and> is_ok (fn st))"
    by (auto simp: with_lock_def no_faults_def atomic_save_def is_ok_iff split: sum.splits)
qed

text \<open>C6: a crash during a save never damages the store.  Stop the save between any two of its steps,
  or in the middle of the write: the file holds the complete old content, or the complete new
  document once the rename has happened; and the program's save is one run of those steps, which
  succeeds exactly when it reaches the end.\<close>

theorem save_crash_safe:
  assumes "save_reach st d0 (pc, d)"
  shows "main_file d = (if pc = Saved then Doc st else main_file d0) \<and>
    (\<exists>pc'. save_reach st d0 (pc', snd (atomic_save fl st d0)) \<and>
      (is_ok (fst (atomic_save fl st d0)) \<longleftrightarrow> pc' = Saved))"
  using save_reach_inv [OF assms] atomic_save_reach by (simp add: save_inv_def)

theorem save_crash_safe_witness:
  "save_reach (5 :: nat) \<lparr>main_file = Doc 3, tmp_file = Absent\<rparr> (At_write, \<lparr>main_file = Doc 3, tmp_file = Garbage\<rparr>) \<and>
   is_ok (fst (atomic_save no_faults (5 :: nat) \<lparr>main_file = Doc 3, tmp_file = Absent\<rparr>))"
proof -
  let ?d = "\<lparr>main_file = Doc (3 :: nat), tmp_file = Absent\<rparr>"
  have "save_reach 5 ?d (At_open, ?d)" by (rule save_reach.step [OF save_reach.start save_step.marshal])
  from save_reach.step [OF this save_step.opened]
  have w: "save_reach 5 ?d (At_write, \<lparr>main_file = Doc 3, tmp_file = Garbage\<rparr>)" by simp
  from save_crash_safe [OF w, of no_faults] w show ?thesis by (simp add: atomic_save_def no_faults_def)
qed

text \<open>C3: concurrent updates of one store are serialisable.  In every interleaving of clients that
  lock, load, save, fail and try again, the document is what the tasks produce one after the
  other, in the order of the saves: no update is lost; and at most one client is between its
  load and its save.\<close>

theorem lock_serializable:
  assumes "lock_reach tasks st0 s"
  shows "serial tasks (committed s) st0 = Inr (document s) \<and>
    (\<forall>i j st st'. clients s i = Loaded st \<longrightarrow> clients s j = Loaded st' \<longrightarrow> i = j \<and> st = document s)"
proof -
  have inv: "lock_inv tasks st0 s" by (rule lock_reach_inv [OF assms])
  have "i = j" if "clients s i = Loaded st" "clients s j = Loaded st'" for i j st st'
    using lock_inv_holder [OF inv, of i j st'] that by auto
  moreover have "serial tasks (committed s) st0 = Inr (document s)" "\<forall>i st. clients s i = Loaded st \<longrightarrow> st = document s"
    using inv by (simp_all add: lock_inv_def)
  ultimately show ?thesis by blast
qed

theorem lock_serializable_witness:
  "\<exists>s. lock_reach (\<lambda>i n. Inr (n + i)) (1 :: nat) s \<and> committed s = [2] \<and> document s = 3"
proof -
  let ?t = "\<lambda>i n. Inr (n + i) :: nat result"
  let ?s0 = "\<lparr>document = 1, lock_holder = None, clients = (\<lambda>_. Idle), committed = []\<rparr> :: nat shared"
  let ?s1 = "?s0\<lparr>lock_holder := Some 2, clients := (clients ?s0)(2 := Locked)\<rparr>"
  let ?s2 = "?s1\<lparr>clients := (clients ?s1)(2 := Loaded (document ?s1))\<rparr>"
  let ?s3 = "?s2\<lparr>document := 3, lock_holder := None, clients := (clients ?s2)(2 := Finished),
    committed := committed ?s2 @ [2]\<rparr>"
  have 0: "lock_reach ?t 1 ?s0" by (rule lock_reach.init)
  have 1: "lock_reach ?t 1 ?s1" by (rule lock_reach.more [OF 0 lock_step.flock]) simp_all
  have 2: "lock_reach ?t 1 ?s2" by (rule lock_reach.more [OF 1 lock_step.load]) simp
  have 3: "lock_reach ?t 1 ?s3" by (rule lock_reach.more [OF 2 lock_step.save [where st = 1]]) simp_all
  have "serial ?t (committed ?s3) 1 = Inr (document ?s3)" by (rule conjunct1 [OF lock_serializable [OF 3]])
  moreover have "committed ?s3 = [2]" "document ?s3 = 3" by simp_all
  ultimately show ?thesis using 3 by blast
qed

end
