(* ===== verification/Ipam.thy ===== *)
theory Ipam
  imports Net_Addr File_Store
begin

text \<open>
  The IP address management store (\<open>src/internal/store/ipam\<close>): address pools, one per bridge,
  and the addresses they hand out.

  Every operation is the closure that the Go method passes to \<open>withLock\<close> or \<open>withRLock\<close>, as a
  function of the loaded \<open>IpamState\<close>; \<open>ipam_run\<close> puts a state-changing closure under the file
  protocol.  \<open>now\<close> is the value of \<open>time.Now()\<close>.  A pool's \<open>Allocations\<close> is an option, since
  a Go map read from JSON can be nil (\<open>None\<close>): reading it sees no entry and writing it panics.
\<close>

subsection \<open>Data (model.go)\<close>

record ForwardInfo =
  HostPort :: int
  ContainerPort :: int
  Protocol :: string

record Allocation =
  ContainerId :: string
  al_Interface :: string
  Forwards :: "ForwardInfo list"
  AssignedAt :: time

record Pool =
  pl_Interface :: string
  Subnet :: string
  Address :: string
  Allocations :: "(string, Allocation) gomap option"

record DnsProxy =
  DnsProxyInterface :: string
  DnsProxyAddr :: string
  Upstreams :: "string list"

record IpamState =
  ipam_Version :: string
  RuntimeSubnet :: string
  ipam_DnsProxy :: DnsProxy
  HostInterface :: string
  HostInterfaceAddr :: string
  Pools :: "Pool list"

record NetworkList =
  nl_Interface :: string
  nl_Address :: string
  NumContainers :: nat

text \<open>Reading a nil map is reading an empty one.\<close>

definition allocs :: "Pool \<Rightarrow> (string, Allocation) gomap" where
  "allocs p = (case Allocations p of None \<Rightarrow> [] | Some m \<Rightarrow> m)"

lemma allocs_upd [simp]: "allocs (p\<lparr>Allocations := Some m\<rparr>) = m"
  by (simp add: allocs_def)

subsection \<open>The host's default interface (network.go)\<close>

text \<open>The two commands are parameters: their output, or the error of running them.\<close>

fun field_after_dev :: "string list \<Rightarrow> string option" where
  "field_after_dev (a # b # fs) = (if a = ''dev'' then Some b else field_after_dev (b # fs))"
| "field_after_dev _ = None"

definition newline :: char where
  "newline = char_of (10 :: nat)"

definition GetDefaultInterfaceIpv4 :: "string result \<Rightarrow> string result" where
  "GetDefaultInterfaceIpv4 route_out =
     (case route_out of
        Inl e \<Rightarrow> Inl (Err (''run ip route: '' @ err_text e))
      | Inr out \<Rightarrow>
          (let lines = split_on newline (trim_space out) in
           if lines = [] \<or> trim_space (hd lines) = [] then Inl (Err ''no defauilt route found (ipv4)'')
           else (case field_after_dev (str_fields (hd lines)) of
               Some dev \<Rightarrow> Inr dev
             | None \<Rightarrow> Inl (Err (''cannot find dev in: '' @ hd lines)))))"

text \<open>The regular expression \<open>inet\s+([0-9.]+/\d+)\<close>, matched at the head of the text.\<close>

definition re_space :: "char \<Rightarrow> bool" where
  "re_space c = ((of_char c :: nat) \<in> {9, 10, 12, 13, 32})"

definition match_inet :: "string \<Rightarrow> string option" where
  "match_inet s =
     (if \<not> has_prefix s ''inet'' then None
      else let t = drop 4 s; u = dropWhile re_space t;
               a = takeWhile (\<lambda>c. digit_val c \<noteq> None \<or> c = CHR ''.'') u;
               v = drop (length a) u; b = takeWhile (\<lambda>c. digit_val c \<noteq> None) (drop 1 v)
           in if t = u \<or> a = [] \<or> v = [] \<or> hd v \<noteq> CHR ''/'' \<or> b = [] then None
              else Some (a @ ''/'' @ b))"

fun find_inet :: "string \<Rightarrow> string option" where
  "find_inet [] = None"
| "find_inet (c # cs) = (case match_inet (c # cs) of Some m \<Rightarrow> Some m | None \<Rightarrow> find_inet cs)"

definition GetDefaultInterfaceAddressIpv4 ::
  "(string \<Rightarrow> string result) \<Rightarrow> string \<Rightarrow> string result" where
  "GetDefaultInterfaceAddressIpv4 addr_out interfaceName =
     (case addr_out interfaceName of
        Inl e \<Rightarrow> Inl e
      | Inr out \<Rightarrow> (case find_inet out of
          None \<Rightarrow> Inl (Err (''no ipv4 address found for '' @ interfaceName))
        | Some m \<Rightarrow> Inr m))"

subsection \<open>Loading and configuring the store (store.go)\<close>

definition default_dns_proxy :: DnsProxy where
  "default_dns_proxy = \<lparr>DnsProxyInterface = ''raindDns'', DnsProxyAddr = ''10.166.254.254'',
     Upstreams = [''8.8.8.8'', ''1.1.1.1'']\<rparr>"

definition default_pool :: Pool where
  "default_pool = \<lparr>pl_Interface = ''raind0'', Subnet = ''10.166.0.0/24'',
     Address = ''10.166.0.254/24'', Allocations = Some []\<rparr>"

definition ipam_initial :: "string \<Rightarrow> string \<Rightarrow> IpamState" where
  "ipam_initial ifc addr = \<lparr>ipam_Version = ''0.1.0'', RuntimeSubnet = ''10.166.0.0/16'',
     ipam_DnsProxy = default_dns_proxy, HostInterface = ifc, HostInterfaceAddr = addr,
     Pools = [default_pool]\<rparr>"

text \<open>
  The loop after decoding that replaces nil maps assigns to a copy of each pool, so the decoded
  state is returned as it is.
\<close>

definition ipam_loadOrInit ::
  "string result \<Rightarrow> (string \<Rightarrow> string result) \<Rightarrow> IpamState read \<Rightarrow> IpamState result" where
  "ipam_loadOrInit route_out addr_out r =
     (case r of
        ReadBytes None \<Rightarrow> Inl (Err ''ipam state json broken'')
      | ReadBytes (Some st) \<Rightarrow> Inr st
      | _ \<Rightarrow> bind_res (GetDefaultInterfaceIpv4 route_out) (\<lambda>ifc.
              bind_res (GetDefaultInterfaceAddressIpv4 addr_out ifc) (\<lambda>addr.
              case r of ReadNotExist e \<Rightarrow> Inr (ipam_initial ifc addr) | ReadErr e \<Rightarrow> Inl e)))"

definition ipam_atomicSave :: "faults \<Rightarrow> IpamState \<Rightarrow> IpamState disk \<Rightarrow> unit result \<times> IpamState disk" where
  "ipam_atomicSave = atomic_save"

definition ipam_withLock where
  "ipam_withLock route_out addr_out = with_lock (ipam_loadOrInit route_out addr_out)"

definition ipam_withRLock where
  "ipam_withRLock route_out addr_out = with_rlock (ipam_loadOrInit route_out addr_out)"

definition SetConfig_fn :: "string \<Rightarrow> string \<Rightarrow> IpamState \<Rightarrow> IpamState result" where
  "SetConfig_fn ifc addr st =
     (let st1 = st\<lparr>ipam_Version := ''0.1.0'', RuntimeSubnet := ''10.166.0.0/16'',
            ipam_DnsProxy := default_dns_proxy, HostInterface := ifc, HostInterfaceAddr := addr\<rparr>
      in Inr (if Pools st1 = [] then st1\<lparr>Pools := Pools st1 @ [default_pool]\<rparr> else st1))"

definition SetConfig ::
  "string result \<Rightarrow> (string \<Rightarrow> string result) \<Rightarrow> faults \<Rightarrow> IpamState disk \<Rightarrow> unit result \<times> IpamState disk" where
  "SetConfig route_out addr_out fl d =
     (case GetDefaultInterfaceIpv4 route_out of
        Inl e \<Rightarrow> (Inl e, d)
      | Inr ifc \<Rightarrow> (case GetDefaultInterfaceAddressIpv4 addr_out ifc of
          Inl e \<Rightarrow> (Inl e, d)
        | Inr addr \<Rightarrow> ipam_withLock route_out addr_out fl (upd (SetConfig_fn ifc addr)) d))"

subsection \<open>Address search (ipam.go)\<close>

text \<open>
  The loop of \<open>findFreeIpv4\<close>; the first argument counts the iterations left, \<open>1 << 24\<close> at the
  start.
\<close>

fun find_free_loop ::
  "nat \<Rightarrow> ipnet \<Rightarrow> ip \<Rightarrow> ip \<Rightarrow> ip \<Rightarrow> ip \<Rightarrow> (string, Allocation) gomap \<Rightarrow> ip \<Rightarrow> ip option" where
  "find_free_loop i n start network gateway bcast alloc cursor0 =
     (if i = 0 then None
      else let cursor = (if net_contains n cursor0 then cursor0 else start) in
        if cursor = network \<or> cursor = gateway \<or> cursor = bcast
        then find_free_loop (i - 1) n start network gateway bcast alloc (incIP cursor)
        else if map_of alloc (ip_string cursor) = None then Some cursor
        else find_free_loop (i - 1) n start network gateway bcast alloc (incIP cursor))"

declare find_free_loop.simps [simp del]

definition findFreeIpv4 :: "ipnet \<Rightarrow> ip \<Rightarrow> (string, Allocation) gomap \<Rightarrow> ip result" where
  "findFreeIpv4 n gateway alloc =
     (let network = net_ip n; start = incIP network; bcast = broadcastIPv4 n in
      case find_free_loop (2 ^ 24) n start network gateway bcast alloc start of
        Some cursor \<Rightarrow> Inr cursor
      | None \<Rightarrow> Inl (Err (''no free ip in subnet '' @ ipnet_string n)))"

subsection \<open>Operations that change the state (ipam.go)\<close>

text \<open>
  The body of the loop in \<open>Allocate\<close> for the matching pool.  A subnet that does not parse leaves
  \<open>ipnet\<close> nil and \<open>findFreeIpv4\<close> dereferences it.
\<close>

definition Allocate_pool :: "time \<Rightarrow> string \<Rightarrow> Pool \<Rightarrow> (string \<times> Pool) result" where
  "Allocate_pool now containerId p =
     (if Subnet p = [] \<or> Address p = [] then Inl (Err ''ipam not configured'')
      else case ParseIP4 (hd (split_on (CHR ''/'') (Address p))) of
        None \<Rightarrow> Inl (Err ''gateway must be ipv4'')
      | Some gw \<Rightarrow> (case ParseCIDR4 (Subnet p) of
          None \<Rightarrow> Inl (Panic ''nil pointer dereference'')
        | Some n \<Rightarrow> bind_res (findFreeIpv4 n gw (allocs p)) (\<lambda>next_ip.
            case Allocations p of
              None \<Rightarrow> Inl (Panic ''assignment to entry in nil map'')
            | Some m \<Rightarrow>
                let ipStr = ip_string next_ip;
                    a = \<lparr>ContainerId = containerId, al_Interface = ''rd_'' @ containerId,
                         Forwards = [], AssignedAt = now\<rparr>
                in Inr (ipStr, p\<lparr>Allocations := Some (mput ipStr a m)\<rparr>))))"

fun Allocate_pools :: "time \<Rightarrow> string \<Rightarrow> string \<Rightarrow> Pool list \<Rightarrow> (string \<times> Pool list) result" where
  "Allocate_pools now containerId bridge [] = Inl (Err (''target bridge not configured: '' @ bridge))"
| "Allocate_pools now containerId bridge (p # ps) =
     (if pl_Interface p = bridge
      then bind_res (Allocate_pool now containerId p) (\<lambda>(a, p'). Inr (a, p' # ps))
      else bind_res (Allocate_pools now containerId bridge ps) (\<lambda>(a, ps'). Inr (a, p # ps')))"

definition Allocate :: "time \<Rightarrow> string \<Rightarrow> string \<Rightarrow> IpamState \<Rightarrow> (string \<times> IpamState) result" where
  "Allocate now containerId bridge st =
     bind_res (Allocate_pools now containerId bridge (Pools st)) (\<lambda>(a, ps). Inr (a, st\<lparr>Pools := ps\<rparr>))"

fun Release_pools :: "string \<Rightarrow> Pool list \<Rightarrow> Pool list" where
  "Release_pools containerId [] = []"
| "Release_pools containerId (p # ps) =
     (case range_find (\<lambda>a. ContainerId a = containerId) (allocs p) of
        Some (ip, a) \<Rightarrow> p\<lparr>Allocations := map_option (mdel ip) (Allocations p)\<rparr> # ps
      | None \<Rightarrow> p # Release_pools containerId ps)"

definition Release :: "string \<Rightarrow> IpamState \<Rightarrow> IpamState result" where
  "Release containerId st = Inr (st\<lparr>Pools := Release_pools containerId (Pools st)\<rparr>)"

text \<open>The set of subnets in use, or the first pool subnet that does not parse.\<close>

fun used_subnets :: "Pool list \<Rightarrow> string list result" where
  "used_subnets [] = Inr []"
| "used_subnets (p # ps) =
     (case ParseCIDR4 (Subnet p) of
        None \<Rightarrow> Inl (Err (''invalid pool subnet: '' @ Subnet p))
      | Some n \<Rightarrow> bind_res (used_subnets ps) (\<lambda>us. Inr (ipnet_string n # us)))"

datatype search = Found ip | Exhausted | Out_of_fuel

text \<open>The loop of \<open>StoreBridge\<close> over the /24 networks of the runtime network.\<close>

fun bridge_loop :: "nat \<Rightarrow> ipnet \<Rightarrow> string list \<Rightarrow> ip \<Rightarrow> search" where
  "bridge_loop fuel runtimeNet used ip =
     (if fuel = 0 then Out_of_fuel
      else if \<not> net_contains runtimeNet ip then Exhausted
      else let subnetNet = \<lparr>net_ip = ip, net_mask = cidr_mask 24\<rparr> in
        if \<not> net_contains runtimeNet (broadcastIPv4 subnetNet) then Exhausted
        else if ipnet_string subnetNet \<in> set used
        then bridge_loop (fuel - 1) runtimeNet used (ipv4Add ip 256)
        else Found ip)"

declare bridge_loop.simps [simp del]

definition StoreBridge :: "string \<Rightarrow> IpamState \<Rightarrow> ((string \<times> string) \<times> IpamState) result" where
  "StoreBridge bridge st =
     (if \<exists>p \<in> set (Pools st). pl_Interface p = bridge
      then Inl (Err (''interface: '' @ bridge @ '' is already created''))
      else if RuntimeSubnet st = [] then Inl (Err ''runtime subnet is not configured'')
      else case ParseCIDR4 (RuntimeSubnet st) of
        None \<Rightarrow> Inl (Err (''invalid runtime subnet: invalid CIDR address: '' @ RuntimeSubnet st))
      | Some runtimeNet \<Rightarrow>
          (case mask_ones (net_mask runtimeNet) of
             None \<Rightarrow> Inl (Panic ''mask'')
           | Some ones \<Rightarrow>
             if ones > 24
             then Inl (Err (''runtime subnet prefix must be <= /24: '' @ ipnet_string runtimeNet))
             else bind_res (used_subnets (Pools st)) (\<lambda>used.
               case bridge_loop (2 ^ 24 + 1) runtimeNet used (net_ip runtimeNet AND net_mask runtimeNet) of
                 Out_of_fuel \<Rightarrow> Inl (Panic ''no return'')
               | Exhausted \<Rightarrow>
                   Inl (Err (''no available /24 subnet in runtime subnet: '' @ ipnet_string runtimeNet))
               | Found ip \<Rightarrow>
                   let subnet = ipnet_string \<lparr>net_ip = ip, net_mask = cidr_mask 24\<rparr>;
                       addr = ip_string (ipv4Add ip 254) @ ''/24''
                   in Inr ((subnet, addr), st\<lparr>Pools := Pools st @
                        [\<lparr>pl_Interface = bridge, Subnet = subnet, Address = addr, Allocations = Some []\<rparr>]\<rparr>))))"

definition RemoveBridge :: "string \<Rightarrow> IpamState \<Rightarrow> IpamState result" where
  "RemoveBridge bridge st =
     (if \<forall>p \<in> set (Pools st). pl_Interface p \<noteq> bridge
      then Inl (Err (''bridge: '' @ bridge @ '' not found''))
      else Inr (st\<lparr>Pools := filter (\<lambda>p. pl_Interface p \<noteq> bridge) (Pools st)\<rparr>))"

fun SetForwardInfo_pools :: "string \<Rightarrow> ForwardInfo \<Rightarrow> Pool list \<Rightarrow> Pool list result" where
  "SetForwardInfo_pools containerId fi [] = Inl (Err (''container: '' @ containerId @ '' not found''))"
| "SetForwardInfo_pools containerId fi (p # ps) =
     (case range_find (\<lambda>a. ContainerId a = containerId) (allocs p) of
        Some (addr, a) \<Rightarrow>
          Inr (p\<lparr>Allocations := map_option (mput addr (a\<lparr>Forwards := Forwards a @ [fi]\<rparr>)) (Allocations p)\<rparr> # ps)
      | None \<Rightarrow> bind_res (SetForwardInfo_pools containerId fi ps) (\<lambda>ps'. Inr (p # ps')))"

definition SetForwardInfo :: "string \<Rightarrow> int \<Rightarrow> int \<Rightarrow> string \<Rightarrow> IpamState \<Rightarrow> IpamState result" where
  "SetForwardInfo containerId sport dport protocol st =
     bind_res (SetForwardInfo_pools containerId
         \<lparr>HostPort = sport, ContainerPort = dport, Protocol = protocol\<rparr> (Pools st))
       (\<lambda>ps. Inr (st\<lparr>Pools := ps\<rparr>))"

subsection \<open>Queries (ipam.go)\<close>

definition GetNetworkList :: "IpamState \<Rightarrow> NetworkList list result" where
  "GetNetworkList st =
     (let l = map (\<lambda>p. \<lparr>nl_Interface = pl_Interface p, nl_Address = Address p,
                        NumContainers = length (allocs p)\<rparr>) (Pools st)
      in if l = [] then Inl (Err ''network is not configured'') else Inr l)"

definition GetRuntimeSubnet :: "IpamState \<Rightarrow> string result" where
  "GetRuntimeSubnet st =
     (if RuntimeSubnet st = [] then Inl (Err ''runtime subnet is not configured'')
      else Inr (RuntimeSubnet st))"

definition GetDefaultInterface :: "IpamState \<Rightarrow> string result" where
  "GetDefaultInterface st =
     (if HostInterface st = [] then Inl (Err ''default interface is not configured'')
      else Inr (HostInterface st))"

definition GetDefaultInterfaceAddr :: "IpamState \<Rightarrow> string result" where
  "GetDefaultInterfaceAddr st =
     (if HostInterfaceAddr st = [] then Inl (Err ''default interface address is not configured'')
      else Inr (HostInterfaceAddr st))"

definition GetBridgeAddr :: "string \<Rightarrow> IpamState \<Rightarrow> string result" where
  "GetBridgeAddr bridgeInterface st =
     (case List.find (\<lambda>p. pl_Interface p = bridgeInterface) (Pools st) of
        Some p \<Rightarrow> Inr (Address p)
      | None \<Rightarrow> Inl (Err (''interface: '' @ bridgeInterface @ '' not found'')))"

text \<open>The nested loop of the queries by container: the first pool that has a matching entry.\<close>

fun find_alloc :: "(string \<times> Allocation \<Rightarrow> bool) \<Rightarrow> Pool list \<Rightarrow> (Pool \<times> string \<times> Allocation) option" where
  "find_alloc P [] = None"
| "find_alloc P (p # ps) =
     (case List.find P (allocs p) of Some (addr, a) \<Rightarrow> Some (p, addr, a) | None \<Rightarrow> find_alloc P ps)"

definition GetContainerAddress :: "string \<Rightarrow> IpamState \<Rightarrow> (string \<times> string \<times> string) result" where
  "GetContainerAddress containerId st =
     (case find_alloc (\<lambda>(addr, a). ContainerId a = containerId) (Pools st) of
        Some (p, addr, a) \<Rightarrow> Inr (HostInterface st, pl_Interface p, addr)
      | None \<Rightarrow> Inl (Err (''container: '' @ containerId @ '' not found'')))"

definition GetDnsProxyInfo :: "IpamState \<Rightarrow> (string \<times> string \<times> string list) result" where
  "GetDnsProxyInfo st =
     (let d = ipam_DnsProxy st in
      if DnsProxyInterface d = [] \<or> DnsProxyAddr d = [] \<or> Upstreams d = []
      then Inl (Err ''Dns Proxy not configured'')
      else Inr (DnsProxyInterface d, DnsProxyAddr d, Upstreams d))"

definition GetForwardInfo :: "string \<Rightarrow> IpamState \<Rightarrow> ForwardInfo list result" where
  "GetForwardInfo containerId st =
     Inr (concat (map (\<lambda>p. concat (map (\<lambda>(addr, a). if ContainerId a = containerId then Forwards a else [])
       (allocs p))) (Pools st)))"

definition GetPoolList :: "IpamState \<Rightarrow> Pool list result" where
  "GetPoolList st = Inr (Pools st)"

definition GetNetworkInfoById :: "string \<Rightarrow> IpamState \<Rightarrow> (string \<times> Allocation) result" where
  "GetNetworkInfoById containerId st =
     (case find_alloc (\<lambda>(addr, a). ContainerId a = containerId) (Pools st) of
        Some (p, addr, a) \<Rightarrow> Inr (addr, a)
      | None \<Rightarrow> Inl (Err (''container: '' @ containerId @ '' not found'')))"

definition GetVethById :: "string \<Rightarrow> IpamState \<Rightarrow> string result" where
  "GetVethById containerId st =
     (case find_alloc (\<lambda>(addr, a). ContainerId a = containerId) (Pools st) of
        Some (p, addr, a) \<Rightarrow> Inr (al_Interface a)
      | None \<Rightarrow> Inl (Err (''contianer: '' @ containerId @ '' not found'')))"

definition GetInfoByIp :: "string \<Rightarrow> IpamState \<Rightarrow> (string \<times> string) result" where
  "GetInfoByIp ip st =
     (case find_alloc (\<lambda>(addr, a). addr = ip) (Pools st) of
        Some (p, addr, a) \<Rightarrow> Inr (ContainerId a, al_Interface a)
      | None \<Rightarrow> Inl (Err (''ip: '' @ ip @ '' not found'')))"

subsection \<open>What the address search returns\<close>

definition usable :: "ipnet \<Rightarrow> ip \<Rightarrow> (string, Allocation) gomap \<Rightarrow> ip \<Rightarrow> bool" where
  "usable n gateway alloc x \<longleftrightarrow> net_contains n x \<and> x \<noteq> net_ip n \<and> x \<noteq> gateway \<and>
     x \<noteq> broadcastIPv4 n \<and> map_of alloc (ip_string x) = None"

lemma find_free_loop_sound:
  "find_free_loop i n start network gateway bcast alloc cursor = Some r \<Longrightarrow>
   r \<noteq> network \<and> r \<noteq> gateway \<and> r \<noteq> bcast \<and> map_of alloc (ip_string r) = None \<and>
   (net_contains n r \<or> r = start)"
proof (induction i arbitrary: cursor)
  case 0
  then show ?case by (simp add: find_free_loop.simps)
next
  case (Suc i)
  define c where "c = (if net_contains n cursor then cursor else start)"
  have c: "net_contains n c \<or> c = start" by (simp add: c_def)
  have unf: "find_free_loop (Suc i) n start network gateway bcast alloc cursor =
      (if c \<noteq> network \<and> c \<noteq> gateway \<and> c \<noteq> bcast \<and> map_of alloc (ip_string c) = None then Some c
       else find_free_loop i n start network gateway bcast alloc (incIP c))"
    by (subst find_free_loop.simps) (simp add: Let_def c_def del: not_None_eq)
  show ?case
  proof (cases "find_free_loop i n start network gateway bcast alloc (incIP c) = Some r")
    case True
    then show ?thesis by (rule Suc.IH)
  next
    case False
    with Suc.prems c show ?thesis unfolding unf by (auto split: if_splits)
  qed
qed

lemma unat_incIP: "unat x < unat y \<Longrightarrow> unat (incIP x) = unat x + 1" for x y :: ip
proof -
  assume "unat x < unat y"
  moreover have "unat y < 2 ^ 32" using unsigned_less [of y] by simp
  ultimately show ?thesis by (simp add: incIP_eq unat_word_ariths)
qed

lemma find_free_loop_least:
  assumes wf: "wf_net k n" and x: "usable n gateway alloc x"
    and least: "\<And>y. usable n gateway alloc y \<Longrightarrow> unat x \<le> unat y"
  shows "net_contains n cursor \<Longrightarrow> unat cursor \<le> unat x \<Longrightarrow> unat x - unat cursor < i \<Longrightarrow>
    find_free_loop i n start (net_ip n) gateway (broadcastIPv4 n) alloc cursor = Some x"
proof (induction i arbitrary: cursor)
  case 0
  then show ?case by simp
next
  case (Suc i)
  show ?case
  proof (cases "cursor = x")
    case True
    with x show ?thesis by (subst find_free_loop.simps) (auto simp: usable_def Let_def)
  next
    case False
    with Suc.prems have lt: "unat cursor < unat x" by (metis le_neq_implies_less word_unat_eq_iff)
    note inc = unat_incIP [OF lt]
    have "net_contains n (incIP cursor)"
      using Suc.prems(1) x lt inc by (auto simp: wf_net_contains [OF wf] usable_def)
    then have rec: "find_free_loop i n start (net_ip n) gateway (broadcastIPv4 n) alloc (incIP cursor) = Some x"
      using lt inc Suc.prems by (intro Suc.IH) auto
    have "\<not> usable n gateway alloc cursor" using least [of cursor] lt by auto
    with Suc.prems(1) have "cursor = net_ip n \<or> cursor = gateway \<or> cursor = broadcastIPv4 n \<or>
        map_of alloc (ip_string cursor) \<noteq> None" by (auto simp: usable_def)
    with rec Suc.prems(1) show ?thesis by (subst find_free_loop.simps) (auto simp: Let_def)
  qed
qed

lemma start_in_net:
  assumes "wf_net k n" "k \<le> 30"
  shows "net_contains n (incIP (net_ip n))" "unat (incIP (net_ip n)) = unat (net_ip n) + 1"
proof -
  have "(2 :: nat) ^ 2 \<le> 2 ^ (32 - k)" using assms(2) by (intro power_increasing) auto
  then have 4: "4 \<le> (2 :: nat) ^ (32 - k)" by simp
  have "unat (net_ip n) + 2 ^ (32 - k) \<le> 2 ^ 32" by (rule wf_net_limit [OF assms(1)])
  with 4 have "unat (net_ip n) + 1 < 2 ^ 32" by linarith
  then show u: "unat (incIP (net_ip n)) = unat (net_ip n) + 1"
    by (simp add: incIP_eq unat_word_ariths)
  show "net_contains n (incIP (net_ip n))"
    using u 4 by (simp add: wf_net_contains [OF assms(1)])
qed

lemma ex_least_ip: "P (x :: ip) \<Longrightarrow> \<exists>y. P y \<and> (\<forall>z. P z \<longrightarrow> unat y \<le> unat z)"
  by (rule exE [OF ex_has_least_nat [of P x unat]]) auto

lemma findFreeIpv4_least:
  assumes wf: "wf_net k n" and k: "8 \<le> k" "k \<le> 30" and x: "usable n gateway alloc x"
    and least: "\<And>y. usable n gateway alloc y \<Longrightarrow> unat x \<le> unat y"
  shows "findFreeIpv4 n gateway alloc = Inr x"
proof -
  note st = start_in_net [OF wf k(2)]
  have c: "unat (net_ip n) \<le> unat x" "unat x < unat (net_ip n) + 2 ^ (32 - k)" "x \<noteq> net_ip n"
    using x by (auto simp: usable_def wf_net_contains [OF wf])
  then have lo: "unat (net_ip n) + 1 \<le> unat x"
    by (metis Suc_eq_plus1 Suc_leI le_neq_implies_less word_unat_eq_iff)
  have "(2 :: nat) ^ (32 - k) \<le> 2 ^ 24" using k(1) by (intro power_increasing) auto
  with c(2) lo have "unat x - unat (incIP (net_ip n)) < 2 ^ 24" unfolding st(2) by linarith
  with lo st have "find_free_loop (2 ^ 24) n (incIP (net_ip n)) (net_ip n) gateway (broadcastIPv4 n) alloc
      (incIP (net_ip n)) = Some x"
    by (intro find_free_loop_least [OF wf x least]) auto
  then show ?thesis by (simp add: findFreeIpv4_def Let_def)
qed

lemma findFreeIpv4_usable:
  assumes "wf_net k n" "k \<le> 30" "findFreeIpv4 n gateway alloc = Inr r"
  shows "usable n gateway alloc r"
  using assms(3) start_in_net(1) [OF assms(1,2)]
  by (auto simp: findFreeIpv4_def usable_def Let_def split: option.splits dest!: find_free_loop_sound)

lemma findFreeIpv4_no_panic: "findFreeIpv4 n gateway alloc \<noteq> Inl (Panic m)"
  by (auto simp: findFreeIpv4_def Let_def split: option.splits)

lemma findFreeIpv4_spec:
  assumes wf: "wf_net k n" and k: "8 \<le> k" "k \<le> 30"
  shows "findFreeIpv4 n gateway alloc = Inr r \<longleftrightarrow>
    usable n gateway alloc r \<and> (\<forall>y. usable n gateway alloc y \<longrightarrow> unat r \<le> unat y)"
    (is "?l \<longleftrightarrow> ?r")
proof
  assume l: ?l
  then have "usable n gateway alloc r" by (rule findFreeIpv4_usable [OF wf k(2)])
  from ex_least_ip [of "usable n gateway alloc", OF this]
  obtain r' where r': "usable n gateway alloc r'" "\<And>y. usable n gateway alloc y \<Longrightarrow> unat r' \<le> unat y"
    by blast
  then have "findFreeIpv4 n gateway alloc = Inr r'" by (rule findFreeIpv4_least [OF wf k])
  with l r' show ?r by simp
next
  assume ?r
  then show ?l using findFreeIpv4_least [OF wf k] by blast
qed

subsection \<open>What the subnet search returns\<close>

abbreviation net24 :: "ip \<Rightarrow> ipnet" where
  "net24 x \<equiv> \<lparr>net_ip = x, net_mask = cidr_mask 24\<rparr>"

lemma wf_net24: "wf_net 24 (net24 x) \<longleftrightarrow> 256 dvd unat x"
  by (simp add: wf_net_def)

definition free24 :: "ipnet \<Rightarrow> string list \<Rightarrow> ip \<Rightarrow> bool" where
  "free24 R used x \<longleftrightarrow> net_contains R x \<and> 256 dvd unat x \<and> ipnet_string (net24 x) \<notin> set used"

lemma dvd_256_pow: "k \<le> 24 \<Longrightarrow> (256 :: nat) dvd 2 ^ (32 - k)"
proof -
  assume "k \<le> 24"
  then have "(2 :: nat) ^ 8 dvd 2 ^ (32 - k)" by (intro le_imp_power_dvd) auto
  then show ?thesis by simp
qed

lemma next_subnet:
  assumes wf: "wf_net k R" and k: "1 \<le> k" "k \<le> 24" and ip: "net_contains R ip" "256 dvd unat ip"
  defines "limit \<equiv> unat (net_ip R) + 2 ^ (32 - k)"
  shows "unat ip + 256 \<le> limit" "net_contains R (broadcastIPv4 (net24 ip))"
    and "unat ip + 256 < limit \<Longrightarrow> net_contains R (ipv4Add ip 256) \<and> unat (ipv4Add ip 256) = unat ip + 256"
    and "unat ip + 256 = limit \<Longrightarrow> \<not> net_contains R (ipv4Add ip 256)"
proof -
  have lim: "limit \<le> 2 ^ 32" unfolding limit_def by (rule wf_net_limit [OF wf])
  have in_net: "unat (net_ip R) \<le> unat ip" "unat ip < limit"
    using ip(1) unfolding wf_net_contains [OF wf] limit_def by auto
  have "256 dvd unat (net_ip R)" using wf dvd_256_pow [OF k(2)] by (auto simp: wf_net_def intro: dvd_trans)
  then have "256 dvd limit" unfolding limit_def using dvd_256_pow [OF k(2)] by simp
  with ip(2) in_net(2) show le: "unat ip + 256 \<le> limit" by (auto simp: dvd_def)
  have "unat (broadcastIPv4 (net24 ip)) = unat ip + 255"
    using wf_net_broadcast [of 24 "net24 ip"] ip(2) by (simp add: wf_net24)
  with in_net le show "net_contains R (broadcastIPv4 (net24 ip))"
    unfolding wf_net_contains [OF wf] limit_def by simp
  have add: "unat (ipv4Add ip 256) = (unat ip + 256) mod 2 ^ 32"
    by (simp add: ipv4Add_def unat_word_ariths)
  show "net_contains R (ipv4Add ip 256) \<and> unat (ipv4Add ip 256) = unat ip + 256"
    if "unat ip + 256 < limit"
    using that lim in_net unfolding wf_net_contains [OF wf] add limit_def by simp
  have small: "(2 :: nat) ^ (32 - k) < 2 ^ 32" using k(1) by (intro power_strict_increasing) auto
  show "\<not> net_contains R (ipv4Add ip 256)" if e: "unat ip + 256 = limit"
  proof (cases "limit = 2 ^ 32")
    case True
    then have "unat (ipv4Add ip 256) = 0" unfolding add e by simp
    moreover have "0 < unat (net_ip R)" using True small unfolding limit_def by linarith
    ultimately show ?thesis unfolding wf_net_contains [OF wf] by simp
  next
    case False
    then have "unat (ipv4Add ip 256) = limit" unfolding add e using lim by simp
    then show ?thesis unfolding wf_net_contains [OF wf] limit_def by simp
  qed
qed

lemma bridge_loop_spec:
  assumes wf: "wf_net k R" and k: "1 \<le> k" "k \<le> 24"
  shows "net_contains R ip \<Longrightarrow> 256 dvd unat ip \<Longrightarrow>
    unat (net_ip R) + 2 ^ (32 - k) - unat ip \<le> 256 * (fuel - 1) \<Longrightarrow>
    (case bridge_loop fuel R used ip of
       Found x \<Rightarrow> free24 R used x
     | Exhausted \<Rightarrow> \<forall>x. free24 R used x \<longrightarrow> unat x < unat ip
     | Out_of_fuel \<Rightarrow> False)"
proof (induction fuel arbitrary: ip)
  case 0
  then show ?case using next_subnet(1) [OF wf k 0(1,2)] by simp
next
  case (Suc fuel)
  note nx = next_subnet [OF wf k Suc.prems(1,2)]
  have unf: "bridge_loop (Suc fuel) R used ip =
      (if ipnet_string (net24 ip) \<in> set used then bridge_loop fuel R used (ipv4Add ip 256) else Found ip)"
    using Suc.prems(1) nx(2) by (subst bridge_loop.simps) (simp add: Let_def)
  show ?case
  proof (cases "ipnet_string (net24 ip) \<in> set used")
    case False
    with Suc.prems show ?thesis by (simp add: unf free24_def)
  next
    case used: True
    have skip: "unat x < unat ip" if "free24 R used x" "unat x < unat ip + 256" for x
    proof (rule ccontr)
      assume "\<not> unat x < unat ip"
      with that Suc.prems(2) have "unat x = unat ip" by (auto simp: free24_def dvd_def)
      then have "x = ip" by (simp only: word_unat_eq_iff)
      with that used show False by (simp add: free24_def)
    qed
    show ?thesis
    proof (cases "unat ip + 256 < unat (net_ip R) + 2 ^ (32 - k)")
      case True
      note n3 = nx(3) [OF True]
      have "case bridge_loop fuel R used (ipv4Add ip 256) of Found x \<Rightarrow> free24 R used x
         | Exhausted \<Rightarrow> \<forall>x. free24 R used x \<longrightarrow> unat x < unat (ipv4Add ip 256) | Out_of_fuel \<Rightarrow> False"
        using n3 Suc.prems True by (intro Suc.IH) (auto simp: dvd_add)
      with used n3 skip show ?thesis by (auto simp: unf split: search.splits)
    next
      case False
      with nx(1) have last: "unat ip + 256 = unat (net_ip R) + 2 ^ (32 - k)" by simp
      have "fuel \<noteq> 0" using Suc.prems(3) last by auto
      then have "bridge_loop fuel R used (ipv4Add ip 256) = Exhausted"
        using nx(4) [OF last] by (subst bridge_loop.simps) simp
      moreover have "\<forall>x. free24 R used x \<longrightarrow> unat x < unat ip"
        using skip last by (auto simp: free24_def wf_net_contains [OF wf])
      ultimately show ?thesis using used by (simp add: unf)
    qed
  qed
qed

text \<open>Fuel \<open>2 ^ 24 + 1\<close> is enough: the search visits each /24 of the runtime network at most once.\<close>

lemma bridge_loop_start:
  assumes wf: "wf_net k R" and k: "1 \<le> k" "k \<le> 24"
  shows "case bridge_loop (2 ^ 24 + 1) R used (net_ip R AND net_mask R) of
       Found x \<Rightarrow> free24 R used x
     | Exhausted \<Rightarrow> (\<nexists>x. free24 R used x)
     | Out_of_fuel \<Rightarrow> False"
proof -
  have start: "net_ip R AND net_mask R = net_ip R"
    using wf_net_masked [OF wf] wf by (simp add: wf_net_def)
  have "256 dvd unat (net_ip R)" using wf dvd_256_pow [OF k(2)] by (auto simp: wf_net_def intro: dvd_trans)
  moreover have "(2 :: nat) ^ (32 - k) \<le> 2 ^ 31" using k(1) by (intro power_increasing) auto
  ultimately have "case bridge_loop (2 ^ 24 + 1) R used (net_ip R) of Found x \<Rightarrow> free24 R used x
     | Exhausted \<Rightarrow> \<forall>x. free24 R used x \<longrightarrow> unat x < unat (net_ip R) | Out_of_fuel \<Rightarrow> False"
    by (intro bridge_loop_spec [OF wf k wf_net_first [OF wf]]) simp_all
  then show ?thesis
    unfolding start by (auto simp: free24_def wf_net_contains [OF wf] not_less split: search.splits)
qed

subsection \<open>The invariant of the store\<close>

definition runtime_net :: ipnet where
  "runtime_net = \<lparr>net_ip = 178651136, net_mask = cidr_mask 16\<rparr>"

text \<open>
  A pool is a /24 of the runtime network with its gateway at host 254, and its keys are the
  texts of host addresses of that network other than the gateway.
\<close>

definition pool_ok :: "Pool \<Rightarrow> bool" where
  "pool_ok p \<longleftrightarrow> (\<exists>x m. 256 dvd unat x \<and> net_contains runtime_net x \<and>
     Subnet p = ipnet_string (net24 x) \<and> Address p = ip_string (ipv4Add x 254) @ ''/24'' \<and>
     Allocations p = Some m \<and> mwf m \<and>
     (\<forall>a \<in> set (mkeys m). \<exists>y. a = ip_string y \<and> usable (net24 x) (ipv4Add x 254) [] y))"

definition ipam_inv :: "IpamState \<Rightarrow> bool" where
  "ipam_inv st \<longleftrightarrow> RuntimeSubnet st = ''10.166.0.0/16'' \<and> (\<forall>p \<in> set (Pools st). pool_ok p) \<and>
     distinct (map pl_Interface (Pools st)) \<and> distinct (map Subnet (Pools st))"

lemma ip_eval:
  "ip_string 178651136 = ''10.166.0.0''" "ip_string 178651390 = ''10.166.0.254''"
  by (simp_all add: ip_string_def bytes_of_def dec_eval)

lemma wf_runtime_net: "wf_net 16 runtime_net"
  by (simp add: wf_net_def runtime_net_def)

lemma runtime_net_string: "ipnet_string runtime_net = ''10.166.0.0/16''"
  by (simp add: ipnet_string_def runtime_net_def mask_ones_cidr ip_eval dec_eval)

lemma parse_runtime: "ParseCIDR4 ''10.166.0.0/16'' = Some runtime_net"
  using ParseCIDR4_ipnet_string [OF wf_runtime_net] by (simp add: runtime_net_string)

lemma default_pool_ok: "pool_ok default_pool"
proof -
  have "Subnet default_pool = ipnet_string (net24 178651136)"
    by (simp add: default_pool_def ipnet_string_def mask_ones_cidr ip_eval dec_eval)
  moreover have "Address default_pool = ip_string (ipv4Add 178651136 254) @ ''/24''"
    by (simp add: default_pool_def ipv4Add_def ip_eval)
  moreover have "256 dvd unat (178651136 :: ip)" by simp
  moreover have "net_contains runtime_net 178651136"
    by (simp add: wf_net_contains [OF wf_runtime_net]) (simp add: runtime_net_def)
  ultimately show ?thesis unfolding pool_ok_def
    by (intro exI [of _ "178651136 :: ip"] exI [of _ "[]"]) (simp add: default_pool_def)
qed

lemma pool_okE:
  assumes "pool_ok p"
  obtains x m where "256 dvd unat x" "net_contains runtime_net x" "Subnet p = ipnet_string (net24 x)"
    "Address p = ip_string (ipv4Add x 254) @ ''/24''" "Allocations p = Some m" "allocs p = m" "mwf m"
    "ParseCIDR4 (Subnet p) = Some (net24 x)" "Subnet p \<noteq> []" "Address p \<noteq> []"
    "ParseIP4 (hd (split_on (CHR ''/'') (Address p))) = Some (ipv4Add x 254)"
    "\<And>a. a \<in> set (mkeys m) \<Longrightarrow> \<exists>y. a = ip_string y \<and> usable (net24 x) (ipv4Add x 254) [] y"
proof -
  obtain x m where x: "256 dvd unat x" "net_contains runtime_net x"
    "Subnet p = ipnet_string (net24 x)" "Address p = ip_string (ipv4Add x 254) @ ''/24''"
    "Allocations p = Some m" "mwf m" and
    keys: "\<forall>a \<in> set (mkeys m). \<exists>y. a = ip_string y \<and> usable (net24 x) (ipv4Add x 254) [] y"
    using assms unfolding pool_ok_def by blast
  have "ParseCIDR4 (Subnet p) = Some (net24 x)"
    using ParseCIDR4_ipnet_string [of 24 "net24 x"] x by (simp add: wf_net24)
  moreover have "ParseIP4 (hd (split_on (CHR ''/'') (Address p))) = Some (ipv4Add x 254)"
    using x(4) by (simp add: split_on_append slash_ip_string ParseIP4_ip_string)
  moreover have "Subnet p \<noteq> []" "Address p \<noteq> []" using x by (simp_all add: ipnet_string_def)
  moreover have "allocs p = m" using x by (simp add: allocs_def)
  ultimately show thesis using x keys that by blast
qed

text \<open>The gateway and the broadcast address of a pool.\<close>

lemma broadcast_net24: "256 dvd unat x \<Longrightarrow> broadcastIPv4 (net24 x) = ipv4Add x 255"
proof -
  assume x: "256 dvd unat x"
  have "unat x + 256 \<le> 2 ^ 32" using wf_net_limit [of 24 "net24 x"] x by (simp add: wf_net24)
  then show ?thesis
    using wf_net_broadcast [of 24 "net24 x"] x
    by (simp add: wf_net24 word_unat_eq_iff ipv4Add_def unat_word_ariths)
qed

lemma pool_ok_allocations:
  assumes "pool_ok p" "mwf m'"
    and new: "\<And>a x. a \<in> set (mkeys m') \<Longrightarrow> a \<notin> set (mkeys (allocs p)) \<Longrightarrow>
      ParseCIDR4 (Subnet p) = Some (net24 x) \<Longrightarrow>
      \<exists>y. a = ip_string y \<and> usable (net24 x) (ipv4Add x 254) [] y"
  shows "pool_ok (p\<lparr>Allocations := Some m'\<rparr>)"
proof -
  from assms(1) obtain x m where x: "256 dvd unat x" "net_contains runtime_net x"
    "Subnet p = ipnet_string (net24 x)" "Address p = ip_string (ipv4Add x 254) @ ''/24''"
    and m: "allocs p = m" and parse: "ParseCIDR4 (Subnet p) = Some (net24 x)"
    and old: "\<And>a. a \<in> set (mkeys m) \<Longrightarrow> \<exists>y. a = ip_string y \<and> usable (net24 x) (ipv4Add x 254) [] y"
    by (rule pool_okE) blast
  have "\<forall>a \<in> set (mkeys m'). \<exists>y. a = ip_string y \<and> usable (net24 x) (ipv4Add x 254) [] y"
    using old new [OF _ _ parse] m by blast
  with x assms(2) show ?thesis
    unfolding pool_ok_def by (intro exI [of _ x] exI [of _ m']) simp
qed

lemma ipam_inv_pool_update:
  assumes "ipam_inv st" "Pools st = pre @ p # post" "pool_ok (p\<lparr>Allocations := m\<rparr>)"
  shows "ipam_inv (st\<lparr>Pools := pre @ p\<lparr>Allocations := m\<rparr> # post\<rparr>)"
  using assms by (auto simp: ipam_inv_def)

text \<open>An address text belongs to one pool only.\<close>

lemma ipam_inv_pool_unique:
  assumes "ipam_inv st" "p \<in> set (Pools st)" "q \<in> set (Pools st)"
    "a \<in> set (mkeys (allocs p))" "a \<in> set (mkeys (allocs q))"
  shows "p = q"
proof -
  have ok: "pool_ok p" "pool_ok q" using assms by (auto simp: ipam_inv_def)
  obtain x m where x: "256 dvd unat x" "Subnet p = ipnet_string (net24 x)" "allocs p = m"
    "\<And>a. a \<in> set (mkeys m) \<Longrightarrow> \<exists>y. a = ip_string y \<and> usable (net24 x) (ipv4Add x 254) [] y"
    using ok(1) by (elim pool_okE) blast
  obtain z m' where z: "256 dvd unat z" "Subnet q = ipnet_string (net24 z)" "allocs q = m'"
    "\<And>a. a \<in> set (mkeys m') \<Longrightarrow> \<exists>y. a = ip_string y \<and> usable (net24 z) (ipv4Add z 254) [] y"
    using ok(2) by (elim pool_okE) blast
  obtain y where y: "net_contains (net24 x) y" "net_contains (net24 z) y"
    using x(3,4) z(3,4) assms(4,5) ip_string_inj by (metis usable_def)
  have "net24 x = net24 z"
    by (rule wf_net_disjoint [of 24 _ _ y]) (use x z y in \<open>simp_all add: wf_net24\<close>)
  then have "Subnet p = Subnet q" using x z by simp
  then show ?thesis
    using assms by (auto simp: ipam_inv_def distinct_map inj_on_def)
qed

subsection \<open>Search loops over the pools\<close>

lemma find_alloc_None: "find_alloc P ps = None \<longleftrightarrow> (\<forall>p \<in> set ps. \<forall>e \<in> set (allocs p). \<not> P e)"
  by (induction ps) (auto split: option.splits simp: find_None_iff dest!: find_SomeD)

lemma find_alloc_SomeD:
  "find_alloc P ps = Some (p, a, al) \<Longrightarrow> p \<in> set ps \<and> (a, al) \<in> set (allocs p) \<and> P (a, al)"
  by (induction ps) (auto split: option.splits dest!: find_SomeD)

lemma find_alloc_unique:
  assumes "p \<in> set ps" "(a, al) \<in> set (allocs p)" "P (a, al)"
    and "\<And>q b bl. q \<in> set ps \<Longrightarrow> (b, bl) \<in> set (allocs q) \<Longrightarrow> P (b, bl) \<Longrightarrow> q = p \<and> b = a \<and> bl = al"
  shows "find_alloc P ps = Some (p, a, al)"
proof -
  have "find_alloc P ps \<noteq> None" using assms(1-3) by (auto simp: find_alloc_None)
  then obtain q b bl where f: "find_alloc P ps = Some (q, b, bl)" by (cases "find_alloc P ps") auto
  from find_alloc_SomeD [OF f] assms(4) f show ?thesis by blast
qed

subsection \<open>Outcomes of the operations\<close>

abbreviation new_alloc :: "time \<Rightarrow> string \<Rightarrow> Allocation" where
  "new_alloc now cid \<equiv> \<lparr>ContainerId = cid, al_Interface = ''rd_'' @ cid, Forwards = [], AssignedAt = now\<rparr>"

lemma Allocate_pools_none:
  "\<forall>p \<in> set ps. pl_Interface p \<noteq> bridge \<Longrightarrow>
   Allocate_pools now cid bridge ps = Inl (Err (''target bridge not configured: '' @ bridge))"
  by (induction ps) auto

lemma Allocate_pools_at:
  "\<forall>q \<in> set pre. pl_Interface q \<noteq> bridge \<Longrightarrow> pl_Interface p = bridge \<Longrightarrow>
   Allocate_pools now cid bridge (pre @ p # post) =
     bind_res (Allocate_pool now cid p) (\<lambda>(a, p'). Inr (a, pre @ p' # post))"
proof (induction pre)
  case (Cons q pre)
  then show ?case by (cases "Allocate_pool now cid p") (auto split: prod.splits)
qed simp

lemma Allocate_pool_ok:
  assumes "pool_ok p" "ParseCIDR4 (Subnet p) = Some (net24 x)"
  shows "Allocate_pool now cid p = bind_res (findFreeIpv4 (net24 x) (ipv4Add x 254) (allocs p))
    (\<lambda>y. Inr (ip_string y, p\<lparr>Allocations := Some (mput (ip_string y) (new_alloc now cid) (allocs p))\<rparr>))"
  using assms(1)
proof (cases rule: pool_okE)
  case (1 x' m)
  with assms(2) show ?thesis
    by (cases "findFreeIpv4 (net24 x) (ipv4Add x 254) m") (simp_all add: Allocate_pool_def Let_def)
qed

lemma usable_more: "usable n gw m y \<longleftrightarrow> usable n gw [] y \<and> map_of m (ip_string y) = None"
  by (auto simp: usable_def)

lemma split_first: "\<exists>p \<in> set ps. P p \<Longrightarrow> \<exists>pre p post. ps = pre @ p # post \<and> P p \<and> (\<forall>q \<in> set pre. \<not> P q)"
  using split_list_first_prop [of ps P] by blast

text \<open>
  \<open>Allocate\<close> on a valid state: there is no such bridge, its network is full, or the least free
  host address of its pool is handed out.
\<close>

lemma Allocate_cases:
  assumes st: "ipam_inv st"
  obtains (no_bridge) "\<forall>p \<in> set (Pools st). pl_Interface p \<noteq> bridge"
      "Allocate now cid bridge st = Inl (Err (''target bridge not configured: '' @ bridge))"
  | (full) pre p post x where "Pools st = pre @ p # post" "pl_Interface p = bridge"
      "ParseCIDR4 (Subnet p) = Some (net24 x)" "\<nexists>y. usable (net24 x) (ipv4Add x 254) (allocs p) y"
      "Allocate now cid bridge st = Inl (Err (''no free ip in subnet '' @ Subnet p))"
  | (ok) pre p post x y where "Pools st = pre @ p # post" "pl_Interface p = bridge"
      "ParseCIDR4 (Subnet p) = Some (net24 x)" "usable (net24 x) (ipv4Add x 254) (allocs p) y"
      "\<forall>z. usable (net24 x) (ipv4Add x 254) (allocs p) z \<longrightarrow> unat y \<le> unat z"
      "Allocate now cid bridge st = Inr (ip_string y, st\<lparr>Pools := pre @
         p\<lparr>Allocations := Some (mput (ip_string y) (new_alloc now cid) (allocs p))\<rparr> # post\<rparr>)"
proof (cases "\<exists>p \<in> set (Pools st). pl_Interface p = bridge")
  case False
  then have "\<forall>p \<in> set (Pools st). pl_Interface p \<noteq> bridge" by blast
  from this Allocate_pools_none [OF this] show thesis by (intro no_bridge) (simp_all add: Allocate_def)
next
  case True
  then obtain pre p post where ps: "Pools st = pre @ p # post" and p: "pl_Interface p = bridge"
    and pre: "\<forall>q \<in> set pre. pl_Interface q \<noteq> bridge" using split_first [OF True] by blast
  have pok: "pool_ok p" using st ps by (simp add: ipam_inv_def)
  then obtain x where x: "256 dvd unat x" "ParseCIDR4 (Subnet p) = Some (net24 x)"
    "Subnet p = ipnet_string (net24 x)" by (rule pool_okE) blast
  note unf = Allocate_def ps Allocate_pools_at [OF pre p] Allocate_pool_ok [OF pok x(2)]
  note spec = findFreeIpv4_spec [of 24 "net24 x" "ipv4Add x 254" "allocs p"]
  show thesis
  proof (cases "findFreeIpv4 (net24 x) (ipv4Add x 254) (allocs p)")
    case (Inl e)
    then have e: "e = Err (''no free ip in subnet '' @ Subnet p)"
      by (auto simp: findFreeIpv4_def x(3) Let_def split: option.splits)
    have "\<nexists>y. usable (net24 x) (ipv4Add x 254) (allocs p) y"
      using spec x(1) Inl ex_least_ip [of "usable (net24 x) (ipv4Add x 254) (allocs p)"]
      by (fastforce simp: wf_net24)
    with Inl e show thesis by (intro full [OF ps p x(2)]) (simp_all add: unf)
  next
    case (Inr y)
    have "usable (net24 x) (ipv4Add x 254) (allocs p) y \<and>
        (\<forall>z. usable (net24 x) (ipv4Add x 254) (allocs p) z \<longrightarrow> unat y \<le> unat z)"
      using spec [of y] x(1) Inr by (simp add: wf_net24)
    then show thesis using Inr by (intro ok [OF ps p x(2)]) (simp_all add: unf)
  qed
qed

lemma Allocate_inv:
  assumes "ipam_inv st" "Allocate now cid bridge st = Inr (a, st')"
  shows "ipam_inv st'"
  using assms(1)
proof (cases rule: Allocate_cases [where now = now and cid = cid and bridge = bridge])
  case (ok pre p post x y)
  have pok: "pool_ok p" using assms(1) ok(1) by (simp add: ipam_inv_def)
  then obtain m where m: "allocs p = m" "mwf m" by (rule pool_okE) blast
  have "pool_ok (p\<lparr>Allocations := Some (mput (ip_string y) (new_alloc now cid) (allocs p))\<rparr>)"
  proof (rule pool_ok_allocations [OF pok])
    show "mwf (mput (ip_string y) (new_alloc now cid) (allocs p))" using m by simp
    fix b z
    assume b: "b \<in> set (mkeys (mput (ip_string y) (new_alloc now cid) (allocs p)))"
      "b \<notin> set (mkeys (allocs p))" "ParseCIDR4 (Subnet p) = Some (net24 z)"
    then have "b = ip_string y" using set_mput_subset [of "ip_string y"] by fastforce
    moreover have "z = x" using b(3) ok(3) by simp
    moreover have "usable (net24 x) (ipv4Add x 254) [] y" using ok(4) by (rule usable_more [THEN iffD1, THEN conjunct1])
    ultimately show "\<exists>y. b = ip_string y \<and> usable (net24 z) (ipv4Add z 254) [] y" by blast
  qed
  then have "ipam_inv (st\<lparr>Pools := pre @
     p\<lparr>Allocations := Some (mput (ip_string y) (new_alloc now cid) (allocs p))\<rparr> # post\<rparr>)"
    by (rule ipam_inv_pool_update [OF assms(1) ok(1)])
  with ok(6) assms(2) show ?thesis by simp
qed (use assms(2) in simp_all)

text \<open>\<open>Release\<close> and \<open>SetForwardInfo\<close> act on the first allocation of the container.\<close>

lemma Release_pools_cases:
  obtains (none) "\<forall>p \<in> set ps. \<forall>(a, al) \<in> set (allocs p). ContainerId al \<noteq> cid" "Release_pools cid ps = ps"
  | (hit) pre p post a al where "ps = pre @ p # post" "(a, al) \<in> set (allocs p)" "ContainerId al = cid"
      "Release_pools cid ps = pre @ p\<lparr>Allocations := map_option (mdel a) (Allocations p)\<rparr> # post"
proof (induction ps arbitrary: thesis)
  case Nil
  then show ?case by simp
next
  case (Cons p ps)
  show ?case
  proof (cases "range_find (\<lambda>a. ContainerId a = cid) (allocs p)")
    case (Some e)
    then obtain a al where e: "range_find (\<lambda>a. ContainerId a = cid) (allocs p) = Some (a, al)"
      by (cases e) auto
    with range_find_SomeD [OF e] show ?thesis by (intro Cons.prems(2) [of "[]" p ps a al]) auto
  next
    case None
    then have no: "\<forall>(a, al) \<in> set (allocs p). ContainerId al \<noteq> cid" by (auto simp: range_find_None)
    show ?thesis
    proof (rule Cons.IH)
      assume "\<forall>p \<in> set ps. \<forall>(a, al) \<in> set (allocs p). ContainerId al \<noteq> cid" "Release_pools cid ps = ps"
      with no None show thesis by (intro Cons.prems(1)) auto
    next
      fix pre q post a al
      assume "ps = pre @ q # post" "(a, al) \<in> set (allocs q)" "ContainerId al = cid"
        "Release_pools cid ps = pre @ q\<lparr>Allocations := map_option (mdel a) (Allocations q)\<rparr> # post"
      with None show thesis by (intro Cons.prems(2) [of "p # pre" q post a al]) auto
    qed
  qed
qed

lemma SetForwardInfo_pools_cases:
  obtains (none) "\<forall>p \<in> set ps. \<forall>(a, al) \<in> set (allocs p). ContainerId al \<noteq> cid"
      "SetForwardInfo_pools cid fi ps = Inl (Err (''container: '' @ cid @ '' not found''))"
  | (hit) pre p post a al where "ps = pre @ p # post" "(a, al) \<in> set (allocs p)" "ContainerId al = cid"
      "SetForwardInfo_pools cid fi ps = Inr (pre @ p\<lparr>Allocations :=
         map_option (mput a (al\<lparr>Forwards := Forwards al @ [fi]\<rparr>)) (Allocations p)\<rparr> # post)"
proof (induction ps arbitrary: thesis)
  case Nil
  then show ?case by simp
next
  case (Cons p ps)
  show ?case
  proof (cases "range_find (\<lambda>a. ContainerId a = cid) (allocs p)")
    case (Some e)
    then obtain a al where e: "range_find (\<lambda>a. ContainerId a = cid) (allocs p) = Some (a, al)"
      by (cases e) auto
    with range_find_SomeD [OF e] show ?thesis by (intro Cons.prems(2) [of "[]" p ps a al]) auto
  next
    case None
    then have no: "\<forall>(a, al) \<in> set (allocs p). ContainerId al \<noteq> cid" by (auto simp: range_find_None)
    show ?thesis
    proof (rule Cons.IH)
      assume "\<forall>p \<in> set ps. \<forall>(a, al) \<in> set (allocs p). ContainerId al \<noteq> cid"
        "SetForwardInfo_pools cid fi ps = Inl (Err (''container: '' @ cid @ '' not found''))"
      with no None show thesis by (intro Cons.prems(1)) auto
    next
      fix pre q post a al
      assume "ps = pre @ q # post" "(a, al) \<in> set (allocs q)" "ContainerId al = cid"
        "SetForwardInfo_pools cid fi ps = Inr (pre @ q\<lparr>Allocations :=
           map_option (mput a (al\<lparr>Forwards := Forwards al @ [fi]\<rparr>)) (Allocations q)\<rparr> # post)"
      with None show thesis by (intro Cons.prems(2) [of "p # pre" q post a al]) auto
    qed
  qed
qed

text \<open>An update of one pool's map that adds no key keeps the invariant.\<close>

lemma ipam_inv_shrink:
  assumes st: "ipam_inv st" "Pools st = pre @ p # post"
    and g: "\<And>m. mwf m \<Longrightarrow> mwf (g m)" "set (mkeys (g (allocs p))) \<subseteq> set (mkeys (allocs p))"
  shows "ipam_inv (st\<lparr>Pools := pre @ p\<lparr>Allocations := map_option g (Allocations p)\<rparr> # post\<rparr>)"
proof -
  have pok: "pool_ok p" using st by (simp add: ipam_inv_def)
  then obtain m where m: "Allocations p = Some m" "allocs p = m" "mwf m" by (rule pool_okE) blast
  have "pool_ok (p\<lparr>Allocations := Some (g m)\<rparr>)"
    by (rule pool_ok_allocations [OF pok g(1) [OF m(3)]]) (use g(2) m(2) in blast)
  then show ?thesis using ipam_inv_pool_update [OF st] m by simp
qed

lemma Release_inv: "ipam_inv st \<Longrightarrow> Release cid st = Inr st' \<Longrightarrow> ipam_inv st'"
proof (cases rule: Release_pools_cases [of "Pools st" cid])
  case (hit pre p post a al)
  assume "ipam_inv st" "Release cid st = Inr st'"
  with hit show ?thesis
    using ipam_inv_shrink [of st pre p post "mdel a"] by (auto simp: Release_def set_mdel)
qed (auto simp: Release_def)

lemma SetForwardInfo_inv: "ipam_inv st \<Longrightarrow> SetForwardInfo cid sp dp pr st = Inr st' \<Longrightarrow> ipam_inv st'"
proof (cases rule: SetForwardInfo_pools_cases
    [of "Pools st" cid "\<lparr>HostPort = sp, ContainerPort = dp, Protocol = pr\<rparr>"])
  case (hit pre p post a al)
  let ?g = "mput a (al\<lparr>Forwards := Forwards al @ [\<lparr>HostPort = sp, ContainerPort = dp, Protocol = pr\<rparr>]\<rparr>)"
  assume "ipam_inv st" "SetForwardInfo cid sp dp pr st = Inr st'"
  moreover have "set (mkeys (?g (allocs p))) \<subseteq> set (mkeys (allocs p))"
    using hit(2) by (auto intro: rev_image_eqI)
  ultimately show ?thesis
    using hit ipam_inv_shrink [of st pre p post ?g] by (auto simp: SetForwardInfo_def)
qed (auto simp: SetForwardInfo_def)

lemma RemoveBridge_inv: "ipam_inv st \<Longrightarrow> RemoveBridge b st = Inr st' \<Longrightarrow> ipam_inv st'"
  by (auto simp: RemoveBridge_def ipam_inv_def distinct_map_filter split: if_splits)

lemma SetConfig_fn_inv: "ipam_inv st \<Longrightarrow> SetConfig_fn ifc addr st = Inr st' \<Longrightarrow> ipam_inv st'"
  by (cases "Pools st = []") (auto simp: SetConfig_fn_def ipam_inv_def Let_def default_pool_ok)

lemma used_subnets_ok: "\<forall>p \<in> set ps. pool_ok p \<Longrightarrow> used_subnets ps = Inr (map Subnet ps)"
proof (induction ps)
  case (Cons p ps)
  then obtain x where "ParseCIDR4 (Subnet p) = Some (net24 x)" "Subnet p = ipnet_string (net24 x)"
    by (auto elim!: pool_okE)
  with Cons show ?case by simp
qed simp

lemma StoreBridge_cases:
  assumes st: "ipam_inv st"
  obtains (exists) "\<exists>p \<in> set (Pools st). pl_Interface p = bridge"
      "StoreBridge bridge st = Inl (Err (''interface: '' @ bridge @ '' is already created''))"
  | (full) "\<forall>p \<in> set (Pools st). pl_Interface p \<noteq> bridge" "\<nexists>x. free24 runtime_net (map Subnet (Pools st)) x"
      "StoreBridge bridge st =
         Inl (Err (''no available /24 subnet in runtime subnet: '' @ RuntimeSubnet st))"
  | (ok) x where "\<forall>p \<in> set (Pools st). pl_Interface p \<noteq> bridge" "free24 runtime_net (map Subnet (Pools st)) x"
      "StoreBridge bridge st = Inr ((ipnet_string (net24 x), ip_string (ipv4Add x 254) @ ''/24''),
         st\<lparr>Pools := Pools st @ [\<lparr>pl_Interface = bridge, Subnet = ipnet_string (net24 x),
           Address = ip_string (ipv4Add x 254) @ ''/24'', Allocations = Some []\<rparr>]\<rparr>)"
proof (cases "\<exists>p \<in> set (Pools st). pl_Interface p = bridge")
  case True
  then show thesis by (intro exists) (simp_all add: StoreBridge_def)
next
  case new: False
  have rt: "RuntimeSubnet st = ''10.166.0.0/16''" using st by (simp add: ipam_inv_def)
  have used: "used_subnets (Pools st) = Inr (map Subnet (Pools st))"
    using st by (intro used_subnets_ok) (simp add: ipam_inv_def)
  have ones: "mask_ones (net_mask runtime_net) = Some 16"
    by (simp add: runtime_net_def mask_ones_cidr)
  let ?r = "bridge_loop (2 ^ 24 + 1) runtime_net (map Subnet (Pools st)) (net_ip runtime_net AND net_mask runtime_net)"
  have unf: "StoreBridge bridge st = (case ?r of
      Out_of_fuel \<Rightarrow> Inl (Panic ''no return'')
    | Exhausted \<Rightarrow> Inl (Err (''no available /24 subnet in runtime subnet: '' @ RuntimeSubnet st))
    | Found x \<Rightarrow> Inr ((ipnet_string (net24 x), ip_string (ipv4Add x 254) @ ''/24''),
         st\<lparr>Pools := Pools st @ [\<lparr>pl_Interface = bridge, Subnet = ipnet_string (net24 x),
           Address = ip_string (ipv4Add x 254) @ ''/24'', Allocations = Some []\<rparr>]\<rparr>))"
    using new unfolding StoreBridge_def rt parse_runtime used by (cases ?r) (simp_all add: ones runtime_net_string Let_def)
  have "case ?r of Found x \<Rightarrow> free24 runtime_net (map Subnet (Pools st)) x
     | Exhausted \<Rightarrow> (\<nexists>x. free24 runtime_net (map Subnet (Pools st)) x) | Out_of_fuel \<Rightarrow> False"
    by (rule bridge_loop_start [OF wf_runtime_net]) simp_all
  with new unf full ok show thesis by (cases ?r) simp_all
qed

lemma StoreBridge_inv:
  assumes st: "ipam_inv st" and r: "StoreBridge b st = Inr (r, st')"
  shows "ipam_inv st'"
  using st
proof (cases rule: StoreBridge_cases [where bridge = b])
  case (ok x)
  have "pool_ok \<lparr>pl_Interface = b, Subnet = ipnet_string (net24 x),
           Address = ip_string (ipv4Add x 254) @ ''/24'', Allocations = Some []\<rparr>"
    using ok(2) unfolding pool_ok_def by (intro exI [of _ x] exI [of _ "[]"]) (auto simp: free24_def)
  with st r ok show ?thesis by (auto simp: ipam_inv_def free24_def)
qed (use r in auto)

subsection \<open>The store on disk\<close>

text \<open>The state-changing operations of \<open>IpamManager\<close> as data, and a history of them.\<close>

datatype ipam_op =
    Op_Allocate time string string
  | Op_Release string
  | Op_StoreBridge string
  | Op_RemoveBridge string
  | Op_SetForwardInfo string int int string
  | Op_SetConfig string string

fun ipam_apply :: "ipam_op \<Rightarrow> IpamState \<Rightarrow> IpamState result" where
  "ipam_apply (Op_Allocate now cid b) st = bind_res (Allocate now cid b st) (\<lambda>(a, st'). Inr st')"
| "ipam_apply (Op_Release cid) st = Release cid st"
| "ipam_apply (Op_StoreBridge b) st = bind_res (StoreBridge b st) (\<lambda>(a, st'). Inr st')"
| "ipam_apply (Op_RemoveBridge b) st = RemoveBridge b st"
| "ipam_apply (Op_SetForwardInfo cid sp dp pr) st = SetForwardInfo cid sp dp pr st"
| "ipam_apply (Op_SetConfig ifc addr) st = SetConfig_fn ifc addr st"

definition ipam_run ::
  "string result \<Rightarrow> (string \<Rightarrow> string result) \<Rightarrow> (faults \<times> ipam_op) list \<Rightarrow> IpamState disk \<Rightarrow> IpamState disk" where
  "ipam_run route_out addr_out ops =
     run_updates (ipam_loadOrInit route_out addr_out) (map (\<lambda>(fl, op). (fl, ipam_apply op)) ops)"

lemma ipam_initial_inv: "ipam_inv (ipam_initial ifc addr)"
  by (simp add: ipam_inv_def ipam_initial_def default_pool_ok)

lemma ipam_apply_inv: "ipam_inv st \<Longrightarrow> ipam_apply op st = Inr st' \<Longrightarrow> ipam_inv st'"
  by (cases op) (auto simp: bind_res_eq_Inr dest: Allocate_inv Release_inv StoreBridge_inv
      RemoveBridge_inv SetForwardInfo_inv SetConfig_fn_inv)

interpretation ipam_file: json_store "ipam_loadOrInit route_out addr_out" "\<lambda>st. st" ipam_inv
  for route_out addr_out
  by unfold_locales
    (auto simp: ipam_loadOrInit_def bind_res_eq_Inr is_ok_iff ipam_initial_inv)

lemma ipam_run_inv:
  "doc_inv ipam_inv d \<Longrightarrow> doc_inv ipam_inv (ipam_run route_out addr_out ops d)"
  unfolding ipam_run_def by (rule ipam_file.run_updates_inv) (auto intro: ipam_apply_inv)

subsection \<open>The abstract view: which address belongs to which bridge and container\<close>

definition alloc_view :: "IpamState \<Rightarrow> string \<Rightarrow> (string \<times> Allocation) option" where
  "alloc_view st a =
     map_option (\<lambda>(p, b, al). (pl_Interface p, al)) (find_alloc (\<lambda>(b, al). b = a) (Pools st))"

lemma option_eqI: "(\<And>v. x = Some v \<longleftrightarrow> y = Some v) \<Longrightarrow> x = y"
  by (cases x; cases y) auto

lemma pool_mwf: "pool_ok p \<Longrightarrow> mwf (allocs p)"
  by (auto elim: pool_okE)

lemma alloc_view_iff:
  assumes st: "ipam_inv st"
  shows "alloc_view st a = Some (b, al) \<longleftrightarrow> (\<exists>p \<in> set (Pools st). pl_Interface p = b \<and> (a, al) \<in> set (allocs p))"
proof
  assume "alloc_view st a = Some (b, al)"
  then show "\<exists>p \<in> set (Pools st). pl_Interface p = b \<and> (a, al) \<in> set (allocs p)"
    by (auto simp: alloc_view_def dest!: find_alloc_SomeD)
next
  assume "\<exists>p \<in> set (Pools st). pl_Interface p = b \<and> (a, al) \<in> set (allocs p)"
  then obtain p where p: "p \<in> set (Pools st)" "pl_Interface p = b" "(a, al) \<in> set (allocs p)" by blast
  have "find_alloc (\<lambda>(b, al). b = a) (Pools st) = Some (p, a, al)"
  proof (rule find_alloc_unique [OF p(1,3)])
    fix q c cl
    assume q: "q \<in> set (Pools st)" "(c, cl) \<in> set (allocs q)" "case (c, cl) of (b, al) \<Rightarrow> b = a"
    then have "q = p" using p by (intro ipam_inv_pool_unique [OF st, of q p a]) (auto intro: rev_image_eqI)
    moreover have "mwf (allocs p)" using st p(1) by (intro pool_mwf) (simp add: ipam_inv_def)
    ultimately show "q = p \<and> c = a \<and> cl = al" using q p(3) by (auto simp: mwf_def eq_key_imp_eq_value)
  qed simp
  with p(2) show "alloc_view st a = Some (b, al)" by (simp add: alloc_view_def)
qed

lemma alloc_view_None:
  "alloc_view st a = None \<longleftrightarrow> (\<forall>p \<in> set (Pools st). a \<notin> fst ` set (allocs p))"
  by (simp add: alloc_view_def find_alloc_None case_prod_beta image_iff eq_commute [of a])

lemma other_pool:
  assumes st: "ipam_inv st" "Pools st = pre @ p # post" and a: "a \<in> fst ` set (allocs p)"
    and q: "q \<in> set pre \<union> set post"
  shows "a \<notin> fst ` set (allocs q)"
proof
  assume "a \<in> fst ` set (allocs q)"
  then have "q = p"
    using q st(2) a by (intro ipam_inv_pool_unique [OF st(1), of q p a]) auto
  then have "pl_Interface p \<in> pl_Interface ` (set pre \<union> set post)" using q by blast
  moreover have "distinct (map pl_Interface (pre @ p # post))" using st by (simp add: ipam_inv_def)
  ultimately show False by (auto simp: distinct_append)
qed

lemma alloc_view_put:
  assumes st: "ipam_inv st" "Pools st = pre @ p # post"
    and st': "st' = st\<lparr>Pools := pre @ p\<lparr>Allocations := Some (mput a al (allocs p))\<rparr> # post\<rparr>" "ipam_inv st'"
  shows "alloc_view st' = (alloc_view st)(a \<mapsto> (pl_Interface p, al))"
proof (rule ext, rule option_eqI)
  fix c and v :: "string \<times> Allocation"
  obtain b cl where v: "v = (b, cl)" by (cases v)
  have mwf: "mwf (allocs p)" using st by (intro pool_mwf) (simp add: ipam_inv_def)
  let ?p = "p\<lparr>Allocations := Some (mput a al (allocs p))\<rparr>"
  have e: "set (mput a al (allocs p)) = insert (a, al) {(k, w) \<in> set (allocs p). k \<noteq> a}"
    by (rule set_mput_wf [OF mwf])
  have ps': "Pools st' = pre @ ?p # post" using st'(1) by simp
  have others: "\<forall>q \<in> set pre \<union> set post. \<forall>w. (a, w) \<notin> set (allocs q)"
    using other_pool [OF st'(2) ps', of a] e by (fastforce simp: image_iff)
  show "alloc_view st' c = Some v \<longleftrightarrow> ((alloc_view st)(a \<mapsto> (pl_Interface p, al))) c = Some v"
    unfolding v using others
    by (cases "c = a") (auto simp: alloc_view_iff [OF st(1)] alloc_view_iff [OF st'(2)] st(2) ps' e)
qed

lemma alloc_view_del:
  assumes st: "ipam_inv st" "Pools st = pre @ p # post" and a: "(a, al) \<in> set (allocs p)"
    and st': "st' = st\<lparr>Pools := pre @ p\<lparr>Allocations := map_option (mdel a) (Allocations p)\<rparr> # post\<rparr>"
      "ipam_inv st'"
  shows "alloc_view st' = (alloc_view st)(a := None)"
proof (rule ext, rule option_eqI)
  fix c and v :: "string \<times> Allocation"
  obtain b cl where v: "v = (b, cl)" by (cases v)
  let ?p = "p\<lparr>Allocations := map_option (mdel a) (Allocations p)\<rparr>"
  have e: "set (allocs ?p) = {(k, w) \<in> set (allocs p). k \<noteq> a}"
    by (cases "Allocations p") (auto simp: allocs_def set_mdel)
  have ps': "Pools st' = pre @ ?p # post" using st'(1) by simp
  have others: "\<forall>q \<in> set pre \<union> set post. \<forall>w. (a, w) \<notin> set (allocs q)"
    using other_pool [OF st, of a] a by (fastforce simp: image_iff)
  show "alloc_view st' c = Some v \<longleftrightarrow> ((alloc_view st)(a := None)) c = Some v"
    unfolding v using others
    by (cases "c = a") (auto simp: alloc_view_iff [OF st(1)] alloc_view_iff [OF st'(2)] st(2) ps' e)
qed

lemma Allocate_view:
  assumes st: "ipam_inv st" and r: "Allocate now cid bridge st = Inr (a, st')"
  shows "alloc_view st' = (alloc_view st)(a \<mapsto> (bridge, new_alloc now cid))" "alloc_view st a = None"
proof -
  have st': "ipam_inv st'" by (rule Allocate_inv [OF st r])
  obtain pre p post x y where ok: "Pools st = pre @ p # post" "pl_Interface p = bridge"
    "ParseCIDR4 (Subnet p) = Some (net24 x)" "usable (net24 x) (ipv4Add x 254) (allocs p) y"
    "a = ip_string y"
    "st' = st\<lparr>Pools := pre @ p\<lparr>Allocations := Some (mput (ip_string y) (new_alloc now cid) (allocs p))\<rparr> # post\<rparr>"
    using st r by (cases rule: Allocate_cases [where now = now and cid = cid and bridge = bridge]) auto
  show view: "alloc_view st' = (alloc_view st)(a \<mapsto> (bridge, new_alloc now cid))"
    using alloc_view_put [OF st ok(1,6) st'] ok by simp
  have "a \<notin> fst ` set (allocs p)" using ok(4,5) by (simp add: usable_def map_of_eq_None_iff)
  moreover have "a \<notin> fst ` set (allocs q)" if "q \<in> set pre \<union> set post" for q
    by (rule other_pool [OF st' _ _ that, where p = "p\<lparr>Allocations := Some (mput a (new_alloc now cid) (allocs p))\<rparr>"])
      (simp_all add: ok(5,6))
  ultimately show "alloc_view st a = None" by (auto simp: alloc_view_None ok(1))
qed

end
