(* ===== verification/Ipam_Facts.thy ===== *)
theory Ipam_Facts
  imports Ipam
begin

text \<open>
  What the IPAM operations promise their callers: a /24 pool hands out exactly 253 addresses,
  the runtime network has room for exactly 256 pools, an address is never given out twice, and
  releasing undoes allocating.
\<close>

subsection \<open>Capacity of a pool and of the runtime network\<close>

lemma host_addresses:
  assumes x: "256 dvd unat x"
  shows "{y. usable (net24 x) (ipv4Add x 254) [] y} = (\<lambda>i. ipv4Add x (word_of_nat i)) ` {1..253}"
    and "inj_on (\<lambda>i. ipv4Add x (word_of_nat i)) {0..255}"
proof -
  have lim: "unat x + 256 \<le> 2 ^ 32" using wf_net_limit [of 24 "net24 x"] x by (simp add: wf_net24)
  have u: "unat (ipv4Add x (word_of_nat i)) = unat x + i" if "i \<le> 255" for i
    using that lim by (simp add: ipv4Add_def unat_word_ariths unat_of_nat)
  have wf: "wf_net 24 (net24 x)" using x by (simp add: wf_net24)
  have eq: "y = ipv4Add x (word_of_nat i) \<longleftrightarrow> unat y = unat x + i" if "i \<le> 255" for y i
    using u [OF that] by (metis word_unat_eq_iff)
  have us: "usable (net24 x) (ipv4Add x 254) [] y \<longleftrightarrow>
      unat x < unat y \<and> unat y < unat x + 254" for y
  proof -
    have "usable (net24 x) (ipv4Add x 254) [] y \<longleftrightarrow> unat x \<le> unat y \<and> unat y < unat x + 256 \<and>
        unat y \<noteq> unat x \<and> unat y \<noteq> unat x + 254 \<and> unat y \<noteq> unat x + 255"
      using u [of 254] u [of 255]
      by (simp add: usable_def broadcast_net24 [OF x] wf_net_contains [OF wf] word_unat_eq_iff)
    then show ?thesis by linarith
  qed
  show "{y. usable (net24 x) (ipv4Add x 254) [] y} = (\<lambda>i. ipv4Add x (word_of_nat i)) ` {1..253}"
  proof (intro equalityI subsetI)
    fix y assume "y \<in> {y. usable (net24 x) (ipv4Add x 254) [] y}"
    then have "unat y - unat x \<in> {1..253}" "unat y = unat x + (unat y - unat x)" by (auto simp: us)
    moreover from this have "y = ipv4Add x (word_of_nat (unat y - unat x))" by (subst eq) auto
    ultimately show "y \<in> (\<lambda>i. ipv4Add x (word_of_nat i)) ` {1..253}" by blast
  qed (auto simp: us u)
  show "inj_on (\<lambda>i. ipv4Add x (word_of_nat i)) {0..255}"
    by (rule inj_onI) (metis u atLeastAtMost_iff add_left_cancel)
qed

lemma pool_room:
  assumes "pool_ok p" "ParseCIDR4 (Subnet p) = Some (net24 x)"
  shows "(\<exists>y. usable (net24 x) (ipv4Add x 254) (allocs p) y) \<longleftrightarrow> length (allocs p) < 253"
    and "length (allocs p) \<le> 253"
proof -
  obtain m where x: "256 dvd unat x" and m: "allocs p = m" "mwf m"
    and keys: "\<And>a. a \<in> set (mkeys m) \<Longrightarrow> \<exists>y. a = ip_string y \<and> usable (net24 x) (ipv4Add x 254) [] y"
    using assms by (elim pool_okE) auto
  let ?U = "{y. usable (net24 x) (ipv4Add x 254) [] y}"
  have card: "card (ip_string ` ?U) = 253"
  proof -
    have "inj_on (\<lambda>i. ipv4Add x (word_of_nat i)) {1..253}"
      by (rule inj_on_subset [OF host_addresses(2) [OF x]]) auto
    then have "card ?U = 253" unfolding host_addresses(1) [OF x] by (simp add: card_image)
    moreover have "inj_on ip_string ?U" by (rule inj_onI) (simp add: ip_string_inj)
    ultimately show ?thesis by (simp add: card_image)
  qed
  then have fin: "finite (ip_string ` ?U)" by (metis card.infinite zero_neq_numeral)
  have sub: "set (mkeys m) \<subseteq> ip_string ` ?U" using keys by blast
  have len: "card (set (mkeys m)) = length m" using m(2) by (metis distinct_card length_map mwf_def)
  show "length (allocs p) \<le> 253" using card_mono [OF fin sub] card len m(1) by simp
  have "(\<exists>y. usable (net24 x) (ipv4Add x 254) m y) \<longleftrightarrow> ip_string ` ?U - set (mkeys m) \<noteq> {}"
    using usable_more [of "net24 x" "ipv4Add x 254" m] by (auto simp: map_of_eq_None_iff)
  also have "\<dots> \<longleftrightarrow> set (mkeys m) \<noteq> ip_string ` ?U" using sub by blast
  also have "\<dots> \<longleftrightarrow> length m < 253"
    unfolding proper_subset_card [OF fin sub] card len ..
  finally show "(\<exists>y. usable (net24 x) (ipv4Add x 254) (allocs p) y) \<longleftrightarrow> length (allocs p) < 253"
    using m(1) by simp
qed

lemma runtime_subnets:
  "{x. net_contains runtime_net x \<and> 256 dvd unat x} = (\<lambda>i. 178651136 + word_of_nat (256 * i)) ` {0..<256}"
  "inj_on (\<lambda>i. ipnet_string (net24 (178651136 + word_of_nat (256 * i)))) {0..<256}"
proof -
  have u: "unat (178651136 + word_of_nat (256 * i) :: ip) = 178651136 + 256 * i" if "i < 256" for i :: nat
  proof -
    have "256 * i < 2 ^ 32" using that by simp
    then have "unat (word_of_nat (256 * i) :: ip) = 256 * i" by (rule unat_word_of_nat)
    then show ?thesis using that by (simp add: unat_word_ariths)
  qed
  have c: "net_contains runtime_net x \<longleftrightarrow> 178651136 \<le> unat x \<and> unat x < 178651136 + 65536" for x
    by (simp add: wf_net_contains [OF wf_runtime_net]) (simp add: runtime_net_def)
  have d: "(256 :: nat) dvd 178651136" by simp
  show "{x. net_contains runtime_net x \<and> 256 dvd unat x} = (\<lambda>i. 178651136 + word_of_nat (256 * i)) ` {0..<256}"
  proof (intro equalityI subsetI)
    fix x :: ip assume "x \<in> {x. net_contains runtime_net x \<and> 256 dvd unat x}"
    then have x: "178651136 \<le> unat x" "unat x < 178651136 + 65536" "256 dvd unat x" by (auto simp: c)
    define i where "i = (unat x - 178651136) div 256"
    have "256 dvd unat x - 178651136" using x(3) d by (intro dvd_diff_nat)
    then have i: "unat x = 178651136 + 256 * i" "i < 256" using x by (auto simp: i_def)
    then have "x = 178651136 + word_of_nat (256 * i)" using u [OF i(2)] by (metis word_unat_eq_iff)
    with i(2) show "x \<in> (\<lambda>i. 178651136 + word_of_nat (256 * i)) ` {0..<256}" by auto
  next
    fix x :: ip assume "x \<in> (\<lambda>i. 178651136 + word_of_nat (256 * i)) ` {0..<256}"
    then obtain i where i: "i < 256" "x = 178651136 + word_of_nat (256 * i)" by auto
    then have "unat x = 178651136 + 256 * i" using u by metis
    then show "x \<in> {x. net_contains runtime_net x \<and> 256 dvd unat x}"
      using i(1) d by (auto simp: c)
  qed
  show "inj_on (\<lambda>i. ipnet_string (net24 (178651136 + word_of_nat (256 * i)))) {0..<256}"
  proof (rule inj_onI)
    fix i j :: nat
    assume ij: "i \<in> {0..<256}" "j \<in> {0..<256}"
      "ipnet_string (net24 (178651136 + word_of_nat (256 * i))) = ipnet_string (net24 (178651136 + word_of_nat (256 * j)))"
    have w: "wf_net 24 (net24 (178651136 + word_of_nat (256 * k)))" if "k < 256" for k
      unfolding wf_net24 u [OF that] using d by simp
    from ij have "net24 (178651136 + word_of_nat (256 * i)) = net24 (178651136 + word_of_nat (256 * j))"
      using ParseCIDR4_ipnet_string [OF w [of i]] ParseCIDR4_ipnet_string [OF w [of j]] by simp
    then have "178651136 + 256 * i = 178651136 + 256 * j" using u ij by (metis atLeastLessThan_iff ipnet.select_convs(1))
    then show "i = j" by simp
  qed
qed

lemma runtime_room:
  assumes st: "ipam_inv st"
  shows "(\<exists>x. free24 runtime_net (map Subnet (Pools st)) x) \<longleftrightarrow> length (Pools st) < 256"
    and "length (Pools st) \<le> 256"
proof -
  let ?X = "{x. net_contains runtime_net x \<and> 256 dvd unat x}"
  let ?S = "(\<lambda>x. ipnet_string (net24 x)) ` ?X" and ?P = "set (map Subnet (Pools st))"
  have S: "?S = (\<lambda>i. ipnet_string (net24 (178651136 + word_of_nat (256 * i)))) ` {0..<256}"
    unfolding runtime_subnets(1) by (simp add: image_image)
  have card: "card ?S = 256" unfolding S using card_image [OF runtime_subnets(2)] by simp
  have fin: "finite ?S" unfolding S by simp
  have sub: "?P \<subseteq> ?S"
  proof
    fix s assume "s \<in> ?P"
    then obtain p where p: "p \<in> set (Pools st)" "s = Subnet p" by auto
    then have "pool_ok p" using st by (simp add: ipam_inv_def)
    then show "s \<in> ?S" using p(2) by (elim pool_okE) blast
  qed
  have len: "card ?P = length (Pools st)"
    using st distinct_card [of "map Subnet (Pools st)"] by (simp add: ipam_inv_def)
  show "length (Pools st) \<le> 256" using card_mono [OF fin sub] card len by simp
  have "(\<exists>x. free24 runtime_net (map Subnet (Pools st)) x) \<longleftrightarrow> ?S - ?P \<noteq> {}"
    by (auto simp: free24_def)
  also have "\<dots> \<longleftrightarrow> ?P \<noteq> ?S" using sub by blast
  also have "\<dots> \<longleftrightarrow> length (Pools st) < 256"
    unfolding proper_subset_card [OF fin sub] card len ..
  finally show "(\<exists>x. free24 runtime_net (map Subnet (Pools st)) x) \<longleftrightarrow> length (Pools st) < 256" .
qed

subsection \<open>Allocation\<close>

text \<open>C1: \<open>Allocate\<close> on a valid store never panics.  It fails exactly when the bridge has no pool
  or all 253 host addresses of its pool are in use; otherwise it returns an address of the
  pool's network that is neither the network, the gateway nor the broadcast address and that no
  container of any pool holds, and the only change of the store is that this address now belongs
  to the container on that bridge.\<close>

theorem Allocate_correct:
  assumes "ipam_inv st"
  shows "case Allocate now cid bridge st of
      Inr (a, st') \<Rightarrow> ipam_inv st' \<and> alloc_view st a = None \<and>
        alloc_view st' = (alloc_view st)(a \<mapsto> (bridge, new_alloc now cid)) \<and>
        (\<exists>p n y. p \<in> set (Pools st) \<and> pl_Interface p = bridge \<and> ParseCIDR4 (Subnet p) = Some n \<and>
           a = ip_string y \<and> net_contains n y \<and> y \<noteq> net_ip n \<and> y \<noteq> broadcastIPv4 n \<and>
           Address p \<noteq> a @ ''/24'')
    | Inl e \<Rightarrow> (\<exists>msg. e = Err msg) \<and>
        (\<forall>p \<in> set (Pools st). pl_Interface p = bridge \<longrightarrow> length (allocs p) = 253)"
  using assms
proof (cases rule: Allocate_cases [where now = now and cid = cid and bridge = bridge])
  case no_bridge
  then show ?thesis by simp
next
  case (full pre p post x)
  have pok: "pool_ok p" and d: "distinct (map pl_Interface (Pools st))"
    using assms full(1) by (simp_all add: ipam_inv_def)
  have "length (allocs p) = 253" using pool_room [OF pok full(3)] full(4) by simp
  moreover have "q = p" if "q \<in> set (Pools st)" "pl_Interface q = bridge" for q
    by (rule distinct_map_inj [OF d that(1)]) (use that full(1,2) in auto)
  ultimately show ?thesis using full(5) by auto
next
  case (ok pre p post x y)
  have p: "p \<in> set (Pools st)" "pool_ok p" using assms ok(1) by (simp_all add: ipam_inv_def)
  have "Address p = ip_string (ipv4Add x 254) @ ''/24''" using p(2) ok(3) by (elim pool_okE) simp
  then have "Address p \<noteq> ip_string y @ ''/24''" using ok(4) by (auto simp: usable_def ip_string_inj)
  moreover have "net_contains (net24 x) y" "y \<noteq> net_ip (net24 x)" "y \<noteq> broadcastIPv4 (net24 x)"
    using ok(4) by (auto simp: usable_def)
  ultimately have "\<exists>p n y'. p \<in> set (Pools st) \<and> pl_Interface p = bridge \<and> ParseCIDR4 (Subnet p) = Some n \<and>
      ip_string y = ip_string y' \<and> net_contains n y' \<and> y' \<noteq> net_ip n \<and> y' \<noteq> broadcastIPv4 n \<and>
      Address p \<noteq> ip_string y @ ''/24''"
    using p(1) ok(2,3) by blast
  then show ?thesis
    using Allocate_inv [OF assms ok(6)] Allocate_view [OF assms ok(6)] unfolding ok(6) by simp
qed

text \<open>A concrete run: the first address of the default pool.\<close>

lemma Allocate_example:
  "Allocate now cid ''raind0'' (ipam_initial ifc addr) = Inr (''10.166.0.1'', (ipam_initial ifc addr)
     \<lparr>Pools := [default_pool\<lparr>Allocations := Some [(''10.166.0.1'', new_alloc now cid)]\<rparr>]\<rparr>)"
proof -
  have parse: "ParseCIDR4 (Subnet default_pool) = Some (net24 178651136)"
    using default_pool_ok
  proof (cases rule: pool_okE)
    case (1 x m)
    then have "ip_string (ipv4Add x 254) = ip_string 178651390" by (simp add: default_pool_def ip_eval)
    then have "x + 254 = 178651136 + 254" by (simp add: ip_string_inj ipv4Add_def)
    then have "x = 178651136" by (simp only: add_right_cancel)
    with 1 show ?thesis by simp
  qed
  have "net_contains (net24 178651136) 178651137"
    by (simp add: net_contains_def cidr_mask_def and_not_mask_eq_iff)
  then have "findFreeIpv4 (net24 178651136) (ipv4Add 178651136 254) [] = Inr 178651137"
    by (simp add: findFreeIpv4_def find_free_loop.simps [of 16777216] Let_def incIP_eq ipv4Add_def
        broadcast_net24)
  then show ?thesis
    using Allocate_pool_ok [OF default_pool_ok parse]
    by (simp add: Allocate_def ipam_initial_def default_pool_def allocs_def ip_string_def bytes_of_def dec_eval)
qed

theorem Allocate_correct_witness:
  "ipam_inv (ipam_initial ''eth0'' ''192.168.0.2/24'') \<and>
   alloc_view ((ipam_initial ''eth0'' ''192.168.0.2/24'')
     \<lparr>Pools := [default_pool\<lparr>Allocations := Some [(''10.166.0.1'', new_alloc 7 ''c1'')]\<rparr>]\<rparr>) ''10.166.0.1''
     = Some (''raind0'', new_alloc 7 ''c1'')"
  using Allocate_correct [OF ipam_initial_inv [of "''eth0''" "''192.168.0.2/24''"],
      where now = 7 and cid = "''c1''" and bridge = "''raind0''"]
  unfolding Allocate_example by (simp add: ipam_initial_inv)

text \<open>C8: the store file always holds a valid document, whatever operations run on it and whatever
  file system calls fail: after any history on a missing or valid file, pools have distinct
  bridges and distinct /24 networks of the runtime network, and no address text is in two pools.\<close>

theorem ipam_history_safe:
  assumes "doc_inv ipam_inv d" "main_file (ipam_run route_out addr_out ops d) = Doc st"
    and "p \<in> set (Pools st)" "q \<in> set (Pools st)" "p \<noteq> q"
  shows "pl_Interface p \<noteq> pl_Interface q \<and> Subnet p \<noteq> Subnet q \<and>
    set (mkeys (allocs p)) \<inter> set (mkeys (allocs q)) = {}"
proof -
  have st: "ipam_inv st" using ipam_run_inv [OF assms(1), of route_out addr_out ops] assms(2)
    by (simp add: doc_inv_def)
  then have "pl_Interface p \<noteq> pl_Interface q" "Subnet p \<noteq> Subnet q"
    using assms(3-5) distinct_map_inj by (fastforce simp: ipam_inv_def)+
  moreover have "set (mkeys (allocs p)) \<inter> set (mkeys (allocs q)) = {}"
    using ipam_inv_pool_unique [OF st assms(3,4)] assms(5) by blast
  ultimately show ?thesis by blast
qed

definition pool_br1 :: Pool where
  "pool_br1 = \<lparr>pl_Interface = ''br1'', Subnet = ''10.166.1.0/24'', Address = ''10.166.1.254/24'',
     Allocations = Some []\<rparr>"

lemma StoreBridge_example:
  "StoreBridge ''br1'' (ipam_initial ifc addr) = Inr ((''10.166.1.0/24'', ''10.166.1.254/24''),
     (ipam_initial ifc addr)\<lparr>Pools := [default_pool, pool_br1]\<rparr>)"
proof -
  have s: "ipnet_string (net24 178651136) = ''10.166.0.0/24''" "ipnet_string (net24 178651392) = ''10.166.1.0/24''"
    "ip_string 178651646 = ''10.166.1.254''"
    by (simp_all add: ipnet_string_def mask_ones_cidr ip_string_def bytes_of_def dec_eval)
  have "net_contains runtime_net 178651136" "net_contains runtime_net 178651392"
    "net_contains runtime_net 178651391" "net_contains runtime_net 178651647"
    by (simp_all add: net_contains_def runtime_net_def cidr_mask_def and_not_mask_eq_iff)
  moreover have "net_ip runtime_net AND net_mask runtime_net = 178651136"
    using wf_net_masked [OF wf_runtime_net] by (simp add: runtime_net_def)
  ultimately have "bridge_loop 16777217 runtime_net [''10.166.0.0/24''] (net_ip runtime_net AND net_mask runtime_net) = Found 178651392"
    by (simp add: bridge_loop.simps [of 16777217] bridge_loop.simps [of 16777216] Let_def s ipv4Add_def
        broadcast_net24)
  moreover have "used_subnets [default_pool] = Inr [''10.166.0.0/24'']"
    using used_subnets_ok [of "[default_pool]"] default_pool_ok by (simp add: default_pool_def)
  moreover have "mask_ones (net_mask runtime_net) = Some 16"
    by (simp add: runtime_net_def mask_ones_cidr)
  ultimately show ?thesis
    using s by (simp add: StoreBridge_def ipam_initial_def parse_runtime Let_def ipv4Add_def pool_br1_def)
      (simp add: default_pool_def)
qed

theorem ipam_history_safe_witness:
  "Subnet default_pool \<noteq> Subnet pool_br1"
proof -
  let ?st = "ipam_initial ''eth0'' ''192.168.0.2/24''"
  let ?d = "\<lparr>main_file = Doc ?st, tmp_file = Absent\<rparr>"
  have d: "doc_inv ipam_inv ?d" by (simp add: doc_inv_def ipam_initial_inv)
  have run: "main_file (ipam_run (Inl (Err [])) (\<lambda>_. Inl (Err [])) [(no_faults, Op_StoreBridge ''br1'')] ?d) =
      Doc (?st\<lparr>Pools := [default_pool, pool_br1]\<rparr>)"
    by (simp add: ipam_run_def with_lock_def no_faults_def read_main_def ipam_loadOrInit_def upd_def
        StoreBridge_example atomic_save_def)
  show ?thesis
    using ipam_history_safe [OF d run, of default_pool pool_br1]
    by (simp add: default_pool_def pool_br1_def)
qed

text \<open>C32: \<open>StoreBridge\<close> on a valid store never panics or loops.  It fails exactly when the bridge
  exists already or all 256 /24 networks of the runtime network are taken; otherwise it appends
  a pool with an empty map whose network is a /24 of the runtime network that shares no address
  with any other pool, and whose gateway lies in that network.\<close>

theorem StoreBridge_correct:
  assumes "ipam_inv st"
  shows "case StoreBridge bridge st of
      Inr ((subnet, addr), st') \<Rightarrow> ipam_inv st' \<and> alloc_view st' = alloc_view st \<and>
        GetBridgeAddr bridge st' = Inr addr \<and>
        (\<exists>n g. ParseCIDR4 subnet = Some n \<and> addr = ip_string g @ ''/24'' \<and> net_contains n g \<and>
           net_contains runtime_net (net_ip n) \<and>
           (\<forall>q \<in> set (Pools st). \<forall>m x. ParseCIDR4 (Subnet q) = Some m \<longrightarrow>
              \<not> (net_contains n x \<and> net_contains m x)))
    | Inl e \<Rightarrow> (\<exists>msg. e = Err msg) \<and>
        ((\<exists>p \<in> set (Pools st). pl_Interface p = bridge) \<or> length (Pools st) = 256)"
  using assms
proof (cases rule: StoreBridge_cases [where bridge = bridge])
  case exists
  then show ?thesis by simp
next
  case full
  then show ?thesis using runtime_room [OF assms] by simp
next
  case (ok x)
  let ?st' = "st\<lparr>Pools := Pools st @ [\<lparr>pl_Interface = bridge, Subnet = ipnet_string (net24 x),
           Address = ip_string (ipv4Add x 254) @ ''/24'', Allocations = Some []\<rparr>]\<rparr>"
  have x: "256 dvd unat x" "net_contains runtime_net x" "ipnet_string (net24 x) \<notin> Subnet ` set (Pools st)"
    using ok(2) by (simp_all add: free24_def)
  have wf: "wf_net 24 (net24 x)" using x by (simp add: wf_net24)
  note inv' = StoreBridge_inv [OF assms ok(3)]
  have view: "alloc_view ?st' = alloc_view st"
    by (rule ext, rule option_eqI)
      (auto simp: alloc_view_iff [OF assms] alloc_view_iff [OF inv'] allocs_def)
  have bridge_addr: "GetBridgeAddr bridge ?st' = Inr (ip_string (ipv4Add x 254) @ ''/24'')"
    using ok(1) by (simp add: GetBridgeAddr_def find_append_None)
  have gw: "net_contains (net24 x) (ipv4Add x 254)"
  proof -
    have "unat x + 256 \<le> 2 ^ 32" using wf_net_limit [OF wf] by simp
    then have "unat (ipv4Add x 254) = unat x + 254" by (simp add: ipv4Add_def unat_word_ariths)
    then show ?thesis by (simp add: wf_net_contains [OF wf])
  qed
  have disj: "\<not> (net_contains (net24 x) y \<and> net_contains m y)"
    if q: "q \<in> set (Pools st)" "ParseCIDR4 (Subnet q) = Some m" for q m y
  proof
    assume y: "net_contains (net24 x) y \<and> net_contains m y"
    have "pool_ok q" using q(1) assms by (simp add: ipam_inv_def)
    then obtain z where z: "256 dvd unat z" "Subnet q = ipnet_string (net24 z)" "m = net24 z"
      using q(2) by (elim pool_okE) simp
    then have "net24 x = net24 z"
      using y by (intro wf_net_disjoint [OF wf, of _ y]) (simp_all add: wf_net24)
    with z(2) x(3) q(1) show False by (metis imageI)
  qed
  have "\<exists>n g. ParseCIDR4 (ipnet_string (net24 x)) = Some n \<and>
      ip_string (ipv4Add x 254) @ ''/24'' = ip_string g @ ''/24'' \<and> net_contains n g \<and>
      net_contains runtime_net (net_ip n) \<and> (\<forall>q \<in> set (Pools st). \<forall>m y. ParseCIDR4 (Subnet q) = Some m \<longrightarrow>
              \<not> (net_contains n y \<and> net_contains m y))"
    using ParseCIDR4_ipnet_string [OF wf] gw x(2) disj
    by (intro exI [of _ "net24 x"] exI [of _ "ipv4Add x 254"]) auto
  with inv' view bridge_addr show ?thesis unfolding ok(3) by simp
qed

theorem StoreBridge_correct_witness:
  "GetBridgeAddr ''br1'' ((ipam_initial ''eth0'' ''192.168.0.2/24'')\<lparr>Pools := [default_pool, pool_br1]\<rparr>)
     = Inr ''10.166.1.254/24''"
  using StoreBridge_correct [OF ipam_initial_inv [of "''eth0''" "''192.168.0.2/24''"], where bridge = "''br1''"]
  unfolding StoreBridge_example by simp

subsection \<open>Release and port forwards\<close>

definition container_absent :: "string \<Rightarrow> IpamState \<Rightarrow> bool" where
  "container_absent cid st \<longleftrightarrow> (\<forall>p \<in> set (Pools st). \<forall>(a, al) \<in> set (allocs p). ContainerId al \<noteq> cid)"

text \<open>The container holds the address and no other.\<close>

definition sole_address :: "string \<Rightarrow> string \<Rightarrow> IpamState \<Rightarrow> bool" where
  "sole_address cid a st \<longleftrightarrow> (\<exists>b al. alloc_view st a = Some (b, al) \<and> ContainerId al = cid) \<and>
     (\<forall>c b al. alloc_view st c = Some (b, al) \<and> ContainerId al = cid \<longrightarrow> c = a)"

lemma container_absent_view:
  "ipam_inv st \<Longrightarrow> container_absent cid st \<longleftrightarrow> (\<forall>a b al. alloc_view st a = Some (b, al) \<longrightarrow> ContainerId al \<noteq> cid)"
  by (auto simp: container_absent_def alloc_view_iff)

lemma Allocate_sole:
  assumes "ipam_inv st" "container_absent cid st" "Allocate now cid bridge st = Inr (a, st')"
  shows "sole_address cid a st'"
  using assms Allocate_view [OF assms(1,3)] container_absent_view [OF assms(1)]
  by (auto simp: sole_address_def split: if_splits)

lemma Release_view:
  assumes st: "ipam_inv st" and r: "Release cid st = Inr st'"
  shows "(container_absent cid st \<and> alloc_view st' = alloc_view st) \<or>
    (\<exists>a b al. alloc_view st a = Some (b, al) \<and> ContainerId al = cid \<and> alloc_view st' = (alloc_view st)(a := None))"
proof (cases rule: Release_pools_cases [of "Pools st" cid])
  case none
  then have "st' = st" using r by (simp add: Release_def)
  with none show ?thesis by (auto simp: container_absent_def)
next
  case (hit pre p post a al)
  have st': "st' = st\<lparr>Pools := pre @ p\<lparr>Allocations := map_option (mdel a) (Allocations p)\<rparr> # post\<rparr>"
    using r hit by (simp add: Release_def)
  have "alloc_view st' = (alloc_view st)(a := None)"
    by (rule alloc_view_del [OF st hit(1,2) st' Release_inv [OF st r]])
  moreover have "alloc_view st a = Some (pl_Interface p, al)"
    using hit(1,2) by (auto simp: alloc_view_iff [OF st])
  ultimately show ?thesis using hit(3) by blast
qed

text \<open>Releasing a container after an allocation for it undoes the allocation: if the container
  held no address before, \<open>Allocate\<close> followed by \<open>Release\<close> leaves every address of every pool
  with the owner it had, and the container is found no more.\<close>

theorem Release_undoes_Allocate:
  assumes "ipam_inv st" "container_absent cid st" "Allocate now cid bridge st = Inr (a, st')"
  shows "\<exists>st''. Release cid st' = Inr st'' \<and> ipam_inv st'' \<and> alloc_view st'' = alloc_view st \<and>
    \<not> is_ok (GetContainerAddress cid st'') \<and> \<not> is_ok (GetInfoByIp a st'')"
proof -
  obtain st'' where r: "Release cid st' = Inr st''" by (simp add: Release_def)
  have inv': "ipam_inv st'" by (rule Allocate_inv [OF assms(1,3)])
  have inv'': "ipam_inv st''" by (rule Release_inv [OF inv' r])
  note v = Allocate_view [OF assms(1,3)]
  have "\<not> container_absent cid st'"
    unfolding container_absent_view [OF inv'] v(1) by (auto intro!: exI [of _ a])
  with Release_view [OF inv' r] obtain c b al where c: "alloc_view st' c = Some (b, al)" "ContainerId al = cid"
    "alloc_view st'' = (alloc_view st')(c := None)" by blast
  have "c = a" using Allocate_sole [OF assms] c by (simp add: sole_address_def)
  with c v have view: "alloc_view st'' = alloc_view st" by (auto simp: fun_eq_iff)
  then have "container_absent cid st''"
    using assms(2) container_absent_view [OF assms(1)] container_absent_view [OF inv''] by simp
  then have "find_alloc (\<lambda>(addr, a). ContainerId a = cid) (Pools st'') = None"
    by (fastforce simp: find_alloc_None container_absent_def)
  moreover have "find_alloc (\<lambda>(b, al). b = a) (Pools st'') = None"
    using fun_cong [OF view, of a] v(2) by (simp add: alloc_view_def)
  ultimately show ?thesis using r inv'' view by (simp add: GetContainerAddress_def GetInfoByIp_def)
qed

theorem Release_undoes_Allocate_witness:
  "\<exists>st''. Release ''c1'' ((ipam_initial ''eth0'' ''192.168.0.2/24'')
       \<lparr>Pools := [default_pool\<lparr>Allocations := Some [(''10.166.0.1'', new_alloc 7 ''c1'')]\<rparr>]\<rparr>) = Inr st'' \<and>
     alloc_view st'' = alloc_view (ipam_initial ''eth0'' ''192.168.0.2/24'')"
proof -
  have "container_absent ''c1'' (ipam_initial ''eth0'' ''192.168.0.2/24'')"
    by (simp add: container_absent_def ipam_initial_def default_pool_def allocs_def)
  from Release_undoes_Allocate [OF ipam_initial_inv this Allocate_example [of 7]] show ?thesis by blast
qed

lemma sole_address_split:
  assumes st: "ipam_inv st" and sole: "sole_address cid a st"
  obtains pre p post mpre al mpost where "Pools st = pre @ p # post" "allocs p = mpre @ (a, al) # mpost"
    "ContainerId al = cid"
    "\<forall>q \<in> set pre \<union> set post. \<forall>(c, cl) \<in> set (allocs q). ContainerId cl \<noteq> cid"
    "\<forall>(c, cl) \<in> set mpre \<union> set mpost. ContainerId cl \<noteq> cid"
proof -
  obtain p al where p: "p \<in> set (Pools st)" "(a, al) \<in> set (allocs p)" "ContainerId al = cid"
    using sole by (auto simp: sole_address_def alloc_view_iff [OF st])
  obtain pre post where ps: "Pools st = pre @ p # post" using p(1) by (meson split_list)
  obtain mpre mpost where m: "allocs p = mpre @ (a, al) # mpost" using p(2) by (meson split_list)
  have only: "c = a" if "q \<in> set (Pools st)" "(c, cl) \<in> set (allocs q)" "ContainerId cl = cid" for q c cl
    using that sole unfolding sole_address_def alloc_view_iff [OF st] by blast
  have "mwf (allocs p)" using st p(1) by (intro pool_mwf) (simp add: ipam_inv_def)
  then have "a \<notin> fst ` (set mpre \<union> set mpost)" by (auto simp: m mwf_def)
  moreover have "c = a" if "(c, cl) \<in> set mpre \<union> set mpost" "ContainerId cl = cid" for c cl
    using only [OF p(1), of c cl] that m by auto
  ultimately have "\<forall>(c, cl) \<in> set mpre \<union> set mpost. ContainerId cl \<noteq> cid"
    by (metis (mono_tags, lifting) case_prodI2 fst_conv image_eqI)
  moreover have "\<forall>q \<in> set pre \<union> set post. \<forall>(c, cl) \<in> set (allocs q). ContainerId cl \<noteq> cid"
  proof (intro ballI, clarify)
    fix q c cl
    assume q: "q \<in> set pre \<union> set post" "(c, cl) \<in> set (allocs q)" and cid: "cid = ContainerId cl"
    then have "c = a" using only [of q c cl] ps by auto
    moreover have "a \<notin> fst ` set (allocs q)"
      by (rule other_pool [OF st ps _ q(1)]) (use p(2) in \<open>auto intro: rev_image_eqI\<close>)
    ultimately show False using q(2) by (auto intro: rev_image_eqI)
  qed
  ultimately show thesis using that ps m p(3) by blast
qed

lemma GetForwardInfo_sole:
  assumes "Pools st = pre @ p # post" "allocs p = mpre @ (a, al) # mpost" "ContainerId al = cid"
    "\<forall>q \<in> set pre \<union> set post. \<forall>(c, cl) \<in> set (allocs q). ContainerId cl \<noteq> cid"
    "\<forall>(c, cl) \<in> set mpre \<union> set mpost. ContainerId cl \<noteq> cid"
  shows "GetForwardInfo cid st = Inr (Forwards al)"
proof -
  let ?f = "\<lambda>(addr, a). if ContainerId a = cid then Forwards a else []"
  have nil: "concat (map ?f m) = []" if "\<forall>(c, cl) \<in> set m. ContainerId cl \<noteq> cid" for m
    by (rule concat_map_Nil) (use that in auto)
  have pools: "concat (map (\<lambda>p. concat (map ?f (allocs p))) ps) = []" if "set ps \<subseteq> set pre \<union> set post" for ps
    by (rule concat_map_Nil) (use that assms(4) nil in blast)
  have "concat (map ?f mpre) = []" "concat (map ?f mpost) = []" using assms(5) by (intro nil; blast)+
  then show ?thesis
    unfolding GetForwardInfo_def assms(1) map_append list.map concat_append concat.simps assms(2)
    by (simp only: pools [of pre] pools [of post] Un_upper1 Un_upper2 simp_thms) (simp add: assms(3))
qed

text \<open>Port forwards survive a round trip: when a container holds exactly one address, the
  forwards that \<open>GetForwardInfo\<close> returns after \<open>SetForwardInfo\<close> are the earlier ones followed by
  the new one, the owner of every address is kept, and the answer is the same for every visiting
  order of the maps.\<close>

theorem SetForwardInfo_get:
  assumes st: "ipam_inv st" and sole: "sole_address cid a st"
  shows "\<exists>st' fs. GetForwardInfo cid st = Inr fs \<and> SetForwardInfo cid sp dp pr st = Inr st' \<and>
    GetForwardInfo cid st' = Inr (fs @ [\<lparr>HostPort = sp, ContainerPort = dp, Protocol = pr\<rparr>]) \<and>
    ipam_inv st' \<and> GetContainerAddress cid st' = GetContainerAddress cid st"
proof -
  let ?fi = "\<lparr>HostPort = sp, ContainerPort = dp, Protocol = pr\<rparr>"
  obtain pre p post mpre al mpost where s: "Pools st = pre @ p # post" "allocs p = mpre @ (a, al) # mpost"
    "ContainerId al = cid"
    "\<forall>q \<in> set pre \<union> set post. \<forall>(c, cl) \<in> set (allocs q). ContainerId cl \<noteq> cid"
    "\<forall>(c, cl) \<in> set mpre \<union> set mpost. ContainerId cl \<noteq> cid"
    by (rule sole_address_split [OF st sole])
  let ?al = "al\<lparr>Forwards := Forwards al @ [?fi]\<rparr>"
  let ?p = "p\<lparr>Allocations := Some (mpre @ (a, ?al) # mpost)\<rparr>"
  have pok: "pool_ok p" using st s(1) by (simp add: ipam_inv_def)
  then have am: "Allocations p = Some (mpre @ (a, al) # mpost)" "mwf (mpre @ (a, al) # mpost)"
    using s(2) by (auto elim!: pool_okE)
  have "mput a ?al (mpre @ (a, al) # mpost) = mpre @ (a, ?al) # mpost"
    using am(2) by (induction mpre) (auto simp: mwf_def)
  moreover have "range_find (\<lambda>b. ContainerId b = cid) (mpre @ (a, al) # mpost) = Some (a, al)"
    using s(3,5) by (intro range_find_unique) auto
  ultimately have at: "SetForwardInfo_pools cid ?fi (p # post) = Inr (?p # post)"
    by (simp add: s(2) am(1))
  have "SetForwardInfo_pools cid ?fi (pre @ p # post) = Inr (pre @ ?p # post)"
    if "\<forall>q \<in> set pre. \<forall>(c, cl) \<in> set (allocs q). ContainerId cl \<noteq> cid" for pre
    using that
  proof (induction pre)
    case Nil
    then show ?case using at by simp
  next
    case (Cons q pre)
    then have "range_find (\<lambda>b. ContainerId b = cid) (allocs q) = None" by (auto simp: range_find_None)
    with Cons show ?case by simp
  qed
  moreover have "\<forall>q \<in> set pre. \<forall>(c, cl) \<in> set (allocs q). ContainerId cl \<noteq> cid" using s(4) by blast
  ultimately have "SetForwardInfo_pools cid ?fi (Pools st) = Inr (pre @ ?p # post)" unfolding s(1) by blast
  then have set_ok: "SetForwardInfo cid sp dp pr st = Inr (st\<lparr>Pools := pre @ ?p # post\<rparr>)"
    by (simp add: SetForwardInfo_def)
  have get': "GetForwardInfo cid (st\<lparr>Pools := pre @ ?p # post\<rparr>) = Inr (Forwards ?al)"
    by (rule GetForwardInfo_sole [where p = ?p and pre = pre and post = post and mpre = mpre and mpost = mpost and a = a])
      (use s in simp_all)
  have "GetContainerAddress cid st0 = Inr (HostInterface st0, pl_Interface p0, a)"
    if "Pools st0 = pre @ p0 # post" "allocs p0 = mpre @ (a, al0) # mpost" "ContainerId al0 = cid" for st0 p0 al0
    unfolding GetContainerAddress_def
    by (subst find_alloc_unique [of p0 _ a al0]) (use that s(4,5) in \<open>auto\<close>)
  from this [OF s(1-3)] this [of "st\<lparr>Pools := pre @ ?p # post\<rparr>" ?p ?al]
  have "GetContainerAddress cid (st\<lparr>Pools := pre @ ?p # post\<rparr>) = GetContainerAddress cid st"
    using s(3) by simp
  then show ?thesis
    using set_ok get' GetForwardInfo_sole [OF s] SetForwardInfo_inv [OF st set_ok] by simp
qed

theorem SetForwardInfo_get_witness:
  "\<exists>st' fs. SetForwardInfo ''c1'' 8080 80 ''tcp'' ((ipam_initial ''eth0'' ''192.168.0.2/24'')
       \<lparr>Pools := [default_pool\<lparr>Allocations := Some [(''10.166.0.1'', new_alloc 7 ''c1'')]\<rparr>]\<rparr>) = Inr st' \<and>
     GetForwardInfo ''c1'' st' = Inr (fs @ [\<lparr>HostPort = 8080, ContainerPort = 80, Protocol = ''tcp''\<rparr>])"
proof -
  let ?i = "ipam_initial ''eth0'' ''192.168.0.2/24''"
  have "container_absent ''c1'' ?i"
    by (simp add: container_absent_def ipam_initial_def default_pool_def allocs_def)
  note sole = Allocate_sole [OF ipam_initial_inv this Allocate_example [of 7]]
  from SetForwardInfo_get [OF Allocate_inv [OF ipam_initial_inv Allocate_example [of 7]] sole,
      of 8080 80 "''tcp''"] show ?thesis by blast
qed

end
