(* ===== verification/Keyed_Store.thy ===== *)
theory Keyed_Store
  imports File_Store
begin

text \<open>
  What the stores of containers, pods, templates, replica sets, bottles, services and images have in common:
  a Go map from identifiers to records that carry their own identifier.  Some operations look an
  entry up by the map key, others scan the values for the identifier; under the invariant
  \<open>keyed\<close> both find the same entry, in every visiting order.
\<close>

definition keyed :: "('v \<Rightarrow> 'k) \<Rightarrow> ('k, 'v) gomap \<Rightarrow> bool" where
  "keyed key m \<longleftrightarrow> mwf m \<and> (\<forall>(k, v) \<in> set m. key v = k)"

lemma keyed_Nil [simp]: "keyed key []"
  by (simp add: keyed_def)

lemma keyed_mput [intro]: "keyed key m \<Longrightarrow> key v = k \<Longrightarrow> keyed key (mput k v m)"
  using set_mput_subset [of k v m] by (auto simp: keyed_def)

lemma keyed_mdel [intro]: "keyed key m \<Longrightarrow> keyed key (mdel k m)"
  by (auto simp: keyed_def set_mdel)

lemma keyed_map_of: "keyed key m \<Longrightarrow> map_of m k = Some v \<Longrightarrow> key v = k"
  by (auto simp: keyed_def dest: map_of_SomeD)

lemma keyed_mem: "keyed key m \<Longrightarrow> (k, v) \<in> set m \<longleftrightarrow> map_of m k = Some v"
  by (simp add: keyed_def mwf_map_of_iff)

lemma keyed_set_eq:
  assumes "keyed key m" "keyed key m'" "map_of m = map_of m'"
  shows "set m = set m'"
proof -
  have "(k, v) \<in> set m \<longleftrightarrow> (k, v) \<in> set m'" for k v
    using keyed_mem [OF assms(1)] keyed_mem [OF assms(2)] assms(3) by simp
  then show ?thesis by auto
qed

text \<open>Scanning for an identifier is looking it up.\<close>

lemma keyed_scan:
  assumes "keyed key m"
  shows "range_find (\<lambda>v. key v = k) m = map_option (\<lambda>v. (k, v)) (map_of m k)"
proof (cases "map_of m k")
  case None
  then have "\<forall>(k', v) \<in> set m. key v \<noteq> k"
    using assms by (force simp: keyed_def map_of_eq_None_iff)
  with None show ?thesis by (simp add: range_find_None)
next
  case (Some v)
  have "range_find (\<lambda>v. key v = k) m = Some (k, v)"
  proof (rule range_find_unique)
    show "(k, v) \<in> set m" using Some by (rule map_of_SomeD)
    show "key v = k" by (rule keyed_map_of [OF assms Some])
    fix k' v' assume m': "(k', v') \<in> set m" and k': "key v' = k"
    have "map_of m k' = Some v'" using m' keyed_mem [OF assms] by simp
    moreover from this have "k' = k" using keyed_map_of [OF assms] k' by simp
    ultimately show "(k', v') = (k, v)" using Some by simp
  qed
  with Some show ?thesis by simp
qed

text \<open>The names in use; a name is unambiguous when one entry at most carries it.\<close>

definition unambiguous :: "('v \<Rightarrow> 'n) \<Rightarrow> ('k, 'v) gomap \<Rightarrow> bool" where
  "unambiguous name m \<longleftrightarrow> distinct (map (\<lambda>(k, v). name v) m)"

lemma unambiguous_scan:
  assumes "unambiguous name m" "(k, v) \<in> set m" "name v = n"
  shows "range_find (\<lambda>v. name v = n) m = Some (k, v)"
proof (rule range_find_unique)
  show "(k, v) \<in> set m" "name v = n" by (rule assms)+
  fix k' v' assume "(k', v') \<in> set m" "name v' = n"
  then show "(k', v') = (k, v)"
    using assms by (intro distinct_map_inj [of "\<lambda>(k, v). name v" m]) (auto simp: unambiguous_def)
qed

lemma unambiguous_mput:
  assumes "mwf m" "unambiguous name m" "\<forall>(k', v') \<in> set m. name v' \<noteq> name v"
  shows "unambiguous name (mput k v m)"
  using assms
proof (induction m)
  case Nil
  then show ?case by (simp add: unambiguous_def)
next
  case (Cons e m)
  obtain k' v' where e: "e = (k', v')" by (cases e)
  show ?case
  proof (cases "k' = k")
    case True
    with Cons.prems e show ?thesis by (auto simp: unambiguous_def)
  next
    case False
    have "unambiguous name (mput k v m)"
      using Cons by (auto simp: unambiguous_def mwf_def)
    moreover have "name v' \<notin> (\<lambda>(k, v). name v) ` set (mput k v m)"
      using Cons.prems e set_mput_subset [of k v m] by (force simp: unambiguous_def)
    ultimately show ?thesis using False e by (simp add: unambiguous_def)
  qed
qed

lemma unambiguous_mdel: "unambiguous name m \<Longrightarrow> unambiguous name (mdel k m)"
  by (simp add: unambiguous_def AList.delete_eq distinct_map_filter)

text \<open>
  The interface that clients of a store use: entries by identifier (\<open>by_id\<close>), the identifier of
  a name (\<open>by_name\<close>), under the store's invariant.
\<close>

locale keyed_store =
  fixes items :: "'st \<Rightarrow> (string, 'v) gomap"
    and key :: "'v \<Rightarrow> string"
    and name :: "'v \<Rightarrow> 'n"
    and valid :: "'st \<Rightarrow> bool"
    and by_id :: "string \<Rightarrow> 'st \<Rightarrow> 'v result"
    and by_name :: "'n \<Rightarrow> 'st \<Rightarrow> string result"
  assumes valid_keyed: "valid st \<Longrightarrow> keyed key (items st)"
    and by_id_ok: "valid st \<Longrightarrow> by_id i st = Inr v \<longleftrightarrow> map_of (items st) i = Some v"
    and by_name_scan: "by_name n st = Inr i \<longleftrightarrow> (\<exists>k v. range_find (\<lambda>v. name v = n) (items st) = Some (k, v) \<and> key v = i)"
begin

text \<open>A resolved name leads to an entry that carries it.\<close>

lemma by_name_by_id:
  assumes "valid st" "by_name n st = Inr i"
  shows "\<exists>v. by_id i st = Inr v \<and> name v = n \<and> key v = i"
proof -
  obtain k v where f: "range_find (\<lambda>v. name v = n) (items st) = Some (k, v)" "key v = i"
    using assms(2) by (auto simp: by_name_scan)
  from range_find_SomeD [OF f(1)] have "map_of (items st) i = Some v" "name v = n"
    using valid_keyed [OF assms(1)] f(2) by (auto simp: keyed_def mwf_map_of_iff)
  with f(2) show ?thesis by (auto simp: by_id_ok [OF assms(1)])
qed

lemma by_name_total:
  assumes "valid st" "by_id i st = Inr v"
  shows "is_ok (by_name (name v) st)"
proof -
  have "(i, v) \<in> set (items st)"
    using assms by (simp add: by_id_ok keyed_mem [OF valid_keyed [OF assms(1)]])
  then have "range_find (\<lambda>w. name w = name v) (items st) \<noteq> None" by (auto simp: range_find_None)
  then obtain k w where "range_find (\<lambda>u. name u = name v) (items st) = Some (k, w)" by fastforce
  then have "by_name (name v) st = Inr (key w)" by (auto simp: by_name_scan)
  then show ?thesis by simp
qed

lemma by_name_unique:
  assumes "valid st" "unambiguous name (items st)" "by_id i st = Inr v"
  shows "by_name (name v) st = Inr i"
proof -
  have "(i, v) \<in> set (items st)" "key v = i"
    using assms(1,3) keyed_map_of [OF valid_keyed [OF assms(1)]]
    by (auto simp: by_id_ok keyed_mem [OF valid_keyed [OF assms(1)]])
  then show ?thesis using unambiguous_scan [OF assms(2)] by (auto simp: by_name_scan)
qed

end

end
