(* ===== verification/Csm.thy ===== *)
theory Csm
  imports Keyed_Store "HOL-Library.Word"
begin

text \<open>
  The container state store (\<open>src/internal/store/csm\<close>).  Each operation is the closure that the
  \<open>CsmManager\<close> method runs under \<open>withLock\<close> or \<open>withRLock\<close>; \<open>now\<close> is \<open>time.Now()\<close>.
  \<open>loadOrInit\<close> replaces a nil map by an empty one before any closure runs, so a nil map and an
  empty map are the same value here.
\<close>

subsection \<open>Data (model.go)\<close>

record ContainerInfo =
  c_ContainerId :: string
  c_ContainerName :: string
  c_PodId :: string
  c_SpiffeId :: string
  c_State :: string
  c_Pid :: int
  c_ExitCode :: int
  c_Reason :: string
  c_Message :: string
  c_LogPath :: string
  c_Tty :: bool
  c_Repository :: string
  c_Reference :: string
  c_Command :: "string list"
  c_BottleId :: string
  c_CreatingAt :: time
  c_CreatedAt :: time
  c_StartedAt :: time
  c_StoppedAt :: time
  c_FinishedAt :: time
  c_Labels :: "(string, string) gomap"
  c_Annotaions :: "(string, string) gomap"
  c_Attemp :: "32 word"

record ContainerState =
  cs_Version :: string
  Containers :: "(string, ContainerInfo) gomap"

subsection \<open>The file (store.go)\<close>

definition csm_initial :: ContainerState where
  "csm_initial = \<lparr>cs_Version = ''0.1.0'', Containers = []\<rparr>"

definition csm_loadOrInit :: "ContainerState read \<Rightarrow> ContainerState result" where
  "csm_loadOrInit r =
     (case r of
        ReadNotExist e \<Rightarrow> Inr csm_initial
      | ReadErr e \<Rightarrow> Inl e
      | ReadBytes None \<Rightarrow> Inl (Err ''container state json broken'')
      | ReadBytes (Some st) \<Rightarrow> Inr st)"

definition csm_atomicSave :: "faults \<Rightarrow> ContainerState \<Rightarrow> ContainerState disk \<Rightarrow> unit result \<times> ContainerState disk" where
  "csm_atomicSave = atomic_save"

definition csm_withLock where
  "csm_withLock = with_lock csm_loadOrInit"

definition csm_withRLock where
  "csm_withRLock = with_rlock csm_loadOrInit"

definition SetContainerState :: "ContainerState \<Rightarrow> ContainerState result" where
  "SetContainerState st = Inr (st\<lparr>cs_Version := ''0.1.0''\<rparr>)"

subsection \<open>Operations that change the state (csm.go)\<close>

definition StoreContainer ::
  "time \<Rightarrow> string \<Rightarrow> string \<Rightarrow> int \<Rightarrow> bool \<Rightarrow> string \<Rightarrow> string \<Rightarrow> string list \<Rightarrow> string \<Rightarrow> string \<Rightarrow>
   string \<Rightarrow> string \<Rightarrow> ContainerState \<Rightarrow> ContainerState result" where
  "StoreContainer now containerId state pid tty repo ref command name bottleId logPath podId st =
     Inr (st\<lparr>Containers := mput containerId
       \<lparr>c_ContainerId = containerId, c_ContainerName = name, c_PodId = podId, c_SpiffeId = '''',
        c_State = state, c_Pid = pid, c_ExitCode = 0, c_Reason = '''', c_Message = '''',
        c_LogPath = logPath, c_Tty = tty, c_Repository = repo, c_Reference = ref, c_Command = command,
        c_BottleId = bottleId, c_CreatingAt = 0, c_CreatedAt = now, c_StartedAt = 0, c_StoppedAt = 0,
        c_FinishedAt = 0, c_Labels = [], c_Annotaions = [], c_Attemp = 0\<rparr> (Containers st)\<rparr>)"

definition RemoveContainer :: "string \<Rightarrow> ContainerState \<Rightarrow> ContainerState result" where
  "RemoveContainer containerId st =
     (case range_find (\<lambda>c. c_ContainerId c = containerId) (Containers st) of
        Some (i, c) \<Rightarrow> Inr (st\<lparr>Containers := mdel i (Containers st)\<rparr>)
      | None \<Rightarrow> Inl (Err (''containerId='' @ containerId @ '' not found'')))"

definition touch_container :: "time \<Rightarrow> string \<Rightarrow> ContainerInfo \<Rightarrow> ContainerInfo" where
  "touch_container now state c =
     (if state = ''creating'' then (if c_CreatedAt c > c_StoppedAt c then c\<lparr>c_CreatingAt := now\<rparr> else c)
      else if state = ''created'' then (if c_CreatedAt c > c_StoppedAt c then c\<lparr>c_CreatedAt := now\<rparr> else c)
      else if state = ''running'' then c\<lparr>c_StartedAt := now\<rparr>
      else if state = ''stopped'' then c\<lparr>c_StoppedAt := now, c_FinishedAt := now\<rparr>
      else c)"

definition UpdateContainer :: "time \<Rightarrow> string \<Rightarrow> string \<Rightarrow> int \<Rightarrow> ContainerState \<Rightarrow> ContainerState result" where
  "UpdateContainer now containerId state pid st =
     (case map_of (Containers st) containerId of
        None \<Rightarrow> Inl (Err (''containerId='' @ containerId @ '' not found''))
      | Some c \<Rightarrow>
          let c1 = touch_container now state (c\<lparr>c_State := state\<rparr>);
              c2 = (if pid \<ge> 0 then c1\<lparr>c_Pid := pid\<rparr> else c1)
          in Inr (st\<lparr>Containers := mput containerId c2 (Containers st)\<rparr>))"

definition UpdateExitStatus :: "string \<Rightarrow> int \<Rightarrow> string \<Rightarrow> string \<Rightarrow> ContainerState \<Rightarrow> ContainerState result" where
  "UpdateExitStatus containerId exitCode reason message st =
     (case map_of (Containers st) containerId of
        None \<Rightarrow> Inl (Err (''containerId='' @ containerId @ '' not found''))
      | Some c \<Rightarrow> Inr (st\<lparr>Containers := mput containerId
          (c\<lparr>c_ExitCode := exitCode, c_Reason := reason, c_Message := message\<rparr>) (Containers st)\<rparr>))"

definition UpdateSpiffe :: "string \<Rightarrow> string \<Rightarrow> ContainerState \<Rightarrow> ContainerState result" where
  "UpdateSpiffe containerId spiffe st =
     (case map_of (Containers st) containerId of
        None \<Rightarrow> Inl (Err (''containerId='' @ containerId @ '' not found''))
      | Some c \<Rightarrow> Inr (st\<lparr>Containers := mput containerId (c\<lparr>c_SpiffeId := spiffe\<rparr>) (Containers st)\<rparr>))"

subsection \<open>Queries (csm.go)\<close>

definition GetContainerList :: "ContainerState \<Rightarrow> ContainerInfo list result" where
  "GetContainerList st = Inr (map snd (Containers st))"

definition GetContainersByPodId :: "string \<Rightarrow> ContainerState \<Rightarrow> ContainerInfo list result" where
  "GetContainersByPodId podId st = Inr (filter (\<lambda>c. c_PodId c = podId) (map snd (Containers st)))"

definition GetContainerById :: "string \<Rightarrow> ContainerState \<Rightarrow> ContainerInfo result" where
  "GetContainerById containerId st =
     (case range_find (\<lambda>c. c_ContainerId c = containerId) (Containers st) of
        Some (i, c) \<Rightarrow> Inr c
      | None \<Rightarrow> Inl (Err (''container: '' @ containerId @ '' not found'')))"

definition IsNameAlreadyUsed :: "string \<Rightarrow> ContainerState \<Rightarrow> bool" where
  "IsNameAlreadyUsed name st = (range_find (\<lambda>c. c_ContainerName c = name) (Containers st) \<noteq> None)"

definition GetContainerIdByName :: "string \<Rightarrow> ContainerState \<Rightarrow> string result" where
  "GetContainerIdByName name st =
     (case range_find (\<lambda>c. c_ContainerName c = name) (Containers st) of
        Some (i, c) \<Rightarrow> Inr (c_ContainerId c)
      | None \<Rightarrow> Inl (Err (''container: '' @ name @ '' not found'')))"

definition GetContainerNameById :: "string \<Rightarrow> ContainerState \<Rightarrow> string result" where
  "GetContainerNameById containerId st =
     (case range_find (\<lambda>c. c_ContainerId c = containerId) (Containers st) of
        Some (i, c) \<Rightarrow> Inr (c_ContainerName c)
      | None \<Rightarrow> Inl (Err (''container: '' @ containerId @ '' not found'')))"

definition GetSpiffeById :: "string \<Rightarrow> ContainerState \<Rightarrow> string result" where
  "GetSpiffeById containerId st =
     (case range_find (\<lambda>c. c_ContainerId c = containerId) (Containers st) of
        Some (i, c) \<Rightarrow> Inr (c_SpiffeId c)
      | None \<Rightarrow> Inl (Err (''container: '' @ containerId @ '' not found'')))"

definition GetContainerIdAndName :: "string \<Rightarrow> ContainerState \<Rightarrow> (string \<times> string) result" where
  "GetContainerIdAndName str st =
     (case GetContainerIdByName str st of
        Inr containerId \<Rightarrow> Inr (containerId, str)
      | Inl _ \<Rightarrow> (case GetContainerNameById str st of
          Inr containerName \<Rightarrow> Inr (str, containerName)
        | Inl _ \<Rightarrow> Inl (Err (''container: '' @ str @ '' not found''))))"

definition ResolveContainerId :: "string \<Rightarrow> ContainerState \<Rightarrow> string result" where
  "ResolveContainerId str st =
     (case GetContainerIdByName str st of
        Inr containerId \<Rightarrow> Inr containerId
      | Inl _ \<Rightarrow> (case GetContainerById str st of Inl e \<Rightarrow> Inl e | Inr c \<Rightarrow> Inr str))"

definition IsContainerExist :: "string \<Rightarrow> ContainerState \<Rightarrow> bool" where
  "IsContainerExist str st = (is_ok (GetContainerIdByName str st) \<or> is_ok (GetContainerNameById str st))"

definition GetLogPath :: "string \<Rightarrow> ContainerState \<Rightarrow> string result" where
  "GetLogPath containerId st =
     (case range_find (\<lambda>c. c_ContainerId c = containerId) (Containers st) of
        Some (i, c) \<Rightarrow> Inr (c_LogPath c)
      | None \<Rightarrow> Inl (Err (''container: '' @ containerId @ '' not found'')))"

subsection \<open>Invariant\<close>

definition csm_inv :: "ContainerState \<Rightarrow> bool" where
  "csm_inv st = keyed c_ContainerId (Containers st)"

lemma csm_scan: "csm_inv st \<Longrightarrow> range_find (\<lambda>c. c_ContainerId c = i) (Containers st) =
    map_option (\<lambda>c. (i, c)) (map_of (Containers st) i)"
  unfolding csm_inv_def by (rule keyed_scan)

lemma touch_container_id [simp]: "c_ContainerId (touch_container now s c) = c_ContainerId c"
  by (simp add: touch_container_def)

datatype csm_op =
    Op_StoreContainer time string string int bool string string "string list" string string string string
  | Op_RemoveContainer string
  | Op_UpdateContainer time string string int
  | Op_UpdateExitStatus string int string string
  | Op_UpdateSpiffe string string
  | Op_SetContainerState

fun csm_apply :: "csm_op \<Rightarrow> ContainerState \<Rightarrow> ContainerState result" where
  "csm_apply (Op_StoreContainer now i s p t r f c n b l d) = StoreContainer now i s p t r f c n b l d"
| "csm_apply (Op_RemoveContainer i) = RemoveContainer i"
| "csm_apply (Op_UpdateContainer now i s p) = UpdateContainer now i s p"
| "csm_apply (Op_UpdateExitStatus i e r m) = UpdateExitStatus i e r m"
| "csm_apply (Op_UpdateSpiffe i s) = UpdateSpiffe i s"
| "csm_apply Op_SetContainerState = SetContainerState"

lemma csm_put_inv:
  "csm_inv st \<Longrightarrow> c_ContainerId c = i \<Longrightarrow> csm_inv (st\<lparr>Containers := mput i c (Containers st)\<rparr>)"
  by (auto simp: csm_inv_def)

lemma csm_key: "csm_inv st \<Longrightarrow> map_of (Containers st) i = Some c \<Longrightarrow> c_ContainerId c = i"
  unfolding csm_inv_def by (rule keyed_map_of)

lemma csm_apply_inv:
  assumes "csm_inv st" "csm_apply op st = Inr st'"
  shows "csm_inv st'"
  using assms csm_key [OF assms(1)]
  by (cases op) (auto simp: StoreContainer_def RemoveContainer_def UpdateContainer_def UpdateExitStatus_def
      UpdateSpiffe_def SetContainerState_def Let_def csm_scan split: option.splits intro!: csm_put_inv,
      auto simp: csm_inv_def)

interpretation csm_file: json_store csm_loadOrInit "\<lambda>st. st" csm_inv
  by unfold_locales (auto simp: csm_loadOrInit_def csm_initial_def csm_inv_def)

interpretation csm: keyed_store Containers c_ContainerId c_ContainerName csm_inv
  GetContainerById GetContainerIdByName
proof
  fix st i n and v :: ContainerInfo
  show "csm_inv st \<Longrightarrow> keyed c_ContainerId (Containers st)" by (simp add: csm_inv_def)
  show "csm_inv st \<Longrightarrow> GetContainerById i st = Inr v \<longleftrightarrow> map_of (Containers st) i = Some v"
    by (simp add: GetContainerById_def csm_scan split: option.splits)
  show "GetContainerIdByName n st = Inr i \<longleftrightarrow>
      (\<exists>k v. range_find (\<lambda>v. c_ContainerName v = n) (Containers st) = Some (k, v) \<and> c_ContainerId v = i)"
    by (auto simp: GetContainerIdByName_def split: option.splits)
qed

definition csm_run :: "(faults \<times> csm_op) list \<Rightarrow> ContainerState disk \<Rightarrow> ContainerState disk" where
  "csm_run ops = run_updates csm_loadOrInit (map (\<lambda>(fl, op). (fl, csm_apply op)) ops)"

lemma csm_run_inv: "doc_inv csm_inv d \<Longrightarrow> doc_inv csm_inv (csm_run ops d)"
  unfolding csm_run_def by (rule csm_file.run_updates_inv) (auto intro: csm_apply_inv)

subsection \<open>Properties\<close>

text \<open>The container an operation is about.\<close>

fun csm_target :: "csm_op \<Rightarrow> string option" where
  "csm_target (Op_StoreContainer now i s p t r f c n b l d) = Some i"
| "csm_target (Op_RemoveContainer i) = Some i"
| "csm_target (Op_UpdateContainer now i s p) = Some i"
| "csm_target (Op_UpdateExitStatus i e r m) = Some i"
| "csm_target (Op_UpdateSpiffe i s) = Some i"
| "csm_target Op_SetContainerState = None"

lemma GetContainerById_map: "csm_inv st \<Longrightarrow> GetContainerById i st =
    (case map_of (Containers st) i of Some c \<Rightarrow> Inr c | None \<Rightarrow> Inl (Err (''container: '' @ i @ '' not found'')))"
  by (simp add: GetContainerById_def csm_scan split: option.splits)

lemma csm_view_other:
  assumes "csm_inv st" "csm_apply op st = Inr st'" "csm_target op \<noteq> Some i"
  shows "map_of (Containers st') i = map_of (Containers st) i"
  using assms
  by (cases op) (auto simp: StoreContainer_def RemoveContainer_def UpdateContainer_def UpdateExitStatus_def
      UpdateSpiffe_def SetContainerState_def Let_def csm_scan split: option.splits)

text \<open>What an operation makes of the container it is about: none after a removal, the new one after a
  store, and otherwise the old one with the new fields.\<close>

fun csm_effect :: "csm_op \<Rightarrow> ContainerInfo option \<Rightarrow> ContainerInfo option" where
  "csm_effect (Op_StoreContainer now i s p t r f c n b l d) x = Some
     \<lparr>c_ContainerId = i, c_ContainerName = n, c_PodId = d, c_SpiffeId = '''', c_State = s, c_Pid = p, c_ExitCode = 0, c_Reason = '''',
      c_Message = '''', c_LogPath = l, c_Tty = t, c_Repository = r, c_Reference = f, c_Command = c, c_BottleId = b, c_CreatingAt = 0,
      c_CreatedAt = now, c_StartedAt = 0, c_StoppedAt = 0, c_FinishedAt = 0, c_Labels = [], c_Annotaions = [], c_Attemp = 0\<rparr>"
| "csm_effect (Op_RemoveContainer i) x = None"
| "csm_effect (Op_UpdateContainer now i s p) x =
     map_option (\<lambda>c. (touch_container now s (c\<lparr>c_State := s\<rparr>))\<lparr>c_Pid := if p \<ge> 0 then p else c_Pid c\<rparr>) x"
| "csm_effect (Op_UpdateExitStatus i e r m) x = map_option (\<lambda>c. c\<lparr>c_ExitCode := e, c_Reason := r, c_Message := m\<rparr>) x"
| "csm_effect (Op_UpdateSpiffe i s) x = map_option (\<lambda>c. c\<lparr>c_SpiffeId := s\<rparr>) x"
| "csm_effect Op_SetContainerState x = x"

text \<open>The operations that need their container: all but storing one, and the update of the version.\<close>

fun csm_needs :: "csm_op \<Rightarrow> string option" where
  "csm_needs (Op_RemoveContainer i) = Some i"
| "csm_needs (Op_UpdateContainer now i s p) = Some i"
| "csm_needs (Op_UpdateExitStatus i e r m) = Some i"
| "csm_needs (Op_UpdateSpiffe i s) = Some i"
| "csm_needs _ = None"

lemma touch_keeps_pid [simp]: "c_Pid (touch_container now s c) = c_Pid c"
  by (simp add: touch_container_def)

lemma csm_target_effect:
  assumes "csm_inv st" "csm_apply op st = Inr st'" "csm_target op = Some i"
  shows "map_of (Containers st') i = csm_effect op (map_of (Containers st) i)"
  using assms
  by (cases op) (auto simp: StoreContainer_def RemoveContainer_def UpdateContainer_def UpdateExitStatus_def
      UpdateSpiffe_def SetContainerState_def Let_def csm_scan split: option.splits)

lemma csm_apply_ok: "csm_inv st \<Longrightarrow> is_ok (csm_apply op st) \<longleftrightarrow> (\<forall>i. csm_needs op = Some i \<longrightarrow> map_of (Containers st) i \<noteq> None)"
  by (cases op) (auto simp: StoreContainer_def RemoveContainer_def UpdateContainer_def UpdateExitStatus_def
      UpdateSpiffe_def SetContainerState_def Let_def csm_scan is_ok_def split: option.splits)

lemma csm_apply_Err: "csm_inv st \<Longrightarrow> csm_apply op st = Inl e \<Longrightarrow> \<exists>msg. e = Err msg"
  by (cases op) (auto simp: StoreContainer_def RemoveContainer_def UpdateContainer_def UpdateExitStatus_def
      UpdateSpiffe_def SetContainerState_def Let_def csm_scan split: option.splits)

text \<open>C33: every state-changing operation of the container store touches one container only and
  keeps the invariant that a container is stored under its own identifier.  Removing a container and
  updating its state, its exit status or its SPIFFE identifier fail, without a panic, exactly when the
  container is unknown; storing one never fails.  When an operation succeeds, lookups of every other
  container are unchanged, and the container that it is about is what the operation says: unknown
  after a removal, the new entry after a store, the old entry with the new fields after an update.\<close>

theorem csm_operations_frame:
  assumes "csm_inv st"
  shows "(is_ok (csm_apply op st) \<longleftrightarrow> (\<forall>i. csm_needs op = Some i \<longrightarrow> is_ok (GetContainerById i st))) \<and>
    (case csm_apply op st of
      Inr st' \<Rightarrow> csm_inv st' \<and> (\<forall>i. csm_target op \<noteq> Some i \<longrightarrow> GetContainerById i st' = GetContainerById i st) \<and>
        (\<forall>i. csm_target op = Some i \<longrightarrow> map_of (Containers st') i = csm_effect op (map_of (Containers st) i) \<and>
          (\<forall>c. GetContainerById i st' = Inr c \<longleftrightarrow> csm_effect op (map_of (Containers st) i) = Some c))
    | Inl e \<Rightarrow> (\<exists>msg. e = Err msg))"
proof
  show "is_ok (csm_apply op st) \<longleftrightarrow> (\<forall>i. csm_needs op = Some i \<longrightarrow> is_ok (GetContainerById i st))"
    using csm_apply_ok [OF assms, of op] assms by (auto simp: GetContainerById_map split: option.splits)
  show "case csm_apply op st of
      Inr st' \<Rightarrow> csm_inv st' \<and> (\<forall>i. csm_target op \<noteq> Some i \<longrightarrow> GetContainerById i st' = GetContainerById i st) \<and>
        (\<forall>i. csm_target op = Some i \<longrightarrow> map_of (Containers st') i = csm_effect op (map_of (Containers st) i) \<and>
          (\<forall>c. GetContainerById i st' = Inr c \<longleftrightarrow> csm_effect op (map_of (Containers st) i) = Some c))
    | Inl e \<Rightarrow> (\<exists>msg. e = Err msg)"
  proof (cases "csm_apply op st")
    case (Inl e)
    then show ?thesis using csm_apply_Err [OF assms Inl] by simp
  next
    case (Inr st')
    have inv: "csm_inv st'" by (rule csm_apply_inv [OF assms Inr])
    then show ?thesis
      using assms Inr csm_view_other [OF assms Inr] csm_target_effect [OF assms Inr]
      by (auto simp: GetContainerById_map split: option.splits)
  qed
qed

text \<open>Name resolution.  \<open>ResolveContainerId\<close>, \<open>GetContainerIdAndName\<close> and \<open>IsContainerExist\<close>
  agree on which strings denote a container; what a string resolves to is the identifier of a
  stored container that has the string as its name or as its identifier; and when no two
  containers share a name, a container's name resolves to its identifier in every visiting
  order of the map.\<close>

theorem csm_resolution:
  assumes "csm_inv st"
  shows "(is_ok (ResolveContainerId str st) \<longleftrightarrow> IsContainerExist str st) \<and>
    (is_ok (GetContainerIdAndName str st) \<longleftrightarrow> IsContainerExist str st) \<and>
    (\<forall>i. ResolveContainerId str st = Inr i \<longrightarrow>
      (\<exists>c. GetContainerById i st = Inr c \<and> (c_ContainerName c = str \<or> c_ContainerId c = str) \<and>
        GetContainerIdAndName str st = Inr (i, c_ContainerName c))) \<and>
    (unambiguous c_ContainerName (Containers st) \<longrightarrow> GetContainerById j st = Inr d \<longrightarrow>
      ResolveContainerId (c_ContainerName d) st = Inr j)"
proof (intro conjI allI impI)
  have name_ok: "is_ok (GetContainerNameById s st) \<longleftrightarrow> is_ok (GetContainerById s st)" for s
    by (auto simp: GetContainerNameById_def GetContainerById_def split: option.splits)
  show "is_ok (ResolveContainerId str st) \<longleftrightarrow> IsContainerExist str st"
    "is_ok (GetContainerIdAndName str st) \<longleftrightarrow> IsContainerExist str st"
    using name_ok [of str]
    by (auto simp: ResolveContainerId_def GetContainerIdAndName_def IsContainerExist_def is_ok_def
        split: sum.splits)
next
  fix i assume r: "ResolveContainerId str st = Inr i"
  show "\<exists>c. GetContainerById i st = Inr c \<and> (c_ContainerName c = str \<or> c_ContainerId c = str) \<and>
      GetContainerIdAndName str st = Inr (i, c_ContainerName c)"
  proof (cases "GetContainerIdByName str st")
    case (Inr j)
    with r have j: "GetContainerIdByName str st = Inr i" by (simp add: ResolveContainerId_def)
    from csm.by_name_by_id [OF assms j] j show ?thesis by (auto simp: GetContainerIdAndName_def)
  next
    case (Inl e)
    with r obtain c where c: "GetContainerById str st = Inr c" "i = str"
      by (auto simp: ResolveContainerId_def split: sum.splits)
    then have "map_of (Containers st) str = Some c" using csm.by_id_ok [OF assms] by simp
    then have "c_ContainerId c = str" "GetContainerNameById str st = Inr (c_ContainerName c)"
      using csm_key [OF assms] by (auto simp: GetContainerNameById_def csm_scan [OF assms])
    with c Inl show ?thesis by (auto simp: GetContainerIdAndName_def)
  qed
next
  assume "unambiguous c_ContainerName (Containers st)" "GetContainerById j st = Inr d"
  from csm.by_name_unique [OF assms this] show "ResolveContainerId (c_ContainerName d) st = Inr j"
    by (simp add: ResolveContainerId_def)
qed

text \<open>A store with two containers.\<close>

definition demo_container :: "string \<Rightarrow> string \<Rightarrow> ContainerInfo" where
  "demo_container i n =
     \<lparr>c_ContainerId = i, c_ContainerName = n, c_PodId = '''', c_SpiffeId = '''', c_State = ''created'',
      c_Pid = 7, c_ExitCode = 0, c_Reason = '''', c_Message = '''', c_LogPath = ''/log'', c_Tty = False,
      c_Repository = ''alpine'', c_Reference = ''latest'', c_Command = [''sh''], c_BottleId = '''',
      c_CreatingAt = 0, c_CreatedAt = 5, c_StartedAt = 0, c_StoppedAt = 0, c_FinishedAt = 0,
      c_Labels = [], c_Annotaions = [], c_Attemp = 0\<rparr>"

definition csm_demo :: ContainerState where
  "csm_demo = \<lparr>cs_Version = ''0.1.0'',
     Containers = [(''i1'', demo_container ''i1'' ''web''), (''i2'', demo_container ''i2'' ''db'')]\<rparr>"

lemma csm_demo_inv: "csm_inv csm_demo"
  by (simp add: csm_inv_def keyed_def mwf_def csm_demo_def demo_container_def)

theorem csm_operations_frame_witness:
  "(case UpdateSpiffe ''i1'' ''spiffe://raind/container/i1'' csm_demo of
      Inr st' \<Rightarrow> GetContainerById ''i2'' st' = GetContainerById ''i2'' csm_demo \<and>
        GetContainerById ''i1'' st' = Inr ((demo_container ''i1'' ''web'')\<lparr>c_SpiffeId := ''spiffe://raind/container/i1''\<rparr>)
    | Inl e \<Rightarrow> False) \<and> \<not> is_ok (UpdateExitStatus ''i3'' 0 '''' '''' csm_demo)"
proof -
  have look: "is_ok (GetContainerById ''i1'' csm_demo)" "\<not> is_ok (GetContainerById ''i3'' csm_demo)"
    "map_of (Containers csm_demo) ''i1'' = Some (demo_container ''i1'' ''web'')"
    by (simp_all add: GetContainerById_def csm_demo_def demo_container_def)
  then show ?thesis
    using csm_operations_frame [OF csm_demo_inv, of "Op_UpdateSpiffe ''i1'' ''spiffe://raind/container/i1''"]
      csm_operations_frame [OF csm_demo_inv, of "Op_UpdateExitStatus ''i3'' 0 '''' ''''"]
    by (cases "UpdateSpiffe ''i1'' ''spiffe://raind/container/i1'' csm_demo") auto
qed

theorem csm_resolution_witness:
  "ResolveContainerId ''db'' csm_demo = Inr ''i2''"
  using csm_resolution [OF csm_demo_inv, where j = "''i2''" and d = "demo_container ''i2'' ''db''"]
  by (simp add: GetContainerById_def csm_demo_def demo_container_def unambiguous_def)

end
