(* ===== verification/Psm.thy ===== *)
theory Psm
  imports Keyed_Store
begin

text \<open>
  The pod state store (\<open>src/internal/store/psm\<close>): pods, pod templates and replica sets.  As in
  the container store, each operation is the closure run under the file lock, and nil maps are
  empty maps because \<open>loadOrInit\<close> replaces them.
\<close>

subsection \<open>Data (model.go)\<close>

type_synonym pod_id = string
type_synonym template_id = string
type_synonym ns_path = string

record PodInfo =
  p_PodId :: string
  p_TemplateId :: string
  p_Name :: string
  p_Namespace :: string
  p_UID :: string
  p_State :: string
  p_OwnerPid :: int
  p_NetworkNS :: string
  p_IPCNS :: string
  p_UTSNS :: string
  p_UserNS :: string
  p_Labels :: "(string, string) gomap"
  p_Annotations :: "(string, string) gomap"
  p_CreatedAt :: time
  p_StartedAt :: time
  p_StoppedAt :: time
  p_StoppedByUser :: bool

record ContainerTemplateSpec =
  ct_Name :: string
  ct_Image :: string
  ct_Command :: "string list"
  ct_Port :: "string list"
  ct_Mount :: "string list"
  ct_Env :: "string list"
  ct_Network :: string
  ct_Tty :: bool

record PodTemplateSpec =
  pt_Name :: string
  pt_Namespace :: string
  pt_NetworkNS :: string
  pt_IPCNS :: string
  pt_UTSNS :: string
  pt_UserNS :: string
  pt_Labels :: "(string, string) gomap"
  pt_Annotations :: "(string, string) gomap"
  pt_Containers :: "ContainerTemplateSpec list"

record PodTemplateInfo =
  t_TemplateId :: string
  t_Spec :: PodTemplateSpec
  t_CreatedAt :: time

record ReplicaSetSpec =
  rs_Name :: string
  rs_Namespace :: string
  rs_Replicas :: int
  rs_TemplateId :: string
  rs_Selector :: "(string, string) gomap"

record ReplicaSetInfo =
  r_ReplicaSetId :: string
  r_Spec :: ReplicaSetSpec
  r_CreatedAt :: time

record PodState =
  ps_Version :: string
  Pods :: "(string, PodInfo) gomap"
  PodTemplates :: "(string, PodTemplateInfo) gomap"
  ReplicaSets :: "(string, ReplicaSetInfo) gomap"

subsection \<open>The file (store.go)\<close>

definition psm_initial :: PodState where
  "psm_initial = \<lparr>ps_Version = ''0.3.0'', Pods = [], PodTemplates = [], ReplicaSets = []\<rparr>"

definition psm_loadOrInit :: "PodState read \<Rightarrow> PodState result" where
  "psm_loadOrInit r =
     (case r of
        ReadNotExist e \<Rightarrow> Inr psm_initial
      | ReadErr e \<Rightarrow> Inl e
      | ReadBytes None \<Rightarrow> Inl (Err ''pod state json broken'')
      | ReadBytes (Some st) \<Rightarrow> Inr st)"

definition psm_atomicSave :: "faults \<Rightarrow> PodState \<Rightarrow> PodState disk \<Rightarrow> unit result \<times> PodState disk" where
  "psm_atomicSave = atomic_save"

definition psm_withLock where
  "psm_withLock = with_lock psm_loadOrInit"

definition psm_withRLock where
  "psm_withRLock = with_rlock psm_loadOrInit"

definition SetPodState :: "PodState \<Rightarrow> PodState result" where
  "SetPodState st = Inr (st\<lparr>ps_Version := ''0.3.0''\<rparr>)"

subsection \<open>Pods (psm.go)\<close>

definition StorePod ::
  "time \<Rightarrow> pod_id \<Rightarrow> template_id \<Rightarrow> string \<Rightarrow> string \<Rightarrow> string \<Rightarrow> string \<Rightarrow> ns_path \<Rightarrow> ns_path \<Rightarrow> ns_path \<Rightarrow> ns_path \<Rightarrow>
   (string, string) gomap \<Rightarrow> (string, string) gomap \<Rightarrow> PodState \<Rightarrow> PodState result" where
  "StorePod now podId templateId name namespace uid state networkNS ipcNS utsNS userNS labels annotations st =
     Inr (st\<lparr>Pods := mput podId
       \<lparr>p_PodId = podId, p_TemplateId = templateId, p_Name = name, p_Namespace = namespace, p_UID = uid,
        p_State = state, p_OwnerPid = 0, p_NetworkNS = networkNS, p_IPCNS = ipcNS, p_UTSNS = utsNS,
        p_UserNS = userNS, p_Labels = labels, p_Annotations = annotations, p_CreatedAt = now,
        p_StartedAt = 0, p_StoppedAt = 0, p_StoppedByUser = False\<rparr> (Pods st)\<rparr>)"

definition pod_not_found :: "string \<Rightarrow> error" where
  "pod_not_found podId = Err (''podId='' @ podId @ '' not found'')"

definition RemovePod :: "string \<Rightarrow> PodState \<Rightarrow> PodState result" where
  "RemovePod podId st =
     (if map_of (Pods st) podId = None then Inl (pod_not_found podId)
      else Inr (st\<lparr>Pods := mdel podId (Pods st)\<rparr>))"

definition UpdatePod :: "time \<Rightarrow> string \<Rightarrow> string \<Rightarrow> PodState \<Rightarrow> PodState result" where
  "UpdatePod now podId state st =
     (case map_of (Pods st) podId of
        None \<Rightarrow> Inl (pod_not_found podId)
      | Some p \<Rightarrow>
          let p1 = p\<lparr>p_State := state\<rparr>;
              p2 = (if state = ''created'' then p1\<lparr>p_CreatedAt := now\<rparr>
                    else if state = ''running'' then p1\<lparr>p_StartedAt := now\<rparr>
                    else if state = ''stopped'' then p1\<lparr>p_StoppedAt := now\<rparr> else p1)
          in Inr (st\<lparr>Pods := mput podId p2 (Pods st)\<rparr>))"

definition UpdatePodStoppedByUser :: "string \<Rightarrow> bool \<Rightarrow> PodState \<Rightarrow> PodState result" where
  "UpdatePodStoppedByUser podId stopped st =
     (case map_of (Pods st) podId of
        None \<Rightarrow> Inl (pod_not_found podId)
      | Some p \<Rightarrow> Inr (st\<lparr>Pods := mput podId (p\<lparr>p_StoppedByUser := stopped\<rparr>) (Pods st)\<rparr>))"

definition UpdatePodNamespaces ::
  "int \<Rightarrow> string \<Rightarrow> string \<Rightarrow> string \<Rightarrow> string \<Rightarrow> string \<Rightarrow> PodState \<Rightarrow> PodState result" where
  "UpdatePodNamespaces ownerPid podId networkNS ipcNS utsNS userNS st =
     (case map_of (Pods st) podId of
        None \<Rightarrow> Inl (pod_not_found podId)
      | Some p \<Rightarrow>
          let p0 = p\<lparr>p_OwnerPid := ownerPid\<rparr>;
              p1 = (if p_NetworkNS p0 = [] \<and> networkNS \<noteq> [] then p0\<lparr>p_NetworkNS := networkNS\<rparr> else p0);
              p2 = (if p_IPCNS p1 = [] \<and> ipcNS \<noteq> [] then p1\<lparr>p_IPCNS := ipcNS\<rparr> else p1);
              p3 = (if p_UTSNS p2 = [] \<and> utsNS \<noteq> [] then p2\<lparr>p_UTSNS := utsNS\<rparr> else p2);
              p4 = (if p_UserNS p3 = [] \<and> userNS \<noteq> [] then p3\<lparr>p_UserNS := userNS\<rparr> else p3)
          in Inr (st\<lparr>Pods := mput podId p4 (Pods st)\<rparr>))"

definition ResetPodNamespaces :: "string \<Rightarrow> PodState \<Rightarrow> PodState result" where
  "ResetPodNamespaces podId st =
     (case map_of (Pods st) podId of
        None \<Rightarrow> Inl (pod_not_found podId)
      | Some p \<Rightarrow> Inr (st\<lparr>Pods := mput podId (p\<lparr>p_OwnerPid := 0, p_NetworkNS := [], p_IPCNS := [],
          p_UTSNS := [], p_UserNS := []\<rparr>) (Pods st)\<rparr>))"

definition GetPodList :: "PodState \<Rightarrow> PodInfo list result" where
  "GetPodList st = Inr (map snd (Pods st))"

definition GetPodById :: "string \<Rightarrow> PodState \<Rightarrow> PodInfo result" where
  "GetPodById podId st =
     (case map_of (Pods st) podId of
        None \<Rightarrow> Inl (Err (''pod: '' @ podId @ '' not found''))
      | Some p \<Rightarrow> Inr p)"

definition psm_IsNameAlreadyUsed :: "string \<Rightarrow> string \<Rightarrow> PodState \<Rightarrow> bool" where
  "psm_IsNameAlreadyUsed name namespace st =
     (range_find (\<lambda>p. p_Name p = name \<and> p_Namespace p = namespace) (Pods st) \<noteq> None)"

definition GetPodIdByName :: "string \<Rightarrow> string \<Rightarrow> PodState \<Rightarrow> string result" where
  "GetPodIdByName name namespace st =
     (case range_find (\<lambda>p. p_Name p = name \<and> p_Namespace p = namespace) (Pods st) of
        Some (i, p) \<Rightarrow> Inr (p_PodId p)
      | None \<Rightarrow> Inl (Err (''pod: '' @ namespace @ ''/'' @ name @ '' not found'')))"

definition ResolvePodId :: "string \<Rightarrow> string \<Rightarrow> PodState \<Rightarrow> string result" where
  "ResolvePodId str namespace st =
     (let by_id = (case GetPodById str st of Inl e \<Rightarrow> Inl e | Inr p \<Rightarrow> Inr str) in
      if namespace \<noteq> [] then (case GetPodIdByName str namespace st of Inr podId \<Rightarrow> Inr podId | Inl e \<Rightarrow> by_id)
      else by_id)"

definition IsPodExist :: "string \<Rightarrow> PodState \<Rightarrow> bool" where
  "IsPodExist podId st = is_ok (GetPodById podId st)"

definition IsPodOwner :: "string \<Rightarrow> PodState \<Rightarrow> bool" where
  "IsPodOwner podId st =
     (podId \<noteq> [] \<and>
      (case map_of (Pods st) podId of
         None \<Rightarrow> False
       | Some p \<Rightarrow> p_UserNS p = [] \<and> p_NetworkNS p = [] \<and> p_IPCNS p = [] \<and> p_UTSNS p = []))"

definition GetPodOwnerPid :: "string \<Rightarrow> PodState \<Rightarrow> int result" where
  "GetPodOwnerPid podId st =
     (case map_of (Pods st) podId of
        None \<Rightarrow> Inl (Err (''pod: '' @ podId @ '' not found''))
      | Some p \<Rightarrow> Inr (p_OwnerPid p))"

subsection \<open>Templates (psm.go)\<close>

definition StorePodTemplate :: "time \<Rightarrow> string \<Rightarrow> PodTemplateSpec \<Rightarrow> PodState \<Rightarrow> PodState result" where
  "StorePodTemplate now templateId spec st =
     Inr (st\<lparr>PodTemplates := mput templateId \<lparr>t_TemplateId = templateId, t_Spec = spec, t_CreatedAt = now\<rparr>
       (PodTemplates st)\<rparr>)"

definition GetPodTemplate :: "string \<Rightarrow> PodState \<Rightarrow> PodTemplateInfo result" where
  "GetPodTemplate templateId st =
     (case map_of (PodTemplates st) templateId of
        None \<Rightarrow> Inl (Err (''podTemplateId='' @ templateId @ '' not found''))
      | Some t \<Rightarrow> Inr t)"

definition GetPodTemplateList :: "PodState \<Rightarrow> PodTemplateInfo list result" where
  "GetPodTemplateList st = Inr (map snd (PodTemplates st))"

text \<open>The loop that replaces the first container of the same, non-empty name or appends.\<close>

fun add_container :: "ContainerTemplateSpec \<Rightarrow> ContainerTemplateSpec list \<Rightarrow> ContainerTemplateSpec list" where
  "add_container spec [] = [spec]"
| "add_container spec (c # cs) =
     (if ct_Name c = ct_Name spec \<and> ct_Name spec \<noteq> [] then spec # cs else c # add_container spec cs)"

definition AddContainerToPodTemplate :: "string \<Rightarrow> ContainerTemplateSpec \<Rightarrow> PodState \<Rightarrow> PodState result" where
  "AddContainerToPodTemplate podId spec st =
     (case map_of (Pods st) podId of
        None \<Rightarrow> Inl (pod_not_found podId)
      | Some pod \<Rightarrow>
          if p_TemplateId pod = [] then Inl (Err (''podId='' @ podId @ '' has no templateId''))
          else (case map_of (PodTemplates st) (p_TemplateId pod) of
              None \<Rightarrow> Inl (Err (''podTemplateId='' @ p_TemplateId pod @ '' not found''))
            | Some tpl \<Rightarrow>
                let s = t_Spec tpl;
                    tpl' = tpl\<lparr>t_Spec := s\<lparr>pt_Containers := add_container spec (pt_Containers s)\<rparr>\<rparr>
                in Inr (st\<lparr>PodTemplates := mput (p_TemplateId pod) tpl' (PodTemplates st)\<rparr>)))"

definition RemovePodTemplate :: "string \<Rightarrow> PodState \<Rightarrow> PodState result" where
  "RemovePodTemplate templateId st =
     (if map_of (PodTemplates st) templateId = None
      then Inl (Err (''podTemplateId='' @ templateId @ '' not found''))
      else Inr (st\<lparr>PodTemplates := mdel templateId (PodTemplates st)\<rparr>))"

subsection \<open>Replica sets (psm.go)\<close>

definition StoreReplicaSet :: "time \<Rightarrow> string \<Rightarrow> ReplicaSetSpec \<Rightarrow> PodState \<Rightarrow> PodState result" where
  "StoreReplicaSet now replicaSetId spec st =
     Inr (st\<lparr>ReplicaSets := mput replicaSetId
       \<lparr>r_ReplicaSetId = replicaSetId, r_Spec = spec, r_CreatedAt = now\<rparr> (ReplicaSets st)\<rparr>)"

definition rs_not_found :: "string \<Rightarrow> error" where
  "rs_not_found replicaSetId = Err (''replicaSetId='' @ replicaSetId @ '' not found'')"

definition GetReplicaSet :: "string \<Rightarrow> PodState \<Rightarrow> ReplicaSetInfo result" where
  "GetReplicaSet replicaSetId st =
     (case map_of (ReplicaSets st) replicaSetId of None \<Rightarrow> Inl (rs_not_found replicaSetId) | Some r \<Rightarrow> Inr r)"

definition GetReplicaSetList :: "PodState \<Rightarrow> ReplicaSetInfo list result" where
  "GetReplicaSetList st = Inr (map snd (ReplicaSets st))"

definition UpdateReplicaSetReplicas :: "string \<Rightarrow> int \<Rightarrow> PodState \<Rightarrow> PodState result" where
  "UpdateReplicaSetReplicas replicaSetId replicas st =
     (case map_of (ReplicaSets st) replicaSetId of
        None \<Rightarrow> Inl (rs_not_found replicaSetId)
      | Some rs \<Rightarrow>
          if replicas < 0 then Inl (Err ''replicas must be >= 0'')
          else Inr (st\<lparr>ReplicaSets := mput replicaSetId
            (rs\<lparr>r_Spec := (r_Spec rs)\<lparr>rs_Replicas := replicas\<rparr>\<rparr>) (ReplicaSets st)\<rparr>))"

definition IsTemplateReferenced :: "string \<Rightarrow> PodState \<Rightarrow> bool result" where
  "IsTemplateReferenced templateId st =
     Inr (range_find (\<lambda>rs. rs_TemplateId (r_Spec rs) = templateId) (ReplicaSets st) \<noteq> None)"

definition RemoveReplicaSet :: "string \<Rightarrow> PodState \<Rightarrow> PodState result" where
  "RemoveReplicaSet replicaSetId st =
     (if map_of (ReplicaSets st) replicaSetId = None then Inl (rs_not_found replicaSetId)
      else Inr (st\<lparr>ReplicaSets := mdel replicaSetId (ReplicaSets st)\<rparr>))"

subsection \<open>Invariant\<close>

definition psm_inv :: "PodState \<Rightarrow> bool" where
  "psm_inv st \<longleftrightarrow> keyed p_PodId (Pods st) \<and> keyed t_TemplateId (PodTemplates st) \<and>
     keyed r_ReplicaSetId (ReplicaSets st)"

datatype psm_op =
    Op_StorePod time string string string string string string string string string string
      "(string, string) gomap" "(string, string) gomap"
  | Op_RemovePod string
  | Op_UpdatePod time string string
  | Op_UpdatePodStoppedByUser string bool
  | Op_UpdatePodNamespaces int string string string string string
  | Op_ResetPodNamespaces string
  | Op_StorePodTemplate time string PodTemplateSpec
  | Op_AddContainerToPodTemplate string ContainerTemplateSpec
  | Op_RemovePodTemplate string
  | Op_StoreReplicaSet time string ReplicaSetSpec
  | Op_UpdateReplicaSetReplicas string int
  | Op_RemoveReplicaSet string
  | Op_SetPodState

fun psm_apply :: "psm_op \<Rightarrow> PodState \<Rightarrow> PodState result" where
  "psm_apply (Op_StorePod now i t n ns u s a b c d l m) = StorePod now i t n ns u s a b c d l m"
| "psm_apply (Op_RemovePod i) = RemovePod i"
| "psm_apply (Op_UpdatePod now i s) = UpdatePod now i s"
| "psm_apply (Op_UpdatePodStoppedByUser i b) = UpdatePodStoppedByUser i b"
| "psm_apply (Op_UpdatePodNamespaces o' i a b c d) = UpdatePodNamespaces o' i a b c d"
| "psm_apply (Op_ResetPodNamespaces i) = ResetPodNamespaces i"
| "psm_apply (Op_StorePodTemplate now t s) = StorePodTemplate now t s"
| "psm_apply (Op_AddContainerToPodTemplate i s) = AddContainerToPodTemplate i s"
| "psm_apply (Op_RemovePodTemplate t) = RemovePodTemplate t"
| "psm_apply (Op_StoreReplicaSet now r s) = StoreReplicaSet now r s"
| "psm_apply (Op_UpdateReplicaSetReplicas r n) = UpdateReplicaSetReplicas r n"
| "psm_apply (Op_RemoveReplicaSet r) = RemoveReplicaSet r"
| "psm_apply Op_SetPodState = SetPodState"

lemma psm_put_inv:
  assumes "psm_inv st"
  shows "p_PodId p = i \<Longrightarrow> psm_inv (st\<lparr>Pods := mput i p (Pods st)\<rparr>)"
    and "t_TemplateId t = i \<Longrightarrow> psm_inv (st\<lparr>PodTemplates := mput i t (PodTemplates st)\<rparr>)"
    and "r_ReplicaSetId r = i \<Longrightarrow> psm_inv (st\<lparr>ReplicaSets := mput i r (ReplicaSets st)\<rparr>)"
  using assms by (auto simp: psm_inv_def)

lemma psm_del_inv:
  assumes "psm_inv st"
  shows "psm_inv (st\<lparr>Pods := mdel i (Pods st)\<rparr>)" "psm_inv (st\<lparr>PodTemplates := mdel i (PodTemplates st)\<rparr>)"
    "psm_inv (st\<lparr>ReplicaSets := mdel i (ReplicaSets st)\<rparr>)"
  using assms by (auto simp: psm_inv_def)

lemma psm_keys:
  assumes "psm_inv st"
  shows "map_of (Pods st) i = Some p \<Longrightarrow> p_PodId p = i"
    and "map_of (PodTemplates st) i = Some t \<Longrightarrow> t_TemplateId t = i"
    and "map_of (ReplicaSets st) i = Some r \<Longrightarrow> r_ReplicaSetId r = i"
  using assms keyed_map_of [of p_PodId] keyed_map_of [of t_TemplateId] keyed_map_of [of r_ReplicaSetId]
  by (auto simp: psm_inv_def)

lemmas psm_pod_defs = StorePod_def RemovePod_def UpdatePod_def UpdatePodStoppedByUser_def
  UpdatePodNamespaces_def ResetPodNamespaces_def

lemmas psm_template_defs = StorePodTemplate_def AddContainerToPodTemplate_def RemovePodTemplate_def
  StoreReplicaSet_def UpdateReplicaSetReplicas_def RemoveReplicaSet_def SetPodState_def

lemma psm_apply_inv:
  assumes "psm_inv st" "psm_apply op st = Inr st'"
  shows "psm_inv st'"
proof -
  note keys = psm_keys [OF assms(1)] and put = psm_put_inv [OF assms(1)] and del = psm_del_inv [OF assms(1)]
  have "psm_inv (st\<lparr>ps_Version := v\<rparr>)" for v using assms(1) by (simp add: psm_inv_def)
  with assms(2) show ?thesis
    by (cases op) (auto simp: psm_pod_defs psm_template_defs Let_def keys
        split: option.splits if_splits intro!: put del)
qed

interpretation psm_file: json_store psm_loadOrInit "\<lambda>st. st" psm_inv
  by unfold_locales (auto simp: psm_loadOrInit_def psm_initial_def psm_inv_def)

interpretation psm: keyed_store Pods p_PodId "\<lambda>p. (p_Name p, p_Namespace p)" psm_inv
  GetPodById "\<lambda>(n, ns). GetPodIdByName n ns"
proof
  fix st i and v :: PodInfo and n :: "string \<times> string"
  show "psm_inv st \<Longrightarrow> keyed p_PodId (Pods st)" by (simp add: psm_inv_def)
  show "psm_inv st \<Longrightarrow> GetPodById i st = Inr v \<longleftrightarrow> map_of (Pods st) i = Some v"
    by (simp add: GetPodById_def split: option.splits)
  show "(case n of (n, ns) \<Rightarrow> GetPodIdByName n ns) st = Inr i \<longleftrightarrow>
      (\<exists>k v. range_find (\<lambda>v. (p_Name v, p_Namespace v) = n) (Pods st) = Some (k, v) \<and> p_PodId v = i)"
    by (cases n) (auto simp: GetPodIdByName_def split: option.splits)
qed

definition psm_run :: "(faults \<times> psm_op) list \<Rightarrow> PodState disk \<Rightarrow> PodState disk" where
  "psm_run ops = run_updates psm_loadOrInit (map (\<lambda>(fl, op). (fl, psm_apply op)) ops)"

lemma psm_run_inv: "doc_inv psm_inv d \<Longrightarrow> doc_inv psm_inv (psm_run ops d)"
  unfolding psm_run_def by (rule psm_file.run_updates_inv) (auto intro: psm_apply_inv)

subsection \<open>Properties\<close>

text \<open>Joining a pod's namespaces is write-once.  \<open>UpdatePodNamespaces\<close> records the caller's
  pid, keeps every namespace path that is already set and fills the empty ones, so the container that found the
  pod without namespaces (\<open>IsPodOwner\<close>) is the last to be told so until \<open>ResetPodNamespaces\<close>
  clears them; other pods are untouched.\<close>

theorem pod_namespaces_write_once:
  assumes "map_of (Pods st) podId = Some p" "podId \<noteq> []"
  shows "\<exists>st' p'. UpdatePodNamespaces pid podId net ipc uts user st = Inr st' \<and>
    map_of (Pods st') = (map_of (Pods st))(podId \<mapsto> p') \<and> p_OwnerPid p' = pid \<and>
    p_NetworkNS p' = (if p_NetworkNS p = [] then net else p_NetworkNS p) \<and>
    p_IPCNS p' = (if p_IPCNS p = [] then ipc else p_IPCNS p) \<and>
    p_UTSNS p' = (if p_UTSNS p = [] then uts else p_UTSNS p) \<and>
    p_UserNS p' = (if p_UserNS p = [] then user else p_UserNS p) \<and>
    (IsPodOwner podId st' \<longleftrightarrow> IsPodOwner podId st \<and> net = [] \<and> ipc = [] \<and> uts = [] \<and> user = []) \<and>
    (\<exists>st''. ResetPodNamespaces podId st' = Inr st'' \<and> IsPodOwner podId st'' \<and> GetPodOwnerPid podId st'' = Inr 0)"
proof -
  obtain st' p' where r: "UpdatePodNamespaces pid podId net ipc uts user st = Inr st'"
    "map_of (Pods st') = (map_of (Pods st))(podId \<mapsto> p')" "p_OwnerPid p' = pid"
    "p_NetworkNS p' = (if p_NetworkNS p = [] then net else p_NetworkNS p)"
    "p_IPCNS p' = (if p_IPCNS p = [] then ipc else p_IPCNS p)"
    "p_UTSNS p' = (if p_UTSNS p = [] then uts else p_UTSNS p)"
    "p_UserNS p' = (if p_UserNS p = [] then user else p_UserNS p)"
    using assms(1) by (simp add: UpdatePodNamespaces_def Let_def)
  moreover from this have "IsPodOwner podId st' \<longleftrightarrow>
      IsPodOwner podId st \<and> net = [] \<and> ipc = [] \<and> uts = [] \<and> user = []"
    using assms by (auto simp: IsPodOwner_def)
  moreover have "\<exists>st''. ResetPodNamespaces podId st' = Inr st'' \<and> IsPodOwner podId st'' \<and>
      GetPodOwnerPid podId st'' = Inr 0"
    using r(2) assms(2) by (auto simp: ResetPodNamespaces_def IsPodOwner_def GetPodOwnerPid_def)
  ultimately show ?thesis by blast
qed

definition demo_pod :: "string \<Rightarrow> string \<Rightarrow> string \<Rightarrow> PodInfo" where
  "demo_pod i t n = \<lparr>p_PodId = i, p_TemplateId = t, p_Name = n, p_Namespace = ''default'', p_UID = ''u'',
     p_State = ''created'', p_OwnerPid = 0, p_NetworkNS = [], p_IPCNS = [], p_UTSNS = [], p_UserNS = [],
     p_Labels = [], p_Annotations = [], p_CreatedAt = 1, p_StartedAt = 0, p_StoppedAt = 0,
     p_StoppedByUser = False\<rparr>"

definition demo_tpl :: "ContainerTemplateSpec list \<Rightarrow> PodTemplateInfo" where
  "demo_tpl cs = \<lparr>t_TemplateId = ''t1'', t_Spec = \<lparr>pt_Name = ''web'', pt_Namespace = ''default'',
     pt_NetworkNS = [], pt_IPCNS = [], pt_UTSNS = [], pt_UserNS = [], pt_Labels = [], pt_Annotations = [],
     pt_Containers = cs\<rparr>, t_CreatedAt = 1\<rparr>"

definition demo_ctr :: "string \<Rightarrow> string \<Rightarrow> ContainerTemplateSpec" where
  "demo_ctr n img = \<lparr>ct_Name = n, ct_Image = img, ct_Command = [], ct_Port = [], ct_Mount = [], ct_Env = [],
     ct_Network = [], ct_Tty = False\<rparr>"

definition psm_demo :: PodState where
  "psm_demo = \<lparr>ps_Version = ''0.3.0'', Pods = [(''p1'', demo_pod ''p1'' ''t1'' ''web''), (''p2'', demo_pod ''p2'' ''t1'' ''db'')],
     PodTemplates = [(''t1'', demo_tpl [demo_ctr ''a'' ''alpine'', demo_ctr ''b'' ''busybox''])], ReplicaSets = []\<rparr>"

lemma psm_demo_inv: "psm_inv psm_demo"
  by (simp add: psm_inv_def keyed_def mwf_def psm_demo_def demo_pod_def demo_tpl_def)

theorem pod_namespaces_write_once_witness:
  "IsPodOwner ''p1'' psm_demo \<and>
   (\<exists>st'. UpdatePodNamespaces 42 ''p1'' ''/ns/net'' ''/ns/ipc'' ''/ns/uts'' ''/ns/user'' psm_demo = Inr st' \<and>
      \<not> IsPodOwner ''p1'' st')"
  using pod_namespaces_write_once [of psm_demo "''p1''" "demo_pod ''p1'' ''t1'' ''web''" 42 "''/ns/net''"
      "''/ns/ipc''" "''/ns/uts''" "''/ns/user''"]
  by (auto simp: psm_demo_def IsPodOwner_def demo_pod_def)

subsubsection \<open>Templates\<close>

abbreviation named :: "string \<Rightarrow> ContainerTemplateSpec list \<Rightarrow> ContainerTemplateSpec list" where
  "named n cs \<equiv> filter (\<lambda>c. ct_Name c = n) cs"

lemma add_container_other: "n \<noteq> ct_Name spec \<Longrightarrow> named n (add_container spec cs) = named n cs"
  by (induction cs) auto

lemma add_container_same:
  "ct_Name spec \<noteq> [] \<Longrightarrow> length (named (ct_Name spec) cs) \<le> 1 \<Longrightarrow> named (ct_Name spec) (add_container spec cs) = [spec]"
  by (induction cs) auto

lemma add_container_unnamed: "ct_Name spec = [] \<Longrightarrow> add_container spec cs = cs @ [spec]"
  by (induction cs) auto

text \<open>\<open>AddContainerToPodTemplate\<close> adds to the template of the pod, and to no other template:
  afterwards the template has exactly one container of the given name, namely the new one, its containers
  of other names are as before, and an unnamed container is appended.  It fails exactly when the
  pod, its template reference or the template is missing.\<close>

theorem AddContainerToPodTemplate_correct:
  assumes "psm_inv st"
  shows "case AddContainerToPodTemplate podId spec st of
      Inr st' \<Rightarrow> psm_inv st' \<and> Pods st' = Pods st \<and> ReplicaSets st' = ReplicaSets st \<and>
        (\<exists>pod tpl tpl'. map_of (Pods st) podId = Some pod \<and> GetPodTemplate (p_TemplateId pod) st = Inr tpl \<and>
          GetPodTemplate (p_TemplateId pod) st' = Inr tpl' \<and>
          (\<forall>t. t \<noteq> p_TemplateId pod \<longrightarrow> GetPodTemplate t st' = GetPodTemplate t st) \<and>
          (let old = pt_Containers (t_Spec tpl); new = pt_Containers (t_Spec tpl') in
            (\<forall>n. n \<noteq> ct_Name spec \<longrightarrow> named n new = named n old) \<and>
            (ct_Name spec = [] \<longrightarrow> new = old @ [spec]) \<and>
            (ct_Name spec \<noteq> [] \<longrightarrow> length (named (ct_Name spec) old) \<le> 1 \<longrightarrow> named (ct_Name spec) new = [spec])))
    | Inl e \<Rightarrow> (case map_of (Pods st) podId of None \<Rightarrow> True
        | Some pod \<Rightarrow> p_TemplateId pod = [] \<or> \<not> is_ok (GetPodTemplate (p_TemplateId pod) st))"
proof (cases "AddContainerToPodTemplate podId spec st")
  case (Inl e)
  then show ?thesis
    by (auto simp: AddContainerToPodTemplate_def GetPodTemplate_def Let_def split: option.splits if_splits)
next
  case (Inr st')
  then obtain pod tpl where pt: "map_of (Pods st) podId = Some pod" "p_TemplateId pod \<noteq> []"
    "map_of (PodTemplates st) (p_TemplateId pod) = Some tpl"
    by (auto simp: AddContainerToPodTemplate_def split: option.splits if_splits)
  have "psm_inv st'" using psm_apply_inv [OF assms, of "Op_AddContainerToPodTemplate podId spec"] Inr by simp
  with Inr pt show ?thesis
    by (auto simp: AddContainerToPodTemplate_def GetPodTemplate_def Let_def add_container_other
        add_container_same add_container_unnamed)
qed

theorem AddContainerToPodTemplate_correct_witness:
  "\<exists>st' tpl'. AddContainerToPodTemplate ''p1'' (demo_ctr ''b'' ''nginx'') psm_demo = Inr st' \<and>
     GetPodTemplate ''t1'' st' = Inr tpl' \<and>
     named ''b'' (pt_Containers (t_Spec tpl')) = [demo_ctr ''b'' ''nginx''] \<and>
     named ''a'' (pt_Containers (t_Spec tpl')) = [demo_ctr ''a'' ''alpine'']"
proof -
  let ?cs = "[demo_ctr ''a'' ''alpine'', demo_ctr ''b'' ''busybox'']"
  have pod: "map_of (Pods psm_demo) ''p1'' = Some (demo_pod ''p1'' ''t1'' ''web'')"
    and tpl: "GetPodTemplate ''t1'' psm_demo = Inr (demo_tpl ?cs)"
    and simps: "p_TemplateId (demo_pod ''p1'' ''t1'' ''web'') = ''t1''" "pt_Containers (t_Spec (demo_tpl ?cs)) = ?cs"
      "ct_Name (demo_ctr n i) = n" for n i
    by (simp_all add: psm_demo_def demo_pod_def demo_tpl_def demo_ctr_def GetPodTemplate_def)
  note c = AddContainerToPodTemplate_correct [OF psm_demo_inv, of "''p1''" "demo_ctr ''b'' ''nginx''"]
  obtain st' where st': "AddContainerToPodTemplate ''p1'' (demo_ctr ''b'' ''nginx'') psm_demo = Inr st'"
    using c by (cases "AddContainerToPodTemplate ''p1'' (demo_ctr ''b'' ''nginx'') psm_demo") (simp_all add: pod tpl simps)
  from c [unfolded st'] obtain tpl' where "GetPodTemplate ''t1'' st' = Inr tpl'"
    "named ''a'' (pt_Containers (t_Spec tpl')) = named ''a'' ?cs"
    "named ''b'' (pt_Containers (t_Spec tpl')) = [demo_ctr ''b'' ''nginx'']"
    by (auto simp: pod tpl simps Let_def)
  with st' show ?thesis by (simp add: simps)
qed

subsubsection \<open>Resolving pods\<close>

text \<open>\<open>ResolvePodId\<close> returns the identifier of a stored pod, which is either the string itself
  or a pod of that name in the given namespace; when names are unique within a namespace, a
  pod's name and namespace resolve to it; and on every history of operations the store file
  keeps every pod under its own identifier.\<close>

theorem ResolvePodId_correct:
  assumes "doc_inv psm_inv d" "main_file (psm_run ops d) = Doc st"
  shows "(\<forall>i. ResolvePodId str ns st = Inr i \<longrightarrow>
      (\<exists>p. GetPodById i st = Inr p \<and> p_PodId p = i \<and> (i = str \<or> p_Name p = str \<and> p_Namespace p = ns))) \<and>
    (unambiguous (\<lambda>p. (p_Name p, p_Namespace p)) (Pods st) \<longrightarrow> GetPodById j st = Inr q \<longrightarrow>
      p_Namespace q \<noteq> [] \<longrightarrow> ResolvePodId (p_Name q) (p_Namespace q) st = Inr j)"
proof -
  have inv: "psm_inv st" using psm_run_inv [OF assms(1), of ops] assms(2) by (simp add: doc_inv_def)
  have id: "p_PodId p = k" if "GetPodById k st = Inr p" for k p
    using psm.by_id_ok [OF inv] psm_keys(1) [OF inv] that by auto
  have "\<exists>p. GetPodById i st = Inr p \<and> p_PodId p = i \<and> (i = str \<or> p_Name p = str \<and> p_Namespace p = ns)"
    if r: "ResolvePodId str ns st = Inr i" for i
  proof (cases "ns \<noteq> [] \<and> is_ok (GetPodIdByName str ns st)")
    case True
    then have "GetPodIdByName str ns st = Inr i"
      using r by (auto simp: ResolvePodId_def Let_def is_ok_iff)
    then show ?thesis using psm.by_name_by_id [OF inv, of "(str, ns)" i] by auto
  next
    case False
    then have "(case GetPodById str st of Inl e \<Rightarrow> Inl e | Inr p \<Rightarrow> Inr str) = Inr i"
      using r by (auto simp: ResolvePodId_def Let_def split: if_splits sum.splits)
    then show ?thesis using id by (auto split: sum.splits)
  qed
  moreover have "ResolvePodId (p_Name q) (p_Namespace q) st = Inr j"
    if "unambiguous (\<lambda>p. (p_Name p, p_Namespace p)) (Pods st)" "GetPodById j st = Inr q" "p_Namespace q \<noteq> []"
    using psm.by_name_unique [OF inv that(1,2)] that(3) by (simp add: ResolvePodId_def)
  ultimately show ?thesis by blast
qed

theorem ResolvePodId_correct_witness:
  "ResolvePodId ''db'' ''default'' psm_demo = Inr ''p2''"
proof -
  have d: "doc_inv psm_inv \<lparr>main_file = Doc psm_demo, tmp_file = Absent\<rparr>"
    by (simp add: doc_inv_def psm_demo_inv)
  have run: "main_file (psm_run [] \<lparr>main_file = Doc psm_demo, tmp_file = Absent\<rparr>) = Doc psm_demo"
    by (simp add: psm_run_def)
  show ?thesis
    using ResolvePodId_correct [OF d run, where j = "''p2''" and q = "demo_pod ''p2'' ''t1'' ''db''"]
    by (auto simp: psm_demo_def demo_pod_def GetPodById_def unambiguous_def)
qed

end
