(* ===== verification/Bsm.thy ===== *)
theory Bsm
  imports Keyed_Store
begin

text \<open>The bottle state store (\<open>src/internal/store/bsm\<close>).\<close>

subsection \<open>Data (model.go)\<close>

record ServiceSpec =
  ss_Image :: string
  ss_Command :: "string list"
  ss_Env :: "string list"
  ss_Ports :: "string list"
  ss_Mount :: "string list"
  ss_Network :: string
  ss_Tty :: bool
  DependsOn :: "string list"

record BottlePolicyInfo =
  bp_Id :: string
  bp_Type :: string
  bp_Source :: string
  bp_Destination :: string
  bp_Protocol :: string
  bp_DestPort :: int
  bp_Comment :: string

record BottleInfo =
  b_BottleId :: string
  b_BottleName :: string
  b_Services :: "(string, ServiceSpec) gomap"
  b_StartOrder :: "string list"
  b_Containers :: "(string, string) gomap"
  b_Policies :: "BottlePolicyInfo list"
  b_Network :: string
  b_NetworkAuto :: bool
  b_CreatedAt :: time

record BottleState =
  bs_Version :: string
  Bottles :: "(string, BottleInfo) gomap"

subsection \<open>The file (store.go)\<close>

definition bsm_initial :: BottleState where
  "bsm_initial = \<lparr>bs_Version = ''0.1.0'', Bottles = []\<rparr>"

definition bsm_loadOrInit :: "BottleState read \<Rightarrow> BottleState result" where
  "bsm_loadOrInit r =
     (case r of
        ReadNotExist e \<Rightarrow> Inr bsm_initial
      | ReadErr e \<Rightarrow> Inl e
      | ReadBytes None \<Rightarrow> Inl (Err ''bottle state json broken'')
      | ReadBytes (Some st) \<Rightarrow> Inr st)"

definition bsm_atomicSave :: "faults \<Rightarrow> BottleState \<Rightarrow> BottleState disk \<Rightarrow> unit result \<times> BottleState disk" where
  "bsm_atomicSave = atomic_save"

definition bsm_withLock where
  "bsm_withLock = with_lock bsm_loadOrInit"

definition bsm_withRLock where
  "bsm_withRLock = with_rlock bsm_loadOrInit"

definition SetBottleState :: "BottleState \<Rightarrow> BottleState result" where
  "SetBottleState st = Inr (st\<lparr>bs_Version := ''0.1.0''\<rparr>)"

subsection \<open>Operations (bsm.go)\<close>

definition StoreBottle ::
  "time \<Rightarrow> string \<Rightarrow> string \<Rightarrow> (string, ServiceSpec) gomap \<Rightarrow> string list \<Rightarrow> BottlePolicyInfo list \<Rightarrow>
   BottleState \<Rightarrow> BottleState result" where
  "StoreBottle now bottleId bottleName services startOrder policies st =
     Inr (st\<lparr>Bottles := mput bottleId
       \<lparr>b_BottleId = bottleId, b_BottleName = bottleName, b_Services = services, b_StartOrder = startOrder,
        b_Containers = [], b_Policies = policies, b_Network = '''', b_NetworkAuto = False, b_CreatedAt = now\<rparr>
       (Bottles st)\<rparr>)"

definition bottle_not_found :: "string \<Rightarrow> error" where
  "bottle_not_found bottleId = Err (''bottleId='' @ bottleId @ '' not found'')"

definition RemoveBottle :: "string \<Rightarrow> BottleState \<Rightarrow> BottleState result" where
  "RemoveBottle bottleId st =
     (case range_find (\<lambda>b. b_BottleId b = bottleId) (Bottles st) of
        Some (i, b) \<Rightarrow> Inr (st\<lparr>Bottles := mdel i (Bottles st)\<rparr>)
      | None \<Rightarrow> Inl (bottle_not_found bottleId))"

definition UpdateBottleContainers :: "string \<Rightarrow> (string, string) gomap \<Rightarrow> BottleState \<Rightarrow> BottleState result" where
  "UpdateBottleContainers bottleId containers st =
     (case map_of (Bottles st) bottleId of
        None \<Rightarrow> Inl (bottle_not_found bottleId)
      | Some b \<Rightarrow> Inr (st\<lparr>Bottles := mput bottleId (b\<lparr>b_Containers := containers\<rparr>) (Bottles st)\<rparr>))"

definition UpdateBottleContainer :: "string \<Rightarrow> string \<Rightarrow> string \<Rightarrow> BottleState \<Rightarrow> BottleState result" where
  "UpdateBottleContainer bottleId serviceName containerId st =
     (case map_of (Bottles st) bottleId of
        None \<Rightarrow> Inl (bottle_not_found bottleId)
      | Some b \<Rightarrow> Inr (st\<lparr>Bottles := mput bottleId
          (b\<lparr>b_Containers := mput serviceName containerId (b_Containers b)\<rparr>) (Bottles st)\<rparr>))"

definition UpdateBottleNetwork :: "string \<Rightarrow> string \<Rightarrow> bool \<Rightarrow> BottleState \<Rightarrow> BottleState result" where
  "UpdateBottleNetwork bottleId network auto_net st =
     (case map_of (Bottles st) bottleId of
        None \<Rightarrow> Inl (bottle_not_found bottleId)
      | Some b \<Rightarrow> Inr (st\<lparr>Bottles := mput bottleId
          (b\<lparr>b_Network := network, b_NetworkAuto := auto_net\<rparr>) (Bottles st)\<rparr>))"

definition GetBottleList :: "BottleState \<Rightarrow> BottleInfo list result" where
  "GetBottleList st = Inr (map snd (Bottles st))"

definition GetBottleById :: "string \<Rightarrow> BottleState \<Rightarrow> BottleInfo result" where
  "GetBottleById bottleId st =
     (case range_find (\<lambda>b. b_BottleId b = bottleId) (Bottles st) of
        Some (i, b) \<Rightarrow> Inr b
      | None \<Rightarrow> Inl (Err (''bottle: '' @ bottleId @ '' not found'')))"

definition GetBottleByName :: "string \<Rightarrow> BottleState \<Rightarrow> BottleInfo result" where
  "GetBottleByName bottleName st =
     (case range_find (\<lambda>b. b_BottleName b = bottleName) (Bottles st) of
        Some (i, b) \<Rightarrow> Inr b
      | None \<Rightarrow> Inl (Err (''bottle: '' @ bottleName @ '' not found'')))"

definition bsm_IsNameAlreadyUsed :: "string \<Rightarrow> BottleState \<Rightarrow> bool" where
  "bsm_IsNameAlreadyUsed name st = (range_find (\<lambda>b. b_BottleName b = name) (Bottles st) \<noteq> None)"

definition GetBottleIdByName :: "string \<Rightarrow> BottleState \<Rightarrow> string result" where
  "GetBottleIdByName name st =
     (case range_find (\<lambda>b. b_BottleName b = name) (Bottles st) of
        Some (i, b) \<Rightarrow> Inr (b_BottleId b)
      | None \<Rightarrow> Inl (Err (''bottle: '' @ name @ '' not found'')))"

definition GetBottleNameById :: "string \<Rightarrow> BottleState \<Rightarrow> string result" where
  "GetBottleNameById bottleId st =
     (case range_find (\<lambda>b. b_BottleId b = bottleId) (Bottles st) of
        Some (i, b) \<Rightarrow> Inr (b_BottleName b)
      | None \<Rightarrow> Inl (Err (''bottle: '' @ bottleId @ '' not found'')))"

definition GetBottleIdAndName :: "string \<Rightarrow> BottleState \<Rightarrow> (string \<times> string) result" where
  "GetBottleIdAndName str st =
     (case GetBottleIdByName str st of
        Inr bottleId \<Rightarrow> Inr (bottleId, str)
      | Inl _ \<Rightarrow> (case GetBottleNameById str st of
          Inr bottleName \<Rightarrow> Inr (str, bottleName)
        | Inl _ \<Rightarrow> Inl (Err (''bottle: '' @ str @ '' not found''))))"

definition ResolveBottleId :: "string \<Rightarrow> BottleState \<Rightarrow> string result" where
  "ResolveBottleId str st =
     (case GetBottleIdByName str st of
        Inr bottleId \<Rightarrow> Inr bottleId
      | Inl _ \<Rightarrow> (case GetBottleById str st of Inl e \<Rightarrow> Inl e | Inr b \<Rightarrow> Inr str))"

definition IsBottleExist :: "string \<Rightarrow> BottleState \<Rightarrow> bool" where
  "IsBottleExist str st = (is_ok (GetBottleIdByName str st) \<or> is_ok (GetBottleNameById str st))"

subsection \<open>Invariant\<close>

definition bsm_inv :: "BottleState \<Rightarrow> bool" where
  "bsm_inv st = keyed b_BottleId (Bottles st)"

lemma bsm_scan: "bsm_inv st \<Longrightarrow> range_find (\<lambda>b. b_BottleId b = i) (Bottles st) =
    map_option (\<lambda>b. (i, b)) (map_of (Bottles st) i)"
  unfolding bsm_inv_def by (rule keyed_scan)

lemma bsm_key: "bsm_inv st \<Longrightarrow> map_of (Bottles st) i = Some b \<Longrightarrow> b_BottleId b = i"
  unfolding bsm_inv_def by (rule keyed_map_of)

lemma bsm_put_inv:
  "bsm_inv st \<Longrightarrow> b_BottleId b = i \<Longrightarrow> bsm_inv (st\<lparr>Bottles := mput i b (Bottles st)\<rparr>)"
  by (auto simp: bsm_inv_def)

datatype bsm_op =
    Op_StoreBottle time string string "(string, ServiceSpec) gomap" "string list" "BottlePolicyInfo list"
  | Op_RemoveBottle string
  | Op_UpdateBottleContainers string "(string, string) gomap"
  | Op_UpdateBottleContainer string string string
  | Op_UpdateBottleNetwork string string bool
  | Op_SetBottleState

fun bsm_apply :: "bsm_op \<Rightarrow> BottleState \<Rightarrow> BottleState result" where
  "bsm_apply (Op_StoreBottle now i n s o' p) = StoreBottle now i n s o' p"
| "bsm_apply (Op_RemoveBottle i) = RemoveBottle i"
| "bsm_apply (Op_UpdateBottleContainers i m) = UpdateBottleContainers i m"
| "bsm_apply (Op_UpdateBottleContainer i s c) = UpdateBottleContainer i s c"
| "bsm_apply (Op_UpdateBottleNetwork i n a) = UpdateBottleNetwork i n a"
| "bsm_apply Op_SetBottleState = SetBottleState"

lemma bsm_apply_inv:
  assumes "bsm_inv st" "bsm_apply op st = Inr st'"
  shows "bsm_inv st'"
  using assms bsm_key [OF assms(1)]
  by (cases op) (auto simp: StoreBottle_def RemoveBottle_def UpdateBottleContainers_def
      UpdateBottleContainer_def UpdateBottleNetwork_def SetBottleState_def bsm_scan
      split: option.splits intro!: bsm_put_inv, auto simp: bsm_inv_def)

interpretation bsm_file: json_store bsm_loadOrInit "\<lambda>st. st" bsm_inv
  by unfold_locales (auto simp: bsm_loadOrInit_def bsm_initial_def bsm_inv_def)

interpretation bsm: keyed_store Bottles b_BottleId b_BottleName bsm_inv GetBottleById GetBottleIdByName
proof
  fix st i n and v :: BottleInfo
  show "bsm_inv st \<Longrightarrow> keyed b_BottleId (Bottles st)" by (simp add: bsm_inv_def)
  show "bsm_inv st \<Longrightarrow> GetBottleById i st = Inr v \<longleftrightarrow> map_of (Bottles st) i = Some v"
    by (simp add: GetBottleById_def bsm_scan split: option.splits)
  show "GetBottleIdByName n st = Inr i \<longleftrightarrow>
      (\<exists>k v. range_find (\<lambda>v. b_BottleName v = n) (Bottles st) = Some (k, v) \<and> b_BottleId v = i)"
    by (auto simp: GetBottleIdByName_def split: option.splits)
qed

definition bsm_run :: "(faults \<times> bsm_op) list \<Rightarrow> BottleState disk \<Rightarrow> BottleState disk" where
  "bsm_run ops = run_updates bsm_loadOrInit (map (\<lambda>(fl, op). (fl, bsm_apply op)) ops)"

lemma bsm_run_inv: "doc_inv bsm_inv d \<Longrightarrow> doc_inv bsm_inv (bsm_run ops d)"
  unfolding bsm_run_def by (rule bsm_file.run_updates_inv) (auto intro: bsm_apply_inv)

subsection \<open>Properties\<close>

text \<open>A bottle that is stored under a fresh name can be found by it, and containers recorded
  for its services are read back: after \<open>StoreBottle\<close> with an unused name and identifier, followed by
  \<open>UpdateBottleContainer\<close>, resolving the name gives the identifier, the record maps the service
  to the container, other bottles are unchanged, and \<open>RemoveBottle\<close> makes the name unknown again.\<close>

theorem bottle_lifecycle:
  assumes "bsm_inv st" "\<not> bsm_IsNameAlreadyUsed name st" "map_of (Bottles st) bid = None"
  shows "\<exists>stA stB stC b. StoreBottle now bid name services order policies st = Inr stA \<and>
    UpdateBottleContainer bid svc cid stA = Inr stB \<and> RemoveBottle bid stB = Inr stC \<and>
    ResolveBottleId name stB = Inr bid \<and> GetBottleById bid stB = Inr b \<and> b_StartOrder b = order \<and>
    b_Services b = services \<and> map_of (b_Containers b) = [svc \<mapsto> cid] \<and>
    (\<forall>i. i \<noteq> bid \<longrightarrow> GetBottleById i stB = GetBottleById i st) \<and>
    \<not> bsm_IsNameAlreadyUsed name stC \<and> map_of (Bottles stC) = map_of (Bottles st)"
proof -
  define b0 where "b0 = \<lparr>b_BottleId = bid, b_BottleName = name, b_Services = services, b_StartOrder = order,
        b_Containers = [], b_Policies = policies, b_Network = '''', b_NetworkAuto = False, b_CreatedAt = now\<rparr>"
  define b where "b = b0\<lparr>b_Containers := [(svc, cid)]\<rparr>"
  define stA where "stA = st\<lparr>Bottles := mput bid b0 (Bottles st)\<rparr>"
  define stB where "stB = stA\<lparr>Bottles := mput bid b (Bottles stA)\<rparr>"
  have a: "StoreBottle now bid name services order policies st = Inr stA"
    by (simp add: StoreBottle_def stA_def b0_def)
  have ub: "UpdateBottleContainer bid svc cid stA = Inr stB"
    by (simp add: UpdateBottleContainer_def stA_def stB_def b_def b0_def)
  have inv: "bsm_inv stA" "bsm_inv stB"
    using bsm_apply_inv [OF assms(1), of "Op_StoreBottle now bid name services order policies"] a
      bsm_apply_inv [of stA "Op_UpdateBottleContainer bid svc cid"] ub by simp_all
  have B: "map_of (Bottles stB) = (map_of (Bottles st))(bid \<mapsto> b)" by (simp add: stB_def stA_def)
  have get: "GetBottleById i s = (case map_of (Bottles s) i of Some b \<Rightarrow> Inr b
      | None \<Rightarrow> Inl (Err (''bottle: '' @ i @ '' not found'')))" if "bsm_inv s" for i s
    by (simp add: GetBottleById_def bsm_scan [OF that] split: option.splits)
  have fresh: "\<forall>(k, v) \<in> set (Bottles st). b_BottleName v \<noteq> name"
    using assms(2) by (auto simp: bsm_IsNameAlreadyUsed_def range_find_None)
  have "range_find (\<lambda>v. b_BottleName v = name) (Bottles stB) = Some (bid, b)"
  proof (rule range_find_unique)
    show "(bid, b) \<in> set (Bottles stB)" using B by (intro map_of_SomeD) simp
    show "b_BottleName b = name" by (simp add: b_def b0_def)
    fix k v assume kv: "(k, v) \<in> set (Bottles stB)" "b_BottleName v = name"
    then have "map_of (Bottles stB) k = Some v" using inv(2) by (simp add: bsm_inv_def keyed_mem)
    with B fresh kv show "(k, v) = (bid, b)" by (auto split: if_splits dest: map_of_SomeD)
  qed
  then have res: "ResolveBottleId name stB = Inr bid"
    by (simp add: ResolveBottleId_def GetBottleIdByName_def b_def b0_def)
  define stC where "stC = stB\<lparr>Bottles := mdel bid (Bottles stB)\<rparr>"
  have rm: "RemoveBottle bid stB = Inr stC"
    using B by (simp add: RemoveBottle_def bsm_scan [OF inv(2)] stC_def)
  have C: "map_of (Bottles stC) = map_of (Bottles st)" using B assms(3) by (simp add: stC_def fun_upd_idem)
  have "bsm_inv stC" using bsm_apply_inv [OF inv(2), of "Op_RemoveBottle bid"] rm by simp
  then have "set (Bottles stC) = set (Bottles st)"
    using C assms(1) keyed_set_eq unfolding bsm_inv_def by metis
  then have "\<not> bsm_IsNameAlreadyUsed name stC"
    using fresh by (simp add: bsm_IsNameAlreadyUsed_def range_find_None)
  with a ub rm res C B get [OF inv(2)] get [OF assms(1)] show ?thesis
    by (intro exI [of _ stA] exI [of _ stB] exI [of _ stC] exI [of _ b]) (auto simp: b_def b0_def)
qed

theorem bottle_lifecycle_witness:
  "\<exists>stA stB. StoreBottle 1 ''b1'' ''shop'' [] [''db'', ''web''] [] bsm_initial = Inr stA \<and>
     UpdateBottleContainer ''b1'' ''db'' ''c9'' stA = Inr stB \<and> ResolveBottleId ''shop'' stB = Inr ''b1''"
  using bottle_lifecycle [of bsm_initial "''shop''" "''b1''" 1 "[]" "[''db'', ''web'']" "[]" "''db''" "''c9''"]
  by (auto simp: bsm_initial_def bsm_inv_def bsm_IsNameAlreadyUsed_def)

end
