(* ===== verification/Ssm.thy ===== *)
theory Ssm
  imports Keyed_Store
begin

text \<open>The service state store (\<open>src/internal/store/ssm\<close>).\<close>

record ServicePort =
  sp_Port :: int
  sp_TargetPort :: int
  sp_Protocol :: string

record ServiceInfo =
  sv_ServiceId :: string
  sv_Name :: string
  sv_Namespace :: string
  sv_Selector :: "(string, string) gomap"
  sv_Ports :: "ServicePort list"
  sv_CreatedAt :: time

record ServiceState =
  sst_Version :: string
  Services :: "(string, ServiceInfo) gomap"

subsection \<open>The file (store.go)\<close>

definition ssm_initial :: ServiceState where
  "ssm_initial = \<lparr>sst_Version = ''0.1.0'', Services = []\<rparr>"

definition ssm_loadOrInit :: "ServiceState read \<Rightarrow> ServiceState result" where
  "ssm_loadOrInit r =
     (case r of
        ReadNotExist e \<Rightarrow> Inr ssm_initial
      | ReadErr e \<Rightarrow> Inl e
      | ReadBytes None \<Rightarrow> Inl (Err ''service state json broken'')
      | ReadBytes (Some st) \<Rightarrow> Inr st)"

definition ssm_atomicSave :: "faults \<Rightarrow> ServiceState \<Rightarrow> ServiceState disk \<Rightarrow> unit result \<times> ServiceState disk" where
  "ssm_atomicSave = atomic_save"

definition ssm_withLock where
  "ssm_withLock = with_lock ssm_loadOrInit"

definition ssm_withRLock where
  "ssm_withRLock = with_rlock ssm_loadOrInit"

definition SetServiceState :: "ServiceState \<Rightarrow> ServiceState result" where
  "SetServiceState st = Inr (st\<lparr>sst_Version := ''0.1.0''\<rparr>)"

subsection \<open>Operations (ssm.go)\<close>

definition StoreService :: "time \<Rightarrow> string \<Rightarrow> ServiceInfo \<Rightarrow> ServiceState \<Rightarrow> ServiceState result" where
  "StoreService now serviceId spec st =
     Inr (st\<lparr>Services := mput serviceId (spec\<lparr>sv_ServiceId := serviceId, sv_CreatedAt := now\<rparr>) (Services st)\<rparr>)"

definition GetServiceList :: "ServiceState \<Rightarrow> ServiceInfo list result" where
  "GetServiceList st = Inr (map snd (Services st))"

definition GetServiceById :: "string \<Rightarrow> ServiceState \<Rightarrow> ServiceInfo result" where
  "GetServiceById serviceId st =
     (case map_of (Services st) serviceId of
        None \<Rightarrow> Inl (Err (''serviceId='' @ serviceId @ '' not found''))
      | Some s \<Rightarrow> Inr s)"

definition RemoveService :: "string \<Rightarrow> ServiceState \<Rightarrow> ServiceState result" where
  "RemoveService serviceId st =
     (if map_of (Services st) serviceId = None
      then Inl (Err (''serviceId='' @ serviceId @ '' not found''))
      else Inr (st\<lparr>Services := mdel serviceId (Services st)\<rparr>))"

definition ssm_IsNameAlreadyUsed :: "string \<Rightarrow> string \<Rightarrow> ServiceState \<Rightarrow> bool" where
  "ssm_IsNameAlreadyUsed name namespace st =
     (range_find (\<lambda>s. sv_Name s = name \<and> sv_Namespace s = namespace) (Services st) \<noteq> None)"

subsection \<open>Invariant\<close>

definition ssm_inv :: "ServiceState \<Rightarrow> bool" where
  "ssm_inv st = keyed sv_ServiceId (Services st)"

datatype ssm_op = Op_StoreService time string ServiceInfo | Op_RemoveService string | Op_SetServiceState

fun ssm_apply :: "ssm_op \<Rightarrow> ServiceState \<Rightarrow> ServiceState result" where
  "ssm_apply (Op_StoreService now i s) = StoreService now i s"
| "ssm_apply (Op_RemoveService i) = RemoveService i"
| "ssm_apply Op_SetServiceState = SetServiceState"

lemma ssm_apply_inv: "ssm_inv st \<Longrightarrow> ssm_apply op st = Inr st' \<Longrightarrow> ssm_inv st'"
  by (cases op) (auto simp: ssm_inv_def StoreService_def RemoveService_def SetServiceState_def
      split: if_splits intro!: keyed_mput)

interpretation ssm_file: json_store ssm_loadOrInit "\<lambda>st. st" ssm_inv
  by unfold_locales (auto simp: ssm_loadOrInit_def ssm_initial_def ssm_inv_def)

definition ssm_run :: "(faults \<times> ssm_op) list \<Rightarrow> ServiceState disk \<Rightarrow> ServiceState disk" where
  "ssm_run ops = run_updates ssm_loadOrInit (map (\<lambda>(fl, op). (fl, ssm_apply op)) ops)"

lemma ssm_run_inv: "doc_inv ssm_inv d \<Longrightarrow> doc_inv ssm_inv (ssm_run ops d)"
  unfolding ssm_run_def by (rule ssm_file.run_updates_inv) (auto intro: ssm_apply_inv)

text \<open>A service that is stored is found by its identifier with the identifier and time filled
  in, its name counts as used in its namespace, every other service is unchanged, and removing
  it gives back the map from before when the identifier was new; removal fails exactly for
  unknown identifiers, and every document of a history is a map from identifiers to services
  that carry them.\<close>

theorem service_store_correct:
  assumes "doc_inv ssm_inv d" "main_file (ssm_run ops d) = Doc st"
  shows "keyed sv_ServiceId (Services st) \<and>
    (is_ok (RemoveService i st) \<longleftrightarrow> is_ok (GetServiceById i st)) \<and>
    (\<exists>st'. StoreService now i spec st = Inr st' \<and>
      GetServiceById i st' = Inr (spec\<lparr>sv_ServiceId := i, sv_CreatedAt := now\<rparr>) \<and>
      ssm_IsNameAlreadyUsed (sv_Name spec) (sv_Namespace spec) st' \<and>
      (\<forall>j. j \<noteq> i \<longrightarrow> GetServiceById j st' = GetServiceById j st) \<and>
      (\<exists>st''. RemoveService i st' = Inr st'' \<and>
        (\<not> is_ok (GetServiceById i st) \<longrightarrow> map_of (Services st'') = map_of (Services st))))"
proof -
  let ?s = "spec\<lparr>sv_ServiceId := i, sv_CreatedAt := now\<rparr>"
  have inv: "ssm_inv st" using ssm_run_inv [OF assms(1), of ops] assms(2) by (simp add: doc_inv_def)
  have "(i, ?s) \<in> set (mput i ?s (Services st))" by (rule map_of_SomeD) simp
  then have "ssm_IsNameAlreadyUsed (sv_Name spec) (sv_Namespace spec) (st\<lparr>Services := mput i ?s (Services st)\<rparr>)"
    unfolding ssm_IsNameAlreadyUsed_def by (intro range_find_hit [of i ?s]) auto
  then show ?thesis
    using inv by (auto simp: ssm_inv_def StoreService_def RemoveService_def GetServiceById_def fun_upd_idem
        split: option.splits)
qed

theorem service_store_correct_witness:
  "let spec = \<lparr>sv_ServiceId = '''', sv_Name = ''api'', sv_Namespace = ''default'', sv_Selector = [],
       sv_Ports = [], sv_CreatedAt = 0\<rparr> in
   \<exists>st'. StoreService 3 ''s1'' spec ssm_initial = Inr st' \<and>
     GetServiceById ''s1'' st' = Inr (spec\<lparr>sv_ServiceId := ''s1'', sv_CreatedAt := 3\<rparr>)"
proof -
  let ?d = "\<lparr>main_file = Doc ssm_initial, tmp_file = Absent\<rparr>"
  have d: "doc_inv ssm_inv ?d" by (simp add: doc_inv_def ssm_initial_def ssm_inv_def)
  have run: "main_file (ssm_run [] ?d) = Doc ssm_initial" by (simp add: ssm_run_def)
  show ?thesis unfolding Let_def using service_store_correct [OF d run] by blast
qed

end
