(* ===== verification/Ilm.thy ===== *)
theory Ilm
  imports Keyed_Store
begin

text \<open>
  The image layer store (\<open>src/internal/store/ilm\<close>): repositories and the references (tags) of
  each.  Nil and empty maps behave alike in every operation (\<open>StoreImage\<close> creates the map it
  writes to), so both are the empty association list.
\<close>

record ReferenceInfo =
  BundlePath :: string
  ConfigPath :: string
  RootfsPath :: string
  ri_CreatedAt :: time

record RepositoryInfo =
  References :: "(string, ReferenceInfo) gomap"

record ImageLayerState =
  il_Version :: string
  Repositories :: "(string, RepositoryInfo) gomap"

record ImageInfo =
  im_Repository :: string
  im_Reference :: string
  im_CreatedAt :: time

subsection \<open>The file (store.go)\<close>

definition ilm_initial :: ImageLayerState where
  "ilm_initial = \<lparr>il_Version = ''0.1.0'', Repositories = []\<rparr>"

definition ilm_loadOrInit :: "ImageLayerState read \<Rightarrow> ImageLayerState result" where
  "ilm_loadOrInit r =
     (case r of
        ReadNotExist e \<Rightarrow> Inr ilm_initial
      | ReadErr e \<Rightarrow> Inl e
      | ReadBytes None \<Rightarrow> Inl (Err ''image layer state json broken'')
      | ReadBytes (Some st) \<Rightarrow> Inr st)"

definition ilm_atomicSave :: "faults \<Rightarrow> ImageLayerState \<Rightarrow> ImageLayerState disk \<Rightarrow> unit result \<times> ImageLayerState disk" where
  "ilm_atomicSave = atomic_save"

definition ilm_withLock where
  "ilm_withLock = with_lock ilm_loadOrInit"

definition ilm_withRLock where
  "ilm_withRLock = with_rlock ilm_loadOrInit"

definition ilm_SetConfig :: "ImageLayerState \<Rightarrow> ImageLayerState result" where
  "ilm_SetConfig st = Inr (st\<lparr>il_Version := ''0.1.0''\<rparr>)"

subsection \<open>Operations (ilm.go)\<close>

definition StoreImage ::
  "time \<Rightarrow> string \<Rightarrow> string \<Rightarrow> string \<Rightarrow> string \<Rightarrow> string \<Rightarrow> ImageLayerState \<Rightarrow> ImageLayerState result" where
  "StoreImage now repository reference bundlePath configPath rootfsPath st =
     (let repoInfo = (case map_of (Repositories st) repository of Some r \<Rightarrow> r | None \<Rightarrow> \<lparr>References = []\<rparr>);
          info = \<lparr>BundlePath = bundlePath, ConfigPath = configPath, RootfsPath = rootfsPath, ri_CreatedAt = now\<rparr>;
          repoInfo' = repoInfo\<lparr>References := mput reference info (References repoInfo)\<rparr>
      in Inr (st\<lparr>Repositories := mput repository repoInfo' (Repositories st)\<rparr>))"

text \<open>\<open>st.Repositories[repository].References[reference]\<close> with \<open>ok\<close>.\<close>

definition find_image :: "string \<Rightarrow> string \<Rightarrow> ImageLayerState \<Rightarrow> ReferenceInfo option" where
  "find_image repository reference st =
     (case map_of (Repositories st) repository of
        None \<Rightarrow> None
      | Some repo \<Rightarrow> map_of (References repo) reference)"

definition image_not_found :: "string \<Rightarrow> string \<Rightarrow> error" where
  "image_not_found repository reference = Err (repository @ '':'' @ reference @ '' not found'')"

definition RemoveImage :: "string \<Rightarrow> string \<Rightarrow> ImageLayerState \<Rightarrow> ImageLayerState result" where
  "RemoveImage repository reference st =
     (case map_of (Repositories st) repository of
        None \<Rightarrow> Inl (image_not_found repository reference)
      | Some repo \<Rightarrow>
          if map_of (References repo) reference = None then Inl (image_not_found repository reference)
          else Inr (st\<lparr>Repositories := mput repository
            (repo\<lparr>References := mdel reference (References repo)\<rparr>) (Repositories st)\<rparr>))"

definition GetBundlePath :: "string \<Rightarrow> string \<Rightarrow> ImageLayerState \<Rightarrow> string result" where
  "GetBundlePath repository reference st =
     (let path = (case find_image repository reference st of None \<Rightarrow> '''' | Some r \<Rightarrow> BundlePath r)
      in if path = [] then Inl (Err ''bundle path not found.'') else Inr path)"

definition GetConfigPath :: "string \<Rightarrow> string \<Rightarrow> ImageLayerState \<Rightarrow> string result" where
  "GetConfigPath repository reference st =
     (let path = (case find_image repository reference st of None \<Rightarrow> '''' | Some r \<Rightarrow> ConfigPath r)
      in if path = [] then Inl (Err ''config path not found.'') else Inr path)"

definition GetRootfsPath :: "string \<Rightarrow> string \<Rightarrow> ImageLayerState \<Rightarrow> string result" where
  "GetRootfsPath repository reference st =
     (let path = (case find_image repository reference st of None \<Rightarrow> '''' | Some r \<Rightarrow> RootfsPath r)
      in if path = [] then Inl (Err ''bundle path not found.'') else Inr path)"

definition GetImageList :: "ImageLayerState \<Rightarrow> ImageInfo list result" where
  "GetImageList st =
     Inr (concat (map (\<lambda>(repo, refs). map (\<lambda>(ref, info).
       \<lparr>im_Repository = repo, im_Reference = ref, im_CreatedAt = ri_CreatedAt info\<rparr>) (References refs))
       (Repositories st)))"

definition GetImageInfo :: "string \<Rightarrow> string \<Rightarrow> ImageLayerState \<Rightarrow> ImageInfo result" where
  "GetImageInfo repository reference st =
     (case map_of (Repositories st) repository of
        None \<Rightarrow> Inl (image_not_found repository reference)
      | Some repo \<Rightarrow> (case map_of (References repo) reference of
          None \<Rightarrow> Inl (image_not_found repository reference)
        | Some r \<Rightarrow> Inr \<lparr>im_Repository = repository, im_Reference = reference, im_CreatedAt = ri_CreatedAt r\<rparr>))"

text \<open>
  The two nested scans for a repository and a reference; \<open>stat_ok\<close> tells whether \<open>os.Stat\<close> of a
  path succeeds.
\<close>

definition IsImageExist :: "(string \<Rightarrow> bool) \<Rightarrow> string \<Rightarrow> string \<Rightarrow> ImageLayerState \<Rightarrow> bool" where
  "IsImageExist stat_ok imageRepo imageRef st =
     (case List.find (\<lambda>((repo, ref), info). repo = imageRepo \<and> ref = imageRef)
         (concat (map (\<lambda>(repo, refs). map (\<lambda>(ref, info). ((repo, ref), info)) (References refs)) (Repositories st))) of
        None \<Rightarrow> False
      | Some (k, info) \<Rightarrow> ConfigPath info \<noteq> [] \<and> stat_ok (ConfigPath info))"

subsection \<open>Invariant and properties\<close>

definition ilm_inv :: "ImageLayerState \<Rightarrow> bool" where
  "ilm_inv st \<longleftrightarrow> mwf (Repositories st) \<and> (\<forall>(k, r) \<in> set (Repositories st). mwf (References r))"

datatype ilm_op = Op_StoreImage time string string string string string | Op_RemoveImage string string | Op_ilm_SetConfig

fun ilm_apply :: "ilm_op \<Rightarrow> ImageLayerState \<Rightarrow> ImageLayerState result" where
  "ilm_apply (Op_StoreImage now r t b c f) = StoreImage now r t b c f"
| "ilm_apply (Op_RemoveImage r t) = RemoveImage r t"
| "ilm_apply Op_ilm_SetConfig = ilm_SetConfig"

lemma ilm_put_inv:
  "ilm_inv st \<Longrightarrow> mwf (References r) \<Longrightarrow> ilm_inv (st\<lparr>Repositories := mput k r (Repositories st)\<rparr>)"
  using set_mput_subset [of k r "Repositories st"] by (auto simp: ilm_inv_def)

lemma ilm_repo_mwf: "ilm_inv st \<Longrightarrow> map_of (Repositories st) k = Some r \<Longrightarrow> mwf (References r)"
  by (auto simp: ilm_inv_def dest!: map_of_SomeD)

lemma ilm_apply_inv:
  assumes "ilm_inv st" "ilm_apply op st = Inr st'"
  shows "ilm_inv st'"
  using assms ilm_repo_mwf [OF assms(1)]
  by (cases op) (auto simp: StoreImage_def RemoveImage_def ilm_SetConfig_def Let_def split: option.splits if_splits
      intro!: ilm_put_inv, auto simp: ilm_inv_def)

interpretation ilm_file: json_store ilm_loadOrInit "\<lambda>st. st" ilm_inv
  by unfold_locales (auto simp: ilm_loadOrInit_def ilm_initial_def ilm_inv_def)

definition ilm_run :: "(faults \<times> ilm_op) list \<Rightarrow> ImageLayerState disk \<Rightarrow> ImageLayerState disk" where
  "ilm_run ops = run_updates ilm_loadOrInit (map (\<lambda>(fl, op). (fl, ilm_apply op)) ops)"

lemma ilm_run_inv: "doc_inv ilm_inv d \<Longrightarrow> doc_inv ilm_inv (ilm_run ops d)"
  unfolding ilm_run_def by (rule ilm_file.run_updates_inv) (auto intro: ilm_apply_inv)

lemma find_image_mem:
  assumes "ilm_inv st"
  shows "find_image r t st = Some info \<longleftrightarrow>
    (\<exists>repo. (r, repo) \<in> set (Repositories st) \<and> (t, info) \<in> set (References repo))"
proof -
  have m: "map_of (Repositories st) r = Some repo \<longleftrightarrow> (r, repo) \<in> set (Repositories st)" for repo
    using assms by (simp add: ilm_inv_def mwf_map_of_iff)
  have n: "map_of (References repo) t = Some info \<longleftrightarrow> (t, info) \<in> set (References repo)"
    if "(r, repo) \<in> set (Repositories st)" for repo
    using assms that by (auto simp: ilm_inv_def mwf_map_of_iff)
  show ?thesis unfolding find_image_def by (auto simp: n m [symmetric] split: option.splits)
qed

lemma image_entries:
  assumes "ilm_inv st"
  shows "((r, t), info) \<in> set (concat (map (\<lambda>(repo, refs). map (\<lambda>(ref, info). ((repo, ref), info)) (References refs))
      (Repositories st))) \<longleftrightarrow> find_image r t st = Some info"
  unfolding find_image_mem [OF assms] by force

lemma IsImageExist_view:
  assumes "ilm_inv st"
  shows "IsImageExist stat_ok r t st \<longleftrightarrow>
    (\<exists>info. find_image r t st = Some info \<and> ConfigPath info \<noteq> [] \<and> stat_ok (ConfigPath info))"
proof -
  let ?es = "concat (map (\<lambda>(repo, refs). map (\<lambda>(ref, info). ((repo, ref), info)) (References refs)) (Repositories st))"
  let ?f = "List.find (\<lambda>((repo, ref), info). repo = r \<and> ref = t) ?es"
  show ?thesis
  proof (cases ?f)
    case None
    then have "\<not> (\<exists>info. ((r, t), info) \<in> set ?es)" by (force simp: find_None_iff)
    then show ?thesis using None unfolding IsImageExist_def image_entries [OF assms] by simp
  next
    case (Some e)
    obtain r' t' info where e: "e = ((r', t'), info)" by (metis surj_pair)
    note f = find_SomeD [OF Some]
    have "r' = r" "t' = t" using conjunct2 [OF f] by (simp_all add: e)
    with conjunct1 [OF f] e have "((r, t), info) \<in> set ?es" "e = ((r, t), info)" by blast+
    then show ?thesis using Some unfolding IsImageExist_def image_entries [OF assms] by simp
  qed
qed

text \<open>The image store is a map from repository and reference to image data.  \<open>StoreImage\<close>
  changes exactly one entry, \<open>RemoveImage\<close> removes exactly one and fails exactly when it is
  missing, \<open>GetImageList\<close> lists exactly the stored images, and \<open>IsImageExist\<close> holds exactly for
  stored images whose configuration file is there.\<close>

theorem image_store_correct:
  assumes "ilm_inv st"
  shows "(\<exists>st'. StoreImage now r t b c f st = Inr st' \<and> ilm_inv st' \<and>
      (\<forall>r' t'. find_image r' t' st' = (if r' = r \<and> t' = t
         then Some \<lparr>BundlePath = b, ConfigPath = c, RootfsPath = f, ri_CreatedAt = now\<rparr> else find_image r' t' st))) \<and>
    (case RemoveImage r t st of
       Inr st' \<Rightarrow> ilm_inv st' \<and> find_image r t st \<noteq> None \<and>
         (\<forall>r' t'. find_image r' t' st' = (if r' = r \<and> t' = t then None else find_image r' t' st))
     | Inl e \<Rightarrow> find_image r t st = None) \<and>
    (\<exists>l. GetImageList st = Inr l \<and> (\<forall>i. i \<in> set l \<longleftrightarrow>
       (\<exists>info. find_image (im_Repository i) (im_Reference i) st = Some info \<and> im_CreatedAt i = ri_CreatedAt info))) \<and>
    (IsImageExist stat_ok r t st \<longleftrightarrow>
       (\<exists>info. find_image r t st = Some info \<and> ConfigPath info \<noteq> [] \<and> stat_ok (ConfigPath info)))"
proof (intro conjI)
  show "\<exists>st'. StoreImage now r t b c f st = Inr st' \<and> ilm_inv st' \<and>
      (\<forall>r' t'. find_image r' t' st' = (if r' = r \<and> t' = t
         then Some \<lparr>BundlePath = b, ConfigPath = c, RootfsPath = f, ri_CreatedAt = now\<rparr> else find_image r' t' st))"
  proof -
    obtain st' where s: "StoreImage now r t b c f st = Inr st'" by (simp add: StoreImage_def Let_def)
    have "ilm_inv st'" using ilm_apply_inv [OF assms, of "Op_StoreImage now r t b c f"] s by simp
    with s show ?thesis
      by (auto simp: StoreImage_def find_image_def Let_def split: option.splits if_splits)
  qed
  show "case RemoveImage r t st of
       Inr st' \<Rightarrow> ilm_inv st' \<and> find_image r t st \<noteq> None \<and>
         (\<forall>r' t'. find_image r' t' st' = (if r' = r \<and> t' = t then None else find_image r' t' st))
     | Inl e \<Rightarrow> find_image r t st = None"
  proof (cases "RemoveImage r t st")
    case (Inr st')
    then have "ilm_inv st'" using ilm_apply_inv [OF assms, of "Op_RemoveImage r t"] by simp
    with Inr show ?thesis
      by (auto simp: RemoveImage_def find_image_def split: option.splits if_splits)
  qed (auto simp: RemoveImage_def find_image_def split: option.splits if_splits)
  have mem: "(\<exists>k repo t' info. (k, repo) \<in> set (Repositories st) \<and> (t', info) \<in> set (References repo) \<and>
      i = \<lparr>im_Repository = k, im_Reference = t', im_CreatedAt = ri_CreatedAt info\<rparr>) \<longleftrightarrow>
      (\<exists>info. find_image (im_Repository i) (im_Reference i) st = Some info \<and> im_CreatedAt i = ri_CreatedAt info)"
    for i :: ImageInfo
    unfolding find_image_mem [OF assms] by (cases i) auto
  show "\<exists>l. GetImageList st = Inr l \<and> (\<forall>i. i \<in> set l \<longleftrightarrow>
       (\<exists>info. find_image (im_Repository i) (im_Reference i) st = Some info \<and> im_CreatedAt i = ri_CreatedAt info))"
    unfolding GetImageList_def mem [symmetric] by fastforce
  show "IsImageExist stat_ok r t st \<longleftrightarrow>
       (\<exists>info. find_image r t st = Some info \<and> ConfigPath info \<noteq> [] \<and> stat_ok (ConfigPath info))"
    by (rule IsImageExist_view [OF assms])
qed

theorem image_store_correct_witness:
  "\<exists>st'. StoreImage 4 ''alpine'' ''latest'' ''/b'' ''/c'' ''/r'' ilm_initial = Inr st' \<and>
     find_image ''alpine'' ''latest'' st' =
       Some \<lparr>BundlePath = ''/b'', ConfigPath = ''/c'', RootfsPath = ''/r'', ri_CreatedAt = 4\<rparr>"
proof -
  have "ilm_inv ilm_initial" by (simp add: ilm_inv_def ilm_initial_def)
  from conjunct1 [OF image_store_correct [OF this, of 4 "''alpine''" "''latest''" "''/b''" "''/c''" "''/r''"]]
  show ?thesis by auto
qed

end
