(* ===== verification/Npm.thy ===== *)
theory Npm
  imports File_Store
begin

text \<open>
  The network policy store (\<open>src/internal/store/npm\<close>): the candidate policy file, its three
  ordered policy lists, and the copy of the policy in force (\<open>.running\<close>) that commit and revert
  use.
\<close>

subsection \<open>Data (model.go)\<close>

record HostInfo =
  h_ContainerName :: string
  h_Address :: string

record Policy =
  pol_Id :: string
  pol_Status :: string
  pol_Reason :: string
  pol_Source :: HostInfo
  pol_Destination :: HostInfo
  pol_Protocol :: string
  pol_DestPort :: int
  pol_Comment :: string

record PolicyMode =
  pm_Mode :: string
  pm_Logging :: bool

record DefaultPolicy =
  EastWest :: PolicyMode
  NorthSouth :: PolicyMode

record PolicyChain =
  EastWestPolicy :: "Policy list"
  NorthSouthObservePolicy :: "Policy list"
  NorthSouthEnforcePolicy :: "Policy list"

record NetworkPolicy =
  np_Version :: string
  DefaultRule :: DefaultPolicy
  Policies :: PolicyChain

subsection \<open>The file (store.go)\<close>

definition npm_initial :: NetworkPolicy where
  "npm_initial = \<lparr>np_Version = ''v1'',
     DefaultRule = \<lparr>EastWest = \<lparr>pm_Mode = ''deny_by_default'', pm_Logging = True\<rparr>,
       NorthSouth = \<lparr>pm_Mode = ''observe'', pm_Logging = True\<rparr>\<rparr>,
     Policies = \<lparr>EastWestPolicy = [], NorthSouthObservePolicy = [], NorthSouthEnforcePolicy = []\<rparr>\<rparr>"

definition npm_loadOrInit :: "NetworkPolicy read \<Rightarrow> NetworkPolicy result" where
  "npm_loadOrInit r =
     (case r of
        ReadNotExist e \<Rightarrow> Inr npm_initial
      | ReadErr e \<Rightarrow> Inl e
      | ReadBytes None \<Rightarrow> Inl (Err ''network policy json broken'')
      | ReadBytes (Some np) \<Rightarrow> Inr np)"

definition npm_atomicSave :: "faults \<Rightarrow> NetworkPolicy \<Rightarrow> NetworkPolicy disk \<Rightarrow> unit result \<times> NetworkPolicy disk" where
  "npm_atomicSave = atomic_save"

definition npm_withLock where
  "npm_withLock = with_lock npm_loadOrInit"

definition npm_withRLock where
  "npm_withRLock = with_rlock npm_loadOrInit"

text \<open>The policy file with its \<open>.running\<close> and \<open>.org\<close> siblings.\<close>

record npm_files = "NetworkPolicy disk" +
  running_file :: "NetworkPolicy content"
  org_file :: "NetworkPolicy content"

text \<open>Which calls of \<open>Backup\<close> and \<open>Revert\<close> fail.\<close>

record npm_faults =
  nf_open :: "error option"
  nf_create :: "error option"
  nf_copy :: "error option"
  nf_rename_org :: "error option"
  nf_rename_run :: "error option"
  nf_remove :: "error option"

definition npm_no_faults :: npm_faults where
  "npm_no_faults = \<lparr>nf_open = None, nf_create = None, nf_copy = None, nf_rename_org = None,
     nf_rename_run = None, nf_remove = None\<rparr>"

text \<open>Opening creates an empty file before the copy fills it: a failing copy leaves \<open>Garbage\<close>.\<close>

definition Backup :: "npm_faults \<Rightarrow> npm_files \<Rightarrow> unit result \<times> npm_files" where
  "Backup fl d =
     (case nf_open fl of Some e \<Rightarrow> (Inl e, d)
      | None \<Rightarrow> if main_file d = Absent then (Inl no_such_file, d)
      else (case nf_create fl of Some e \<Rightarrow> (Inl e, d)
      | None \<Rightarrow> (case nf_copy fl of
          Some e \<Rightarrow> (Inl e, d\<lparr>running_file := Garbage\<rparr>)
        | None \<Rightarrow> (Inr (), d\<lparr>running_file := main_file d\<rparr>))))"

definition Revert :: "npm_faults \<Rightarrow> npm_files \<Rightarrow> unit result \<times> npm_files" where
  "Revert fl d =
     (case nf_rename_org fl of Some e \<Rightarrow> (Inl e, d)
      | None \<Rightarrow> if main_file d = Absent then (Inl no_such_file, d)
      else let d1 = d\<lparr>main_file := Absent, org_file := main_file d\<rparr> in
       (case nf_rename_run fl of Some e \<Rightarrow> (Inl e, d1)
        | None \<Rightarrow> if running_file d1 = Absent then (Inl no_such_file, d1)
        else let d2 = d1\<lparr>main_file := running_file d1, running_file := Absent\<rparr> in
         (case Backup fl d2 of
            (Inl e, d3) \<Rightarrow> (Inl e, d3)
          | (Inr u, d3) \<Rightarrow> (case nf_remove fl of
              Some e \<Rightarrow> (Inl e, d3)
            | None \<Rightarrow> (Inr (), d3\<lparr>org_file := Absent\<rparr>)))))"

definition SetNetworkPolicy_fn :: "NetworkPolicy \<Rightarrow> NetworkPolicy result" where
  "SetNetworkPolicy_fn np = Inr (np\<lparr>np_Version := ''v1''\<rparr>)"

text \<open>The error of the update is overwritten by that of \<open>Backup\<close>.\<close>

definition SetNetworkPolicy :: "faults \<Rightarrow> npm_faults \<Rightarrow> npm_files \<Rightarrow> unit result \<times> npm_files" where
  "SetNetworkPolicy fl nfl d =
     (let (r, d1) = with_lock npm_loadOrInit fl (upd SetNetworkPolicy_fn)
                      \<lparr>main_file = main_file d, tmp_file = tmp_file d\<rparr>
      in Backup nfl (d\<lparr>main_file := main_file d1, tmp_file := tmp_file d1\<rparr>))"

subsection \<open>Operations (npm.go)\<close>

definition GetEWMode :: "NetworkPolicy \<Rightarrow> string" where
  "GetEWMode np = pm_Mode (EastWest (DefaultRule np))"

definition GetNSMode :: "NetworkPolicy \<Rightarrow> string" where
  "GetNSMode np = pm_Mode (NorthSouth (DefaultRule np))"

definition GetEWLogging :: "NetworkPolicy \<Rightarrow> bool" where
  "GetEWLogging np = pm_Logging (EastWest (DefaultRule np))"

definition GetNSLogging :: "NetworkPolicy \<Rightarrow> bool" where
  "GetNSLogging np = pm_Logging (NorthSouth (DefaultRule np))"

definition IsNsEnforce :: "NetworkPolicy \<Rightarrow> bool" where
  "IsNsEnforce np = (pm_Mode (NorthSouth (DefaultRule np)) = ''enforce'')"

definition GetEWPolicyList :: "NetworkPolicy \<Rightarrow> Policy list" where
  "GetEWPolicyList np = EastWestPolicy (Policies np)"

definition GetNSObsPolicyList :: "NetworkPolicy \<Rightarrow> Policy list" where
  "GetNSObsPolicyList np = NorthSouthObservePolicy (Policies np)"

definition GetNSEnfPolicyList :: "NetworkPolicy \<Rightarrow> Policy list" where
  "GetNSEnfPolicyList np = NorthSouthEnforcePolicy (Policies np)"

definition policy_not_found :: "string \<Rightarrow> error" where
  "policy_not_found policyId = Err (''ID: '' @ policyId @ '' not found'')"

definition has_policy :: "string \<Rightarrow> Policy list \<Rightarrow> bool" where
  "has_policy policyId ps = (\<exists>p \<in> set ps. pol_Id p = policyId)"

definition GetPolicyChain :: "string \<Rightarrow> NetworkPolicy \<Rightarrow> string result" where
  "GetPolicyChain policyId np =
     (if has_policy policyId (EastWestPolicy (Policies np)) then Inr ''RAIND-EW''
      else if has_policy policyId (NorthSouthObservePolicy (Policies np)) then Inr ''RAIND-NS-OBS''
      else if has_policy policyId (NorthSouthEnforcePolicy (Policies np)) then Inr ''RAIND-NS-ENF''
      else Inl (policy_not_found policyId))"

definition AddPolicy :: "string \<Rightarrow> Policy \<Rightarrow> NetworkPolicy \<Rightarrow> NetworkPolicy result" where
  "AddPolicy chainName policy np =
     (let c = Policies np in
      if chainName = ''RAIND-EW'' then Inr (np\<lparr>Policies := c\<lparr>EastWestPolicy := EastWestPolicy c @ [policy]\<rparr>\<rparr>)
      else if chainName = ''RAIND-NS-OBS''
        then Inr (np\<lparr>Policies := c\<lparr>NorthSouthObservePolicy := NorthSouthObservePolicy c @ [policy]\<rparr>\<rparr>)
      else if chainName = ''RAIND-NS-ENF''
        then Inr (np\<lparr>Policies := c\<lparr>NorthSouthEnforcePolicy := NorthSouthEnforcePolicy c @ [policy]\<rparr>\<rparr>)
      else Inl (Err (''Chain: '' @ chainName @ '' is invalid'')))"

text \<open>\<open>append(ps[:i], ps[i+1:]...)\<close> at the first policy with the identifier.\<close>

fun drop_policy :: "string \<Rightarrow> Policy list \<Rightarrow> Policy list" where
  "drop_policy policyId [] = []"
| "drop_policy policyId (p # ps) = (if pol_Id p = policyId then ps else p # drop_policy policyId ps)"

definition RemovePolicy :: "string \<Rightarrow> NetworkPolicy \<Rightarrow> NetworkPolicy result" where
  "RemovePolicy policyId np =
     (let c = Policies np in
      if has_policy policyId (EastWestPolicy c)
        then Inr (np\<lparr>Policies := c\<lparr>EastWestPolicy := drop_policy policyId (EastWestPolicy c)\<rparr>\<rparr>)
      else if has_policy policyId (NorthSouthObservePolicy c)
        then Inr (np\<lparr>Policies := c\<lparr>NorthSouthObservePolicy := drop_policy policyId (NorthSouthObservePolicy c)\<rparr>\<rparr>)
      else if has_policy policyId (NorthSouthEnforcePolicy c)
        then Inr (np\<lparr>Policies := c\<lparr>NorthSouthEnforcePolicy := drop_policy policyId (NorthSouthEnforcePolicy c)\<rparr>\<rparr>)
      else Inl (policy_not_found policyId))"

fun set_status :: "string \<Rightarrow> string \<Rightarrow> string \<Rightarrow> Policy list \<Rightarrow> Policy list option" where
  "set_status policyId status reason [] = None"
| "set_status policyId status reason (p # ps) =
     (if pol_Id p = policyId then Some (p\<lparr>pol_Status := status, pol_Reason := reason\<rparr> # ps)
      else map_option ((#) p) (set_status policyId status reason ps))"

definition UpdateStatus :: "string \<Rightarrow> string \<Rightarrow> string \<Rightarrow> string \<Rightarrow> NetworkPolicy \<Rightarrow> NetworkPolicy result" where
  "UpdateStatus chainName policyId status reason np =
     (let c = Policies np; missing = Inl (policy_not_found policyId) in
      if chainName = ''RAIND-EW'' then
        (case set_status policyId status reason (EastWestPolicy c) of None \<Rightarrow> missing
         | Some ps \<Rightarrow> Inr (np\<lparr>Policies := c\<lparr>EastWestPolicy := ps\<rparr>\<rparr>))
      else if chainName = ''RAIND-NS-OBS'' then
        (case set_status policyId status reason (NorthSouthObservePolicy c) of None \<Rightarrow> missing
         | Some ps \<Rightarrow> Inr (np\<lparr>Policies := c\<lparr>NorthSouthObservePolicy := ps\<rparr>\<rparr>))
      else if chainName = ''RAIND-NS-ENF'' then
        (case set_status policyId status reason (NorthSouthEnforcePolicy c) of None \<Rightarrow> missing
         | Some ps \<Rightarrow> Inr (np\<lparr>Policies := c\<lparr>NorthSouthEnforcePolicy := ps\<rparr>\<rparr>))
      else missing)"

definition ChangeNSMode :: "string \<Rightarrow> NetworkPolicy \<Rightarrow> NetworkPolicy result" where
  "ChangeNSMode mode np =
     Inr (np\<lparr>DefaultRule := (DefaultRule np)\<lparr>NorthSouth := (NorthSouth (DefaultRule np))\<lparr>pm_Mode := mode\<rparr>\<rparr>\<rparr>)"

subsection \<open>Invariant\<close>

definition chain_ids :: "NetworkPolicy \<Rightarrow> string list" where
  "chain_ids np = map pol_Id (EastWestPolicy (Policies np) @ NorthSouthObservePolicy (Policies np) @
     NorthSouthEnforcePolicy (Policies np))"

definition npm_inv :: "NetworkPolicy \<Rightarrow> bool" where
  "npm_inv np = distinct (chain_ids np)"

datatype npm_op = Op_AddPolicy string Policy | Op_RemovePolicy string | Op_UpdateStatus string string string string
  | Op_ChangeNSMode string | Op_SetNetworkPolicy

text \<open>
  The service that calls \<open>AddPolicy\<close> makes up a new identifier (a ULID): an addition with an
  identifier that is in use is not a run of the program and is refused here.
\<close>

fun npm_apply :: "npm_op \<Rightarrow> NetworkPolicy \<Rightarrow> NetworkPolicy result" where
  "npm_apply (Op_AddPolicy c p) np =
     (if pol_Id p \<in> set (chain_ids np) then Inl (Err ''identifier in use'') else AddPolicy c p np)"
| "npm_apply (Op_RemovePolicy i) np = RemovePolicy i np"
| "npm_apply (Op_UpdateStatus c i s r) np = UpdateStatus c i s r np"
| "npm_apply (Op_ChangeNSMode m) np = ChangeNSMode m np"
| "npm_apply Op_SetNetworkPolicy np = SetNetworkPolicy_fn np"

lemma has_policy_ids: "has_policy i ps \<longleftrightarrow> i \<in> set (map pol_Id ps)"
  by (auto simp: has_policy_def)

lemma drop_policy_ids: "map pol_Id (drop_policy i ps) = remove1 i (map pol_Id ps)"
  by (induction ps) auto

lemma set_status_ids: "set_status i s r ps = Some qs \<Longrightarrow> map pol_Id qs = map pol_Id ps"
  by (induction ps arbitrary: qs) (auto split: if_splits)

lemma set_status_None: "set_status i s r ps = None \<longleftrightarrow> \<not> has_policy i ps"
  by (induction ps) (auto simp: has_policy_def)

lemma distinct_remove1_parts:
  "distinct (xs @ ys @ zs) \<Longrightarrow> distinct (remove1 i xs @ ys @ zs) \<and> distinct (xs @ remove1 i ys @ zs) \<and>
    distinct (xs @ ys @ remove1 i zs)"
  by (auto dest: in_set_remove1 [THEN iffD1, rotated] notin_set_remove1 set_remove1_subset [THEN subsetD])

lemma npm_apply_inv:
  assumes "npm_inv np" "npm_apply op np = Inr np'"
  shows "npm_inv np'"
proof -
  have d: "distinct (map pol_Id (EastWestPolicy (Policies np)) @ map pol_Id (NorthSouthObservePolicy (Policies np)) @
      map pol_Id (NorthSouthEnforcePolicy (Policies np)))"
    using assms(1) by (simp add: npm_inv_def chain_ids_def)
  show ?thesis
  proof (cases op)
    case (Op_RemovePolicy i)
    let ?a = "map pol_Id (EastWestPolicy (Policies np))"
      and ?b = "map pol_Id (NorthSouthObservePolicy (Policies np))"
      and ?c = "map pol_Id (NorthSouthEnforcePolicy (Policies np))"
    have "chain_ids np' = remove1 i ?a @ ?b @ ?c \<or> chain_ids np' = ?a @ remove1 i ?b @ ?c \<or>
        chain_ids np' = ?a @ ?b @ remove1 i ?c"
      using Op_RemovePolicy assms(2)
      by (auto simp: RemovePolicy_def chain_ids_def drop_policy_ids Let_def split: if_splits)
    then show ?thesis unfolding npm_inv_def using distinct_remove1_parts [OF d, of i] by metis
  next
    case (Op_UpdateStatus c i s r)
    with assms(2) have "chain_ids np' = chain_ids np"
      by (auto simp: UpdateStatus_def chain_ids_def Let_def set_status_ids split: if_splits option.splits)
    with assms(1) show ?thesis by (simp add: npm_inv_def)
  next
    case (Op_AddPolicy c p)
    let ?a = "map pol_Id (EastWestPolicy (Policies np))"
      and ?b = "map pol_Id (NorthSouthObservePolicy (Policies np))"
      and ?c = "map pol_Id (NorthSouthEnforcePolicy (Policies np))"
    have new: "pol_Id p \<notin> set (?a @ ?b @ ?c)" and add: "AddPolicy c p np = Inr np'"
      using Op_AddPolicy assms(2) by (simp_all add: chain_ids_def split: if_splits)
    from add have "chain_ids np' = (?a @ [pol_Id p]) @ ?b @ ?c \<or> chain_ids np' = ?a @ (?b @ [pol_Id p]) @ ?c \<or>
        chain_ids np' = ?a @ ?b @ (?c @ [pol_Id p])"
      by (auto simp: AddPolicy_def chain_ids_def Let_def split: if_splits)
    moreover have "distinct ((?a @ [pol_Id p]) @ ?b @ ?c)" "distinct (?a @ (?b @ [pol_Id p]) @ ?c)"
      "distinct (?a @ ?b @ (?c @ [pol_Id p]))"
      using d new by (simp_all add: Int_Un_distrib Int_insert_right)
    ultimately show ?thesis unfolding npm_inv_def by metis
  next
    case (Op_ChangeNSMode m)
    with assms have "chain_ids np' = chain_ids np" by (auto simp: chain_ids_def ChangeNSMode_def)
    with assms(1) show ?thesis by (simp add: npm_inv_def)
  next
    case Op_SetNetworkPolicy
    with assms have "chain_ids np' = chain_ids np" by (auto simp: chain_ids_def SetNetworkPolicy_fn_def)
    with assms(1) show ?thesis by (simp add: npm_inv_def)
  qed
qed

interpretation npm_file: json_store npm_loadOrInit "\<lambda>np. np" npm_inv
  by unfold_locales (auto simp: npm_loadOrInit_def npm_initial_def npm_inv_def chain_ids_def)

definition npm_run :: "(faults \<times> npm_op) list \<Rightarrow> NetworkPolicy disk \<Rightarrow> NetworkPolicy disk" where
  "npm_run ops = run_updates npm_loadOrInit (map (\<lambda>(fl, op). (fl, npm_apply op)) ops)"

lemma npm_run_inv: "doc_inv npm_inv d \<Longrightarrow> doc_inv npm_inv (npm_run ops d)"
  unfolding npm_run_def by (rule npm_file.run_updates_inv) (auto intro: npm_apply_inv)

subsection \<open>Properties\<close>

lemma drop_policy_snoc: "\<not> has_policy (pol_Id p) ps \<Longrightarrow> drop_policy (pol_Id p) (ps @ [p]) = ps"
  by (induction ps) (auto simp: has_policy_def)

text \<open>Adding a policy with a new identifier to one of the three chains puts it at the end of
  that chain and nowhere else, \<open>GetPolicyChain\<close> then finds it there, and \<open>RemovePolicy\<close> restores the
  policy document exactly; any other chain name is refused.\<close>

theorem AddPolicy_RemovePolicy:
  assumes "pol_Id p \<notin> set (chain_ids np)"
  shows "case AddPolicy chain p np of
      Inr np' \<Rightarrow> chain \<in> {''RAIND-EW'', ''RAIND-NS-OBS'', ''RAIND-NS-ENF''} \<and>
        GetPolicyChain (pol_Id p) np' = Inr chain \<and> RemovePolicy (pol_Id p) np' = Inr np \<and>
        GetEWPolicyList np' = GetEWPolicyList np @ (if chain = ''RAIND-EW'' then [p] else []) \<and>
        GetNSObsPolicyList np' = GetNSObsPolicyList np @ (if chain = ''RAIND-NS-OBS'' then [p] else []) \<and>
        GetNSEnfPolicyList np' = GetNSEnfPolicyList np @ (if chain = ''RAIND-NS-ENF'' then [p] else [])
    | Inl e \<Rightarrow> chain \<notin> {''RAIND-EW'', ''RAIND-NS-OBS'', ''RAIND-NS-ENF''}"
proof -
  let ?i = "pol_Id p" and ?c = "Policies np"
  have no: "\<not> has_policy ?i (EastWestPolicy ?c)" "\<not> has_policy ?i (NorthSouthObservePolicy ?c)"
    "\<not> has_policy ?i (NorthSouthEnforcePolicy ?c)"
    using assms by (auto simp: has_policy_ids chain_ids_def)
  have app: "has_policy ?i (ps @ [p])" for ps by (simp add: has_policy_def)
  show ?thesis
    using no app drop_policy_snoc [of p]
    by (auto simp: AddPolicy_def GetPolicyChain_def RemovePolicy_def GetEWPolicyList_def GetNSObsPolicyList_def
        GetNSEnfPolicyList_def Let_def split: sum.splits if_splits)
qed

definition demo_policy :: "string \<Rightarrow> Policy" where
  "demo_policy i = \<lparr>pol_Id = i, pol_Status = ''pending'', pol_Reason = '''',
     pol_Source = \<lparr>h_ContainerName = ''web'', h_Address = ''''\<rparr>,
     pol_Destination = \<lparr>h_ContainerName = ''db'', h_Address = ''''\<rparr>,
     pol_Protocol = ''tcp'', pol_DestPort = 5432, pol_Comment = ''''\<rparr>"

theorem AddPolicy_RemovePolicy_witness:
  "case AddPolicy ''RAIND-EW'' (demo_policy ''p1'') npm_initial of
     Inr np' \<Rightarrow> GetPolicyChain ''p1'' np' = Inr ''RAIND-EW'' \<and> RemovePolicy ''p1'' np' = Inr npm_initial
   | Inl e \<Rightarrow> False"
proof -
  have "pol_Id (demo_policy ''p1'') \<notin> set (chain_ids npm_initial)"
    by (simp add: chain_ids_def npm_initial_def)
  from AddPolicy_RemovePolicy [OF this, of "''RAIND-EW''"] show ?thesis
    by (simp add: demo_policy_def split: sum.splits)
qed

text \<open>Running edits on the policy file leaves the copy of the policy in force alone.\<close>

definition edit_policy :: "(faults \<times> npm_op) list \<Rightarrow> npm_files \<Rightarrow> npm_files" where
  "edit_policy ops d =
     (let d' = npm_run ops \<lparr>main_file = main_file d, tmp_file = tmp_file d\<rparr>
      in d\<lparr>main_file := main_file d', tmp_file := tmp_file d'\<rparr>)"

lemma run_updates_not_Absent:
  "main_file d \<noteq> Absent \<Longrightarrow> main_file (run_updates load us d) \<noteq> Absent"
proof (induction us arbitrary: d)
  case (Cons u us)
  obtain fl f where u: "u = (fl, f)" by (cases u)
  have "main_file (snd (with_lock load fl (upd f) d)) \<noteq> Absent"
    using Cons.prems by (cases rule: with_lock_cases [of load fl d "upd f"]) auto
  with Cons.IH u show ?case by simp
qed simp

lemma edit_policy_files:
  "running_file (edit_policy ops d) = running_file d"
  "main_file d \<noteq> Absent \<Longrightarrow> main_file (edit_policy ops d) \<noteq> Absent"
  by (simp_all add: edit_policy_def Let_def npm_run_def run_updates_not_Absent)

text \<open>Revert gives back the policy in force.  After a successful \<open>Backup\<close> of a policy document and
  any history of edits with any faults, a \<open>Revert\<close> without faults makes the policy file hold that
  document again, keeps the copy of it and leaves no \<open>.org\<close> file; and when calls of \<open>Revert\<close> fail,
  the document still is in the policy file or in the copy.\<close>

theorem Revert_restores:
  assumes "main_file d = Doc np" "Backup nfl d = (Inr (), d1)" "d2 = edit_policy ops d1"
  shows "(case Revert npm_no_faults d2 of (r, d3) \<Rightarrow>
      r = Inr () \<and> main_file d3 = Doc np \<and> running_file d3 = Doc np \<and> org_file d3 = Absent) \<and>
    (case Revert nfl' d2 of (r, d3) \<Rightarrow> main_file d3 = Doc np \<or> running_file d3 = Doc np)"
proof -
  have b: "running_file d1 = Doc np" "main_file d1 = Doc np"
    using assms(1,2) by (auto simp: Backup_def split: option.splits if_splits)
  have r: "running_file d2 = Doc np" "main_file d2 \<noteq> Absent"
    using b edit_policy_files [where d = d1 and ops = ops] assms(3) by simp_all
  show ?thesis
    using r by (auto simp: Revert_def Backup_def npm_no_faults_def Let_def split: option.splits)
qed

theorem Revert_restores_witness:
  "case Revert npm_no_faults (edit_policy [(no_faults, Op_ChangeNSMode ''enforce'')]
      \<lparr>main_file = Doc npm_initial, tmp_file = Absent, running_file = Doc npm_initial, org_file = Absent\<rparr>)
   of (r, d3) \<Rightarrow> main_file d3 = Doc npm_initial"
proof -
  let ?d = "\<lparr>main_file = Doc npm_initial, tmp_file = Absent, running_file = Absent, org_file = Absent\<rparr>"
  have m: "main_file ?d = Doc npm_initial" by simp
  have b: "Backup npm_no_faults ?d = (Inr (), ?d\<lparr>running_file := Doc npm_initial\<rparr>)"
    by (simp add: Backup_def npm_no_faults_def)
  show ?thesis using Revert_restores [OF m b refl, where ops = "[(no_faults, Op_ChangeNSMode ''enforce'')]"]
    by (auto split: prod.splits)
qed

end
