(* ===== verification/Start_Order.thy ===== *)
theory Start_Order
  imports Bsm Go_Text
begin

text \<open>
  The start order of a bottle's services (\<open>BuildStartOrder\<close> in
  \<open>src/internal/core/bottle/service.go\<close>): Kahn's algorithm over the \<open>depends_on\<close> lists.

  The specification's \<open>ServiceSpec\<close> has the fields of the one in the bottle store, whose record
  is used.  The order of \<open>bs_Services\<close> is the order in which the loops over \<open>spec.Services\<close> visit
  it, and \<open>visit\<close> is the order in which the loop over \<open>inDegree\<close> visits its keys: the two are
  independent in Go.
\<close>

record BottleSpec =
  bs_Name :: string
  bs_Services :: "(string, ServiceSpec) gomap"
  bs_Policies :: "BottlePolicyInfo list"

text \<open>The checks of \<open>DecodeSpec\<close> on a decoded document; \<open>decoded\<close> is what the YAML library returns.\<close>

definition DecodeSpec :: "BottleSpec result \<Rightarrow> BottleSpec result" where
  "DecodeSpec decoded =
     bind_res decoded (\<lambda>spec.
       if bs_Name spec = [] then Inl (Err ''bottle.name is required'')
       else if bs_Services spec = [] then Inl (Err ''services is required'')
       else Inr spec)"

subsection \<open>The algorithm\<close>

text \<open>\<open>m[k]\<close> of an int map and of a slice map: the zero value when missing.\<close>

definition deg :: "(string, int) gomap \<Rightarrow> string \<Rightarrow> int" where
  "deg d n = (case map_of d n of None \<Rightarrow> 0 | Some v \<Rightarrow> v)"

definition succs :: "(string, string list) gomap \<Rightarrow> string \<Rightarrow> string list" where
  "succs g n = (case map_of g n of None \<Rightarrow> [] | Some l \<Rightarrow> l)"

fun add_deps ::
  "(string, ServiceSpec) gomap \<Rightarrow> string \<Rightarrow> string list \<Rightarrow> (string, int) gomap \<Rightarrow> (string, string list) gomap \<Rightarrow>
   ((string, int) gomap \<times> (string, string list) gomap) result" where
  "add_deps services svcName [] d g = Inr (d, g)"
| "add_deps services svcName (dep # deps) d g =
     (if map_of services dep = None
      then Inl (Err (''service '' @ svcName @ '' depends on unknown service '' @ dep))
      else add_deps services svcName deps (mput svcName (deg d svcName + 1) d)
             (mput dep (succs g dep @ [svcName]) g))"

fun add_services ::
  "(string, ServiceSpec) gomap \<Rightarrow> (string \<times> ServiceSpec) list \<Rightarrow> (string, int) gomap \<Rightarrow> (string, string list) gomap \<Rightarrow>
   ((string, int) gomap \<times> (string, string list) gomap) result" where
  "add_services services [] d g = Inr (d, g)"
| "add_services services ((svcName, svc) # ss) d g =
     bind_res (add_deps services svcName (DependsOn svc) d g) (\<lambda>(d', g'). add_services services ss d' g')"

text \<open>The inner loop over \<open>graph[n]\<close>.\<close>

fun relax :: "string list \<Rightarrow> string list \<Rightarrow> (string, int) gomap \<Rightarrow> string list \<times> (string, int) gomap" where
  "relax [] queue d = (queue, d)"
| "relax (s # ns) queue d =
     (let v = deg d s - 1 in relax ns (if v = 0 then queue @ [s] else queue) (mput s v d))"

text \<open>The work list loop terminates: a service is queued only when its positive degree drops.\<close>

definition pending :: "(string, int) gomap \<Rightarrow> nat" where
  "pending d = sum_list (map (nat \<circ> snd) d)"

lemma pending_mput: "pending (mput n v d) + nat (deg d n) = pending d + nat v"
  by (induction d) (auto simp: pending_def deg_def split: option.splits)

lemma relax_pending: "relax ns q d = (q', d') \<Longrightarrow> pending d' + length q' \<le> pending d + length q"
proof (induction ns arbitrary: q d)
  case Nil
  then show ?case by simp
next
  case (Cons n ns)
  define v where "v = deg d n - 1"
  have "relax ns (if v = 0 then q @ [n] else q) (mput n v d) = (q', d')"
    using Cons.prems by (simp add: v_def Let_def)
  from Cons.IH [OF this] have "pending d' + length q' \<le>
      pending (mput n v d) + length (if v = 0 then q @ [n] else q)" .
  moreover have "pending (mput n v d) + (if v = 0 then 1 else 0) \<le> pending d"
    using pending_mput [of n v d] by (auto simp: v_def)
  ultimately show ?case by (auto split: if_splits)
qed

function kahn :: "(string, string list) gomap \<Rightarrow> string list \<Rightarrow> (string, int) gomap \<Rightarrow> string list \<Rightarrow> string list" where
  "kahn g [] d order = order"
| "kahn g (n # queue) d order =
     (case relax (succs g n) queue d of (queue', d') \<Rightarrow> kahn g queue' d' (order @ [n]))"
  by pat_completeness auto
termination
  by (relation "measure (\<lambda>(g, queue, d, order). pending d + length queue)")
    (auto dest!: relax_pending [OF sym])

definition BuildStartOrder :: "string list \<Rightarrow> BottleSpec \<Rightarrow> string list result" where
  "BuildStartOrder visit spec =
     (let services = bs_Services spec;
          inDegree0 = map (\<lambda>(n, svc). (n, 0)) services
      in bind_res (add_services services services inDegree0 []) (\<lambda>(inDegree, graph).
           let order = kahn graph (filter (\<lambda>n. deg inDegree n = 0) visit) inDegree []
           in if length order \<noteq> length services then Inl (Err ''dependency cycle detected'')
              else Inr order))"

subsection \<open>What one pass over the successors does\<close>

lemma deg_mput [simp]: "deg (mput n v d) m = (if m = n then v else deg d m)"
  by (simp add: deg_def)

lemma succs_mput [simp]: "succs (mput n v g) m = (if m = n then v else succs g m)"
  by (simp add: succs_def)

lemma relax_deg: "relax ns q d = (q', d') \<Longrightarrow> deg d' s = deg d s - int (count_list ns s)"
  by (induction ns arbitrary: q d) (auto simp: Let_def split: if_splits)

lemma relax_queue:
  "relax ns q d = (q', d') \<Longrightarrow>
   \<exists>new. q' = q @ new \<and> distinct new \<and> set new = {s. 1 \<le> deg d s \<and> deg d s \<le> int (count_list ns s)}"
proof (induction ns arbitrary: q d)
  case Nil
  then show ?case by (intro exI [of _ "[]"]) auto
next
  case (Cons n ns)
  define v where "v = deg d n - 1"
  let ?d = "mput n v d" and ?q = "if v = 0 then q @ [n] else q"
  have "relax ns ?q ?d = (q', d')" using Cons.prems by (simp add: v_def Let_def)
  from Cons.IH [OF this] obtain new where new: "q' = ?q @ new" "distinct new"
    "set new = {s. 1 \<le> deg ?d s \<and> deg ?d s \<le> int (count_list ns s)}" by blast
  let ?S = "{s. 1 \<le> deg d s \<and> deg d s \<le> int (count_list (n # ns) s)}"
  have mem: "s \<in> ?S \<longleftrightarrow> s \<in> set new \<or> v = 0 \<and> s = n" for s
    unfolding new(3) by (cases "s = n") (auto simp: v_def)
  show ?case
  proof (cases "v = 0")
    case True
    then have "n \<notin> set new" using new(3) by simp
    moreover have "set (n # new) = ?S" using mem True by auto
    ultimately show ?thesis using True new(1,2) by (intro exI [of _ "n # new"]) simp
  next
    case False
    then have "set new = ?S" using mem by auto
    with False new(1,2) show ?thesis by (intro exI [of _ new]) simp
  qed
qed

subsection \<open>The invariant of the work list loop\<close>

definition kahn_inv ::
  "string set \<Rightarrow> (string, string list) gomap \<Rightarrow> string list \<Rightarrow> (string, int) gomap \<Rightarrow> string list \<Rightarrow> bool" where
  "kahn_inv N g queue d order \<longleftrightarrow>
     distinct (order @ queue) \<and> set (order @ queue) \<subseteq> N \<and>
     (\<forall>s \<in> N. deg d s = (\<Sum>n \<in> N - set order. int (count_list (succs g n) s))) \<and>
     (\<forall>s \<in> N. s \<in> set (order @ queue) \<longleftrightarrow> deg d s = 0) \<and>
     (\<forall>i < length order. \<forall>n \<in> N. order ! i \<in> set (succs g n) \<longrightarrow> n \<in> set (take i order))"

lemma count_pos: "0 < count_list xs x \<longleftrightarrow> x \<in> set xs"
  by (metis count_list_0_iff gr0I less_irrefl)

lemma kahn_inv_step:
  assumes fin: "finite N" and sub: "\<forall>n \<in> N. set (succs g n) \<subseteq> N"
    and inv: "kahn_inv N g (n # q) d order" and r: "relax (succs g n) q d = (q', d')"
  shows "kahn_inv N g q' d' (order @ [n])"
proof -
  let ?c = "\<lambda>m s. int (count_list (succs g m) s)"
  from inv have dist: "distinct (order @ n # q)" and subN: "set (order @ n # q) \<subseteq> N"
    and sum: "\<And>s. s \<in> N \<Longrightarrow> deg d s = (\<Sum>m \<in> N - set order. ?c m s)"
    and zero: "\<And>s. s \<in> N \<Longrightarrow> s \<in> set (order @ n # q) \<longleftrightarrow> deg d s = 0"
    and prec: "\<forall>i < length order. \<forall>m \<in> N. order ! i \<in> set (succs g m) \<longrightarrow> m \<in> set (take i order)"
    by (auto simp: kahn_inv_def)
  have n: "n \<in> N - set order" using dist subN by auto
  have ge: "?c m s \<le> deg d s" if "m \<in> N - set order" "s \<in> N" for m s
    unfolding sum [OF that(2)] using fin that(1) by (intro member_le_sum) auto
  obtain new where new: "q' = q @ new" "distinct new" "set new = {s. 1 \<le> deg d s \<and> deg d s \<le> ?c n s}"
    using relax_queue [OF r] by blast
  have newN: "set new \<subseteq> N"
  proof
    fix s assume "s \<in> set new"
    then have "0 < count_list (succs g n) s" using new(3) by simp
    then show "s \<in> N" using sub n by (auto simp: count_pos)
  qed
  have sum': "deg d' s = (\<Sum>m \<in> N - set (order @ [n]). ?c m s)" if s: "s \<in> N" for s
  proof -
    have "N - set (order @ [n]) = N - set order - {n}" by auto
    then show ?thesis
      using relax_deg [OF r, of s] sum [OF s] n fin by (simp add: sum_diff1)
  qed
  have zero': "s \<in> set (order @ n # q @ new) \<longleftrightarrow> deg d' s = 0" if s: "s \<in> N" for s
  proof (cases "s \<in> set (order @ n # q)")
    case True
    then have "deg d s = 0" using zero [OF s] by simp
    with ge [OF n s] relax_deg [OF r, of s] True show ?thesis by auto
  next
    case False
    then have "deg d s \<noteq> 0" using zero [OF s] by simp
    with ge [OF n s] have "1 \<le> deg d s" by simp
    with False ge [OF n s] relax_deg [OF r, of s] new(3) show ?thesis by auto
  qed
  have "set (order @ n # q) \<inter> set new = {}" using zero subN newN new(3) by fastforce
  with dist new(2) have dist': "distinct (order @ n # q @ new)" by auto
  have "m \<in> set order" if m: "m \<in> N" "n \<in> set (succs g m)" for m
  proof (rule ccontr)
    assume "m \<notin> set order"
    then have "?c m n \<le> deg d n" using m n by (intro ge) auto
    moreover have "deg d n = 0" using zero [of n] n by simp
    ultimately show False using m(2) count_pos [of "succs g m" n] by simp
  qed
  then have "\<forall>i < length (order @ [n]). \<forall>m \<in> N. (order @ [n]) ! i \<in> set (succs g m) \<longrightarrow> m \<in> set (take i (order @ [n]))"
    using prec by (auto simp: less_Suc_eq nth_append)
  with dist' subN newN sum' zero' new(1) show ?thesis by (auto simp: kahn_inv_def)
qed

lemma kahn_inv_end:
  "finite N \<Longrightarrow> \<forall>n \<in> N. set (succs g n) \<subseteq> N \<Longrightarrow> kahn_inv N g queue d order \<Longrightarrow>
   \<exists>d'. kahn_inv N g [] d' (kahn g queue d order)"
proof (induction g queue d order rule: kahn.induct)
  case (1 g d order)
  then show ?case by auto
next
  case (2 g n queue d order)
  obtain q' d' where r: "relax (succs g n) queue d = (q', d')" by fastforce
  have "kahn_inv N g q' d' (order @ [n])" by (rule kahn_inv_step [OF "2.prems" r])
  from "2.IH" [OF r [symmetric] "2.prems"(1,2) this] r show ?case by simp
qed

subsection \<open>Building the graph\<close>

definition all_known :: "(string, ServiceSpec) gomap \<Rightarrow> (string \<times> ServiceSpec) list \<Rightarrow> bool" where
  "all_known services ss \<longleftrightarrow> (\<forall>(s, svc) \<in> set ss. \<forall>dep \<in> set (DependsOn svc). map_of services dep \<noteq> None)"

lemma add_deps_ok:
  "\<forall>dep \<in> set deps. map_of services dep \<noteq> None \<Longrightarrow>
   \<exists>d' g'. add_deps services svc deps d g = Inr (d', g') \<and>
     (\<forall>s. deg d' s = deg d s + (if s = svc then int (length deps) else 0)) \<and>
     (\<forall>n s. count_list (succs g' n) s = count_list (succs g n) s + (if s = svc then count_list deps n else 0))"
proof (induction deps arbitrary: d g)
  case Nil
  then show ?case by simp
next
  case (Cons dep deps)
  from Cons.IH [of "mput svc (deg d svc + 1) d" "mput dep (succs g dep @ [svc]) g"] Cons.prems
  obtain d' g' where dg: "add_deps services svc deps (mput svc (deg d svc + 1) d) (mput dep (succs g dep @ [svc]) g) = Inr (d', g')"
    and d: "\<forall>s. deg d' s = deg (mput svc (deg d svc + 1) d) s + (if s = svc then int (length deps) else 0)"
    and g: "\<forall>n s. count_list (succs g' n) s = count_list (succs (mput dep (succs g dep @ [svc]) g) n) s +
      (if s = svc then count_list deps n else 0)"
    by auto
  from dg have "add_deps services svc (dep # deps) d g = Inr (d', g')" using Cons.prems by simp
  moreover have "\<forall>s. deg d' s = deg d s + (if s = svc then int (length (dep # deps)) else 0)" using d by auto
  moreover have "\<forall>n s. count_list (succs g' n) s = count_list (succs g n) s + (if s = svc then count_list (dep # deps) n else 0)"
    using g by auto
  ultimately show ?case by blast
qed

lemma add_deps_err:
  "\<exists>dep \<in> set deps. map_of services dep = None \<Longrightarrow> \<exists>m. add_deps services svc deps d g = Inl (Err m)"
  by (induction deps arbitrary: d g) auto

lemma add_services_ok:
  "all_known services ss \<Longrightarrow> distinct (map fst ss) \<Longrightarrow>
   \<exists>d' g'. add_services services ss d g = Inr (d', g') \<and>
     (\<forall>s. deg d' s = deg d s + (case map_of ss s of Some svc \<Rightarrow> int (length (DependsOn svc)) | None \<Rightarrow> 0)) \<and>
     (\<forall>n s. count_list (succs g' n) s = count_list (succs g n) s +
        (case map_of ss s of Some svc \<Rightarrow> count_list (DependsOn svc) n | None \<Rightarrow> 0))"
proof (induction ss arbitrary: d g)
  case Nil
  then show ?case by simp
next
  case (Cons e ss)
  obtain t svc where e: "e = (t, svc)" by (cases e)
  have "\<forall>dep \<in> set (DependsOn svc). map_of services dep \<noteq> None"
    using Cons.prems(1) e by (auto simp: all_known_def)
  from add_deps_ok [OF this, of t d g] obtain d1 g1 where 1: "add_deps services t (DependsOn svc) d g = Inr (d1, g1)"
    "\<forall>s. deg d1 s = deg d s + (if s = t then int (length (DependsOn svc)) else 0)"
    "\<forall>n s. count_list (succs g1 n) s = count_list (succs g n) s + (if s = t then count_list (DependsOn svc) n else 0)"
    by blast
  from Cons.IH [of d1 g1] Cons.prems e obtain d' g' where 2: "add_services services ss d1 g1 = Inr (d', g')"
    "\<forall>s. deg d' s = deg d1 s + (case map_of ss s of Some svc \<Rightarrow> int (length (DependsOn svc)) | None \<Rightarrow> 0)"
    "\<forall>n s. count_list (succs g' n) s = count_list (succs g1 n) s +
        (case map_of ss s of Some svc \<Rightarrow> count_list (DependsOn svc) n | None \<Rightarrow> 0)"
    by (auto simp: all_known_def)
  have t: "map_of ss t = None" using Cons.prems(2) e by (simp add: map_of_eq_None_iff)
  show ?case
    using 1 2 e t by (intro exI [of _ d'] exI [of _ g']) auto
qed

lemma add_services_err:
  "\<not> all_known services ss \<Longrightarrow> \<exists>m. add_services services ss d g = Inl (Err m)"
proof (induction ss arbitrary: d g)
  case Nil
  then show ?case by (simp add: all_known_def)
next
  case (Cons e ss)
  obtain t svc where e: "e = (t, svc)" by (cases e)
  show ?case
  proof (cases "\<exists>dep \<in> set (DependsOn svc). map_of services dep = None")
    case True
    from add_deps_err [OF this, of t d g] e show ?thesis by auto
  next
    case False
    then have "\<not> all_known services ss" using Cons.prems e by (auto simp: all_known_def)
    moreover from False obtain d1 g1 where "add_deps services t (DependsOn svc) d g = Inr (d1, g1)"
      using add_deps_ok [of "DependsOn svc" services t d g] by auto
    ultimately show ?thesis using Cons.IH [of d1 g1] e by simp
  qed
qed

subsection \<open>Properties\<close>

text \<open>\<open>(dep, s)\<close>: service \<open>s\<close> lists \<open>dep\<close> in its \<open>depends_on\<close>.\<close>

definition depends :: "(string, ServiceSpec) gomap \<Rightarrow> (string \<times> string) set" where
  "depends services = {(dep, s). \<exists>svc. map_of services s = Some svc \<and> dep \<in> set (DependsOn svc)}"

lemma ordered_acyclic:
  assumes "distinct order" "\<And>i n. i < length order \<Longrightarrow> (n, order ! i) \<in> R \<Longrightarrow> n \<in> set (take i order)"
    and "\<And>n s. (n, s) \<in> R \<Longrightarrow> s \<in> set order"
  shows "acyclic R"
proof -
  define pos where "pos s = (THE i. i < length order \<and> order ! i = s)" for s
  have pos: "pos (order ! i) = i" if "i < length order" for i
    unfolding pos_def by (rule the_equality) (use that assms(1) nth_eq_iff_index_eq in auto)
  have "pos n < pos s" if "(n, s) \<in> R" for n s
  proof -
    from assms(3) [OF that] obtain i where i: "i < length order" "s = order ! i" by (auto simp: in_set_conv_nth)
    then have "n \<in> set (take i order)" using assms(2) that by blast
    then obtain j where "j < i" "n = order ! j" using i(1) by (auto simp: in_set_conv_nth)
    with i pos [of i] pos [of j] show ?thesis by simp
  qed
  then have "R \<subseteq> measure pos" by auto
  then show ?thesis using wf_subset [OF wf_measure] wf_acyclic by blast
qed

lemma BuildStartOrder_graph:
  assumes wf: "mwf (bs_Services spec)" and known: "all_known (bs_Services spec) (bs_Services spec)"
    and visit: "distinct visit" "set visit = set (mkeys (bs_Services spec))"
  obtains g order d where "BuildStartOrder visit spec =
      (if length order \<noteq> length (bs_Services spec) then Inl (Err ''dependency cycle detected'') else Inr order)"
    "kahn_inv (set visit) g [] d order"
    "\<forall>n s. s \<in> set (succs g n) \<longleftrightarrow> (n, s) \<in> depends (bs_Services spec)"
proof -
  let ?S = "bs_Services spec" and ?N = "set visit" and ?d0 = "map (\<lambda>(n, svc). (n, 0 :: int)) (bs_Services spec)"
  have d0: "deg (map (\<lambda>(n, svc). (n, 0 :: int)) S) s = 0" for s and S :: "(string, ServiceSpec) gomap"
    by (induction S) (auto simp: deg_def)
  from add_services_ok [OF known, of ?d0 "[]"] wf obtain d g where add: "add_services ?S ?S ?d0 [] = Inr (d, g)"
    and d: "\<And>s. deg d s = (case map_of ?S s of Some svc \<Rightarrow> int (length (DependsOn svc)) | None \<Rightarrow> 0)"
    and g: "\<And>n s. count_list (succs g n) s = (case map_of ?S s of Some svc \<Rightarrow> count_list (DependsOn svc) n | None \<Rightarrow> 0)"
    by (auto simp: mwf_def d0 succs_def)
  have dep: "s \<in> set (succs g n) \<longleftrightarrow> (n, s) \<in> depends ?S" for n s
    using count_pos [of "succs g n" s] unfolding g depends_def
    by (auto simp: count_pos split: option.splits)
  have sub: "\<forall>n \<in> ?N. set (succs g n) \<subseteq> ?N"
    using visit(2) by (force simp: dep depends_def dest: map_of_SomeD)
  have len: "length xs = (\<Sum>n \<in> ?N. count_list xs n)" if "set xs \<subseteq> ?N" for xs
    using sum_count_set [OF that] by simp
  let ?q = "filter (\<lambda>n. deg d n = 0) visit"
  have "kahn_inv ?N g ?q d []"
  proof -
    have "deg d s = (\<Sum>n \<in> ?N. int (count_list (succs g n) s))" if s: "s \<in> ?N" for s
    proof -
      obtain svc where svc: "map_of ?S s = Some svc"
        using s visit(2) by (metis map_of_eq_None_iff not_Some_eq set_map)
      then have "set (DependsOn svc) \<subseteq> ?N"
        using known visit(2) by (fastforce simp: all_known_def map_of_eq_None_iff dest!: map_of_SomeD)
      with svc len show ?thesis unfolding d g by (simp flip: of_nat_sum)
    qed
    then show ?thesis using visit by (auto simp: kahn_inv_def)
  qed
  then obtain d' where inv: "kahn_inv ?N g [] d' (kahn g ?q d [])"
    using kahn_inv_end [OF _ sub] by blast
  show thesis
  proof (rule that)
    show "BuildStartOrder visit spec = (if length (kahn g ?q d []) \<noteq> length ?S
        then Inl (Err ''dependency cycle detected'') else Inr (kahn g ?q d []))"
      using add by (simp add: BuildStartOrder_def Let_def)
  qed (use inv dep in auto)
qed

text \<open>C2: \<open>BuildStartOrder\<close> is a topological sort.  For every visiting order of the maps it succeeds
  exactly when every dependency is a service of the bottle and the dependencies have no cycle, and then it
  returns every service exactly once, each after all services it depends on.\<close>

theorem BuildStartOrder_correct:
  assumes wf: "mwf (bs_Services spec)" and visit: "distinct visit" "set visit = set (mkeys (bs_Services spec))"
  shows "case BuildStartOrder visit spec of
      Inr order \<Rightarrow> distinct order \<and> set order = set (mkeys (bs_Services spec)) \<and>
        (\<forall>i < length order. \<forall>svc. map_of (bs_Services spec) (order ! i) = Some svc \<longrightarrow>
           set (DependsOn svc) \<subseteq> set (take i order)) \<and>
        acyclic (depends (bs_Services spec)) \<and> all_known (bs_Services spec) (bs_Services spec)
    | Inl e \<Rightarrow> (\<exists>m. e = Err m) \<and>
        (\<not> all_known (bs_Services spec) (bs_Services spec) \<or> \<not> acyclic (depends (bs_Services spec)))"
proof (cases "all_known (bs_Services spec) (bs_Services spec)")
  case False
  obtain m where "add_services (bs_Services spec) (bs_Services spec)
      (map (\<lambda>(n, svc). (n, 0)) (bs_Services spec)) [] = Inl (Err m)"
    using add_services_err [OF False] by blast
  with False show ?thesis by (simp add: BuildStartOrder_def Let_def)
next
  case known: True
  let ?S = "bs_Services spec" and ?N = "set visit"
  obtain g order d where b: "BuildStartOrder visit spec =
      (if length order \<noteq> length ?S then Inl (Err ''dependency cycle detected'') else Inr order)"
    and inv: "kahn_inv ?N g [] d order" and dep: "\<forall>n s. s \<in> set (succs g n) \<longleftrightarrow> (n, s) \<in> depends ?S"
    by (rule BuildStartOrder_graph [OF wf known visit]) blast
  have N: "card ?N = length ?S" "?N = fst ` set ?S"
    using wf visit(2) distinct_card [of "map fst ?S"] by (simp_all add: mwf_def)
  have depN: "n \<in> ?N \<and> s \<in> ?N" if "(n, s) \<in> depends ?S" for n s
    using that known unfolding N(2)
    by (fastforce simp: depends_def all_known_def map_of_eq_None_iff dest: map_of_SomeD intro: rev_image_eqI)
  have ord: "distinct order" "set order \<subseteq> ?N"
    "\<And>i n. i < length order \<Longrightarrow> (n, order ! i) \<in> depends ?S \<Longrightarrow> n \<in> set (take i order)"
    using inv depN by (auto simp: kahn_inv_def dep)
  have full: "length order = length ?S \<longleftrightarrow> set order = ?N"
    using ord(1,2) N(1) by (metis card_subset_eq distinct_card finite_set)
  show ?thesis
  proof (cases "set order = ?N")
    case True
    have "acyclic (depends ?S)"
      by (rule ordered_acyclic [OF ord(1) ord(3)]) (use True depN in auto)
    moreover have "set (DependsOn svc) \<subseteq> set (take i order)"
      if "i < length order" "map_of ?S (order ! i) = Some svc" for i svc
      using ord(3) [OF that(1)] that(2) by (auto simp: depends_def)
    ultimately show ?thesis using True full b ord(1) known N(2) by auto
  next
    case False
    let ?M = "?N - set order"
    have pred: "\<exists>n \<in> ?M. (n, s) \<in> depends ?S" if s: "s \<in> ?M" for s
    proof -
      have "deg d s \<noteq> 0" and "deg d s = (\<Sum>n \<in> ?M. int (count_list (succs g n) s))"
        using inv s by (auto simp: kahn_inv_def)
      then have "\<not> (\<forall>n \<in> ?M. int (count_list (succs g n) s) = 0)" using sum.neutral by metis
      then obtain n where "n \<in> ?M" "s \<in> set (succs g n)" by (auto simp: count_list_0_iff)
      then show ?thesis using dep by blast
    qed
    have "\<not> acyclic (depends ?S)"
    proof
      assume acyc: "acyclic (depends ?S)"
      have "finite (depends ?S)" by (rule finite_subset [of _ "?N \<times> ?N"]) (use depN in auto)
      then have "wf (depends ?S)" using acyc by (rule finite_acyclic_wf)
      moreover obtain z where "z \<in> ?M" using False ord(2) by blast
      ultimately obtain m where "m \<in> ?M" "\<And>y. (y, m) \<in> depends ?S \<Longrightarrow> y \<notin> ?M" by (rule wfE_min) blast
      with pred show False by blast
    qed
    with False full b show ?thesis by auto
  qed
qed

definition demo_svc :: "string list \<Rightarrow> ServiceSpec" where
  "demo_svc deps = \<lparr>ss_Image = ''img'', ss_Command = [], ss_Env = [], ss_Ports = [], ss_Mount = [],
     ss_Network = [], ss_Tty = False, DependsOn = deps\<rparr>"

definition demo_spec :: BottleSpec where
  "demo_spec = \<lparr>bs_Name = ''shop'', bs_Services = [(''web'', demo_svc [''api'']), (''api'', demo_svc [''db'', ''db'']),
     (''db'', demo_svc [])], bs_Policies = []\<rparr>"

lemma demo_order: "BuildStartOrder [''api'', ''db'', ''web''] demo_spec = Inr [''db'', ''api'', ''web'']"
  by (simp add: BuildStartOrder_def demo_spec_def demo_svc_def deg_def succs_def)

theorem BuildStartOrder_correct_witness:
  "acyclic (depends (bs_Services demo_spec)) \<and>
   BuildStartOrder [''api'', ''db'', ''web''] demo_spec = Inr [''db'', ''api'', ''web'']"
proof -
  have "mwf (bs_Services demo_spec)" "distinct [''api'', ''db'', ''web'']"
    "set [''api'', ''db'', ''web''] = set (mkeys (bs_Services demo_spec))"
    by (auto simp: mwf_def demo_spec_def)
  from BuildStartOrder_correct [OF this] show ?thesis by (simp add: demo_order)
qed

end
