(* ===== verification/Dns.thy ===== *)
theory Dns
  imports Ipam Csm
begin

text \<open>
  The DNS proxy (\<open>src/internal/dns\<close>): the response cache, the exchange with the upstream
  servers, the request handler and the client lookup of the query log.

  A \<open>*dns.Msg\<close> of the DNS library is the record of the fields the code reads or writes;
  \<open>m_edns\<close> is what \<open>IsEdns0\<close> finds (the DO bit of the OPT record).  Library functions
  (\<open>dns.Fqdn\<close>, \<open>SetReply\<close>, the name tables) and the network are parameters.  Durations
  and times count nanoseconds.
\<close>

subsection \<open>Messages\<close>

record dns_question =
  q_Name :: string
  q_Qtype :: "16 word"
  q_Qclass :: "16 word"

record dns_msg =
  m_Id :: "16 word"
  m_Response :: bool
  m_Opcode :: nat
  m_Rcode :: nat
  m_Truncated :: bool
  m_RecursionDesired :: bool
  m_RecursionAvailable :: bool
  m_Question :: "dns_question list"
  m_Answer :: "32 word list"
  m_Ns :: "32 word list"
  m_Extra :: "32 word list"
  m_edns :: "bool option"

text \<open>A resource record counts through the TTL of its header only.\<close>

subsection \<open>The cache (cache.go)\<close>

record CacheEntry =
  ce_Msg :: dns_msg
  ExpiresAt :: time

record DnsCache =
  items :: "(string, CacheEntry) gomap"
  maxKeys :: int

definition NewDnsCache :: "int \<Rightarrow> DnsCache" where
  "NewDnsCache n = \<lparr>items = [], maxKeys = n\<rparr>"

definition cache_Get :: "string \<Rightarrow> time \<Rightarrow> DnsCache \<Rightarrow> dns_msg option \<times> DnsCache" where
  "cache_Get key now c =
     (case map_of (items c) key of
        None \<Rightarrow> (None, c)
      | Some ent \<Rightarrow>
          if now > ExpiresAt ent then (None, c\<lparr>items := mdel key (items c)\<rparr>)
          else (Some (ce_Msg ent), c))"

text \<open>
  When the cache is full, the entry that the \<open>range\<close> loop visits first makes room; Go leaves
  open which one that is, \<open>victim\<close> is its position.
\<close>

definition cache_Put :: "nat \<Rightarrow> string \<Rightarrow> dns_msg \<Rightarrow> int \<Rightarrow> time \<Rightarrow> DnsCache \<Rightarrow> DnsCache" where
  "cache_Put victim key msg ttl now c =
     (if ttl \<le> 0 then c
      else let full = (maxKeys c > 0 \<and> int (length (items c)) \<ge> maxKeys c);
               its = (if full then mdel (fst (items c ! (victim mod length (items c)))) (items c) else items c)
           in c\<lparr>items := mput key \<lparr>ce_Msg = msg, ExpiresAt = now + ttl\<rparr> its\<rparr>)"

definition str_bool :: "bool \<Rightarrow> string" where
  "str_bool b = (if b then ''true'' else ''false'')"

definition cacheKey :: "(string \<Rightarrow> string) \<Rightarrow> dns_question \<Rightarrow> bool \<Rightarrow> string" where
  "cacheKey fqdn q dnssecOk =
     to_lower (fqdn (q_Name q)) @ ''|'' @ dec (unat (q_Qtype q)) @ ''|'' @ dec (unat (q_Qclass q)) @
     ''|do='' @ str_bool dnssecOk"

text \<open>The loop of \<open>minTTL\<close>: \<open>None\<close> while no record has been seen.\<close>

fun min_ttl_loop :: "32 word list \<Rightarrow> 32 word option \<Rightarrow> 32 word option" where
  "min_ttl_loop [] acc = acc"
| "min_ttl_loop (t # ts) acc =
     min_ttl_loop ts (case acc of None \<Rightarrow> Some t | Some a \<Rightarrow> if t < a then Some t else acc)"

definition minTTL :: "dns_msg \<Rightarrow> int option" where
  "minTTL msg =
     (case min_ttl_loop (m_Answer msg @ m_Ns msg @ m_Extra msg) None of
        None \<Rightarrow> None
      | Some t \<Rightarrow> Some (uint t * 1000000000))"

definition isCacheableQuery :: "dns_msg \<Rightarrow> bool" where
  "isCacheableQuery r \<longleftrightarrow> m_Opcode r = 0 \<and> \<not> m_Response r \<and> length (m_Question r) = 1"

definition doBit :: "dns_msg \<Rightarrow> bool" where
  "doBit r = (case m_edns r of None \<Rightarrow> False | Some b \<Rightarrow> b)"

subsection \<open>Upstream exchange and request handling (proxy.go)\<close>

text \<open>
  \<open>picks\<close> are the values of \<open>rand.Intn\<close>, \<open>first_visited\<close> is the cache entry a full cache gives up; \<open>udp i\<close> and \<open>tcp\<close> answer the \<open>i\<close>-th UDP exchange and the TCP
  exchange with a server.
\<close>

record dns_net =
  picks :: "nat \<Rightarrow> nat"
  first_visited :: nat
  udp :: "nat \<Rightarrow> dns_msg \<Rightarrow> string \<Rightarrow> dns_msg option result"
  tcp :: "dns_msg \<Rightarrow> string \<Rightarrow> dns_msg option result"

definition pickUpstream :: "string list \<Rightarrow> nat \<Rightarrow> string result" where
  "pickUpstream upstreams pick =
     (if upstreams = [] then Inl (Err ''no upstream configured'')
      else Inr (upstreams ! (pick mod length upstreams)))"

definition exchange :: "dns_net \<Rightarrow> string list \<Rightarrow> dns_msg \<Rightarrow> (dns_msg option \<times> string) result \<times> string" where
  "exchange net upstreams req =
     (case pickUpstream upstreams (picks net 0) of
        Inl e \<Rightarrow> (Inl e, '''')
      | Inr up \<Rightarrow> (case udp net 0 req up of
          Inr (Some resp) \<Rightarrow>
            if m_Truncated resp then
              (case tcp net req up of
                 Inr (Some resp2) \<Rightarrow> (Inr (Some resp2, up @ '' (tcp)''), '''')
               | _ \<Rightarrow> (Inr (Some resp, up @ '' (udp,tc)''), ''''))
            else (Inr (Some resp, up @ '' (udp)''), '''')
        | Inr None \<Rightarrow> (Inr (None, up @ '' (udp)''), '''')
        | Inl e \<Rightarrow>
            if length upstreams > 1 then
              (let up2 = (case pickUpstream upstreams (picks net 1) of Inr u \<Rightarrow> u | Inl _ \<Rightarrow> '''') in
               case udp net 1 req up2 of
                 Inr (Some resp2) \<Rightarrow> (Inr (Some resp2, up2 @ '' (udp,retry)''), '''')
               | _ \<Rightarrow> (Inl e, up))
            else (Inl e, up)))"

text \<open>
  \<open>ServeDns\<close> returns the messages written to the client and the cache after the request;
  \<open>set_reply\<close> is the library's \<open>SetReply\<close>, \<open>write_ok\<close> tells whether \<open>WriteMsg\<close> of the upstream
  answer succeeds.  A nil request makes \<open>fail\<close> dereference nil.
\<close>

definition rcode_format_error :: nat where "rcode_format_error = 1"
definition rcode_server_failure :: nat where "rcode_server_failure = 2"

definition fail_msg :: "(dns_msg \<Rightarrow> dns_msg) \<Rightarrow> dns_msg \<Rightarrow> nat \<Rightarrow> dns_msg" where
  "fail_msg set_reply r rcode = (set_reply r)\<lparr>m_RecursionAvailable := True, m_Rcode := rcode\<rparr>"

definition ServeDns ::
  "(string \<Rightarrow> string) \<Rightarrow> (dns_msg \<Rightarrow> dns_msg) \<Rightarrow> dns_net \<Rightarrow> string list \<Rightarrow> bool \<Rightarrow> time \<Rightarrow> dns_msg option \<Rightarrow> DnsCache \<Rightarrow>
   (dns_msg list \<times> DnsCache) result" where
  "ServeDns fqdn set_reply net upstreams write_ok now req c =
     (case req of
        None \<Rightarrow> Inl (Panic ''nil pointer dereference'')
      | Some r \<Rightarrow>
        if m_Question r = [] then Inr ([fail_msg set_reply r rcode_format_error], c)
        else
          let key = (if isCacheableQuery r then cacheKey fqdn (hd (m_Question r)) (doBit r) else '''');
              (hit, c1) = (if isCacheableQuery r then cache_Get key now c else (None, c))
          in case hit of
              Some msg \<Rightarrow> Inr ([msg\<lparr>m_Id := m_Id r, m_RecursionAvailable := True\<rparr>], c1)
            | None \<Rightarrow> (case fst (exchange net upstreams r) of
                Inr (Some resp, _) \<Rightarrow>
                  let resp' = resp\<lparr>m_Id := m_Id r, m_RecursionAvailable := True\<rparr> in
                  if \<not> write_ok then Inr ([resp'], c1)
                  else Inr ([resp'], (if key \<noteq> [] then (case minTTL resp' of
                      Some ttl \<Rightarrow> cache_Put (first_visited net) key resp' ttl now c1 | None \<Rightarrow> c1) else c1))
              | _ \<Rightarrow> Inr ([fail_msg set_reply r rcode_server_failure], c1)))"

subsection \<open>Who asked: the client part of the log line (proxy.go)\<close>

record dns_client =
  cl_Ip :: string
  cl_ContainerId :: string
  cl_ContainerName :: string
  cl_SpiffeId :: string
  cl_Veth :: string

definition log_client :: "string \<Rightarrow> IpamState \<Rightarrow> ContainerState \<Rightarrow> dns_client" where
  "log_client clientIP ipam cs =
     (case GetInfoByIp clientIP ipam of
        Inl _ \<Rightarrow> \<lparr>cl_Ip = clientIP, cl_ContainerId = ''unresolved'', cl_ContainerName = ''unresolved'',
                  cl_SpiffeId = ''unresolved'', cl_Veth = ''unresolved''\<rparr>
      | Inr (containerId, veth) \<Rightarrow>
          \<lparr>cl_Ip = clientIP, cl_ContainerId = containerId,
           cl_ContainerName = (case GetContainerNameById containerId cs of Inr n \<Rightarrow> n | Inl _ \<Rightarrow> ''unresolved''),
           cl_SpiffeId = (case GetSpiffeById containerId cs of Inr s \<Rightarrow> s | Inl _ \<Rightarrow> ''unresolved''),
           cl_Veth = veth\<rparr>)"

subsection \<open>The cache is bounded and never serves a stale answer\<close>

definition cache_inv :: "DnsCache \<Rightarrow> bool" where
  "cache_inv c \<longleftrightarrow> mwf (items c) \<and> (maxKeys c > 0 \<longrightarrow> int (length (items c)) \<le> maxKeys c)"

lemma cache_Put_inv: "cache_inv c \<Longrightarrow> cache_inv (cache_Put victim key msg ttl now c)"
proof -
  assume inv: "cache_inv c"
  let ?e = "\<lparr>ce_Msg = msg, ExpiresAt = now + ttl\<rparr>" and ?k = "fst (items c ! (victim mod length (items c)))"
  show ?thesis
  proof (cases "maxKeys c > 0 \<and> int (length (items c)) \<ge> maxKeys c")
    case True
    then have "items c \<noteq> []" by auto
    then have "?k \<in> fst ` set (items c)" by simp
    then have "length (mput key ?e (mdel ?k (items c))) \<le> length (items c)"
      using inv by (intro gm.evict_then_put_size) (auto simp: cache_inv_def map_of_eq_None_iff)
    with inv True show ?thesis by (auto simp: cache_inv_def cache_Put_def Let_def)
  next
    case False
    with inv show ?thesis
      using gm.size_put [of "items c" key ?e] by (auto simp: cache_inv_def cache_Put_def Let_def)
  qed
qed

lemma length_mdel_le: "length (mdel k m) \<le> length m"
  by (simp add: AList.delete_eq)

lemma cache_Get_inv: "cache_inv c \<Longrightarrow> cache_inv (snd (cache_Get key now c))"
  using length_mdel_le [of key "items c"]
  by (auto simp: cache_inv_def cache_Get_def split: option.splits)

datatype cache_op = COp_Get string time | COp_Put nat string dns_msg int time

fun cache_apply :: "cache_op \<Rightarrow> DnsCache \<Rightarrow> DnsCache" where
  "cache_apply (COp_Get key now) c = snd (cache_Get key now c)"
| "cache_apply (COp_Put victim key msg ttl now) c = cache_Put victim key msg ttl now c"

text \<open>The last answer stored for a key in a history, with its expiry time.\<close>

fun note_put :: "string \<Rightarrow> cache_op \<Rightarrow> CacheEntry option \<Rightarrow> CacheEntry option" where
  "note_put key (COp_Put victim k msg ttl now) acc =
     (if k = key \<and> ttl > 0 then Some \<lparr>ce_Msg = msg, ExpiresAt = now + ttl\<rparr> else acc)"
| "note_put key (COp_Get k now) acc = acc"

lemma cache_apply_inv: "cache_inv c \<Longrightarrow> cache_inv (cache_apply op c)"
  by (cases op) (simp_all add: cache_Put_inv cache_Get_inv)

lemma cache_apply_entry:
  "map_of (items (cache_apply op c)) key = Some e \<Longrightarrow> note_put key op (map_of (items c) key) = Some e"
  by (cases op) (auto simp: cache_Get_def cache_Put_def Let_def split: option.splits if_splits)

lemma note_put_mono: "(x = None \<or> x = y) \<Longrightarrow> (note_put key op x = None \<or> note_put key op x = note_put key op y)"
  by (cases op) auto

lemma cache_history_entry:
  assumes "map_of (items c) key = None \<or> map_of (items c) key = acc"
  shows "map_of (items (fold cache_apply ops c)) key = None \<or>
    map_of (items (fold cache_apply ops c)) key = fold (note_put key) ops acc"
  using assms
proof (induction ops arbitrary: c acc)
  case (Cons op ops)
  have "map_of (items (cache_apply op c)) key = None \<or>
      map_of (items (cache_apply op c)) key = note_put key op (map_of (items c) key)"
    using cache_apply_entry [of op c key] by (cases "map_of (items (cache_apply op c)) key") auto
  moreover have "note_put key op (map_of (items c) key) = None \<or>
      note_put key op (map_of (items c) key) = note_put key op acc"
    using note_put_mono [OF Cons.prems] .
  ultimately have "map_of (items (cache_apply op c)) key = None \<or>
      map_of (items (cache_apply op c)) key = note_put key op acc" by auto
  from Cons.IH [OF this] show ?case by simp
qed simp

lemma cache_history_inv: "cache_inv c \<Longrightarrow> cache_inv (fold cache_apply ops c)"
  by (induction ops arbitrary: c) (simp_all add: cache_apply_inv)

lemma maxKeys_fold: "maxKeys (fold cache_apply ops c) = maxKeys c"
proof (induction ops arbitrary: c)
  case (Cons op ops)
  have "maxKeys (cache_apply op c) = maxKeys c"
    by (cases op) (auto simp: cache_Get_def cache_Put_def Let_def split: option.splits)
  with Cons show ?case by simp
qed simp

text \<open>C19: after any history of lookups and stores, whatever entries a full cache gives up, the
  cache holds at most its maximum of entries, and a lookup that hits returns the last answer
  stored for that very key, which has not expired.\<close>

theorem dns_cache_correct:
  assumes "n > 0" "c = fold cache_apply ops (NewDnsCache n)"
  shows "int (length (items c)) \<le> n \<and>
    (\<forall>msg. fst (cache_Get key now c) = Some msg \<longrightarrow>
       (\<exists>e. fold (note_put key) ops None = Some e \<and> ce_Msg e = msg \<and> now \<le> ExpiresAt e))"
proof -
  have "cache_inv c" unfolding assms(2) using assms(1)
    by (intro cache_history_inv) (simp add: cache_inv_def NewDnsCache_def)
  moreover have "maxKeys c = n" unfolding assms(2) maxKeys_fold by (simp add: NewDnsCache_def)
  ultimately have "int (length (items c)) \<le> n" using assms(1) by (simp add: cache_inv_def)
  moreover have "map_of (items c) key = None \<or> map_of (items c) key = fold (note_put key) ops None"
    unfolding assms(2) by (rule cache_history_entry) (simp add: NewDnsCache_def)
  ultimately show ?thesis by (auto simp: cache_Get_def split: option.splits if_splits)
qed

definition demo_msg :: "16 word \<Rightarrow> 32 word list \<Rightarrow> dns_msg" where
  "demo_msg i ttls = \<lparr>m_Id = i, m_Response = True, m_Opcode = 0, m_Rcode = 0, m_Truncated = False,
     m_RecursionDesired = True, m_RecursionAvailable = True, m_Question = [\<lparr>q_Name = ''a.'', q_Qtype = 1, q_Qclass = 1\<rparr>],
     m_Answer = ttls, m_Ns = [], m_Extra = [], m_edns = None\<rparr>"

theorem dns_cache_correct_witness:
  "int (length (items (fold cache_apply [COp_Put 0 ''k1'' (demo_msg 1 [60]) 60 0, COp_Put 0 ''k2'' (demo_msg 2 [60]) 60 0]
     (NewDnsCache 1)))) \<le> 1"
  by (rule conjunct1 [OF dns_cache_correct [OF zero_less_one refl]])

subsection \<open>Cache keys and life times\<close>

lemma append_sep_inj: "(c :: char) \<notin> set b \<Longrightarrow> c \<notin> set b' \<Longrightarrow> a @ c # b = a' @ c # b' \<Longrightarrow> a = a' \<and> b = b'"
proof -
  assume c: "c \<notin> set b" "c \<notin> set b'" and eq: "a @ c # b = a' @ c # b'"
  have "str_cut c (rev b @ c # rev a) = str_cut c (rev b' @ c # rev a')"
    using arg_cong [OF eq, of rev] by simp
  with c show ?thesis by (simp add: str_cut_append)
qed

lemma bar_dec: "CHR ''|'' \<notin> set (dec n)"
  by (rule dec_no_sep) (simp add: digit_val_def)

lemma cacheKey_inj:
  assumes "cacheKey fqdn q do = cacheKey fqdn q' do'"
  shows "to_lower (fqdn (q_Name q)) = to_lower (fqdn (q_Name q')) \<and> q_Qtype q = q_Qtype q' \<and>
    q_Qclass q = q_Qclass q' \<and> do = do'"
proof -
  let ?n = "\<lambda>q. to_lower (fqdn (q_Name q))" and ?t = "\<lambda>q. dec (unat (q_Qtype q))" and ?c = "\<lambda>q. dec (unat (q_Qclass q))"
  have k: "cacheKey fqdn q b = ((?n q @ CHR ''|'' # ?t q) @ CHR ''|'' # ?c q) @ CHR ''|'' # ''do='' @ str_bool b" for q b
    by (simp add: cacheKey_def)
  have b: "CHR ''|'' \<notin> set (''do='' @ str_bool b)" for b by (simp add: str_bool_def)
  have 1: "(?n q @ CHR ''|'' # ?t q) @ CHR ''|'' # ?c q = (?n q' @ CHR ''|'' # ?t q') @ CHR ''|'' # ?c q'"
    and d: "''do='' @ str_bool do = ''do='' @ str_bool do'"
    using append_sep_inj [OF b b assms [unfolded k]] by auto
  have 2: "?n q @ CHR ''|'' # ?t q = ?n q' @ CHR ''|'' # ?t q'" and c: "?c q = ?c q'"
    using append_sep_inj [OF bar_dec bar_dec 1] by auto
  have "?n q = ?n q'" "?t q = ?t q'" using append_sep_inj [OF bar_dec bar_dec 2] by auto
  with c d show ?thesis by (auto simp: str_bool_def word_unat_eq_iff split: if_splits)
qed

lemma min_ttl_loop_Some:
  "min_ttl_loop ts (Some a) = Some (fold min ts a)"
proof (induction ts arbitrary: a)
  case (Cons t ts)
  have "(if t < a then Some t else Some a) = Some (min t a)" by (auto simp: min_def)
  with Cons show ?case by simp
qed simp

lemma minTTL_Min:
  "minTTL msg = (let ts = m_Answer msg @ m_Ns msg @ m_Extra msg in
     if ts = [] then None else Some (Min (uint ` set ts) * 1000000000))"
proof (cases "m_Answer msg @ m_Ns msg @ m_Extra msg")
  case Nil
  then show ?thesis by (simp add: minTTL_def)
next
  case (Cons t ts)
  have "fold min ts t = Min (set (t # ts))" by (metis Min.set_eq_fold)
  moreover have "uint (Min S) = Min (uint ` S)" if "finite S" "S \<noteq> {}" for S :: "32 word set"
    by (rule mono_Min_commute [OF _ that]) (simp add: mono_def word_le_def)
  ultimately show ?thesis using Cons by (simp add: minTTL_def min_ttl_loop_Some)
qed

text \<open>An answer is cached under a key that determines the question and for the smallest life
  time in it: equal keys have the same lower-case name, type, class and DNSSEC flag, whatever
  characters the name has; \<open>minTTL\<close> is the minimum over all three sections in nanoseconds, and
  nothing is cached when there is no record.\<close>

theorem cache_key_and_ttl:
  "(cacheKey fqdn q do = cacheKey fqdn q' do' \<longleftrightarrow>
      to_lower (fqdn (q_Name q)) = to_lower (fqdn (q_Name q')) \<and> q_Qtype q = q_Qtype q' \<and>
      q_Qclass q = q_Qclass q' \<and> do = do') \<and>
   minTTL msg = (let ts = m_Answer msg @ m_Ns msg @ m_Extra msg in
     if ts = [] then None else Some (Min (uint ` set ts) * 1000000000))"
  using cacheKey_inj [of fqdn q do q' do'] minTTL_Min by (auto simp: cacheKey_def)

subsection \<open>Serving a request\<close>

lemma ServeDns_cache:
  assumes "cache_inv c" "ServeDns fqdn set_reply net upstreams write_ok now (Some r) c = Inr (ms, c')"
  shows "cache_inv c'"
proof -
  let ?key = "cacheKey fqdn (hd (m_Question r)) (doBit r)"
  obtain hit c1 where g: "cache_Get ?key now c = (hit, c1)" by fastforce
  then have c1: "cache_inv c1" using cache_Get_inv [OF assms(1), of ?key now] by simp
  have "c' = c \<or> c' = c1 \<or> (\<exists>msg ttl. c' = cache_Put (first_visited net) ?key msg ttl now c1)"
    using assms(2) g
    by (auto simp: ServeDns_def Let_def split: if_splits option.splits sum.splits prod.splits)
  then show ?thesis using assms(1) c1 cache_Put_inv by auto
qed

text \<open>C37: every request with a question gets exactly one reply, which carries the identifier of the
  request and offers recursion; when it comes from the cache it is the unexpired entry of that
  question; the cache bound is kept.  \<open>set_reply\<close> has to keep the identifier, as the DNS
  library documents.\<close>

theorem ServeDns_replies:
  assumes "\<And>r. m_Id (set_reply r) = m_Id r" "cache_inv c"
  shows "\<exists>msg c'. ServeDns fqdn set_reply net upstreams write_ok now (Some r) c = Inr ([msg], c') \<and>
    m_Id msg = m_Id r \<and> m_RecursionAvailable msg \<and> cache_inv c' \<and>
    (\<forall>e. isCacheableQuery r \<longrightarrow> map_of (items c) (cacheKey fqdn (hd (m_Question r)) (doBit r)) = Some e \<longrightarrow>
       now \<le> ExpiresAt e \<longrightarrow> msg = (ce_Msg e)\<lparr>m_Id := m_Id r, m_RecursionAvailable := True\<rparr> \<and> c' = c)"
proof -
  have "\<exists>msg c'. ServeDns fqdn set_reply net upstreams write_ok now (Some r) c = Inr ([msg], c') \<and>
      m_Id msg = m_Id r \<and> m_RecursionAvailable msg"
    using assms(1) by (auto simp: ServeDns_def Let_def fail_msg_def split: if_splits option.splits sum.splits prod.splits)
  then obtain msg c' where s: "ServeDns fqdn set_reply net upstreams write_ok now (Some r) c = Inr ([msg], c')"
    "m_Id msg = m_Id r" "m_RecursionAvailable msg" by blast
  have "msg = (ce_Msg e)\<lparr>m_Id := m_Id r, m_RecursionAvailable := True\<rparr> \<and> c' = c"
    if "isCacheableQuery r" "map_of (items c) (cacheKey fqdn (hd (m_Question r)) (doBit r)) = Some e" "now \<le> ExpiresAt e" for e
  proof -
    have "m_Question r \<noteq> []" using that(1) by (auto simp: isCacheableQuery_def)
    then show ?thesis using s(1) that by (simp add: ServeDns_def Let_def cache_Get_def)
  qed
  with s ServeDns_cache [OF assms(2) s(1)] show ?thesis by blast
qed

theorem ServeDns_replies_witness:
  "\<exists>msg c'. ServeDns (\<lambda>s. s) (\<lambda>r. r) \<lparr>picks = (\<lambda>_. 0), first_visited = 0, udp = (\<lambda>_ _ _. Inl (Err ''timeout'')),
      tcp = (\<lambda>_ _. Inr None)\<rparr> [''8.8.8.8:53''] True 9 (Some (demo_msg 77 [])) (NewDnsCache 10) = Inr ([msg], c') \<and>
    m_Id msg = 77"
proof -
  have "cache_inv (NewDnsCache 10)" by (simp add: cache_inv_def NewDnsCache_def)
  from ServeDns_replies [of "\<lambda>r. r", OF refl this, where r = "demo_msg 77 []"] show ?thesis
    by (simp add: demo_msg_def) blast
qed

end
