(* ===== verification/Effects.thy ===== *)
theory Effects
  imports File_Store
begin

text \<open>
  The services of \<open>src/internal/core\<close> call several stores and external commands one after the
  other, stop at the first error and sometimes go on after one.  This theory has the effects they
  use: actions on a state that return a Go result, commands run through \<open>CommandFactory\<close>
  (\<open>src/internal/utils/command_executor.go\<close>), and access to a store document through \<open>withLock\<close>
  and \<open>withRLock\<close>.
\<close>

named_theorems act_defs \<open>definitions of the combinators of actions\<close>

subsection \<open>Actions\<close>

type_synonym ('a, 's) act = "'s \<Rightarrow> 'a result \<times> 's"

definition ret :: "'a \<Rightarrow> ('a, 's) act" where
  "ret x s = (Inr x, s)"

definition fail :: "error \<Rightarrow> ('a, 's) act" where
  "fail e s = (Inl e, s)"

text \<open>\<open>x, err := m(); if err != nil { return err }; k(x)\<close>.\<close>

definition bnd :: "('a, 's) act \<Rightarrow> ('a \<Rightarrow> ('b, 's) act) \<Rightarrow> ('b, 's) act" where
  "bnd m k s = (case m s of (Inl e, s') \<Rightarrow> (Inl e, s') | (Inr x, s') \<Rightarrow> k x s')"

definition seq :: "('a, 's) act \<Rightarrow> ('b, 's) act \<Rightarrow> ('b, 's) act" where
  "seq m k = bnd m (\<lambda>_. k)"

text \<open>\<open>err := m()\<close> where the code looks at \<open>err\<close> itself; a panic is not an error value.\<close>

definition attempt :: "('a, 's) act \<Rightarrow> ('a result, 's) act" where
  "attempt m s = (case m s of (Inl (Panic p), s') \<Rightarrow> (Inl (Panic p), s') | (r, s') \<Rightarrow> (Inr r, s'))"

text \<open>\<open>for _, x := range xs { if err := f(x); err != nil { return err } }\<close>.\<close>

fun for_each :: "('x \<Rightarrow> (unit, 's) act) \<Rightarrow> 'x list \<Rightarrow> (unit, 's) act" where
  "for_each f [] s = (Inr (), s)"
| "for_each f (x # xs) s = (case f x s of (Inl e, s') \<Rightarrow> (Inl e, s') | (Inr u, s') \<Rightarrow> for_each f xs s')"

text \<open>
  A step whose error makes the caller undo its work: \<open>rb\<close> runs after an error and its own error
  takes the place of the first; a panic is not seen.
\<close>

definition with_rollback :: "('a, 's) act \<Rightarrow> (unit, 's) act \<Rightarrow> ('a, 's) act" where
  "with_rollback m rb s =
     (case m s of
        (Inl (Err e), s') \<Rightarrow> (case rb s' of (Inl e', s'') \<Rightarrow> (Inl e', s'') | (Inr u, s'') \<Rightarrow> (Inl (Err e), s''))
      | r \<Rightarrow> r)"

text \<open>A value of the state, and a result computed without state.\<close>

definition lift_res :: "'a result \<Rightarrow> ('a, 's) act" where
  "lift_res r s = (r, s)"

lemmas [act_defs] = ret_def fail_def bnd_def seq_def attempt_def lift_res_def

lemma bnd_Inr: "bnd m k s = (Inr y, s') \<longleftrightarrow> (\<exists>x t. m s = (Inr x, t) \<and> k x t = (Inr y, s'))"
  by (auto simp: bnd_def split: prod.splits sum.splits)

lemma bnd_step [simp]: "m s = (Inr x, t) \<Longrightarrow> bnd m k s = k x t"
  by (simp add: bnd_def)

lemma bnd_stop [simp]: "m s = (Inl e, t) \<Longrightarrow> bnd m k s = (Inl e, t)"
  by (simp add: bnd_def)

lemma seq_step [simp]: "m s = (Inr x, t) \<Longrightarrow> seq m k s = k t"
  by (simp add: seq_def)

lemma seq_stop [simp]: "m s = (Inl e, t) \<Longrightarrow> seq m k s = (Inl e, t)"
  by (simp add: seq_def)

lemma attempt_step [simp]: "m s = (Inr x, t) \<Longrightarrow> attempt m s = (Inr (Inr x), t)"
  by (simp add: attempt_def)

lemma attempt_caught [simp]: "m s = (Inl (Err x), t) \<Longrightarrow> attempt m s = (Inr (Inl (Err x)), t)"
  by (simp add: attempt_def)

lemma with_rollback_step [simp]: "m s = (Inr x, t) \<Longrightarrow> with_rollback m rb s = (Inr x, t)"
  by (simp add: with_rollback_def)

lemma with_rollback_Inr: "with_rollback m rb s = (Inr x, t) \<longleftrightarrow> m s = (Inr x, t)"
  by (auto simp: with_rollback_def split: prod.splits sum.splits error.splits)

lemma ret_simp [simp]: "ret x s = (Inr x, s)"
  by (simp add: ret_def)

lemma fail_simp [simp]: "fail e s = (Inl e, s)"
  by (simp add: fail_def)

lemma lift_res_simp [simp]: "lift_res r s = (r, s)"
  by (simp add: lift_res_def)

text \<open>A condition on the state that an action keeps, whether it succeeds or not.\<close>

definition stable :: "('s \<Rightarrow> bool) \<Rightarrow> ('a, 's) act \<Rightarrow> bool" where
  "stable P m \<longleftrightarrow> (\<forall>s. P s \<longrightarrow> P (snd (m s)))"

lemma stableD: "stable P m \<Longrightarrow> m s = (r, s') \<Longrightarrow> P s \<Longrightarrow> P s'"
  unfolding stable_def by (metis snd_conv)

named_theorems stable_intros \<open>actions that keep a condition on the state\<close>

lemma stable_ret [stable_intros]: "stable P (ret x)"
  by (simp add: stable_def)

lemma stable_fail [stable_intros]: "stable P (fail e)"
  by (simp add: stable_def)

lemma stable_lift [stable_intros]: "stable P (lift_res r)"
  by (simp add: stable_def)

lemma stable_bnd [stable_intros]: "stable P m \<Longrightarrow> (\<And>x. stable P (k x)) \<Longrightarrow> stable P (bnd m k)"
  by (fastforce simp: stable_def bnd_def split: prod.splits sum.splits)

lemma stable_seq [stable_intros]: "stable P m \<Longrightarrow> stable P k \<Longrightarrow> stable P (seq m k)"
  unfolding seq_def by (rule stable_bnd)

lemma stable_attempt [stable_intros]: "stable P m \<Longrightarrow> stable P (attempt m)"
  by (fastforce simp: stable_def attempt_def split: prod.splits sum.splits error.splits)

lemma stable_with_rollback [stable_intros]: "stable P m \<Longrightarrow> stable P rb \<Longrightarrow> stable P (with_rollback m rb)"
  by (fastforce simp: stable_def with_rollback_def split: prod.splits sum.splits error.splits)

lemma stable_for_each [stable_intros]: "(\<And>x. stable P (f x)) \<Longrightarrow> stable P (for_each f xs)"
proof (induction xs)
  case Nil
  show ?case by (simp add: stable_def)
next
  case (Cons x xs)
  have "for_each f (x # xs) = seq (f x) (for_each f xs)"
    by (auto simp: fun_eq_iff seq_def bnd_def split: prod.splits sum.splits)
  with Cons show ?case by (simp add: stable_seq)
qed

lemma stable_if [stable_intros]: "(b \<Longrightarrow> stable P m) \<Longrightarrow> (\<not> b \<Longrightarrow> stable P m') \<Longrightarrow> stable P (if b then m else m')"
  by simp

lemma stable_sum [stable_intros]:
  "(\<And>e. stable P (f e)) \<Longrightarrow> (\<And>x. stable P (g x)) \<Longrightarrow> stable P (case r of Inl e \<Rightarrow> f e | Inr x \<Rightarrow> g x)"
  by (simp split: sum.split)

lemma stable_prod [stable_intros]: "(\<And>x y. stable P (f x y)) \<Longrightarrow> stable P (case r of (x, y) \<Rightarrow> f x y)"
  by (simp split: prod.split)

subsection \<open>Commands (utils/command_executor.go)\<close>

text \<open>
  A command is its name with its arguments.  What a command does to the host and whether it exits
  with status 0 is a parameter of everything that runs commands.
\<close>

type_synonym command = "string list"

type_synonym 'h runner = "command \<Rightarrow> 'h \<Rightarrow> bool \<times> 'h"

definition command_failed :: "command \<Rightarrow> error" where
  "command_failed cmd = Err (hd cmd @ '': exit status'')"

definition cmd_Run :: "'h runner \<Rightarrow> command \<Rightarrow> (unit, 'h) act" where
  "cmd_Run run cmd h = (case run cmd h of (ok, h') \<Rightarrow> (if ok then Inr () else Inl (command_failed cmd), h'))"

lemma cmd_Run_ok [simp]: "run cmd h = (True, h') \<Longrightarrow> cmd_Run run cmd h = (Inr (), h')"
  by (simp add: cmd_Run_def)

lemma cmd_Run_fail [simp]: "run cmd h = (False, h') \<Longrightarrow> cmd_Run run cmd h = (Inl (command_failed cmd), h')"
  by (simp add: cmd_Run_def)

end
