(* ===== verification/Daemon.thy ===== *)
theory Daemon
  imports Effects Ipam Csm Npm Psm Bsm Ssm Ilm
begin

text \<open>
  What the services share: the documents of the stores, the copy of the policy in force and the
  host that external commands act on.  Each service of the code opens its own handle on the same
  files (\<open>ipam.NewIpamStore(utils.IpamStorePath)\<close> and so on), so there is one document per store.
\<close>

record 'h daemon =
  d_io :: io_script
  d_ipam :: IpamState
  d_csm :: ContainerState
  d_npm :: NetworkPolicy
  d_running :: "NetworkPolicy content"
  d_psm :: PodState
  d_bsm :: BottleState
  d_ssm :: ServiceState
  d_ilm :: ImageLayerState
  d_host :: 'h

text \<open>An access to one document of the daemon.\<close>

definition access ::
  "('h daemon \<Rightarrow> 'st) \<Rightarrow> (('st \<Rightarrow> 'st) \<Rightarrow> 'h daemon \<Rightarrow> 'h daemon) \<Rightarrow> ('st \<Rightarrow> ('a \<times> 'st) result) \<Rightarrow> ('a, 'h daemon) act" where
  "access get put fn d =
     (case store_access fn (d_io d, get d) of (r, (io, st)) \<Rightarrow> (r, put (\<lambda>_. st) (d\<lparr>d_io := io\<rparr>)))"

definition query :: "('st \<Rightarrow> 'a result) \<Rightarrow> 'st \<Rightarrow> ('a \<times> 'st) result" where
  "query f st = (case f st of Inl e \<Rightarrow> Inl e | Inr a \<Rightarrow> Inr (a, st))"

abbreviation ipam_do :: "(IpamState \<Rightarrow> ('a \<times> IpamState) result) \<Rightarrow> ('a, 'h daemon) act" where
  "ipam_do \<equiv> access d_ipam d_ipam_update"

abbreviation csm_do :: "(ContainerState \<Rightarrow> ('a \<times> ContainerState) result) \<Rightarrow> ('a, 'h daemon) act" where
  "csm_do \<equiv> access d_csm d_csm_update"

abbreviation npm_do :: "(NetworkPolicy \<Rightarrow> ('a \<times> NetworkPolicy) result) \<Rightarrow> ('a, 'h daemon) act" where
  "npm_do \<equiv> access d_npm d_npm_update"

abbreviation psm_do :: "(PodState \<Rightarrow> ('a \<times> PodState) result) \<Rightarrow> ('a, 'h daemon) act" where
  "psm_do \<equiv> access d_psm d_psm_update"

abbreviation bsm_do :: "(BottleState \<Rightarrow> ('a \<times> BottleState) result) \<Rightarrow> ('a, 'h daemon) act" where
  "bsm_do \<equiv> access d_bsm d_bsm_update"

abbreviation ssm_do :: "(ServiceState \<Rightarrow> ('a \<times> ServiceState) result) \<Rightarrow> ('a, 'h daemon) act" where
  "ssm_do \<equiv> access d_ssm d_ssm_update"

abbreviation ilm_do :: "(ImageLayerState \<Rightarrow> ('a \<times> ImageLayerState) result) \<Rightarrow> ('a, 'h daemon) act" where
  "ilm_do \<equiv> access d_ilm d_ilm_update"

text \<open>A call whose error the code drops for the zero value.\<close>

definition or_zero :: "'a \<Rightarrow> ('a, 's) act \<Rightarrow> ('a, 's) act" where
  "or_zero zero m = bnd (attempt m) (\<lambda>r. case r of Inl _ \<Rightarrow> ret zero | Inr x \<Rightarrow> ret x)"

lemma or_zero_ok [simp]: "m s = (Inr x, t) \<Longrightarrow> or_zero z m s = (Inr x, t)"
  by (simp add: or_zero_def)

lemma stable_or_zero [stable_intros]: "stable P m \<Longrightarrow> stable P (or_zero z m)"
  unfolding or_zero_def by (intro stable_intros)

text \<open>
  The getters of \<open>NpmManager\<close> drop the error of \<open>withRLock\<close> and return the zero value then.
\<close>

definition npm_read :: "'a \<Rightarrow> (NetworkPolicy \<Rightarrow> 'a) \<Rightarrow> ('a, 'h daemon) act" where
  "npm_read zero f d =
     (case npm_do (query (\<lambda>np. Inr (f np))) d of (Inr x, d') \<Rightarrow> (Inr x, d') | (Inl e, d') \<Rightarrow> (Inr zero, d'))"

definition on_host :: "('a, 'h) act \<Rightarrow> ('a, 'h daemon) act" where
  "on_host m d = (case m (d_host d) of (r, h) \<Rightarrow> (r, d\<lparr>d_host := h\<rparr>))"

subsection \<open>Accesses without input and output errors\<close>

definition io_ok :: "'h daemon \<Rightarrow> bool" where
  "io_ok d \<longleftrightarrow> d_io d = []"

lemma access_ok:
  assumes "io_ok d" "fn (get d) = Inr (a, st)"
  shows "access get put fn d = (Inr a, put (\<lambda>_. st) d)"
  using assms by (simp add: access_def store_access_simps io_ok_def) (metis daemon.surjective daemon.update_convs(1))

lemma access_error:
  assumes "io_ok d" "fn (get d) = Inl e"
  shows "access get put fn d = (Inl e, put (\<lambda>_. get d) d)"
  using assms by (simp add: access_def store_access_simps io_ok_def) (metis daemon.surjective daemon.update_convs(1))

lemma query_simps [simp]: "f st = Inr a \<Longrightarrow> query f st = Inr (a, st)" "f st = Inl e \<Longrightarrow> query f st = Inl e"
  by (simp_all add: query_def)

lemma npm_read_ok [simp]: "io_ok d \<Longrightarrow> npm_read z f d = (Inr (f (d_npm d)), d)"
  by (simp add: npm_read_def access_ok)

lemma on_host_simp: "m (d_host d) = (r, h) \<Longrightarrow> on_host m d = (r, d\<lparr>d_host := h\<rparr>)"
  by (simp add: on_host_def)

subsection \<open>What an access leaves alone\<close>

lemma stable_on_host [stable_intros]:
  assumes "\<And>d h. P d \<Longrightarrow> P (d\<lparr>d_host := h\<rparr>)"
  shows "stable P (on_host m)"
  using assms by (auto simp: stable_def on_host_def split: prod.splits)

text \<open>Input and output work and the address store is as given.\<close>

definition ipam_is :: "IpamState \<Rightarrow> 'h daemon \<Rightarrow> bool" where
  "ipam_is ip d \<longleftrightarrow> io_ok d \<and> d_ipam d = ip"

lemma stable_access [stable_intros]:
  "stable (ipam_is ip) (npm_do fn)" "stable (ipam_is ip) (csm_do fn')" "stable (ipam_is ip) (ipam_do (query f))"
  by (auto simp: stable_def ipam_is_def access_def store_access_simps io_ok_def query_def split: sum.splits prod.splits)

lemma stable_npm_read [stable_intros]: "stable (ipam_is ip) (npm_read z f)"
  by (simp add: stable_def ipam_is_def)

lemma ipam_is_host: "ipam_is ip d \<Longrightarrow> ipam_is ip (d\<lparr>d_host := h\<rparr>)"
  by (simp add: ipam_is_def io_ok_def)

text \<open>Input and output work and every store but that of the policies is as in the daemon \<open>d0\<close>.\<close>

definition unchanged :: "'h daemon \<Rightarrow> 'h daemon \<Rightarrow> bool" where
  "unchanged d0 d \<longleftrightarrow> io_ok d \<and> d_ipam d = d_ipam d0 \<and> d_csm d = d_csm d0 \<and> d_psm d = d_psm d0 \<and> d_bsm d = d_bsm d0 \<and>
     d_ssm d = d_ssm d0 \<and> d_ilm d = d_ilm d0"

lemma unchanged_access [stable_intros]:
  "stable (unchanged d0) (npm_do fn)" "stable (unchanged d0) (csm_do (query f))" "stable (unchanged d0) (ipam_do (query g))"
  "stable (unchanged d0) (npm_read z k)"
  by (auto simp: stable_def unchanged_def npm_read_def access_def store_access_simps io_ok_def query_def split: sum.splits prod.splits)

lemma unchanged_host: "unchanged d0 d \<Longrightarrow> unchanged d0 (d\<lparr>d_host := h\<rparr>)"
  by (simp add: unchanged_def io_ok_def)

subsection \<open>The documents stand for the files\<close>

text \<open>C36: a service's view of the stores is faithful to the files: whatever system calls fail, a
  \<open>withLock\<close> call of the address, container or policy store on a readable file has the result of
  one access to its document, and the file is then readable as the document after the access.\<close>

theorem documents_refine_files:
  "(doc_of npm_loadOrInit dn = Inr np \<longrightarrow> npm_withLock fl fn dn = (rn, dn') \<longrightarrow>
      (\<exists>io np'. store_access fn ([io], np) = (rn, ([], np')) \<and> doc_of npm_loadOrInit dn' = Inr np')) \<and>
   (doc_of csm_loadOrInit dc = Inr cs \<longrightarrow> csm_withLock fl fc dc = (rc, dc') \<longrightarrow>
      (\<exists>io cs'. store_access fc ([io], cs) = (rc, ([], cs')) \<and> doc_of csm_loadOrInit dc' = Inr cs')) \<and>
   (doc_of (ipam_loadOrInit ro ao) di = Inr st \<longrightarrow> ipam_withLock ro ao fl fi di = (ri, di') \<longrightarrow>
      (\<exists>io st'. store_access fi ([io], st) = (ri, ([], st')) \<and> doc_of (ipam_loadOrInit ro ao) di' = Inr st'))"
  unfolding npm_withLock_def csm_withLock_def ipam_withLock_def
  by (intro conjI impI)
    (simp_all add: npm_file.with_lock_access csm_file.with_lock_access ipam_file.with_lock_access)

theorem documents_refine_files_witness:
  "\<exists>io np'. store_access (upd (ChangeNSMode ''enforce'')) ([io], npm_initial) = (Inr (), ([], np')) \<and>
     doc_of npm_loadOrInit (snd (npm_withLock no_faults (upd (ChangeNSMode ''enforce'')) \<lparr>main_file = Absent, tmp_file = Absent\<rparr>)) = Inr np'"
proof -
  let ?d = "\<lparr>main_file = Absent, tmp_file = Absent\<rparr> :: NetworkPolicy disk" and ?f = "upd (ChangeNSMode ''enforce'')"
  have "doc_of npm_loadOrInit ?d = Inr npm_initial"
    by (simp add: doc_of_def read_main_def no_faults_def npm_loadOrInit_def)
  moreover have "fst (npm_withLock no_faults ?f ?d) = Inr ()"
    by (simp add: npm_withLock_def with_lock_def no_faults_def read_main_def npm_loadOrInit_def upd_def
        ChangeNSMode_def atomic_save_def)
  then have "npm_withLock no_faults ?f ?d = (Inr (), snd (npm_withLock no_faults ?f ?d))"
    by (metis prod.collapse)
  ultimately show ?thesis
    using conjunct1 [OF documents_refine_files, of ?d npm_initial no_faults ?f] by blast
qed

subsection \<open>An example\<close>

text \<open>Two containers, \<open>web\<close> and \<open>db\<close>, with addresses on the default network.\<close>

definition demo_alloc :: "string \<Rightarrow> Allocation" where
  "demo_alloc i = \<lparr>ContainerId = i, al_Interface = ''rd_'' @ i, Forwards = [], AssignedAt = 0\<rparr>"

definition demo_ipam :: IpamState where
  "demo_ipam = (ipam_initial ''eth0'' ''192.168.0.2/24'')\<lparr>Pools :=
     [default_pool\<lparr>Allocations := Some [(''10.166.0.1'', demo_alloc ''i1''), (''10.166.0.2'', demo_alloc ''i2'')]\<rparr>]\<rparr>"

definition demo_daemon :: "NetworkPolicy \<Rightarrow> 'h \<Rightarrow> 'h daemon" where
  "demo_daemon np h = \<lparr>d_io = [], d_ipam = demo_ipam, d_csm = csm_demo, d_npm = np, d_running = Absent,
     d_psm = psm_initial, d_bsm = bsm_initial, d_ssm = ssm_initial, d_ilm = ilm_initial, d_host = h\<rparr>"

lemma demo_daemon_simps [simp]:
  "d_io (demo_daemon np h) = []" "d_ipam (demo_daemon np h) = demo_ipam" "d_csm (demo_daemon np h) = csm_demo"
  "d_npm (demo_daemon np h) = np" "d_host (demo_daemon np h) = h" "io_ok (demo_daemon np h)"
  by (simp_all add: demo_daemon_def io_ok_def)

lemma demo_ipam_eval:
  "GetNetworkList demo_ipam = Inr [\<lparr>nl_Interface = ''raind0'', nl_Address = ''10.166.0.254/24'', NumContainers = 2\<rparr>]"
  "GetDefaultInterface demo_ipam = Inr ''eth0''"
  "GetVethById ''i1'' demo_ipam = Inr ''rd_i1''" "GetVethById ''i2'' demo_ipam = Inr ''rd_i2''"
  by (simp_all add: demo_ipam_def GetNetworkList_def GetDefaultInterface_def GetVethById_def ipam_initial_def default_pool_def
      demo_alloc_def allocs_def Let_def)

end
