(* ===== verification/Iptables.thy ===== *)
theory Iptables
  imports Effects Go_Text
begin

text \<open>
  The rule manager of the policy service (\<open>src/internal/core/policy/iptables_handler.go\<close>).  It
  only runs \<open>iptables\<close>; what that program does to the chains is the hypothesis
  \<open>iptables_laws\<close> of the theorems, taken from its manual: \<open>-L\<close> finds a chain, \<open>-N\<close> makes one,
  \<open>-F\<close> empties it, \<open>-C\<close> looks for a rule, \<open>-A\<close> appends one, \<open>-I\<close> puts one at the head, \<open>-D\<close>
  deletes the first that equals it; a specification that is not valid makes the command fail.
\<close>

subsection \<open>Rules (model.go, iptables_handler.go)\<close>

record RuleModel =
  r_Conntrack :: bool
  r_Ctstate :: "string list"
  r_Syn :: bool
  r_Physdev :: bool
  r_PhysdevIsBridge :: bool
  r_InputDev :: string
  r_OutputDev :: string
  r_InputPhysdev :: string
  r_OutputPhysdev :: string
  r_Source :: string
  r_Destination :: string
  r_Protocol :: string
  r_SourcePort :: int
  r_DestPort :: int
  r_NflogGroup :: int
  r_NflogPrefix :: string

text \<open>The zero value \<open>RuleModel{}\<close>; composite literals update it.\<close>

definition rule0 :: RuleModel where
  "rule0 = \<lparr>r_Conntrack = False, r_Ctstate = [], r_Syn = False, r_Physdev = False, r_PhysdevIsBridge = False,
     r_InputDev = '''', r_OutputDev = '''', r_InputPhysdev = '''', r_OutputPhysdev = '''', r_Source = '''',
     r_Destination = '''', r_Protocol = '''', r_SourcePort = 0, r_DestPort = 0, r_NflogGroup = 0, r_NflogPrefix = ''''\<rparr>"

definition args_if :: "bool \<Rightarrow> string list \<Rightarrow> string list" where
  "args_if b xs = (if b then xs else [])"

text \<open>\<open>ruleParam\<close> without the chain name in front.\<close>

definition add_params :: "RuleModel \<Rightarrow> string \<Rightarrow> string list" where
  "add_params r action =
     [''-j'', action] @
     args_if (r_Conntrack r) [''-m'', ''conntrack''] @
     args_if (r_Ctstate r \<noteq> []) [''--ctstate'', str_join '','' (r_Ctstate r)] @
     args_if (r_Physdev r) [''-m'', ''physdev''] @
     args_if (r_PhysdevIsBridge r) [''--physdev-is-bridged''] @
     args_if (r_InputDev r \<noteq> []) [''-i'', r_InputDev r] @
     args_if (r_OutputDev r \<noteq> []) [''-o'', r_OutputDev r] @
     args_if (r_InputPhysdev r \<noteq> []) [''--physdev-in'', r_InputPhysdev r] @
     args_if (r_OutputPhysdev r \<noteq> []) [''--physdev-out'', r_OutputPhysdev r] @
     args_if (r_Protocol r \<noteq> [])
       ([''-p'', r_Protocol r] @ args_if (r_Protocol r = ''tcp'' \<and> r_Syn r) [''--syn'']) @
     args_if (r_SourcePort r > 0) [''--sport'', itoa (r_SourcePort r)] @
     args_if (r_DestPort r > 0) [''--dport'', itoa (r_DestPort r)] @
     args_if (r_NflogGroup r > 0) [''--nflog-group'', itoa (r_NflogGroup r)] @
     args_if (r_NflogPrefix r \<noteq> []) [''--nflog-prefix'', r_NflogPrefix r]"

definition insert_params :: "RuleModel \<Rightarrow> string \<Rightarrow> string list" where
  "insert_params r action =
     [''-j'', action] @
     args_if (r_Conntrack r) [''-m'', ''conntrack''] @
     args_if (r_Ctstate r \<noteq> []) [''--ctstate'', str_join '','' (r_Ctstate r)] @
     args_if (r_Physdev r) [''-m'', ''physdev''] @
     args_if (r_PhysdevIsBridge r) [''--physdev-is-bridged''] @
     args_if (r_InputDev r \<noteq> []) [''-i'', r_InputDev r] @
     args_if (r_OutputDev r \<noteq> []) [''-o'', r_OutputDev r] @
     args_if (r_InputPhysdev r \<noteq> []) [''--physdev-in'', r_InputPhysdev r] @
     args_if (r_OutputPhysdev r \<noteq> []) [''--physdev-out'', r_OutputPhysdev r] @
     args_if (r_Protocol r \<noteq> []) [''-p'', r_Protocol r] @
     args_if (r_Source r \<noteq> []) [''-s'', r_Source r] @
     args_if (r_SourcePort r > 0) [''--sport'', itoa (r_SourcePort r)] @
     args_if (r_Destination r \<noteq> []) [''-d'', r_Destination r] @
     args_if (r_DestPort r > 0) [''--dport'', itoa (r_DestPort r)] @
     args_if (r_NflogGroup r > 0) [''--nflog-group'', itoa (r_NflogGroup r)] @
     args_if (r_NflogPrefix r \<noteq> []) [''--nflog-prefix'', r_NflogPrefix r]"

definition CreateChain :: "'h runner \<Rightarrow> string \<Rightarrow> (unit, 'h) act" where
  "CreateChain run chainName =
     bnd (attempt (cmd_Run run [''iptables'', ''-L'', chainName])) (\<lambda>found.
       if is_ok found then cmd_Run run [''iptables'', ''-F'', chainName]
       else cmd_Run run [''iptables'', ''-N'', chainName])"

definition InsertForwardRule :: "'h runner \<Rightarrow> string \<Rightarrow> (unit, 'h) act" where
  "InsertForwardRule run chainName =
     bnd (attempt (cmd_Run run [''iptables'', ''-C'', ''FORWARD'', ''-j'', chainName])) (\<lambda>found.
       if is_ok found then ret ()
       else cmd_Run run [''iptables'', ''-I'', ''FORWARD'', ''1'', ''-j'', chainName])"

definition AddRuleToChain :: "'h runner \<Rightarrow> string \<Rightarrow> RuleModel \<Rightarrow> string \<Rightarrow> (unit, 'h) act" where
  "AddRuleToChain run chainName r action =
     bnd (attempt (cmd_Run run ([''iptables'', ''-C'', chainName] @ add_params r action))) (\<lambda>found.
       if is_ok found then ret ()
       else cmd_Run run ([''iptables'', ''-A'', chainName] @ add_params r action))"

definition InsertRuleToChain :: "'h runner \<Rightarrow> string \<Rightarrow> RuleModel \<Rightarrow> string \<Rightarrow> (unit, 'h) act" where
  "InsertRuleToChain run chainName r action =
     bnd (attempt (cmd_Run run ([''iptables'', ''-C'', chainName] @ insert_params r action))) (\<lambda>found.
       if is_ok found then ret ()
       else cmd_Run run ([''iptables'', ''-I'', chainName] @ insert_params r action))"

subsection \<open>What iptables does\<close>

text \<open>
  \<open>tables h (t, c)\<close> are the rules of chain \<open>c\<close> of table \<open>t\<close>, if there is such a chain;
  \<open>parse\<close> reads a specification as a rule.
\<close>

type_synonym 'r tables = "string \<times> string \<Rightarrow> 'r list option"

definition ipt :: "string \<Rightarrow> string list \<Rightarrow> command" where
  "ipt t args = ''iptables'' # (if t = ''filter'' then [] else [''-t'', t]) @ args"

text \<open>
  The effect of a command on a chain; \<open>None\<close> says that it fails and changes nothing.
\<close>

definition chain_cmd ::
  "'h runner \<Rightarrow> ('h \<Rightarrow> 'r tables) \<Rightarrow> command \<Rightarrow> string \<times> string \<Rightarrow> ('r list option \<Rightarrow> 'r list option) \<Rightarrow> bool" where
  "chain_cmd run tables cmd k f \<longleftrightarrow>
     (\<forall>h. case f (tables h k) of
        None \<Rightarrow> run cmd h = (False, h)
      | Some rs \<Rightarrow> fst (run cmd h) \<and> tables (snd (run cmd h)) = (tables h)(k \<mapsto> rs))"

definition with_rules :: "bool \<Rightarrow> ('r list \<Rightarrow> 'r list) \<Rightarrow> 'r list option \<Rightarrow> 'r list option" where
  "with_rules b f x = (if b then map_option f x else None)"

text \<open>A specification starts with an option.\<close>

definition opt_spec :: "string list \<Rightarrow> bool" where
  "opt_spec spec \<longleftrightarrow> spec \<noteq> [] \<and> has_prefix (hd spec) ''-''"

definition iptables_laws ::
  "'h runner \<Rightarrow> ('h \<Rightarrow> 'r tables) \<Rightarrow> (string list \<Rightarrow> 'r) \<Rightarrow> (string list \<Rightarrow> bool) \<Rightarrow> bool" where
  "iptables_laws run tables parse valid \<longleftrightarrow>
     (\<forall>t c h. run (ipt t [''-L'', c]) h = (tables h (t, c) \<noteq> None, h)) \<and>
     (\<forall>t c. chain_cmd run tables (ipt t [''-N'', c]) (t, c) (\<lambda>x. if x = None then Some [] else None)) \<and>
     (\<forall>t c. chain_cmd run tables (ipt t [''-F'', c]) (t, c) (with_rules True (\<lambda>_. []))) \<and>
     (\<forall>t c spec h. opt_spec spec \<longrightarrow> run (ipt t (''-C'' # c # spec)) h =
        (valid spec \<and> (\<exists>rs. tables h (t, c) = Some rs \<and> parse spec \<in> set rs), h)) \<and>
     (\<forall>t c spec. opt_spec spec \<longrightarrow> chain_cmd run tables (ipt t (''-A'' # c # spec)) (t, c)
        (with_rules (valid spec) (\<lambda>rs. rs @ [parse spec]))) \<and>
     (\<forall>t c spec. opt_spec spec \<longrightarrow> chain_cmd run tables (ipt t (''-I'' # c # spec)) (t, c)
        (with_rules (valid spec) (\<lambda>rs. parse spec # rs))) \<and>
     (\<forall>t c spec. opt_spec spec \<longrightarrow> chain_cmd run tables (ipt t (''-I'' # c # ''1'' # spec)) (t, c)
        (with_rules (valid spec) (\<lambda>rs. parse spec # rs))) \<and>
     (\<forall>t c spec. opt_spec spec \<longrightarrow> chain_cmd run tables (ipt t (''-D'' # c # spec)) (t, c)
        (\<lambda>x. with_rules (valid spec \<and> (\<exists>rs. x = Some rs \<and> parse spec \<in> set rs)) (remove1 (parse spec)) x))"

lemma laws_list: "iptables_laws run tables parse valid \<Longrightarrow> run (ipt t [''-L'', c]) h = (tables h (t, c) \<noteq> None, h)"
  by (simp add: iptables_laws_def)

lemma laws_check: "iptables_laws run tables parse valid \<Longrightarrow> opt_spec spec \<Longrightarrow> run (ipt t (''-C'' # c # spec)) h =
    (valid spec \<and> (\<exists>rs. tables h (t, c) = Some rs \<and> parse spec \<in> set rs), h)"
  by (simp add: iptables_laws_def)

lemma chain_cmd_ok:
  assumes "chain_cmd run tables cmd k f" "f (tables h k) = Some rs"
  shows "\<exists>h'. run cmd h = (True, h') \<and> tables h' = (tables h)(k \<mapsto> rs)"
proof -
  have "fst (run cmd h) \<and> tables (snd (run cmd h)) = (tables h)(k \<mapsto> rs)"
    using assms by (auto simp: chain_cmd_def dest: spec [of _ h])
  then show ?thesis by (intro exI [of _ "snd (run cmd h)"]) (simp add: prod_eq_iff)
qed

lemma chain_cmd_fail: "chain_cmd run tables cmd k f \<Longrightarrow> f (tables h k) = None \<Longrightarrow> run cmd h = (False, h)"
  by (auto simp: chain_cmd_def dest: spec [of _ h])

lemma laws_cmds:
  assumes "iptables_laws run tables parse valid"
  shows "chain_cmd run tables (ipt t [''-N'', c]) (t, c) (\<lambda>x. if x = None then Some [] else None)"
    and "chain_cmd run tables (ipt t [''-F'', c]) (t, c) (with_rules True (\<lambda>_. []))"
    and "opt_spec spec \<Longrightarrow> chain_cmd run tables (ipt t (''-A'' # c # spec)) (t, c)
      (with_rules (valid spec) (\<lambda>rs. rs @ [parse spec]))"
    and "opt_spec spec \<Longrightarrow> chain_cmd run tables (ipt t (''-I'' # c # spec)) (t, c)
      (with_rules (valid spec) (\<lambda>rs. parse spec # rs))"
    and "opt_spec spec \<Longrightarrow> chain_cmd run tables (ipt t (''-I'' # c # ''1'' # spec)) (t, c)
      (with_rules (valid spec) (\<lambda>rs. parse spec # rs))"
    and "opt_spec spec \<Longrightarrow> chain_cmd run tables (ipt t (''-D'' # c # spec)) (t, c)
      (\<lambda>x. with_rules (valid spec \<and> (\<exists>rs. x = Some rs \<and> parse spec \<in> set rs)) (remove1 (parse spec)) x)"
  using assms unfolding iptables_laws_def by blast+

lemma laws_new: "iptables_laws run tables parse valid \<Longrightarrow> tables h (t, c) = None \<Longrightarrow>
    \<exists>h'. run (ipt t [''-N'', c]) h = (True, h') \<and> tables h' = (tables h)((t, c) \<mapsto> [])"
  by (rule chain_cmd_ok [OF laws_cmds(1)]) (assumption | simp add: with_rules_def)+

lemma laws_flush: "iptables_laws run tables parse valid \<Longrightarrow> tables h (t, c) = Some rs \<Longrightarrow>
    \<exists>h'. run (ipt t [''-F'', c]) h = (True, h') \<and> tables h' = (tables h)((t, c) \<mapsto> [])"
  by (rule chain_cmd_ok [OF laws_cmds(2)]) (assumption | simp add: with_rules_def)+

lemma laws_append: "iptables_laws run tables parse valid \<Longrightarrow> opt_spec spec \<Longrightarrow> valid spec \<Longrightarrow> tables h (t, c) = Some rs \<Longrightarrow>
    \<exists>h'. run (ipt t (''-A'' # c # spec)) h = (True, h') \<and> tables h' = (tables h)((t, c) \<mapsto> rs @ [parse spec])"
  by (rule chain_cmd_ok [OF laws_cmds(3)]) (assumption | simp add: with_rules_def)+

lemma laws_insert: "iptables_laws run tables parse valid \<Longrightarrow> opt_spec spec \<Longrightarrow> valid spec \<Longrightarrow> tables h (t, c) = Some rs \<Longrightarrow>
    \<exists>h'. run (ipt t (''-I'' # c # spec)) h = (True, h') \<and> tables h' = (tables h)((t, c) \<mapsto> parse spec # rs)"
  by (rule chain_cmd_ok [OF laws_cmds(4)]) (assumption | simp add: with_rules_def)+

lemma laws_insert_first: "iptables_laws run tables parse valid \<Longrightarrow> opt_spec spec \<Longrightarrow> valid spec \<Longrightarrow> tables h (t, c) = Some rs \<Longrightarrow>
    \<exists>h'. run (ipt t (''-I'' # c # ''1'' # spec)) h = (True, h') \<and> tables h' = (tables h)((t, c) \<mapsto> parse spec # rs)"
  by (rule chain_cmd_ok [OF laws_cmds(5)]) (assumption | simp add: with_rules_def)+

lemma laws_insert_invalid: "iptables_laws run tables parse valid \<Longrightarrow> opt_spec spec \<Longrightarrow> \<not> valid spec \<Longrightarrow>
    run (ipt t (''-I'' # c # spec)) h = (False, h)"
  by (rule chain_cmd_fail [OF laws_cmds(4)]) (assumption | simp add: with_rules_def)+

lemma laws_delete: "iptables_laws run tables parse valid \<Longrightarrow> opt_spec spec \<Longrightarrow> valid spec \<Longrightarrow> tables h (t, c) = Some rs \<Longrightarrow>
    parse spec \<in> set rs \<Longrightarrow>
    \<exists>h'. run (ipt t (''-D'' # c # spec)) h = (True, h') \<and> tables h' = (tables h)((t, c) \<mapsto> remove1 (parse spec) rs)"
  by (rule chain_cmd_ok [OF laws_cmds(6)]) (assumption | simp add: with_rules_def)+

subsection \<open>A concrete table that obeys the laws\<close>

text \<open>
  For the examples: chains of specifications, in which every specification is valid.
\<close>

definition table_op :: "string \<Rightarrow> string list \<Rightarrow> string list list option \<Rightarrow> string list list option" where
  "table_op cmd spec x =
     (if cmd = ''-L'' then x
      else if cmd = ''-N'' then (if x = None then Some [] else None)
      else if cmd = ''-F'' then with_rules True (\<lambda>_. []) x
      else if cmd = ''-C'' then with_rules (\<exists>rs. x = Some rs \<and> spec \<in> set rs) (\<lambda>rs. rs) x
      else if cmd = ''-A'' then with_rules True (\<lambda>rs. rs @ [spec]) x
      else if cmd = ''-I'' then with_rules True (\<lambda>rs. (if hd spec = ''1'' then tl spec else spec) # rs) x
      else if cmd = ''-D'' then with_rules (\<exists>rs. x = Some rs \<and> spec \<in> set rs) (remove1 spec) x
      else None)"

definition table_run :: "string list tables runner" where
  "table_run cmd h =
     (let rest = tl cmd; t = (if hd rest = ''-t'' then hd (tl rest) else ''filter'');
          args = (if hd rest = ''-t'' then tl (tl rest) else rest); k = (t, hd (tl args)) in
      case table_op (hd args) (tl (tl args)) (h k) of
        None \<Rightarrow> (False, h)
      | Some rs \<Rightarrow> (True, h(k \<mapsto> rs)))"

lemma table_run_ipt:
  "cmd \<noteq> ''-t'' \<Longrightarrow> table_run (ipt t (cmd # c # spec)) h =
     (case table_op cmd spec (h (t, c)) of None \<Rightarrow> (False, h) | Some rs \<Rightarrow> (True, h((t, c) \<mapsto> rs)))"
  by (cases "t = ''filter''") (simp_all add: table_run_def ipt_def Let_def split: option.split)

lemma table_cmd:
  assumes "cmd \<noteq> ''-t''" "\<And>x. table_op cmd spec x = f x"
  shows "chain_cmd table_run (\<lambda>h. h) (ipt t (cmd # c # spec)) (t, c) f"
  unfolding chain_cmd_def table_run_ipt [OF assms(1)] by (auto simp: assms(2) split: option.split)

lemma table_laws: "iptables_laws table_run (\<lambda>h. h) (\<lambda>spec. spec) (\<lambda>spec. True)"
proof -
  have l: "table_run (ipt t [''-L'', c]) h = (h (t, c) \<noteq> None, h)" for t c h
    by (simp add: table_run_ipt table_op_def fun_upd_idem split: option.split)
  have k: "table_run (ipt t (''-C'' # c # spec)) h = (\<exists>rs. h (t, c) = Some rs \<and> spec \<in> set rs, h)" for t c spec h
    by (cases "h (t, c)") (auto simp: table_run_ipt table_op_def with_rules_def fun_upd_idem)
  have one: "hd spec \<noteq> ''1''" if "opt_spec spec" for spec
    using that by (auto simp: opt_spec_def has_prefix_def)
  show ?thesis
    unfolding iptables_laws_def
    by (intro conjI allI impI l table_cmd)
      (simp_all add: k one table_op_def with_rules_def)
qed

subsection \<open>The rule manager on chains\<close>

lemma manager_ipt:
  "AddRuleToChain run c r a = bnd (attempt (cmd_Run run (ipt ''filter'' (''-C'' # c # add_params r a))))
     (\<lambda>found. if is_ok found then ret () else cmd_Run run (ipt ''filter'' (''-A'' # c # add_params r a)))"
  "InsertRuleToChain run c r a = bnd (attempt (cmd_Run run (ipt ''filter'' (''-C'' # c # insert_params r a))))
     (\<lambda>found. if is_ok found then ret () else cmd_Run run (ipt ''filter'' (''-I'' # c # insert_params r a)))"
  by (simp_all add: AddRuleToChain_def InsertRuleToChain_def ipt_def cong: if_cong)

lemma params_opt: "opt_spec (add_params r a)" "opt_spec (insert_params r a)"
  by (simp_all add: opt_spec_def add_params_def insert_params_def has_prefix_def)

lemma ipt_filter: "''iptables'' # args = ipt ''filter'' args"
  by (simp add: ipt_def)

abbreviation fchain :: "string \<Rightarrow> string \<times> string" where
  "fchain c \<equiv> (''filter'', c)"

lemma CreateChain_effect:
  assumes "iptables_laws run tables parse valid"
  shows "\<exists>h'. CreateChain run c h = (Inr (), h') \<and> tables h' = (tables h)(fchain c \<mapsto> [])"
proof (cases "tables h (fchain c)")
  case None
  then obtain h' where h': "run (ipt ''filter'' [''-N'', c]) h = (True, h')" "tables h' = (tables h)(fchain c \<mapsto> [])"
    using laws_new [OF assms] by blast
  have "cmd_Run run (ipt ''filter'' [''-L'', c]) h = (Inl (command_failed (ipt ''filter'' [''-L'', c])), h)"
    using laws_list [OF assms] None by simp
  with h' show ?thesis by (simp add: CreateChain_def ipt_filter command_failed_def)
next
  case (Some rs)
  then obtain h' where h': "run (ipt ''filter'' [''-F'', c]) h = (True, h')" "tables h' = (tables h)(fchain c \<mapsto> [])"
    using laws_flush [OF assms] by blast
  have "cmd_Run run (ipt ''filter'' [''-L'', c]) h = (Inr (), h)" using laws_list [OF assms] Some by simp
  with h' show ?thesis by (simp add: CreateChain_def ipt_filter)
qed

text \<open>A rule that is there is not added again.\<close>

definition add_new :: "'r \<Rightarrow> 'r list \<Rightarrow> 'r list" where
  "add_new x rs = (if x \<in> set rs then rs else rs @ [x])"

definition put_new :: "'r \<Rightarrow> 'r list \<Rightarrow> 'r list" where
  "put_new x rs = (if x \<in> set rs then rs else x # rs)"

lemma AddRuleToChain_effect:
  assumes "iptables_laws run tables parse valid" "tables h (fchain c) = Some rs" "valid (add_params r a)"
  shows "\<exists>h'. AddRuleToChain run c r a h = (Inr (), h') \<and>
    tables h' = (tables h)(fchain c \<mapsto> add_new (parse (add_params r a)) rs)"
proof (cases "parse (add_params r a) \<in> set rs")
  case True
  then have "run (ipt ''filter'' (''-C'' # c # add_params r a)) h = (True, h)"
    using laws_check [OF assms(1) params_opt(1)] assms(2,3) by simp
  with True assms(2) show ?thesis by (simp add: manager_ipt add_new_def fun_upd_idem)
next
  case False
  then have "run (ipt ''filter'' (''-C'' # c # add_params r a)) h = (False, h)"
    using laws_check [OF assms(1) params_opt(1)] assms(2) by simp
  then have "attempt (cmd_Run run (ipt ''filter'' (''-C'' # c # add_params r a))) h = (Inr (Inl (command_failed (ipt ''filter'' (''-C'' # c # add_params r a)))), h)"
    by (simp add: command_failed_def)
  with laws_append [OF assms(1), OF params_opt(1) assms(3,2)] False show ?thesis
    by (auto simp: manager_ipt add_new_def)
qed

lemma InsertRuleToChain_effect:
  assumes "iptables_laws run tables parse valid" "tables h (fchain c) = Some rs" "valid (insert_params r a)"
  shows "\<exists>h'. InsertRuleToChain run c r a h = (Inr (), h') \<and>
    tables h' = (tables h)(fchain c \<mapsto> put_new (parse (insert_params r a)) rs)"
proof (cases "parse (insert_params r a) \<in> set rs")
  case True
  then have "run (ipt ''filter'' (''-C'' # c # insert_params r a)) h = (True, h)"
    using laws_check [OF assms(1) params_opt(2)] assms(2,3) by simp
  with True assms(2) show ?thesis by (simp add: manager_ipt put_new_def fun_upd_idem)
next
  case False
  then have "run (ipt ''filter'' (''-C'' # c # insert_params r a)) h = (False, h)"
    using laws_check [OF assms(1) params_opt(2)] assms(2) by simp
  then have "attempt (cmd_Run run (ipt ''filter'' (''-C'' # c # insert_params r a))) h = (Inr (Inl (command_failed (ipt ''filter'' (''-C'' # c # insert_params r a)))), h)"
    by (simp add: command_failed_def)
  with laws_insert [OF assms(1), OF params_opt(2) assms(3,2)] False show ?thesis
    by (auto simp: manager_ipt put_new_def)
qed

lemma InsertRuleToChain_invalid:
  assumes "iptables_laws run tables parse valid" "\<not> valid (insert_params r a)"
  shows "\<exists>e. InsertRuleToChain run c r a h = (Inl (Err e), h)"
proof -
  have "run (ipt ''filter'' (''-C'' # c # insert_params r a)) h = (False, h)"
    "run (ipt ''filter'' (''-I'' # c # insert_params r a)) h = (False, h)"
    using laws_check [OF assms(1) params_opt(2)] laws_insert_invalid [OF assms(1) params_opt(2)] assms(2) by simp_all
  then show ?thesis
    by (simp add: manager_ipt command_failed_def)
qed

end
