(* ===== verification/Policy_Service.thy ===== *)
theory Policy_Service
  imports Daemon Iptables
begin

text \<open>
  The policy service (\<open>src/internal/core/policy/service.go\<close>): user policies are added, marked for
  removal and listed in the policy store; \<open>CommitPolicy\<close> rebuilds the packet filter chains from
  the networks and the policies and records the policy in force.
\<close>

subsection \<open>Editing policies\<close>

record ServiceAddPolicyModel =
  ap_ChainName :: string
  ap_Source :: string
  ap_Destination :: string
  ap_Protocol :: string
  ap_DestPort :: int
  ap_Comment :: string

definition resolveContainerNameAndInfo :: "string \<Rightarrow> (string \<times> string, 'h daemon) act" where
  "resolveContainerNameAndInfo str =
     bnd (attempt (csm_do (query (GetContainerIdByName str)))) (\<lambda>byName.
       case byName of
         Inr got \<Rightarrow> ret (got, str)
       | Inl _ \<Rightarrow> bnd (attempt (csm_do (query (GetContainerNameById str)))) (\<lambda>byId.
           case byId of
             Inr got \<Rightarrow> ret (str, got)
           | Inl _ \<Rightarrow> ret ('''', str)))"

text \<open>\<open>policyId\<close> is the new ULID.\<close>

definition AddUserPolicy :: "string \<Rightarrow> ServiceAddPolicyModel \<Rightarrow> (string, 'h daemon) act" where
  "AddUserPolicy policyId param =
     bnd (resolveContainerNameAndInfo (ap_Source param)) (\<lambda>(_, srcContainerName).
     bnd (if ap_ChainName param = ''RAIND-EW''
          then bnd (resolveContainerNameAndInfo (ap_Destination param)) (\<lambda>(_, dstContainerName).
                 ret \<lparr>h_ContainerName = dstContainerName, h_Address = ''''\<rparr>)
          else ret \<lparr>h_ContainerName = '''', h_Address = ap_Destination param\<rparr>) (\<lambda>dstHost.
     seq (npm_do (upd (AddPolicy (ap_ChainName param)
         \<lparr>pol_Id = policyId, pol_Status = ''before_commit'', pol_Reason = '''',
          pol_Source = \<lparr>h_ContainerName = srcContainerName, h_Address = ''''\<rparr>, pol_Destination = dstHost,
          pol_Protocol = ap_Protocol param, pol_DestPort = ap_DestPort param, pol_Comment = ap_Comment param\<rparr>)))
       (ret policyId)))"

definition RemoveUserPolicy :: "string \<Rightarrow> (unit, 'h daemon) act" where
  "RemoveUserPolicy policyId =
     bnd (npm_do (query (GetPolicyChain policyId))) (\<lambda>chainName.
       npm_do (upd (UpdateStatus chainName policyId ''remove_next_commit'' ''user operation'')))"

definition RevertPolicy :: "npm_faults \<Rightarrow> npm_files \<Rightarrow> unit result \<times> npm_files" where
  "RevertPolicy = Revert"

record PolicyInfo =
  pi_Id :: string
  pi_Status :: string
  pi_Reason :: string
  pi_Source :: HostInfo
  pi_Destination :: HostInfo
  pi_Protocol :: string
  pi_DestPort :: int
  pi_Comment :: string

record PolicyListModel =
  pl_Mode :: string
  pl_PoliciesTotal :: nat
  pl_Policies :: "PolicyInfo list"

definition policy_info :: "HostInfo \<Rightarrow> Policy \<Rightarrow> PolicyInfo" where
  "policy_info dst p = \<lparr>pi_Id = pol_Id p, pi_Status = pol_Status p, pi_Reason = pol_Reason p,
     pi_Source = \<lparr>h_ContainerName = h_ContainerName (pol_Source p), h_Address = ''''\<rparr>, pi_Destination = dst,
     pi_Protocol = pol_Protocol p, pi_DestPort = pol_DestPort p, pi_Comment = pol_Comment p\<rparr>"

definition ew_info :: "Policy \<Rightarrow> PolicyInfo" where
  "ew_info p = policy_info \<lparr>h_ContainerName = h_ContainerName (pol_Destination p), h_Address = ''''\<rparr> p"

definition ns_info :: "Policy \<Rightarrow> PolicyInfo" where
  "ns_info p = policy_info \<lparr>h_ContainerName = '''', h_Address = h_Address (pol_Destination p)\<rparr> p"

definition list_model :: "(Policy \<Rightarrow> PolicyInfo) \<Rightarrow> string \<Rightarrow> Policy list \<Rightarrow> PolicyListModel" where
  "list_model f mode ps = \<lparr>pl_Mode = mode, pl_PoliciesTotal = length ps, pl_Policies = map f ps\<rparr>"

definition GetPolicyList :: "string \<Rightarrow> (PolicyListModel, 'h daemon) act" where
  "GetPolicyList chain =
     (if chain = ''RAIND-EW'' then
        bnd (npm_read '''' GetEWMode) (\<lambda>mode. bnd (npm_read [] GetEWPolicyList) (\<lambda>ps. ret (list_model ew_info mode ps)))
      else if chain = ''RAIND-NS-OBS'' then
        bnd (npm_read '''' GetNSMode) (\<lambda>mode. bnd (npm_read [] GetNSObsPolicyList) (\<lambda>ps. ret (list_model ns_info mode ps)))
      else if chain = ''RAIND-NS-ENF'' then
        bnd (npm_read '''' GetNSMode) (\<lambda>mode. bnd (npm_read [] GetNSEnfPolicyList) (\<lambda>ps. ret (list_model ns_info mode ps)))
      else ret \<lparr>pl_Mode = '''', pl_PoliciesTotal = 0, pl_Policies = []\<rparr>)"

definition svc_ChangeNSMode :: "string \<Rightarrow> (unit, 'h daemon) act" where
  "svc_ChangeNSMode mode =
     (if mode \<noteq> ''enforce'' \<and> mode \<noteq> ''observe'' then fail (Err (''invalid mode: '' @ mode))
      else bnd (npm_read '''' GetNSMode) (\<lambda>current.
        if current = mode then fail (Err (''NS Mode already set in: '' @ current))
        else npm_do (upd (ChangeNSMode (mode @ ''_next_commit'')))))"

definition FixNSMode :: "(unit, 'h daemon) act" where
  "FixNSMode =
     bnd (npm_read '''' GetNSMode) (\<lambda>current.
       if current = ''observe'' \<or> current = ''enforce'' then ret ()
       else if str_contains current ''_next_commit''
       then npm_do (upd (ChangeNSMode (hd (split_on (CHR ''_'') current))))
       else ret ())"

subsection \<open>The predefined chains\<close>

definition add_rule :: "'h runner \<Rightarrow> string \<Rightarrow> RuleModel \<Rightarrow> string \<Rightarrow> (unit, 'h daemon) act" where
  "add_rule run c r a = on_host (AddRuleToChain run c r a)"

definition createChain :: "'h runner \<Rightarrow> (unit, 'h daemon) act" where
  "createChain run = for_each (\<lambda>c. on_host (CreateChain run c)) [''RAIND-ROOT'', ''RAIND-EW'', ''RAIND-NS-OBS'', ''RAIND-NS-ENF'']"

definition insertForward :: "'h runner \<Rightarrow> (unit, 'h daemon) act" where
  "insertForward run = on_host (InsertForwardRule run ''RAIND-ROOT'')"

definition buildRaindRootChain :: "'h runner \<Rightarrow> bool \<Rightarrow> (unit, 'h daemon) act" where
  "buildRaindRootChain run enforce =
     (let c = ''RAIND-ROOT'' in
      seq (add_rule run c (rule0\<lparr>r_Conntrack := True, r_Ctstate := [''ESTABLISHED'', ''RELATED'']\<rparr>) ''ACCEPT'')
     (seq (add_rule run c rule0 ''RAIND-EW'')
     (seq (if enforce then add_rule run c rule0 ''RAIND-NS-ENF'' else add_rule run c rule0 ''RAIND-NS-OBS'')
          (add_rule run c rule0 ''RETURN''))))"

definition ct_new :: RuleModel where
  "ct_new = rule0\<lparr>r_Conntrack := True, r_Ctstate := [''NEW'']\<rparr>"

definition buildRaindEWChain :: "'h runner \<Rightarrow> NetworkList list \<Rightarrow> bool \<Rightarrow> (unit, 'h daemon) act" where
  "buildRaindEWChain run networkList nflog =
     (let c = ''RAIND-EW'' in
      seq (if nflog then for_each (\<lambda>n. add_rule run c (ct_new\<lparr>r_Physdev := True, r_PhysdevIsBridge := True,
             r_InputDev := nl_Interface n, r_OutputDev := nl_Interface n, r_NflogGroup := 10,
             r_NflogPrefix := ''RAIND-EW-DENY,id=predefined''\<rparr>) ''NFLOG'') networkList else ret ())
     (seq (for_each (\<lambda>n. add_rule run c (rule0\<lparr>r_InputDev := nl_Interface n, r_OutputDev := nl_Interface n\<rparr>) ''DROP'') networkList)
     (seq (if nflog then add_rule run c (ct_new\<lparr>r_InputDev := ''raind+'', r_OutputDev := ''raind+'', r_NflogGroup := 10,
             r_NflogPrefix := ''RAIND-EW-DENY,id=predefined''\<rparr>) ''NFLOG'' else ret ())
     (seq (add_rule run c (rule0\<lparr>r_InputDev := ''raind+'', r_OutputDev := ''raind+''\<rparr>) ''DROP'')
          (add_rule run c rule0 ''RETURN'')))))"

definition buildRaindNSObserveChain :: "'h runner \<Rightarrow> NetworkList list \<Rightarrow> bool \<Rightarrow> (unit, 'h daemon) act" where
  "buildRaindNSObserveChain run networkList nflog =
     (let c = ''RAIND-NS-OBS'' in
      bnd (ipam_do (query GetDefaultInterface)) (\<lambda>hostInterface.
      seq (for_each (\<lambda>n.
             seq (if nflog then
                  seq (add_rule run c (ct_new\<lparr>r_InputDev := hostInterface, r_OutputDev := nl_Interface n, r_Protocol := ''tcp'',
                        r_Syn := True, r_NflogGroup := 11, r_NflogPrefix := ''RAIND-NS-ALLOW,id=predefined''\<rparr>) ''NFLOG'')
                 (seq (add_rule run c (ct_new\<lparr>r_InputDev := hostInterface, r_OutputDev := nl_Interface n, r_Protocol := ''udp'',
                        r_NflogGroup := 11, r_NflogPrefix := ''RAIND-NS-ALLOW,id=predefined''\<rparr>) ''NFLOG'')
                      (add_rule run c (ct_new\<lparr>r_InputDev := nl_Interface n, r_OutputDev := hostInterface,
                        r_NflogGroup := 11, r_NflogPrefix := ''RAIND-NS-ALLOW,id=predefined''\<rparr>) ''NFLOG''))
                  else ret ())
             (add_rule run c (rule0\<lparr>r_InputDev := nl_Interface n, r_OutputDev := hostInterface\<rparr>) ''ACCEPT'')) networkList)
          (add_rule run c rule0 ''RETURN'')))"

definition buildRaindNSEnforceChain :: "'h runner \<Rightarrow> NetworkList list \<Rightarrow> bool \<Rightarrow> (unit, 'h daemon) act" where
  "buildRaindNSEnforceChain run networkList nflog =
     (let c = ''RAIND-NS-ENF'' in
      bnd (ipam_do (query GetDefaultInterface)) (\<lambda>hostInterface.
      seq (if nflog then for_each (\<lambda>n. add_rule run c (ct_new\<lparr>r_InputDev := nl_Interface n, r_OutputDev := hostInterface,
             r_NflogGroup := 12, r_NflogPrefix := ''RAIND-NS-DENY,id=predefined''\<rparr>) ''NFLOG'') networkList else ret ())
     (seq (for_each (\<lambda>n. add_rule run c (rule0\<lparr>r_InputDev := nl_Interface n, r_OutputDev := hostInterface\<rparr>) ''DROP'') networkList)
          (add_rule run c rule0 ''RETURN''))))"

definition BuildPredefinedPolicy :: "'h runner \<Rightarrow> (unit, 'h daemon) act" where
  "BuildPredefinedPolicy run =
     bnd (ipam_do (query GetNetworkList)) (\<lambda>networkList.
     bnd (npm_read False IsNsEnforce) (\<lambda>enforce.
     bnd (npm_read False GetEWLogging) (\<lambda>loggingEw.
     bnd (npm_read False GetNSLogging) (\<lambda>loggingNs.
     seq (createChain run)
    (seq (insertForward run)
    (seq (buildRaindRootChain run enforce)
    (seq (buildRaindEWChain run networkList loggingEw)
         (if enforce then buildRaindNSEnforceChain run networkList loggingNs
          else buildRaindNSObserveChain run networkList loggingNs))))))))"

subsection \<open>User policies and commit\<close>

definition insert_rule :: "'h runner \<Rightarrow> string \<Rightarrow> RuleModel \<Rightarrow> string \<Rightarrow> (unit, 'h daemon) act" where
  "insert_rule run c r a = on_host (InsertRuleToChain run c r a)"

text \<open>\<open>if err := m(); err != nil { continue }; k\<close> in a loop body.\<close>

definition or_continue :: "(unit, 's) act \<Rightarrow> (unit, 's) act \<Rightarrow> (unit, 's) act" where
  "or_continue m k = bnd (attempt m) (\<lambda>r. if is_ok r then k else ret ())"

definition not_found_reason :: "string \<Rightarrow> string" where
  "not_found_reason name = ''container: '' @ name @ '' not found''"

definition ew_accept :: "Policy \<Rightarrow> string \<Rightarrow> string \<Rightarrow> RuleModel" where
  "ew_accept p srcVeth dstVeth = rule0\<lparr>r_Physdev := True, r_PhysdevIsBridge := True, r_InputPhysdev := srcVeth,
     r_OutputPhysdev := dstVeth, r_Protocol := pol_Protocol p, r_DestPort := pol_DestPort p\<rparr>"

definition ew_nflog :: "Policy \<Rightarrow> string \<Rightarrow> string \<Rightarrow> RuleModel" where
  "ew_nflog p srcVeth dstVeth = (ew_accept p srcVeth dstVeth)\<lparr>r_Conntrack := True, r_Ctstate := [''NEW''],
     r_NflogGroup := 10, r_NflogPrefix := ''RAIND-EW-ALLOW,id='' @ pol_Id p\<rparr>"

text \<open>The loop body of \<open>insertRaindEWUserPolicy\<close>.\<close>

definition insert_ew_policy :: "'h runner \<Rightarrow> bool \<Rightarrow> Policy \<Rightarrow> (unit, 'h daemon) act" where
  "insert_ew_policy run logging p =
     (let c = ''RAIND-EW'' in
      if pol_Status p = ''remove_next_commit'' then npm_do (upd (RemovePolicy (pol_Id p)))
      else
        bnd (resolveContainerNameAndInfo (h_ContainerName (pol_Source p))) (\<lambda>(srcContainerId, _).
        bnd (resolveContainerNameAndInfo (h_ContainerName (pol_Destination p))) (\<lambda>(dstContainerId, _).
        bnd (attempt (ipam_do (query (GetVethById srcContainerId)))) (\<lambda>src.
          case src of
            Inl _ \<Rightarrow> npm_do (upd (UpdateStatus c (pol_Id p) ''unresolved'' (not_found_reason (h_ContainerName (pol_Source p)))))
          | Inr srcVeth \<Rightarrow>
            bnd (attempt (ipam_do (query (GetVethById dstContainerId)))) (\<lambda>dst.
              case dst of
                Inl _ \<Rightarrow> npm_do (upd (UpdateStatus c (pol_Id p) ''unresolved'' (not_found_reason (h_ContainerName (pol_Destination p)))))
              | Inr dstVeth \<Rightarrow>
                or_continue (insert_rule run c (ew_accept p srcVeth dstVeth) ''ACCEPT'')
               (or_continue (if logging then insert_rule run c (ew_nflog p srcVeth dstVeth) ''NFLOG'' else ret ())
               (or_continue (npm_do (upd (UpdateStatus c (pol_Id p) ''applied'' '''')))
                 (ret ()))))))))"

definition insertRaindEWUserPolicy :: "'h runner \<Rightarrow> Policy list \<Rightarrow> bool \<Rightarrow> (unit, 'h daemon) act" where
  "insertRaindEWUserPolicy run policies logging = for_each (insert_ew_policy run logging) policies"

definition ns_rule :: "Policy \<Rightarrow> string \<Rightarrow> string \<Rightarrow> string \<Rightarrow> RuleModel" where
  "ns_rule p bridgeDev srcAddress dstDev = rule0\<lparr>r_InputDev := bridgeDev, r_Source := srcAddress, r_OutputDev := dstDev,
     r_Destination := h_Address (pol_Destination p), r_Protocol := pol_Protocol p, r_DestPort := pol_DestPort p\<rparr>"

definition ns_action :: "string \<Rightarrow> string" where
  "ns_action chainName = (if chainName = ''RAIND-NS-OBS'' then ''DROP'' else ''ACCEPT'')"

definition ns_nflog :: "string \<Rightarrow> Policy \<Rightarrow> string \<Rightarrow> string \<Rightarrow> string \<Rightarrow> RuleModel" where
  "ns_nflog chainName p bridgeDev srcAddress dstDev =
     (ns_rule p bridgeDev srcAddress dstDev)\<lparr>r_Conntrack := True, r_Ctstate := [''NEW''],
       r_NflogGroup := (if chainName = ''RAIND-NS-OBS'' then 11 else 12),
       r_NflogPrefix := (if chainName = ''RAIND-NS-OBS'' then ''RAIND-NS-DENY,id='' else ''RAIND-NS-ALLOW,id='') @ pol_Id p\<rparr>"

text \<open>The loop body of \<open>insertRaindNSUserPolicy\<close>; the errors of the two lookups are dropped.\<close>

definition insert_ns_policy :: "'h runner \<Rightarrow> string \<Rightarrow> bool \<Rightarrow> Policy \<Rightarrow> (unit, 'h daemon) act" where
  "insert_ns_policy run c logging p =
     (if pol_Status p = ''remove_next_commit'' then npm_do (upd (RemovePolicy (pol_Id p)))
      else
        bnd (resolveContainerNameAndInfo (h_ContainerName (pol_Source p))) (\<lambda>(srcContainerId, _).
        bnd (attempt (ipam_do (query (GetVethById srcContainerId)))) (\<lambda>src.
          case src of
            Inl _ \<Rightarrow> npm_do (upd (UpdateStatus c (pol_Id p) ''unresolved'' (not_found_reason (h_ContainerName (pol_Source p)))))
          | Inr _ \<Rightarrow>
            bnd (attempt (ipam_do (query (GetContainerAddress srcContainerId)))) (\<lambda>adr.
            bnd (attempt (ipam_do (query GetDefaultInterface))) (\<lambda>dev.
              let (bridgeDev, srcAddress) = (case adr of Inr (_, b, a) \<Rightarrow> (b, a) | Inl _ \<Rightarrow> ('''', ''''));
                  dstDev = (case dev of Inr x \<Rightarrow> x | Inl _ \<Rightarrow> '''') in
                or_continue (insert_rule run c (ns_rule p bridgeDev srcAddress dstDev) (ns_action c))
               (or_continue (if logging then insert_rule run c (ns_nflog c p bridgeDev srcAddress dstDev) ''NFLOG'' else ret ())
               (or_continue (npm_do (upd (UpdateStatus c (pol_Id p) ''applied'' '''')))
                 (ret ()))))))))"

definition insertRaindNSUserPolicy :: "'h runner \<Rightarrow> string \<Rightarrow> Policy list \<Rightarrow> bool \<Rightarrow> (unit, 'h daemon) act" where
  "insertRaindNSUserPolicy run chainName policies logging = for_each (insert_ns_policy run chainName logging) policies"

text \<open>The errors of the first two insertions are overwritten.\<close>

definition BuildUserPolicy :: "'h runner \<Rightarrow> (unit, 'h daemon) act" where
  "BuildUserPolicy run =
     bnd (npm_read False GetEWLogging) (\<lambda>loggingEw.
     bnd (npm_read False GetNSLogging) (\<lambda>loggingNs.
     bnd (npm_read [] GetEWPolicyList) (\<lambda>ewPolicies.
     bnd (attempt (insertRaindEWUserPolicy run ewPolicies loggingEw)) (\<lambda>_.
     bnd (npm_read [] GetNSObsPolicyList) (\<lambda>nsObsPolicies.
     bnd (attempt (insertRaindNSUserPolicy run ''RAIND-NS-OBS'' nsObsPolicies loggingNs)) (\<lambda>_.
     bnd (npm_read [] GetNSEnfPolicyList) (\<lambda>nsEnfPolicies.
       insertRaindNSUserPolicy run ''RAIND-NS-ENF'' nsEnfPolicies loggingNs)))))))"

text \<open>
  \<open>Backup\<close> of the policy file seen from the service: opening the files may fail (a missing policy
  file included), then copying may fail and leave a part of the copy.
\<close>

definition backup_policy :: "(unit, 'h daemon) act" where
  "backup_policy d =
     (case next_io (d_io d) of
        (Some e, io) \<Rightarrow> (Inl e, d\<lparr>d_io := io\<rparr>)
      | (None, io) \<Rightarrow> (case next_io io of
          (Some e, io') \<Rightarrow> (Inl e, d\<lparr>d_io := io', d_running := Garbage\<rparr>)
        | (None, io') \<Rightarrow> (Inr (), d\<lparr>d_io := io', d_running := Doc (d_npm d)\<rparr>)))"

definition CommitPolicy :: "'h runner \<Rightarrow> (unit, 'h daemon) act" where
  "CommitPolicy run = seq FixNSMode (seq (BuildPredefinedPolicy run) (seq (BuildUserPolicy run) backup_policy))"

end
