(* ===== verification/Policy_Commit.thy ===== *)
theory Policy_Commit
  imports Policy_Service
begin

text \<open>
  What a commit builds.  The chains and the policy lists after \<open>CommitPolicy\<close> are given by a
  reference definition: the predefined rules in order, the rules of the user policies in front of
  them, and each policy with the status its rules gave it.
\<close>

subsection \<open>Loops over rules\<close>

lemma for_each_append: "for_each f (xs @ ys) s = seq (for_each f xs) (for_each f ys) s"
  by (induction xs arbitrary: s) (auto simp: seq_def bnd_def split: prod.splits sum.splits)

lemma for_each_single: "for_each f [x] s = f x s"
  by (auto split: prod.splits sum.splits)

lemma for_each_concat: "for_each (\<lambda>x. for_each f (g x)) xs s = for_each f (concat (map g xs)) s"
  by (induction xs arbitrary: s) (auto simp: for_each_append seq_def bnd_def split: prod.splits sum.splits)

lemma for_each_map: "for_each f (map g xs) s = for_each (\<lambda>x. f (g x)) xs s"
  by (induction xs arbitrary: s) (auto split: prod.splits sum.splits)

lemma seq_assoc: "seq (seq a b) c = seq a (seq b c)"
  by (auto simp: fun_eq_iff seq_def bnd_def split: prod.splits sum.splits)

definition add_rules :: "'h runner \<Rightarrow> string \<Rightarrow> (RuleModel \<times> string) list \<Rightarrow> (unit, 'h daemon) act" where
  "add_rules run c rules = for_each (\<lambda>(r, a). add_rule run c r a) rules"

lemma add_rules_simps:
  "seq (ret ()) m = m"
  "add_rule run c r a = add_rules run c [(r, a)]"
  "seq (add_rules run c xs) (add_rules run c ys) = add_rules run c (xs @ ys)"
  "for_each (\<lambda>n. add_rules run c (g n)) ns = add_rules run c (concat (map g ns))"
  "(if b then add_rules run c xs else add_rules run c ys) = add_rules run c (if b then xs else ys)"
  by (auto simp: fun_eq_iff add_rules_def for_each_single for_each_append for_each_concat seq_def bnd_def simp del: for_each.simps(2))

subsection \<open>The predefined rules\<close>

definition root_rules :: "bool \<Rightarrow> (RuleModel \<times> string) list" where
  "root_rules enforce =
     [(rule0\<lparr>r_Conntrack := True, r_Ctstate := [''ESTABLISHED'', ''RELATED'']\<rparr>, ''ACCEPT''), (rule0, ''RAIND-EW''),
      (rule0, if enforce then ''RAIND-NS-ENF'' else ''RAIND-NS-OBS''), (rule0, ''RETURN'')]"

definition logged :: "bool \<Rightarrow> 'a list \<Rightarrow> 'a list" where
  "logged nflog rs = (if nflog then rs else [])"

definition ew_rules :: "NetworkList list \<Rightarrow> bool \<Rightarrow> (RuleModel \<times> string) list" where
  "ew_rules nets nflog =
     logged nflog (map (\<lambda>n. (ct_new\<lparr>r_Physdev := True, r_PhysdevIsBridge := True, r_InputDev := nl_Interface n,
        r_OutputDev := nl_Interface n, r_NflogGroup := 10, r_NflogPrefix := ''RAIND-EW-DENY,id=predefined''\<rparr>, ''NFLOG'')) nets) @
     map (\<lambda>n. (rule0\<lparr>r_InputDev := nl_Interface n, r_OutputDev := nl_Interface n\<rparr>, ''DROP'')) nets @
     logged nflog [(ct_new\<lparr>r_InputDev := ''raind+'', r_OutputDev := ''raind+'', r_NflogGroup := 10,
        r_NflogPrefix := ''RAIND-EW-DENY,id=predefined''\<rparr>, ''NFLOG'')] @
     [(rule0\<lparr>r_InputDev := ''raind+'', r_OutputDev := ''raind+''\<rparr>, ''DROP''), (rule0, ''RETURN'')]"

definition obs_rules :: "string \<Rightarrow> NetworkList list \<Rightarrow> bool \<Rightarrow> (RuleModel \<times> string) list" where
  "obs_rules host nets nflog =
     concat (map (\<lambda>n. logged nflog
        [(ct_new\<lparr>r_InputDev := host, r_OutputDev := nl_Interface n, r_Protocol := ''tcp'', r_Syn := True, r_NflogGroup := 11,
            r_NflogPrefix := ''RAIND-NS-ALLOW,id=predefined''\<rparr>, ''NFLOG''),
         (ct_new\<lparr>r_InputDev := host, r_OutputDev := nl_Interface n, r_Protocol := ''udp'', r_NflogGroup := 11,
            r_NflogPrefix := ''RAIND-NS-ALLOW,id=predefined''\<rparr>, ''NFLOG''),
         (ct_new\<lparr>r_InputDev := nl_Interface n, r_OutputDev := host, r_NflogGroup := 11,
            r_NflogPrefix := ''RAIND-NS-ALLOW,id=predefined''\<rparr>, ''NFLOG'')] @
        [(rule0\<lparr>r_InputDev := nl_Interface n, r_OutputDev := host\<rparr>, ''ACCEPT'')]) nets) @
     [(rule0, ''RETURN'')]"

definition enf_rules :: "string \<Rightarrow> NetworkList list \<Rightarrow> bool \<Rightarrow> (RuleModel \<times> string) list" where
  "enf_rules host nets nflog =
     logged nflog (map (\<lambda>n. (ct_new\<lparr>r_InputDev := nl_Interface n, r_OutputDev := host, r_NflogGroup := 12,
        r_NflogPrefix := ''RAIND-NS-DENY,id=predefined''\<rparr>, ''NFLOG'')) nets) @
     map (\<lambda>n. (rule0\<lparr>r_InputDev := nl_Interface n, r_OutputDev := host\<rparr>, ''DROP'')) nets @
     [(rule0, ''RETURN'')]"

lemma root_chain: "buildRaindRootChain run enforce = add_rules run ''RAIND-ROOT'' (root_rules enforce)"
  unfolding buildRaindRootChain_def Let_def add_rules_simps root_rules_def
  by (cases enforce) simp_all

lemma concat_singles: "concat (map (\<lambda>x. [f x]) xs) = map f xs"
  by (induction xs) simp_all

lemma ew_chain: "buildRaindEWChain run nets nflog = add_rules run ''RAIND-EW'' (ew_rules nets nflog)"
  by (cases nflog) (simp_all add: buildRaindEWChain_def ew_rules_def add_rules_simps logged_def concat_singles)

lemma obs_chain: "buildRaindNSObserveChain run nets nflog =
    bnd (ipam_do (query GetDefaultInterface)) (\<lambda>host. add_rules run ''RAIND-NS-OBS'' (obs_rules host nets nflog))"
  by (cases nflog) (simp_all add: buildRaindNSObserveChain_def obs_rules_def add_rules_simps logged_def)

lemma enf_chain: "buildRaindNSEnforceChain run nets nflog =
    bnd (ipam_do (query GetDefaultInterface)) (\<lambda>host. add_rules run ''RAIND-NS-ENF'' (enf_rules host nets nflog))"
  by (cases nflog) (simp_all add: buildRaindNSEnforceChain_def enf_rules_def add_rules_simps logged_def concat_singles)

subsection \<open>Building the predefined chains\<close>

definition specs :: "(RuleModel \<times> string) list \<Rightarrow> string list list" where
  "specs rules = map (\<lambda>(r, a). add_params r a) rules"

lemma add_rules_effect:
  assumes "iptables_laws run tables parse valid" "tables (d_host d) (fchain c) = Some rs"
    "\<forall>s \<in> set (specs rules). valid s"
  shows "\<exists>h'. add_rules run c rules d = (Inr (), d\<lparr>d_host := h'\<rparr>) \<and>
    tables h' = (tables (d_host d))(fchain c \<mapsto> fold add_new (map parse (specs rules)) rs)"
  using assms(2,3)
proof (induction rules arbitrary: d rs)
  case Nil
  then show ?case by (intro exI [of _ "d_host d"]) (simp add: add_rules_def specs_def fun_upd_idem)
next
  case (Cons ra rules)
  obtain r a where ra: "ra = (r, a)" by (cases ra)
  let ?s = "parse (add_params r a)"
  have "valid (add_params r a)" using Cons.prems(2) ra by (simp add: specs_def)
  then obtain h where "AddRuleToChain run c r a (d_host d) = (Inr (), h)"
    and t: "tables h = (tables (d_host d))(fchain c \<mapsto> add_new ?s rs)"
    using AddRuleToChain_effect [OF assms(1), OF Cons.prems(1)] by blast
  then have h: "add_rule run c r a d = (Inr (), d\<lparr>d_host := h\<rparr>)" by (simp add: add_rule_def on_host_def)
  have v: "\<forall>s \<in> set (specs rules). valid s" using Cons.prems(2) by (simp add: specs_def)
  have th: "tables (d_host (d\<lparr>d_host := h\<rparr>)) (fchain c) = Some (add_new ?s rs)" by (simp add: t)
  obtain h' where h': "add_rules run c rules (d\<lparr>d_host := h\<rparr>) = (Inr (), d\<lparr>d_host := h'\<rparr>)"
    "tables h' = (tables h)(fchain c \<mapsto> fold add_new (map parse (specs rules)) (add_new ?s rs))"
    using Cons.IH [OF th v] by (elim exE conjE) (rule that, simp_all add: fun_upd_def)
  from h h' t show ?case by (auto simp: ra add_rules_def specs_def)
qed

lemma add_rules_chain:
  assumes "iptables_laws run tables parse valid" "tables (d_host d) (fchain c) = Some []"
    "\<forall>s \<in> set (specs rules). valid s"
  obtains h where "add_rules run c rules d = (Inr (), d\<lparr>d_host := h\<rparr>)"
    "tables h = (tables (d_host d))(fchain c \<mapsto> fold add_new (map parse (specs rules)) [])"
  using add_rules_effect [OF assms] by blast

lemma createChain_effect:
  assumes "iptables_laws run tables parse valid"
  obtains h where "createChain run d = (Inr (), d\<lparr>d_host := h\<rparr>)"
    "tables h = (tables (d_host d))(fchain ''RAIND-ROOT'' \<mapsto> [], fchain ''RAIND-EW'' \<mapsto> [],
       fchain ''RAIND-NS-OBS'' \<mapsto> [], fchain ''RAIND-NS-ENF'' \<mapsto> [])"
proof -
  have step: "\<exists>h'. on_host (CreateChain run c) d = (Inr (), d\<lparr>d_host := h'\<rparr>) \<and>
      tables h' = (tables (d_host d))(fchain c \<mapsto> [])" for c d
    using CreateChain_effect [OF assms, of c "d_host d"] by (auto simp: on_host_def)
  obtain a where a: "on_host (CreateChain run ''RAIND-ROOT'') d = (Inr (), d\<lparr>d_host := a\<rparr>)"
    "tables a = (tables (d_host d))(fchain ''RAIND-ROOT'' \<mapsto> [])"
    using step by blast
  obtain b where b: "on_host (CreateChain run ''RAIND-EW'') (d\<lparr>d_host := a\<rparr>) = (Inr (), d\<lparr>d_host := b\<rparr>)"
    "tables b = (tables a)(fchain ''RAIND-EW'' \<mapsto> [])"
    using step [of "''RAIND-EW''" "d\<lparr>d_host := a\<rparr>"] by auto
  obtain c where c: "on_host (CreateChain run ''RAIND-NS-OBS'') (d\<lparr>d_host := b\<rparr>) = (Inr (), d\<lparr>d_host := c\<rparr>)"
    "tables c = (tables b)(fchain ''RAIND-NS-OBS'' \<mapsto> [])"
    using step [of "''RAIND-NS-OBS''" "d\<lparr>d_host := b\<rparr>"] by auto
  obtain h where h: "on_host (CreateChain run ''RAIND-NS-ENF'') (d\<lparr>d_host := c\<rparr>) = (Inr (), d\<lparr>d_host := h\<rparr>)"
    "tables h = (tables c)(fchain ''RAIND-NS-ENF'' \<mapsto> [])"
    using step [of "''RAIND-NS-ENF''" "d\<lparr>d_host := c\<rparr>"] by auto
  show ?thesis
    by (rule that [of h]) (simp_all add: createChain_def a b c h)
qed

definition jump_root :: "string list" where
  "jump_root = [''-j'', ''RAIND-ROOT'']"

lemma insertForward_effect:
  assumes "iptables_laws run tables parse valid" "tables (d_host d) (fchain ''FORWARD'') = Some fs" "valid jump_root"
  obtains h where "insertForward run d = (Inr (), d\<lparr>d_host := h\<rparr>)"
    "tables h = (tables (d_host d))(fchain ''FORWARD'' \<mapsto> put_new (parse jump_root) fs)"
proof -
  let ?h = "d_host d"
  have o: "opt_spec jump_root" by (simp add: opt_spec_def jump_root_def has_prefix_def)
  have eq: "InsertForwardRule run ''RAIND-ROOT'' = bnd (attempt (cmd_Run run (ipt ''filter'' (''-C'' # ''FORWARD'' # jump_root))))
      (\<lambda>found. if is_ok found then ret () else cmd_Run run (ipt ''filter'' (''-I'' # ''FORWARD'' # ''1'' # jump_root)))"
    by (simp add: InsertForwardRule_def ipt_def jump_root_def cong: if_cong)
  have chk: "run (ipt ''filter'' (''-C'' # ''FORWARD'' # jump_root)) ?h = (parse jump_root \<in> set fs, ?h)"
    using laws_check [OF assms(1) o, of "''filter''" "''FORWARD''" ?h] assms(2,3) by simp
  obtain h' where h': "run (ipt ''filter'' (''-I'' # ''FORWARD'' # ''1'' # jump_root)) ?h = (True, h')"
    "tables h' = (tables ?h)(fchain ''FORWARD'' \<mapsto> parse jump_root # fs)"
    using laws_insert_first [OF assms(1), OF o assms(3,2)] by blast
  have "\<exists>h. InsertForwardRule run ''RAIND-ROOT'' ?h = (Inr (), h) \<and>
      tables h = (tables ?h)(fchain ''FORWARD'' \<mapsto> put_new (parse jump_root) fs)"
  proof (cases "parse jump_root \<in> set fs")
    case True
    with chk assms(2) show ?thesis by (simp add: eq put_new_def fun_upd_idem)
  next
    case False
    with chk h' show ?thesis by (simp add: eq put_new_def command_failed_def)
  qed
  then show ?thesis using that by (auto simp: insertForward_def on_host_def)
qed

lemma io_ok_upd [simp]:
  "io_ok (d\<lparr>d_host := h\<rparr>) = io_ok d" "io_ok (d\<lparr>d_npm := np\<rparr>) = io_ok d" "io_ok (d\<lparr>d_running := c\<rparr>) = io_ok d"
  "io_ok (d\<lparr>d_ipam := ip\<rparr>) = io_ok d" "io_ok (d\<lparr>d_csm := cs\<rparr>) = io_ok d"
  by (simp_all add: io_ok_def)

lemma ipam_query_ok [simp]: "io_ok d \<Longrightarrow> f (d_ipam d) = Inr a \<Longrightarrow> ipam_do (query f) d = (Inr a, d)"
  by (simp add: access_ok)

lemma ipam_query_err [simp]: "io_ok d \<Longrightarrow> f (d_ipam d) = Inl e \<Longrightarrow> ipam_do (query f) d = (Inl e, d)"
  by (simp add: access_error)

lemma csm_query_ok [simp]: "io_ok d \<Longrightarrow> f (d_csm d) = Inr a \<Longrightarrow> csm_do (query f) d = (Inr a, d)"
  by (simp add: access_ok)

lemma csm_query_err [simp]: "io_ok d \<Longrightarrow> f (d_csm d) = Inl e \<Longrightarrow> csm_do (query f) d = (Inl e, d)"
  by (simp add: access_error)

lemma npm_upd_ok: "io_ok d \<Longrightarrow> f (d_npm d) = Inr np \<Longrightarrow> npm_do (upd f) d = (Inr (), d\<lparr>d_npm := np\<rparr>)"
  using access_ok [of d "upd f" d_npm "()" np d_npm_update] by simp

definition chain_of :: "(string list \<Rightarrow> 'r) \<Rightarrow> (RuleModel \<times> string) list \<Rightarrow> 'r list" where
  "chain_of parse rules = fold add_new (map parse (specs rules)) []"

text \<open>The rules of the north-south chain that is in force.\<close>

definition ns_chain :: "bool \<Rightarrow> string" where
  "ns_chain enforce = (if enforce then ''RAIND-NS-ENF'' else ''RAIND-NS-OBS'')"

definition ns_rules :: "bool \<Rightarrow> string \<Rightarrow> NetworkList list \<Rightarrow> bool \<Rightarrow> (RuleModel \<times> string) list" where
  "ns_rules enforce host nets nflog = (if enforce then enf_rules host nets nflog else obs_rules host nets nflog)"

definition predefined_tables ::
  "(string list \<Rightarrow> 'r) \<Rightarrow> bool \<Rightarrow> bool \<Rightarrow> bool \<Rightarrow> string \<Rightarrow> NetworkList list \<Rightarrow> 'r list \<Rightarrow> 'r tables \<Rightarrow> 'r tables" where
  "predefined_tables parse enforce logEw logNs host nets fs t =
     t(fchain ''RAIND-NS-OBS'' \<mapsto> [], fchain ''RAIND-NS-ENF'' \<mapsto> [], fchain ''FORWARD'' \<mapsto> put_new (parse jump_root) fs,
       fchain ''RAIND-ROOT'' \<mapsto> chain_of parse (root_rules enforce), fchain ''RAIND-EW'' \<mapsto> chain_of parse (ew_rules nets logEw),
       fchain (ns_chain enforce) \<mapsto> chain_of parse (ns_rules enforce host nets logNs))"

lemma BuildPredefinedPolicy_effect:
  fixes d :: "'h daemon"
  defines "e \<equiv> IsNsEnforce (d_npm d)" and "lew \<equiv> GetEWLogging (d_npm d)" and "lns \<equiv> GetNSLogging (d_npm d)"
  assumes laws: "iptables_laws run tables parse valid" and io: "io_ok d"
    and nets: "GetNetworkList (d_ipam d) = Inr nets" and host: "GetDefaultInterface (d_ipam d) = Inr host"
    and fwd: "tables (d_host d) (fchain ''FORWARD'') = Some fs"
    and v: "valid jump_root" "\<forall>s \<in> set (specs (root_rules e)). valid s" "\<forall>s \<in> set (specs (ew_rules nets lew)). valid s"
      "\<forall>s \<in> set (specs (ns_rules e host nets lns)). valid s"
  obtains h where "BuildPredefinedPolicy run d = (Inr (), d\<lparr>d_host := h\<rparr>)"
    "tables h = predefined_tables parse e lew lns host nets fs (tables (d_host d))"
proof -
  obtain a where a: "createChain run d = (Inr (), d\<lparr>d_host := a\<rparr>)"
    "tables a = (tables (d_host d))(fchain ''RAIND-ROOT'' \<mapsto> [], fchain ''RAIND-EW'' \<mapsto> [],
       fchain ''RAIND-NS-OBS'' \<mapsto> [], fchain ''RAIND-NS-ENF'' \<mapsto> [])"
    by (rule createChain_effect [OF laws, of d])
  have "tables (d_host (d\<lparr>d_host := a\<rparr>)) (fchain ''FORWARD'') = Some fs" using a fwd by simp
  from insertForward_effect [OF laws, OF this v(1)] obtain b
    where b: "insertForward run (d\<lparr>d_host := a\<rparr>) = (Inr (), d\<lparr>d_host := b\<rparr>)"
      "tables b = (tables a)(fchain ''FORWARD'' \<mapsto> put_new (parse jump_root) fs)" by auto
  have "tables (d_host (d\<lparr>d_host := b\<rparr>)) (fchain ''RAIND-ROOT'') = Some []" using a b by simp
  from add_rules_chain [OF laws, OF this v(2)] obtain c
    where c: "buildRaindRootChain run e (d\<lparr>d_host := b\<rparr>) = (Inr (), d\<lparr>d_host := c\<rparr>)"
      "tables c = (tables b)(fchain ''RAIND-ROOT'' \<mapsto> chain_of parse (root_rules e))"
    by (auto simp: root_chain chain_of_def)
  have "tables (d_host (d\<lparr>d_host := c\<rparr>)) (fchain ''RAIND-EW'') = Some []" using a b c by simp
  from add_rules_chain [OF laws, OF this v(3)] obtain w
    where w: "buildRaindEWChain run nets lew (d\<lparr>d_host := c\<rparr>) = (Inr (), d\<lparr>d_host := w\<rparr>)"
      "tables w = (tables c)(fchain ''RAIND-EW'' \<mapsto> chain_of parse (ew_rules nets lew))"
    by (auto simp: ew_chain chain_of_def)
  have "tables (d_host (d\<lparr>d_host := w\<rparr>)) (fchain (ns_chain e)) = Some []" using a b c w by (simp add: ns_chain_def)
  from add_rules_chain [OF laws, OF this v(4)] obtain h
    where h: "add_rules run (ns_chain e) (ns_rules e host nets lns) (d\<lparr>d_host := w\<rparr>) = (Inr (), d\<lparr>d_host := h\<rparr>)"
      "tables h = (tables w)(fchain (ns_chain e) \<mapsto> chain_of parse (ns_rules e host nets lns))"
    by (auto simp: chain_of_def)
  have "(if e then buildRaindNSEnforceChain run nets lns else buildRaindNSObserveChain run nets lns) (d\<lparr>d_host := w\<rparr>) =
      (Inr (), d\<lparr>d_host := h\<rparr>)"
    using h(1) io host by (auto simp: enf_chain obs_chain ns_chain_def ns_rules_def)
  then have "BuildPredefinedPolicy run d = (Inr (), d\<lparr>d_host := h\<rparr>)"
    using a(1) b(1) c(1) w(1) io nets by (auto simp: BuildPredefinedPolicy_def e_def lew_def lns_def split: if_splits)
  moreover have "tables h = predefined_tables parse e lew lns host nets fs (tables (d_host d))"
    unfolding h(2) w(2) c(2) b(2) a(2) predefined_tables_def by (auto simp: fun_eq_iff ns_chain_def)
  ultimately show ?thesis using that by blast
qed

subsection \<open>The policy lists by chain\<close>

definition policy_chains :: "string list" where
  "policy_chains = [''RAIND-EW'', ''RAIND-NS-OBS'', ''RAIND-NS-ENF'']"

definition chain_policies :: "string \<Rightarrow> NetworkPolicy \<Rightarrow> Policy list" where
  "chain_policies c np =
     (if c = ''RAIND-EW'' then EastWestPolicy (Policies np)
      else if c = ''RAIND-NS-OBS'' then NorthSouthObservePolicy (Policies np)
      else NorthSouthEnforcePolicy (Policies np))"

definition with_chain :: "string \<Rightarrow> Policy list \<Rightarrow> NetworkPolicy \<Rightarrow> NetworkPolicy" where
  "with_chain c ps np =
     (let pc = Policies np in
      np\<lparr>Policies := (if c = ''RAIND-EW'' then pc\<lparr>EastWestPolicy := ps\<rparr>
        else if c = ''RAIND-NS-OBS'' then pc\<lparr>NorthSouthObservePolicy := ps\<rparr>
        else pc\<lparr>NorthSouthEnforcePolicy := ps\<rparr>)\<rparr>)"

lemma with_chain_simps [simp]:
  "chain_policies c (with_chain c ps np) = ps"
  "with_chain c ps (with_chain c qs np) = with_chain c ps np"
  "DefaultRule (with_chain c ps np) = DefaultRule np"
  by (simp_all add: chain_policies_def with_chain_def Let_def)

lemma with_chain_same [simp]: "chain_policies c np = ps \<Longrightarrow> with_chain c ps np = np"
  by (auto simp: chain_policies_def with_chain_def Let_def)

lemma with_chain_other:
  "c \<in> set policy_chains \<Longrightarrow> c' \<in> set policy_chains \<Longrightarrow> c \<noteq> c' \<Longrightarrow> chain_policies c' (with_chain c ps np) = chain_policies c' np"
  by (auto simp: chain_policies_def with_chain_def Let_def policy_chains_def)

lemma set_status_at:
  "\<not> has_policy (pol_Id p) pre \<Longrightarrow>
    set_status (pol_Id p) s r (pre @ p # post) = Some (pre @ p\<lparr>pol_Status := s, pol_Reason := r\<rparr> # post)"
  by (induction pre) (auto simp: has_policy_def)

lemma drop_policy_at: "\<not> has_policy (pol_Id p) pre \<Longrightarrow> drop_policy (pol_Id p) (pre @ p # post) = pre @ post"
  by (induction pre) (auto simp: has_policy_def)

lemma UpdateStatus_at:
  assumes "c \<in> set policy_chains" "chain_policies c np = pre @ p # post" "\<not> has_policy (pol_Id p) pre"
  shows "UpdateStatus c (pol_Id p) s r np = Inr (with_chain c (pre @ p\<lparr>pol_Status := s, pol_Reason := r\<rparr> # post) np)"
  using assms by (auto simp: UpdateStatus_def with_chain_def chain_policies_def policy_chains_def Let_def set_status_at)

lemma npm_inv_at:
  assumes "npm_inv np" "c \<in> set policy_chains" "chain_policies c np = pre @ p # post"
  shows "\<not> has_policy (pol_Id p) pre"
    and "c' \<in> set policy_chains \<Longrightarrow> c' \<noteq> c \<Longrightarrow> \<not> has_policy (pol_Id p) (chain_policies c' np)"
  using assms by (auto simp: npm_inv_def chain_ids_def chain_policies_def policy_chains_def has_policy_ids split: if_splits)

lemma RemovePolicy_at:
  assumes "npm_inv np" "c \<in> set policy_chains" "chain_policies c np = pre @ p # post"
  shows "RemovePolicy (pol_Id p) np = Inr (with_chain c (pre @ post) np)"
proof -
  have "has_policy (pol_Id p) (chain_policies c np)" using assms(3) by (simp add: has_policy_def)
  moreover have "drop_policy (pol_Id p) (chain_policies c np) = pre @ post"
    using drop_policy_at [OF npm_inv_at(1) [OF assms]] assms(3) by simp
  ultimately show ?thesis
    using assms(2) npm_inv_at(2) [OF assms, of "''RAIND-EW''"] npm_inv_at(2) [OF assms, of "''RAIND-NS-OBS''"]
    by (auto simp: RemovePolicy_def with_chain_def chain_policies_def policy_chains_def Let_def split: if_splits)
qed

subsection \<open>One user policy\<close>

text \<open>
  What a commit decides for a policy: the reason why it cannot be resolved, or the rules to put
  in front of its chain.
\<close>

type_synonym verdict = "string + (RuleModel \<times> string) list"

definition resolve_id :: "ContainerState \<Rightarrow> string \<Rightarrow> string" where
  "resolve_id cs str =
     (case GetContainerIdByName str cs of Inr got \<Rightarrow> got
      | Inl _ \<Rightarrow> (case GetContainerNameById str cs of Inr _ \<Rightarrow> str | Inl _ \<Rightarrow> ''''))"

definition ew_verdict :: "IpamState \<Rightarrow> ContainerState \<Rightarrow> bool \<Rightarrow> Policy \<Rightarrow> verdict" where
  "ew_verdict ip cs logging p =
     (let src = h_ContainerName (pol_Source p); dst = h_ContainerName (pol_Destination p) in
      case GetVethById (resolve_id cs src) ip of Inl _ \<Rightarrow> Inl (not_found_reason src)
      | Inr sv \<Rightarrow> (case GetVethById (resolve_id cs dst) ip of Inl _ \<Rightarrow> Inl (not_found_reason dst)
        | Inr dv \<Rightarrow> Inr ((ew_accept p sv dv, ''ACCEPT'') # logged logging [(ew_nflog p sv dv, ''NFLOG'')])))"

definition ns_verdict :: "string \<Rightarrow> IpamState \<Rightarrow> ContainerState \<Rightarrow> bool \<Rightarrow> Policy \<Rightarrow> verdict" where
  "ns_verdict c ip cs logging p =
     (let src = h_ContainerName (pol_Source p) in
      case GetContainerAddress (resolve_id cs src) ip of Inl _ \<Rightarrow> Inl (not_found_reason src)
      | Inr (_, bridge, addr) \<Rightarrow>
          Inr ((ns_rule p bridge addr (HostInterface ip), ns_action c) #
            logged logging [(ns_nflog c p bridge addr (HostInterface ip), ''NFLOG'')]))"

definition verdict_of :: "string \<Rightarrow> IpamState \<Rightarrow> ContainerState \<Rightarrow> bool \<Rightarrow> Policy \<Rightarrow> verdict" where
  "verdict_of c = (if c = ''RAIND-EW'' then ew_verdict else ns_verdict c)"

definition ispecs :: "(RuleModel \<times> string) list \<Rightarrow> string list list" where
  "ispecs rules = map (\<lambda>(r, a). insert_params r a) rules"

definition removed :: "Policy \<Rightarrow> bool" where
  "removed p \<longleftrightarrow> pol_Status p = ''remove_next_commit''"

text \<open>The policy after the commit (nothing when it was marked for removal) and its rules.\<close>

definition settled :: "(string list \<Rightarrow> bool) \<Rightarrow> (Policy \<Rightarrow> verdict) \<Rightarrow> Policy \<Rightarrow> Policy list" where
  "settled valid v p =
     (if removed p then []
      else case v p of
        Inl reason \<Rightarrow> [p\<lparr>pol_Status := ''unresolved'', pol_Reason := reason\<rparr>]
      | Inr rules \<Rightarrow> if \<forall>s \<in> set (ispecs rules). valid s then [p\<lparr>pol_Status := ''applied'', pol_Reason := ''''\<rparr>] else [p])"

definition user_specs :: "(string list \<Rightarrow> bool) \<Rightarrow> (Policy \<Rightarrow> verdict) \<Rightarrow> Policy \<Rightarrow> string list list" where
  "user_specs valid v p =
     (if removed p then [] else case v p of Inl _ \<Rightarrow> [] | Inr rules \<Rightarrow> takeWhile valid (ispecs rules))"

fun insert_all :: "'h runner \<Rightarrow> string \<Rightarrow> (RuleModel \<times> string) list \<Rightarrow> (unit, 'h daemon) act \<Rightarrow> (unit, 'h daemon) act" where
  "insert_all run c [] k = k"
| "insert_all run c ((r, a) # rules) k = or_continue (insert_rule run c r a) (insert_all run c rules k)"

definition settle_act :: "'h runner \<Rightarrow> string \<Rightarrow> Policy \<Rightarrow> verdict \<Rightarrow> (unit, 'h daemon) act" where
  "settle_act run c p v =
     (case v of
        Inl reason \<Rightarrow> npm_do (upd (UpdateStatus c (pol_Id p) ''unresolved'' reason))
      | Inr rules \<Rightarrow> insert_all run c rules (or_continue (npm_do (upd (UpdateStatus c (pol_Id p) ''applied'' ''''))) (ret ())))"

lemma resolve_ok:
  assumes "io_ok d"
  obtains n where "resolveContainerNameAndInfo str d = (Inr (resolve_id (d_csm d) str, n), d)"
proof (cases "GetContainerIdByName str (d_csm d)")
  case (Inr got)
  then show ?thesis using that assms by (auto simp: resolveContainerNameAndInfo_def resolve_id_def)
next
  case no: (Inl e)
  then obtain m where m: "e = Err m" by (auto simp: GetContainerIdByName_def split: option.splits)
  show ?thesis
  proof (cases "GetContainerNameById str (d_csm d)")
    case (Inr got)
    then show ?thesis using that assms no m by (auto simp: resolveContainerNameAndInfo_def resolve_id_def)
  next
    case (Inl e')
    then obtain m' where "e' = Err m'" by (auto simp: GetContainerNameById_def split: option.splits)
    then show ?thesis using that assms no m Inl by (auto simp: resolveContainerNameAndInfo_def resolve_id_def)
  qed
qed

lemma GetVethById_Err: "GetVethById i ip = Inl e \<Longrightarrow> \<exists>m. e = Err m"
  by (auto simp: GetVethById_def split: option.splits)

lemma veth_and_address: "GetVethById i ip = Inr v \<Longrightarrow> \<exists>b a. GetContainerAddress i ip = Inr (HostInterface ip, b, a)"
  "GetVethById i ip = Inl e \<Longrightarrow> \<exists>e'. GetContainerAddress i ip = Inl e'"
  by (auto simp: GetVethById_def GetContainerAddress_def split: option.splits)

lemma or_continue_seq: "or_continue (ret ()) k = k"
  by (simp add: fun_eq_iff or_continue_def)

lemma insert_ew_policy_settles:
  assumes "io_ok d" "\<not> removed p"
  shows "insert_ew_policy run logging p d = settle_act run ''RAIND-EW'' p (ew_verdict (d_ipam d) (d_csm d) logging p) d"
proof -
  let ?src = "h_ContainerName (pol_Source p)" and ?dst = "h_ContainerName (pol_Destination p)" and ?cs = "d_csm d"
  obtain n n' where r: "resolveContainerNameAndInfo ?src d = (Inr (resolve_id ?cs ?src, n), d)"
    "resolveContainerNameAndInfo ?dst d = (Inr (resolve_id ?cs ?dst, n'), d)"
    using resolve_ok [OF assms(1)] by metis
  show ?thesis
  proof (cases "GetVethById (resolve_id ?cs ?src) (d_ipam d)")
    case (Inl e)
    moreover obtain m where "e = Err m" using GetVethById_Err [OF Inl] by blast
    ultimately show ?thesis
      using assms r by (simp add: insert_ew_policy_def Let_def removed_def ew_verdict_def settle_act_def)
  next
    case sv: (Inr sv)
    show ?thesis
    proof (cases "GetVethById (resolve_id ?cs ?dst) (d_ipam d)")
      case (Inl e)
      moreover obtain m where "e = Err m" using GetVethById_Err [OF Inl] by blast
      ultimately show ?thesis
        using assms r sv by (simp add: insert_ew_policy_def Let_def removed_def ew_verdict_def settle_act_def)
    next
      case (Inr dv)
      then show ?thesis
        using assms r sv by (cases logging)
          (simp_all add: insert_ew_policy_def Let_def removed_def ew_verdict_def settle_act_def logged_def or_continue_seq)
    qed
  qed
qed

lemma insert_ns_policy_settles:
  assumes "io_ok d" "\<not> removed p"
  shows "insert_ns_policy run c logging p d = settle_act run c p (ns_verdict c (d_ipam d) (d_csm d) logging p) d"
proof -
  let ?src = "h_ContainerName (pol_Source p)" and ?cs = "d_csm d"
  obtain n where r: "resolveContainerNameAndInfo ?src d = (Inr (resolve_id ?cs ?src, n), d)"
    using resolve_ok [OF assms(1)] by metis
  have dev: "attempt (ipam_do (query GetDefaultInterface)) d = (Inr (GetDefaultInterface (d_ipam d)), d)"
    using assms(1) by (cases "HostInterface (d_ipam d) = []") (simp_all add: GetDefaultInterface_def access_ok access_error)
  have dst: "(case GetDefaultInterface (d_ipam d) of Inr x \<Rightarrow> x | Inl _ \<Rightarrow> '''') = HostInterface (d_ipam d)"
    by (simp add: GetDefaultInterface_def)
  show ?thesis
  proof (cases "GetVethById (resolve_id ?cs ?src) (d_ipam d)")
    case (Inl e)
    moreover obtain m where "e = Err m" using GetVethById_Err [OF Inl] by blast
    moreover obtain e' where "GetContainerAddress (resolve_id ?cs ?src) (d_ipam d) = Inl e'"
      using veth_and_address(2) [OF Inl] by blast
    ultimately show ?thesis
      using assms r by (simp add: insert_ns_policy_def removed_def ns_verdict_def settle_act_def)
  next
    case sv: (Inr sv)
    obtain b a where "GetContainerAddress (resolve_id ?cs ?src) (d_ipam d) = Inr (HostInterface (d_ipam d), b, a)"
      using veth_and_address(1) [OF sv] by blast
    then show ?thesis
      using assms r sv dev dst by (cases logging)
        (simp_all add: insert_ns_policy_def Let_def removed_def ns_verdict_def settle_act_def logged_def or_continue_seq)
  qed
qed

lemma insert_all_effect:
  assumes "iptables_laws run tables parse valid" "tables (d_host d) (fchain c) = Some rs"
  shows "\<exists>h'. insert_all run c rules k d = (if \<forall>s \<in> set (ispecs rules). valid s then k else ret ()) (d\<lparr>d_host := h'\<rparr>) \<and>
    tables h' = (tables (d_host d))(fchain c \<mapsto> fold put_new (map parse (takeWhile valid (ispecs rules))) rs)"
  using assms(2)
proof (induction rules arbitrary: d rs)
  case Nil
  then show ?case by (intro exI [of _ "d_host d"]) (simp add: ispecs_def fun_upd_idem)
next
  case (Cons ra rules)
  obtain r a where ra: "ra = (r, a)" by (cases ra)
  let ?s = "insert_params r a"
  show ?case
  proof (cases "valid ?s")
    case True
    then obtain h where "InsertRuleToChain run c r a (d_host d) = (Inr (), h)"
      and t: "tables h = (tables (d_host d))(fchain c \<mapsto> put_new (parse ?s) rs)"
      using InsertRuleToChain_effect [OF assms(1), OF Cons.prems] by blast
    then have h: "insert_rule run c r a d = (Inr (), d\<lparr>d_host := h\<rparr>)" by (simp add: insert_rule_def on_host_def)
    have th: "tables (d_host (d\<lparr>d_host := h\<rparr>)) (fchain c) = Some (put_new (parse ?s) rs)" by (simp add: t)
    from h have "insert_all run c (ra # rules) k d = insert_all run c rules k (d\<lparr>d_host := h\<rparr>)"
      by (simp add: ra or_continue_def)
    moreover have "ispecs (ra # rules) = ?s # ispecs rules" by (simp add: ispecs_def ra)
    moreover have "(tables h)(fchain c \<mapsto> X) = (tables (d_host d))(fchain c \<mapsto> X)" for X by (simp add: t)
    ultimately show ?thesis using Cons.IH [OF th] True by (simp only: daemon.simps) simp
  next
    case False
    then obtain e where "InsertRuleToChain run c r a (d_host d) = (Inl (Err e), d_host d)"
      using InsertRuleToChain_invalid [OF assms(1)] by blast
    then have "insert_rule run c r a d = (Inl (Err e), d)" by (simp add: insert_rule_def on_host_def)
    with False Cons.prems show ?thesis
      by (intro exI [of _ "d_host d"]) (simp add: ra ispecs_def or_continue_def fun_upd_idem)
  qed
qed

lemma settled_ids: "map pol_Id (settled valid v p) = (if removed p then [] else [pol_Id p])"
  by (auto simp: settled_def split: sum.splits)

lemma chain_ids_with_chain:
  assumes "c \<in> set policy_chains" "chain_policies c np = pre @ p # post"
  obtains A B where "\<And>q. chain_ids (with_chain c (pre @ q @ post) np) = A @ map pol_Id q @ B"
    "chain_ids np = A @ pol_Id p # B"
proof -
  let ?ew = "map pol_Id (chain_policies ''RAIND-EW'' np)" and ?ob = "map pol_Id (chain_policies ''RAIND-NS-OBS'' np)"
    and ?en = "map pol_Id (chain_policies ''RAIND-NS-ENF'' np)"
  let ?A = "if c = ''RAIND-EW'' then map pol_Id pre else if c = ''RAIND-NS-OBS'' then ?ew @ map pol_Id pre
      else ?ew @ ?ob @ map pol_Id pre"
    and ?B = "if c = ''RAIND-EW'' then map pol_Id post @ ?ob @ ?en else if c = ''RAIND-NS-OBS'' then map pol_Id post @ ?en
      else map pol_Id post"
  have "\<exists>A B. (\<forall>q. chain_ids (with_chain c (pre @ q @ post) np) = A @ map pol_Id q @ B)"
    using assms(1) by (intro exI [of _ ?A] exI [of _ ?B])
      (auto simp: policy_chains_def chain_ids_def with_chain_def chain_policies_def Let_def)
  then obtain A B where ab: "\<And>q. chain_ids (with_chain c (pre @ q @ post) np) = A @ map pol_Id q @ B" by blast
  from ab [of "[p]"] assms(2) have "chain_ids np = A @ pol_Id p # B" by simp
  with ab that show ?thesis by blast
qed

lemma npm_inv_with_chain:
  assumes "npm_inv np" "c \<in> set policy_chains" "chain_policies c np = pre @ p # post" "map pol_Id q = [] \<or> map pol_Id q = [pol_Id p]"
  shows "npm_inv (with_chain c (pre @ q @ post) np)"
proof -
  obtain A B where "chain_ids (with_chain c (pre @ q @ post) np) = A @ map pol_Id q @ B" "chain_ids np = A @ pol_Id p # B"
    using chain_ids_with_chain [OF assms(2,3)] by metis
  with assms(1,4) show ?thesis unfolding npm_inv_def by (elim disjE) simp_all
qed

lemma npm_upd_err: "io_ok d \<Longrightarrow> npm_do (upd f) d = (Inr (), d\<lparr>d_npm := np\<rparr>) \<Longrightarrow>
    or_continue (npm_do (upd f)) (ret ()) d = (Inr (), d\<lparr>d_npm := np\<rparr>)"
  by (simp add: or_continue_def)

lemma policy_step:
  assumes laws: "iptables_laws run tables parse valid" and io: "io_ok d" and inv: "npm_inv (d_npm d)"
    and c: "c \<in> set policy_chains" and at: "chain_policies c (d_npm d) = pre @ p # post"
    and rs: "tables (d_host d) (fchain c) = Some rs"
    and m: "m d = (if removed p then npm_do (upd (RemovePolicy (pol_Id p))) else settle_act run c p (v p)) d"
  obtains h where "m d = (Inr (), d\<lparr>d_npm := with_chain c (pre @ settled valid v p @ post) (d_npm d), d_host := h\<rparr>)"
    "tables h = (tables (d_host d))(fchain c \<mapsto> fold put_new (map parse (user_specs valid v p)) rs)"
proof -
  note new = npm_inv_at(1) [OF inv c at]
  have self: "(tables (d_host d))(fchain c \<mapsto> rs) = tables (d_host d)" using rs by (simp add: fun_upd_idem)
  consider (gone) "removed p" | (un) reason where "\<not> removed p" "v p = Inl reason"
    | (rules) rules where "\<not> removed p" "v p = Inr rules"
    by (cases "v p") auto
  then show ?thesis
  proof cases
    case gone
    have "m d = (Inr (), d\<lparr>d_npm := with_chain c (pre @ post) (d_npm d)\<rparr>)"
      using m gone npm_upd_ok [where f = "RemovePolicy (pol_Id p)", OF io RemovePolicy_at [OF inv c at]] by simp
    with gone self show ?thesis by (intro that [of "d_host d"]) (simp_all add: settled_def user_specs_def)
  next
    case un
    have "m d = (Inr (), d\<lparr>d_npm := with_chain c (pre @ p\<lparr>pol_Status := ''unresolved'', pol_Reason := reason\<rparr> # post) (d_npm d)\<rparr>)"
      using m un npm_upd_ok [where f = "UpdateStatus c (pol_Id p) ''unresolved'' reason", OF io UpdateStatus_at [OF c at new]] by (simp add: settle_act_def)
    with un self show ?thesis by (intro that [of "d_host d"]) (simp_all add: settled_def user_specs_def)
  next
    case rules
    let ?k = "or_continue (npm_do (upd (UpdateStatus c (pol_Id p) ''applied'' ''''))) (ret ())"
    obtain h where h: "insert_all run c rules ?k d =
        (if \<forall>s \<in> set (ispecs rules). valid s then ?k else ret ()) (d\<lparr>d_host := h\<rparr>)"
      "tables h = (tables (d_host d))(fchain c \<mapsto> fold put_new (map parse (takeWhile valid (ispecs rules))) rs)"
      using insert_all_effect [OF laws, OF rs] by blast
    have "?k (d\<lparr>d_host := h\<rparr>) = (Inr (), d\<lparr>d_host := h,
        d_npm := with_chain c (pre @ p\<lparr>pol_Status := ''applied'', pol_Reason := ''''\<rparr> # post) (d_npm d)\<rparr>)"
      using io by (intro npm_upd_err) (simp_all add: npm_upd_ok UpdateStatus_at [OF c at new])
    then have "m d = (Inr (), d\<lparr>d_npm := with_chain c (pre @ settled valid v p @ post) (d_npm d), d_host := h\<rparr>)"
      using m rules h(1) at by (auto simp: settle_act_def settled_def)
    with h(2) rules show ?thesis by (intro that [of h]) (simp_all add: user_specs_def)
  qed
qed

lemma policy_loop:
  assumes laws: "iptables_laws run tables parse valid" and c: "c \<in> set policy_chains"
    and m: "\<And>p d'. io_ok d' \<Longrightarrow> d_ipam d' = d_ipam d \<Longrightarrow> d_csm d' = d_csm d \<Longrightarrow>
      m p d' = (if removed p then npm_do (upd (RemovePolicy (pol_Id p))) else settle_act run c p (v p)) d'"
    and "io_ok d" "npm_inv (d_npm d)" "chain_policies c (d_npm d) = pre @ ps" "tables (d_host d) (fchain c) = Some rs"
  shows "\<exists>h np. for_each m ps d = (Inr (), d\<lparr>d_npm := np, d_host := h\<rparr>) \<and> npm_inv np \<and>
    np = with_chain c (pre @ concat (map (settled valid v) ps)) (d_npm d) \<and>
    tables h = (tables (d_host d))(fchain c \<mapsto> fold put_new (map parse (concat (map (user_specs valid v) ps))) rs)"
  using m assms(4-7)
proof (induction ps arbitrary: d pre rs)
  case Nil
  then show ?case by (intro exI [of _ "d_host d"] exI [of _ "d_npm d"]) (simp add: fun_upd_idem)
next
  case (Cons p ps)
  obtain h where h: "m p d = (Inr (), d\<lparr>d_npm := with_chain c (pre @ settled valid v p @ ps) (d_npm d), d_host := h\<rparr>)"
    and t: "tables h = (tables (d_host d))(fchain c \<mapsto> fold put_new (map parse (user_specs valid v p)) rs)"
    using policy_step [OF laws, OF Cons.prems(2,3) c Cons.prems(4,5), of "m p" v] Cons.prems(1) [of d p] Cons.prems(2) by metis
  let ?d = "d\<lparr>d_npm := with_chain c (pre @ settled valid v p @ ps) (d_npm d), d_host := h\<rparr>"
  have inv: "npm_inv (d_npm ?d)"
    by (simp, rule npm_inv_with_chain [OF Cons.prems(3) c Cons.prems(4)]) (simp only: settled_ids, simp)
  have "\<exists>h' np. for_each m ps ?d = (Inr (), ?d\<lparr>d_npm := np, d_host := h'\<rparr>) \<and> npm_inv np \<and>
      np = with_chain c ((pre @ settled valid v p) @ concat (map (settled valid v) ps)) (d_npm ?d) \<and>
      tables h' = (tables (d_host ?d))(fchain c \<mapsto>
        fold put_new (map parse (concat (map (user_specs valid v) ps))) (fold put_new (map parse (user_specs valid v p)) rs))"
    using inv Cons.prems(1,2) by (intro Cons.IH) (simp_all add: t)
  then obtain h' np where n: "for_each m ps ?d = (Inr (), ?d\<lparr>d_npm := np, d_host := h'\<rparr>)" "npm_inv np"
    "np = with_chain c ((pre @ settled valid v p) @ concat (map (settled valid v) ps)) (d_npm ?d)"
    "tables h' = (tables (d_host ?d))(fchain c \<mapsto>
        fold put_new (map parse (concat (map (user_specs valid v) ps))) (fold put_new (map parse (user_specs valid v p)) rs))"
    by blast
  have dh: "d_host ?d = h" by simp
  have "tables h' = (tables (d_host d))(fchain c \<mapsto> fold put_new (map parse (concat (map (user_specs valid v) (p # ps)))) rs)"
    unfolding n(4) dh t by simp
  moreover have "for_each m (p # ps) d = (Inr (), d\<lparr>d_npm := np, d_host := h'\<rparr>)" using h n(1) by simp
  moreover have "np = with_chain c (pre @ concat (map (settled valid v) (p # ps))) (d_npm d)" using n(3) by simp
  ultimately show ?case using n(2) by blast
qed

subsection \<open>A commit\<close>

definition fix_mode :: "NetworkPolicy \<Rightarrow> NetworkPolicy" where
  "fix_mode np =
     (let current = GetNSMode np in
      if current \<noteq> ''observe'' \<and> current \<noteq> ''enforce'' \<and> str_contains current ''_next_commit''
      then np\<lparr>DefaultRule := (DefaultRule np)\<lparr>NorthSouth := (NorthSouth (DefaultRule np))\<lparr>pm_Mode := hd (split_on (CHR ''_'') current)\<rparr>\<rparr>\<rparr>
      else np)"

lemma FixNSMode_effect: "io_ok d \<Longrightarrow> FixNSMode d = (Inr (), d\<lparr>d_npm := fix_mode (d_npm d)\<rparr>)"
proof -
  assume io: "io_ok d"
  let ?mode = "hd (split_on (CHR ''_'') (GetNSMode (d_npm d)))"
  have "npm_do (upd (ChangeNSMode ?mode)) d = (Inr (), d\<lparr>d_npm := (d_npm d)\<lparr>DefaultRule := (DefaultRule (d_npm d))\<lparr>NorthSouth :=
      (NorthSouth (DefaultRule (d_npm d)))\<lparr>pm_Mode := ?mode\<rparr>\<rparr>\<rparr>\<rparr>)"
    using io by (rule npm_upd_ok) (simp add: ChangeNSMode_def)
  with io show ?thesis by (simp add: FixNSMode_def fix_mode_def Let_def)
qed

lemma fix_mode_policies: "Policies (fix_mode np) = Policies np" "GetEWLogging (fix_mode np) = GetEWLogging np"
  "GetNSLogging (fix_mode np) = GetNSLogging np"
  by (simp_all add: fix_mode_def Let_def GetEWLogging_def GetNSLogging_def)

lemma npm_inv_fix_mode: "npm_inv (fix_mode np) = npm_inv np"
  by (simp add: npm_inv_def chain_ids_def fix_mode_policies)

text \<open>The reference: the settled policy lists and the chains with the user rules in front.\<close>

definition chain_logging :: "string \<Rightarrow> NetworkPolicy \<Rightarrow> bool" where
  "chain_logging c np = (if c = ''RAIND-EW'' then GetEWLogging np else GetNSLogging np)"

definition chain_verdict :: "string \<Rightarrow> IpamState \<Rightarrow> ContainerState \<Rightarrow> NetworkPolicy \<Rightarrow> Policy \<Rightarrow> verdict" where
  "chain_verdict c ip cs np = verdict_of c ip cs (chain_logging c np)"

definition settle_chain ::
  "(string list \<Rightarrow> bool) \<Rightarrow> IpamState \<Rightarrow> ContainerState \<Rightarrow> string \<Rightarrow> NetworkPolicy \<Rightarrow> NetworkPolicy" where
  "settle_chain valid ip cs c np =
     with_chain c (concat (map (settled valid (chain_verdict c ip cs np)) (chain_policies c np))) np"

definition user_chain ::
  "(string list \<Rightarrow> 'r) \<Rightarrow> (string list \<Rightarrow> bool) \<Rightarrow> IpamState \<Rightarrow> ContainerState \<Rightarrow> string \<Rightarrow> NetworkPolicy \<Rightarrow> 'r list" where
  "user_chain parse valid ip cs c np =
     map parse (concat (map (user_specs valid (chain_verdict c ip cs np)) (chain_policies c np)))"

lemma settle_chain_simps [simp]:
  "chain_logging c' (settle_chain valid ip cs c np) = chain_logging c' np"
  "chain_verdict c' ip' cs' (settle_chain valid ip cs c np) = chain_verdict c' ip' cs' np"
  "IsNsEnforce (settle_chain valid ip cs c np) = IsNsEnforce np"
  by (simp_all add: settle_chain_def chain_verdict_def chain_logging_def GetEWLogging_def GetNSLogging_def IsNsEnforce_def)

lemma settle_chain_other:
  "c \<in> set policy_chains \<Longrightarrow> c' \<in> set policy_chains \<Longrightarrow> c \<noteq> c' \<Longrightarrow> chain_policies c' (settle_chain valid ip cs c np) = chain_policies c' np"
  by (simp add: settle_chain_def with_chain_other)

lemma user_chain_settled:
  "c \<in> set policy_chains \<Longrightarrow> c' \<in> set policy_chains \<Longrightarrow> c \<noteq> c' \<Longrightarrow>
    user_chain parse valid ip cs c' (settle_chain valid ip cs c np) = user_chain parse valid ip cs c' np"
  by (simp add: user_chain_def settle_chain_other)

definition insert_user :: "'h runner \<Rightarrow> string \<Rightarrow> bool \<Rightarrow> Policy list \<Rightarrow> (unit, 'h daemon) act" where
  "insert_user run c logging ps =
     (if c = ''RAIND-EW'' then insertRaindEWUserPolicy run ps logging else insertRaindNSUserPolicy run c ps logging)"

lemma insert_user_effect:
  assumes laws: "iptables_laws run tables parse valid" and c: "c \<in> set policy_chains"
    and io: "io_ok d" and inv: "npm_inv (d_npm d)" and rs: "tables (d_host d) (fchain c) = Some rs"
  obtains h where "insert_user run c (chain_logging c (d_npm d)) (chain_policies c (d_npm d)) d =
      (Inr (), d\<lparr>d_npm := settle_chain valid (d_ipam d) (d_csm d) c (d_npm d), d_host := h\<rparr>)"
    "npm_inv (settle_chain valid (d_ipam d) (d_csm d) c (d_npm d))"
    "tables h = (tables (d_host d))(fchain c \<mapsto> fold put_new (user_chain parse valid (d_ipam d) (d_csm d) c (d_npm d)) rs)"
proof -
  let ?l = "chain_logging c (d_npm d)" and ?v = "chain_verdict c (d_ipam d) (d_csm d) (d_npm d)"
  let ?m = "if c = ''RAIND-EW'' then insert_ew_policy run ?l else insert_ns_policy run c ?l"
  have m: "?m p d' = (if removed p then npm_do (upd (RemovePolicy (pol_Id p))) else settle_act run c p (?v p)) d'"
    if "io_ok d'" "d_ipam d' = d_ipam d" "d_csm d' = d_csm d" for p d'
  proof (cases "removed p")
    case True
    then show ?thesis by (simp add: insert_ew_policy_def insert_ns_policy_def removed_def)
  next
    case False
    then show ?thesis
      using that insert_ew_policy_settles [OF that(1) False, of run ?l] insert_ns_policy_settles [OF that(1) False, of run c ?l]
      by (auto simp: chain_verdict_def verdict_of_def)
  qed
  have u: "insert_user run c ?l ps = for_each ?m ps" for ps
    by (simp add: insert_user_def insertRaindEWUserPolicy_def insertRaindNSUserPolicy_def)
  have at: "chain_policies c (d_npm d) = [] @ chain_policies c (d_npm d)" by simp
  from policy_loop [OF laws, OF c m io inv at rs] obtain h np where
    "for_each ?m (chain_policies c (d_npm d)) d = (Inr (), d\<lparr>d_npm := np, d_host := h\<rparr>)" "npm_inv np"
    "np = with_chain c ([] @ concat (map (settled valid ?v) (chain_policies c (d_npm d)))) (d_npm d)"
    "tables h = (tables (d_host d))(fchain c \<mapsto>
      fold put_new (map parse (concat (map (user_specs valid ?v) (chain_policies c (d_npm d))))) rs)"
    by blast
  then show ?thesis
    by (intro that [of h]) (simp_all add: u settle_chain_def user_chain_def)
qed

definition committed :: "(string list \<Rightarrow> bool) \<Rightarrow> IpamState \<Rightarrow> ContainerState \<Rightarrow> NetworkPolicy \<Rightarrow> NetworkPolicy" where
  "committed valid ip cs np =
     settle_chain valid ip cs ''RAIND-NS-ENF'' (settle_chain valid ip cs ''RAIND-NS-OBS'' (settle_chain valid ip cs ''RAIND-EW'' np))"

lemma chain_lists:
  "GetEWPolicyList np = chain_policies ''RAIND-EW'' np" "GetNSObsPolicyList np = chain_policies ''RAIND-NS-OBS'' np"
  "GetNSEnfPolicyList np = chain_policies ''RAIND-NS-ENF'' np"
  by (simp_all add: GetEWPolicyList_def GetNSObsPolicyList_def GetNSEnfPolicyList_def chain_policies_def)

lemma chain_loggings:
  "GetEWLogging np = chain_logging ''RAIND-EW'' np" "GetNSLogging np = chain_logging ''RAIND-NS-OBS'' np"
  "chain_logging ''RAIND-NS-ENF'' np = chain_logging ''RAIND-NS-OBS'' np"
  by (simp_all add: chain_logging_def)

lemma chains_known: "''RAIND-EW'' \<in> set policy_chains" "''RAIND-NS-OBS'' \<in> set policy_chains" "''RAIND-NS-ENF'' \<in> set policy_chains"
  by (simp_all add: policy_chains_def)

lemma insert_user_simps:
  "insertRaindEWUserPolicy run ps l = insert_user run ''RAIND-EW'' l ps"
  "insertRaindNSUserPolicy run ''RAIND-NS-OBS'' ps l = insert_user run ''RAIND-NS-OBS'' l ps"
  "insertRaindNSUserPolicy run ''RAIND-NS-ENF'' ps l = insert_user run ''RAIND-NS-ENF'' l ps"
  by (simp_all add: insert_user_def)

lemma BuildUserPolicy_effect:
  assumes laws: "iptables_laws run tables parse valid" and io: "io_ok d" and inv: "npm_inv (d_npm d)"
    and rs: "tables (d_host d) (fchain ''RAIND-EW'') = Some ew" "tables (d_host d) (fchain ''RAIND-NS-OBS'') = Some obs"
      "tables (d_host d) (fchain ''RAIND-NS-ENF'') = Some enf"
  defines "user \<equiv> \<lambda>c. user_chain parse valid (d_ipam d) (d_csm d) c (d_npm d)"
  obtains h where "BuildUserPolicy run d = (Inr (), d\<lparr>d_npm := committed valid (d_ipam d) (d_csm d) (d_npm d), d_host := h\<rparr>)"
    "tables h = (tables (d_host d))(fchain ''RAIND-EW'' \<mapsto> fold put_new (user ''RAIND-EW'') ew,
       fchain ''RAIND-NS-OBS'' \<mapsto> fold put_new (user ''RAIND-NS-OBS'') obs,
       fchain ''RAIND-NS-ENF'' \<mapsto> fold put_new (user ''RAIND-NS-ENF'') enf)"
proof -
  let ?np = "d_npm d" and ?s = "settle_chain valid (d_ipam d) (d_csm d)"
  let ?a = "?s ''RAIND-EW'' ?np" and ?b = "?s ''RAIND-NS-OBS'' (?s ''RAIND-EW'' ?np)"
  obtain a where a: "insert_user run ''RAIND-EW'' (chain_logging ''RAIND-EW'' ?np) (chain_policies ''RAIND-EW'' ?np) d =
      (Inr (), d\<lparr>d_npm := ?a, d_host := a\<rparr>)" "npm_inv ?a"
    "tables a = (tables (d_host d))(fchain ''RAIND-EW'' \<mapsto> fold put_new (user ''RAIND-EW'') ew)"
    using insert_user_effect [OF laws, OF chains_known(1) io inv rs(1)] unfolding user_def by blast
  let ?d = "d\<lparr>d_npm := ?a, d_host := a\<rparr>"
  have "tables (d_host ?d) (fchain ''RAIND-NS-OBS'') = Some obs" using a(3) rs(2) by simp
  from insert_user_effect [OF laws, OF chains_known(2) _ _ this] io a(2) obtain b
    where b: "insert_user run ''RAIND-NS-OBS'' (chain_logging ''RAIND-NS-OBS'' ?a) (chain_policies ''RAIND-NS-OBS'' ?a) ?d =
      (Inr (), d\<lparr>d_npm := ?b, d_host := b\<rparr>)" "npm_inv ?b"
    "tables b = (tables a)(fchain ''RAIND-NS-OBS'' \<mapsto> fold put_new (user ''RAIND-NS-OBS'') obs)"
    by (auto simp: user_def user_chain_settled chains_known)
  let ?e = "d\<lparr>d_npm := ?b, d_host := b\<rparr>"
  have "tables (d_host ?e) (fchain ''RAIND-NS-ENF'') = Some enf" using a(3) b(3) rs(3) by simp
  from insert_user_effect [OF laws, OF chains_known(3) _ _ this] io b(2) obtain h
    where h: "insert_user run ''RAIND-NS-ENF'' (chain_logging ''RAIND-NS-ENF'' ?b) (chain_policies ''RAIND-NS-ENF'' ?b) ?e =
      (Inr (), d\<lparr>d_npm := committed valid (d_ipam d) (d_csm d) ?np, d_host := h\<rparr>)"
    "tables h = (tables b)(fchain ''RAIND-NS-ENF'' \<mapsto> fold put_new (user ''RAIND-NS-ENF'') enf)"
    by (auto simp: user_def user_chain_settled chains_known committed_def)
  have "BuildUserPolicy run d = (Inr (), d\<lparr>d_npm := committed valid (d_ipam d) (d_csm d) ?np, d_host := h\<rparr>)"
    using io a(1) b(1) h(1) unfolding BuildUserPolicy_def chain_lists chain_loggings(1,2) insert_user_simps
    by (simp add: chain_loggings(3))
  moreover have "tables h = (tables (d_host d))(fchain ''RAIND-EW'' \<mapsto> fold put_new (user ''RAIND-EW'') ew,
       fchain ''RAIND-NS-OBS'' \<mapsto> fold put_new (user ''RAIND-NS-OBS'') obs,
       fchain ''RAIND-NS-ENF'' \<mapsto> fold put_new (user ''RAIND-NS-ENF'') enf)"
    unfolding h(2) b(3) a(3) by simp
  ultimately show ?thesis using that by blast
qed

definition commit_tables ::
  "(string list \<Rightarrow> 'r) \<Rightarrow> (string list \<Rightarrow> bool) \<Rightarrow> string \<Rightarrow> NetworkList list \<Rightarrow> 'r list \<Rightarrow> IpamState \<Rightarrow> ContainerState \<Rightarrow>
   NetworkPolicy \<Rightarrow> 'r tables \<Rightarrow> 'r tables" where
  "commit_tables parse valid host nets fs ip cs np t =
     (let pre = predefined_tables parse (IsNsEnforce np) (GetEWLogging np) (GetNSLogging np) host nets fs t;
          full = (\<lambda>c. fold put_new (user_chain parse valid ip cs c np) (the (pre (fchain c)))) in
      pre(fchain ''RAIND-EW'' \<mapsto> full ''RAIND-EW'', fchain ''RAIND-NS-OBS'' \<mapsto> full ''RAIND-NS-OBS'',
          fchain ''RAIND-NS-ENF'' \<mapsto> full ''RAIND-NS-ENF''))"

text \<open>
  The conditions of a commit without errors: the stores are accessible, policy identifiers are
  distinct, networks and the host interface are configured, and the packet filter has its
  \<open>FORWARD\<close> chain and accepts the predefined rules.
\<close>

definition commit_ready ::
  "('h \<Rightarrow> 'r tables) \<Rightarrow> (string list \<Rightarrow> bool) \<Rightarrow> NetworkList list \<Rightarrow> string \<Rightarrow> 'r list \<Rightarrow> 'h daemon \<Rightarrow> bool" where
  "commit_ready tables valid nets host fs d \<longleftrightarrow>
     (let np = fix_mode (d_npm d); e = IsNsEnforce np in
      io_ok d \<and> npm_inv (d_npm d) \<and> GetNetworkList (d_ipam d) = Inr nets \<and> GetDefaultInterface (d_ipam d) = Inr host \<and>
      tables (d_host d) (fchain ''FORWARD'') = Some fs \<and> valid jump_root \<and>
      list_all valid (specs (root_rules e) @ specs (ew_rules nets (GetEWLogging np)) @ specs (ns_rules e host nets (GetNSLogging np))))"

lemma backup_policy_ok: "io_ok d \<Longrightarrow> backup_policy d = (Inr (), d\<lparr>d_running := Doc (d_npm d)\<rparr>)"
  by (simp add: backup_policy_def io_ok_def next_io_def)

lemma predefined_tables_chains:
  "predefined_tables parse e lew lns host nets fs t (fchain ''RAIND-EW'') = Some (chain_of parse (ew_rules nets lew))"
  "predefined_tables parse e lew lns host nets fs t (fchain ''RAIND-NS-OBS'') =
     Some (if e then [] else chain_of parse (obs_rules host nets lns))"
  "predefined_tables parse e lew lns host nets fs t (fchain ''RAIND-NS-ENF'') =
     Some (if e then chain_of parse (enf_rules host nets lns) else [])"
  by (simp_all add: predefined_tables_def ns_chain_def ns_rules_def)

lemma CommitPolicy_effect:
  assumes laws: "iptables_laws run tables parse valid" and ready: "commit_ready tables valid nets host fs d"
  defines "np \<equiv> fix_mode (d_npm d)"
  obtains h where "CommitPolicy run d = (Inr (), d\<lparr>d_npm := committed valid (d_ipam d) (d_csm d) np, d_host := h,
      d_running := Doc (committed valid (d_ipam d) (d_csm d) np)\<rparr>)"
    "tables h = commit_tables parse valid host nets fs (d_ipam d) (d_csm d) np (tables (d_host d))"
proof -
  let ?d = "d\<lparr>d_npm := np\<rparr>"
  have r: "io_ok d" "npm_inv np" "GetNetworkList (d_ipam ?d) = Inr nets" "GetDefaultInterface (d_ipam ?d) = Inr host"
    "tables (d_host ?d) (fchain ''FORWARD'') = Some fs" "valid jump_root"
    "\<forall>s \<in> set (specs (root_rules (IsNsEnforce (d_npm ?d)))). valid s"
    "\<forall>s \<in> set (specs (ew_rules nets (GetEWLogging (d_npm ?d)))). valid s"
    "\<forall>s \<in> set (specs (ns_rules (IsNsEnforce (d_npm ?d)) host nets (GetNSLogging (d_npm ?d)))). valid s"
    using ready by (simp_all add: commit_ready_def Let_def np_def npm_inv_fix_mode list_all_iff)
  let ?pre = "predefined_tables parse (IsNsEnforce np) (GetEWLogging np) (GetNSLogging np) host nets fs (tables (d_host d))"
  have io: "io_ok ?d" using r(1) by simp
  obtain a where a: "BuildPredefinedPolicy run ?d = (Inr (), ?d\<lparr>d_host := a\<rparr>)" "tables a = ?pre"
    using BuildPredefinedPolicy_effect [OF laws, OF io r(3-9)] by auto
  have io': "io_ok (?d\<lparr>d_host := a\<rparr>)" and inv: "npm_inv (d_npm (?d\<lparr>d_host := a\<rparr>))" using r by simp_all
  have ch: "tables (d_host (?d\<lparr>d_host := a\<rparr>)) (fchain c) = Some (the (?pre (fchain c)))" if "c \<in> set policy_chains" for c
    using that a(2) by (auto simp: policy_chains_def predefined_tables_chains)
  obtain h where h: "BuildUserPolicy run (?d\<lparr>d_host := a\<rparr>) =
      (Inr (), d\<lparr>d_npm := committed valid (d_ipam d) (d_csm d) np, d_host := h\<rparr>)"
    "tables h = commit_tables parse valid host nets fs (d_ipam d) (d_csm d) np (tables (d_host d))"
    using BuildUserPolicy_effect [OF laws, OF io' inv ch [OF chains_known(1)] ch [OF chains_known(2)] ch [OF chains_known(3)]] a(2)
    by (auto simp: commit_tables_def Let_def)
  have "CommitPolicy run d = (Inr (), d\<lparr>d_npm := committed valid (d_ipam d) (d_csm d) np, d_host := h,
      d_running := Doc (committed valid (d_ipam d) (d_csm d) np)\<rparr>)"
    using FixNSMode_effect [OF r(1)] a(1) h(1) r(1) by (simp add: CommitPolicy_def np_def backup_policy_ok)
  then show ?thesis using that h(2) by blast
qed

subsection \<open>Properties of a commit\<close>

text \<open>C5: when the packet filter behaves as documented and the configuration is complete, a commit
  succeeds and does exactly what the reference says: the chains are the predefined rules with the
  rules of the user policies in front, every other chain is as before; each policy list is settled
  (marked policies gone, others applied, unresolved with the reason, or unchanged when the filter
  refuses their rules); the policy in force is a copy of the settled policy.\<close>

theorem CommitPolicy_correct:
  assumes "iptables_laws run tables parse valid" "commit_ready tables valid nets host fs d"
  shows "\<exists>d'. CommitPolicy run d = (Inr (), d') \<and>
    tables (d_host d') = commit_tables parse valid host nets fs (d_ipam d) (d_csm d) (fix_mode (d_npm d)) (tables (d_host d)) \<and>
    d_npm d' = committed valid (d_ipam d) (d_csm d) (fix_mode (d_npm d)) \<and> d_running d' = Doc (d_npm d') \<and>
    d_ipam d' = d_ipam d \<and> d_csm d' = d_csm d"
  by (rule CommitPolicy_effect [OF assms]) auto

lemma fold_put_new: "\<exists>us. fold put_new xs rs = us @ rs \<and> set us \<subseteq> set xs"
proof (induction xs arbitrary: rs)
  case (Cons x xs)
  obtain us where us: "fold put_new xs (put_new x rs) = us @ put_new x rs" "set us \<subseteq> set xs" using Cons by blast
  then have "fold put_new (x # xs) rs = (if x \<in> set rs then us else us @ [x]) @ rs" by (simp add: put_new_def)
  moreover have "set (if x \<in> set rs then us else us @ [x]) \<subseteq> set (x # xs)" using us(2) by auto
  ultimately show ?case by blast
qed simp

text \<open>
  A rule of the east-west chain is justified by a policy that is not marked for removal, between
  the host interfaces the address store holds for its two containers.
\<close>

definition ew_justified :: "(string list \<Rightarrow> 'r) \<Rightarrow> IpamState \<Rightarrow> ContainerState \<Rightarrow> Policy list \<Rightarrow> 'r \<Rightarrow> bool" where
  "ew_justified parse ip cs ps x \<longleftrightarrow>
     (\<exists>p \<in> set ps. pol_Status p \<noteq> ''remove_next_commit'' \<and>
       (case GetVethById (resolve_id cs (h_ContainerName (pol_Source p))) ip of Inl _ \<Rightarrow> False
        | Inr sv \<Rightarrow> (case GetVethById (resolve_id cs (h_ContainerName (pol_Destination p))) ip of Inl _ \<Rightarrow> False
          | Inr dv \<Rightarrow> x = parse (insert_params (ew_accept p sv dv) ''ACCEPT'') \<or>
              x = parse (insert_params (ew_nflog p sv dv) ''NFLOG''))))"

lemma ew_user_rule:
  assumes "x \<in> set (user_chain parse valid ip cs ''RAIND-EW'' np)"
  shows "ew_justified parse ip cs (EastWestPolicy (Policies np)) x"
proof -
  let ?v = "chain_verdict ''RAIND-EW'' ip cs np"
  from assms obtain p s where p: "p \<in> set (EastWestPolicy (Policies np))" "x = parse s" "s \<in> set (user_specs valid ?v p)"
    by (auto simp: user_chain_def chain_policies_def)
  then have r: "\<not> removed p" by (auto simp: user_specs_def)
  obtain rules where rules: "?v p = Inr rules" "s \<in> set (ispecs rules)"
    using p(3) by (cases "?v p") (auto simp: user_specs_def dest: set_takeWhileD split: if_splits)
  then obtain sv dv where v: "GetVethById (resolve_id cs (h_ContainerName (pol_Source p))) ip = Inr sv"
    "GetVethById (resolve_id cs (h_ContainerName (pol_Destination p))) ip = Inr dv"
    "rules = (ew_accept p sv dv, ''ACCEPT'') # logged (chain_logging ''RAIND-EW'' np) [(ew_nflog p sv dv, ''NFLOG'')]"
    by (auto simp: chain_verdict_def verdict_of_def ew_verdict_def Let_def split: sum.splits)
  from rules(2) v(3) have "s = insert_params (ew_accept p sv dv) ''ACCEPT'' \<or> s = insert_params (ew_nflog p sv dv) ''NFLOG''"
    by (auto simp: ispecs_def logged_def split: if_splits)
  with p v r show ?thesis by (auto simp: ew_justified_def removed_def intro!: bexI [of _ p])
qed

text \<open>C7: container-to-container traffic is denied by default.  After a commit the east-west chain
  ends with the predefined rules, which drop traffic within every network and between networks;
  every rule in front of them accepts or logs the traffic of a policy that is not marked for
  removal, between the two host interfaces that the address store holds for its containers.\<close>

theorem commit_denies_by_default:
  assumes "iptables_laws run tables parse valid" "commit_ready tables valid nets host fs d"
  shows "\<exists>d' us. CommitPolicy run d = (Inr (), d') \<and>
    tables (d_host d') (fchain ''RAIND-EW'') = Some (us @ chain_of parse (ew_rules nets (GetEWLogging (d_npm d)))) \<and>
    (\<forall>x \<in> set us. ew_justified parse (d_ipam d) (d_csm d) (EastWestPolicy (Policies (d_npm d))) x)"
proof -
  let ?np = "fix_mode (d_npm d)"
  let ?u = "user_chain parse valid (d_ipam d) (d_csm d) ''RAIND-EW'' ?np" and ?pre = "chain_of parse (ew_rules nets (GetEWLogging (d_npm d)))"
  obtain h where h: "CommitPolicy run d = (Inr (), d\<lparr>d_npm := committed valid (d_ipam d) (d_csm d) ?np, d_host := h,
      d_running := Doc (committed valid (d_ipam d) (d_csm d) ?np)\<rparr>)"
    "tables h = commit_tables parse valid host nets fs (d_ipam d) (d_csm d) ?np (tables (d_host d))"
    by (rule CommitPolicy_effect [OF assms])
  obtain us where us: "fold put_new ?u ?pre = us @ ?pre" "set us \<subseteq> set ?u" using fold_put_new [of ?u ?pre] by auto
  have t: "tables h (fchain ''RAIND-EW'') = Some (us @ ?pre)"
    using us(1) by (simp add: h(2) commit_tables_def Let_def predefined_tables_chains fix_mode_policies)
  have j: "\<forall>x \<in> set us. ew_justified parse (d_ipam d) (d_csm d) (EastWestPolicy (Policies (d_npm d))) x"
    using ew_user_rule [of _ parse valid "d_ipam d" "d_csm d" ?np] us(2) unfolding fix_mode_policies by blast
  show ?thesis
    by (intro exI conjI, rule h(1)) (use t j in simp_all)
qed

subsection \<open>Removal and mode changes take effect at the commit\<close>

definition all_policies :: "NetworkPolicy \<Rightarrow> Policy list" where
  "all_policies np = concat (map (\<lambda>c. chain_policies c np) policy_chains)"

lemma all_policies_ids: "map pol_Id (all_policies np) = chain_ids np"
  by (simp add: all_policies_def policy_chains_def chain_policies_def chain_ids_def)

lemma chain_verdict_with_chain [simp]: "chain_verdict c' ip cs (with_chain c ps np) = chain_verdict c' ip cs np"
  by (simp add: chain_verdict_def chain_logging_def GetEWLogging_def GetNSLogging_def)

lemma committed_chain:
  assumes "c \<in> set policy_chains"
  shows "chain_policies c (committed valid ip cs np) =
    concat (map (settled valid (chain_verdict c ip cs np)) (chain_policies c np))"
  using assms
  by (auto simp: policy_chains_def committed_def settle_chain_other chains_known)
    (simp_all add: settle_chain_def with_chain_other chains_known)

lemma settled_from: "q \<in> set (settled valid v p) \<Longrightarrow> pol_Id q = pol_Id p \<and> \<not> removed p"
  by (auto simp: settled_def split: if_splits sum.splits)

lemma committed_from:
  assumes "q \<in> set (all_policies (committed valid ip cs np))"
  shows "\<exists>p \<in> set (all_policies np). pol_Id q = pol_Id p \<and> \<not> removed p"
proof -
  obtain c where c: "c \<in> set policy_chains" "q \<in> set (chain_policies c (committed valid ip cs np))"
    using assms by (auto simp: all_policies_def)
  then obtain p where "p \<in> set (chain_policies c np)" "q \<in> set (settled valid (chain_verdict c ip cs np) p)"
    by (auto simp: committed_chain)
  with c settled_from show ?thesis by (fastforce simp: all_policies_def)
qed

lemma GetPolicyChain_at:
  assumes "GetPolicyChain i np = Inr c"
  obtains pre p post where "c \<in> set policy_chains" "chain_policies c np = pre @ p # post" "pol_Id p = i"
proof -
  have "c \<in> set policy_chains \<and> has_policy i (chain_policies c np)"
    using assms by (auto simp: GetPolicyChain_def chain_policies_def policy_chains_def split: if_splits)
  then show ?thesis using that by (auto simp: has_policy_def in_set_conv_decomp)
qed

lemma marked_only:
  assumes "npm_inv np" "c \<in> set policy_chains" "chain_policies c np = pre @ p # post"
    "q \<in> set (all_policies (with_chain c (pre @ [p'] @ post) np))" "pol_Id q = pol_Id p" "pol_Id p' = pol_Id p"
  shows "q = p'"
proof -
  let ?np = "with_chain c (pre @ [p'] @ post) np"
  have "npm_inv ?np" by (rule npm_inv_with_chain [OF assms(1-3)]) (simp add: assms(6))
  then have "distinct (map pol_Id (all_policies ?np))" by (simp add: npm_inv_def all_policies_ids)
  moreover have "p' \<in> set (all_policies ?np)" using assms(2) by (auto simp: all_policies_def intro!: bexI [of _ c])
  ultimately show ?thesis using assms(4-6) by (metis distinct_map_inj)
qed

lemma commit_ready_npm:
  assumes "commit_ready tables valid nets host fs d" "DefaultRule np = DefaultRule (d_npm d)" "npm_inv np"
  shows "commit_ready tables valid nets host fs (d\<lparr>d_npm := np\<rparr>)"
proof -
  have "DefaultRule (fix_mode np) = DefaultRule (fix_mode (d_npm d))"
    by (simp add: fix_mode_def Let_def GetNSMode_def assms(2))
  then show ?thesis
    using assms(1,3) by (simp add: commit_ready_def Let_def IsNsEnforce_def GetEWLogging_def GetNSLogging_def)
qed

text \<open>Removing a user policy marks it, and the next commit drops it: the commit succeeds, no
  policy list holds the identifier any more, and no other policy has appeared.\<close>

theorem RemoveUserPolicy_commit:
  assumes "iptables_laws run tables parse valid" "commit_ready tables valid nets host fs d"
    "RemoveUserPolicy i d = (Inr (), da)"
  shows "\<exists>d'. CommitPolicy run da = (Inr (), d') \<and> i \<in> set (chain_ids (d_npm d)) \<and> i \<notin> set (chain_ids (d_npm d')) \<and>
    set (chain_ids (d_npm d')) \<subseteq> set (chain_ids (d_npm d))"
proof -
  let ?np = "d_npm d"
  have io: "io_ok d" and inv: "npm_inv ?np" using assms(2) by (simp_all add: commit_ready_def Let_def)
  obtain c where gc: "GetPolicyChain i ?np = Inr c"
    using assms(3) io by (cases "GetPolicyChain i ?np") (auto simp: RemoveUserPolicy_def access_error)
  then obtain pre p post where at: "c \<in> set policy_chains" "chain_policies c ?np = pre @ p # post" "pol_Id p = i"
    by (rule GetPolicyChain_at)
  let ?p = "p\<lparr>pol_Status := ''remove_next_commit'', pol_Reason := ''user operation''\<rparr>"
  let ?nq = "with_chain c (pre @ [?p] @ post) ?np"
  have u: "UpdateStatus c i ''remove_next_commit'' ''user operation'' ?np = Inr ?nq"
    using UpdateStatus_at [OF at(1,2) npm_inv_at(1) [OF inv at(1,2)]] at(3) by simp
  have da: "da = d\<lparr>d_npm := ?nq\<rparr>"
    using assms(3) io gc npm_upd_ok [where f = "UpdateStatus c i ''remove_next_commit'' ''user operation''", OF io u]
    by (simp add: RemoveUserPolicy_def access_ok)
  have invq: "npm_inv ?nq" by (rule npm_inv_with_chain [OF inv at(1,2)]) simp
  have rd: "commit_ready tables valid nets host fs da" unfolding da by (rule commit_ready_npm [OF assms(2) _ invq]) simp
  let ?np2 = "committed valid (d_ipam d) (d_csm d) (fix_mode ?nq)"
  have allq: "all_policies (fix_mode ?nq) = all_policies ?nq"
    by (simp add: all_policies_def policy_chains_def chain_policies_def fix_mode_policies)
  obtain A B where "\<And>q. chain_ids (with_chain c (pre @ q @ post) ?np) = A @ map pol_Id q @ B" "chain_ids ?np = A @ pol_Id p # B"
    using chain_ids_with_chain [OF at(1,2)] by metis
  from this(1) [of "[?p]"] this(2) have ids: "chain_ids ?nq = chain_ids ?np" by simp
  have "pol_Id q \<in> set (chain_ids ?np) \<and> pol_Id q \<noteq> i" if q: "q \<in> set (all_policies ?np2)" for q
  proof -
    obtain o' where o: "o' \<in> set (all_policies ?nq)" "pol_Id q = pol_Id o'" "\<not> removed o'" using committed_from [OF q] allq by auto
    have "pol_Id o' \<noteq> i"
    proof
      assume "pol_Id o' = i"
      then have "o' = ?p" using marked_only [OF inv at(1,2) o(1)] at(3) by simp
      then show False using o(3) by (simp add: removed_def)
    qed
    moreover have "pol_Id o' \<in> set (chain_ids ?np)" 
      unfolding ids [symmetric] using arg_cong [OF all_policies_ids [of ?nq], of set] o(1) by auto
    ultimately show ?thesis using o(2) by simp
  qed
  then have fin: "i \<notin> set (chain_ids ?np2)" "set (chain_ids ?np2) \<subseteq> set (chain_ids ?np)"
    unfolding all_policies_ids [symmetric] by auto
  have "i \<in> set (chain_ids ?np)" using gc by (auto simp: GetPolicyChain_def chain_ids_def has_policy_ids split: if_splits)
  moreover obtain h where "CommitPolicy run da = (Inr (), da\<lparr>d_npm := ?np2, d_host := h, d_running := Doc ?np2\<rparr>)"
    using CommitPolicy_effect [OF assms(1) rd] unfolding da by auto
  ultimately show ?thesis using fin by auto
qed

subsection \<open>An example\<close>

text \<open>One east-west policy from \<open>web\<close> to \<open>db\<close> and a packet filter with an empty \<open>FORWARD\<close> chain.\<close>

definition demo_npm :: NetworkPolicy where
  "demo_npm = with_chain ''RAIND-EW'' [demo_policy ''p1''] npm_initial"

definition demo_tables :: "string list tables" where
  "demo_tables = (\<lambda>_. None)(fchain ''FORWARD'' \<mapsto> [])"

definition demo_nets :: "NetworkList list" where
  "demo_nets = [\<lparr>nl_Interface = ''raind0'', nl_Address = ''10.166.0.254/24'', NumContainers = 2\<rparr>]"

abbreviation demo :: "string list tables daemon" where
  "demo \<equiv> demo_daemon demo_npm demo_tables"

lemma demo_npm_inv: "npm_inv demo_npm"
  by (simp add: demo_npm_def npm_inv_def chain_ids_def with_chain_def Let_def npm_initial_def demo_policy_def)

lemma demo_ready: "commit_ready (\<lambda>h. h) (\<lambda>spec. True) demo_nets ''eth0'' [] demo"
  by (simp add: commit_ready_def Let_def demo_ipam_eval demo_nets_def demo_npm_inv demo_tables_def list_all_iff)

lemma demo_fix: "fix_mode demo_npm = demo_npm"
  by (simp add: fix_mode_def Let_def GetNSMode_def demo_npm_def npm_initial_def)

lemma demo_settled:
  "chain_policies ''RAIND-EW'' (committed (\<lambda>spec. True) demo_ipam csm_demo demo_npm) =
     [(demo_policy ''p1'')\<lparr>pol_Status := ''applied'', pol_Reason := ''''\<rparr>]"
proof -
  have "resolve_id csm_demo ''web'' = ''i1''" "resolve_id csm_demo ''db'' = ''i2''"
    by (simp_all add: resolve_id_def GetContainerIdByName_def csm_demo_def demo_container_def)
  moreover have "chain_policies ''RAIND-EW'' demo_npm = [demo_policy ''p1'']" by (simp add: demo_npm_def)
  ultimately show ?thesis
    by (simp add: committed_chain chains_known settled_def removed_def chain_verdict_def verdict_of_def ew_verdict_def
        demo_ipam_eval demo_policy_def Let_def)
qed

theorem CommitPolicy_correct_witness:
  "\<exists>d'. CommitPolicy table_run demo = (Inr (), d') \<and>
     chain_policies ''RAIND-EW'' (d_npm d') = [(demo_policy ''p1'')\<lparr>pol_Status := ''applied'', pol_Reason := ''''\<rparr>] \<and>
     d_running d' = Doc (d_npm d')"
  using CommitPolicy_correct [OF table_laws demo_ready] by (auto simp: demo_fix demo_settled)

theorem commit_denies_by_default_witness:
  "\<exists>d' us. CommitPolicy table_run demo = (Inr (), d') \<and>
     d_host d' (fchain ''RAIND-EW'') = Some (us @ chain_of (\<lambda>s. s) (ew_rules demo_nets True)) \<and>
     (\<forall>x \<in> set us. ew_justified (\<lambda>s. s) demo_ipam csm_demo [demo_policy ''p1''] x)"
proof -
  have "GetEWLogging demo_npm" "EastWestPolicy (Policies demo_npm) = [demo_policy ''p1'']"
    by (simp_all add: demo_npm_def with_chain_def Let_def npm_initial_def GetEWLogging_def)
  with commit_denies_by_default [OF table_laws demo_ready] show ?thesis by simp
qed

theorem RemoveUserPolicy_commit_witness:
  "\<exists>da d'. RemoveUserPolicy ''p1'' demo = (Inr (), da) \<and> CommitPolicy table_run da = (Inr (), d') \<and>
     ''p1'' \<notin> set (chain_ids (d_npm d'))"
proof -
  have "\<exists>da. RemoveUserPolicy ''p1'' demo = (Inr (), da)"
    by (simp add: RemoveUserPolicy_def access_ok demo_npm_def with_chain_def Let_def npm_initial_def demo_policy_def
        GetPolicyChain_def has_policy_def UpdateStatus_def upd_def)
  then obtain da where "RemoveUserPolicy ''p1'' demo = (Inr (), da)" by blast
  with RemoveUserPolicy_commit [OF table_laws demo_ready] show ?thesis by blast
qed

text \<open>A requested change of the north-south mode is recorded as pending and takes effect at the
  next commit's first step: after an accepted request for a mode that is not the current one,
  \<open>FixNSMode\<close> sets exactly that mode and changes no policy; other modes are refused.\<close>

theorem ChangeNSMode_takes_effect:
  assumes "io_ok d"
  shows "(if mode \<noteq> ''enforce'' \<and> mode \<noteq> ''observe'' \<or> GetNSMode (d_npm d) = mode
      then (\<exists>e. svc_ChangeNSMode mode d = (Inl (Err e), d))
      else (\<exists>da d'. svc_ChangeNSMode mode d = (Inr (), da) \<and> GetNSMode (d_npm da) = mode @ ''_next_commit'' \<and>
        FixNSMode da = (Inr (), d') \<and> GetNSMode (d_npm d') = mode \<and> Policies (d_npm d') = Policies (d_npm d)))"
proof (cases "mode \<noteq> ''enforce'' \<and> mode \<noteq> ''observe'' \<or> GetNSMode (d_npm d) = mode")
  case True
  with assms show ?thesis by (auto simp: svc_ChangeNSMode_def)
next
  case False
  let ?m = "mode @ ''_next_commit''"
  obtain np where np: "ChangeNSMode ?m (d_npm d) = Inr np" "GetNSMode np = ?m" "Policies np = Policies (d_npm d)"
    by (simp add: ChangeNSMode_def GetNSMode_def)
  have c: "svc_ChangeNSMode mode d = (Inr (), d\<lparr>d_npm := np\<rparr>)"
    using False assms npm_upd_ok [where f = "ChangeNSMode ?m", OF assms np(1)] by (simp add: svc_ChangeNSMode_def)
  have hd: "hd (split_on (CHR ''_'') ?m) = mode" using False by auto
  have ct: "str_contains ?m ''_next_commit''" unfolding str_contains_iff by (intro exI [of _ mode] exI [of _ "[]"]) simp
  have "?m \<noteq> ''observe''" "?m \<noteq> ''enforce''" using False by auto
  with hd ct have "GetNSMode (fix_mode np) = mode"
    by (simp only: fix_mode_def np(2) Let_def) (simp add: GetNSMode_def)
  moreover have "FixNSMode (d\<lparr>d_npm := np\<rparr>) = (Inr (), d\<lparr>d_npm := fix_mode np\<rparr>)"
    using FixNSMode_effect [of "d\<lparr>d_npm := np\<rparr>"] assms by simp
  ultimately show ?thesis using False c np by (auto simp: fix_mode_policies)
qed

theorem ChangeNSMode_takes_effect_witness:
  "\<exists>da d'. svc_ChangeNSMode ''enforce'' demo = (Inr (), da) \<and> FixNSMode da = (Inr (), d') \<and> GetNSMode (d_npm d') = ''enforce''"
proof -
  have "GetNSMode (d_npm demo) \<noteq> ''enforce''" by (simp add: GetNSMode_def demo_npm_def npm_initial_def)
  with ChangeNSMode_takes_effect [of demo "''enforce''"] show ?thesis by auto
qed

end
