(* ===== verification/Network.thy ===== *)
theory Network
  imports Policy_Commit Ipam_Facts
begin

text \<open>
  The network service (\<open>src/internal/core/network/service.go\<close>): bridges, address translation and
  port forwarding.  Each operation runs \<open>ip\<close> and \<open>iptables\<close> and updates the address store; the
  creation of a network undoes its steps when a later one fails.
\<close>

subsection \<open>Operations\<close>

record ServiceNetworkModel =
  sn_HostPort :: string
  sn_ContainerPort :: string
  sn_Protocol :: string

record InputRuleModel =
  ir_SourceAddr :: string
  ir_DestAddr :: string
  ir_Protocol :: string
  ir_SourcePort :: int
  ir_DestPort :: int

definition CreateBridgeInterface :: "'h runner \<Rightarrow> string \<Rightarrow> string \<Rightarrow> (unit, 'h) act" where
  "CreateBridgeInterface run ifname addr =
     bnd (attempt (cmd_Run run [''ip'', ''link'', ''show'', ifname])) (\<lambda>found.
       if is_ok found then ret ()
       else seq (cmd_Run run [''ip'', ''link'', ''add'', ifname, ''type'', ''bridge''])
           (seq (cmd_Run run [''ip'', ''addr'', ''add'', addr, ''dev'', ifname])
                (cmd_Run run [''ip'', ''link'', ''set'', ifname, ''up''])))"

definition RemoveBridgeInterface :: "'h runner \<Rightarrow> string \<Rightarrow> (unit, 'h) act" where
  "RemoveBridgeInterface run ifname =
     bnd (attempt (cmd_Run run [''ip'', ''link'', ''show'', ifname])) (\<lambda>found.
       if is_ok found then cmd_Run run [''ip'', ''link'', ''del'', ifname]
       else fail (Err (''bridge: '' @ ifname @ '' not found'')))"

text \<open>
  A deferred function that looks at the named result \<open>err\<close>: it runs after an error, its own result
  is dropped; a panic leaves \<open>err\<close> nil.
\<close>

definition on_error :: "('a, 's) act \<Rightarrow> (unit, 's) act \<Rightarrow> ('a, 's) act" where
  "on_error m rollback s = (case m s of (Inl (Err e), s') \<Rightarrow> (Inl (Err e), snd (rollback s')) | r \<Rightarrow> r)"

definition rollback_network :: "'h runner \<Rightarrow> bool \<Rightarrow> bool \<Rightarrow> string \<Rightarrow> (unit, 'h daemon) act" where
  "rollback_network run storeIpam createBridge bridge =
     seq (if storeIpam then ipam_do (upd (RemoveBridge bridge)) else ret ())
    (seq (if createBridge then on_host (RemoveBridgeInterface run bridge) else ret ())
         (CommitPolicy run))"

definition CreateNewNetwork :: "'h runner \<Rightarrow> string \<Rightarrow> (unit, 'h daemon) act" where
  "CreateNewNetwork run bridge =
     bnd (on_error (ipam_do (StoreBridge bridge)) (rollback_network run False False bridge)) (\<lambda>(_, addr).
     seq (on_error (on_host (CreateBridgeInterface run bridge addr)) (rollback_network run True False bridge))
         (on_error (CommitPolicy run) (rollback_network run True True bridge)))"

definition RemoveNetwork :: "'h runner \<Rightarrow> string \<Rightarrow> (unit, 'h daemon) act" where
  "RemoveNetwork run bridge =
     bnd (ipam_do (query GetNetworkList)) (\<lambda>networkList.
       if \<exists>n \<in> set networkList. nl_Interface n = bridge \<and> NumContainers n \<noteq> 0
       then fail (Err (''network: '' @ bridge @ '' contains existing container''))
       else seq (on_host (RemoveBridgeInterface run bridge))
           (seq (ipam_do (upd (RemoveBridge bridge)))
                (CommitPolicy run)))"

text \<open>\<open>-C\<close> finds the rule or it is added.\<close>

definition ensure_rule :: "'h runner \<Rightarrow> command \<Rightarrow> command \<Rightarrow> (unit, 'h) act" where
  "ensure_rule run chk add = bnd (attempt (cmd_Run run chk)) (\<lambda>found. if is_ok found then ret () else cmd_Run run add)"

definition CreateMasqueradeRule :: "'h runner \<Rightarrow> string \<Rightarrow> string \<Rightarrow> (unit, 'h) act" where
  "CreateMasqueradeRule run src dst =
     (let spec = [''-s'', src, ''-o'', dst, ''-j'', ''MASQUERADE''] in
      ensure_rule run ([''iptables'', ''-t'', ''nat'', ''-C'', ''POSTROUTING''] @ spec)
        ([''iptables'', ''-t'', ''nat'', ''-A'', ''POSTROUTING''] @ spec))"

definition CreateRedirectDnsTrafficRule :: "'h runner \<Rightarrow> string \<Rightarrow> string \<Rightarrow> (unit, 'h) act" where
  "CreateRedirectDnsTrafficRule run forwarderIf forwarderAddr =
     (let spec = (\<lambda>proto. [''-i'', forwarderIf, ''-p'', proto, ''--dport'', ''53'', ''-j'', ''DNAT'',
            ''--to-destination'', forwarderAddr @ '':1053'']);
          ens = (\<lambda>proto. ensure_rule run ([''iptables'', ''-t'', ''nat'', ''-C'', ''PREROUTING''] @ spec proto)
            ([''iptables'', ''-t'', ''nat'', ''-A'', ''PREROUTING''] @ spec proto)) in
      seq (ens ''udp'') (ens ''tcp''))"

definition InsertInputRule :: "'h runner \<Rightarrow> int \<Rightarrow> InputRuleModel \<Rightarrow> string \<Rightarrow> (unit, 'h) act" where
  "InsertInputRule run num r action =
     (let ruleParam = [''-s'', ir_SourceAddr r, ''-d'', ir_DestAddr r, ''-j'', action] @
            args_if (ir_Protocol r \<noteq> []) [''-p'', ir_Protocol r] @
            args_if (ir_SourcePort r > 0) [''--sport'', itoa (ir_SourcePort r)] @
            args_if (ir_DestPort r > 0) [''--dport'', itoa (ir_DestPort r)] in
      ensure_rule run ([''iptables'', ''-C'', ''INPUT''] @ ruleParam)
        ([''iptables'', ''-I'', ''INPUT'', itoa num] @ ruleParam))"

definition setForwardRules ::
  "'h runner \<Rightarrow> string \<Rightarrow> string \<Rightarrow> string \<Rightarrow> ServiceNetworkModel \<Rightarrow> (unit, 'h) act" where
  "setForwardRules run hostInterface bridgeInterface containerAddr p =
     for_each (cmd_Run run)
      [[''iptables'', ''-t'', ''nat'', ''-A'', ''PREROUTING'', ''-i'', hostInterface, ''-p'', sn_Protocol p,
          ''--dport'', sn_HostPort p, ''-j'', ''DNAT'', ''--to-destination'', containerAddr @ '':'' @ sn_ContainerPort p],
       [''iptables'', ''-t'', ''nat'', ''-A'', ''OUTPUT'', ''-m'', ''addrtype'', ''--dst-type'', ''LOCAL'', ''-p'', sn_Protocol p,
          ''--dport'', sn_HostPort p, ''-j'', ''DNAT'', ''--to-destination'', containerAddr @ '':'' @ sn_ContainerPort p],
       [''iptables'', ''-t'', ''nat'', ''-A'', ''PREROUTING'', ''-i'', bridgeInterface, ''-m'', ''addrtype'', ''--dst-type'', ''LOCAL'',
          ''-p'', sn_Protocol p, ''--dport'', sn_HostPort p, ''-j'', ''DNAT'',
          ''--to-destination'', containerAddr @ '':'' @ sn_ContainerPort p],
       [''iptables'', ''-A'', ''FORWARD'', ''-i'', hostInterface, ''-o'', bridgeInterface, ''-p'', sn_Protocol p,
          ''--dport'', sn_HostPort p, ''-d'', containerAddr, ''-j'', ''ACCEPT''],
       [''iptables'', ''-I'', ''FORWARD'', ''1'', ''-i'', bridgeInterface, ''-o'', bridgeInterface, ''-p'', sn_Protocol p,
          ''-m'', ''conntrack'', ''--ctstate'', ''DNAT'', ''--dport'', sn_ContainerPort p, ''-d'', containerAddr, ''-j'', ''ACCEPT''],
       [''iptables'', ''-A'', ''FORWARD'', ''-o'', hostInterface, ''-i'', bridgeInterface, ''-p'', sn_Protocol p,
          ''--sport'', sn_HostPort p, ''-s'', containerAddr, ''-j'', ''ACCEPT'']]"

definition deleteForwardRules ::
  "'h runner \<Rightarrow> string \<Rightarrow> string \<Rightarrow> string \<Rightarrow> ServiceNetworkModel \<Rightarrow> (unit, 'h) act" where
  "deleteForwardRules run hostInterface bridgeInterface containerAddr p =
     for_each (cmd_Run run)
      [[''iptables'', ''-t'', ''nat'', ''-D'', ''PREROUTING'', ''-i'', hostInterface, ''-p'', sn_Protocol p,
          ''--dport'', sn_HostPort p, ''-j'', ''DNAT'', ''--to-destination'', containerAddr @ '':'' @ sn_ContainerPort p],
       [''iptables'', ''-t'', ''nat'', ''-D'', ''OUTPUT'', ''-m'', ''addrtype'', ''--dst-type'', ''LOCAL'', ''-p'', sn_Protocol p,
          ''--dport'', sn_HostPort p, ''-j'', ''DNAT'', ''--to-destination'', containerAddr @ '':'' @ sn_ContainerPort p],
       [''iptables'', ''-t'', ''nat'', ''-D'', ''PREROUTING'', ''-i'', bridgeInterface, ''-m'', ''addrtype'', ''--dst-type'', ''LOCAL'',
          ''-p'', sn_Protocol p, ''--dport'', sn_HostPort p, ''-j'', ''DNAT'',
          ''--to-destination'', containerAddr @ '':'' @ sn_ContainerPort p],
       [''iptables'', ''-D'', ''FORWARD'', ''-i'', hostInterface, ''-o'', bridgeInterface, ''-p'', sn_Protocol p,
          ''--dport'', sn_HostPort p, ''-d'', containerAddr, ''-j'', ''ACCEPT''],
       [''iptables'', ''-D'', ''FORWARD'', ''-i'', bridgeInterface, ''-o'', bridgeInterface, ''-p'', sn_Protocol p,
          ''-m'', ''conntrack'', ''--ctstate'', ''DNAT'', ''--dport'', sn_ContainerPort p, ''-d'', containerAddr, ''-j'', ''ACCEPT''],
       [''iptables'', ''-D'', ''FORWARD'', ''-o'', hostInterface, ''-i'', bridgeInterface, ''-p'', sn_Protocol p,
          ''--sport'', sn_HostPort p, ''-s'', containerAddr, ''-j'', ''ACCEPT'']]"

definition CreateForwardingRule :: "'h runner \<Rightarrow> string \<Rightarrow> ServiceNetworkModel \<Rightarrow> (unit, 'h daemon) act" where
  "CreateForwardingRule run containerId p =
     bnd (ipam_do (query (GetContainerAddress containerId))) (\<lambda>(host, bridge, addr).
       on_host (setForwardRules run host bridge addr p))"

definition RemoveForwardingRule :: "'h runner \<Rightarrow> string \<Rightarrow> ServiceNetworkModel \<Rightarrow> (unit, 'h daemon) act" where
  "RemoveForwardingRule run containerId p =
     bnd (ipam_do (query (GetContainerAddress containerId))) (\<lambda>(host, bridge, addr).
       on_host (deleteForwardRules run host bridge addr p))"

subsection \<open>What a commit leaves alone\<close>

lemma stable_or_continue [stable_intros]: "stable P m \<Longrightarrow> stable P k \<Longrightarrow> stable P (or_continue m k)"
  unfolding or_continue_def by (intro stable_intros)

lemma stable_resolve [stable_intros]: "stable (unchanged d0) (resolveContainerNameAndInfo n)"
  unfolding resolveContainerNameAndInfo_def by (intro stable_intros)

lemma stable_rules [stable_intros]:
  "stable (unchanged d0) (add_rule run c r a)" "stable (unchanged d0) (insert_rule run c r a)"
  unfolding add_rule_def insert_rule_def by (intro stable_on_host unchanged_host; assumption)+

lemma stable_user [stable_intros]:
  "stable (unchanged d0) (insertRaindEWUserPolicy run ps l)" "stable (unchanged d0) (insertRaindNSUserPolicy run c ps l)"
  unfolding insertRaindEWUserPolicy_def insert_ew_policy_def insertRaindNSUserPolicy_def insert_ns_policy_def Let_def
  by (intro stable_intros)+

lemma stable_backup [stable_intros]: "stable (unchanged d0) backup_policy"
  by (simp add: stable_def unchanged_def backup_policy_ok)

lemma stable_predefined [stable_intros]: "stable (unchanged d0) (BuildPredefinedPolicy run)"
  unfolding BuildPredefinedPolicy_def createChain_def insertForward_def buildRaindRootChain_def buildRaindEWChain_def
    buildRaindNSEnforceChain_def buildRaindNSObserveChain_def Let_def
  by (intro stable_intros unchanged_host; assumption)

lemma commit_unchanged [stable_intros]: "stable (unchanged d0) (CommitPolicy run)"
  unfolding CommitPolicy_def FixNSMode_def BuildUserPolicy_def by (intro stable_intros)

lemma stable_commit [stable_intros]: "stable (ipam_is ip) (CommitPolicy run)"
proof -
  have "unchanged d (snd (CommitPolicy run d))" if "io_ok d" for d :: "'a daemon"
    using commit_unchanged [of d run] that by (simp add: stable_def unchanged_def)
  then show ?thesis by (simp add: stable_def ipam_is_def unchanged_def)
qed

subsection \<open>Creating a network is all or nothing in the address store\<close>

lemma StoreBridge_RemoveBridge:
  assumes "ipam_inv st" "StoreBridge bridge st = Inr (x, st')"
  shows "RemoveBridge bridge st' = Inr st"
  using assms(1)
proof (cases rule: StoreBridge_cases [where bridge = bridge])
  case (ok y)
  then have "filter (\<lambda>p. pl_Interface p \<noteq> bridge) (Pools st) = Pools st" by (simp add: filter_id_conv)
  with ok assms(2) show ?thesis by (auto simp: RemoveBridge_def)
qed (use assms(2) in auto)

lemma ipam_do_upd: "ipam_is ip d \<Longrightarrow> f ip = Inr ip' \<Longrightarrow> \<exists>d'. ipam_do (upd f) d = (Inr (), d') \<and> ipam_is ip' d'"
  using access_ok [of d "upd f" d_ipam "()" ip' d_ipam_update] by (auto simp: ipam_is_def)

lemma rollback_ipam:
  assumes "ipam_is ip d" "RemoveBridge bridge ip = Inr ip'"
  shows "ipam_is ip' (snd (rollback_network run True cb bridge d))"
proof -
  let ?k = "seq (if cb then on_host (RemoveBridgeInterface run bridge) else ret ()) (CommitPolicy run)"
  obtain d' where "ipam_do (upd (RemoveBridge bridge)) d = (Inr (), d')" "ipam_is ip' d'"
    using ipam_do_upd [OF assms(1), of "RemoveBridge bridge", OF assms(2)] by blast
  moreover have "stable (ipam_is ip') ?k" by (intro stable_intros ipam_is_host)
  ultimately show ?thesis by (simp add: rollback_network_def stable_def)
qed

lemma rollback_none: "ipam_is ip d \<Longrightarrow> ipam_is ip (snd (rollback_network run False False bridge d))"
proof -
  have "stable (ipam_is ip) (rollback_network run False False bridge)"
    unfolding rollback_network_def by (intro stable_intros) simp_all
  then show "ipam_is ip d \<Longrightarrow> ?thesis" by (simp add: stable_def)
qed

lemma on_error_ipam:
  assumes "stable (ipam_is ip) m" "ipam_is ip d" "RemoveBridge bridge ip = Inr ip'"
    "on_error m (rollback_network run True cb bridge) d = (r, d')"
  shows "case r of Inl (Err e) \<Rightarrow> ipam_is ip' d' | _ \<Rightarrow> ipam_is ip d'"
proof -
  obtain r' s where m: "m d = (r', s)" by fastforce
  have s: "ipam_is ip s" using stableD [OF assms(1) m assms(2)] .
  show ?thesis
    using assms(4) m s rollback_ipam [OF s assms(3)] by (auto simp: on_error_def split: sum.splits error.splits)
qed

text \<open>C18: creating a network is all or nothing in the address store, whichever external commands
  fail and however the rollback goes: on success the store is the one \<open>StoreBridge\<close> makes, on an
  error it is the store before the call.\<close>

theorem CreateNewNetwork_atomic:
  assumes "io_ok d" "ipam_inv (d_ipam d)" "CreateNewNetwork run bridge d = (r, d')"
  shows "case r of
      Inr u \<Rightarrow> (\<exists>x. StoreBridge bridge (d_ipam d) = Inr (x, d_ipam d'))
    | Inl (Err e) \<Rightarrow> d_ipam d' = d_ipam d
    | Inl (Panic p) \<Rightarrow> True"
proof (cases "StoreBridge bridge (d_ipam d)")
  case (Inl e)
  have d: "ipam_is (d_ipam d) d" using assms(1) by (simp add: ipam_is_def)
  have "ipam_do (StoreBridge bridge) d = (Inl e, d)" using Inl assms(1) access_error [of d "StoreBridge bridge" d_ipam e d_ipam_update] by simp
  then show ?thesis
    using assms(3) rollback_none [OF d, of run bridge]
    by (auto simp: CreateNewNetwork_def on_error_def bnd_def ipam_is_def split: error.splits)
next
  case (Inr y)
  obtain sub addr ip where y: "y = ((sub, addr), ip)" by (metis prod.collapse)
  note sb = Inr [unfolded y] and rb = StoreBridge_RemoveBridge [OF assms(2) Inr [unfolded y]]
  let ?d = "d\<lparr>d_ipam := ip\<rparr>"
  let ?mk = "on_error (on_host (CreateBridgeInterface run bridge addr)) (rollback_network run True False bridge)"
    and ?cp = "on_error (CommitPolicy run) (rollback_network run True True bridge)"
  have s: "ipam_do (StoreBridge bridge) d = (Inr (sub, addr), ?d)"
    using access_ok [of d "StoreBridge bridge" d_ipam "(sub, addr)" ip d_ipam_update] assms(1) sb by simp
  have d: "ipam_is ip ?d" using assms(1) by (simp add: ipam_is_def)
  obtain ra da where a: "?mk ?d = (ra, da)" by fastforce
  have st: "stable (ipam_is ip) (on_host (CreateBridgeInterface run bridge addr))" by (intro stable_on_host ipam_is_host)
  note mk = on_error_ipam [OF st d rb a]
  have n: "CreateNewNetwork run bridge d = seq ?mk ?cp ?d" by (simp add: CreateNewNetwork_def on_error_def s)
  show ?thesis
  proof (cases ra)
    case (Inl e)
    then show ?thesis using n a mk assms(3) by (auto simp: ipam_is_def split: error.splits)
  next
    case (Inr u)
    have da: "ipam_is ip da" using mk Inr by simp
    have "?cp da = (r, d')" using n a Inr assms(3) by simp
    from on_error_ipam [OF stable_commit da rb this] show ?thesis
      using sb by (auto simp: ipam_is_def split: sum.splits error.splits)
  qed
qed

text \<open>A host on which every command fails: the address store is as before.\<close>

theorem CreateNewNetwork_atomic_witness:
  "\<exists>e d'. CreateNewNetwork (\<lambda>cmd h. (False, h)) ''br1'' ((demo_daemon npm_initial ())\<lparr>d_ipam := ipam_initial ''eth0'' ''192.168.0.2/24''\<rparr>) =
     (Inl (Err e), d') \<and> d_ipam d' = ipam_initial ''eth0'' ''192.168.0.2/24''"
proof -
  let ?d = "(demo_daemon npm_initial ())\<lparr>d_ipam := ipam_initial ''eth0'' ''192.168.0.2/24''\<rparr>" and ?run = "\<lambda>cmd h. (False, h)"
  have "\<exists>e. fst (CreateNewNetwork ?run ''br1'' ?d) = Inl (Err e)"
    using access_ok [of ?d "StoreBridge ''br1''" d_ipam _ _ d_ipam_update] StoreBridge_example
    by (simp add: CreateNewNetwork_def on_error_def CreateBridgeInterface_def on_host_def cmd_Run_def command_failed_def bnd_def
        seq_def attempt_def)
  then obtain e d' where r: "CreateNewNetwork ?run ''br1'' ?d = (Inl (Err e), d')" by (metis prod.collapse)
  have "io_ok ?d" "ipam_inv (d_ipam ?d)" using ipam_initial_inv by simp_all
  from CreateNewNetwork_atomic [OF this r] r show ?thesis by auto
qed

subsection \<open>Removing a network\<close>

lemma GetNetworkList_busy:
  assumes "p \<in> set (Pools st)" "allocs p \<noteq> []"
  obtains l n where "GetNetworkList st = Inr l" "n \<in> set l" "nl_Interface n = pl_Interface p" "NumContainers n \<noteq> 0"
proof -
  let ?f = "\<lambda>p. \<lparr>nl_Interface = pl_Interface p, nl_Address = Address p, NumContainers = length (allocs p)\<rparr>"
  have "GetNetworkList st = Inr (map ?f (Pools st))" using assms(1) by (auto simp: GetNetworkList_def Let_def)
  then show ?thesis by (rule that [of _ "?f p"]) (use assms in auto)
qed

text \<open>C35: a network that still has containers is not removed: the call fails and nothing at all has
  changed, no command was run.  When the call succeeds, no pool of the network is left, every
  other pool is as before, and the network had no container.\<close>

theorem RemoveNetwork_correct:
  assumes "io_ok d" "RemoveNetwork run bridge d = (r, d')"
  shows "((\<exists>p \<in> set (Pools (d_ipam d)). pl_Interface p = bridge \<and> allocs p \<noteq> []) \<longrightarrow> (\<exists>e. r = Inl (Err e)) \<and> d' = d) \<and>
    (r = Inr () \<longrightarrow> Pools (d_ipam d') = filter (\<lambda>p. pl_Interface p \<noteq> bridge) (Pools (d_ipam d)) \<and>
      (\<forall>p \<in> set (Pools (d_ipam d)). pl_Interface p = bridge \<longrightarrow> allocs p = []))"
proof -
  have busy: "(\<exists>e. r = Inl (Err e)) \<and> d' = d" if p: "p \<in> set (Pools (d_ipam d))" "pl_Interface p = bridge" "allocs p \<noteq> []" for p
  proof -
    obtain l n where l: "GetNetworkList (d_ipam d) = Inr l" "n \<in> set l" "nl_Interface n = pl_Interface p" "NumContainers n \<noteq> 0"
      using GetNetworkList_busy [OF p(1,3)] .
    with p(2) assms show ?thesis by (auto simp: RemoveNetwork_def split: if_splits)
  qed
  have "Pools (d_ipam d') = filter (\<lambda>p. pl_Interface p \<noteq> bridge) (Pools (d_ipam d))" if ok: "r = Inr ()"
  proof -
    have d: "ipam_is (d_ipam d) d" using assms(1) by (simp add: ipam_is_def)
    obtain l where "ipam_do (query GetNetworkList) d = (Inr l, d)"
      using assms(1,2) ok by (cases "GetNetworkList (d_ipam d)") (auto simp: RemoveNetwork_def access_error)
    then obtain h where h: "seq (ipam_do (upd (RemoveBridge bridge))) (CommitPolicy run) (d\<lparr>d_host := h\<rparr>) = (Inr (), d')"
      using assms(2) ok by (auto simp: RemoveNetwork_def on_host_def seq_def bnd_Inr split: if_splits prod.splits)
    have dh: "ipam_is (d_ipam d) (d\<lparr>d_host := h\<rparr>)" by (rule ipam_is_host [OF d])
    show ?thesis
    proof (cases "RemoveBridge bridge (d_ipam d)")
      case (Inl e)
      then have "ipam_do (upd (RemoveBridge bridge)) (d\<lparr>d_host := h\<rparr>) = (Inl e, d\<lparr>d_host := h\<rparr>)"
        using access_error [of "d\<lparr>d_host := h\<rparr>" "upd (RemoveBridge bridge)" d_ipam e d_ipam_update] assms(1) by (simp add: upd_def)
      with h show ?thesis by simp
    next
      case (Inr ip)
      then obtain da where "ipam_do (upd (RemoveBridge bridge)) (d\<lparr>d_host := h\<rparr>) = (Inr (), da)" "ipam_is ip da"
        using ipam_do_upd [OF dh, of "RemoveBridge bridge", OF Inr] by blast
      then have "CommitPolicy run da = (Inr (), d')" "ipam_is ip da" using h by simp_all
      from stableD [OF stable_commit this] have "d_ipam d' = ip" by (simp add: ipam_is_def)
      moreover have "Pools ip = filter (\<lambda>p. pl_Interface p \<noteq> bridge) (Pools (d_ipam d))"
        using Inr by (auto simp: RemoveBridge_def split: if_splits)
      ultimately show ?thesis by simp
    qed
  qed
  with busy show ?thesis by fastforce
qed

text \<open>The default network of the example has two containers.\<close>

theorem RemoveNetwork_correct_witness:
  "\<exists>e. RemoveNetwork table_run ''raind0'' demo = (Inl (Err e), demo)"
proof -
  obtain r d' where r: "RemoveNetwork table_run ''raind0'' demo = (r, d')" by fastforce
  have "io_ok demo" by simp
  from RemoveNetwork_correct [OF this r] r show ?thesis
    by (auto simp: demo_ipam_def ipam_initial_def default_pool_def allocs_def)
qed

subsection \<open>Port forwarding\<close>

text \<open>The six rules of a forwarded port: chain and specification.\<close>

definition forward_specs :: "string \<Rightarrow> string \<Rightarrow> string \<Rightarrow> ServiceNetworkModel \<Rightarrow> string list list" where
  "forward_specs host bridge addr p =
     (let dst = [''--dport'', sn_HostPort p, ''-j'', ''DNAT'', ''--to-destination'', addr @ '':'' @ sn_ContainerPort p];
          loc = [''-m'', ''addrtype'', ''--dst-type'', ''LOCAL''] in
      [[''-i'', host, ''-p'', sn_Protocol p] @ dst,
       loc @ [''-p'', sn_Protocol p] @ dst,
       [''-i'', bridge] @ loc @ [''-p'', sn_Protocol p] @ dst,
       [''-i'', host, ''-o'', bridge, ''-p'', sn_Protocol p, ''--dport'', sn_HostPort p, ''-d'', addr, ''-j'', ''ACCEPT''],
       [''-i'', bridge, ''-o'', bridge, ''-p'', sn_Protocol p, ''-m'', ''conntrack'', ''--ctstate'', ''DNAT'',
          ''--dport'', sn_ContainerPort p, ''-d'', addr, ''-j'', ''ACCEPT''],
       [''-o'', host, ''-i'', bridge, ''-p'', sn_Protocol p, ''--sport'', sn_HostPort p, ''-s'', addr, ''-j'', ''ACCEPT'']])"

lemma forward_specs_opt: "\<forall>s \<in> set (forward_specs host bridge addr p). opt_spec s"
  by (simp add: forward_specs_def Let_def opt_spec_def has_prefix_def)

lemma forward_specs_six: "\<exists>a b c d e f. forward_specs host bridge addr p = [a, b, c, d, e, f]"
  by (simp add: forward_specs_def Let_def)

lemma forward_cmds:
  assumes "forward_specs host bridge addr p = [a, b, c, d, e, f]"
  shows "setForwardRules run host bridge addr p = for_each (cmd_Run run)
      [ipt ''nat'' (''-A'' # ''PREROUTING'' # a), ipt ''nat'' (''-A'' # ''OUTPUT'' # b), ipt ''nat'' (''-A'' # ''PREROUTING'' # c),
       ipt ''filter'' (''-A'' # ''FORWARD'' # d), ipt ''filter'' (''-I'' # ''FORWARD'' # ''1'' # e), ipt ''filter'' (''-A'' # ''FORWARD'' # f)]"
    and "deleteForwardRules run host bridge addr p = for_each (cmd_Run run)
      [ipt ''nat'' (''-D'' # ''PREROUTING'' # a), ipt ''nat'' (''-D'' # ''OUTPUT'' # b), ipt ''nat'' (''-D'' # ''PREROUTING'' # c),
       ipt ''filter'' (''-D'' # ''FORWARD'' # d), ipt ''filter'' (''-D'' # ''FORWARD'' # e), ipt ''filter'' (''-D'' # ''FORWARD'' # f)]"
  using assms by (auto simp: setForwardRules_def deleteForwardRules_def forward_specs_def Let_def ipt_def)

text \<open>The chains with the six rules.\<close>

definition forwarded :: "'r list \<Rightarrow> 'r tables \<Rightarrow> 'r tables" where
  "forwarded rs t =
     t((''nat'', ''PREROUTING'') := map_option (\<lambda>xs. xs @ [rs ! 0, rs ! 2]) (t (''nat'', ''PREROUTING'')),
       (''nat'', ''OUTPUT'') := map_option (\<lambda>xs. xs @ [rs ! 1]) (t (''nat'', ''OUTPUT'')),
       (''filter'', ''FORWARD'') := map_option (\<lambda>xs. rs ! 4 # xs @ [rs ! 3, rs ! 5]) (t (''filter'', ''FORWARD'')))"

lemma setForwardRules_effect:
  assumes laws: "iptables_laws run tables parse valid" and v: "\<forall>s \<in> set (forward_specs host bridge addr p). valid s"
    and ch: "tables h (''nat'', ''PREROUTING'') = Some pre" "tables h (''nat'', ''OUTPUT'') = Some out" "tables h (''filter'', ''FORWARD'') = Some fwd"
  obtains h' where "setForwardRules run host bridge addr p h = (Inr (), h')"
    "tables h' = forwarded (map parse (forward_specs host bridge addr p)) (tables h)"
proof -
  obtain a b c d e f where s: "forward_specs host bridge addr p = [a, b, c, d, e, f]" using forward_specs_six by metis
  have o: "opt_spec a" "opt_spec b" "opt_spec c" "opt_spec d" "opt_spec e" "opt_spec f"
    using forward_specs_opt [of host bridge addr p] s by simp_all
  have v': "valid a" "valid b" "valid c" "valid d" "valid e" "valid f" using v s by simp_all
  obtain h1 where h1: "run (ipt ''nat'' (''-A'' # ''PREROUTING'' # a)) h = (True, h1)"
    "tables h1 = (tables h)((''nat'', ''PREROUTING'') \<mapsto> pre @ [parse a])"
    using laws_append [OF laws, OF o(1) v'(1) ch(1)] by blast
  have "tables h1 (''nat'', ''OUTPUT'') = Some out" using h1 ch by simp
  from laws_append [OF laws, OF o(2) v'(2) this] obtain h2 where h2: "run (ipt ''nat'' (''-A'' # ''OUTPUT'' # b)) h1 = (True, h2)"
    "tables h2 = (tables h1)((''nat'', ''OUTPUT'') \<mapsto> out @ [parse b])" by blast
  have "tables h2 (''nat'', ''PREROUTING'') = Some (pre @ [parse a])" using h1 h2 by simp
  from laws_append [OF laws, OF o(3) v'(3) this] obtain h3 where h3: "run (ipt ''nat'' (''-A'' # ''PREROUTING'' # c)) h2 = (True, h3)"
    "tables h3 = (tables h2)((''nat'', ''PREROUTING'') \<mapsto> (pre @ [parse a]) @ [parse c])" by blast
  have "tables h3 (''filter'', ''FORWARD'') = Some fwd" using h1 h2 h3 ch by simp
  from laws_append [OF laws, OF o(4) v'(4) this] obtain h4 where h4: "run (ipt ''filter'' (''-A'' # ''FORWARD'' # d)) h3 = (True, h4)"
    "tables h4 = (tables h3)((''filter'', ''FORWARD'') \<mapsto> fwd @ [parse d])" by blast
  have "tables h4 (''filter'', ''FORWARD'') = Some (fwd @ [parse d])" using h4 by simp
  from laws_insert_first [OF laws, OF o(5) v'(5) this] obtain h5 where h5: "run (ipt ''filter'' (''-I'' # ''FORWARD'' # ''1'' # e)) h4 = (True, h5)"
    "tables h5 = (tables h4)((''filter'', ''FORWARD'') \<mapsto> parse e # fwd @ [parse d])" by blast
  have "tables h5 (''filter'', ''FORWARD'') = Some (parse e # fwd @ [parse d])" using h5 by simp
  from laws_append [OF laws, OF o(6) v'(6) this] obtain h6 where h6: "run (ipt ''filter'' (''-A'' # ''FORWARD'' # f)) h5 = (True, h6)"
    "tables h6 = (tables h5)((''filter'', ''FORWARD'') \<mapsto> (parse e # fwd @ [parse d]) @ [parse f])" by blast
  have "setForwardRules run host bridge addr p h = (Inr (), h6)"
    unfolding forward_cmds(1) [OF s] by (simp add: h1(1) h2(1) h3(1) h4(1) h5(1) h6(1))
  moreover have "tables h6 = forwarded (map parse (forward_specs host bridge addr p)) (tables h)"
    unfolding h6(2) h5(2) h4(2) h3(2) h2(2) h1(2) by (auto simp: fun_eq_iff forwarded_def s ch)
  ultimately show ?thesis using that by blast
qed

lemma remove1_last: "x \<notin> set xs \<Longrightarrow> remove1 x (xs @ x # ys) = xs @ ys"
  by (simp add: remove1_append)

lemma remove1_front_back:
  "d \<notin> set xs \<Longrightarrow> e \<notin> set xs \<Longrightarrow> remove1 e (remove1 d (e # xs @ [d, f])) = xs @ [f]"
  by (cases "d = e") (simp_all add: remove1_append)

lemma deleteForwardRules_effect:
  assumes laws: "iptables_laws run tables parse valid" and v: "\<forall>s \<in> set (forward_specs host bridge addr p). valid s"
    and ch: "t (''nat'', ''PREROUTING'') = Some pre" "t (''nat'', ''OUTPUT'') = Some out" "t (''filter'', ''FORWARD'') = Some fwd"
    and t: "tables h = forwarded (map parse (forward_specs host bridge addr p)) t"
    and fresh: "\<forall>s \<in> set (forward_specs host bridge addr p). parse s \<notin> set pre \<and> parse s \<notin> set out \<and> parse s \<notin> set fwd"
  obtains h' where "deleteForwardRules run host bridge addr p h = (Inr (), h')" "tables h' = t"
proof -
  obtain a b c d e f where s: "forward_specs host bridge addr p = [a, b, c, d, e, f]" using forward_specs_six by metis
  have o: "opt_spec a" "opt_spec b" "opt_spec c" "opt_spec d" "opt_spec e" "opt_spec f"
    using forward_specs_opt [of host bridge addr p] s by simp_all
  have v': "valid a" "valid b" "valid c" "valid d" "valid e" "valid f" using v s by simp_all
  have fr: "parse a \<notin> set pre" "parse b \<notin> set out" "parse c \<notin> set pre" "parse d \<notin> set fwd" "parse e \<notin> set fwd" "parse f \<notin> set fwd"
    using fresh s by simp_all
  note del = laws_delete [OF laws]
  have c1: "tables h (''nat'', ''PREROUTING'') = Some (pre @ [parse a, parse c])" and c2: "tables h (''nat'', ''OUTPUT'') = Some (out @ [parse b])"
    and c3: "tables h (''filter'', ''FORWARD'') = Some (parse e # fwd @ [parse d, parse f])"
    using t ch s by (simp_all add: forwarded_def)
  obtain h1 where h1: "run (ipt ''nat'' (''-D'' # ''PREROUTING'' # a)) h = (True, h1)"
    "tables h1 = (tables h)((''nat'', ''PREROUTING'') \<mapsto> pre @ [parse c])"
    using del [OF o(1) v'(1) c1] fr(1) by (auto simp: remove1_last)
  have "tables h1 (''nat'', ''OUTPUT'') = Some (out @ [parse b])" using h1 c2 by simp
  from del [OF o(2) v'(2) this] obtain h2 where h2: "run (ipt ''nat'' (''-D'' # ''OUTPUT'' # b)) h1 = (True, h2)"
    "tables h2 = (tables h1)((''nat'', ''OUTPUT'') \<mapsto> out)" using fr(2) by (auto simp: remove1_last)
  have "tables h2 (''nat'', ''PREROUTING'') = Some (pre @ [parse c])" using h1 h2 by simp
  from del [OF o(3) v'(3) this] obtain h3 where h3: "run (ipt ''nat'' (''-D'' # ''PREROUTING'' # c)) h2 = (True, h3)"
    "tables h3 = (tables h2)((''nat'', ''PREROUTING'') \<mapsto> pre)" using fr(3) by (auto simp: remove1_last)
  let ?x = "remove1 (parse d) (parse e # fwd @ [parse d, parse f])"
  have "tables h3 (''filter'', ''FORWARD'') = Some (parse e # fwd @ [parse d, parse f])" using h1 h2 h3 c3 by simp
  from del [OF o(4) v'(4) this] obtain h4 where h4: "run (ipt ''filter'' (''-D'' # ''FORWARD'' # d)) h3 = (True, h4)"
    "tables h4 = (tables h3)((''filter'', ''FORWARD'') \<mapsto> ?x)" by auto
  have t4: "tables h4 (''filter'', ''FORWARD'') = Some ?x" using h4(2) by simp
  have "parse e \<in> set ?x" using fr by (cases "parse d = parse e") simp_all
  from del [OF o(5) v'(5) t4 this] obtain h5 where h5: "run (ipt ''filter'' (''-D'' # ''FORWARD'' # e)) h4 = (True, h5)"
    "tables h5 = (tables h4)((''filter'', ''FORWARD'') \<mapsto> fwd @ [parse f])"
    unfolding remove1_front_back [OF fr(4,5)] by blast
  have "tables h5 (''filter'', ''FORWARD'') = Some (fwd @ [parse f])" using h5 by simp
  from del [OF o(6) v'(6) this] obtain h6 where h6: "run (ipt ''filter'' (''-D'' # ''FORWARD'' # f)) h5 = (True, h6)"
    "tables h6 = (tables h5)((''filter'', ''FORWARD'') \<mapsto> fwd)" using fr(6) by (auto simp: remove1_last)
  have "deleteForwardRules run host bridge addr p h = (Inr (), h6)"
    unfolding forward_cmds(2) [OF s] by (simp add: h1(1) h2(1) h3(1) h4(1) h5(1) h6(1))
  moreover have "tables h6 = t"
    unfolding h6(2) h5(2) h4(2) h3(2) h2(2) h1(2) t by (auto simp: fun_eq_iff forwarded_def ch)
  ultimately show ?thesis using that by blast
qed

text \<open>C34: removing a port forward undoes its creation.  For a container with an address, when the
  packet filter accepts the six rules and has none of them yet, creating the forward adds exactly
  those rules to the three chains, and removing it afterwards leaves every chain as it was.\<close>

theorem forwarding_roundtrip:
  assumes "iptables_laws run tables parse valid" "io_ok d" "GetContainerAddress cid (d_ipam d) = Inr (host, bridge, addr)"
    "\<forall>s \<in> set (forward_specs host bridge addr p). valid s \<and> parse s \<notin> set pre \<and> parse s \<notin> set out \<and> parse s \<notin> set fwd"
    "tables (d_host d) (''nat'', ''PREROUTING'') = Some pre" "tables (d_host d) (''nat'', ''OUTPUT'') = Some out"
    "tables (d_host d) (''filter'', ''FORWARD'') = Some fwd"
  shows "\<exists>da d'. CreateForwardingRule run cid p d = (Inr (), da) \<and>
    tables (d_host da) = forwarded (map parse (forward_specs host bridge addr p)) (tables (d_host d)) \<and>
    RemoveForwardingRule run cid p da = (Inr (), d') \<and> tables (d_host d') = tables (d_host d)"
proof -
  have v: "\<forall>s \<in> set (forward_specs host bridge addr p). valid s"
    and fr: "\<forall>s \<in> set (forward_specs host bridge addr p). parse s \<notin> set pre \<and> parse s \<notin> set out \<and> parse s \<notin> set fwd"
    using assms(4) by blast+
  obtain h where h: "setForwardRules run host bridge addr p (d_host d) = (Inr (), h)"
    "tables h = forwarded (map parse (forward_specs host bridge addr p)) (tables (d_host d))"
    using setForwardRules_effect [OF assms(1), OF v assms(5-7)] by blast
  obtain h' where h': "deleteForwardRules run host bridge addr p h = (Inr (), h')" "tables h' = tables (d_host d)"
    using deleteForwardRules_effect [OF assms(1), OF v assms(5-7) h(2) fr] by blast
  have "CreateForwardingRule run cid p d = (Inr (), d\<lparr>d_host := h\<rparr>)"
    "RemoveForwardingRule run cid p (d\<lparr>d_host := h\<rparr>) = (Inr (), d\<lparr>d_host := h'\<rparr>)"
    using assms(2,3) h(1) h'(1) by (simp_all add: CreateForwardingRule_def RemoveForwardingRule_def on_host_def)
  then show ?thesis using h(2) h'(2) by auto
qed

theorem forwarding_roundtrip_witness:
  "\<exists>da d'. CreateForwardingRule table_run ''i1'' \<lparr>sn_HostPort = ''8080'', sn_ContainerPort = ''80'', sn_Protocol = ''tcp''\<rparr>
       (demo_daemon npm_initial (\<lambda>k. Some [])) = (Inr (), da) \<and>
     RemoveForwardingRule table_run ''i1'' \<lparr>sn_HostPort = ''8080'', sn_ContainerPort = ''80'', sn_Protocol = ''tcp''\<rparr> da = (Inr (), d') \<and>
     d_host d' = (\<lambda>k. Some [])"
proof -
  have "GetContainerAddress ''i1'' demo_ipam = Inr (''eth0'', ''raind0'', ''10.166.0.1'')"
    by (simp add: GetContainerAddress_def demo_ipam_def ipam_initial_def default_pool_def demo_alloc_def allocs_def)
  with forwarding_roundtrip [OF table_laws, where d = "demo_daemon npm_initial (\<lambda>k. Some [])" and cid = "''i1''" and host = "''eth0''"
      and bridge = "''raind0''" and addr = "''10.166.0.1''" and pre = "[]" and out = "[]" and fwd = "[]"
      and p = "\<lparr>sn_HostPort = ''8080'', sn_ContainerPort = ''80'', sn_Protocol = ''tcp''\<rparr>"]
  show ?thesis by auto
qed

end
