(* ===== verification/Layers.thy ===== *)
theory Layers
  imports Effects Go_Text
begin

text \<open>
  Unpacking the layers of an image (\<open>applyLayers\<close> to \<open>removeAllChildren\<close> of
  \<open>src/internal/registry/dockerhub/handler.go\<close>).  A layer is a tar archive from a registry; its
  headers name the files to create and, by \<open>.wh.\<close> names, the files to remove.
\<close>

subsection \<open>The operating system calls\<close>

datatype os_call =
    Os_MkdirAll string nat
  | Os_RemoveAll string
  | Os_Remove string
  | Os_Create string nat
  | Os_Copy string "string result"
  | Os_Close string
  | Os_Rename string string
  | Os_Symlink string string
  | Os_Link string string
  | Os_Chtimes string
  | Os_Chown string int int
  | Os_Lchown string int int
  | Os_WriteFile string string nat
  | Os_Chmod string nat

datatype stat_info = Stat_missing | Stat_error error | Stat_dir | Stat_other

text \<open>
  What a call does is a parameter.  \<open>Os_Create\<close> is \<open>OpenFile\<close> with \<open>O_CREATE|O_WRONLY|O_TRUNC\<close>,
  \<open>Os_Copy p c\<close> copies a stream into the open file \<open>p\<close>; \<open>c\<close> is the text of the stream or the
  error reading it ends with.  \<open>os_tar\<close> opens a layer, decompresses it and reads its tar entries;
  \<open>os_read\<close> is \<open>ReadFile\<close>.
\<close>

datatype typeflag = TypeReg | TypeRegA | TypeDir | TypeSymlink | TypeLink | TypeChar | TypeBlock | TypeFifo | TypeOther

record tar_header =
  th_Name :: string
  th_Linkname :: string
  th_Typeflag :: typeflag
  th_Mode :: nat
  th_Uid :: int
  th_Gid :: int

datatype tar_item = Tar_entry tar_header "string result" | Tar_nil | Tar_error error

record 'h os =
  os_do :: "os_call \<Rightarrow> (unit, 'h) act"
  os_stat :: "string \<Rightarrow> 'h \<Rightarrow> stat_info"
  os_readdir :: "string \<Rightarrow> 'h \<Rightarrow> string list result"
  os_tar :: "string \<Rightarrow> 'h \<Rightarrow> tar_item list result"
  os_read :: "string \<Rightarrow> 'h \<Rightarrow> string result"

text \<open>The permissions \<open>0o755\<close>.\<close>

abbreviation mode755 :: nat where
  "mode755 \<equiv> 493"

text \<open>\<open>_ = m()\<close>: the error is dropped.\<close>

definition ignore :: "('a, 's) act \<Rightarrow> (unit, 's) act" where
  "ignore m = bnd (attempt m) (\<lambda>_. ret ())"

text \<open>\<open>fmt.Errorf("prefix%w", err)\<close>.\<close>

definition wrap_err :: "string \<Rightarrow> ('a, 's) act \<Rightarrow> ('a, 's) act" where
  "wrap_err prefix m s = (case m s of (Inl (Err e), s') \<Rightarrow> (Inl (Err (prefix @ e)), s') | r \<Rightarrow> r)"

definition trim_prefix :: "string \<Rightarrow> string \<Rightarrow> string" where
  "trim_prefix s p = (if has_prefix s p then drop (length p) s else s)"

subsection \<open>Unpacking\<close>

definition joinRoot :: "string \<Rightarrow> string \<Rightarrow> string result" where
  "joinRoot rootfs rel0 =
     (let rel = path_clean (trim_prefix rel0 ''/'') in
      if rel = ''.'' then Inr rootfs
      else if rel = ''..'' \<or> has_prefix rel ''../'' then Inl (Err (''path escapes root: '' @ rel))
      else Inr (path_join [rootfs, rel]))"

definition applyOwner :: "'h os \<Rightarrow> string \<Rightarrow> tar_header \<Rightarrow> bool \<Rightarrow> (unit, 'h) act" where
  "applyOwner os path hdr isSymlink =
     (if isSymlink then os_do os (Os_Lchown path (th_Uid hdr) (th_Gid hdr))
      else os_do os (Os_Chown path (th_Uid hdr) (th_Gid hdr)))"

definition writeFileFromTar :: "'h os \<Rightarrow> string \<Rightarrow> string result \<Rightarrow> nat \<Rightarrow> (unit, 'h) act" where
  "writeFileFromTar os dstPath content mode =
     (let tmp = dstPath @ ''.tmp'' in
      seq (os_do os (Os_Create tmp mode))
     (bnd (attempt (os_do os (Os_Copy tmp content))) (\<lambda>copyErr.
      bnd (attempt (os_do os (Os_Close tmp))) (\<lambda>closeErr.
        case copyErr of
          Inl e \<Rightarrow> seq (ignore (os_do os (Os_Remove tmp))) (fail e)
        | Inr _ \<Rightarrow> (case closeErr of
            Inl e \<Rightarrow> seq (ignore (os_do os (Os_Remove tmp))) (fail e)
          | Inr _ \<Rightarrow> seq (ignore (os_do os (Os_RemoveAll dstPath))) (os_do os (Os_Rename tmp dstPath)))))))"

definition removeAllChildren :: "'h os \<Rightarrow> string \<Rightarrow> (unit, 'h) act" where
  "removeAllChildren os dir h =
     (case os_stat os dir h of
        Stat_missing \<Rightarrow> os_do os (Os_MkdirAll dir mode755) h
      | Stat_error e \<Rightarrow> (Inl e, h)
      | Stat_other \<Rightarrow> (Inl (Err (''not a dir: '' @ dir)), h)
      | Stat_dir \<Rightarrow> (case os_readdir os dir h of
          Inl e \<Rightarrow> (Inl e, h)
        | Inr ents \<Rightarrow> for_each (\<lambda>e. os_do os (Os_RemoveAll (path_join [dir, e]))) ents h))"

text \<open>The body of the loop over the entries; \<open>continue\<close> is \<open>ret ()\<close>.\<close>

definition apply_entry :: "'h os \<Rightarrow> string \<Rightarrow> tar_header \<Rightarrow> string result \<Rightarrow> (unit, 'h) act" where
  "apply_entry os rootfs hdr content =
     (let name = path_clean (trim_prefix (th_Name hdr) ''/'') in
      if name = ''.'' then ret ()
      else bnd (wrap_err (''invalid path '' @ th_Name hdr @ '': '') (lift_res (joinRoot rootfs name))) (\<lambda>dstPath.
        let base = path_base name; dir = path_dir name in
        if base = ''.wh..wh..opq'' then
          bnd (lift_res (joinRoot rootfs dir)) (\<lambda>opaqueDir.
            wrap_err (''opaque dir cleanup '' @ opaqueDir @ '': '') (removeAllChildren os opaqueDir))
        else if has_prefix base ''.wh.'' then
          bnd (lift_res (joinRoot rootfs (path_join [dir, drop 4 base]))) (\<lambda>targetAbs.
            ignore (os_do os (Os_RemoveAll targetAbs)))
        else (case th_Typeflag hdr of
            TypeDir \<Rightarrow>
              seq (os_do os (Os_MkdirAll dstPath (th_Mode hdr)))
             (seq (ignore (os_do os (Os_Chtimes dstPath))) (ignore (applyOwner os dstPath hdr False)))
          | TypeReg \<Rightarrow>
              seq (os_do os (Os_MkdirAll (path_dir dstPath) mode755))
             (seq (writeFileFromTar os dstPath content (th_Mode hdr))
             (seq (ignore (os_do os (Os_Chtimes dstPath))) (ignore (applyOwner os dstPath hdr False))))
          | TypeRegA \<Rightarrow>
              seq (os_do os (Os_MkdirAll (path_dir dstPath) mode755))
             (seq (writeFileFromTar os dstPath content (th_Mode hdr))
             (seq (ignore (os_do os (Os_Chtimes dstPath))) (ignore (applyOwner os dstPath hdr False))))
          | TypeSymlink \<Rightarrow>
              seq (os_do os (Os_MkdirAll (path_dir dstPath) mode755))
             (seq (ignore (os_do os (Os_RemoveAll dstPath)))
             (seq (os_do os (Os_Symlink (th_Linkname hdr) dstPath)) (ignore (applyOwner os dstPath hdr True))))
          | TypeLink \<Rightarrow>
              seq (os_do os (Os_MkdirAll (path_dir dstPath) mode755))
             (bnd (lift_res (joinRoot rootfs (path_clean (trim_prefix (th_Linkname hdr) ''/'')))) (\<lambda>targetAbs.
              seq (ignore (os_do os (Os_RemoveAll dstPath)))
             (seq (wrap_err (''hardlink '' @ dstPath @ '' -> '' @ targetAbs @ '': '') (os_do os (Os_Link targetAbs dstPath)))
                  (ignore (applyOwner os dstPath hdr False)))))
          | TypeOther \<Rightarrow> fail (Err (''unsupported tar typeflag for '' @ th_Name hdr))
          | _ \<Rightarrow> if has_prefix name ''dev/'' then ret ()
                else fail (Err (''special file not supported: typefalg for '' @ th_Name hdr)))))"

fun apply_items :: "'h os \<Rightarrow> string \<Rightarrow> tar_item list \<Rightarrow> (unit, 'h) act" where
  "apply_items os rootfs [] = ret ()"
| "apply_items os rootfs (Tar_error e # is) = fail (Err (''tar read: '' @ err_text e))"
| "apply_items os rootfs (Tar_nil # is) = apply_items os rootfs is"
| "apply_items os rootfs (Tar_entry hdr content # is) =
     seq (apply_entry os rootfs hdr content) (apply_items os rootfs is)"

definition applyOneLayer :: "'h os \<Rightarrow> string \<Rightarrow> string \<Rightarrow> (unit, 'h) act" where
  "applyOneLayer os rootfs layerBlobPath h =
     (case os_tar os layerBlobPath h of Inl e \<Rightarrow> (Inl e, h) | Inr items \<Rightarrow> apply_items os rootfs items h)"

fun apply_layers :: "'h os \<Rightarrow> string \<Rightarrow> nat \<Rightarrow> string list \<Rightarrow> (unit, 'h) act" where
  "apply_layers os rootfs i [] = ret ()"
| "apply_layers os rootfs i (p # ps) =
     seq (wrap_err (''apply layer '' @ dec i @ '' ('' @ p @ ''): '') (applyOneLayer os rootfs p)) (apply_layers os rootfs (i + 1) ps)"

definition applyLayers :: "'h os \<Rightarrow> string \<Rightarrow> string list \<Rightarrow> (unit, 'h) act" where
  "applyLayers os rootfs layerBlobPaths = apply_layers os rootfs 0 layerBlobPaths"

subsection \<open>Where an archive can write\<close>

text \<open>An absolute path from its elements, and the paths at or below one.\<close>

definition abs_path :: "string list \<Rightarrow> string" where
  "abs_path es = CHR ''/'' # str_join ''/'' es"

definition below :: "string list \<Rightarrow> string \<Rightarrow> bool" where
  "below rs p \<longleftrightarrow> (\<exists>es. (\<forall>e \<in> set es. plain_elem e) \<and> p = abs_path (rs @ es))"

fun call_paths :: "os_call \<Rightarrow> string list" where
  "call_paths (Os_MkdirAll p m) = [p]"
| "call_paths (Os_RemoveAll p) = [p]"
| "call_paths (Os_Remove p) = [p]"
| "call_paths (Os_Create p m) = [p]"
| "call_paths (Os_Copy p c) = [p]"
| "call_paths (Os_Close p) = [p]"
| "call_paths (Os_Rename p q) = [p, q]"
| "call_paths (Os_Symlink t p) = [p]"
| "call_paths (Os_Link p q) = [p, q]"
| "call_paths (Os_Chtimes p) = [p]"
| "call_paths (Os_Chown p u g) = [p]"
| "call_paths (Os_Lchown p u g) = [p]"
| "call_paths (Os_WriteFile p c m) = [p]"
| "call_paths (Os_Chmod p m) = [p]"

lemma split_abs_path:
  "\<forall>e \<in> set es. plain_elem e \<Longrightarrow> split_on (CHR ''/'') (abs_path es) = [] # (if es = [] then [[]] else es)"
  by (auto simp: abs_path_def split_on_join plain_elem_def)

lemma path_clean_abs: "path_clean (CHR ''/'' # t) = abs_path (clean_elems True (split_on (CHR ''/'') t) [])"
  by (simp add: path_clean_def abs_path_def has_prefix_def Let_def)

lemma path_clean_below:
  assumes "\<forall>e \<in> set rs. plain_elem e" "\<forall>e \<in> set es. plain_elem e" "rs \<noteq> []"
    "split_on (CHR ''/'') t = es \<or> split_on (CHR ''/'') t = [] # es \<or> es = [] \<and> split_on (CHR ''/'') t = [[], []]"
  shows "path_clean (abs_path rs @ CHR ''/'' # t) = abs_path (rs @ es)"
proof -
  have "split_on (CHR ''/'') (str_join ''/'' rs @ CHR ''/'' # t) = rs @ split_on (CHR ''/'') t"
    using assms(1,3) by (simp add: split_on_append_sep split_on_join plain_elem_def)
  moreover have "clean_elems True (rs @ split_on (CHR ''/'') t) [] = rs @ es"
    using assms(4)
  proof (elim disjE conjE)
    assume "split_on (CHR ''/'') t = es"
    then show ?thesis using clean_elems_plain [of "rs @ es" True "[]"] assms(1,2) by auto
  next
    assume "split_on (CHR ''/'') t = [] # es"
    then show ?thesis using clean_elems_append [OF assms(1), of True "[] # es" "[]"] clean_elems_plain [OF assms(2), of True "rev rs"] by simp
  next
    assume "es = []" "split_on (CHR ''/'') t = [[], []]"
    then show ?thesis using clean_elems_append [OF assms(1), of True "[[], []]" "[]"] by simp
  qed
  ultimately show ?thesis using path_clean_abs [of "str_join ''/'' rs @ CHR ''/'' # t"] by (simp add: abs_path_def)
qed

text \<open>What a cleaned text looks like.\<close>

lemma path_clean_cases:
  obtains (rooted) es where "\<forall>e \<in> set es. plain_elem e" "path_clean s = abs_path es"
  | (dot) "path_clean s = ''.''"
  | (up) es where "path_clean s = str_join ''/'' (''..'' # es)" "\<forall>e \<in> set es. CHR ''/'' \<notin> set e"
  | (rel) es where "es \<noteq> []" "\<forall>e \<in> set es. plain_elem e" "path_clean s = str_join ''/'' es"
proof (cases "has_prefix s ''/''")
  case True
  then obtain t where s: "s = CHR ''/'' # t" by (cases s) (auto simp: has_prefix_def)
  have "\<forall>e \<in> set (clean_elems True (split_on (CHR ''/'') t) []). plain_elem e"
    using clean_elems_rooted [of "split_on (CHR ''/'') t" "[]"] by (auto dest: split_on_elems)
  then show ?thesis using rooted path_clean_abs [of t] s by blast
next
  case False
  let ?es = "clean_elems False (split_on (CHR ''/'') s) []"
  have c: "path_clean s = (if ?es = [] then ''.'' else str_join ''/'' ?es)" using False by (simp add: path_clean_def Let_def)
  have "up_then_plain (rev [])" by (simp add: up_then_plain_def)
  then have "up_then_plain ?es" by (intro clean_elems_rel) (auto dest: split_on_elems)
  then obtain k ps where e: "?es = replicate k ''..'' @ ps" "\<forall>p \<in> set ps. plain_elem p" by (auto simp: up_then_plain_def)
  show ?thesis
  proof (cases k)
    case 0
    then show ?thesis using dot rel [of ps] e c by (cases "ps = []") auto
  next
    case (Suc j)
    have "CHR ''/'' \<notin> set x" if "x \<in> set (replicate j ''..'' @ ps)" for x
    proof (cases "x \<in> set ps")
      case True
      then show ?thesis using e(2) unfolding plain_elem_def by blast
    next
      case False
      then have "x = ''..''" using that by simp
      then show ?thesis by simp
    qed
    then show ?thesis using up [of "replicate j ''..'' @ ps"] Suc e c by simp
  qed
qed

lemma clean_elems_up: "\<exists>fs. clean_elems False es (acc @ [''..'']) = ''..'' # fs"
proof (induction es arbitrary: acc)
  case (Cons e es)
  consider "e = [] \<or> e = ''.''" | (up) "e = ''..''" | (plain) "e \<noteq> []" "e \<noteq> ''.''" "e \<noteq> ''..''" by blast
  then show ?case
  proof cases
    case 1
    then show ?thesis using Cons.IH [of acc] by simp
  next
    case plain
    then show ?thesis using Cons.IH [of "e # acc"] by simp
  next
    case up
    show ?thesis
    proof (cases acc)
      case Nil
      then show ?thesis using up Cons.IH [of "[''..'']"] by simp
    next
      case (Cons a as)
      then show ?thesis using up Cons.IH [of as] Cons.IH [of "''..'' # acc"] by (cases "a = ''..''") simp_all
    qed
  qed
qed simp

lemma join_up: "str_join ''/'' (''..'' # es) = ''..'' \<or> has_prefix (str_join ''/'' (''..'' # es)) ''../''"
  by (cases es) (simp_all add: has_prefix_def)

lemma joinRoot_below:
  assumes rs: "\<forall>e \<in> set rs. plain_elem e" "rs \<noteq> []" and r: "joinRoot (abs_path rs) rel = Inr p"
  shows "below rs p"
proof (cases rule: path_clean_cases [of "trim_prefix rel ''/''"])
  case (rooted es)
  have "split_on (CHR ''/'') (abs_path es) = [] # es \<or> es = [] \<and> split_on (CHR ''/'') (abs_path es) = [[], []]"
    using rooted(1) by (simp add: split_abs_path)
  then have "path_clean (abs_path rs @ CHR ''/'' # abs_path es) = abs_path (rs @ es)"
    by (intro path_clean_below [OF rs(1) rooted(1) rs(2)]) auto
  moreover have "p = path_clean (abs_path rs @ CHR ''/'' # abs_path es)"
    using r rooted by (auto simp: joinRoot_def Let_def path_join_def abs_path_def has_prefix_def split: if_splits)
  ultimately show ?thesis using rooted(1) by (auto simp: below_def)
next
  case dot
  then show ?thesis using r by (auto simp: joinRoot_def below_def intro!: exI [of _ "[]"])
next
  case (up es)
  then show ?thesis using r join_up [of es] by (auto simp: joinRoot_def Let_def has_prefix_def split: if_splits)
next
  case (rel es)
  have "split_on (CHR ''/'') (str_join ''/'' es) = es" using rel by (intro split_on_join) (auto simp: plain_elem_def)
  then have "path_clean (abs_path rs @ CHR ''/'' # str_join ''/'' es) = abs_path (rs @ es)"
    by (intro path_clean_below [OF rs(1) rel(2) rs(2)]) simp
  moreover have "str_join ''/'' es \<noteq> []" using rel by (cases es rule: remdups_adj.cases) (auto simp: plain_elem_def)
  then have "p = abs_path rs \<or> p = path_clean (abs_path rs @ CHR ''/'' # str_join ''/'' es)"
    using r rel by (auto simp: joinRoot_def Let_def path_join_def abs_path_def split: if_splits)
  ultimately show ?thesis using rel(2) by (auto simp: below_def intro: exI [of _ "[]"])
qed

text \<open>A cleaned name other than \<open>.\<close> and \<open>/\<close> names something strictly below the root.\<close>

lemma join_no_slash: "es \<noteq> [] \<Longrightarrow> \<forall>e \<in> set es. plain_elem e \<Longrightarrow> \<exists>c t. str_join ''/'' es = c # t \<and> c \<noteq> CHR ''/''"
  by (cases es rule: remdups_adj.cases) (auto simp: plain_elem_def neq_Nil_conv)

lemma split_join_plain: "es \<noteq> [] \<Longrightarrow> \<forall>e \<in> set es. plain_elem e \<Longrightarrow> split_on (CHR ''/'') (str_join ''/'' es) = es"
  by (intro split_on_join) (auto simp: plain_elem_def)

lemma path_clean_rel:
  assumes "es \<noteq> []" "\<forall>e \<in> set es. plain_elem e"
  shows "path_clean (str_join ''/'' es) = str_join ''/'' es"
proof -
  have "\<not> has_prefix (str_join ''/'' es) ''/''" using join_no_slash [OF assms] by (auto simp: has_prefix_def)
  then show ?thesis using split_join_plain [OF assms] clean_elems_plain [OF assms(2), of False "[]"] assms(1)
    by (simp add: path_clean_def Let_def)
qed

lemma join_plain_not_up:
  assumes "es \<noteq> []" "\<forall>e \<in> set es. plain_elem e"
  shows "str_join ''/'' es \<notin> {''.'', ''..''} \<and> \<not> has_prefix (str_join ''/'' es) ''../''"
proof -
  note s = split_join_plain [OF assms]
  have "split_on (CHR ''/'') ''.'' = [''.'']" "split_on (CHR ''/'') ''..'' = [''..'']" by simp_all
  then have "es = [t]" if "str_join ''/'' es = t" "t = ''.'' \<or> t = ''..''" for t using s [unfolded that(1)] that(2) by auto
  then have "str_join ''/'' es \<noteq> t" if "t = ''.'' \<or> t = ''..''" for t
    using assms(2) that by (metis list.set_intros(1) plain_elem_def)
  then have "str_join ''/'' es \<notin> {''.'', ''..''}" by blast
  moreover have "\<not> has_prefix (str_join ''/'' es) ''../''"
  proof
    assume "has_prefix (str_join ''/'' es) ''../''"
    then obtain t where "str_join ''/'' es = ''..'' @ CHR ''/'' # t" using has_prefixD by fastforce
    then have "es = ''..'' # split_on (CHR ''/'') t" using s split_on_append [of "CHR ''/''" "''..''" t] by simp
    with assms(2) show False by (simp add: plain_elem_def)
  qed
  ultimately show ?thesis by blast
qed

lemma joinRoot_rel:
  assumes rs: "\<forall>e \<in> set rs. plain_elem e" "rs \<noteq> []" and es: "es \<noteq> []" "\<forall>e \<in> set es. plain_elem e"
  shows "joinRoot (abs_path rs) (str_join ''/'' es) = Inr (abs_path (rs @ es))"
    and "joinRoot (abs_path rs) (abs_path es) = Inr (abs_path (rs @ es))"
proof -
  obtain c t where j: "str_join ''/'' es = c # t" "c \<noteq> CHR ''/''" using join_no_slash [OF es] by blast
  have "path_clean (abs_path rs @ CHR ''/'' # str_join ''/'' es) = abs_path (rs @ es)"
    using split_join_plain [OF es] by (intro path_clean_below [OF rs(1) es(2) rs(2)]) simp
  then have pj: "path_join [abs_path rs, str_join ''/'' es] = abs_path (rs @ es)" using j by (simp add: path_join_def abs_path_def)
  have tr: "trim_prefix (str_join ''/'' es) ''/'' = str_join ''/'' es" using j by (simp add: trim_prefix_def has_prefix_def)
  have ta: "trim_prefix (abs_path es) ''/'' = str_join ''/'' es" by (simp add: trim_prefix_def has_prefix_def abs_path_def)
  show "joinRoot (abs_path rs) (str_join ''/'' es) = Inr (abs_path (rs @ es))"
    "joinRoot (abs_path rs) (abs_path es) = Inr (abs_path (rs @ es))"
    using join_plain_not_up [OF es] pj by (simp_all add: joinRoot_def tr ta path_clean_rel [OF es])
qed

lemma joinRoot_strict:
  assumes rs: "\<forall>e \<in> set rs. plain_elem e" "rs \<noteq> []"
    and n: "path_clean s \<noteq> ''.''" "path_clean s \<noteq> ''/''" and r: "joinRoot (abs_path rs) (path_clean s) = Inr p"
  obtains es where "es \<noteq> []" "\<forall>e \<in> set es. plain_elem e" "p = abs_path (rs @ es)"
proof (cases rule: path_clean_cases [of s])
  case (rooted es)
  then have "es \<noteq> []" using n by (auto simp: abs_path_def)
  with that rooted r joinRoot_rel [OF rs this rooted(1)] show ?thesis by auto
next
  case (up es)
  have np: "\<not> has_prefix (path_clean s) ''/''" unfolding up(1) by (cases es) (simp_all add: has_prefix_def)
  have "split_on (CHR ''/'') (path_clean s) = ''..'' # es" unfolding up(1) using up(2) by (intro split_on_join) auto
  moreover obtain fs where "clean_elems False (''..'' # es) [] = ''..'' # fs" using clean_elems_up [of es "[]"] by auto
  ultimately have "path_clean (trim_prefix (path_clean s) ''/'') = str_join ''/'' (''..'' # fs)"
    using np by (simp add: trim_prefix_def path_clean_def [of "path_clean s"])
  then show ?thesis using r join_up [of fs] by (auto simp: joinRoot_def Let_def has_prefix_def split: if_splits)
next
  case (rel es)
  with that r joinRoot_rel [OF rs rel(1,2)] show ?thesis by auto
qed (use n in simp)

lemma str_join_snoc: "xs \<noteq> [] \<Longrightarrow> str_join sep (xs @ [e]) = str_join sep xs @ sep @ e"
proof (induction xs)
  case (Cons x xs)
  then show ?case by (cases xs) auto
qed simp

lemma abs_path_snoc: "xs \<noteq> [] \<Longrightarrow> abs_path (xs @ [e]) = abs_path xs @ CHR ''/'' # e"
  by (simp add: abs_path_def str_join_snoc)

lemma path_dir_abs:
  assumes "xs \<noteq> []" "\<forall>x \<in> set xs. plain_elem x" "plain_elem e"
  shows "path_dir (abs_path (xs @ [e])) = abs_path xs"
proof -
  have "\<forall>c \<in> set (rev e). c \<noteq> CHR ''/''" using assms(3) by (auto simp: plain_elem_def)
  then have "dropWhile (\<lambda>c. c \<noteq> CHR ''/'') (rev (abs_path (xs @ [e]))) = CHR ''/'' # rev (abs_path xs)"
    using abs_path_snoc [OF assms(1)] by (simp add: dropWhile_append3)
  then have "path_dir (abs_path (xs @ [e])) = path_clean (abs_path xs @ CHR ''/'' # [])" by (simp add: path_dir_def)
  also have "\<dots> = abs_path (xs @ [])" by (rule path_clean_below [OF assms(2) _ assms(1)]) simp_all
  finally show ?thesis by simp
qed

text \<open>The paths an entry's destination gives rise to.\<close>

lemma below_strict:
  assumes rs: "\<forall>e \<in> set rs. plain_elem e" "rs \<noteq> []" and es: "es \<noteq> []" "\<forall>e \<in> set es. plain_elem e" and p: "p = abs_path (rs @ es)"
  shows "below rs p" "below rs (path_dir p)" "below rs (p @ ''.tmp'')"
proof -
  let ?b = "butlast es" and ?l = "last es"
  have e: "es = ?b @ [?l]" "plain_elem ?l" "\<forall>e \<in> set ?b. plain_elem e" using es by (auto dest: in_set_butlastD)
  have p': "p = abs_path ((rs @ ?b) @ [?l])" using p e(1) by simp
  show "below rs p" using p es by (auto simp: below_def)
  have "path_dir p = abs_path (rs @ ?b)" unfolding p' using rs e by (intro path_dir_abs) auto
  then show "below rs (path_dir p)" using e(3) by (auto simp: below_def)
  have "p @ ''.tmp'' = abs_path ((rs @ ?b) @ [?l @ ''.tmp''])"     unfolding p' using abs_path_snoc [of "rs @ ?b" ?l] abs_path_snoc [of "rs @ ?b" "?l @ ''.tmp''"] rs(2) by simp
  moreover have "plain_elem (?l @ ''.tmp'')" using e(2) by (auto simp: plain_elem_def)
  ultimately show "below rs (p @ ''.tmp'')" using e(3)
    unfolding below_def by (intro exI [of _ "?b @ [?l @ ''.tmp'']"]) auto
qed

lemma below_child:
  assumes rs: "\<forall>e \<in> set rs. plain_elem e" "rs \<noteq> []" and d: "below rs dir" and e: "plain_elem e"
  shows "below rs (path_join [dir, e])"
proof -
  obtain es where es: "\<forall>e \<in> set es. plain_elem e" "dir = abs_path (rs @ es)" using d by (auto simp: below_def)
  have "path_clean (abs_path (rs @ es) @ CHR ''/'' # e) = abs_path ((rs @ es) @ [e])"
    using rs es(1) e by (intro path_clean_below) (auto simp: plain_elem_def)
  then have "path_join [dir, e] = abs_path (rs @ es @ [e])"
    using e es(2) by (simp add: path_join_def plain_elem_def abs_path_def)
  then show ?thesis using es(1) e unfolding below_def by (intro exI [of _ "es @ [e]"]) auto
qed

lemma stable_ignore [stable_intros]: "stable P m \<Longrightarrow> stable P (ignore m)"
  unfolding ignore_def by (intro stable_intros)

lemma stable_wrap [stable_intros]: "stable P m \<Longrightarrow> stable P (wrap_err t m)"
  by (fastforce simp: stable_def wrap_err_def split: prod.splits sum.splits error.splits)

lemma stable_lift_bnd: "(\<And>x. r = Inr x \<Longrightarrow> stable P (k x)) \<Longrightarrow> stable P (bnd (lift_res r) k)"
  by (cases r) (auto simp: stable_def bnd_def)

lemma stable_lift_wrap: "(\<And>x. r = Inr x \<Longrightarrow> stable P (k x)) \<Longrightarrow> stable P (bnd (wrap_err t (lift_res r)) k)"
  by (cases r) (auto simp: stable_def bnd_def wrap_err_def split: error.splits)

text \<open>
  A condition on the host that calls with paths at or below a root keep.
\<close>

definition confines :: "'h os \<Rightarrow> string list \<Rightarrow> ('h \<Rightarrow> bool) \<Rightarrow> bool" where
  "confines os rs P \<longleftrightarrow> (\<forall>e \<in> set rs. plain_elem e) \<and> rs \<noteq> [] \<and>
     (\<forall>dir h ents. os_readdir os dir h = Inr ents \<longrightarrow> (\<forall>e \<in> set ents. plain_elem e)) \<and>
     (\<forall>c. (\<forall>p \<in> set (call_paths c). below rs p) \<longrightarrow> stable P (os_do os c))"

lemma confinesD:
  assumes "confines os rs P"
  shows "\<forall>e \<in> set rs. plain_elem e" "rs \<noteq> []" "os_readdir os dir h = Inr ents \<Longrightarrow> e \<in> set ents \<Longrightarrow> plain_elem e"
    "(\<And>p. p \<in> set (call_paths c) \<Longrightarrow> below rs p) \<Longrightarrow> stable P (os_do os c)"
  using assms by (auto simp: confines_def)

lemma keeps_owner: "confines os rs P \<Longrightarrow> below rs p \<Longrightarrow> stable P (applyOwner os p hdr lnk)"
  unfolding applyOwner_def by (intro stable_intros confinesD(4) [where rs = rs]) auto

lemma keeps_write:
  "confines os rs P \<Longrightarrow> below rs p \<Longrightarrow> below rs (p @ ''.tmp'') \<Longrightarrow> stable P (writeFileFromTar os p c m)"
  unfolding writeFileFromTar_def Let_def by (intro stable_intros confinesD(4) [where rs = rs]) auto

lemma stable_for_each_mem: "(\<And>x. x \<in> set xs \<Longrightarrow> stable P (f x)) \<Longrightarrow> stable P (for_each f xs)"
  by (induction xs) (fastforce simp: stable_def split: prod.splits sum.splits)+

lemma keeps_children:
  assumes c: "confines os rs P" and d: "below rs dir"
  shows "stable P (removeAllChildren os dir)"
proof -
  have "stable P (os_do os (Os_MkdirAll dir mode755))" using c d by (intro confinesD(4) [where rs = rs]) auto
  moreover have "stable P (for_each (\<lambda>e. os_do os (Os_RemoveAll (path_join [dir, e]))) ents)"
    if "\<And>e. e \<in> set ents \<Longrightarrow> plain_elem e" for ents
    using c d that below_child [OF confinesD(1,2) [OF c]]
    by (intro stable_for_each_mem confinesD(4) [where rs = rs]) auto
  ultimately show ?thesis
    using confinesD(3) [OF c] by (fastforce simp: stable_def removeAllChildren_def split: stat_info.splits sum.splits)
qed

lemma keeps_entry:
  assumes c: "confines os rs P" and n: "path_clean (trim_prefix (th_Name hdr) ''/'') \<noteq> ''/''"
  shows "stable P (apply_entry os (abs_path rs) hdr content)"
proof -
  let ?n = "path_clean (trim_prefix (th_Name hdr) ''/'')"
  note root = confinesD(1,2) [OF c]
  have strict: "below rs p \<and> below rs (path_dir p) \<and> below rs (p @ ''.tmp'')" if "joinRoot (abs_path rs) ?n = Inr p" "?n \<noteq> ''.''" for p
    using joinRoot_strict [OF root that(2) n that(1)] below_strict [OF root] by metis
  note jr = joinRoot_below [OF root]
  note call = confinesD(4) [OF c]
  show ?thesis
    unfolding apply_entry_def Let_def
    by (intro stable_if stable_ret stable_lift_wrap)
      (auto dest!: strict dest: jr split: typeflag.splits
        intro!: stable_intros stable_lift_bnd keeps_children [OF c] keeps_owner [OF c] keeps_write [OF c] call)
qed

lemma keeps_items:
  assumes c: "confines os rs P"
    and "\<And>hdr c. Tar_entry hdr c \<in> set items \<Longrightarrow> path_clean (trim_prefix (th_Name hdr) ''/'') \<noteq> ''/''"
  shows "stable P (apply_items os (abs_path rs) items)"
  using assms(2)
proof (induction items)
  case Nil
  show ?case by (simp add: stable_def)
next
  case (Cons i items)
  have IH: "stable P (apply_items os (abs_path rs) items)" by (rule Cons.IH) (use Cons.prems in auto)
  show ?case
  proof (cases i)
    case (Tar_entry hdr content)
    then have "stable P (apply_entry os (abs_path rs) hdr content)" using Cons.prems by (intro keeps_entry [OF c]) auto
    then show ?thesis using IH Tar_entry by (simp add: stable_seq)
  qed (simp_all add: IH, simp add: stable_def)
qed

lemma layers_stable:
  assumes "confines os rs P"
    and "\<And>blob h items hdr c. os_tar os blob h = Inr items \<Longrightarrow> Tar_entry hdr c \<in> set items \<Longrightarrow>
      path_clean (trim_prefix (th_Name hdr) ''/'') \<noteq> ''/''"
  shows "stable P (applyLayers os (abs_path rs) blobs)"
proof -
  have one: "stable P (applyOneLayer os (abs_path rs) blob)" for blob
  proof -
    have "stable P (apply_items os (abs_path rs) items)" if "os_tar os blob h = Inr items" for h items
      using assms(2) [OF that] by (intro keeps_items [OF assms(1)])
    then show ?thesis by (auto simp: stable_def applyOneLayer_def split: sum.splits)
  qed
  have "stable P (apply_layers os (abs_path rs) i blobs)" for i
  proof (induction blobs arbitrary: i)
    case Nil
    show ?case by (simp add: stable_def)
  next
    case (Cons b blobs)
    then show ?case using one by (auto intro!: stable_seq stable_wrap)
  qed
  then show ?thesis by (simp add: applyLayers_def)
qed

text \<open>
  A host with a record of the calls it was given.  Nothing depends on the record, so every host can be
  given one; reading a directory gives names without slashes other than \<open>.\<close> and \<open>..\<close>, as \<open>os.ReadDir\<close> does.
\<close>

definition logs_calls :: "'h os \<Rightarrow> ('h \<Rightarrow> os_call list) \<Rightarrow> bool" where
  "logs_calls os log \<longleftrightarrow> (\<forall>c h. log (snd (os_do os c h)) = log h @ [c])"

definition plain_names :: "'h os \<Rightarrow> bool" where
  "plain_names os \<longleftrightarrow> (\<forall>dir h ents. os_readdir os dir h = Inr ents \<longrightarrow> list_all plain_elem ents)"

text \<open>The calls since the record was \<open>l\<close> satisfy \<open>A\<close>.\<close>

definition called_only :: "('h \<Rightarrow> os_call list) \<Rightarrow> os_call list \<Rightarrow> (os_call \<Rightarrow> bool) \<Rightarrow> 'h \<Rightarrow> bool" where
  "called_only log l A h \<longleftrightarrow> (\<exists>calls. log h = l @ calls \<and> list_all A calls)"

lemma called_only_start: "called_only log (log h) A h"
  by (simp add: called_only_def)

lemma called_only_call: "logs_calls os log \<Longrightarrow> A c \<Longrightarrow> stable (called_only log l A) (os_do os c)"
  by (auto simp: stable_def called_only_def logs_calls_def)

abbreviation paths_below :: "string list \<Rightarrow> os_call \<Rightarrow> bool" where
  "paths_below rs c \<equiv> list_all (below rs) (call_paths c)"

text \<open>C14: unpacking the layers of an image addresses nothing outside its root directory: whatever names,
  links and whiteouts the archives hold, every path that is handed to the operating system, in each call
  that creates, writes, renames or removes something, is the root or, by its text, below the root.  The
  archives may not hold an entry that names the root itself.  The text of a path is what the program
  decides on; where the operating system gets with it, when a link of the archive is on the way, is not
  part of the statement.\<close>

theorem layers_confined:
  assumes "logs_calls os log" "plain_names os" and rs: "\<forall>e \<in> set rs. plain_elem e" "rs \<noteq> []"
    and "\<And>blob h items hdr c. os_tar os blob h = Inr items \<Longrightarrow> Tar_entry hdr c \<in> set items \<Longrightarrow>
      path_clean (trim_prefix (th_Name hdr) ''/'') \<noteq> ''/''"
    and run: "applyLayers os (abs_path rs) blobs h = (r, h')"
  shows "\<exists>calls. log h' = log h @ calls \<and> list_all (paths_below rs) calls"
proof -
  have "confines os rs (called_only log (log h) (paths_below rs))"
    using assms(2) rs called_only_call [OF assms(1)] by (auto simp: confines_def plain_names_def list_all_iff)
  then have "stable (called_only log (log h) (paths_below rs)) (applyLayers os (abs_path rs) blobs)"
    using assms(5) by (rule layers_stable)
  from stableD [OF this run called_only_start] show ?thesis by (simp add: called_only_def)
qed

text \<open>A host that records the calls; the archive has a directory, a file, a whiteout and a file
  whose name climbs out of the root.\<close>

definition demo_header :: "string \<Rightarrow> typeflag \<Rightarrow> tar_header" where
  "demo_header n t = \<lparr>th_Name = n, th_Linkname = ''/'', th_Typeflag = t, th_Mode = 420, th_Uid = 0, th_Gid = 0\<rparr>"

definition trace_os :: "tar_item list \<Rightarrow> (os_call list) os" where
  "trace_os items = \<lparr>os_do = (\<lambda>c h. (Inr (), h @ [c])), os_stat = (\<lambda>p h. Stat_dir), os_readdir = (\<lambda>p h. Inr [''a'']),
     os_tar = (\<lambda>p h. Inr items), os_read = (\<lambda>p h. Inl (Err ''missing''))\<rparr>"

definition demo_items :: "tar_item list" where
  "demo_items = [Tar_entry (demo_header ''/etc/'' TypeDir) (Inr ''''), Tar_entry (demo_header ''etc/x/../hosts'' TypeReg) (Inr ''h''),
     Tar_entry (demo_header ''etc/.wh.old'' TypeReg) (Inr ''''), Tar_entry (demo_header ''../evil'' TypeReg) (Inr '''')]"

lemma demo_items_run:
  "applyLayers (trace_os demo_items) (abs_path [''r'']) [''b''] [] =
     (Inl (Err ''apply layer 0 (b): invalid path ../evil: path escapes root: ../evil''),
      [Os_MkdirAll ''/r/etc'' 420, Os_Chtimes ''/r/etc'', Os_Chown ''/r/etc'' 0 0,
       Os_MkdirAll ''/r/etc'' mode755, Os_Create ''/r/etc/hosts.tmp'' 420, Os_Copy ''/r/etc/hosts.tmp'' (Inr ''h''),
       Os_Close ''/r/etc/hosts.tmp'', Os_RemoveAll ''/r/etc/hosts'', Os_Rename ''/r/etc/hosts.tmp'' ''/r/etc/hosts'',
       Os_Chtimes ''/r/etc/hosts'', Os_Chown ''/r/etc/hosts'' 0 0,
       Os_RemoveAll ''/r/etc/old''])"
  by (simp add: applyLayers_def applyOneLayer_def trace_os_def demo_items_def demo_header_def apply_entry_def joinRoot_def
      trim_prefix_def has_prefix_def path_clean_def path_join_def path_base_def path_dir_def Let_def wrap_err_def ignore_def
      writeFileFromTar_def applyOwner_def abs_path_def dec_eval)

theorem layers_confined_witness:
  "list_all (paths_below [''r'']) (snd (applyLayers (trace_os demo_items) (abs_path [''r'']) [''b''] []))"
proof -
  obtain r h' where run: "applyLayers (trace_os demo_items) (abs_path [''r'']) [''b''] [] = (r, h')" by fastforce
  have "logs_calls (trace_os demo_items) (\<lambda>h. h)" "plain_names (trace_os demo_items)"
    by (simp_all add: logs_calls_def plain_names_def trace_os_def plain_elem_def)
  moreover have "path_clean (trim_prefix (th_Name hdr) ''/'') \<noteq> ''/''"
    if "os_tar (trace_os demo_items) blob h = Inr items" "Tar_entry hdr c \<in> set items" for blob h items hdr c
    using that by (auto simp: trace_os_def demo_items_def demo_header_def trim_prefix_def has_prefix_def path_clean_def Let_def)
  ultimately show ?thesis
    using layers_confined [of "trace_os demo_items" "\<lambda>h. h" "[''r'']" "[''b'']" "[]" r h'] run by (simp add: plain_elem_def)
qed

text \<open>A symbolic link of the archive may lead anywhere, and the entries after it are written through it:
  \<open>a\<close> leads to \<open>/etc\<close>, and the file \<open>a/x\<close> is created, renamed and given an owner at a path below the root
  that the operating system takes to \<open>/etc/x\<close>.\<close>

lemma link_is_followed:
  "applyLayers (trace_os [Tar_entry ((demo_header ''a'' TypeSymlink)\<lparr>th_Linkname := ''/etc''\<rparr>) (Inr ''''),
       Tar_entry (demo_header ''a/x'' TypeReg) (Inr ''h'')]) ''/r'' [''b''] [] =
     (Inr (), [Os_MkdirAll ''/r'' mode755, Os_RemoveAll ''/r/a'', Os_Symlink ''/etc'' ''/r/a'', Os_Lchown ''/r/a'' 0 0,
       Os_MkdirAll ''/r/a'' mode755, Os_Create ''/r/a/x.tmp'' 420, Os_Copy ''/r/a/x.tmp'' (Inr ''h''), Os_Close ''/r/a/x.tmp'',
       Os_RemoveAll ''/r/a/x'', Os_Rename ''/r/a/x.tmp'' ''/r/a/x'', Os_Chtimes ''/r/a/x'', Os_Chown ''/r/a/x'' 0 0])"
  by (simp add: applyLayers_def applyOneLayer_def trace_os_def demo_header_def apply_entry_def joinRoot_def
      trim_prefix_def has_prefix_def path_clean_def path_join_def path_base_def path_dir_def Let_def wrap_err_def ignore_def
      writeFileFromTar_def applyOwner_def)

text \<open>An entry that names the root replaces the root: a symbolic link named \<open>//\<close> turns the root
  directory into a link to any directory of the host, which the entries after it are written to.\<close>

lemma root_entry_replaces_root:
  "applyLayers (trace_os [Tar_entry (demo_header ''//'' TypeSymlink) (Inr '''')]) ''/i/rootfs'' [''b''] [] =
     (Inr (), [Os_MkdirAll ''/i'' mode755, Os_RemoveAll ''/i/rootfs'', Os_Symlink ''/'' ''/i/rootfs'', Os_Lchown ''/i/rootfs'' 0 0])"
  by (simp add: applyLayers_def applyOneLayer_def trace_os_def demo_header_def apply_entry_def joinRoot_def
      trim_prefix_def has_prefix_def path_clean_def path_join_def path_base_def path_dir_def Let_def wrap_err_def ignore_def
      applyOwner_def)

end
