(* ===== verification/Image_Names.thy ===== *)
theory Image_Names
  imports Go_Text
begin

text \<open>
  How image names are read.  Three parts of the program parse the same text: the container service
  (\<open>src/internal/core/container/service_create.go\<close>) and the image service
  (\<open>src/internal/core/image/service.go\<close>) look an image up under the result, the registry client
  (\<open>src/internal/registry/dockerhub/handler.go\<close>) stores a pulled image under its own result.
\<close>

subsection \<open>The container service and the image service\<close>

definition isRegistryHost :: "string \<Rightarrow> bool" where
  "isRegistryHost host = (host = ''localhost'' \<or> str_contains host ''.'' \<or> str_contains host '':'')"

definition normalizeRegistry :: "string \<Rightarrow> string" where
  "normalizeRegistry reg = (if reg = ''docker.io'' \<or> reg = ''index.docker.io'' then ''registry-1.docker.io'' else reg)"

definition parseImageRef :: "string \<Rightarrow> (string \<times> string) result" where
  "parseImageRef imageStr =
     (let (repo, ref) =
        (if str_contains imageStr ''@''
         then (let parts = split_n2 (CHR ''@'') imageStr in (parts ! 0, parts ! 1))
         else (let parts = split_n2 (CHR '':'') imageStr in
               (parts ! 0, if length parts = 2 \<and> parts ! 1 \<noteq> [] then parts ! 1 else ''latest''))) in
      if repo = [] then Inl (Err ''empty repository'')
      else
        let first = split_n2 (CHR ''/'') repo ! 0;
            host = (str_contains repo ''/'' \<and> isRegistryHost first);
            registry = (if host then normalizeRegistry first else '''');
            repo1 = (if host then split_n2 (CHR ''/'') repo ! 1 else repo) in
        Inr (if registry = [] \<or> registry = ''registry-1.docker.io''
             then (if str_contains repo1 ''/'' then repo1 else ''library/'' @ repo1)
             else registry @ ''/'' @ repo1, ref))"

text \<open>The image service has its own copies of the three functions.\<close>

definition image_isRegistryHost :: "string \<Rightarrow> bool" where
  "image_isRegistryHost host = (if host = ''localhost'' then True else str_contains host ''.'' \<or> str_contains host '':'')"

definition image_normalizeRegistry :: "string \<Rightarrow> string" where
  "image_normalizeRegistry reg = (if reg \<in> {''docker.io'', ''index.docker.io''} then ''registry-1.docker.io'' else reg)"

definition image_parseImageRef :: "string \<Rightarrow> (string \<times> string) result" where
  "image_parseImageRef imageStr =
     (let (repo, ref) =
        (if str_contains imageStr ''@''
         then (let parts = split_n2 (CHR ''@'') imageStr in (parts ! 0, parts ! 1))
         else (let parts = split_n2 (CHR '':'') imageStr in
               (parts ! 0, if length parts = 2 \<and> parts ! 1 \<noteq> [] then parts ! 1 else ''latest''))) in
      if repo = [] then Inl (Err ''empty repository'')
      else
        let (registry, repo) =
          (if str_contains repo ''/''
           then (let first = split_n2 (CHR ''/'') repo ! 0 in
                 if image_isRegistryHost first then (image_normalizeRegistry first, split_n2 (CHR ''/'') repo ! 1) else ('''', repo))
           else ('''', repo)) in
        if registry = [] \<or> registry = ''registry-1.docker.io''
        then Inr (if \<not> str_contains repo ''/'' then ''library/'' @ repo else repo, ref)
        else Inr (registry @ ''/'' @ repo, ref))"

subsection \<open>The registry client\<close>

definition hub_isRegistryHost :: "string \<Rightarrow> bool" where
  "hub_isRegistryHost host = (if host = ''localhost'' then True else str_contains host ''.'' \<or> str_contains host '':'')"

definition hub_normalizeRegistry :: "string \<Rightarrow> string" where
  "hub_normalizeRegistry reg = (if reg \<in> {''docker.io'', ''index.docker.io''} then ''registry-1.docker.io'' else reg)"

record imageRefParts =
  ref_registry :: string
  ref_repository :: string
  ref_reference :: string

text \<open>\<open>strings.LastIndex(s, c)\<close>, -1 when there is none.\<close>

fun last_index :: "char \<Rightarrow> string \<Rightarrow> int" where
  "last_index c [] = -1"
| "last_index c (x # xs) = (let i = last_index c xs in if i \<ge> 0 then i + 1 else if x = c then 0 else -1)"

definition hub_parseImageRef :: "string \<Rightarrow> imageRefParts result" where
  "hub_parseImageRef imageStr =
     (let (name, ref) =
        (if str_contains imageStr ''@''
         then (let parts = split_n2 (CHR ''@'') imageStr in (parts ! 0, parts ! 1))
         else (let lastColon = last_index (CHR '':'') imageStr; lastSlash = last_index (CHR ''/'') imageStr in
               if lastColon > lastSlash then (take (nat lastColon) imageStr, drop (nat lastColon + 1) imageStr)
               else (imageStr, ''latest''))) in
      if name = [] then Inl (Err ''empty repository'')
      else
        let parts = split_on (CHR ''/'') name in
        Inr (if length parts > 1 \<and> hub_isRegistryHost (parts ! 0)
             then \<lparr>ref_registry = hub_normalizeRegistry (parts ! 0), ref_repository = str_join ''/'' (drop 1 parts), ref_reference = ref\<rparr>
             else \<lparr>ref_registry = ''registry-1.docker.io'',
                   ref_repository = (if length parts = 1 then ''library/'' @ name else name), ref_reference = ref\<rparr>))"

definition storeRepository :: "imageRefParts \<Rightarrow> string" where
  "storeRepository ref =
     (if ref_registry ref = ''registry-1.docker.io'' then ref_repository ref
      else ref_registry ref @ ''/'' @ ref_repository ref)"

subsection \<open>The parsers find the same name\<close>

lemma same_hosts [simp]:
  "image_isRegistryHost = isRegistryHost" "image_normalizeRegistry = normalizeRegistry"
  "hub_isRegistryHost = isRegistryHost" "hub_normalizeRegistry = normalizeRegistry"
  by (auto simp: fun_eq_iff image_isRegistryHost_def image_normalizeRegistry_def hub_isRegistryHost_def hub_normalizeRegistry_def
      isRegistryHost_def normalizeRegistry_def)

lemma image_parser_same: "image_parseImageRef img = parseImageRef img"
  by (simp add: image_parseImageRef_def parseImageRef_def Let_def split: prod.split)

text \<open>At most one colon, in the last element of the name and not at its end.\<close>

definition tag_last :: "string \<Rightarrow> bool" where
  "tag_last img =
     (case str_cut (CHR '':'') img of
        None \<Rightarrow> True
      | Some (_, tag) \<Rightarrow> tag \<noteq> [] \<and> CHR '':'' \<notin> set tag \<and> CHR ''/'' \<notin> set tag)"

text \<open>The name without tag and digest, and names such as \<open>docker.io/ubuntu\<close>: the default registry
  with a repository that has no slash.\<close>

definition bare_name :: "string \<Rightarrow> string" where
  "bare_name img = takeWhile (\<lambda>c. c \<noteq> (if CHR ''@'' \<in> set img then CHR ''@'' else CHR '':'')) img"

definition hub_short :: "string \<Rightarrow> bool" where
  "hub_short name =
     (case str_cut (CHR ''/'') name of
        None \<Rightarrow> False
      | Some (host, repo) \<Rightarrow> normalizeRegistry host = ''registry-1.docker.io'' \<and> CHR ''/'' \<notin> set repo)"

lemma str_contains_char [simp]: "str_contains s [c] \<longleftrightarrow> c \<in> set s"
  by (induction s) (auto simp: has_prefix_def)

lemma last_index_none: "c \<notin> set s \<Longrightarrow> last_index c s = -1"
  by (induction s) auto

lemma last_index_append: "c \<notin> set t \<Longrightarrow> last_index c (s @ c # t) = int (length s)"
  by (induction s) (auto simp: last_index_none Let_def)

lemma last_index_less: "c \<notin> set t \<Longrightarrow> last_index c (s @ t) < int (length s)"
  by (induction s) (auto simp: last_index_none Let_def)

lemma str_cut_takeWhile: "str_cut c s = (if c \<in> set s then Some (takeWhile (\<lambda>x. x \<noteq> c) s, tl (dropWhile (\<lambda>x. x \<noteq> c) s)) else None)"
  by (induction s) auto

lemma split_on_cut: "str_cut c s = Some (a, b) \<Longrightarrow> split_on c s = a # split_on c b"
  by (metis split_on_append str_cut_Some)

lemma str_join_split: "str_join [c] (split_on c s) = s"
proof (induction s)
  case (Cons x s)
  then show ?case by (cases "split_on c s") (auto simp: neq_Nil_conv, (metis append_Cons list.exhaust str_join.simps(2,3))+)
qed simp

text \<open>The two normalisations of the part before tag and digest.\<close>

lemma same_repository:
  assumes "name \<noteq> []" "\<not> hub_short name"
  defines "parts \<equiv> split_on (CHR ''/'') name"
  shows "(let first = split_n2 (CHR ''/'') name ! 0;
            host = (str_contains name ''/'' \<and> isRegistryHost first);
            registry = (if host then normalizeRegistry first else '''');
            repo1 = (if host then split_n2 (CHR ''/'') name ! 1 else name) in
          if registry = [] \<or> registry = ''registry-1.docker.io''
          then (if str_contains repo1 ''/'' then repo1 else ''library/'' @ repo1)
          else registry @ ''/'' @ repo1) =
    storeRepository (if length parts > 1 \<and> isRegistryHost (parts ! 0)
             then \<lparr>ref_registry = normalizeRegistry (parts ! 0), ref_repository = str_join ''/'' (drop 1 parts), ref_reference = ref\<rparr>
             else \<lparr>ref_registry = ''registry-1.docker.io'',
                   ref_repository = (if length parts = 1 then ''library/'' @ name else name), ref_reference = ref\<rparr>)"
proof (cases "str_cut (CHR ''/'') name")
  case None
  then have "CHR ''/'' \<notin> set name" by (simp add: str_cut_None)
  then show ?thesis using None by (simp add: Let_def parts_def storeRepository_def split_n2_def)
next
  case (Some ab)
  then obtain a b where ab: "str_cut (CHR ''/'') name = Some (a, b)" by (cases ab) auto
  have p: "parts = a # split_on (CHR ''/'') b" "split_n2 (CHR ''/'') name = [a, b]" "CHR ''/'' \<in> set name"
    using split_on_cut [OF ab] ab str_cut_Some [OF ab] by (simp_all add: parts_def split_n2_def)
  have len: "length parts > 1" using p by (cases "split_on (CHR ''/'') b") auto
  have ne: "isRegistryHost a \<Longrightarrow> normalizeRegistry a \<noteq> []" by (auto simp: isRegistryHost_def normalizeRegistry_def)
  have "isRegistryHost a \<and> normalizeRegistry a = ''registry-1.docker.io'' \<Longrightarrow> CHR ''/'' \<in> set b"
    using assms(2) ab by (simp add: hub_short_def)
  then show ?thesis using p len ne by (auto simp: Let_def storeRepository_def str_join_split)
qed

lemma hub_tag:
  assumes "CHR '':'' \<notin> set name" "CHR '':'' \<notin> set tag" "CHR ''/'' \<notin> set tag" and i: "img = name @ CHR '':'' # tag"
  shows "last_index (CHR '':'') img = int (length name)" "last_index (CHR ''/'') img < int (length name)"
proof -
  show "last_index (CHR '':'') img = int (length name)" unfolding i by (rule last_index_append) (rule assms)
  have "CHR ''/'' \<notin> set (CHR '':'' # tag)" using assms by simp
  from last_index_less [OF this, of name] show "last_index (CHR ''/'') img < int (length name)" unfolding i .
qed

lemma same_image_name:
  assumes "CHR ''@'' \<in> set img \<or> tag_last img" "\<not> hub_short (bare_name img)"
  shows "parseImageRef img =
    (case hub_parseImageRef img of Inl e \<Rightarrow> Inl e | Inr p \<Rightarrow> Inr (storeRepository p, ref_reference p))"
proof -
  have fin: "parseImageRef img = (case hub_parseImageRef img of Inl e \<Rightarrow> Inl e | Inr p \<Rightarrow> Inr (storeRepository p, ref_reference p))"
    if c: "(if str_contains img ''@''
         then (let parts = split_n2 (CHR ''@'') img in (parts ! 0, parts ! 1))
         else (let parts = split_n2 (CHR '':'') img in
               (parts ! 0, if length parts = 2 \<and> parts ! 1 \<noteq> [] then parts ! 1 else ''latest''))) = (name, ref)"
      and h: "(if str_contains img ''@''
         then (let parts = split_n2 (CHR ''@'') img in (parts ! 0, parts ! 1))
         else (let lastColon = last_index (CHR '':'') img; lastSlash = last_index (CHR ''/'') img in
               if lastColon > lastSlash then (take (nat lastColon) img, drop (nat lastColon + 1) img)
               else (img, ''latest''))) = (name, ref)"
      and s: "\<not> hub_short name" for name ref
  proof (cases "name = []")
    case True
    then show ?thesis unfolding parseImageRef_def hub_parseImageRef_def c h by simp
  next
    case False
    show ?thesis unfolding parseImageRef_def hub_parseImageRef_def c h
      using same_repository [OF False s, of ref] False by (simp add: Let_def)
  qed
  show ?thesis
  proof (cases "CHR ''@'' \<in> set img")
    case True
    then show ?thesis using assms(2)
      by (intro fin [of "bare_name img" "tl (dropWhile (\<lambda>x. x \<noteq> CHR ''@'') img)"])
        (simp_all add: split_n2_def str_cut_takeWhile bare_name_def)
  next
    case no_at: False
    show ?thesis
    proof (cases "str_cut (CHR '':'') img")
      case None
      then have nc: "CHR '':'' \<notin> set img" by (simp add: str_cut_None)
      then have "bare_name img = img" using no_at by (simp add: bare_name_def takeWhile_eq_all_conv) metis
      moreover have "\<not> last_index (CHR '':'') img > last_index (CHR ''/'') img"
        using last_index_less [of "CHR '':''" img "[]"] nc by (simp add: last_index_none) (induction img; auto simp: Let_def)
      ultimately show ?thesis using no_at None assms(2) by (intro fin [of img "''latest''"]) (simp_all add: split_n2_def)
    next
      case (Some nt)
      then obtain name tag where nt: "str_cut (CHR '':'') img = Some (name, tag)" by (cases nt) auto
      have i: "img = name @ CHR '':'' # tag" "CHR '':'' \<notin> set name" using str_cut_Some [OF nt] by auto
      have t: "tag \<noteq> []" "CHR '':'' \<notin> set tag" "CHR ''/'' \<notin> set tag" using assms(1) no_at nt by (auto simp: tag_last_def)
      note l = hub_tag [OF i(2) t(2,3) i(1)]
      have "bare_name img = name" using no_at i by (auto simp: bare_name_def takeWhile_append)
      then show ?thesis using no_at nt t(1) l i(1) assms(2) by (intro fin [of name tag]) (auto simp: split_n2_def Let_def)
    qed
  qed
qed

text \<open>C39: a pulled image is found again: the container service and the image service read every image name
  the same way, and on every name with a digest, or with at most a tag after its last element, that is
  not the default registry followed by a repository without a slash (such as \<open>docker.io/ubuntu\<close>), the
  name under which they look an image up is the name under which the registry client stores it, and all
  three refuse the same names.\<close>

theorem image_names_agree:
  assumes "CHR ''@'' \<in> set img \<or> tag_last img" "\<not> hub_short (bare_name img)"
  shows "parseImageRef any = image_parseImageRef any \<and>
    parseImageRef img = (case hub_parseImageRef img of Inl e \<Rightarrow> Inl e | Inr p \<Rightarrow> Inr (storeRepository p, ref_reference p)) \<and>
    image_parseImageRef img = (case hub_parseImageRef img of Inl e \<Rightarrow> Inl e | Inr p \<Rightarrow> Inr (storeRepository p, ref_reference p))"
  using same_image_name [OF assms] by (simp add: image_parser_same)

theorem image_names_agree_witness:
  "(case hub_parseImageRef ''registry.k8s.io/pause:3.9'' of Inl e \<Rightarrow> Inl e | Inr p \<Rightarrow> Inr (storeRepository p, ref_reference p))
     = Inr (''registry.k8s.io/pause'', ''3.9'')"
proof -
  have "parseImageRef ''registry.k8s.io/pause:3.9'' = Inr (''registry.k8s.io/pause'', ''3.9'')"
    by (simp add: parseImageRef_def split_n2_def isRegistryHost_def normalizeRegistry_def has_prefix_def)
  moreover have "tag_last ''registry.k8s.io/pause:3.9''" "\<not> hub_short (bare_name ''registry.k8s.io/pause:3.9'')"
    by (simp_all add: tag_last_def hub_short_def bare_name_def normalizeRegistry_def)
  ultimately show ?thesis using image_names_agree [of "''registry.k8s.io/pause:3.9''"] by simp
qed

text \<open>Outside these names the two disagree: a registry with a port, and the default registry written
  out with a short name.\<close>

lemma registry_port_disagrees:
  "parseImageRef ''localhost:5000/app:latest'' = Inr (''library/localhost'', ''5000/app:latest'')"
  "\<exists>p. hub_parseImageRef ''localhost:5000/app:latest'' = Inr p \<and> storeRepository p = ''localhost:5000/app'' \<and> ref_reference p = ''latest''"
  by (simp_all add: parseImageRef_def hub_parseImageRef_def split_n2_def isRegistryHost_def normalizeRegistry_def has_prefix_def
      storeRepository_def)

lemma default_registry_disagrees:
  "parseImageRef ''docker.io/ubuntu'' = Inr (''library/ubuntu'', ''latest'')"
  "\<exists>p. hub_parseImageRef ''docker.io/ubuntu'' = Inr p \<and> storeRepository p = ''ubuntu'' \<and> ref_reference p = ''latest''"
  by (simp_all add: parseImageRef_def hub_parseImageRef_def split_n2_def isRegistryHost_def normalizeRegistry_def has_prefix_def
      storeRepository_def)

end
