(* ===== verification/Registry.thy ===== *)
theory Registry
  imports Layers Image_Names "HOL-Library.Word"
begin

text \<open>
  The registry client (\<open>src/internal/registry/dockerhub/handler.go\<close>): authentication, manifests,
  verified downloads and \<open>PullImage\<close>.  HTTP, JSON, URL building and SHA-256 are parameters.
\<close>

subsection \<open>Parameters and data\<close>

record http_response =
  hr_StatusCode :: int
  hr_Header :: "string \<Rightarrow> string"
  hr_Body :: "string result"

record tokenResp =
  tr_Token :: string
  tr_AccessToken :: string

record manifest_item =
  mi_Digest :: string
  mi_OS :: string
  mi_Architecture :: string

record manifest_part =
  mp_Size :: "64 word"
  mp_Digest :: string

record singleManifest =
  sm_Config :: manifest_part
  sm_Layers :: "manifest_part list"

record 'h hub_env =
  hub_os :: "'h os"
  hub_get :: "string \<Rightarrow> (string \<times> string) list \<Rightarrow> (http_response, 'h) act"
  hub_token_url :: "string \<Rightarrow> string \<Rightarrow> string \<Rightarrow> string result"
  hub_token_json :: "string \<Rightarrow> tokenResp result"
  hub_list_json :: "string \<Rightarrow> manifest_item list result"
  hub_manifest_json :: "string \<Rightarrow> singleManifest result"
  hub_sha256 :: "string \<Rightarrow> string"

text \<open>The text \<open>io.ReadAll\<close> returns when its error is dropped is not modelled beyond success.\<close>

definition body_text :: "http_response \<Rightarrow> string" where
  "body_text resp = (case hr_Body resp of Inr b \<Rightarrow> b | Inl _ \<Rightarrow> '''')"

subsection \<open>Authentication\<close>

fun split_commas :: "bool \<Rightarrow> string \<Rightarrow> string \<Rightarrow> string list" where
  "split_commas inQ cur [] = (if cur = [] then [] else [cur])"
| "split_commas inQ cur (r # rs) =
     (if r = CHR 0x22 then split_commas (\<not> inQ) (cur @ [r]) rs
      else if r = CHR '','' \<and> \<not> inQ then cur # split_commas inQ [] rs
      else split_commas inQ (cur @ [r]) rs)"

definition splitCommaPreserveQuotes :: "string \<Rightarrow> string list" where
  "splitCommaPreserveQuotes str = split_commas False [] str"

text \<open>\<open>strings.Trim(s, `"`)\<close>.\<close>

definition trim_quotes :: "string \<Rightarrow> string" where
  "trim_quotes s = rev (dropWhile (\<lambda>c. c = CHR 0x22) (rev (dropWhile (\<lambda>c. c = CHR 0x22) s)))"

fun challenge_values :: "string list \<Rightarrow> (string, string) gomap \<Rightarrow> (string, string) gomap" where
  "challenge_values [] kv = kv"
| "challenge_values (p0 # ps) kv =
     (let p = trim_space p0 in
      if p = [] then challenge_values ps kv
      else case str_cut (CHR ''='') p of
        None \<Rightarrow> challenge_values ps kv
      | Some (k, v) \<Rightarrow> challenge_values ps (mput (trim_space k) (trim_quotes (trim_space v)) kv))"

definition parseWwwAuthenticate :: "string \<Rightarrow> (string \<times> string) result" where
  "parseWwwAuthenticate h0 =
     (let h = trim_space h0 in
      if \<not> has_prefix (to_lower h) ''bearer '' then Inl (Err (''unexpected Www-Authenticate: '' @ h))
      else
        let kv = challenge_values (splitCommaPreserveQuotes (trim_space (drop 7 h))) [];
            realm = mget0 kv ''realm''; service = mget0 kv ''service'' in
        if realm = [] \<or> service = [] then Inl (Err (''failed to parse bearer challenge: '' @ h))
        else Inr (realm, service))"

definition getBearerChallenge :: "'h hub_env \<Rightarrow> string \<Rightarrow> (string \<times> string, 'h) act" where
  "getBearerChallenge env registry =
     bnd (hub_get env (''https://'' @ registry @ ''/v2/'') []) (\<lambda>resp.
       if hr_StatusCode resp = 200 then ret ('''', '''')
       else if hr_StatusCode resp \<noteq> 401 then fail (Err (''expected 401 from /v2/, got '' @ itoa (hr_StatusCode resp)))
       else lift_res (parseWwwAuthenticate (hr_Header resp ''Www-Authenticate'')))"

definition fetchToken :: "'h hub_env \<Rightarrow> string \<Rightarrow> string \<Rightarrow> string \<Rightarrow> (string, 'h) act" where
  "fetchToken env realm service scope =
     bnd (lift_res (hub_token_url env realm service scope)) (\<lambda>u.
     bnd (hub_get env u []) (\<lambda>resp.
       if hr_StatusCode resp \<noteq> 200
       then fail (Err (''token request failed: '' @ itoa (hr_StatusCode resp) @ '': '' @ body_text resp))
       else bnd (lift_res (bind_res (hr_Body resp) (hub_token_json env))) (\<lambda>tr.
         if tr_Token tr = [] then fail (Err ''no token in response'') else ret (tr_AccessToken tr))))"

definition auth_header :: "string \<Rightarrow> (string \<times> string) list" where
  "auth_header token = (if token = [] then [] else [(''Authorization'', ''Bearer '' @ token)])"

subsection \<open>Manifests\<close>

definition fetchManifest :: "'h hub_env \<Rightarrow> imageRefParts \<Rightarrow> string \<Rightarrow> (string \<times> string, 'h) act" where
  "fetchManifest env ref token =
     (let u = ''https://'' @ ref_registry ref @ ''/v2/'' @ ref_repository ref @ ''/manifests/'' @ ref_reference ref;
          accept = str_join '', '' [''application/vnd.oci.image.index.v1+json'',
            ''application/vnd.docker.distribution.manifest.list.v2+json'',
            ''application/vnd.oci.image.manifest.v1+json'',
            ''application/vnd.docker.distribution.manifest.v2+json''] in
      bnd (hub_get env u ((''Accept'', accept) # auth_header token)) (\<lambda>resp.
        if hr_StatusCode resp \<noteq> 200
        then fail (Err (''manifest fetch failed: '' @ itoa (hr_StatusCode resp) @ '': '' @ body_text resp))
        else bnd (lift_res (hr_Body resp)) (\<lambda>b. ret (b, hr_Header resp ''Content-Type''))))"

definition storeManifest :: "'h hub_env \<Rightarrow> string \<Rightarrow> string \<Rightarrow> string \<Rightarrow> (unit, 'h) act" where
  "storeManifest env repoOut data filename = os_do (hub_os env) (Os_WriteFile (path_join [repoOut, filename]) data 420)"

definition isManifestListMediaType :: "string \<Rightarrow> bool" where
  "isManifestListMediaType ct0 =
     (let ct = to_lower (trim_space (hd (split_on (CHR '';'') ct0))) in
      ct = ''application/vnd.docker.distribution.manifest.list.v2+json'' \<or>
      ct = ''application/vnd.oci.image.index.v1+json'')"

definition pickFromManifestList :: "'h hub_env \<Rightarrow> string \<Rightarrow> string \<Rightarrow> string \<Rightarrow> string result" where
  "pickFromManifestList env b targetOs targetArch =
     bind_res (hub_list_json env b) (\<lambda>ms.
       case List.find (\<lambda>m. mi_OS m = targetOs \<and> mi_Architecture m = targetArch \<and> mi_Digest m \<noteq> []) ms of
         Some m \<Rightarrow> Inr (mi_Digest m)
       | None \<Rightarrow> Inl (Err (''no manifest for platform '' @ targetOs @ ''/'' @ targetArch)))"

definition parseSingleManifest :: "'h hub_env \<Rightarrow> string \<Rightarrow> singleManifest result" where
  "parseSingleManifest env b =
     bind_res (hub_manifest_json env b) (\<lambda>m.
       if mp_Digest (sm_Config m) = [] \<or> sm_Layers m = [] then Inl (Err ''unexpected manifest (no config/layers)'') else Inr m)"

subsection \<open>Blobs\<close>

definition digestToFilename :: "string \<Rightarrow> string" where
  "digestToFilename d = map (\<lambda>c. if c = CHR '':'' then CHR ''_'' else c) d"

definition downloadBlobVerified :: "'h hub_env \<Rightarrow> imageRefParts \<Rightarrow> string \<Rightarrow> string \<Rightarrow> string \<Rightarrow> (unit, 'h) act" where
  "downloadBlobVerified env ref token digest dest =
     (if \<not> has_prefix digest ''sha256:'' then fail (Err (''only sha256 digest supported: '' @ digest))
      else
        let u = ''https://'' @ ref_registry ref @ ''/v2/'' @ ref_repository ref @ ''/blobs/'' @ digest; os = hub_os env in
        bnd (hub_get env u (auth_header token)) (\<lambda>resp.
          if hr_StatusCode resp \<noteq> 200
          then fail (Err (''blob fetch failed: '' @ itoa (hr_StatusCode resp) @ '': '' @ body_text resp))
          else
            seq (os_do os (Os_MkdirAll (path_dir dest) mode755))
           (seq (os_do os (Os_Create dest 438))
           (seq (bnd (attempt (os_do os (Os_Copy dest (hr_Body resp)))) (\<lambda>r.
                   case r of
                     Inl e \<Rightarrow> seq (ignore (os_do os (Os_Close dest))) (fail e)
                   | Inr _ \<Rightarrow> ret ()))
           (let sum = hub_sha256 env (body_text resp); want = drop 7 digest in
            seq (ignore (os_do os (Os_Close dest)))
             (if sum \<noteq> want then fail (Err (''digest mismatch: want '' @ want @ '' got '' @ sum)) else ret ()))))))"

definition copyFile :: "'h hub_env \<Rightarrow> string \<Rightarrow> string \<Rightarrow> (unit, 'h) act" where
  "copyFile env src dst h =
     (let os = hub_os env in
      case os_stat os src h of
        Stat_missing \<Rightarrow> (Inl (Err (''open '' @ src @ '': no such file or directory'')), h)
      | Stat_error e \<Rightarrow> (Inl e, h)
      | _ \<Rightarrow> seq (os_do os (Os_Create dst 438))
            (seq (os_do os (Os_Copy dst (os_read os src h))) (os_do os (Os_Close dst))) h)"

subsection \<open>Pulling an image\<close>

record RegistryPullModel =
  rp_Image :: string
  rp_Os :: string
  rp_Arch :: string

definition createOutputDirectory :: "'h hub_env \<Rightarrow> string \<Rightarrow> (unit, 'h) act" where
  "createOutputDirectory env repoOut =
     for_each (\<lambda>p. os_do (hub_os env) (Os_MkdirAll p mode755)) [repoOut, path_join [repoOut, ''blobs''], path_join [repoOut, ''rootfs'']]"

definition removeOutputDirectory :: "'h hub_env \<Rightarrow> string \<Rightarrow> (unit, 'h) act" where
  "removeOutputDirectory env repoOut = os_do (hub_os env) (Os_RemoveAll repoOut)"

text \<open>\<open>filepath.Join(utils.LayerRootDir, storeRepo, reference)\<close>.\<close>

definition repo_out :: "imageRefParts \<Rightarrow> string" where
  "repo_out ref = path_join [''/etc/raind/image/layers'', storeRepository ref, ref_reference ref]"

definition blob_path :: "string \<Rightarrow> string \<Rightarrow> string" where
  "blob_path repoOut digest = path_join [repoOut, ''blobs'', digestToFilename digest]"

definition PullImage :: "'h hub_env \<Rightarrow> RegistryPullModel \<Rightarrow> (string \<times> string \<times> string \<times> string \<times> string, 'h) act" where
  "PullImage env par =
     bnd (lift_res (hub_parseImageRef (rp_Image par))) (\<lambda>imageRef.
     let repoOut = repo_out imageRef in
     seq (createOutputDirectory env repoOut)
    (with_rollback
      (bnd (getBearerChallenge env (ref_registry imageRef)) (\<lambda>(realm, service).
       bnd (if realm \<noteq> [] \<and> service \<noteq> []
            then fetchToken env realm service (''repository:'' @ ref_repository imageRef @ '':pull'') else ret '''') (\<lambda>token.
       bnd (fetchManifest env imageRef token) (\<lambda>(manifestBytes0, mediaType).
       seq (storeManifest env repoOut manifestBytes0 ''manifest.json'')
      (bnd (if isManifestListMediaType mediaType
            then bnd (lift_res (pickFromManifestList env manifestBytes0 (rp_Os par) (rp_Arch par))) (\<lambda>dgst.
                 bnd (fetchManifest env (imageRef\<lparr>ref_reference := dgst\<rparr>) token) (\<lambda>(b, _).
                 seq (storeManifest env repoOut b ''manifest.selected.json'') (ret b)))
            else ret manifestBytes0) (\<lambda>manifestBytes.
       bnd (lift_res (parseSingleManifest env manifestBytes)) (\<lambda>m.
       let config = mp_Digest (sm_Config m); layers = map mp_Digest (sm_Layers m);
           configPath = path_join [repoOut, ''config.json'']; rootfsPath = path_join [repoOut, ''rootfs''] in
       seq (downloadBlobVerified env imageRef token config (blob_path repoOut config))
      (seq (for_each (\<lambda>l. downloadBlobVerified env imageRef token l (blob_path repoOut l)) layers)
      (seq (copyFile env (blob_path repoOut config) configPath)
      (seq (applyLayers (hub_os env) rootfsPath (map (blob_path repoOut) layers))
           (ret (storeRepository imageRef, ref_reference imageRef, repoOut, configPath, rootfsPath))))))))))))
      (removeOutputDirectory env repoOut)))"

subsection \<open>Downloads are verified\<close>

text \<open>C38: a blob whose download succeeds has the digest it was asked for: the file holds a text whose
  SHA-256 is the digest.  \<open>io.Copy\<close> succeeds only when the file then holds the whole stream; closing a
  file leaves the files as they are.  Nothing is said of what a failed download leaves.\<close>

theorem download_verified:
  assumes copied: "\<And>p c h h'. os_do (hub_os env) (Os_Copy p c) h = (Inr (), h') \<Longrightarrow> \<exists>b. c = Inr b \<and> files h' p = Some b"
    and closed: "\<And>p h. files (snd (os_do (hub_os env) (Os_Close p) h)) = files h"
    and ok: "downloadBlobVerified env ref token digest dest h = (Inr (), h')"
  shows "\<exists>b. files h' dest = Some b \<and> digest = ''sha256:'' @ hub_sha256 env b"
proof -
  let ?os = "os_do (hub_os env)"
  have pre: "has_prefix digest ''sha256:''"
    using ok by (auto simp: downloadBlobVerified_def split: if_splits)
  obtain resp r t1 t2 h3 where c: "attempt (?os (Os_Copy dest (hr_Body resp))) t1 = (Inr r, t2)"
      "(case r of Inl e \<Rightarrow> bnd (ignore (?os (Os_Close dest))) (\<lambda>_. fail e) | Inr x \<Rightarrow> ret x) t2 = (Inr (), h3)"
    and cl: "ignore (?os (Os_Close dest)) h3 = (Inr (), h')" and sum: "hub_sha256 env (body_text resp) = drop 7 digest"
    using ok pre by (auto simp: downloadBlobVerified_def Let_def bnd_Inr seq_def split: if_splits)
  have "r = Inr ()" using c(2) by (auto simp: bnd_Inr split: sum.splits)
  with c have "?os (Os_Copy dest (hr_Body resp)) t1 = (Inr (), h3)"
    by (auto simp: attempt_def split: prod.splits sum.splits error.splits)
  from copied [OF this] obtain b where b: "hr_Body resp = Inr b" "files h3 dest = Some b" by blast
  have h': "h' = snd (?os (Os_Close dest) h3)"
    using cl by (auto simp: bnd_Inr ignore_def attempt_def split: prod.splits sum.splits error.splits)
  have "length ''sha256:'' = 7" by simp
  with has_prefixD [OF pre] have "digest = ''sha256:'' @ drop 7 digest" by (simp only:)
  then show ?thesis using b sum h' closed [of dest h3] by (auto simp: body_text_def)
qed

text \<open>A host that is a map from paths to texts; the digest function reverses its text.\<close>

definition file_os :: "(string \<rightharpoonup> string) os" where
  "file_os = \<lparr>os_do = (\<lambda>c h. case c of
        Os_Copy p (Inr b) \<Rightarrow> (Inr (), h(p \<mapsto> b)) | Os_Copy p (Inl e) \<Rightarrow> (Inl e, h)
      | Os_WriteFile p b m \<Rightarrow> (Inr (), h(p \<mapsto> b)) | _ \<Rightarrow> (Inr (), h)),
     os_stat = (\<lambda>p h. if h p = None then Stat_missing else Stat_other), os_readdir = (\<lambda>p h. Inr []),
     os_tar = (\<lambda>p h. Inr []), os_read = (\<lambda>p h. case h p of None \<Rightarrow> Inl (Err ''missing'') | Some b \<Rightarrow> Inr b)\<rparr>"

definition demo_hub :: "(string \<rightharpoonup> string) hub_env" where
  "demo_hub = \<lparr>hub_os = file_os,
     hub_get = (\<lambda>u hs h. (Inr \<lparr>hr_StatusCode = 200, hr_Header = (\<lambda>k. ''application/vnd.oci.image.manifest.v1+json''), hr_Body = Inr ''abc''\<rparr>, h)),
     hub_token_url = (\<lambda>a b c. Inr a), hub_token_json = (\<lambda>b. Inr \<lparr>tr_Token = ''t'', tr_AccessToken = ''t''\<rparr>),
     hub_list_json = (\<lambda>b. Inr []),
     hub_manifest_json = (\<lambda>b. Inr \<lparr>sm_Config = \<lparr>mp_Size = 3, mp_Digest = ''sha256:cba''\<rparr>, sm_Layers = [\<lparr>mp_Size = 3, mp_Digest = ''sha256:cba''\<rparr>]\<rparr>),
     hub_sha256 = rev\<rparr>"

theorem download_verified_witness:
  "\<exists>b. snd (downloadBlobVerified demo_hub \<lparr>ref_registry = ''r'', ref_repository = ''p'', ref_reference = ''latest''\<rparr> '''' ''sha256:cba'' ''/x'' (\<lambda>_. None)) ''/x'' = Some b \<and>
     ''sha256:cba'' = ''sha256:'' @ hub_sha256 demo_hub b"
proof -
  let ?d = "downloadBlobVerified demo_hub \<lparr>ref_registry = ''r'', ref_repository = ''p'', ref_reference = ''latest''\<rparr> '''' ''sha256:cba'' ''/x'' (\<lambda>_. None)"
  have copied: "\<exists>b. c = Inr b \<and> h' p = Some b" if "os_do (hub_os demo_hub) (Os_Copy p c) h = (Inr (), h')" for p c h h'
    using that by (cases c) (auto simp: demo_hub_def file_os_def)
  have closed: "snd (os_do (hub_os demo_hub) (Os_Close p) h) = h" for p h by (simp add: demo_hub_def file_os_def)
  have "fst ?d = Inr ()"
    by (simp add: downloadBlobVerified_def demo_hub_def file_os_def has_prefix_def ignore_def body_text_def auth_header_def Let_def)
  then have "?d = (Inr (), snd ?d)" by (metis prod.collapse)
  then show ?thesis
    using download_verified [where files = "\<lambda>h. h" and env = demo_hub, rotated 2] copied closed by blast
qed

text \<open>The path of a blob is not confined: a digest may climb out of the image's directory.\<close>

lemma blob_path_escapes: "blob_path ''/etc/raind/image/layers/library/x/latest'' ''sha256:/../../../../../../../../../root/x'' = ''/root/x''"
  by (simp add: blob_path_def digestToFilename_def path_join_def path_clean_def has_prefix_def)

text \<open>What was downloaded is written before it is compared: when the digest is another one, the text stays
  under the name of the blob.  With such a digest this is a file outside the image's directory, which the
  clean-up of \<open>PullImage\<close> does not remove.\<close>

lemma mismatch_keeps_blob:
  "\<exists>e h. downloadBlobVerified demo_hub \<lparr>ref_registry = ''r'', ref_repository = ''p'', ref_reference = ''latest''\<rparr> ''''
       ''sha256:/../../../../../../../../../root/x''
       (blob_path ''/etc/raind/image/layers/library/x/latest'' ''sha256:/../../../../../../../../../root/x'') (\<lambda>_. None) = (Inl (Err e), h) \<and>
     h ''/root/x'' = Some ''abc''"
  unfolding blob_path_escapes
  by (simp add: downloadBlobVerified_def demo_hub_def file_os_def has_prefix_def ignore_def body_text_def auth_header_def Let_def)

subsection \<open>What a pull returns and what a failed pull leaves\<close>

lemma PullImage_ok:
  assumes "PullImage env par h = (Inr (repo, ref, bundle, cfg, rootfs), h')"
  shows "\<exists>p. hub_parseImageRef (rp_Image par) = Inr p \<and> repo = storeRepository p \<and> ref = ref_reference p \<and>
    bundle = repo_out p \<and> cfg = path_join [repo_out p, ''config.json''] \<and> rootfs = path_join [repo_out p, ''rootfs'']"
  using assms by (auto simp: PullImage_def bnd_Inr seq_def with_rollback_Inr Let_def)

lemma PullImage_fail:
  assumes "PullImage env par h = (Inl (Err e), h')"
  shows "hub_parseImageRef (rp_Image par) = Inl (Err e) \<or>
    (\<exists>p. hub_parseImageRef (rp_Image par) = Inr p \<and>
      (fst (createOutputDirectory env (repo_out p) h) = Inl (Err e) \<or>
       (\<exists>h1. h' = snd (os_do (hub_os env) (Os_RemoveAll (repo_out p)) h1))))"
proof (cases "hub_parseImageRef (rp_Image par)")
  case (Inl e')
  then show ?thesis using assms by (simp add: PullImage_def)
next
  case (Inr p)
  have rb: "\<exists>h1. h' = snd (rb h1)" if "with_rollback m rb s = (Inl (Err e), h')" for m rb s
    using that by (auto simp: with_rollback_def split: prod.splits sum.splits error.splits) (metis snd_conv)+
  show ?thesis
  proof (cases "createOutputDirectory env (repo_out p) h")
    case (Pair r h0)
    then show ?thesis using assms Inr rb
      by (cases r) (auto simp: PullImage_def Let_def removeOutputDirectory_def)
  qed
qed

end
