(* ===== verification/Image_Service.thy ===== *)
theory Image_Service
  imports Daemon Registry
begin

text \<open>
  The image service (\<open>src/internal/core/image/service.go\<close>): pull, remove, list, status and size of
  images.  It ties the registry client to the image layer store.
\<close>

subsection \<open>Data (model.go) and parameters\<close>

record ServicePullModel =
  sp_Image :: string
  sp_Os :: string
  sp_Arch :: string

record ImageConfigObject =
  ic_Env :: "string list"
  ic_Cmd :: "string list"
  ic_Entrypoint :: "string list"
  ic_WorkingDir :: string
  ic_User :: string

record ImageConfigFile =
  if_Config :: ImageConfigObject

record svc_ImageInfo =
  ii_Repository :: string
  ii_Reference :: string
  ii_CreatedAt :: time

record ImageStatusInfo =
  is_Repository :: string
  is_Reference :: string
  is_Id :: string
  is_RepoTags :: "string list"
  is_RepoDigests :: "string list"
  is_SizeBytes :: "64 word"
  is_CreatedAt :: time
  is_User :: string

record ImageFsInfo =
  fs_Image :: string
  fs_UsedBytes :: "64 word"

text \<open>What \<open>filepath.WalkDir\<close> passes to its function: an error, a directory, or a file with the
  result of \<open>Info\<close>.\<close>

datatype walk_entry = Walk_error error | Walk_dir | Walk_file "64 word result"

text \<open>The JSON decoder of image configurations, \<open>IsNotExist\<close>, the platform, directory walks and the
  clock are parameters.\<close>

record 'h image_env =
  im_hub :: "'h hub_env"
  im_config_json :: "string \<Rightarrow> ImageConfigFile result"
  im_not_exist :: "error \<Rightarrow> bool"
  im_GOOS :: string
  im_GOARCH :: string
  im_walk :: "string \<Rightarrow> 'h \<Rightarrow> walk_entry list"
  im_now :: "'h \<Rightarrow> time \<times> 'h"

abbreviation im_os :: "'h image_env \<Rightarrow> 'h os" where
  "im_os env \<equiv> hub_os (im_hub env)"

definition Now :: "('h \<Rightarrow> time \<times> 'h) \<Rightarrow> (time, 'h daemon) act" where
  "Now clock = on_host (\<lambda>h. case clock h of (t, h') \<Rightarrow> (Inr t, h'))"

definition HostArch :: "string \<Rightarrow> string result" where
  "HostArch goarch =
     (if goarch \<in> {''amd64'', ''arm64'', ''386'', ''riscv64'', ''ppc64le'', ''s390x''} then Inr goarch
      else Inl (Err (''unsupported arch: '' @ goarch)))"

subsection \<open>Operations\<close>

definition Pull :: "'h image_env \<Rightarrow> ServicePullModel \<Rightarrow> (unit, 'h daemon) act" where
  "Pull env par =
     (let targetOs = (if sp_Os par = [] then im_GOOS env else sp_Os par) in
      bnd (if sp_Arch par = [] then lift_res (HostArch (im_GOARCH env)) else ret (sp_Arch par)) (\<lambda>targetArch.
      bnd (on_host (PullImage (im_hub env) \<lparr>rp_Image = sp_Image par, rp_Os = targetOs, rp_Arch = targetArch\<rparr>))
        (\<lambda>(repository, reference, bundlePath, configPath, rootfsPath).
      bnd (Now (im_now env)) (\<lambda>now.
        ilm_do (upd (StoreImage now repository reference bundlePath configPath rootfsPath))))))"

definition image_Remove :: "'h image_env \<Rightarrow> string \<Rightarrow> (unit, 'h daemon) act" where
  "image_Remove env img =
     bnd (lift_res (image_parseImageRef img)) (\<lambda>(repo, ref).
     bnd (ilm_do (query (GetBundlePath repo ref))) (\<lambda>bundlePath.
     seq (on_host (os_do (im_os env) (Os_RemoveAll bundlePath)))
         (ilm_do (upd (RemoveImage repo ref)))))"

definition read_file :: "'h os \<Rightarrow> string \<Rightarrow> (string, 'h) act" where
  "read_file os path h = (os_read os path h, h)"

definition GetImageConfig :: "'h image_env \<Rightarrow> string \<Rightarrow> (ImageConfigFile, 'h daemon) act" where
  "GetImageConfig env path =
     bnd (on_host (read_file (im_os env) path)) (\<lambda>b. lift_res (im_config_json env b))"

definition svc_GetImageList :: "(svc_ImageInfo list, 'h daemon) act" where
  "svc_GetImageList =
     bnd (ilm_do (query GetImageList)) (\<lambda>imageList.
       ret (map (\<lambda>il. \<lparr>ii_Repository = im_Repository il, ii_Reference = im_Reference il, ii_CreatedAt = im_CreatedAt il\<rparr>) imageList))"

definition readManifest :: "'h image_env \<Rightarrow> string \<Rightarrow> (string, 'h) act" where
  "readManifest env bundlePath =
     bnd (attempt (read_file (im_os env) (path_join [bundlePath, ''manifest.selected.json'']))) (\<lambda>r.
       case r of
         Inr b \<Rightarrow> ret b
       | Inl e \<Rightarrow> if \<not> im_not_exist env e then fail e
                 else read_file (im_os env) (path_join [bundlePath, ''manifest.json'']))"

definition GetImageStatus :: "'h image_env \<Rightarrow> string \<Rightarrow> (ImageStatusInfo, 'h daemon) act" where
  "GetImageStatus env imageStr =
     bnd (lift_res (image_parseImageRef imageStr)) (\<lambda>(repo, ref).
     bnd (ilm_do (query (GetImageInfo repo ref))) (\<lambda>info.
     bnd (or_zero '''' (bnd (ilm_do (query (GetConfigPath repo ref))) (\<lambda>configPath.
            bnd (GetImageConfig env configPath) (\<lambda>cfg. ret (ic_User (if_Config cfg)))))) (\<lambda>user.
     bnd (ilm_do (query (GetBundlePath repo ref))) (\<lambda>bundlePath.
     bnd (attempt (on_host (readManifest env bundlePath))) (\<lambda>r.
       case r of
         Inl e \<Rightarrow>
           if im_not_exist env e
           then seq (ignore (ilm_do (upd (RemoveImage repo ref))))
               (seq (ignore (on_host (os_do (im_os env) (Os_RemoveAll bundlePath))))
                    (fail (Err (repo @ '':'' @ ref @ '' not found''))))
           else fail e
       | Inr manifestBytes \<Rightarrow>
           bnd (lift_res (hub_manifest_json (im_hub env) manifestBytes)) (\<lambda>m.
             ret \<lparr>is_Repository = im_Repository info, is_Reference = im_Reference info, is_Id = mp_Digest (sm_Config m),
                  is_RepoTags = (if has_prefix ref ''sha256:'' then [] else [repo @ '':'' @ ref]),
                  is_RepoDigests = [repo @ ''@sha256:'' @ hub_sha256 (im_hub env) manifestBytes],
                  is_SizeBytes = foldl (\<lambda>n l. n + mp_Size l) (mp_Size (sm_Config m)) (sm_Layers m),
                  is_CreatedAt = im_CreatedAt info, is_User = user\<rparr>))))))"

text \<open>The walk stops at the first error its function returns.\<close>

fun dir_size :: "walk_entry list \<Rightarrow> 64 word \<Rightarrow> 64 word result" where
  "dir_size [] n = Inr n"
| "dir_size (Walk_error e # es) n = Inl e"
| "dir_size (Walk_dir # es) n = dir_size es n"
| "dir_size (Walk_file (Inl e) # es) n = Inl e"
| "dir_size (Walk_file (Inr k) # es) n = dir_size es (n + k)"

definition dirSize :: "'h image_env \<Rightarrow> string \<Rightarrow> (64 word, 'h) act" where
  "dirSize env path h = wrap_err ''calc dir size failed: '' (lift_res (dir_size (im_walk env path h) 0)) h"

definition GetImageFsInfo :: "'h image_env \<Rightarrow> string \<Rightarrow> (ImageFsInfo, 'h daemon) act" where
  "GetImageFsInfo env imageStr =
     bnd (lift_res (image_parseImageRef imageStr)) (\<lambda>(repo, ref).
     bnd (ilm_do (query (GetBundlePath repo ref))) (\<lambda>bundlePath.
     bnd (on_host (dirSize env bundlePath)) (\<lambda>usedBytes.
       ret \<lparr>fs_Image = repo @ '':'' @ ref, fs_UsedBytes = usedBytes\<rparr>)))"

subsection \<open>A pulled image is found\<close>

lemma path_clean_rooted: "has_prefix s ''/'' \<Longrightarrow> \<exists>t. path_clean s = CHR ''/'' # t"
  by (simp add: path_clean_def Let_def)

lemma path_join_rooted: "has_prefix p ''/'' \<Longrightarrow> \<exists>t. path_join (p # ps) = CHR ''/'' # t"
proof -
  assume p: "has_prefix p ''/''"
  then obtain t where t: "p = CHR ''/'' # t" by (cases p) (auto simp: has_prefix_def)
  have "\<exists>u. str_join ''/'' (p # filter (\<lambda>e. e \<noteq> []) ps) = CHR ''/'' # u"
    by (cases "filter (\<lambda>e. e \<noteq> []) ps") (simp_all add: t)
  then have "has_prefix (str_join ''/'' (p # filter (\<lambda>e. e \<noteq> []) ps)) ''/''" by (auto simp: has_prefix_def)
  from path_clean_rooted [OF this] show ?thesis by (simp add: path_join_def t)
qed

lemma repo_out_rooted: "\<exists>t. repo_out p = CHR ''/'' # t"
  unfolding repo_out_def by (rule path_join_rooted) (simp add: has_prefix_def)

lemma pull_paths: "repo_out p \<noteq> []" "path_join [repo_out p, x] \<noteq> []"
proof -
  obtain t where t: "repo_out p = CHR ''/'' # t" using repo_out_rooted by blast
  then have "has_prefix (repo_out p) ''/''" by (simp add: has_prefix_def)
  from path_join_rooted [OF this, of "[x]"] t show "repo_out p \<noteq> []" "path_join [repo_out p, x] \<noteq> []" by auto
qed

lemma StoreImage_find:
  assumes "StoreImage now repo ref bundlep cfg rootfs st = Inr st'"
  shows "find_image repo' ref' st' = (if repo' = repo \<and> ref' = ref
    then Some \<lparr>BundlePath = bundlep, ConfigPath = cfg, RootfsPath = rootfs, ri_CreatedAt = now\<rparr> else find_image repo' ref' st)"
  using assms by (cases "repo' = repo"; cases "map_of (Repositories st) repo") (auto simp: StoreImage_def Let_def find_image_def)

text \<open>Pulling an image makes it usable: when the pull succeeds, the name a container is created with
  resolves to an entry with the paths of the unpacked image, and every other image of the store is as
  before.  When it fails, the store is as before, and what was downloaded is removed last.\<close>

theorem pulled_image_found:
  assumes io: "io_ok d"
    and names: "CHR ''@'' \<in> set (sp_Image par) \<or> tag_last (sp_Image par)" "\<not> hub_short (bare_name (sp_Image par))"
    and run: "Pull env par d = (r, d')"
  shows "case r of
      Inr u \<Rightarrow> (\<exists>repo ref p. parseImageRef (sp_Image par) = Inr (repo, ref) \<and> hub_parseImageRef (sp_Image par) = Inr p \<and>
        GetBundlePath repo ref (d_ilm d') = Inr (repo_out p) \<and>
        GetConfigPath repo ref (d_ilm d') = Inr (path_join [repo_out p, ''config.json'']) \<and>
        GetRootfsPath repo ref (d_ilm d') = Inr (path_join [repo_out p, ''rootfs'']) \<and>
        (\<forall>repo' ref'. (repo', ref') \<noteq> (repo, ref) \<longrightarrow> find_image repo' ref' (d_ilm d') = find_image repo' ref' (d_ilm d)))
    | Inl (Panic m) \<Rightarrow> True
    | Inl (Err e) \<Rightarrow> d_ilm d' = d_ilm d \<and> (d_host d' = d_host d \<or>
        (\<exists>p. hub_parseImageRef (sp_Image par) = Inr p \<and>
          (\<not> is_ok (fst (createOutputDirectory (im_hub env) (repo_out p) (d_host d))) \<or>
           (\<exists>h. d_host d' = snd (os_do (im_os env) (Os_RemoveAll (repo_out p)) h)))))"
proof (cases "if sp_Arch par = [] then HostArch (im_GOARCH env) else Inr (sp_Arch par)")
  case (Inl e)
  then have "Pull env par d = (Inl e, d)" by (auto simp: Pull_def split: if_splits)
  with run show ?thesis by (auto split: error.splits)
next
  case (Inr arch)
  let ?par = "\<lparr>rp_Image = sp_Image par, rp_Os = (if sp_Os par = [] then im_GOOS env else sp_Os par), rp_Arch = arch\<rparr>"
  have arch: "(if sp_Arch par = [] then lift_res (HostArch (im_GOARCH env)) else ret (sp_Arch par)) d = (Inr arch, d)"
    using Inr by (auto split: if_splits)
  obtain x h1 where x: "PullImage (im_hub env) ?par (d_host d) = (x, h1)" by fastforce
  show ?thesis
  proof (cases x)
    case (Inl e)
    have "r = Inl e" "d' = d\<lparr>d_host := h1\<rparr>" using run x Inl arch by (auto simp: Pull_def Let_def on_host_def)
    then show ?thesis using PullImage_fail [of "im_hub env" ?par "d_host d" _ h1] x Inl
      by (fastforce simp: PullImage_def split: error.splits)
  next
    case (Inr y)
    obtain repo ref bundlep cfg rootfs where y: "y = (repo, ref, bundlep, cfg, rootfs)" by (metis prod_cases5)
    obtain now h2 where t: "im_now env h1 = (now, h2)" by fastforce
    from PullImage_ok [OF x [unfolded Inr y]] obtain p where p: "hub_parseImageRef (sp_Image par) = Inr p" "repo = storeRepository p"
      "ref = ref_reference p" "bundlep = repo_out p" "cfg = path_join [repo_out p, ''config.json'']" "rootfs = path_join [repo_out p, ''rootfs'']"
      by auto
    obtain st where st: "StoreImage now repo ref bundlep cfg rootfs (d_ilm d) = Inr st" by (simp add: StoreImage_def Let_def)
    let ?d = "d\<lparr>d_host := h2\<rparr>"
    have "ilm_do (upd (StoreImage now repo ref bundlep cfg rootfs)) ?d = (Inr (), ?d\<lparr>d_ilm := st\<rparr>)"
      using access_ok [of ?d "upd (StoreImage now repo ref bundlep cfg rootfs)" d_ilm "()" st d_ilm_update] io st
      by (simp add: upd_def io_ok_def)
    then have "Pull env par d = (Inr (), ?d\<lparr>d_ilm := st\<rparr>)"
      using arch x Inr y t by (simp add: Pull_def Let_def on_host_def Now_def)
    then have "r = Inr ()" "d_ilm d' = st" using run by auto
    moreover have "parseImageRef (sp_Image par) = Inr (repo, ref)" using same_image_name [OF names] p by simp
    ultimately show ?thesis
      using p pull_paths StoreImage_find [OF st]
      by (auto simp: GetBundlePath_def GetConfigPath_def GetRootfsPath_def Let_def intro!: exI [of _ repo] exI [of _ ref])
  qed
qed

definition demo_image_env :: "(string \<rightharpoonup> string) image_env" where
  "demo_image_env = \<lparr>im_hub = demo_hub,
     im_config_json = (\<lambda>b. Inr \<lparr>if_Config = \<lparr>ic_Env = [''A=1''], ic_Cmd = [''sh''], ic_Entrypoint = [], ic_WorkingDir = '''', ic_User = ''''\<rparr>\<rparr>),
     im_not_exist = (\<lambda>e. e = Err ''missing''), im_GOOS = ''linux'', im_GOARCH = ''amd64'', im_walk = (\<lambda>p h. []), im_now = (\<lambda>h. (7, h))\<rparr>"

lemma demo_pull: "\<exists>h. PullImage demo_hub \<lparr>rp_Image = ''web'', rp_Os = ''linux'', rp_Arch = ''amd64''\<rparr> (\<lambda>_. None) =
  (Inr (''library/web'', ''latest'', ''/etc/raind/image/layers/library/web/latest'', ''/etc/raind/image/layers/library/web/latest/config.json'',
     ''/etc/raind/image/layers/library/web/latest/rootfs''), h)"
proof -
  have parse: "hub_parseImageRef ''web'' = Inr \<lparr>ref_registry = ''registry-1.docker.io'', ref_repository = ''library/web'', ref_reference = ''latest''\<rparr>"
    by (simp add: hub_parseImageRef_def)
  have out: "repo_out \<lparr>ref_registry = ''registry-1.docker.io'', ref_repository = ''library/web'', ref_reference = ''latest''\<rparr> =
      ''/etc/raind/image/layers/library/web/latest''"
    by (simp add: repo_out_def storeRepository_def path_join_def path_clean_def has_prefix_def)
  have paths: "path_join [''/etc/raind/image/layers/library/web/latest'', ''config.json''] = ''/etc/raind/image/layers/library/web/latest/config.json''"
    "path_join [''/etc/raind/image/layers/library/web/latest'', ''rootfs''] = ''/etc/raind/image/layers/library/web/latest/rootfs''"
    by (simp_all add: path_join_def path_clean_def has_prefix_def)
  define b where "b = blob_path ''/etc/raind/image/layers/library/web/latest'' ''sha256:cba''"
  have blob: "downloadBlobVerified demo_hub ref '''' ''sha256:cba'' p h = (Inr (), h(p \<mapsto> ''abc''))" for ref p h
    by (simp add: downloadBlobVerified_def demo_hub_def file_os_def has_prefix_def ignore_def body_text_def auth_header_def Let_def)
  have copy: "h b \<noteq> None \<Longrightarrow> \<exists>h'. copyFile demo_hub b p h = (Inr (), h')" for p h
    by (auto simp: copyFile_def demo_hub_def file_os_def)
  have challenge: "getBearerChallenge demo_hub reg h = (Inr ('''', ''''), h)" for reg h
    by (simp add: getBearerChallenge_def demo_hub_def)
  have manifest: "fetchManifest demo_hub ref '''' h = (Inr (''abc'', ''application/vnd.oci.image.manifest.v1+json''), h)" for ref h
    by (simp add: fetchManifest_def demo_hub_def Let_def)
  have dirs: "createOutputDirectory demo_hub p h = (Inr (), h)" for p h
    by (simp add: createOutputDirectory_def demo_hub_def file_os_def)
  have store: "\<exists>h'. storeManifest demo_hub p ''abc'' n h = (Inr (), h')" for p n h
    by (simp add: storeManifest_def demo_hub_def file_os_def)
  have nolist: "\<not> isManifestListMediaType ''application/vnd.oci.image.manifest.v1+json''"
    by (simp add: isManifestListMediaType_def to_lower_def trim_space_def is_space_def lower_char_def Let_def)
  have single: "parseSingleManifest demo_hub ''abc'' = Inr \<lparr>sm_Config = \<lparr>mp_Size = 3, mp_Digest = ''sha256:cba''\<rparr>, sm_Layers = [\<lparr>mp_Size = 3, mp_Digest = ''sha256:cba''\<rparr>]\<rparr>"
    by (simp add: parseSingleManifest_def demo_hub_def)
  have layers: "applyLayers (hub_os demo_hub) p bs h = (Inr (), h)" for p bs h
  proof -
    have "apply_layers (hub_os demo_hub) p i bs h = (Inr (), h)" for i
      by (induction bs arbitrary: i) (simp_all add: applyOneLayer_def demo_hub_def file_os_def wrap_err_def)
    then show ?thesis by (simp add: applyLayers_def)
  qed
  obtain h1 where h1: "storeManifest demo_hub ''/etc/raind/image/layers/library/web/latest'' ''abc'' ''manifest.json'' (\<lambda>_. None) = (Inr (), h1)"
    using store by blast
  obtain h2 where h2: "copyFile demo_hub b ''/etc/raind/image/layers/library/web/latest/config.json'' (h1(b \<mapsto> ''abc'')) = (Inr (), h2)"
    using copy [of "h1(b \<mapsto> ''abc'')"] by auto
  show ?thesis
    by (simp add: PullImage_def parse out paths dirs challenge manifest h1 nolist single blob b_def [symmetric] h2 layers
        storeRepository_def Let_def del: fun_upd_apply)
qed

theorem pulled_image_found_witness:
  "\<exists>d'. Pull demo_image_env \<lparr>sp_Image = ''web'', sp_Os = '''', sp_Arch = ''''\<rparr> (demo_daemon npm_initial (\<lambda>_. None)) = (Inr (), d') \<and>
     GetRootfsPath ''library/web'' ''latest'' (d_ilm d') = Inr ''/etc/raind/image/layers/library/web/latest/rootfs''"
proof -
  let ?d = "demo_daemon npm_initial (\<lambda>_. None) :: (string \<rightharpoonup> string) daemon" and ?par = "\<lparr>sp_Image = ''web'', sp_Os = '''', sp_Arch = ''''\<rparr>"
  obtain r d' where run: "Pull demo_image_env ?par ?d = (r, d')" by fastforce
  have hub: "hub_parseImageRef ''web'' = Inr \<lparr>ref_registry = ''registry-1.docker.io'', ref_repository = ''library/web'', ref_reference = ''latest''\<rparr>"
    by (simp add: hub_parseImageRef_def)
  have parse: "parseImageRef ''web'' = Inr (''library/web'', ''latest'')" by (simp add: parseImageRef_def split_n2_def)
  have out: "path_join [repo_out \<lparr>ref_registry = ''registry-1.docker.io'', ref_repository = ''library/web'', ref_reference = ''latest''\<rparr>, ''rootfs''] =
      ''/etc/raind/image/layers/library/web/latest/rootfs''"
    by (simp add: repo_out_def storeRepository_def path_join_def path_clean_def has_prefix_def)
  obtain h where "PullImage demo_hub \<lparr>rp_Image = ''web'', rp_Os = ''linux'', rp_Arch = ''amd64''\<rparr> (\<lambda>_. None) =
    (Inr (''library/web'', ''latest'', ''/etc/raind/image/layers/library/web/latest'', ''/etc/raind/image/layers/library/web/latest/config.json'',
     ''/etc/raind/image/layers/library/web/latest/rootfs''), h)" using demo_pull by blast
  then have "is_ok r" using run
    by (simp add: Pull_def demo_image_env_def HostArch_def on_host_def Now_def access_def store_access_simps upd_def StoreImage_def Let_def
        split: prod.splits) (auto simp: demo_daemon_def store_access_simps StoreImage_def Let_def)
  then have "r = Inr ()" by (cases r) auto
  moreover have "tag_last ''web''" "\<not> hub_short (bare_name ''web'')" by (simp_all add: tag_last_def hub_short_def bare_name_def)
  moreover have "io_ok ?d" by simp
  ultimately show ?thesis using pulled_image_found [of ?d ?par demo_image_env r d'] run parse hub out by auto
qed

end
