(* ===== verification/Runtime.thy ===== *)
theory Runtime
  imports Image_Service
begin

text \<open>
  What the container services need of the machine beside the stores, and the handler of the container
  runtime \<open>droplet\<close> (\<open>src/internal/runtime/droplet/handler.go\<close>).  \<open>droplet\<close> calls the hooks of
  the daemon while it runs, so a runtime command acts on the whole daemon.
\<close>

text \<open>
  \<open>w_run\<close> runs \<open>ip\<close> and \<open>iptables\<close>; \<open>w_droplet\<close> runs \<open>droplet\<close> and \<open>nsenter\<close> and gives
  the combined output with the error of \<open>CombinedOutput\<close>; \<open>w_busy\<close> tells \<open>EBUSY\<close> errors;
  \<open>w_rand n\<close> is \<open>rand.Int(rand.Reader, n)\<close>; \<open>w_ulid\<close> is \<open>utils.NewUlid\<close>; \<open>w_quote\<close> is
  \<open>shellescape.Quote\<close>; \<open>w_sleep\<close> is what happens to the daemon while a goroutine sleeps.
\<close>

record 'h world =
  w_run :: "'h runner"
  w_droplet :: "command \<Rightarrow> 'h daemon \<Rightarrow> (string \<times> error option) \<times> 'h daemon"
  w_image :: "'h image_env"
  w_busy :: "error \<Rightarrow> bool"
  w_rand :: "nat \<Rightarrow> (nat, 'h) act"
  w_ulid :: "'h \<Rightarrow> string \<times> 'h"
  w_quote :: "string \<Rightarrow> string"
  w_sleep :: "'h daemon \<Rightarrow> 'h daemon"

abbreviation w_os :: "'h world \<Rightarrow> 'h os" where
  "w_os w \<equiv> im_os (w_image w)"

abbreviation w_now :: "'h world \<Rightarrow> (time, 'h daemon) act" where
  "w_now w \<equiv> Now (im_now (w_image w))"

abbreviation fs_do :: "'h world \<Rightarrow> os_call \<Rightarrow> (unit, 'h daemon) act" where
  "fs_do w c \<equiv> on_host (os_do (w_os w) c)"

text \<open>\<open>os.Stat(path)\<close> succeeds.\<close>

definition path_exists :: "'h world \<Rightarrow> string \<Rightarrow> 'h \<Rightarrow> bool" where
  "path_exists w path h = (os_stat (w_os w) path h \<in> {Stat_dir, Stat_other})"

subsection \<open>The handler\<close>

record SpecModel =
  s_Rootfs :: string
  s_Cwd :: string
  s_Command :: string
  s_Namespace :: "string list"
  s_NSPath :: "string list"
  s_Hostname :: string
  s_Env :: "string list"
  s_Mount :: "string list"
  s_HostInterface :: string
  s_BridgeInterface :: string
  s_ContainerInterface :: string
  s_ContainerInterfaceAddr :: string
  s_ContainerGateway :: string
  s_ContainerDns :: "string list"
  s_ImageLayer :: "string list"
  s_UpperDir :: string
  s_WorkDir :: string
  s_CreateRuntimeHook :: "string list"
  s_CreateRuntimeHookEnv :: "string list"
  s_CreateContainerHook :: "string list"
  s_CreateContainerHookEnv :: "string list"
  s_StartContainerHook :: "string list"
  s_StartContainerHookEnv :: "string list"
  s_PoststartHook :: "string list"
  s_PoststartHookEnv :: "string list"
  s_StopContainerHook :: "string list"
  s_StopContainerHookEnv :: "string list"
  s_PoststopHook :: "string list"
  s_PoststopHookEnv :: "string list"
  s_Output :: string

text \<open>The command with the error text built from its output.\<close>

definition droplet_run :: "'h world \<Rightarrow> string \<Rightarrow> command \<Rightarrow> (unit, 'h daemon) act" where
  "droplet_run w what cmd d =
     (case w_droplet w cmd d of
        ((out, None), d') \<Rightarrow> (Inr (), d')
      | ((out, Some e), d') \<Rightarrow>
          (Inl (Err (''droplet '' @ what @ '' failed: '' @ (let msg = trim_space out in if msg = [] then [] else msg @ '': '') @ err_text e)), d'))"

definition flag_args :: "string \<Rightarrow> string list \<Rightarrow> string list" where
  "flag_args flag vs = concat (map (\<lambda>v. [flag, v]) vs)"

definition droplet_Spec :: "'h world \<Rightarrow> SpecModel \<Rightarrow> (unit, 'h daemon) act" where
  "droplet_Spec w s = droplet_run w ''spec'' (
     [''droplet'', ''spec'', ''--rootfs'', s_Rootfs s, ''--cwd'', s_Cwd s, ''--command'', s_Command s, ''--hostname'', s_Hostname s,
      ''--host_if_name'', s_HostInterface s, ''--bridge_if_name'', s_BridgeInterface s, ''--if_name'', s_ContainerInterface s,
      ''--if_addr'', s_ContainerInterfaceAddr s, ''--if_gateway'', s_ContainerGateway s, ''--upper_dir'', s_UpperDir s,
      ''--work_dir'', s_WorkDir s, ''--output'', s_Output s] @
     flag_args ''--ns'' (s_Namespace s) @ flag_args ''--ns-path'' (s_NSPath s) @ flag_args ''--env'' (s_Env s) @
     flag_args ''--mount'' (s_Mount s) @ flag_args ''--dns'' (s_ContainerDns s) @ flag_args ''--image_layer'' (s_ImageLayer s) @
     flag_args ''--hook-create-runtime'' (s_CreateRuntimeHook s) @ flag_args ''--hook-create-runtime-env'' (s_CreateRuntimeHookEnv s) @
     flag_args ''--hook-create-container'' (s_CreateContainerHook s) @ flag_args ''--hook-create-container-env'' (s_CreateContainerHookEnv s) @
     flag_args ''--hook-start-container'' (s_StartContainerHook s) @ flag_args ''--hook-start-container-env'' (s_StartContainerHookEnv s) @
     flag_args ''--hook-poststart'' (s_PoststartHook s) @ flag_args ''--hook-poststart-env'' (s_PoststartHookEnv s) @
     flag_args ''--hook-stop-container'' (s_StopContainerHook s) @ flag_args ''--hook-stop-container-env'' (s_StopContainerHookEnv s) @
     flag_args ''--hook-poststop'' (s_PoststopHook s) @ flag_args ''--hook-poststop-env'' (s_PoststopHookEnv s))"

definition droplet_Create :: "'h world \<Rightarrow> string \<Rightarrow> bool \<Rightarrow> int \<Rightarrow> (unit, 'h daemon) act" where
  "droplet_Create w containerId tty podPid =
     (let create = [''create''] @ (if tty then [''-t''] else []) @ [containerId] in
      if podPid \<le> 0 then droplet_run w ''create'' (''droplet'' # create)
      else droplet_run w ''create'' ([''nsenter'', ''-t'', itoa podPid, ''-U'', ''--'', ''droplet''] @ create))"

definition droplet_Start :: "'h world \<Rightarrow> string \<Rightarrow> (unit, 'h daemon) act" where
  "droplet_Start w containerId = droplet_run w ''start'' [''droplet'', ''start'', containerId]"

definition droplet_Delete :: "'h world \<Rightarrow> string \<Rightarrow> (unit, 'h daemon) act" where
  "droplet_Delete w containerId = droplet_run w ''delete'' [''droplet'', ''delete'', containerId]"

definition droplet_Stop :: "'h world \<Rightarrow> string \<Rightarrow> (unit, 'h daemon) act" where
  "droplet_Stop w containerId = droplet_run w ''stop'' [''droplet'', ''kill'', containerId]"

definition droplet_Exec :: "'h world \<Rightarrow> string \<Rightarrow> bool \<Rightarrow> string list \<Rightarrow> (unit, 'h daemon) act" where
  "droplet_Exec w containerId tty entrypoint =
     droplet_run w ''exec'' ([''droplet'', ''exec''] @ (if tty then [''-t''] else []) @ [containerId] @ entrypoint)"

subsection \<open>Random names and identifiers (utils)\<close>

definition adjectives :: "string list" where
  "adjectives = [''hot'', ''cold'', ''clean'', ''soft'', ''hard'', ''high'', ''low'', ''fast'', ''slow'', ''calm'', ''angular'', ''circular'',
     ''convex'', ''curved'', ''flat'', ''narrow'', ''round'']"

definition nouns :: "string list" where
  "nouns = [''theorem'', ''proof'', ''formula'', ''axis'', ''angle'', ''radius'', ''tangent'', ''catenary'', ''bezier'', ''spline'',
     ''hilbert'', ''clothoid'', ''sine'', ''cosine'', ''tangent'']"

definition pick :: "'a list \<Rightarrow> nat \<Rightarrow> ('a, 's) act" where
  "pick xs i = (if i < length xs then ret (xs ! i) else fail (Panic ''index out of range''))"

definition GenerateRandName :: "'h world \<Rightarrow> (string, 'h daemon) act" where
  "GenerateRandName w =
     bnd (on_host (w_rand w (length adjectives))) (\<lambda>ai.
     bnd (on_host (w_rand w (length nouns))) (\<lambda>ni.
     bnd (on_host (w_rand w 10000)) (\<lambda>suffix.
     bnd (pick adjectives ai) (\<lambda>a.
     bnd (pick nouns ni) (\<lambda>n.
       ret (a @ ''-'' @ n @ ''-'' @ replicate (4 - length (dec suffix)) (CHR ''0'') @ dec suffix))))))"

definition NewUlid :: "'h world \<Rightarrow> (string, 'h daemon) act" where
  "NewUlid w = on_host (\<lambda>h. case w_ulid w h of (u, h') \<Rightarrow> (Inr u, h'))"

end
