(* ===== verification/Container.thy ===== *)
theory Container
  imports Runtime Network
begin

text \<open>
  The container service (\<open>src/internal/core/container\<close>): creating, starting, stopping and deleting
  containers.  It drives the image service, the address store, the container and pod stores, the
  network service and the container runtime, and undoes its steps when a creation fails.
\<close>

subsection \<open>Data (model.go)\<close>

record ServiceCreateModel =
  sc_Image :: string
  sc_Os :: string
  sc_Arch :: string
  sc_Command :: "string list"
  sc_Port :: "string list"
  sc_Mount :: "string list"
  sc_Env :: "string list"
  sc_Network :: string
  sc_Tty :: bool
  sc_Name :: string
  sc_BottleId :: string
  sc_PodId :: string
  sc_IsPodInfra :: bool

record svc_ForwardInfo =
  sf_HostPort :: int
  sf_ContainerPort :: int
  sf_Protocol :: string

record svc_ContainerState =
  st_ContainerId :: string
  st_Name :: string
  st_PodId :: string
  st_State :: string
  st_Pid :: int
  st_Repository :: string
  st_Reference :: string
  st_Command :: "string list"
  st_Address :: string
  st_Forwards :: "svc_ForwardInfo list"
  st_CreatingAt :: time
  st_CreatedAt :: time
  st_StartedAt :: time
  st_StoppedAt :: time

record RollbackFlag =
  AllocateAddr :: bool
  CSMEntry :: bool
  DirectoryEnv :: bool
  CgroupEntry :: bool
  ForwardRule :: bool

definition no_flags :: RollbackFlag where
  "no_flags = \<lparr>AllocateAddr = False, CSMEntry = False, DirectoryEnv = False, CgroupEntry = False, ForwardRule = False\<rparr>"

text \<open>The paths of \<open>utils/paths.go\<close> that are used here.\<close>

abbreviation ContainerRootDir :: string where "ContainerRootDir \<equiv> ''/etc/raind/container''"
abbreviation CgroupRuntimeDir :: string where "CgroupRuntimeDir \<equiv> ''/sys/fs/cgroup/raind''"
abbreviation PodInfraContainerNamePrefix :: string where "PodInfraContainerNamePrefix \<equiv> ''condenser-pod-infra-''"

definition zero_container :: ContainerInfo where
  "zero_container = \<lparr>c_ContainerId = '''', c_ContainerName = '''', c_PodId = '''', c_SpiffeId = '''', c_State = '''', c_Pid = 0, c_ExitCode = 0,
     c_Reason = '''', c_Message = '''', c_LogPath = '''', c_Tty = False, c_Repository = '''', c_Reference = '''', c_Command = [],
     c_BottleId = '''', c_CreatingAt = 0, c_CreatedAt = 0, c_StartedAt = 0, c_StoppedAt = 0, c_FinishedAt = 0, c_Labels = [],
     c_Annotaions = [], c_Attemp = 0\<rparr>"

subsection \<open>Resolving a container (csm.go, two accesses)\<close>

definition csm_ResolveContainerId :: "string \<Rightarrow> (string, 'h daemon) act" where
  "csm_ResolveContainerId str =
     bnd (attempt (csm_do (query (GetContainerIdByName str)))) (\<lambda>r.
       case r of
         Inr containerId \<Rightarrow> ret containerId
       | Inl _ \<Rightarrow> seq (csm_do (query (GetContainerById str))) (ret str))"

text \<open>The error of the resolution is replaced by the services.\<close>

definition resolve_container :: "string \<Rightarrow> (string, 'h daemon) act" where
  "resolve_container target =
     bnd (attempt (csm_ResolveContainerId target)) (\<lambda>r.
       case r of Inr i \<Rightarrow> ret i | Inl _ \<Rightarrow> fail (Err (''container: '' @ target @ '' not found'')))"

text \<open>\<open>containerInfo, err := s.csmHandler.GetContainerById(containerId)\<close> with \<open>err\<close> not looked at.\<close>

definition container_info :: "string \<Rightarrow> (ContainerInfo, 'h daemon) act" where
  "container_info containerId = or_zero zero_container (csm_do (query (GetContainerById containerId)))"

definition getContainerState :: "string \<Rightarrow> (string, 'h daemon) act" where
  "getContainerState containerId = bnd (csm_do (query (GetContainerById containerId))) (\<lambda>c. ret (c_State c))"

definition bottle_error :: "string \<Rightarrow> string \<Rightarrow> string \<Rightarrow> string \<Rightarrow> error" where
  "bottle_error what cmd containerId bottleId =
     Err (what @ '' of container: '' @ containerId @ '' is not supported as it's managed by bottle: '' @ bottleId @
       [CHR ''.'', newline] @ ''use 'raind bottle '' @ cmd @ '' <bottle-id|bottle-name>''@ [CHR 0x27])"

subsection \<open>Namespaces of a pod\<close>

definition nsPathExists :: "'h world \<Rightarrow> string \<Rightarrow> 'h daemon \<Rightarrow> bool" where
  "nsPathExists w path d = (path \<noteq> [] \<and> path_exists w path (d_host d))"

definition podNamespacesPopulated :: "PodInfo \<Rightarrow> bool" where
  "podNamespacesPopulated p = (p_UserNS p \<noteq> [] \<or> p_NetworkNS p \<noteq> [] \<or> p_IPCNS p \<noteq> [] \<or> p_UTSNS p \<noteq> [])"

definition podNamespacesReady :: "'h world \<Rightarrow> PodInfo \<Rightarrow> 'h daemon \<Rightarrow> bool" where
  "podNamespacesReady w p d =
     (if p_UserNS p = [] \<or> p_NetworkNS p = [] \<or> p_IPCNS p = [] \<or> p_UTSNS p = [] then False
      else nsPathExists w (p_NetworkNS p) d \<and> nsPathExists w (p_IPCNS p) d \<and> nsPathExists w (p_UTSNS p) d \<and> nsPathExists w (p_UserNS p) d)"

definition podInfraName :: "string \<Rightarrow> string" where
  "podInfraName podId = PodInfraContainerNamePrefix @ take 12 podId"

definition isPodInfraName :: "string \<Rightarrow> string \<Rightarrow> bool" where
  "isPodInfraName name podId = (has_prefix name PodInfraContainerNamePrefix \<or> name = podInfraName podId)"

definition buildPodContainerName :: "string \<Rightarrow> string \<Rightarrow> string" where
  "buildPodContainerName baseName podId =
     (if podId = [] then baseName else baseName @ ''-'' @ (if length podId > 8 then drop (length podId - 8) podId else podId))"

subsection \<open>The runtime (service_create.go, service_start.go)\<close>

definition createContainer :: "'h world \<Rightarrow> string \<Rightarrow> bool \<Rightarrow> (unit, 'h daemon) act" where
  "createContainer w containerId tty = droplet_Create w containerId tty 0"

definition joinContainer :: "'h world \<Rightarrow> string \<Rightarrow> bool \<Rightarrow> string \<Rightarrow> (unit, 'h daemon) act" where
  "joinContainer w containerId tty podId =
     bnd (psm_do (query (GetPodOwnerPid podId))) (\<lambda>podOwner d.
       if podOwner \<le> 0 \<or> \<not> nsPathExists w (''/proc/'' @ itoa podOwner @ ''/ns/user'') d
       then seq (ignore (psm_do (upd (ResetPodNamespaces podId)))) (createContainer w containerId tty) d
       else droplet_Create w containerId tty podOwner d)"

definition startContainer :: "'h world \<Rightarrow> string \<Rightarrow> (unit, 'h daemon) act" where
  "startContainer w containerId = droplet_Start w containerId"

subsection \<open>Starting and stopping (service_start.go, service_stop.go)\<close>

definition Start :: "'h world \<Rightarrow> string \<Rightarrow> bool \<Rightarrow> bool \<Rightarrow> (string, 'h daemon) act" where
  "Start w target tty opBottle =
     bnd (resolve_container target) (\<lambda>containerId.
     bnd (container_info containerId) (\<lambda>info.
       if c_BottleId info \<noteq> [] \<and> \<not> opBottle then fail (bottle_error ''direct operation'' ''start'' target (c_BottleId info))
       else seq
        (if c_State info = ''created'' then wrap_err ''start container failed: '' (startContainer w containerId)
         else if c_State info = ''running'' then fail (Err (''container: '' @ containerId @ '' already started''))
         else if c_State info = ''stopped'' then
           bnd (csm_do (query (GetContainerById containerId))) (\<lambda>info.
             seq (wrap_err ''start container failed: ''
                   (if c_PodId info \<noteq> [] then joinContainer w containerId (c_Tty info) (c_PodId info)
                    else createContainer w containerId (c_Tty info)))
                 (wrap_err ''start container failed: '' (startContainer w containerId)))
         else fail (Err (''start operation not allowed to current container status: '' @ c_State info)))
        (ret containerId)))"

definition stopContainer :: "'h world \<Rightarrow> string \<Rightarrow> (unit, 'h daemon) act" where
  "stopContainer w containerId = droplet_Stop w containerId"

definition Stop :: "'h world \<Rightarrow> string \<Rightarrow> bool \<Rightarrow> (string, 'h daemon) act" where
  "Stop w target opBottle =
     bnd (resolve_container target) (\<lambda>containerId.
     bnd (container_info containerId) (\<lambda>info.
       if c_BottleId info \<noteq> [] \<and> \<not> opBottle then fail (bottle_error ''direct operation'' ''stop'' target (c_BottleId info))
       else if c_State info = ''running'' then
         seq (wrap_err ''stop failed: '' (stopContainer w containerId))
        (seq (if c_PodId info \<noteq> [] \<and> \<not> has_prefix (c_ContainerName info) PodInfraContainerNamePrefix
              then bnd (w_now w) (\<lambda>now. ignore (psm_do (upd (UpdatePod now (c_PodId info) ''degraded'')))) else ret ())
             (ret containerId))
       else fail (Err (''stop operation not allowed to current container status: '' @ c_State info))))"

subsection \<open>Deleting (service_delete.go)\<close>

definition deleteContainer :: "'h world \<Rightarrow> string \<Rightarrow> (unit, 'h daemon) act" where
  "deleteContainer w containerId = droplet_Delete w containerId"

definition cleanupForwardRules :: "'h world \<Rightarrow> string \<Rightarrow> (unit, 'h daemon) act" where
  "cleanupForwardRules w containerId =
     bnd (ipam_do (query (GetForwardInfo containerId))) (\<lambda>forwards.
       for_each (\<lambda>f. RemoveForwardingRule (w_run w) containerId
         \<lparr>sn_HostPort = itoa (HostPort f), sn_ContainerPort = itoa (ContainerPort f), sn_Protocol = Protocol f\<rparr>) forwards)"

definition releaseAddress :: "string \<Rightarrow> (unit, 'h daemon) act" where
  "releaseAddress containerId = ipam_do (upd (Release containerId))"

definition deleteContainerDirectory :: "'h world \<Rightarrow> string \<Rightarrow> (unit, 'h daemon) act" where
  "deleteContainerDirectory w containerId = fs_do w (Os_RemoveAll (path_join [ContainerRootDir, containerId]))"

definition deleteCgroupSubtree :: "'h world \<Rightarrow> string \<Rightarrow> (unit, 'h daemon) act" where
  "deleteCgroupSubtree w containerId = fs_do w (Os_Remove (path_join [CgroupRuntimeDir, containerId]))"

definition Delete :: "'h world \<Rightarrow> string \<Rightarrow> bool \<Rightarrow> (string, 'h daemon) act" where
  "Delete w target opBottle =
     bnd (resolve_container target) (\<lambda>containerId.
     bnd (container_info containerId) (\<lambda>info.
       if c_BottleId info \<noteq> [] \<and> \<not> opBottle then fail (bottle_error ''direct delete operation'' ''rm'' target (c_BottleId info))
       else if c_State info \<in> {''creating'', ''created'', ''stopped''} then
         seq (wrap_err ''delete container failed: '' (deleteContainer w containerId))
        (seq (wrap_err ''cleanup forward rule failed: '' (cleanupForwardRules w containerId))
        (seq (wrap_err ''release address failed: '' (releaseAddress containerId))
        (seq (wrap_err ''delete container directory failed: '' (deleteContainerDirectory w containerId))
        (seq (wrap_err ''delete cgroup subtree failed: '' (deleteCgroupSubtree w containerId))
             (ret containerId)))))
       else fail (Err (''delete operation not allowed to current container status: '' @ c_State info))))"

definition Exec :: "'h world \<Rightarrow> string \<Rightarrow> bool \<Rightarrow> string list \<Rightarrow> (unit, 'h daemon) act" where
  "Exec w target tty entrypoint =
     bnd (resolve_container target) (\<lambda>containerId. droplet_Exec w containerId tty entrypoint)"

definition GetContainerLogPath :: "string \<Rightarrow> (string, 'h daemon) act" where
  "GetContainerLogPath target =
     bnd (resolve_container target) (\<lambda>containerId. csm_do (query (GetLogPath containerId)))"

subsection \<open>Listing (service_list.go)\<close>

definition forward_list :: "ForwardInfo list \<Rightarrow> svc_ForwardInfo list" where
  "forward_list fs = map (\<lambda>f. \<lparr>sf_HostPort = HostPort f, sf_ContainerPort = ContainerPort f, sf_Protocol = Protocol f\<rparr>) fs"

text \<open>The loops over the pools and their allocations: the address is the last one found, the forwards
  of all of them are collected.\<close>

definition container_network :: "Pool list \<Rightarrow> string \<Rightarrow> string \<times> svc_ForwardInfo list" where
  "container_network poolList containerId =
     (let hits = concat (map (\<lambda>p. filter (\<lambda>(addr, a). ContainerId a = containerId) (allocs p)) poolList) in
      (if hits = [] then '''' else fst (last hits), concat (map (\<lambda>(addr, a). forward_list (Forwards a)) hits)))"

definition container_state :: "ContainerInfo \<Rightarrow> string \<Rightarrow> string \<Rightarrow> svc_ForwardInfo list \<Rightarrow> svc_ContainerState" where
  "container_state c name address forwards =
     \<lparr>st_ContainerId = c_ContainerId c, st_Name = name, st_PodId = c_PodId c, st_State = c_State c, st_Pid = c_Pid c,
      st_Repository = c_Repository c, st_Reference = c_Reference c, st_Command = c_Command c, st_Address = address,
      st_Forwards = forwards, st_CreatingAt = c_CreatingAt c, st_CreatedAt = c_CreatedAt c, st_StartedAt = c_StartedAt c,
      st_StoppedAt = c_StoppedAt c\<rparr>"

definition buildContainerStateList :: "ContainerInfo list \<Rightarrow> (svc_ContainerState list, 'h daemon) act" where
  "buildContainerStateList containerList =
     bnd (ipam_do (query GetPoolList)) (\<lambda>poolList.
       ret (map (\<lambda>c. let (address, forwards) = container_network poolList (c_ContainerId c)
                     in container_state c (c_ContainerName c) address forwards) containerList))"

definition svc_GetContainerList :: "(svc_ContainerState list, 'h daemon) act" where
  "svc_GetContainerList = bnd (csm_do (query GetContainerList)) buildContainerStateList"

definition svc_GetContainersByPodId :: "string \<Rightarrow> (svc_ContainerState list, 'h daemon) act" where
  "svc_GetContainersByPodId podId = bnd (csm_do (query (GetContainersByPodId podId))) buildContainerStateList"

text \<open>The state of one container; the code leaves its name empty.\<close>

definition svc_GetContainerById :: "string \<Rightarrow> (svc_ContainerState, 'h daemon) act" where
  "svc_GetContainerById containerId =
     bnd (csm_do (query (GetContainerById containerId))) (\<lambda>c.
     bnd (ipam_do (query (GetNetworkInfoById containerId))) (\<lambda>(address, a).
       ret (container_state c '''' address (forward_list (Forwards a)))))"

subsection \<open>Creating (service_create.go)\<close>

definition isNotFoundErr :: "error \<Rightarrow> bool" where
  "isNotFoundErr e = str_contains (to_lower (err_text e)) ''not found''"

text \<open>Errors that say the thing is gone already, or that the directory is busy, are passed over.\<close>

definition rollback_entry :: "string \<Rightarrow> (unit, 'h daemon) act" where
  "rollback_entry containerId =
     bnd (attempt (csm_do (upd (RemoveContainer containerId)))) (\<lambda>r.
       case r of Inl e \<Rightarrow> if isNotFoundErr e then ret () else fail e | Inr _ \<Rightarrow> ret ())"

definition rollback_cgroup :: "'h world \<Rightarrow> string \<Rightarrow> (unit, 'h daemon) act" where
  "rollback_cgroup w containerId =
     bnd (attempt (deleteCgroupSubtree w containerId)) (\<lambda>r.
       case r of Inl e \<Rightarrow> if \<not> isNotFoundErr e \<and> \<not> w_busy w e then fail e else ret () | Inr _ \<Rightarrow> ret ())"

definition rollback :: "'h world \<Rightarrow> RollbackFlag \<Rightarrow> string \<Rightarrow> (unit, 'h daemon) act" where
  "rollback w f containerId =
     seq (if AllocateAddr f then releaseAddress containerId else ret ())
    (seq (if CSMEntry f then rollback_entry containerId else ret ())
    (seq (if DirectoryEnv f then deleteContainerDirectory w containerId else ret ())
    (seq (if CgroupEntry f then rollback_cgroup w containerId else ret ())
         (if ForwardRule f then cleanupForwardRules w containerId else ret ()))))"

text \<open>The loop tries at most eleven names.\<close>

primrec gen_name :: "'h world \<Rightarrow> nat \<Rightarrow> (string, 'h daemon) act" where
  "gen_name w 0 =
     bnd (GenerateRandName w) (\<lambda>randName.
     bnd (or_zero False (csm_do (query (\<lambda>cs. Inr (IsNameAlreadyUsed randName cs))))) (\<lambda>used.
       if \<not> used then ret randName else fail (Err ''cannot assign random name'')))"
| "gen_name w (Suc k) =
     bnd (GenerateRandName w) (\<lambda>randName.
     bnd (or_zero False (csm_do (query (\<lambda>cs. Inr (IsNameAlreadyUsed randName cs))))) (\<lambda>used.
       if \<not> used then ret randName else gen_name w k))"

definition generateContainerName :: "'h world \<Rightarrow> (string, 'h daemon) act" where
  "generateContainerName w = gen_name w 10"

text \<open>Both platform variables stay empty when the caller gives a value.\<close>

definition pullImage :: "'h world \<Rightarrow> string \<Rightarrow> string \<Rightarrow> string \<Rightarrow> (unit, 'h daemon) act" where
  "pullImage w targetImage os arch =
     (let targetOs = (if os = [] then im_GOOS (w_image w) else '''') in
      bnd (if arch = [] then lift_res (HostArch (im_GOARCH (w_image w))) else ret '''') (\<lambda>targetArch.
        Pull (w_image w) \<lparr>sp_Image = targetImage, sp_Os = targetOs, sp_Arch = targetArch\<rparr>))"

definition setupContainerDirectory :: "'h world \<Rightarrow> string \<Rightarrow> (unit, 'h daemon) act" where
  "setupContainerDirectory w containerId =
     (let containerDir = path_join [ContainerRootDir, containerId] in
      for_each (\<lambda>dir. fs_do w (Os_MkdirAll dir mode755))
        (containerDir # map (\<lambda>s. path_join [containerDir, s]) [''diff'', ''work'', ''merged'', ''etc'', ''logs'', ''cert'']))"

definition setupEtcFiles :: "'h world \<Rightarrow> string \<Rightarrow> string \<Rightarrow> string \<Rightarrow> (unit, 'h daemon) act" where
  "setupEtcFiles w containerId containerAddr containerGateway =
     (let etcDir = path_join [ContainerRootDir, containerId, ''etc''];
          hostsData = ''127.0.0.1 localhost'' @ [newline] @ (split_n2 (CHR ''/'') containerAddr ! 0) @ '' '' @ containerId @ [newline];
          gw = (if containerGateway = [] then ''8.8.8.8'' else containerGateway) in
      seq (fs_do w (Os_WriteFile (path_join [etcDir, ''hosts'']) hostsData 420))
     (seq (fs_do w (Os_WriteFile (path_join [etcDir, ''hostname'']) (containerId @ [newline]) 420))
          (fs_do w (Os_WriteFile (path_join [etcDir, ''resolv.conf'']) (''nameserver '' @ gw @ [newline]) 420))))"

definition setupCgroupSubtree :: "'h world \<Rightarrow> string \<Rightarrow> (unit, 'h daemon) act" where
  "setupCgroupSubtree w containerId = fs_do w (Os_MkdirAll (path_join [CgroupRuntimeDir, containerId]) mode755)"

definition ChangeCgroupMode :: "'h world \<Rightarrow> string \<Rightarrow> (unit, 'h daemon) act" where
  "ChangeCgroupMode w containerId = fs_do w (Os_Chmod (path_join [CgroupRuntimeDir, containerId]) 365)"

definition allocateAddress :: "'h world \<Rightarrow> string \<Rightarrow> string \<Rightarrow> (string \<times> string, 'h daemon) act" where
  "allocateAddress w containerId bridgeInterface =
     bnd (w_now w) (\<lambda>now.
     bnd (ipam_do (Allocate now containerId bridgeInterface)) (\<lambda>addr.
     bnd (ipam_do (query (GetBridgeAddr bridgeInterface))) (\<lambda>gateway.
       ret (hd (split_on (CHR ''/'') gateway), addr @ ''/24''))))"

definition buildCommand :: "'h world \<Rightarrow> string list \<Rightarrow> string list \<Rightarrow> string" where
  "buildCommand w entrypoint cmd = str_join '' '' (map (w_quote w) (entrypoint @ cmd))"

definition hook_command :: "string \<Rightarrow> string \<Rightarrow> string \<Rightarrow> string \<Rightarrow> string" where
  "hook_command url event cert key =
     str_join '','' [''/usr/local/bin/condenser-hook-agent'', ''--url'', url, ''--event'', event, ''--ca'', ''/etc/raind/cert/raind.crt'',
       ''--cert'', cert, ''--key'', key]"

text \<open>The namespaces of the specification; stale namespace paths of a pod are reset.\<close>

definition spec_namespaces :: "'h world \<Rightarrow> string \<Rightarrow> (string list \<times> string list, 'h daemon) act" where
  "spec_namespaces w podId =
     (let own = ([''mount'', ''network'', ''uts'', ''pid'', ''ipc'', ''user'', ''cgroup''], []) in
      if podId = [] then ret own
      else bnd (psm_do (query (GetPodById podId))) (\<lambda>p d.
        if p_UserNS p \<noteq> [] \<and> p_NetworkNS p \<noteq> [] \<and> p_IPCNS p \<noteq> [] \<and> p_UTSNS p \<noteq> []
        then (if \<not> nsPathExists w (p_NetworkNS p) d \<or> \<not> nsPathExists w (p_IPCNS p) d \<or> \<not> nsPathExists w (p_UTSNS p) d \<or>
                 \<not> nsPathExists w (p_UserNS p) d
              then seq (ignore (psm_do (upd (ResetPodNamespaces podId)))) (ret own) d
              else ret ([''mount'', ''pid'', ''cgroup''], [''network='' @ p_NetworkNS p, ''ipc='' @ p_IPCNS p, ''uts='' @ p_UTSNS p]) d)
        else ret own d))"

definition createContainerSpec ::
  "'h world \<Rightarrow> string \<Rightarrow> ServiceCreateModel \<Rightarrow> string \<Rightarrow> string \<Rightarrow> ImageConfigFile \<Rightarrow> string \<Rightarrow> string \<Rightarrow> string \<Rightarrow> string \<Rightarrow>
   (unit, 'h daemon) act" where
  "createContainerSpec w containerId p imageRepo imageRef imageConfig bridge containerAddr containerGateway podId =
     (let cfg = if_Config imageConfig; dir = path_join [ContainerRootDir, containerId];
          cmd = (if sc_Command p \<noteq> [] then buildCommand w (sc_Command p) [] else buildCommand w (ic_Entrypoint cfg) (ic_Cmd cfg));
          cert = path_join [ContainerRootDir, containerId, ''/cert/client.crt''];
          key = path_join [ContainerRootDir, containerId, ''/cert/client.key''] in
      bnd (spec_namespaces w podId) (\<lambda>(namespace, nspath).
      bnd (if podId = [] then ret containerId
           else if length podId < 12 then fail (Panic ''slice bounds out of range'') else ret (take 12 podId)) (\<lambda>hostname.
      bnd (ipam_do (query GetDefaultInterface)) (\<lambda>hostInterface.
      bnd (ilm_do (query (GetRootfsPath imageRepo imageRef))) (\<lambda>imageLayer.
      bnd (ipam_do (query GetDefaultInterfaceAddr)) (\<lambda>hookAddr0.
      let hookAddr = hd (split_on (CHR ''/'') hookAddr0);
          droplet = (\<lambda>event. hook_command (''https://'' @ hookAddr @ '':7756/v1/hooks/droplet'') event cert key);
          setter = ''RAIND-HOOK-SETTER=CONDENSER'' in
      droplet_Spec w
        \<lparr>s_Rootfs = path_join [ContainerRootDir, containerId, ''merged''],
         s_Cwd = (if ic_WorkingDir cfg = [] then ''/'' else ic_WorkingDir cfg), s_Command = cmd,
         s_Namespace = namespace, s_NSPath = nspath, s_Hostname = hostname, s_Env = ic_Env cfg @ sc_Env p, s_Mount = sc_Mount p,
         s_HostInterface = hostInterface, s_BridgeInterface = bridge, s_ContainerInterface = ''rd_'' @ containerId,
         s_ContainerInterfaceAddr = containerAddr, s_ContainerGateway = containerGateway, s_ContainerDns = [''8.8.8.8''],
         s_ImageLayer = [imageLayer], s_UpperDir = path_join [ContainerRootDir, containerId, ''diff''],
         s_WorkDir = path_join [ContainerRootDir, containerId, ''work''],
         s_CreateRuntimeHook = [hook_command ''https://localhost:7757/v1/pki/sign'' ''requestCert'' ''/etc/raind/cert/raindHookClient.crt''
             ''/etc/raind/cert/raindHookClient.key'', droplet ''createRuntime''],
         s_CreateRuntimeHookEnv = [setter, setter], s_CreateContainerHook = [droplet ''createContainer''],
         s_CreateContainerHookEnv = [setter], s_StartContainerHook = [], s_StartContainerHookEnv = [],
         s_PoststartHook = [droplet ''poststart''], s_PoststartHookEnv = [setter],
         s_StopContainerHook = [droplet ''stopContainer''], s_StopContainerHookEnv = [setter],
         s_PoststopHook = [droplet ''poststop''], s_PoststopHookEnv = [setter], s_Output = dir\<rparr>))))))"

text \<open>\<open>host:container\<close> or \<open>host:container:protocol\<close>.\<close>

definition parse_port :: "string \<Rightarrow> ServiceNetworkModel result" where
  "parse_port port =
     (case split_on (CHR '':'') port of
        [sport, dport] \<Rightarrow> Inr \<lparr>sn_HostPort = sport, sn_ContainerPort = dport, sn_Protocol = ''tcp''\<rparr>
      | [sport, dport, protocol] \<Rightarrow> Inr \<lparr>sn_HostPort = sport, sn_ContainerPort = dport, sn_Protocol = protocol\<rparr>
      | _ \<Rightarrow> Inl (Err (''port format failed: '' @ port)))"

definition setupForwardRule :: "'h world \<Rightarrow> string \<Rightarrow> string list \<Rightarrow> (unit, 'h daemon) act" where
  "setupForwardRule w containerId ports =
     for_each (\<lambda>port.
       bnd (lift_res (parse_port port)) (\<lambda>p.
       seq (CreateForwardingRule (w_run w) containerId p)
           (ipam_do (upd (SetForwardInfo containerId (atoi (sn_HostPort p)) (atoi (sn_ContainerPort p)) (sn_Protocol p)))))) ports"

text \<open>\<open>s.ilmHandler.IsImageExist\<close>, with \<open>os.Stat\<close> on the host.\<close>

definition image_exists :: "'h world \<Rightarrow> string \<Rightarrow> string \<Rightarrow> (bool, 'h daemon) act" where
  "image_exists w repo ref d =
     or_zero False (ilm_do (query (\<lambda>st. Inr (IsImageExist (\<lambda>p. path_exists w p (d_host d)) repo ref st)))) d"

definition pod_owner :: "string \<Rightarrow> (bool, 'h daemon) act" where
  "pod_owner podId = (if podId = [] then ret False else or_zero False (psm_do (query (\<lambda>st. Inr (IsPodOwner podId st)))))"

definition log_path :: "string \<Rightarrow> bool \<Rightarrow> string" where
  "log_path containerId tty = path_join [ContainerRootDir, containerId, ''logs'', if tty then ''console.log'' else ''init.log'']"

text \<open>Steps 2 to 5: the image and the address; the last result tells whether an address was allocated.\<close>

definition create_resources ::
  "'h world \<Rightarrow> ServiceCreateModel \<Rightarrow> string \<Rightarrow> (string \<times> string \<times> ImageConfigFile \<times> string \<times> string \<times> bool, 'h daemon) act" where
  "create_resources w p containerId =
     bnd (lift_res (parseImageRef (sc_Image p))) (\<lambda>(imageRepo, imageRef).
     bnd (image_exists w imageRepo imageRef) (\<lambda>here.
     seq (if here then ret () else pullImage w (sc_Image p) (sc_Os p) (sc_Arch p))
    (bnd (ilm_do (query (GetConfigPath imageRepo imageRef))) (\<lambda>imageConfigPath.
     bnd (GetImageConfig (w_image w) imageConfigPath) (\<lambda>imageConfig.
     bnd (if sc_PodId p = [] then ret True else pod_owner (sc_PodId p)) (\<lambda>own.
     bnd (if own then allocateAddress w containerId (if sc_Network p = [] then ''raind0'' else sc_Network p) else ret ('''', ''''))
       (\<lambda>(gateway, addr). ret (imageRepo, imageRef, imageConfig, gateway, addr, own))))))))"

definition create_entry :: "'h world \<Rightarrow> ServiceCreateModel \<Rightarrow> string \<Rightarrow> string \<Rightarrow> string \<Rightarrow> string \<Rightarrow> ImageConfigFile \<Rightarrow> (unit, 'h daemon) act" where
  "create_entry w p containerId containerName imageRepo imageRef imageConfig =
     (let command = (if sc_Command p \<noteq> [] then sc_Command p else ic_Entrypoint (if_Config imageConfig) @ ic_Cmd (if_Config imageConfig)) in
      bnd (w_now w) (\<lambda>now.
        csm_do (upd (StoreContainer now containerId ''creating'' 0 (sc_Tty p) imageRepo imageRef command containerName (sc_BottleId p)
          (log_path containerId (sc_Tty p)) (sc_PodId p)))))"

text \<open>Step 12 and the pod's template.\<close>

definition create_finish :: "'h world \<Rightarrow> ServiceCreateModel \<Rightarrow> string \<Rightarrow> string \<Rightarrow> (unit, 'h daemon) act" where
  "create_finish w p containerId containerName =
     bnd (if sc_PodId p = [] then ret True else pod_owner (sc_PodId p)) (\<lambda>own.
     seq (wrap_err ''create container failed: ''
           (if own then createContainer w containerId (sc_Tty p) else joinContainer w containerId (sc_Tty p) (sc_PodId p)))
         (if sc_PodId p \<noteq> [] \<and> \<not> sc_IsPodInfra p
          then psm_do (upd (AddContainerToPodTemplate (sc_PodId p)
            \<lparr>ct_Name = (if sc_Name p = [] then containerName else sc_Name p), ct_Image = sc_Image p, ct_Command = sc_Command p,
             ct_Port = sc_Port p, ct_Mount = sc_Mount p, ct_Env = sc_Env p, ct_Network = sc_Network p, ct_Tty = sc_Tty p\<rparr>))
          else ret ()))"

definition container_name :: "'h world \<Rightarrow> ServiceCreateModel \<Rightarrow> (string, 'h daemon) act" where
  "container_name w p =
     (let name = (if sc_Name p \<noteq> [] \<and> sc_PodId p \<noteq> [] \<and> \<not> sc_IsPodInfra p then buildPodContainerName (sc_Name p) (sc_PodId p) else sc_Name p) in
      if name = [] then generateContainerName w
      else bnd (or_zero False (csm_do (query (\<lambda>cs. Inr (IsNameAlreadyUsed name cs))))) (\<lambda>used.
        if used then fail (Err (''name: '' @ name @ '' already used by other container'')) else ret name))"

text \<open>\<open>Create\<close> after \<open>ensurePodInfra\<close>.  Each group of steps runs under the deferred rollback with the
  flags that are set when the group starts.\<close>

definition create_steps :: "'h world \<Rightarrow> ServiceCreateModel \<Rightarrow> string \<Rightarrow> string \<Rightarrow> (string, 'h daemon) act" where
  "create_steps w p containerId containerName =
     (let guarded = (\<lambda>f m. with_rollback m (rollback w f containerId)); network = (if sc_Network p = [] then ''raind0'' else sc_Network p);
          forwards = (sc_PodId p = [] \<or> sc_IsPodInfra p) in
      bnd (with_rollback (create_resources w p containerId) (rollback w no_flags containerId))
        (\<lambda>(imageRepo, imageRef, imageConfig, gateway, addr, own).
      let f1 = no_flags\<lparr>AllocateAddr := own\<rparr>; f2 = f1\<lparr>CSMEntry := True\<rparr>; f3 = f2\<lparr>DirectoryEnv := True\<rparr>; f4 = f3\<lparr>CgroupEntry := True\<rparr>;
          f5 = f4\<lparr>ForwardRule := forwards\<rparr> in
      seq (guarded f1 (create_entry w p containerId containerName imageRepo imageRef imageConfig))
     (seq (guarded f2 (wrap_err ''create container directory failed: '' (setupContainerDirectory w containerId)))
     (seq (guarded f3 (seq (wrap_err ''setup etc files failed: '' (setupEtcFiles w containerId addr gateway))
                           (wrap_err ''setup cgroup subtree failed: '' (setupCgroupSubtree w containerId))))
     (seq (guarded f4 (seq (wrap_err ''create spec failed: ''
                              (createContainerSpec w containerId p imageRepo imageRef imageConfig network addr gateway (sc_PodId p)))
                           (if forwards then wrap_err ''forward rule failed: '' (setupForwardRule w containerId (sc_Port p)) else ret ())))
     (seq (guarded f5 (create_finish w p containerId containerName))
          (ret containerId)))))))"

definition create_body :: "'h world \<Rightarrow> ServiceCreateModel \<Rightarrow> (string, 'h daemon) act" where
  "create_body w p =
     bnd (NewUlid w) (\<lambda>u.
       if length u < 12 then fail (Panic ''slice bounds out of range'')
       else bnd (container_name w p) (\<lambda>containerName. create_steps w p (take 12 u) containerName))"

subsection \<open>The infrastructure container of a pod\<close>

definition findPodInfraContainer :: "string \<Rightarrow> (svc_ContainerState, 'h daemon) act" where
  "findPodInfraContainer podId =
     bnd (svc_GetContainersByPodId podId) (\<lambda>containers.
       case List.find (\<lambda>c. isPodInfraName (st_Name c) podId) containers of
         Some c \<Rightarrow> ret c
       | None \<Rightarrow> fail (Err ''pod infra not found''))"

text \<open>The loop looks fifty times and sleeps in between.\<close>

primrec wait_namespaces :: "'h world \<Rightarrow> string \<Rightarrow> nat \<Rightarrow> (unit, 'h daemon) act" where
  "wait_namespaces w podId 0 = fail (Err (''pod namespaces not ready: '' @ podId))"
| "wait_namespaces w podId (Suc n) =
     bnd (psm_do (query (GetPodById podId))) (\<lambda>p d.
       if podNamespacesReady w p d then (Inr (), d) else wait_namespaces w podId n (w_sleep w d))"

definition waitForPodNamespaces :: "'h world \<Rightarrow> string \<Rightarrow> (unit, 'h daemon) act" where
  "waitForPodNamespaces w podId = wait_namespaces w podId 50"

definition infra_params :: "string \<Rightarrow> string \<Rightarrow> ServiceCreateModel" where
  "infra_params podId network =
     \<lparr>sc_Image = ''registry.k8s.io/pause:3.9'', sc_Os = '''', sc_Arch = '''', sc_Command = [], sc_Port = [], sc_Mount = [], sc_Env = [],
      sc_Network = network, sc_Tty = False, sc_Name = podInfraName podId, sc_BottleId = '''', sc_PodId = podId, sc_IsPodInfra = True\<rparr>"

text \<open>The inner call of \<open>Create\<close> is for the infrastructure container, which has none of its own.\<close>

definition ensurePodInfra :: "'h world \<Rightarrow> string \<Rightarrow> string \<Rightarrow> (unit, 'h daemon) act" where
  "ensurePodInfra w podId network =
     bnd (psm_do (query (GetPodById podId))) (\<lambda>podInfo d.
       if podNamespacesReady w podInfo d then (Inr (), d)
       else
        (seq (if podNamespacesPopulated podInfo then ignore (psm_do (upd (ResetPodNamespaces podId))) else ret ())
        (bnd (attempt (findPodInfraContainer podId)) (\<lambda>r.
         seq (case r of
                Inr infra \<Rightarrow>
                  seq (if st_State infra = ''running'' then ignore (Stop w (st_ContainerId infra) False) else ret ())
                      (ignore (Delete w (st_ContainerId infra) False))
              | Inl _ \<Rightarrow> ret ())
        (bnd (create_body w (infra_params podId network)) (\<lambda>infraId.
         bnd (attempt (Start w infraId False False)) (\<lambda>started.
           case started of
             Inl e \<Rightarrow> seq (ignore (Delete w infraId False)) (fail e)
           | Inr _ \<Rightarrow> waitForPodNamespaces w podId)))))) d)"

definition Create :: "'h world \<Rightarrow> ServiceCreateModel \<Rightarrow> (string, 'h daemon) act" where
  "Create w p =
     seq (if sc_PodId p \<noteq> [] \<and> \<not> sc_IsPodInfra p then ensurePodInfra w (sc_PodId p) (sc_Network p) else ret ())
         (create_body w p)"

end
