(* ===== verification/Container_Facts.thy ===== *)
theory Container_Facts
  imports Container
begin

text \<open>
  The creation of a container is all or nothing in the stores, its life cycle refuses what the state
  of a container does not allow, and lists report the address a container holds.
\<close>

subsection \<open>Conditions on the address store and the container store\<close>

definition stores_ok :: "(IpamState \<Rightarrow> ContainerState \<Rightarrow> bool) \<Rightarrow> 'h daemon \<Rightarrow> bool" where
  "stores_ok R d \<longleftrightarrow> io_ok d \<and> R (d_ipam d) (d_csm d)"

lemma access_stores:
  "stable (stores_ok R) (ilm_do f)" "stable (stores_ok R) (psm_do g)"
  "stable (stores_ok R) (ipam_do (query i))" "stable (stores_ok R) (csm_do (query j))"
  by (auto simp: stable_def stores_ok_def access_def store_access_simps io_ok_def query_def split: sum.splits prod.splits)

lemma host_stores: "stable (stores_ok R) (on_host m)"
  by (auto simp: stable_def stores_ok_def on_host_def split: prod.splits)

lemma now_stores: "stable (stores_ok R) (Now c)"
  unfolding Now_def by (rule host_stores)

lemmas store_intros = stable_intros access_stores host_stores now_stores stable_ignore


lemma stable_if_state: "stable P m \<Longrightarrow> stable P m' \<Longrightarrow> stable P (\<lambda>d. if b d then m d else m' d)"
  by (simp add: stable_def)

lemma pull_stores: "stable (stores_ok R) (Pull env par)"
  unfolding Pull_def Let_def by (intro store_intros)

lemma image_exists_stores: "stable (stores_ok R) (image_exists w repo ref)"
proof -
  have "stable (stores_ok R) (or_zero False (ilm_do (query (\<lambda>st. Inr (IsImageExist (\<lambda>p. path_exists w p h) repo ref st)))))" for h
    by (intro store_intros)
  then show ?thesis by (auto simp: stable_def image_exists_def)
qed

lemma resources_stores: "stable (stores_ok R) (pullImage w i os arch)" "stable (stores_ok R) (GetImageConfig env path)"
  "stable (stores_ok R) (pod_owner podId)" "stable (stores_ok R) (fs_do w c)"
  unfolding pullImage_def GetImageConfig_def pod_owner_def Let_def by (intro store_intros pull_stores)+

lemma forward_stores: "stable (stores_ok R) (CreateForwardingRule run i p)" "stable (stores_ok R) (RemoveForwardingRule run i p)"
  "stable (stores_ok R) (cleanupForwardRules w i)"
  unfolding CreateForwardingRule_def RemoveForwardingRule_def cleanupForwardRules_def by (intro store_intros)+

lemma directory_stores: "stable (stores_ok R) (setupContainerDirectory w i)" "stable (stores_ok R) (setupEtcFiles w i a g)"
  "stable (stores_ok R) (setupCgroupSubtree w i)" "stable (stores_ok R) (deleteContainerDirectory w i)"
  "stable (stores_ok R) (deleteCgroupSubtree w i)"
  unfolding setupContainerDirectory_def setupEtcFiles_def setupCgroupSubtree_def deleteContainerDirectory_def deleteCgroupSubtree_def Let_def
  by (intro store_intros)+

lemma spec_namespaces_stores: "stable (stores_ok R) (spec_namespaces w podId)"
  unfolding spec_namespaces_def Let_def by (intro store_intros stable_if_state)

subsection \<open>Before, during and after a creation\<close>

text \<open>
  The stores as they were, and the stores while a container is being created: it may have an entry
  and, when \<open>own\<close> names a network, holds exactly one new address there.
\<close>

type_synonym addresses = "string \<rightharpoonup> string \<times> Allocation"

definition clean :: "addresses \<Rightarrow> (string \<rightharpoonup> ContainerInfo) \<Rightarrow> IpamState \<Rightarrow> ContainerState \<Rightarrow> bool" where
  "clean V M ip cs \<longleftrightarrow> ipam_inv ip \<and> csm_inv cs \<and> alloc_view ip = V \<and> map_of (Containers cs) = M"

definition held ::
  "addresses \<Rightarrow> (string \<rightharpoonup> ContainerInfo) \<Rightarrow> string \<Rightarrow> string option \<Rightarrow> (ForwardInfo list \<Rightarrow> bool) \<Rightarrow> IpamState \<Rightarrow> ContainerState \<Rightarrow> bool" where
  "held V M cid own F ip cs \<longleftrightarrow> ipam_inv ip \<and> csm_inv cs \<and> (\<forall>j. j \<noteq> cid \<longrightarrow> map_of (Containers cs) j = M j) \<and>
     (case own of
        None \<Rightarrow> alloc_view ip = V
      | Some b \<Rightarrow> \<exists>a al. V a = None \<and> alloc_view ip = V(a \<mapsto> (b, al)) \<and> ContainerId al = cid \<and> F (Forwards al))"

definition fresh :: "addresses \<Rightarrow> (string \<rightharpoonup> ContainerInfo) \<Rightarrow> string \<Rightarrow> bool" where
  "fresh V M cid \<longleftrightarrow> (\<forall>a b al. V a = Some (b, al) \<longrightarrow> ContainerId al \<noteq> cid) \<and> M cid = None"

lemma held_mono: "held V M cid own F ip cs \<Longrightarrow> (\<And>fs. F fs \<Longrightarrow> G fs) \<Longrightarrow> held V M cid own G ip cs"
  by (fastforce simp: held_def split: option.splits)

lemma held_any: "stores_ok (held V M cid own F) d \<Longrightarrow> stores_ok (held V M cid own (\<lambda>_. True)) d"
  by (auto simp: stores_ok_def elim: held_mono)

lemma ipam_upd_step:
  "io_ok d \<Longrightarrow> f (d_ipam d) = Inr ip \<Longrightarrow> ipam_do (upd f) d = (Inr (), d\<lparr>d_ipam := ip\<rparr>)"
  "io_ok d \<Longrightarrow> f (d_ipam d) = Inl e \<Longrightarrow> ipam_do (upd f) d = (Inl e, d)"
  using access_ok [of d "upd f" d_ipam "()" ip d_ipam_update] access_error [of d "upd f" d_ipam e d_ipam_update]
  by (simp_all add: upd_def)

lemma csm_upd_step:
  "io_ok d \<Longrightarrow> g (d_csm d) = Inr cs \<Longrightarrow> csm_do (upd g) d = (Inr (), d\<lparr>d_csm := cs\<rparr>)"
  "io_ok d \<Longrightarrow> g (d_csm d) = Inl e \<Longrightarrow> csm_do (upd g) d = (Inl e, d)"
  using access_ok [of d "upd g" d_csm "()" cs d_csm_update] access_error [of d "upd g" d_csm e d_csm_update]
  by (simp_all add: upd_def)

lemma release_held:
  assumes "fresh V M cid" "stores_ok (held V M cid own F) d"
  obtains d' where "releaseAddress cid d = (Inr (), d')" "stores_ok (held V M cid None F) d'"
proof -
  have io: "io_ok d" and inv: "ipam_inv (d_ipam d)" using assms(2) by (auto simp: stores_ok_def held_def)
  obtain ip where r: "Release cid (d_ipam d) = Inr ip" by (simp add: Release_def)
  have "alloc_view ip = V"
    using Release_view [OF inv r] container_absent_view [OF inv, of cid] assms
    by (cases own) (auto simp: stores_ok_def held_def fresh_def fun_upd_idem split: if_splits)
  then have "stores_ok (held V M cid None F) (d\<lparr>d_ipam := ip\<rparr>)"
    using assms(2) Release_inv [OF inv r] by (simp add: stores_ok_def held_def)
  moreover have "releaseAddress cid d = (Inr (), d\<lparr>d_ipam := ip\<rparr>)"
    unfolding releaseAddress_def by (rule ipam_upd_step(1) [of d "Release cid", OF io r])
  ultimately show ?thesis using that by blast
qed

lemma to_lower_append: "to_lower (a @ b) = to_lower a @ to_lower b"
  by (simp add: to_lower_def)

lemma not_found_err: "isNotFoundErr (Err (s @ '' not found''))"
proof -
  have "to_lower '' not found'' = '' '' @ ''not found'' @ ''''" by (simp add: to_lower_def lower_char_def)
  then have "to_lower (s @ '' not found'') = (to_lower s @ '' '') @ ''not found'' @ ''''" by (simp add: to_lower_append)
  then show ?thesis unfolding isNotFoundErr_def err_text.simps str_contains_iff by blast
qed

lemma remove_entry:
  assumes "fresh V M cid" "stores_ok (held V M cid None F) d"
  obtains d' where "rollback_entry cid d = (Inr (), d')" "stores_ok (clean V M) d'"
proof -
  have io: "io_ok d" and inv: "csm_inv (d_csm d)" using assms(2) by (auto simp: stores_ok_def held_def)
  show ?thesis
  proof (cases "map_of (Containers (d_csm d)) cid")
    case None
    then have "RemoveContainer cid (d_csm d) = Inl (Err ((''containerId='' @ cid) @ '' not found''))"
      by (simp add: RemoveContainer_def csm_scan [OF inv])
    then have a: "attempt (csm_do (upd (RemoveContainer cid))) d = (Inr (Inl (Err ((''containerId='' @ cid) @ '' not found''))), d)"
      by (intro attempt_caught csm_upd_step io)
    have "map_of (Containers (d_csm d)) j = M j" for j
      using assms None by (cases "j = cid") (simp_all add: stores_ok_def held_def fresh_def)
    then have "stores_ok (clean V M) d" using assms(2) by (simp add: stores_ok_def held_def clean_def fun_eq_iff)
    moreover have "rollback_entry cid d = (Inr (), d)"
      unfolding rollback_entry_def bnd_def a by (simp only: prod.case sum.case not_found_err if_True ret_simp)
    ultimately show ?thesis using that by blast
  next
    case (Some c)
    let ?cs = "(d_csm d)\<lparr>Containers := mdel cid (Containers (d_csm d))\<rparr>"
    have r: "RemoveContainer cid (d_csm d) = Inr ?cs" using Some by (simp add: RemoveContainer_def csm_scan [OF inv])
    have "csm_inv ?cs" using csm_apply_inv [OF inv, of "Op_RemoveContainer cid"] r by simp
    moreover have "map_of (Containers ?cs) j = M j" for j
      using assms by (cases "j = cid") (simp_all add: stores_ok_def held_def fresh_def)
    then have "map_of (Containers ?cs) = M" by blast
    ultimately have "stores_ok (clean V M) (d\<lparr>d_csm := ?cs\<rparr>)" using assms(2) by (simp add: stores_ok_def held_def clean_def)
    moreover have "attempt (csm_do (upd (RemoveContainer cid))) d = (Inr (Inr ()), d\<lparr>d_csm := ?cs\<rparr>)"
      by (intro attempt_step csm_upd_step io r)
    ultimately show ?thesis using that by (simp add: rollback_entry_def)
  qed
qed

lemma rollback_clean:
  assumes "fresh V M cid" "stores_ok (held V M cid own F) d" "AllocateAddr f = (own \<noteq> None)" "CSMEntry f"
  shows "stores_ok (clean V M) (snd (rollback w f cid d))"
proof -
  define rest where "rest = seq (if DirectoryEnv f then deleteContainerDirectory w cid else ret ())
    (seq (if CgroupEntry f then rollback_cgroup w cid else ret ()) (if ForwardRule f then cleanupForwardRules w cid else ret ()))"
  have rest: "stable (stores_ok (clean V M)) rest"
    unfolding rest_def rollback_cgroup_def by (intro store_intros directory_stores forward_stores)
  obtain d1 where d1: "(if AllocateAddr f then releaseAddress cid else ret ()) d = (Inr (), d1)" "stores_ok (held V M cid None F) d1"
  proof (cases own)
    case None
    then show ?thesis using that [of d] assms(2,3) by simp
  next
    case (Some b)
    obtain d1 where "releaseAddress cid d = (Inr (), d1)" "stores_ok (held V M cid None F) d1" by (rule release_held [OF assms(1,2)])
    then show ?thesis using that [of d1] assms(3) Some by simp
  qed
  obtain d2 where d2: "rollback_entry cid d1 = (Inr (), d2)" "stores_ok (clean V M) d2"
    using remove_entry [OF assms(1) d1(2)] by blast
  have "rollback w f cid d = rest d2"
    unfolding rollback_def rest_def [symmetric] using d1(1) d2(1) assms(4) by simp
  with rest d2(2) show ?thesis by (simp add: stable_def)
qed

subsection \<open>The steps of a creation\<close>

lemma Allocate_bridge:
  assumes "ipam_inv st" "Allocate now cid bridge st = Inr (a, st')"
  shows "\<exists>g. GetBridgeAddr bridge st' = Inr g"
  using assms
proof (cases rule: Allocate_cases [where now = now and cid = cid and bridge = bridge])
  case (ok pre p post x y)
  then have "\<exists>q \<in> set (Pools st'). pl_Interface q = bridge" using assms(2) by auto
  then have "List.find (\<lambda>p. pl_Interface p = bridge) (Pools st') \<noteq> None" by (auto simp: find_None_iff)
  then show ?thesis by (auto simp: GetBridgeAddr_def)
qed auto

lemma allocate_held:
  assumes "stores_ok (clean V M) d" "fresh V M cid" "allocateAddress w cid b d = (r, d')"
  shows "case r of Inl e \<Rightarrow> stores_ok (clean V M) d' | Inr x \<Rightarrow> stores_ok (held V M cid (Some b) (\<lambda>fs. fs = [])) d'"
proof -
  obtain now d1 where n: "w_now w d = (Inr now, d1)"
    by (cases "im_now (w_image w) (d_host d)") (auto simp: Now_def on_host_def)
  have d1: "stores_ok (clean V M) d1" using stableD [OF now_stores n assms(1)] .
  then have io: "io_ok d1" and inv: "ipam_inv (d_ipam d1)" by (auto simp: stores_ok_def clean_def)
  show ?thesis
  proof (cases "Allocate now cid b (d_ipam d1)")
    case (Inl e)
    then have "ipam_do (Allocate now cid b) d1 = (Inl e, d1)"
      using access_error [of d1 "Allocate now cid b" d_ipam e d_ipam_update] io by simp
    then show ?thesis using assms(3) n d1 by (auto simp: allocateAddress_def)
  next
    case (Inr x)
    obtain a ip where x: "x = (a, ip)" by (cases x)
    note al = Inr [unfolded x]
    let ?d = "d1\<lparr>d_ipam := ip\<rparr>"
    have s: "ipam_do (Allocate now cid b) d1 = (Inr a, ?d)"
      using access_ok [of d1 "Allocate now cid b" d_ipam a ip d_ipam_update] io al by simp
    obtain g where "GetBridgeAddr b ip = Inr g" using Allocate_bridge [OF inv al] by blast
    then have "ipam_do (query (GetBridgeAddr b)) ?d = (Inr g, ?d)" using io by simp
    then have r: "is_ok r" "d' = ?d" using assms(3) n s by (auto simp: allocateAddress_def)
    have "stores_ok (held V M cid (Some b) (\<lambda>fs. fs = [])) ?d"
      using d1 Allocate_view [OF inv al] Allocate_inv [OF inv al]
      by (auto simp: stores_ok_def clean_def held_def intro!: exI [of _ a] exI [of _ "new_alloc now cid"])
    with r show ?thesis by (auto simp: is_ok_iff)
  qed
qed

definition net_of :: "ServiceCreateModel \<Rightarrow> string" where
  "net_of p = (if sc_Network p = [] then ''raind0'' else sc_Network p)"

lemma resources_held:
  assumes "stores_ok (clean V M) d" "fresh V M cid" "create_resources w p cid d = (r, d')"
  shows "case r of
      Inl e \<Rightarrow> stores_ok (clean V M) d'
    | Inr (repo, ref, cfg, gateway, addr, own) \<Rightarrow> (sc_PodId p = [] \<longrightarrow> own) \<and>
        stores_ok (held V M cid (if own then Some (net_of p) else None) (\<lambda>fs. fs = [])) d'"
proof -
  let ?P = "stores_ok (clean V M)"
  define alloc where "alloc = (\<lambda>(imageRepo :: string, imageRef :: string, imageConfig :: ImageConfigFile, own).
    bnd (if own then allocateAddress w cid (net_of p) else ret ('''', '''')) (\<lambda>(gateway, addr). ret (imageRepo, imageRef, imageConfig, gateway, addr, own)))"
  define first where "first =
     bnd (lift_res (parseImageRef (sc_Image p))) (\<lambda>(imageRepo, imageRef).
     bnd (image_exists w imageRepo imageRef) (\<lambda>here.
     seq (if here then ret () else pullImage w (sc_Image p) (sc_Os p) (sc_Arch p))
    (bnd (ilm_do (query (GetConfigPath imageRepo imageRef))) (\<lambda>imageConfigPath.
     bnd (GetImageConfig (w_image w) imageConfigPath) (\<lambda>imageConfig.
     bnd (if sc_PodId p = [] then ret True else pod_owner (sc_PodId p)) (\<lambda>own. ret (imageRepo, imageRef, imageConfig, own)))))))"
  have split: "create_resources w p cid d = bnd first alloc d" for d
    by (simp add: create_resources_def first_def alloc_def net_of_def seq_def bnd_def split: prod.splits sum.splits)
  have first: "stable ?P first"
    unfolding first_def by (intro store_intros image_exists_stores resources_stores)
  have own: "sc_PodId p = [] \<longrightarrow> own" if "first d = (Inr (a, b, c, own), d1)" for a b c own d1
    using that unfolding first_def by (auto simp: bnd_Inr seq_def)
  obtain x d1 where x: "first d = (x, d1)" by fastforce
  have d1: "?P d1" using stableD [OF first x assms(1)] .
  show ?thesis
  proof (cases x)
    case (Inl e)
    then show ?thesis using assms(3) x d1 split by auto
  next
    case (Inr y)
    obtain repo ref cfg own where y: "y = (repo, ref, cfg, own)" by (metis prod_cases4)
    have run: "alloc (repo, ref, cfg, own) d1 = (r, d')" using assms(3) x Inr y split by simp
    show ?thesis
    proof (cases own)
      case False
      have "stores_ok (held V M cid None (\<lambda>fs. fs = [])) d1" using d1 by (auto simp: stores_ok_def clean_def held_def)
      then show ?thesis using run False own [of repo ref cfg own d1] x Inr y by (auto simp: alloc_def)
    next
      case True
      obtain z d2 where z: "allocateAddress w cid (net_of p) d1 = (z, d2)" by fastforce
      from allocate_held [OF d1 assms(2) z] show ?thesis using run z True
        by (cases z) (auto simp: alloc_def bnd_def)
    qed
  qed
qed

text \<open>
  What is relied on of the container runtime: a command for a container, with the hooks it calls back,
  leaves the address store and the entries of all other containers as they are, and does not break
  the files.
\<close>

definition runtime_laws :: "'h world \<Rightarrow> string \<Rightarrow> bool" where
  "runtime_laws w cid \<longleftrightarrow> (\<forall>cmd d out d'. (cid \<in> set cmd \<or> take 2 cmd = [''droplet'', ''spec'']) \<and> w_droplet w cmd d = (out, d') \<and>
     io_ok d \<and> csm_inv (d_csm d) \<longrightarrow>
     io_ok d' \<and> d_ipam d' = d_ipam d \<and> csm_inv (d_csm d') \<and>
     (\<forall>j. j \<noteq> cid \<longrightarrow> map_of (Containers (d_csm d')) j = map_of (Containers (d_csm d)) j))"

lemma droplet_held:
  assumes "runtime_laws w cid" "cid \<in> set cmd \<or> take 2 cmd = [''droplet'', ''spec'']"
  shows "stable (stores_ok (held V M cid own F)) (droplet_run w what cmd)"
proof -
  have "stores_ok (held V M cid own F) d'" if "stores_ok (held V M cid own F) d" "w_droplet w cmd d = (out, d')" for d d' out
  proof -
    have d: "io_ok d" "csm_inv (d_csm d)" using that(1) by (auto simp: stores_ok_def held_def)
    have "io_ok d' \<and> d_ipam d' = d_ipam d \<and> csm_inv (d_csm d') \<and>
      (\<forall>j. j \<noteq> cid \<longrightarrow> map_of (Containers (d_csm d')) j = map_of (Containers (d_csm d)) j)"
      using assms that(2) d unfolding runtime_laws_def by blast
    then show ?thesis using that(1) by (simp add: stores_ok_def held_def)
  qed
  then show ?thesis by (auto simp: stable_def droplet_run_def split: prod.splits option.splits)
qed

lemma runtime_held:
  assumes "runtime_laws w cid"
  shows "stable (stores_ok (held V M cid own F)) (droplet_Spec w s)" "stable (stores_ok (held V M cid own F)) (droplet_Create w cid tty pid)"
  unfolding droplet_Spec_def droplet_Create_def Let_def
  by (intro stable_intros droplet_held [OF assms]; simp)+

lemma spec_held:
  assumes "runtime_laws w cid"
  shows "stable (stores_ok (held V M cid own F)) (createContainerSpec w cid p repo ref cfg b a g podId)"
  unfolding createContainerSpec_def Let_def
  by (intro store_intros spec_namespaces_stores runtime_held [OF assms])

lemma create_held:
  assumes "runtime_laws w cid"
  shows "stable (stores_ok (held V M cid own F)) (create_finish w p cid name)"
  unfolding create_finish_def createContainer_def joinContainer_def
  by (intro store_intros resources_stores stable_if_state runtime_held [OF assms])

lemma entry_held:
  assumes "stores_ok (held V M cid own F) d"
  obtains d' where "create_entry w p cid name repo ref cfg d = (Inr (), d')" "stores_ok (held V M cid own F) d'"
proof -
  obtain now d1 where n: "w_now w d = (Inr now, d1)"
    by (cases "im_now (w_image w) (d_host d)") (auto simp: Now_def on_host_def)
  have d1: "stores_ok (held V M cid own F) d1" using stableD [OF now_stores n assms] .
  define cmd where "cmd = (if sc_Command p \<noteq> [] then sc_Command p else ic_Entrypoint (if_Config cfg) @ ic_Cmd (if_Config cfg))"
  define op where "op = Op_StoreContainer now cid ''creating'' 0 (sc_Tty p) repo ref cmd name (sc_BottleId p) (log_path cid (sc_Tty p)) (sc_PodId p)"
  have io: "io_ok d1" and inv: "csm_inv (d_csm d1)" using d1 by (auto simp: stores_ok_def held_def)
  obtain cs where cs: "csm_apply op (d_csm d1) = Inr cs" by (simp add: op_def StoreContainer_def)
  have "map_of (Containers cs) j = map_of (Containers (d_csm d1)) j" if "j \<noteq> cid" for j
    using csm_view_other [OF inv cs, of j] that by (simp add: op_def)
  then have "stores_ok (held V M cid own F) (d1\<lparr>d_csm := cs\<rparr>)"
    using d1 csm_apply_inv [OF inv cs] by (simp add: stores_ok_def held_def)
  moreover have "csm_do (upd (csm_apply op)) d1 = (Inr (), d1\<lparr>d_csm := cs\<rparr>)"
    by (rule csm_upd_step(1) [of d1 "csm_apply op", OF io cs])
  then have "create_entry w p cid name repo ref cfg d = (Inr (), d1\<lparr>d_csm := cs\<rparr>)"
    using n by (simp add: create_entry_def Let_def op_def cmd_def)
  ultimately show ?thesis using that by blast
qed

text \<open>The forward a port stands for.\<close>

definition port_forward :: "string \<Rightarrow> ForwardInfo" where
  "port_forward port = (case parse_port port of
     Inr p \<Rightarrow> \<lparr>HostPort = atoi (sn_HostPort p), ContainerPort = atoi (sn_ContainerPort p), Protocol = sn_Protocol p\<rparr>
   | Inl _ \<Rightarrow> \<lparr>HostPort = 0, ContainerPort = 0, Protocol = ''''\<rparr>)"

lemma SetForwardInfo_view:
  assumes inv: "ipam_inv st" and V: "\<forall>x b al. V x = Some (b, al) \<longrightarrow> ContainerId al \<noteq> cid"
    and st: "alloc_view st = V(a \<mapsto> (b, al))" "ContainerId al = cid"
    and r: "SetForwardInfo cid sp dp pr st = Inr st'"
  shows "alloc_view st' = V(a \<mapsto> (b, al\<lparr>Forwards := Forwards al @ [\<lparr>HostPort = sp, ContainerPort = dp, Protocol = pr\<rparr>]\<rparr>))"
proof (cases rule: SetForwardInfo_pools_cases [of "Pools st" cid "\<lparr>HostPort = sp, ContainerPort = dp, Protocol = pr\<rparr>"])
  case none
  then show ?thesis using r by (simp add: SetForwardInfo_def)
next
  case (hit pre p post c cl)
  let ?fi = "\<lparr>HostPort = sp, ContainerPort = dp, Protocol = pr\<rparr>"
  have "alloc_view st c = Some (pl_Interface p, cl)" using hit by (auto simp: alloc_view_iff [OF inv])
  then have same: "c = a" "pl_Interface p = b" "cl = al" using st V hit(3) by (auto split: if_splits)
  have "pool_ok p" using inv hit(1) by (simp add: ipam_inv_def)
  then obtain m where m: "Allocations p = Some m" by (auto elim!: pool_okE)
  have st': "st' = st\<lparr>Pools := pre @ p\<lparr>Allocations := Some (mput c (cl\<lparr>Forwards := Forwards cl @ [?fi]\<rparr>) (allocs p))\<rparr> # post\<rparr>"
    using r hit(4) m by (simp add: SetForwardInfo_def allocs_def)
  from alloc_view_put [OF inv hit(1) this SetForwardInfo_inv [OF inv r]] show ?thesis using same st by simp
qed

lemma forward_step:
  assumes fr: "fresh V M cid" and d: "stores_ok (held V M cid own (\<lambda>fs. fs = gs)) d"
    and r: "bnd (lift_res (parse_port port)) (\<lambda>p. seq (CreateForwardingRule (w_run w) cid p)
       (ipam_do (upd (SetForwardInfo cid (atoi (sn_HostPort p)) (atoi (sn_ContainerPort p)) (sn_Protocol p))))) d = (r, d')"
  shows "case r of
      Inr u \<Rightarrow> stores_ok (held V M cid own (\<lambda>fs. fs = gs @ [port_forward port])) d'
    | Inl e \<Rightarrow> stores_ok (held V M cid own (\<lambda>fs. fs = gs)) d'"
proof (cases "parse_port port")
  case (Inl e)
  then show ?thesis using r d by auto
next
  case (Inr p)
  obtain x d1 where x: "CreateForwardingRule (w_run w) cid p d = (x, d1)" by fastforce
  have d1: "stores_ok (held V M cid own (\<lambda>fs. fs = gs)) d1" using stableD [OF forward_stores(1) x d] .
  have io: "io_ok d1" and inv: "ipam_inv (d_ipam d1)" using d1 by (auto simp: stores_ok_def held_def)
  show ?thesis
  proof (cases x)
    case (Inl e)
    then show ?thesis using r Inr x d1 by auto
  next
    case ok: (Inr u)
    let ?s = "SetForwardInfo cid (atoi (sn_HostPort p)) (atoi (sn_ContainerPort p)) (sn_Protocol p)"
    have run: "ipam_do (upd ?s) d1 = (r, d')" using r Inr x ok by simp
    show ?thesis
    proof (cases "?s (d_ipam d1)")
      case (Inl e)
      then have "r = Inl e" "d' = d1" using run ipam_upd_step(2) [of d1 ?s e, OF io Inl] by auto
      then show ?thesis using d1 by simp
    next
      case set: (Inr ip)
      then have r': "r = Inr ()" "d' = d1\<lparr>d_ipam := ip\<rparr>" using run ipam_upd_step(1) [of d1 ?s ip, OF io set] by auto
      have pf: "port_forward port = \<lparr>HostPort = atoi (sn_HostPort p), ContainerPort = atoi (sn_ContainerPort p), Protocol = sn_Protocol p\<rparr>"
        using Inr by (simp add: port_forward_def)
      have V: "\<forall>x b al. V x = Some (b, al) \<longrightarrow> ContainerId al \<noteq> cid" using fr by (auto simp: fresh_def)
      have inv': "ipam_inv ip" by (rule SetForwardInfo_inv [OF inv set])
      show ?thesis
      proof (cases own)
        case None
        then have "container_absent cid (d_ipam d1)" using d1 V container_absent_view [OF inv] by (auto simp: stores_ok_def held_def)
        then have False using set
          by (cases rule: SetForwardInfo_pools_cases [of "Pools (d_ipam d1)" cid
              "\<lparr>HostPort = atoi (sn_HostPort p), ContainerPort = atoi (sn_ContainerPort p), Protocol = sn_Protocol p\<rparr>"])
            (auto simp: SetForwardInfo_def container_absent_def)
        then show ?thesis ..
      next
        case (Some b)
        then obtain a al where al: "V a = None" "alloc_view (d_ipam d1) = V(a \<mapsto> (b, al))" "ContainerId al = cid" "Forwards al = gs"
          using d1 by (auto simp: stores_ok_def held_def)
        from SetForwardInfo_view [OF inv V al(2,3) set] al
        have "\<exists>a al. V a = None \<and> alloc_view ip = V(a \<mapsto> (b, al)) \<and> ContainerId al = cid \<and> Forwards al = gs @ [port_forward port]"
          unfolding pf by (intro exI [of _ a]) auto
        then have "stores_ok (held V M cid own (\<lambda>fs. fs = gs @ [port_forward port])) (d1\<lparr>d_ipam := ip\<rparr>)"
          using d1 inv' Some by (simp add: stores_ok_def held_def)
        then show ?thesis using r' by simp
      qed
    qed
  qed
qed

lemma forwards_held:
  assumes fr: "fresh V M cid"
  shows "stores_ok (held V M cid own (\<lambda>fs. fs = gs)) d \<Longrightarrow> setupForwardRule w cid ports d = (r, d') \<Longrightarrow>
    (case r of
       Inr u \<Rightarrow> stores_ok (held V M cid own (\<lambda>fs. fs = gs @ map port_forward ports)) d'
     | Inl e \<Rightarrow> stores_ok (held V M cid own (\<lambda>_. True)) d')"
proof (induction ports arbitrary: gs d)
  case Nil
  then show ?case by (auto simp: setupForwardRule_def)
next
  case (Cons port ports)
  define step where "step = (\<lambda>port. bnd (lift_res (parse_port port)) (\<lambda>p. seq (CreateForwardingRule (w_run w) cid p)
       (ipam_do (upd (SetForwardInfo cid (atoi (sn_HostPort p)) (atoi (sn_ContainerPort p)) (sn_Protocol p))))))"
  have sf: "setupForwardRule w cid ps = for_each step ps" for ps by (simp add: setupForwardRule_def step_def)
  obtain x d1 where x: "step port d = (x, d1)" by fastforce
  note st = forward_step [OF fr Cons.prems(1) x [unfolded step_def]]
  show ?case
  proof (cases x)
    case (Inl e)
    then show ?thesis using Cons.prems(2) x st by (auto simp: sf intro: held_any)
  next
    case (Inr u)
    then have "setupForwardRule w cid ports d1 = (r, d')" using Cons.prems(2) x by (simp add: sf)
    from Cons.IH [OF _ this, of "gs @ [port_forward port]"] show ?thesis using st Inr by (cases r) simp_all
  qed
qed

text \<open>A step under the deferred rollback, followed by the others: on an error the stores are clean.\<close>

lemma guarded_seq:
  assumes fr: "fresh V M cid" and f: "AllocateAddr f = (own \<noteq> None)" "CSMEntry f"
    and run: "seq (with_rollback m (rollback w f cid)) k d = (r, d')"
    and m: "\<And>r d'. m d = (r, d') \<Longrightarrow>
      case r of Inr u \<Rightarrow> stores_ok (held V M cid own G) d' | Inl _ \<Rightarrow> stores_ok (held V M cid own (\<lambda>_. True)) d'"
    and k: "\<And>d1. stores_ok (held V M cid own G) d1 \<Longrightarrow> k d1 = (r, d') \<Longrightarrow> Q r d'"
    and clean: "\<And>e d'. stores_ok (clean V M) d' \<Longrightarrow> Q (Inl (Err e)) d'" and panic: "\<And>s d'. Q (Inl (Panic s)) d'"
  shows "Q r d'"
proof -
  obtain x d1 where x: "m d = (x, d1)" by fastforce
  note post = m [OF x]
  show ?thesis
  proof (cases x)
    case (Inr u)
    then show ?thesis using k [of d1] post run x by simp
  next
    case (Inl e)
    then have "stores_ok (clean V M) (snd (rollback w f cid d1))" using post by (intro rollback_clean [OF fr _ f]) auto
    then show ?thesis using run x Inl clean panic
      by (cases e) (auto simp: seq_def bnd_def with_rollback_def split: sum.splits error.splits prod.splits, metis error.exhaust)
  qed
qed

lemma stable_post:
  assumes "\<And>F. stable (stores_ok (held V M cid own F)) m" "stores_ok (held V M cid own G) d" "m d = (r, d')"
  shows "case r of Inr u \<Rightarrow> stores_ok (held V M cid own G) d' | Inl _ \<Rightarrow> stores_ok (held V M cid own (\<lambda>_. True)) d'"
  using stableD [OF assms(1) assms(3,2)] by (auto intro: held_any split: sum.splits)

lemma spec_forwards_held:
  assumes fr: "fresh V M cid" and laws: "runtime_laws w cid" and d: "stores_ok (held V M cid own (\<lambda>fs. fs = [])) d"
    and run: "seq (wrap_err t (createContainerSpec w cid p repo ref cfg b a g podId))
      (if forwards then wrap_err t' (setupForwardRule w cid ports) else ret ()) d = (r, d')"
  shows "case r of
      Inr u \<Rightarrow> stores_ok (held V M cid own (\<lambda>fs. fs = (if forwards then map port_forward ports else []))) d'
    | Inl _ \<Rightarrow> stores_ok (held V M cid own (\<lambda>_. True)) d'"
proof -
  define sp where "sp = wrap_err t (createContainerSpec w cid p repo ref cfg b a g podId)"
  have sp: "stable (stores_ok (held V M cid own (\<lambda>fs. fs = []))) sp" unfolding sp_def by (intro stable_wrap spec_held [OF laws])
  obtain z e1 where z: "sp d = (z, e1)" by fastforce
  have e1: "stores_ok (held V M cid own (\<lambda>fs. fs = [])) e1" using stableD [OF sp z d] .
  show ?thesis
  proof (cases z)
    case (Inl _)
    then show ?thesis using run z held_any [OF e1] by (auto simp: sp_def [symmetric])
  next
    case (Inr _)
    obtain v e2 where v: "setupForwardRule w cid ports e1 = (v, e2)" by fastforce
    from forwards_held [OF fr e1 v] show ?thesis using run z Inr v e1
      by (cases v) (auto simp: sp_def [symmetric] wrap_err_def split: if_splits error.splits sum.splits)
  qed
qed

subsection \<open>A creation is all or nothing\<close>

definition created :: "addresses \<Rightarrow> (string \<rightharpoonup> ContainerInfo) \<Rightarrow> string \<Rightarrow> ServiceCreateModel \<Rightarrow> string result \<Rightarrow> 'h daemon \<Rightarrow> bool" where
  "created V M cid p r d' \<longleftrightarrow> (case r of
      Inr i \<Rightarrow> i = cid \<and> (\<exists>own. (sc_PodId p = [] \<longrightarrow> own = Some (net_of p)) \<and>
        stores_ok (held V M cid own (\<lambda>fs. fs = (if sc_PodId p = [] \<or> sc_IsPodInfra p then map port_forward (sc_Port p) else []))) d')
    | Inl (Err e) \<Rightarrow> stores_ok (clean V M) d'
    | Inl (Panic s) \<Rightarrow> True)"

lemma created_error: "stores_ok (clean V M) d' \<Longrightarrow> created V M cid p (Inl (Err e)) d'" "created V M cid p (Inl (Panic s)) d'"
  by (simp_all add: created_def)

text \<open>The last four groups of steps, from the last one to the first.\<close>

definition flags_for :: "string option \<Rightarrow> RollbackFlag \<Rightarrow> bool" where
  "flags_for own f \<longleftrightarrow> AllocateAddr f = (own \<noteq> None) \<and> CSMEntry f"

definition own_for :: "ServiceCreateModel \<Rightarrow> string option \<Rightarrow> bool" where
  "own_for p own \<longleftrightarrow> (sc_PodId p = [] \<longrightarrow> own = Some (net_of p))"

abbreviation forwarded_ports :: "ServiceCreateModel \<Rightarrow> ForwardInfo list" where
  "forwarded_ports p \<equiv> (if sc_PodId p = [] \<or> sc_IsPodInfra p then map port_forward (sc_Port p) else [])"

definition stage5 where
  "stage5 w p cid name f = seq (with_rollback (create_finish w p cid name) (rollback w f cid)) (ret cid)"

lemma stage5_created:
  assumes fr: "fresh V M cid" and laws: "runtime_laws w cid" and "own_for p own" "flags_for own f"
    and d: "stores_ok (held V M cid own (\<lambda>fs. fs = forwarded_ports p)) d" and run: "stage5 w p cid name f d = (r, d')"
  shows "created V M cid p r d'"
proof (rule guarded_seq [OF fr _ _ run [unfolded stage5_def], where own = own and G = "\<lambda>fs. fs = forwarded_ports p"])
  show "AllocateAddr f = (own \<noteq> None)" "CSMEntry f" using assms(4) by (simp_all add: flags_for_def)
  show "case r of Inr u \<Rightarrow> stores_ok (held V M cid own (\<lambda>fs. fs = forwarded_ports p)) d' | Inl _ \<Rightarrow> stores_ok (held V M cid own (\<lambda>_. True)) d'"
    if "create_finish w p cid name d = (r, d')" for r d'
    by (rule stable_post [OF create_held [OF laws] d that])
  show "created V M cid p r d'" if "stores_ok (held V M cid own (\<lambda>fs. fs = forwarded_ports p)) d1" "ret cid d1 = (r, d')" for d1
    using that assms(3) by (auto simp: created_def own_for_def)
qed (simp_all add: created_error)

definition stage4 where
  "stage4 w p cid name f4 f5 repo ref cfg addr gateway =
     seq (with_rollback (seq (wrap_err ''create spec failed: '' (createContainerSpec w cid p repo ref cfg (net_of p) addr gateway (sc_PodId p)))
             (if sc_PodId p = [] \<or> sc_IsPodInfra p then wrap_err ''forward rule failed: '' (setupForwardRule w cid (sc_Port p)) else ret ())) (rollback w f4 cid))
         (stage5 w p cid name f5)"

lemma stage4_created:
  assumes fr: "fresh V M cid" and laws: "runtime_laws w cid" and "own_for p own" "flags_for own f4" "flags_for own f5"
    and d: "stores_ok (held V M cid own (\<lambda>fs. fs = [])) d" and run: "stage4 w p cid name f4 f5 repo ref cfg addr gateway d = (r, d')"
  shows "created V M cid p r d'"
  by (rule guarded_seq [OF fr _ _ run [unfolded stage4_def], where own = own and G = "\<lambda>fs. fs = forwarded_ports p"])
    (use assms(4) spec_forwards_held [OF fr laws d] stage5_created [OF fr laws assms(3,5)] in \<open>simp_all add: flags_for_def created_error\<close>)

definition stage3 where
  "stage3 w p cid name f3 f4 f5 repo ref cfg addr gateway =
     seq (with_rollback (seq (wrap_err ''setup etc files failed: '' (setupEtcFiles w cid addr gateway))
                             (wrap_err ''setup cgroup subtree failed: '' (setupCgroupSubtree w cid))) (rollback w f3 cid))
         (stage4 w p cid name f4 f5 repo ref cfg addr gateway)"

lemma stage3_created:
  assumes fr: "fresh V M cid" and laws: "runtime_laws w cid" and "own_for p own" "flags_for own f3" "flags_for own f4" "flags_for own f5"
    and d: "stores_ok (held V M cid own (\<lambda>fs. fs = [])) d" and run: "stage3 w p cid name f3 f4 f5 repo ref cfg addr gateway d = (r, d')"
  shows "created V M cid p r d'"
proof -
  have s: "stable (stores_ok (held V M cid own F)) (seq (wrap_err t (setupEtcFiles w cid addr gateway)) (wrap_err t' (setupCgroupSubtree w cid)))" for F t t'
    by (intro stable_intros directory_stores)
  show ?thesis
    by (rule guarded_seq [OF fr _ _ run [unfolded stage3_def], where own = own and G = "\<lambda>fs. fs = []"])
      (use assms(4) stable_post [OF s d] stage4_created [OF fr laws assms(3,5,6)] in \<open>simp_all add: flags_for_def created_error\<close>)
qed

definition stage2 where
  "stage2 w p cid name f2 f3 f4 f5 repo ref cfg addr gateway =
     seq (with_rollback (wrap_err ''create container directory failed: '' (setupContainerDirectory w cid)) (rollback w f2 cid))
         (stage3 w p cid name f3 f4 f5 repo ref cfg addr gateway)"

lemma stage2_created:
  assumes fr: "fresh V M cid" and laws: "runtime_laws w cid" and "own_for p own" "flags_for own f2" "flags_for own f3" "flags_for own f4" "flags_for own f5"
    and d: "stores_ok (held V M cid own (\<lambda>fs. fs = [])) d" and run: "stage2 w p cid name f2 f3 f4 f5 repo ref cfg addr gateway d = (r, d')"
  shows "created V M cid p r d'"
proof -
  have s: "stable (stores_ok (held V M cid own F)) (wrap_err t (setupContainerDirectory w cid))" for F t
    by (intro stable_intros directory_stores)
  show ?thesis
    by (rule guarded_seq [OF fr _ _ run [unfolded stage2_def], where own = own and G = "\<lambda>fs. fs = []"])
      (use assms(4) stable_post [OF s d] stage3_created [OF fr laws assms(3,5,6,7)] in \<open>simp_all add: flags_for_def created_error\<close>)
qed

lemma create_steps_created:
  assumes fr: "fresh V M cid" and laws: "runtime_laws w cid" and d: "stores_ok (clean V M) d"
    and run: "create_steps w p cid name d = (r, d')"
  shows "created V M cid p r d'"
proof -
  obtain x d1 where x: "create_resources w p cid d = (x, d1)" by fastforce
  note res = resources_held [OF d fr x]
  have none: "with_rollback (create_resources w p cid) (rollback w no_flags cid) d = (x, d1)"
    using x by (auto simp: with_rollback_def rollback_def no_flags_def split: sum.splits error.splits)
  show ?thesis
  proof (cases x)
    case (Inl e)
    then have "r = Inl e" "d' = d1" using run none by (auto simp: create_steps_def Let_def)
    then show ?thesis using res Inl by (cases e) (auto simp: created_def)
  next
    case (Inr y)
    obtain repo ref cfg gateway addr own where y: "y = (repo, ref, cfg, gateway, addr, own)" by (metis prod_cases6)
    define o' where "o' = (if own then Some (net_of p) else None)"
    have d1: "stores_ok (held V M cid o' (\<lambda>fs. fs = [])) d1" and ow: "own_for p o'" using res Inr y by (auto simp: o'_def own_for_def)
    define f2 where "f2 = no_flags\<lparr>AllocateAddr := own, CSMEntry := True\<rparr>"
    define f3 where "f3 = f2\<lparr>DirectoryEnv := True\<rparr>"
    define f4 where "f4 = f3\<lparr>CgroupEntry := True\<rparr>"
    define f5 where "f5 = f4\<lparr>ForwardRule := (sc_PodId p = [] \<or> sc_IsPodInfra p)\<rparr>"
    have fl: "flags_for o' f2" "flags_for o' f3" "flags_for o' f4" "flags_for o' f5"
      by (auto simp: flags_for_def f2_def f3_def f4_def f5_def o'_def no_flags_def)
    obtain d2 where d2: "create_entry w p cid name repo ref cfg d1 = (Inr (), d2)" "stores_ok (held V M cid o' (\<lambda>fs. fs = [])) d2"
      using entry_held [OF d1] by blast
    have "stage2 w p cid name f2 f3 f4 f5 repo ref cfg addr gateway d2 = (r, d')"
      using run none Inr y d2(1)
      by (simp add: create_steps_def stage2_def stage3_def stage4_def stage5_def f2_def f3_def f4_def f5_def net_of_def Let_def with_rollback_def)
    then show ?thesis by (rule stage2_created [OF fr laws ow fl d2(2)])
  qed
qed

subsection \<open>The entry of the new container\<close>

text \<open>What the entry of a container says of the container, apart from its state.\<close>

definition identity :: "ContainerInfo \<Rightarrow> string \<times> string \<times> string \<times> string \<times> string \<times> string list \<times> string \<times> bool \<times> string" where
  "identity c = (c_ContainerId c, c_ContainerName c, c_PodId c, c_Repository c, c_Reference c, c_Command c, c_BottleId c, c_Tty c, c_LogPath c)"

definition has_entry :: "string \<Rightarrow> (string \<times> string \<times> string \<times> string \<times> string \<times> string list \<times> string \<times> bool \<times> string) \<Rightarrow>
    IpamState \<Rightarrow> ContainerState \<Rightarrow> bool" where
  "has_entry cid x ip cs \<longleftrightarrow> csm_inv cs \<and> map_option identity (map_of (Containers cs) cid) = Some x"

text \<open>While it creates a container, the runtime may report a new state of it, but leaves its entry in the
  store and what the entry says of its identity.\<close>

definition creation_keeps_entry :: "'h world \<Rightarrow> string \<Rightarrow> bool" where
  "creation_keeps_entry w cid \<longleftrightarrow> (\<forall>cmd d out d'. (cid \<in> set cmd \<and> ''create'' \<in> set cmd \<or> take 2 cmd = [''droplet'', ''spec'']) \<and>
     w_droplet w cmd d = (out, d') \<and> io_ok d \<and> csm_inv (d_csm d) \<longrightarrow>
     map_option identity (map_of (Containers (d_csm d')) cid) = map_option identity (map_of (Containers (d_csm d)) cid))"

lemma droplet_entry:
  assumes "runtime_laws w cid" "creation_keeps_entry w cid" "cid \<in> set cmd \<and> ''create'' \<in> set cmd \<or> take 2 cmd = [''droplet'', ''spec'']"
  shows "stable (stores_ok (has_entry cid x)) (droplet_run w what cmd)"
proof -
  have "stores_ok (has_entry cid x) d'" if "stores_ok (has_entry cid x) d" "w_droplet w cmd d = (out, d')" for d d' out
  proof -
    have d: "io_ok d" "csm_inv (d_csm d)" using that(1) by (auto simp: stores_ok_def has_entry_def)
    have "io_ok d' \<and> csm_inv (d_csm d')" using assms(1,3) that(2) d unfolding runtime_laws_def by blast
    moreover have "map_option identity (map_of (Containers (d_csm d')) cid) = map_option identity (map_of (Containers (d_csm d)) cid)"
      using assms(2,3) that(2) d unfolding creation_keeps_entry_def by blast
    ultimately show ?thesis using that(1) by (simp add: stores_ok_def has_entry_def)
  qed
  then show ?thesis by (auto simp: stable_def droplet_run_def split: prod.splits option.splits)
qed

lemma runtime_entry:
  assumes "runtime_laws w cid" "creation_keeps_entry w cid"
  shows "stable (stores_ok (has_entry cid x)) (droplet_Spec w s)" "stable (stores_ok (has_entry cid x)) (droplet_Create w cid tty pid)"
  unfolding droplet_Spec_def droplet_Create_def Let_def
  by (intro stable_intros droplet_entry [OF assms]; simp)+

lemma address_entry: "stable (stores_ok (has_entry cid x)) (ipam_do f)"
  by (auto simp: stable_def stores_ok_def has_entry_def access_def store_access_simps io_ok_def split: sum.splits prod.splits)

lemma spec_entry:
  assumes "runtime_laws w cid" "creation_keeps_entry w cid"
  shows "stable (stores_ok (has_entry cid x)) (createContainerSpec w cid p repo ref cfg b a g podId)"
  unfolding createContainerSpec_def Let_def
  by (intro store_intros spec_namespaces_stores runtime_entry [OF assms])

lemma finish_entry:
  assumes "runtime_laws w cid" "creation_keeps_entry w cid"
  shows "stable (stores_ok (has_entry cid x)) (create_finish w p cid name)"
  unfolding create_finish_def createContainer_def joinContainer_def
  by (intro store_intros resources_stores stable_if_state runtime_entry [OF assms])

lemma forward_entry: "stable (stores_ok (has_entry cid x)) (setupForwardRule w cid ports)"
  unfolding setupForwardRule_def by (intro store_intros forward_stores address_entry)

text \<open>The entry a creation with these parameters stores.\<close>

definition entry_for :: "ServiceCreateModel \<Rightarrow> string \<Rightarrow> string \<Rightarrow> string \<Rightarrow> string \<Rightarrow> string list \<Rightarrow> ContainerInfo \<Rightarrow> bool" where
  "entry_for p cid name repo ref cmd c \<longleftrightarrow> identity c = (cid, name, sc_PodId p, repo, ref, cmd, sc_BottleId p, sc_Tty p, log_path cid (sc_Tty p))"

definition first_command :: "ServiceCreateModel \<Rightarrow> ImageConfigFile \<Rightarrow> string list" where
  "first_command p cfg = (if sc_Command p \<noteq> [] then sc_Command p else ic_Entrypoint (if_Config cfg) @ ic_Cmd (if_Config cfg))"

lemma entry_stored:
  assumes "stores_ok (held V M cid own F) d" "create_entry w p cid name repo ref cfg d = (r, d')"
  shows "stores_ok (has_entry cid (cid, name, sc_PodId p, repo, ref, first_command p cfg, sc_BottleId p, sc_Tty p, log_path cid (sc_Tty p))) d'"
proof -
  obtain now d1 where n: "w_now w d = (Inr now, d1)"
    by (cases "im_now (w_image w) (d_host d)") (auto simp: Now_def on_host_def)
  have d1: "stores_ok (held V M cid own F) d1" using stableD [OF now_stores n assms(1)] .
  define op where "op = Op_StoreContainer now cid ''creating'' 0 (sc_Tty p) repo ref (first_command p cfg) name (sc_BottleId p)
    (log_path cid (sc_Tty p)) (sc_PodId p)"
  have io: "io_ok d1" and inv: "csm_inv (d_csm d1)" using d1 by (auto simp: stores_ok_def held_def)
  obtain cs where cs: "csm_apply op (d_csm d1) = Inr cs" by (simp add: op_def StoreContainer_def)
  have "map_option identity (map_of (Containers cs) cid) =
    Some (cid, name, sc_PodId p, repo, ref, first_command p cfg, sc_BottleId p, sc_Tty p, log_path cid (sc_Tty p))"
    using cs by (auto simp: op_def StoreContainer_def identity_def)
  moreover have "create_entry w p cid name repo ref cfg d = (Inr (), d1\<lparr>d_csm := cs\<rparr>)"
    using n csm_upd_step(1) [of d1 "csm_apply op", OF io cs] by (simp add: create_entry_def Let_def op_def first_command_def)
  ultimately show ?thesis using assms(2) io csm_apply_inv [OF inv cs] by (simp add: stores_ok_def has_entry_def)
qed

text \<open>A creation that succeeds has not run a rollback.\<close>

lemma guarded_success:
  assumes "stable P m" "P d" "seq (with_rollback m rb) k d = (Inr y, d')"
  obtains d1 where "P d1" "k d1 = (Inr y, d')"
proof -
  obtain x d1 where "m d = (Inr x, d1)" "k d1 = (Inr y, d')"
    using assms(3) by (auto simp: seq_def bnd_Inr with_rollback_Inr)
  then show ?thesis using that stableD [OF assms(1) _ assms(2)] by blast
qed

lemma stage2_entry:
  assumes laws: "runtime_laws w cid" "creation_keeps_entry w cid" and d: "stores_ok (has_entry cid x) d"
    and run: "stage2 w p cid name f2 f3 f4 f5 repo ref cfg addr gateway d = (Inr i, d')"
  shows "stores_ok (has_entry cid x) d'"
proof -
  let ?P = "stores_ok (has_entry cid x)"
  have "stable ?P (wrap_err t (setupContainerDirectory w cid))" for t by (intro stable_intros directory_stores)
  then obtain d3 where d3: "?P d3" "stage3 w p cid name f3 f4 f5 repo ref cfg addr gateway d3 = (Inr i, d')"
    using guarded_success [where P = "?P", OF _ d run [unfolded stage2_def]] by blast
  have "stable ?P (seq (wrap_err t (setupEtcFiles w cid addr gateway)) (wrap_err t' (setupCgroupSubtree w cid)))" for t t'
    by (intro stable_intros directory_stores)
  then obtain d4 where d4: "?P d4" "stage4 w p cid name f4 f5 repo ref cfg addr gateway d4 = (Inr i, d')"
    using guarded_success [where P = "?P", OF _ d3(1) d3(2) [unfolded stage3_def]] by blast
  have "stable ?P (seq (wrap_err t (createContainerSpec w cid p repo ref cfg b addr gateway podId))
      (if forwards then wrap_err t' (setupForwardRule w cid ports) else ret ()))" for t t' b podId ports forwards
    by (intro stable_intros spec_entry [OF laws] forward_entry)
  then obtain d5 where d5: "?P d5" "stage5 w p cid name f5 d5 = (Inr i, d')"
    using guarded_success [where P = "?P", OF _ d4(1) d4(2) [unfolded stage4_def]] by blast
  obtain d6 where "?P d6" "ret cid d6 = (Inr i, d')"
    using guarded_success [where P = "?P", OF finish_entry [OF laws] d5(1) d5(2) [unfolded stage5_def]] by blast
  then show ?thesis by simp
qed

lemma create_steps_entry:
  assumes fr: "fresh V M cid" and laws: "runtime_laws w cid" "creation_keeps_entry w cid" and d: "stores_ok (clean V M) d"
    and run: "create_steps w p cid name d = (Inr i, d')"
  shows "\<exists>repo ref cfg. parseImageRef (sc_Image p) = Inr (repo, ref) \<and>
    stores_ok (has_entry cid (cid, name, sc_PodId p, repo, ref, first_command p cfg, sc_BottleId p, sc_Tty p, log_path cid (sc_Tty p))) d'"
proof -
  obtain y d1 where y: "create_resources w p cid d = (Inr y, d1)"
    using run by (auto simp: create_steps_def Let_def bnd_Inr with_rollback_Inr)
  obtain repo ref cfg gateway addr own where v: "y = (repo, ref, cfg, gateway, addr, own)" by (metis prod_cases6)
  have ref: "parseImageRef (sc_Image p) = Inr (repo, ref)"
    using y v by (auto simp: create_resources_def bnd_Inr seq_def split: if_splits)
  have d1: "stores_ok (held V M cid (if own then Some (net_of p) else None) (\<lambda>fs. fs = [])) d1"
    using resources_held [OF d fr y] v by simp
  obtain d2 where d2: "create_entry w p cid name repo ref cfg d1 = (Inr (), d2)" using entry_held [OF d1] by blast
  define f2 where "f2 = no_flags\<lparr>AllocateAddr := own, CSMEntry := True\<rparr>"
  define f3 where "f3 = f2\<lparr>DirectoryEnv := True\<rparr>"
  define f4 where "f4 = f3\<lparr>CgroupEntry := True\<rparr>"
  define f5 where "f5 = f4\<lparr>ForwardRule := (sc_PodId p = [] \<or> sc_IsPodInfra p)\<rparr>"
  have none: "with_rollback (create_resources w p cid) (rollback w no_flags cid) d = (Inr y, d1)" using y by simp
  have "stage2 w p cid name f2 f3 f4 f5 repo ref cfg addr gateway d2 = (Inr i, d')"
    using run none v d2
    by (simp add: create_steps_def stage2_def stage3_def stage4_def stage5_def f2_def f3_def f4_def f5_def net_of_def Let_def)
  from stage2_entry [OF laws entry_stored [OF d1 d2] this] ref show ?thesis by blast
qed

lemma given_name:
  assumes "container_name w p d = (Inr name, d1)" "sc_PodId p = []" "sc_Name p \<noteq> []" "io_ok d"
  shows "name = sc_Name p \<and> \<not> IsNameAlreadyUsed name (d_csm d)"
  using assms by (auto simp: container_name_def Let_def bnd_Inr or_zero_def access_ok split: if_splits)

lemma name_stores: "stable (stores_ok R) (container_name w p)"
proof -
  have rand: "stable (stores_ok R) (GenerateRandName w)"
    unfolding GenerateRandName_def pick_def by (intro store_intros)
  have "stable (stores_ok R) (gen_name w k)" for k
    by (induction k) (simp_all only: gen_name.simps, (intro store_intros rand; assumption?)+)
  then show ?thesis unfolding container_name_def generateContainerName_def Let_def by (intro store_intros)
qed

lemma Create_created:
  assumes "io_ok d" "ipam_inv (d_ipam d)" "csm_inv (d_csm d)" "sc_PodId p = []"
    and "w_ulid w (d_host d) = (u, h)" "cid = take 12 u" "runtime_laws w cid"
    and "container_absent cid (d_ipam d)" "map_of (Containers (d_csm d)) cid = None"
    and run: "Create w p d = (r, d')"
  shows "created (alloc_view (d_ipam d)) (map_of (Containers (d_csm d))) cid p r d'"
proof -
  let ?V = "alloc_view (d_ipam d)" and ?M = "map_of (Containers (d_csm d))" and ?d1 = "d\<lparr>d_host := h\<rparr>"
  have fr: "fresh ?V ?M cid" using assms(8,9) container_absent_view [OF assms(2)] by (auto simp: fresh_def)
  have d1: "stores_ok (clean ?V ?M) ?d1" using assms(1-3) by (simp add: stores_ok_def clean_def)
  have body: "Create w p d = (if length u < 12 then fail (Panic ''slice bounds out of range'') else bnd (container_name w p) (create_steps w p cid)) ?d1"
    using assms(4-6) by (simp add: Create_def create_body_def NewUlid_def on_host_def)
  show ?thesis
  proof (cases "length u < 12")
    case True
    then show ?thesis using run body by (auto simp: created_def)
  next
    case False
    obtain x d2 where x: "container_name w p ?d1 = (x, d2)" by fastforce
    have d2: "stores_ok (clean ?V ?M) d2" using stableD [OF name_stores x d1] .
    show ?thesis
    proof (cases x)
      case (Inl e)
      then show ?thesis using run body False x d2 by (cases e) (auto simp: created_def)
    next
      case (Inr name)
      then have "create_steps w p cid name d2 = (r, d')" using run body False x by simp
      then show ?thesis by (rule create_steps_created [OF fr assms(7) d2])
    qed
  qed
qed

lemma Create_entry:
  assumes "io_ok d" "ipam_inv (d_ipam d)" "csm_inv (d_csm d)" "sc_PodId p = []"
    and "w_ulid w (d_host d) = (u, h)" "cid = take 12 u" "runtime_laws w cid" "creation_keeps_entry w cid"
    and "container_absent cid (d_ipam d)" "map_of (Containers (d_csm d)) cid = None"
    and run: "Create w p d = (Inr i, d')"
  shows "\<exists>c. map_of (Containers (d_csm d')) cid = Some c \<and> c_ContainerId c = cid \<and>
    parseImageRef (sc_Image p) = Inr (c_Repository c, c_Reference c) \<and> c_BottleId c = sc_BottleId p \<and> c_PodId c = [] \<and>
    c_Tty c = sc_Tty p \<and> c_LogPath c = log_path cid (sc_Tty p) \<and> (sc_Command p \<noteq> [] \<longrightarrow> c_Command c = sc_Command p) \<and>
    (sc_Name p \<noteq> [] \<longrightarrow> c_ContainerName c = sc_Name p \<and> \<not> IsNameAlreadyUsed (sc_Name p) (d_csm d))"
proof -
  let ?V = "alloc_view (d_ipam d)" and ?M = "map_of (Containers (d_csm d))" and ?d1 = "d\<lparr>d_host := h\<rparr>"
  have fr: "fresh ?V ?M cid" using assms(9,10) container_absent_view [OF assms(2)] by (auto simp: fresh_def)
  have d1: "stores_ok (clean ?V ?M) ?d1" using assms(1-3) by (simp add: stores_ok_def clean_def)
  obtain name d2 where n: "container_name w p ?d1 = (Inr name, d2)" and s: "create_steps w p cid name d2 = (Inr i, d')"
    using run assms(4-6) by (auto simp: Create_def create_body_def NewUlid_def on_host_def bnd_Inr split: if_splits)
  have d2: "stores_ok (clean ?V ?M) d2" using stableD [OF name_stores n d1] .
  have "io_ok ?d1" using d1 by (simp add: stores_ok_def)
  then have name: "sc_Name p \<noteq> [] \<longrightarrow> name = sc_Name p \<and> \<not> IsNameAlreadyUsed name (d_csm d)"
    using given_name [OF n assms(4)] by auto
  obtain repo ref cfg where "parseImageRef (sc_Image p) = Inr (repo, ref)"
    "stores_ok (has_entry cid (cid, name, sc_PodId p, repo, ref, first_command p cfg, sc_BottleId p, sc_Tty p, log_path cid (sc_Tty p))) d'"
    using create_steps_entry [OF fr assms(7,8) d2 s] by blast
  then show ?thesis using name assms(4)
    by (cases "sc_Name p = []") (auto simp: stores_ok_def has_entry_def identity_def first_command_def)
qed

text \<open>C4: the creation of a container is all or nothing in the stores, whichever of its steps fails: on
  an error every address has the owner it had and the container store has the entries it had; on
  success the new container holds exactly one new address, on the network that was asked for and with
  the forwards that were asked for, the container store has an entry for it with the image, the bottle,
  the terminal, the log and, where they were given, the command and the name that was asked for, which
  no container had before, and no other container has changed.  This is for a container outside a pod
  with a fresh identifier, while the files of the stores can be read and written; nothing is said of
  panics.\<close>

theorem Create_atomic:
  assumes "io_ok d" "ipam_inv (d_ipam d)" "csm_inv (d_csm d)" "sc_PodId p = []"
    and "w_ulid w (d_host d) = (u, h)" "cid = take 12 u" "runtime_laws w cid" "creation_keeps_entry w cid"
    and "container_absent cid (d_ipam d)" "map_of (Containers (d_csm d)) cid = None"
    and run: "Create w p d = (r, d')"
  shows "case r of
      Inr i \<Rightarrow> i = cid \<and>
        (\<exists>a al. alloc_view (d_ipam d) a = None \<and> alloc_view (d_ipam d') = (alloc_view (d_ipam d))(a \<mapsto> (net_of p, al)) \<and>
          ContainerId al = cid \<and> Forwards al = map port_forward (sc_Port p)) \<and>
        (\<exists>c. map_of (Containers (d_csm d')) cid = Some c \<and> c_ContainerId c = cid \<and>
          parseImageRef (sc_Image p) = Inr (c_Repository c, c_Reference c) \<and> c_BottleId c = sc_BottleId p \<and> c_PodId c = [] \<and>
          c_Tty c = sc_Tty p \<and> c_LogPath c = log_path cid (sc_Tty p) \<and> (sc_Command p \<noteq> [] \<longrightarrow> c_Command c = sc_Command p) \<and>
          (sc_Name p \<noteq> [] \<longrightarrow> c_ContainerName c = sc_Name p \<and> \<not> IsNameAlreadyUsed (sc_Name p) (d_csm d))) \<and>
        (\<forall>j. j \<noteq> cid \<longrightarrow> map_of (Containers (d_csm d')) j = map_of (Containers (d_csm d)) j)
    | Inl (Err e) \<Rightarrow> alloc_view (d_ipam d') = alloc_view (d_ipam d) \<and> map_of (Containers (d_csm d')) = map_of (Containers (d_csm d))
    | Inl (Panic s) \<Rightarrow> True"
proof (cases r)
  case (Inr i)
  from Create_entry [OF assms(1-10) run [unfolded Inr]] show ?thesis
    using Create_created [OF assms(1-7,9-11)] assms(4) Inr by (auto simp: created_def stores_ok_def held_def)
next
  case (Inl e)
  then show ?thesis using Create_created [OF assms(1-7,9-11)]
    by (cases e) (auto simp: created_def stores_ok_def clean_def)
qed

text \<open>An error of the store between the allocation and the reading of the gateway leaves the address
  allocated: the flag for the rollback is set after both.\<close>

lemma gateway_fault_keeps_address:
  assumes "Allocate now cid b (d_ipam d) = Inr (a, ip)" "w_now w d = (Inr now, d)" "d_io d = [None, Some e]"
  shows "\<exists>d'. with_rollback (allocateAddress w cid b) (rollback w no_flags cid) d = (Inl e, d') \<and> d_ipam d' = ip"
  using assms
  by (cases e) (auto simp: allocateAddress_def access_def with_rollback_def rollback_def no_flags_def bnd_def query_def store_access_simps)

subsection \<open>An example\<close>

text \<open>A machine on which \<open>droplet\<close> fails; the image of the container is in the store.\<close>

definition demo_world :: "(string \<rightharpoonup> string) world" where
  "demo_world = \<lparr>w_run = (\<lambda>c h. (True, h)), w_droplet = (\<lambda>cmd d. (('''', Some (Err ''exit status 1'')), d)), w_image = demo_image_env,
     w_busy = (\<lambda>e. False), w_rand = (\<lambda>n h. (Inr 0, h)), w_ulid = (\<lambda>h. (''c12345678901xyz'', h)), w_quote = (\<lambda>s. s), w_sleep = (\<lambda>d. d)\<rparr>"

definition demo_params :: ServiceCreateModel where
  "demo_params = \<lparr>sc_Image = ''web'', sc_Os = '''', sc_Arch = '''', sc_Command = [], sc_Port = [''8080:80''], sc_Mount = [], sc_Env = [],
     sc_Network = '''', sc_Tty = False, sc_Name = ''web1'', sc_BottleId = '''', sc_PodId = '''', sc_IsPodInfra = False\<rparr>"

definition demo_images :: ImageLayerState where
  "demo_images = \<lparr>il_Version = ''0.1.0'', Repositories = [(''library/web'', \<lparr>References = [(''latest'',
     \<lparr>BundlePath = ''/i'', ConfigPath = ''/i/config.json'', RootfsPath = ''/i/rootfs'', ri_CreatedAt = 1\<rparr>)]\<rparr>)]\<rparr>"

definition demo_machine :: "(string \<rightharpoonup> string) daemon" where
  "demo_machine = (demo_daemon npm_initial [''/i/config.json'' \<mapsto> ''{}''])\<lparr>d_ipam := ipam_initial ''eth0'' ''192.168.0.2/24'', d_ilm := demo_images\<rparr>"

lemma demo_machine_simps [simp]:
  "io_ok demo_machine" "d_ipam demo_machine = ipam_initial ''eth0'' ''192.168.0.2/24''" "d_csm demo_machine = csm_demo"
  "d_ilm demo_machine = demo_images" "d_host demo_machine = [''/i/config.json'' \<mapsto> ''{}'']"
  by (simp_all add: demo_machine_def io_ok_def)

lemma demo_resources: "\<exists>cfg. create_resources demo_world demo_params cid demo_machine =
  (Inr (''library/web'', ''latest'', cfg, ''10.166.0.254'', ''10.166.0.1/24'', True),
   demo_machine\<lparr>d_ipam := (ipam_initial ''eth0'' ''192.168.0.2/24'')\<lparr>Pools := [default_pool\<lparr>Allocations := Some [(''10.166.0.1'', new_alloc 7 cid)]\<rparr>]\<rparr>\<rparr>)"
proof -
  have parse: "parseImageRef ''web'' = Inr (''library/web'', ''latest'')" by (simp add: parseImageRef_def split_n2_def)
  have here: "image_exists demo_world ''library/web'' ''latest'' demo_machine = (Inr True, demo_machine)"
    by (simp add: image_exists_def access_ok IsImageExist_def demo_images_def path_exists_def demo_world_def demo_image_env_def demo_hub_def file_os_def)
  have path: "ilm_do (query (GetConfigPath ''library/web'' ''latest'')) demo_machine = (Inr ''/i/config.json'', demo_machine)"
    by (simp add: access_ok GetConfigPath_def find_image_def demo_images_def)
  have cfg: "\<exists>cfg. GetImageConfig (w_image demo_world) ''/i/config.json'' demo_machine = (Inr cfg, demo_machine)"
    by (simp add: GetImageConfig_def on_host_def read_file_def demo_world_def demo_image_env_def demo_hub_def file_os_def bnd_def)
  have now: "w_now demo_world demo_machine = (Inr 7, demo_machine)"
    by (simp add: Now_def on_host_def demo_world_def demo_image_env_def)
  let ?ip = "(ipam_initial ''eth0'' ''192.168.0.2/24'')\<lparr>Pools := [default_pool\<lparr>Allocations := Some [(''10.166.0.1'', new_alloc 7 cid)]\<rparr>]\<rparr>"
  have al: "ipam_do (Allocate 7 cid ''raind0'') demo_machine = (Inr ''10.166.0.1'', demo_machine\<lparr>d_ipam := ?ip\<rparr>)"
    using access_ok [of demo_machine "Allocate 7 cid ''raind0''" d_ipam "''10.166.0.1''" ?ip d_ipam_update] Allocate_example [of 7 cid] by simp
  have gw: "ipam_do (query (GetBridgeAddr ''raind0'')) (demo_machine\<lparr>d_ipam := ?ip\<rparr>) = (Inr ''10.166.0.254/24'', demo_machine\<lparr>d_ipam := ?ip\<rparr>)"
    by (intro ipam_query_ok) (simp_all add: GetBridgeAddr_def default_pool_def)
  obtain c where "GetImageConfig (w_image demo_world) ''/i/config.json'' demo_machine = (Inr c, demo_machine)" using cfg by blast
  then show ?thesis using parse here path now al gw
    by (simp add: create_resources_def allocateAddress_def demo_params_def)
qed

lemma demo_fs:
  "fs_do demo_world (Os_MkdirAll p m) d = (Inr (), d)" "fs_do demo_world (Os_RemoveAll p) d = (Inr (), d)" "fs_do demo_world (Os_Remove p) d = (Inr (), d)"
  "fs_do demo_world (Os_WriteFile p b m) d = (Inr (), d\<lparr>d_host := (d_host d)(p \<mapsto> b)\<rparr>)"
  by (simp_all add: on_host_def demo_world_def demo_image_env_def demo_hub_def file_os_def)

lemma demo_droplet: "\<exists>e. droplet_Spec demo_world s d = (Inl (Err e), d)"
  by (simp add: droplet_Spec_def droplet_run_def demo_world_def Let_def)

lemma demo_spec:
  assumes "io_ok d" "GetDefaultInterface (d_ipam d) = Inr i" "GetDefaultInterfaceAddr (d_ipam d) = Inr a" "d_ilm d = demo_images"
  shows "\<exists>e. createContainerSpec demo_world cid demo_params ''library/web'' ''latest'' cfg b addr gw [] d = (Inl (Err e), d)"
proof -
  have "ilm_do (query (GetRootfsPath ''library/web'' ''latest'')) d = (Inr ''/i/rootfs'', d)"
    using assms(1,4) by (simp add: access_ok GetRootfsPath_def find_image_def demo_images_def)
  then show ?thesis using assms(1-3) demo_droplet
    by (simp add: createContainerSpec_def spec_namespaces_def Let_def)
qed

lemma demo_rollback:
  assumes io: "io_ok d" and f: "\<not> ForwardRule f"
  shows "\<exists>d'. rollback demo_world f cid d = (Inr (), d')"
proof -
  obtain d1 where d1: "(if AllocateAddr f then releaseAddress cid else ret ()) d = (Inr (), d1)" "io_ok d1"
  proof (cases "AllocateAddr f")
    case True
    obtain ip where "Release cid (d_ipam d) = Inr ip" by (simp add: Release_def)
    from ipam_upd_step(1) [of d "Release cid", OF io this] show ?thesis using that True io by (simp add: releaseAddress_def)
  qed (use that io in simp)
  have "\<exists>d2. rollback_entry cid d1 = (Inr (), d2)"
  proof (cases "RemoveContainer cid (d_csm d1)")
    case (Inl e)
    then have e: "e = Err ((''containerId='' @ cid) @ '' not found'')" by (auto simp: RemoveContainer_def split: option.splits)
    have "attempt (csm_do (upd (RemoveContainer cid))) d1 = (Inr (Inl e), d1)"
      using csm_upd_step(2) [of d1 "RemoveContainer cid", OF d1(2) Inl] e by (simp add: attempt_def)
    then show ?thesis unfolding rollback_entry_def bnd_def e using not_found_err [of "''containerId='' @ cid"]       by (intro exI [of _ d1]) (simp only: prod.case sum.case if_True ret_simp \<open>attempt _ _ = _\<close> e)
  next
    case (Inr cs)
    then show ?thesis using csm_upd_step(1) [of d1 "RemoveContainer cid", OF d1(2) Inr] by (simp add: rollback_entry_def)
  qed
  then obtain d2 where d2: "rollback_entry cid d1 = (Inr (), d2)" by blast
  have "deleteContainerDirectory demo_world cid d = (Inr (), d)" "rollback_cgroup demo_world cid d = (Inr (), d)" for d
    by (simp_all add: deleteContainerDirectory_def rollback_cgroup_def deleteCgroupSubtree_def demo_fs)
  then show ?thesis unfolding rollback_def using d1(1) d2 f by (cases "CSMEntry f"; cases "DirectoryEnv f"; cases "CgroupEntry f") simp_all
qed

lemma demo_create_fails: "\<exists>e. fst (Create demo_world demo_params demo_machine) = Inl (Err e)"
proof -
  let ?cid = "''c12345678901''"
  let ?ip = "(ipam_initial ''eth0'' ''192.168.0.2/24'')\<lparr>Pools := [default_pool\<lparr>Allocations := Some [(''10.166.0.1'', new_alloc 7 ?cid)]\<rparr>]\<rparr>"
  obtain cfg where res: "create_resources demo_world demo_params ?cid demo_machine =
    (Inr (''library/web'', ''latest'', cfg, ''10.166.0.254'', ''10.166.0.1/24'', True), demo_machine\<lparr>d_ipam := ?ip\<rparr>)" using demo_resources by blast
  have "\<not> IsNameAlreadyUsed ''web1'' csm_demo" by (simp add: IsNameAlreadyUsed_def csm_demo_def demo_container_def)
  then have "csm_do (query (\<lambda>cs. Inr (IsNameAlreadyUsed ''web1'' cs))) demo_machine = (Inr False, demo_machine)" by (simp add: access_ok)
  then have name: "container_name demo_world demo_params demo_machine = (Inr ''web1'', demo_machine)"
    by (simp add: container_name_def demo_params_def Let_def)
  have ulid: "NewUlid demo_world demo_machine = (Inr ''c12345678901xyz'', demo_machine)"
    by (simp add: NewUlid_def on_host_def demo_world_def)
  define d1 where "d1 = demo_machine\<lparr>d_ipam := ?ip\<rparr>"
  have "w_now demo_world d1 = (Inr 7, d1)" by (simp add: Now_def on_host_def demo_world_def demo_image_env_def d1_def)
  moreover have "io_ok d1" by (simp add: d1_def)
  ultimately obtain cs where entry: "create_entry demo_world demo_params ?cid ''web1'' ''library/web'' ''latest'' cfg d1 = (Inr (), d1\<lparr>d_csm := cs\<rparr>)"
    using csm_upd_step(1) [of d1] by (simp add: create_entry_def Let_def StoreContainer_def)
  define d2 where "d2 = d1\<lparr>d_csm := cs\<rparr>"
  have dir: "setupContainerDirectory demo_world ?cid d2 = (Inr (), d2)" by (simp add: setupContainerDirectory_def Let_def demo_fs)
  obtain h where etc: "setupEtcFiles demo_world ?cid a g d2 = (Inr (), d2\<lparr>d_host := h a g\<rparr>)" for a g
    by (simp add: setupEtcFiles_def Let_def demo_fs)
  have cg: "setupCgroupSubtree demo_world ?cid d = (Inr (), d)" for d by (simp add: setupCgroupSubtree_def demo_fs)
  define d3 where "d3 = d2\<lparr>d_host := h ''10.166.0.1/24'' ''10.166.0.254''\<rparr>"
  have d3: "io_ok d3" "GetDefaultInterface (d_ipam d3) = Inr ''eth0''" "GetDefaultInterfaceAddr (d_ipam d3) = Inr ''192.168.0.2/24''" "d_ilm d3 = demo_images"
    by (simp_all add: d3_def d2_def d1_def GetDefaultInterface_def GetDefaultInterfaceAddr_def ipam_initial_def)
  obtain e where spec: "createContainerSpec demo_world ?cid demo_params ''library/web'' ''latest'' cfg ''raind0'' ''10.166.0.1/24'' ''10.166.0.254'' [] d3 = (Inl (Err e), d3)"
    using demo_spec [OF d3] by blast
  define f2 where "f2 = no_flags\<lparr>AllocateAddr := True, CSMEntry := True\<rparr>"
  define f3 where "f3 = f2\<lparr>DirectoryEnv := True\<rparr>"
  define f4 where "f4 = f3\<lparr>CgroupEntry := True\<rparr>"
  define f5 where "f5 = f4\<lparr>ForwardRule := True\<rparr>"
  have "\<not> ForwardRule f4" by (simp add: f4_def f3_def f2_def no_flags_def)
  then obtain d4 where rb: "rollback demo_world f4 ?cid d3 = (Inr (), d4)" using demo_rollback [OF d3(1)] by blast
  have "stage4 demo_world demo_params ?cid ''web1'' f4 f5 ''library/web'' ''latest'' cfg ''10.166.0.1/24'' ''10.166.0.254'' d3 =
    (Inl (Err (''create spec failed: '' @ e)), d4)"
    using spec rb by (simp add: stage4_def demo_params_def net_of_def wrap_err_def with_rollback_def seq_def bnd_def)
  then have "stage2 demo_world demo_params ?cid ''web1'' f2 f3 f4 f5 ''library/web'' ''latest'' cfg ''10.166.0.1/24'' ''10.166.0.254'' d2 =
    (Inl (Err (''create spec failed: '' @ e)), d4)"
    using dir etc cg by (simp add: stage2_def stage3_def d3_def [symmetric] wrap_err_def with_rollback_def seq_def bnd_def)
  moreover have "create_steps demo_world demo_params ?cid ''web1'' demo_machine =
    stage2 demo_world demo_params ?cid ''web1'' f2 f3 f4 f5 ''library/web'' ''latest'' cfg ''10.166.0.1/24'' ''10.166.0.254'' d2"
    using res entry by (simp add: create_steps_def stage2_def stage3_def stage4_def stage5_def f2_def f3_def f4_def f5_def net_of_def Let_def
        with_rollback_def d1_def d2_def demo_params_def)
  ultimately have "\<exists>e. fst (create_steps demo_world demo_params ?cid ''web1'' demo_machine) = Inl (Err e)" by simp
  then show ?thesis using name ulid by (simp add: Create_def create_body_def demo_params_def)
qed

theorem Create_atomic_witness:
  "\<exists>e d'. Create demo_world demo_params demo_machine = (Inl (Err e), d') \<and>
     alloc_view (d_ipam d') = alloc_view (ipam_initial ''eth0'' ''192.168.0.2/24'') \<and> map_of (Containers (d_csm d')) = map_of (Containers csm_demo)"
proof -
  obtain r d' where run: "Create demo_world demo_params demo_machine = (r, d')" by fastforce
  let ?cid = "take 12 ''c12345678901xyz''"
  have "runtime_laws demo_world ?cid" "creation_keeps_entry demo_world ?cid"
    by (auto simp: runtime_laws_def creation_keeps_entry_def demo_world_def)
  moreover have "container_absent ?cid (d_ipam demo_machine)"
    by (simp add: container_absent_def ipam_initial_def default_pool_def allocs_def)
  moreover have "map_of (Containers (d_csm demo_machine)) ?cid = None" by (simp add: csm_demo_def demo_container_def)
  moreover have "ipam_inv (d_ipam demo_machine)" "csm_inv (d_csm demo_machine)" using ipam_initial_inv csm_demo_inv by simp_all
  moreover have "w_ulid demo_world (d_host demo_machine) = (''c12345678901xyz'', d_host demo_machine)" by (simp add: demo_world_def)
  moreover have "sc_PodId demo_params = []" "io_ok demo_machine" by (simp_all add: demo_params_def)
  ultimately have post: "case r of
      Inr i \<Rightarrow> i = ?cid \<and>
        (\<exists>a al. alloc_view (d_ipam demo_machine) a = None \<and> alloc_view (d_ipam d') = (alloc_view (d_ipam demo_machine))(a \<mapsto> (net_of demo_params, al)) \<and>
          ContainerId al = ?cid \<and> Forwards al = map port_forward (sc_Port demo_params)) \<and>
        (\<exists>c. map_of (Containers (d_csm d')) ?cid = Some c \<and> c_ContainerId c = ?cid \<and>
          parseImageRef (sc_Image demo_params) = Inr (c_Repository c, c_Reference c) \<and> c_BottleId c = sc_BottleId demo_params \<and> c_PodId c = [] \<and>
          c_Tty c = sc_Tty demo_params \<and> c_LogPath c = log_path ?cid (sc_Tty demo_params) \<and>
          (sc_Command demo_params \<noteq> [] \<longrightarrow> c_Command c = sc_Command demo_params) \<and>
          (sc_Name demo_params \<noteq> [] \<longrightarrow> c_ContainerName c = sc_Name demo_params \<and> \<not> IsNameAlreadyUsed (sc_Name demo_params) (d_csm demo_machine))) \<and>
        (\<forall>j. j \<noteq> ?cid \<longrightarrow> map_of (Containers (d_csm d')) j = map_of (Containers (d_csm demo_machine)) j)
    | Inl (Err e) \<Rightarrow> alloc_view (d_ipam d') = alloc_view (d_ipam demo_machine) \<and> map_of (Containers (d_csm d')) = map_of (Containers (d_csm demo_machine))
    | Inl (Panic s) \<Rightarrow> True"
    using Create_atomic [OF _ _ _ _ _ refl _ _ _ _ run] by blast
  have "\<exists>e. r = Inl (Err e)" using demo_create_fails run by auto
  then show ?thesis using run post by auto
qed

subsection \<open>What a failed creation leaves on the host\<close>

text \<open>The rollback releases the address before it looks for the forwards of the container, so it finds
  none: no rule of the packet filter is removed.\<close>

lemma absent_forwards: "container_absent cid st \<Longrightarrow> GetForwardInfo cid st = Inr []"
  by (fastforce simp: GetForwardInfo_def container_absent_def intro!: concat_map_Nil)

lemma rollback_leaves_rules:
  assumes "fresh V M cid" "stores_ok (held V M cid (Some b) F) d" "AllocateAddr f" "CSMEntry f"
    and "\<And>p h. tables (snd (os_do (w_os w) (Os_RemoveAll p) h)) = tables h" "\<And>p h. tables (snd (os_do (w_os w) (Os_Remove p) h)) = tables h"
  shows "tables (d_host (snd (rollback w f cid d))) = tables (d_host d)"
proof -
  obtain d1 where d1: "releaseAddress cid d = (Inr (), d1)" "stores_ok (held V M cid None F) d1" by (rule release_held [OF assms(1,2)])
  obtain d2 where d2: "rollback_entry cid d1 = (Inr (), d2)" "stores_ok (clean V M) d2" by (rule remove_entry [OF assms(1) d1(2)])
  have h1: "d_host d1 = d_host d"
    using d1(1) by (auto simp: releaseAddress_def access_def split: prod.splits)
  have h2: "d_host d2 = d_host d1"
  proof -
    have "stable (\<lambda>d. d_host d = x) (csm_do fn)" for x fn by (auto simp: stable_def access_def split: prod.splits)
    then have "stable (\<lambda>d. d_host d = d_host d1) (rollback_entry cid)" unfolding rollback_entry_def by (intro stable_intros)
    from stableD [OF this d2(1)] show ?thesis by simp
  qed
  define P where "P = (\<lambda>d. stores_ok (clean V M) d \<and> tables (d_host d) = tables (d_host d2))"
  have host: "stable P (on_host m)" if "\<And>h. tables (snd (m h)) = tables h" for m
  proof -
    have "tables (d_host (snd (on_host m d))) = tables (d_host d)" for d :: "'a daemon"
      using that [of "d_host d"] by (auto simp: on_host_def split: prod.splits)
    then show ?thesis using host_stores [of "clean V M" m] by (simp add: P_def stable_def)
  qed
  have clean_up: "cleanupForwardRules w cid d = (Inr (), d)" if "P d" for d
  proof -
    have d: "io_ok d" "ipam_inv (d_ipam d)" "alloc_view (d_ipam d) = V" using that by (auto simp: P_def stores_ok_def clean_def)
    then have "container_absent cid (d_ipam d)" using assms(1) container_absent_view [OF d(2)] by (auto simp: fresh_def)
    then show ?thesis using absent_forwards d(1) by (simp add: cleanupForwardRules_def)
  qed
  have "stable P (seq (if DirectoryEnv f then deleteContainerDirectory w cid else ret ())
    (seq (if CgroupEntry f then rollback_cgroup w cid else ret ()) (if ForwardRule f then cleanupForwardRules w cid else ret ())))"
    unfolding deleteContainerDirectory_def rollback_cgroup_def deleteCgroupSubtree_def
    by (intro stable_intros host assms(5,6)) (simp add: stable_def clean_up)
  moreover have "P d2" using d2(2) by (simp add: P_def)
  ultimately have "P (snd (rollback w f cid d))"
    unfolding rollback_def using d1(1) d2(1) assms(3,4) by (simp add: stable_def)
  then show ?thesis using h1 h2 by (simp add: P_def)
qed

subsection \<open>The life cycle\<close>

lemma resolve_container_ok:
  assumes io: "io_ok d"
  shows "resolve_container target d =
    (case ResolveContainerId target (d_csm d) of Inr i \<Rightarrow> (Inr i, d) | Inl _ \<Rightarrow> (Inl (Err (''container: '' @ target @ '' not found'')), d))"
proof (cases "GetContainerIdByName target (d_csm d)")
  case (Inr i)
  then show ?thesis using io by (simp add: resolve_container_def csm_ResolveContainerId_def ResolveContainerId_def access_ok)
next
  case (Inl e)
  then obtain m where "e = Err m" by (auto simp: GetContainerIdByName_def split: option.splits)
  then have a: "attempt (csm_do (query (GetContainerIdByName target))) d = (Inr (Inl e), d)" using Inl io by (simp add: attempt_def access_error)
  show ?thesis
  proof (cases "GetContainerById target (d_csm d)")
    case (Inr c)
    then show ?thesis using a Inl io by (simp add: resolve_container_def csm_ResolveContainerId_def ResolveContainerId_def access_ok)
  next
    case none: (Inl e')
    then obtain m' where "e' = Err m'" by (auto simp: GetContainerById_def split: option.splits)
    then show ?thesis using a Inl none io
      by (simp add: resolve_container_def csm_ResolveContainerId_def ResolveContainerId_def access_error)
  qed
qed

lemma info_ok: "io_ok d \<Longrightarrow> GetContainerById i (d_csm d) = Inr c \<Longrightarrow> container_info i d = (Inr c, d)"
  by (simp add: container_info_def access_ok)

end
