(* ===== verification/Hook.thy ===== *)
theory Hook
  imports Container_Facts
begin

text \<open>
  The hooks through which the container runtime reports to the daemon
  (\<open>src/internal/core/hook\<close>, \<open>src/internal/api/http/hook/handler.go\<close>) and the certificates that
  authorise them (\<open>src/internal/api/http/cert/handler.go\<close>, \<open>IssueClientCertFromCSR\<close> of
  \<open>src/internal/core/cert/service.go\<close>).  The theorems say that a runtime that reaches the daemon only
  through its hooks keeps what the creation of containers relies on, and that a hook request changes
  no container but the one its certificate names.
\<close>

subsection \<open>The hook service (core/hook)\<close>

record ServiceStateAnnotaionModel =
  an_AnnotationVersion :: string
  an_NetConfig :: string
  an_ImageConfig :: string

record ServiceStateModel =
  hs_OciVersion :: string
  hs_Id :: string
  hs_Status :: string
  hs_Pid :: int
  hs_ExitCode :: int
  hs_Reason :: string
  hs_Message :: string
  hs_Rootfs :: string
  hs_Bundler :: string
  hs_Annotations :: ServiceStateAnnotaionModel

definition ns_of_pid :: "int \<Rightarrow> string \<Rightarrow> string" where
  "ns_of_pid pid ns = ''/proc/'' @ itoa pid @ ''/ns/'' @ ns"

definition updatePodNamespacesIfOwner :: "string \<Rightarrow> (unit, 'h daemon) act" where
  "updatePodNamespacesIfOwner containerId =
     bnd (csm_do (query (GetContainerById containerId))) (\<lambda>c.
       if c_PodId c = [] then ret ()
       else if \<not> has_prefix (c_ContainerName c) PodInfraContainerNamePrefix then ret ()
       else if c_Pid c \<le> 0 then ret ()
       else psm_do (upd (UpdatePodNamespaces (c_Pid c) (c_PodId c) (ns_of_pid (c_Pid c) ''net'') (ns_of_pid (c_Pid c) ''ipc'')
         (ns_of_pid (c_Pid c) ''uts'') (ns_of_pid (c_Pid c) ''user''))))"

definition hook_update :: "'h world \<Rightarrow> ServiceStateModel \<Rightarrow> (unit, 'h daemon) act" where
  "hook_update w st =
     wrap_err ''csm update failed: '' (bnd (w_now w) (\<lambda>now. csm_do (upd (UpdateContainer now (hs_Id st) (hs_Status st) (hs_Pid st)))))"

definition HookAction :: "'h world \<Rightarrow> ServiceStateModel \<Rightarrow> string \<Rightarrow> (unit, 'h daemon) act" where
  "HookAction w st eventType =
     (if eventType = ''createRuntime'' then hook_update w st
      else if eventType = ''createContainer'' then
        seq (hook_update w st)
       (seq (wrap_err ''chmod cgroup path failed: '' (ChangeCgroupMode w (hs_Id st)))
       (seq (wrap_err ''policy commit failed: '' (CommitPolicy (w_run w)))
            (wrap_err ''update pod namespaces failed: '' (updatePodNamespacesIfOwner (hs_Id st)))))
      else if eventType = ''poststart'' then hook_update w st
      else if eventType = ''stopContainer'' then
        seq (hook_update w st)
            (wrap_err ''csm update failed: '' (csm_do (upd (UpdateExitStatus (hs_Id st) (hs_ExitCode st) (hs_Reason st) (hs_Message st)))))
      else if eventType = ''poststop'' then
        seq (wrap_err ''csm remove failed: '' (csm_do (upd (RemoveContainer (hs_Id st)))))
            (wrap_err ''policy commit failed: '' (CommitPolicy (w_run w)))
      else fail (Err (''csm unknown eventType: '' @ eventType)))"

subsection \<open>The hook endpoint (api/http/hook/handler.go)\<close>

text \<open>A parsed URI of a certificate; a certificate has a list of URIs, each of which may not parse.\<close>

record url =
  u_Scheme :: string
  u_Host :: string
  u_Path :: string

type_synonym cert_uris = "(string \<times> url option) list"

fun validate_uris :: "cert_uris \<Rightarrow> string \<Rightarrow> (bool, 'h daemon) act" where
  "validate_uris [] state_id = ret True"
| "validate_uris ((uri, None) # us) state_id = fail (Err (''invalid format: '' @ uri))"
| "validate_uris ((uri, Some u) # us) state_id =
     (let path = trim_prefix (u_Path u) ''/''; parts = split_on (CHR ''/'') path in
      if u_Scheme u \<noteq> ''spiffe'' then fail (Err (''invalid scheme: '' @ u_Scheme u))
      else if u_Host u \<noteq> ''raind'' then fail (Err (''invalid domain: '' @ u_Host u))
      else if length parts \<noteq> 2 \<or> parts ! 0 \<noteq> ''container'' then fail (Err (''invalid spiffe path: '' @ path))
      else if parts ! 1 = [] then fail (Err ''container id empty'')
      else bnd (or_zero False (csm_do (query (\<lambda>cs. Inr (IsContainerExist (parts ! 1) cs))))) (\<lambda>ok.
        if \<not> ok then fail (Err (''container: '' @ parts ! 1 @ '' not found''))
        else if parts ! 1 \<noteq> state_id
        then fail (Err (''SPIFFE ID did not match the state ID: spiffe='' @ parts ! 1 @ '', state='' @ state_id))
        else validate_uris us state_id))"

text \<open>The peer certificates of the connection; the code reads the first one.\<close>

definition validateSpiffe :: "cert_uris list \<Rightarrow> ServiceStateModel \<Rightarrow> (bool, 'h daemon) act" where
  "validateSpiffe peers st =
     (case peers of [] \<Rightarrow> fail (Panic ''index out of range'') | uris # _ \<Rightarrow> validate_uris uris (hs_Id st))"

text \<open>
  A request: the header \<open>X-Hook-Event\<close>, the body that \<open>io.ReadAll\<close> gave and the peer
  certificates; \<open>json\<close> is \<open>json.Unmarshal\<close>.  The answer is a status with a message.
\<close>

record hook_request =
  hq_Event :: string
  hq_Body :: "string result"
  hq_Peers :: "cert_uris list"

type_synonym response = "nat \<times> string"

definition ApplyHook :: "'h world \<Rightarrow> (string \<Rightarrow> ServiceStateModel result) \<Rightarrow> hook_request \<Rightarrow> (response, 'h daemon) act" where
  "ApplyHook w json r =
     (if hq_Event r = [] then ret (400, ''invalid request'')
      else (case hq_Body r of
        Inl e \<Rightarrow> ret (400, ''read hook body failed: '' @ err_text e)
      | Inr body \<Rightarrow> (case json body of
          Inl e \<Rightarrow> ret (400, ''invalid json: '' @ err_text e)
        | Inr st \<Rightarrow>
            bnd (attempt (validateSpiffe (hq_Peers r) st)) (\<lambda>v.
              case v of
                Inl e \<Rightarrow> ret (403, ''validate failed: '' @ err_text e)
              | Inr _ \<Rightarrow> bnd (attempt (HookAction w st (hq_Event r))) (\<lambda>a.
                  case a of
                    Inl e \<Rightarrow> ret (500, ''service hook failed: '' @ err_text e)
                  | Inr _ \<Rightarrow> ret (200, ''hook applied''))))))"

subsection \<open>Certificates for containers (api/http/cert/handler.go, core/cert/service.go)\<close>

definition isSafeID :: "string \<Rightarrow> bool" where
  "isSafeID s = list_all (\<lambda>c. (CHR ''a'' \<le> c \<and> c \<le> CHR ''z'') \<or> (CHR ''0'' \<le> c \<and> c \<le> CHR ''9'') \<or> c = CHR ''-'') s"

definition extractAndValidateSPIFFE :: "url list \<Rightarrow> string \<Rightarrow> (url \<times> string \<times> string) result" where
  "extractAndValidateSPIFFE uris trustDomain =
     (case uris of
        [u] \<Rightarrow>
          (let parts = split_on (CHR ''/'') (trim_prefix (u_Path u) ''/'') in
           if u_Scheme u \<noteq> ''spiffe'' then Inl (Err ''scheme must be spiffe'')
           else if u_Host u \<noteq> trustDomain then Inl (Err (''trust domain must be '' @ [CHR 0x22] @ trustDomain @ [CHR 0x22]))
           else if length parts \<noteq> 2 then Inl (Err ''path must be /<role>/<id>'')
           else if parts ! 0 = [] \<or> parts ! 1 = [] then Inl (Err ''role/id empty'')
           else if \<not> isSafeID (parts ! 0) \<or> \<not> isSafeID (parts ! 1) then Inl (Err ''invalid characters in role/id'')
           else Inr (u, parts ! 0, parts ! 1))
      | _ \<Rightarrow> Inl (Err ''exactly one URI SAN is required''))"

text \<open>
  The parts that are cryptography: \<open>pk_pem\<close> is \<open>pem.Decode\<close> (type and bytes), \<open>pk_csr\<close> is
  \<open>x509.ParseCertificateRequest\<close> (the URIs and the public key), \<open>pk_signed\<close> is \<open>CheckSignature\<close>,
  \<open>pk_ca\<close> is \<open>loadCA\<close> (certificate and key), \<open>pk_serial\<close> draws the serial number and \<open>pk_sign\<close> is
  \<open>x509.CreateCertificate\<close>.  The dates and the key usage of the certificate are left out.
\<close>

record csr =
  csr_URIs :: "url list"
  csr_PublicKey :: string

record cert_template =
  tp_SerialNumber :: nat
  tp_CommonName :: string
  tp_IsCA :: bool
  tp_URIs :: "url list"

record 'h pki =
  pk_pem :: "string \<Rightarrow> (string \<times> string) option"
  pk_csr :: "string \<Rightarrow> csr result"
  pk_signed :: "csr \<Rightarrow> bool"
  pk_ca :: "string \<Rightarrow> string \<Rightarrow> 'h \<Rightarrow> (string \<times> string) result"
  pk_serial :: "(nat, 'h) act"
  pk_sign :: "cert_template \<Rightarrow> string \<Rightarrow> string \<Rightarrow> string \<Rightarrow> (string, 'h) act"

text \<open>The bytes of a body up to its end, with the error that ended it, if any.\<close>

definition ioReadAllLimit :: "string \<times> error option \<Rightarrow> nat \<Rightarrow> string result" where
  "ioReadAllLimit body limit =
     (let b = take (limit + 1) (fst body) in
      case snd body of
        Some e \<Rightarrow> if length (fst body) < limit + 1 then Inl e else Inl (Err ''request too large'')
      | None \<Rightarrow> if length b > limit then Inl (Err ''request too large'') else Inr b)"

definition parseCSRFromPEM :: "'h pki \<Rightarrow> string \<Rightarrow> csr result" where
  "parseCSRFromPEM pk pemBytes =
     (case pk_pem pk pemBytes of
        None \<Rightarrow> Inl (Err ''no pem block'')
      | Some (typ, bytes) \<Rightarrow>
          if typ \<noteq> ''CERTIFICATE REQUEST'' \<and> typ \<noteq> ''NEW CERTIFICATE REQUEST''
          then Inl (Err (''unexpected pem type: '' @ typ)) else pk_csr pk bytes)"

definition spiffe_url :: "string \<Rightarrow> url" where
  "spiffe_url containerId = \<lparr>u_Scheme = ''spiffe'', u_Host = ''raind'', u_Path = ''container/'' @ containerId\<rparr>"

text \<open>\<open>URL.String\<close> puts a slash between the host and a path without one.\<close>

definition url_string :: "url \<Rightarrow> string" where
  "url_string u = u_Scheme u @ ''://'' @ u_Host u @ (if u_Path u \<noteq> [] \<and> hd (u_Path u) \<noteq> CHR ''/'' then ''/'' else []) @ u_Path u"

definition IssueClientCertFromCSR ::
  "'h pki \<Rightarrow> csr \<Rightarrow> string \<Rightarrow> string \<Rightarrow> url \<Rightarrow> (string \<times> string \<times> string, 'h daemon) act" where
  "IssueClientCertFromCSR pk req caCert caKey spiffe =
     (let parts = split_on (CHR ''/'') (trim_prefix (u_Path spiffe) ''/'') in
      if length parts \<noteq> 2 \<or> parts ! 0 \<noteq> ''container'' then fail (Err ''invalid SPIFFE ID format'')
      else if parts ! 1 = [] then fail (Err ''container id empty'')
      else bnd (or_zero False (csm_do (query (\<lambda>cs. Inr (IsContainerExist (parts ! 1) cs))))) (\<lambda>ok.
        if \<not> ok then fail (Err ''invalid container id'')
        else bnd (container_info (parts ! 1)) (\<lambda>info.
          if c_State info \<noteq> ''creating'' then fail (Err ''invalid container id'')
          else bnd (on_host (pk_serial pk)) (\<lambda>serial.
            let newSpiffeId = spiffe_url (c_ContainerId info) in
            bnd (on_host (pk_sign pk \<lparr>tp_SerialNumber = serial, tp_CommonName = ''raind-client'', tp_IsCA = False, tp_URIs = [newSpiffeId]\<rparr>
                 caCert (csr_PublicKey req) caKey)) (\<lambda>certDer.
              ret (certDer, parts ! 1, url_string newSpiffeId))))))"

text \<open>The answer is the certificate or a status with a message.\<close>

definition issue_and_record :: "'h pki \<Rightarrow> csr \<Rightarrow> url \<Rightarrow> string \<Rightarrow> string \<Rightarrow> (response + string, 'h daemon) act" where
  "issue_and_record pk req spiffeId caCert caKey =
     bnd (attempt (IssueClientCertFromCSR pk req caCert caKey spiffeId)) (\<lambda>r.
       case r of
         Inl e \<Rightarrow> ret (Inl (500, ''issue cert: '' @ err_text e))
       | Inr (certDer, containerId, newSpiffe) \<Rightarrow>
           bnd (attempt (csm_do (upd (UpdateSpiffe containerId newSpiffe)))) (\<lambda>u.
             case u of
               Inl e \<Rightarrow> ret (Inl (500, ''update spiffe: '' @ err_text e))
             | Inr _ \<Rightarrow> ret (Inr certDer)))"

definition SignCSRHandler :: "'h pki \<Rightarrow> string \<times> error option \<Rightarrow> (response + string, 'h daemon) act" where
  "SignCSRHandler pk body d =
     (case ioReadAllLimit body (2 ^ 20) of
        Inl e \<Rightarrow> (Inr (Inl (400, ''request body: '' @ err_text e)), d)
      | Inr csrPem \<Rightarrow> (case parseCSRFromPEM pk csrPem of
          Inl e \<Rightarrow> (Inr (Inl (400, ''invalid csr'')), d)
        | Inr req \<Rightarrow>
            if \<not> pk_signed pk req then (Inr (Inl (400, ''csr signture invalid'')), d)
            else (case extractAndValidateSPIFFE (csr_URIs req) ''raind'' of
              Inl e \<Rightarrow> (Inr (Inl (403, ''spiffe policy denied: '' @ err_text e)), d)
            | Inr (spiffeId, role, i) \<Rightarrow>
                if role \<noteq> ''container'' then (Inr (Inl (403, ''role not allowed'')), d)
                else (case pk_ca pk ''/etc/raind/cert/raindClientCA.crt'' ''/etc/raind/cert/raindClientCA.key'' (d_host d) of
                  Inl e \<Rightarrow> (Inr (Inl (500, ''load ca: '' @ err_text e)), d)
                | Inr (caCert, caKey) \<Rightarrow> issue_and_record pk req spiffeId caCert caKey d))))"

subsection \<open>A hook touches one container\<close>

lemma attempt_Inr: "attempt m s = (Inr r, t) \<longleftrightarrow> m s = (r, t) \<and> (\<forall>p. r \<noteq> Inl (Panic p))"
  by (cases "m s"; cases "fst (m s)"; cases "projl (fst (m s))") (auto simp: attempt_def)

definition only_container :: "string \<Rightarrow> 'h daemon \<Rightarrow> 'h daemon \<Rightarrow> bool" where
  "only_container cid d0 d \<longleftrightarrow> io_ok d \<and> d_ipam d = d_ipam d0 \<and> csm_inv (d_csm d) \<and>
     (\<forall>j. j \<noteq> cid \<longrightarrow> map_of (Containers (d_csm d)) j = map_of (Containers (d_csm d0)) j)"

lemma only_container_op:
  assumes "csm_target op = Some cid"
  shows "stable (only_container cid d0) (csm_do (upd (csm_apply op)))"
proof (unfold stable_def, intro allI impI)
  fix d assume d: "only_container cid d0 d"
  then have io: "io_ok d" and inv: "csm_inv (d_csm d)" by (auto simp: only_container_def)
  show "only_container cid d0 (snd (csm_do (upd (csm_apply op)) d))"
  proof (cases "csm_apply op (d_csm d)")
    case (Inl e)
    then show ?thesis using d csm_upd_step(2) [OF io, of "csm_apply op"] by simp
  next
    case (Inr cs)
    then show ?thesis
      using d csm_upd_step(1) [OF io, of "csm_apply op", OF Inr] csm_apply_inv [OF inv Inr] csm_view_other [OF inv Inr] assms
      by (simp add: only_container_def io_ok_def)
  qed
qed

lemma only_container_access [stable_intros]:
  "stable (only_container cid d0) (psm_do f)" "stable (only_container cid d0) (csm_do (query g))" "stable (only_container cid d0) (on_host m)"
  by (auto simp: stable_def only_container_def access_def store_access_simps io_ok_def query_def on_host_def split: sum.splits prod.splits)

lemma only_container_csm [stable_intros]:
  "stable (only_container cid d0) (csm_do (upd (UpdateContainer now cid s p)))"
  "stable (only_container cid d0) (csm_do (upd (UpdateExitStatus cid e r m)))"
  "stable (only_container cid d0) (csm_do (upd (RemoveContainer cid)))"
  "stable (only_container cid d0) (csm_do (upd (UpdateSpiffe cid sp)))"
  using only_container_op [of "Op_UpdateContainer now cid s p" cid] only_container_op [of "Op_UpdateExitStatus cid e r m" cid]
    only_container_op [of "Op_RemoveContainer cid" cid] only_container_op [of "Op_UpdateSpiffe cid sp" cid]
  by (simp_all add: fun_eq_iff)

lemma only_container_commit [stable_intros]: "stable (only_container cid d0) (CommitPolicy run)"
proof (unfold stable_def, intro allI impI)
  fix d assume d: "only_container cid d0 d"
  then have "unchanged d (snd (CommitPolicy run d))"
    using commit_unchanged [of d run] by (simp add: stable_def unchanged_def only_container_def)
  with d show "only_container cid d0 (snd (CommitPolicy run d))" by (simp add: only_container_def unchanged_def)
qed

lemma HookAction_only: "stable (only_container (hs_Id st) d0) (HookAction w st ev)"
  unfolding HookAction_def hook_update_def ChangeCgroupMode_def updatePodNamespacesIfOwner_def Now_def
  by (intro stable_intros stable_wrap)

text \<open>The container a signing request is for.\<close>

definition csr_container :: "'h pki \<Rightarrow> string \<times> error option \<Rightarrow> string option" where
  "csr_container pk body =
     (case bind_res (ioReadAllLimit body (2 ^ 20)) (parseCSRFromPEM pk) of
        Inl e \<Rightarrow> None
      | Inr req \<Rightarrow> (case extractAndValidateSPIFFE (csr_URIs req) ''raind'' of Inl e \<Rightarrow> None | Inr (u, role, i) \<Rightarrow> Some i))"

lemma extract_url:
  "extractAndValidateSPIFFE uris t = Inr (u, role, i) \<Longrightarrow>
     uris = [u] \<and> u_Scheme u = ''spiffe'' \<and> u_Host u = t \<and> split_on (CHR ''/'') (trim_prefix (u_Path u) ''/'') = [role, i] \<and>
     role \<noteq> [] \<and> i \<noteq> [] \<and> isSafeID i"
  by (auto simp: extractAndValidateSPIFFE_def Let_def length_Suc_conv numeral_2_eq_2 split: list.splits if_splits)

lemma issue_only: "stable (only_container i d0) (IssueClientCertFromCSR pk req c k u)"
  unfolding IssueClientCertFromCSR_def container_info_def Let_def by (intro stable_intros)

lemma issue_id:
  assumes "IssueClientCertFromCSR pk req c k u d = (Inr (der, i, sp), d')"
  shows "\<exists>role. split_on (CHR ''/'') (trim_prefix (u_Path u) ''/'') = [role, i]"
  using assms by (auto simp: IssueClientCertFromCSR_def Let_def bnd_Inr length_Suc_conv numeral_2_eq_2 split: if_splits)

lemma record_only:
  assumes u: "split_on (CHR ''/'') (trim_prefix (u_Path u) ''/'') = [role, i]"
  shows "stable (only_container i d0) (issue_and_record pk req u c k)"
proof (unfold stable_def, intro allI impI)
  fix d assume d: "only_container i d0 d"
  obtain r t where a: "IssueClientCertFromCSR pk req c k u d = (r, t)" by fastforce
  have t: "only_container i d0 t" using stableD [OF issue_only a d] .
  show "only_container i d0 (snd (issue_and_record pk req u c k d))"
  proof (cases r)
    case (Inl e)
    then show ?thesis using a t by (cases e) (simp_all add: issue_and_record_def bnd_def attempt_def)
  next
    case (Inr v)
    obtain der j sp where v: "v = (der, j, sp)" by (cases v) auto
    then have ji: "j = i" using issue_id [of pk req c k u d der j sp t] a Inr u by simp
    have "stable (only_container i d0) (attempt (csm_do (upd (UpdateSpiffe i sp))))" by (intro stable_intros)
    then have "only_container i d0 (snd (attempt (csm_do (upd (UpdateSpiffe i sp))) t))" using t by (simp add: stable_def)
    then show ?thesis using a Inr v ji by (auto simp: issue_and_record_def bnd_def split: prod.splits sum.splits)
  qed
qed

lemma SignCSRHandler_only:
  assumes "csr_container pk body \<in> {None, Some i}"
  shows "stable (only_container i d0) (SignCSRHandler pk body)"
proof -
  have "stable (only_container i d0) (issue_and_record pk req u c k)"
    if "ioReadAllLimit body (2 ^ 20) = Inr pem" "parseCSRFromPEM pk pem = Inr req"
      "extractAndValidateSPIFFE (csr_URIs req) ''raind'' = Inr (u, role, i')" for pem req u role i' c k
  proof -
    have "i' = i" using assms that by (simp add: csr_container_def bind_res_def)
    then show ?thesis using extract_url [OF that(3)] by (intro record_only) auto
  qed
  then show ?thesis by (auto simp: stable_def SignCSRHandler_def split: sum.splits)
qed

subsection \<open>A runtime that reaches the daemon through its hooks\<close>

text \<open>
  What the runtime does to the daemon while it works on a container: it changes the host, it posts
  states of the container to the hook service and has a certificate for the container signed.
\<close>

inductive hook_run :: "'h world \<Rightarrow> 'h pki \<Rightarrow> string \<Rightarrow> 'h daemon \<Rightarrow> 'h daemon \<Rightarrow> bool" for w pk cid where
  run_done: "hook_run w pk cid d d"
| run_host: "hook_run w pk cid d d1 \<Longrightarrow> hook_run w pk cid d (d1\<lparr>d_host := h\<rparr>)"
| run_hook: "hook_run w pk cid d d1 \<Longrightarrow> hs_Id st = cid \<Longrightarrow> HookAction w st ev d1 = (r, d2) \<Longrightarrow> hook_run w pk cid d d2"
| run_sign: "hook_run w pk cid d d1 \<Longrightarrow> csr_container pk body \<in> {None, Some cid} \<Longrightarrow> SignCSRHandler pk body d1 = (r', d2) \<Longrightarrow>
    hook_run w pk cid d d2"

lemma hook_run_only: "hook_run w pk cid d d' \<Longrightarrow> only_container cid d0 d \<Longrightarrow> only_container cid d0 d'"
proof (induction rule: hook_run.induct)
  case (run_host d d1 h)
  then show ?case by (simp add: only_container_def io_ok_def)
next
  case (run_hook d d1 st ev r d2)
  then show ?case using stableD [OF HookAction_only [of st d0 w ev]] by blast
next
  case (run_sign d d1 body r' d2)
  then show ?case using stableD [OF SignCSRHandler_only [of pk body cid d0]] by blast
qed

text \<open>C17: what the creation of containers relies on of the runtime follows from the hooks: a runtime
  that, for a container, reaches the daemon only through the hook service and the signing endpoint
  keeps the addresses and the entries of all other containers.\<close>

theorem hooks_meet_runtime_laws:
  assumes "\<And>cmd d out d'. cid \<in> set cmd \<or> take 2 cmd = [''droplet'', ''spec''] \<Longrightarrow> w_droplet w cmd d = (out, d') \<Longrightarrow> hook_run w pk cid d d'"
  shows "runtime_laws w cid"
proof -
  have "only_container cid d d'" if "cid \<in> set cmd \<or> take 2 cmd = [''droplet'', ''spec'']" "w_droplet w cmd d = (out, d')"
    "io_ok d" "csm_inv (d_csm d)" for cmd d out d'
    using hook_run_only [OF assms [OF that(1,2)], of d] that(3,4) by (simp add: only_container_def)
  then show ?thesis unfolding runtime_laws_def only_container_def by blast
qed

text \<open>A hook other than \<open>poststop\<close> and a signing request leave what an entry says of its container.\<close>

lemma touch_identity [simp]: "identity (touch_container now s c) = identity c"
  by (simp add: touch_container_def identity_def)

lemma op_identity:
  assumes "csm_apply op cs = Inr cs'" "op \<in> {Op_UpdateContainer now i s p, Op_UpdateExitStatus i e r m, Op_UpdateSpiffe i sp}"
  shows "map_option identity (map_of (Containers cs') cid) = map_option identity (map_of (Containers cs) cid)"
  using assms
  by (auto simp: UpdateContainer_def UpdateExitStatus_def UpdateSpiffe_def Let_def identity_def touch_container_def split: option.splits if_splits)

lemma entry_op:
  assumes "\<And>cs cs'. csm_apply op cs = Inr cs' \<Longrightarrow>
    map_option identity (map_of (Containers cs') cid) = map_option identity (map_of (Containers cs) cid)"
  shows "stable (stores_ok (has_entry cid x)) (csm_do (upd (csm_apply op)))"
proof (unfold stable_def, intro allI impI)
  fix d :: "'a daemon" assume d: "stores_ok (has_entry cid x) d"
  then have io: "io_ok d" and inv: "csm_inv (d_csm d)" by (auto simp: stores_ok_def has_entry_def)
  show "stores_ok (has_entry cid x) (snd (csm_do (upd (csm_apply op)) d))"
  proof (cases "csm_apply op (d_csm d)")
    case (Inl e)
    then show ?thesis using d csm_upd_step(2) [OF io, of "csm_apply op"] by simp
  next
    case (Inr cs)
    then show ?thesis
      using d csm_upd_step(1) [OF io, of "csm_apply op", OF Inr] csm_apply_inv [OF inv Inr] assms [OF Inr]
      by (simp add: stores_ok_def has_entry_def)
  qed
qed

lemma entry_csm:
  "stable (stores_ok (has_entry cid x)) (csm_do (upd (UpdateContainer now i s p)))"
  "stable (stores_ok (has_entry cid x)) (csm_do (upd (UpdateExitStatus i e r m)))"
  "stable (stores_ok (has_entry cid x)) (csm_do (upd (UpdateSpiffe i sp)))"
proof -
  have e: "stable (stores_ok (has_entry cid x)) (csm_do (upd (csm_apply op)))"
    if "op \<in> {Op_UpdateContainer now i s p, Op_UpdateExitStatus i e r m, Op_UpdateSpiffe i sp}" for op
    by (rule entry_op) (rule op_identity [OF _ that])
  show "stable (stores_ok (has_entry cid x)) (csm_do (upd (UpdateContainer now i s p)))"
    using e [of "Op_UpdateContainer now i s p"] by simp
  show "stable (stores_ok (has_entry cid x)) (csm_do (upd (UpdateExitStatus i e r m)))"
    using e [of "Op_UpdateExitStatus i e r m"] by simp
  show "stable (stores_ok (has_entry cid x)) (csm_do (upd (UpdateSpiffe i sp)))"
    using e [of "Op_UpdateSpiffe i sp"] by simp
qed

lemma commit_entry: "stable (stores_ok (has_entry cid x)) (CommitPolicy run)"
proof (unfold stable_def, intro allI impI)
  fix d :: "'a daemon" assume d: "stores_ok (has_entry cid x) d"
  then have "unchanged d (snd (CommitPolicy run d))"
    using commit_unchanged [of d run] by (simp add: stable_def unchanged_def stores_ok_def)
  with d show "stores_ok (has_entry cid x) (snd (CommitPolicy run d))" by (simp add: stores_ok_def unchanged_def)
qed

lemma hook_keeps_entry: "ev \<noteq> ''poststop'' \<Longrightarrow> stable (stores_ok (has_entry cid x)) (HookAction w st ev)"
  unfolding HookAction_def hook_update_def ChangeCgroupMode_def updatePodNamespacesIfOwner_def
  by (intro store_intros entry_csm commit_entry; simp)

lemma signing_keeps_entry: "stable (stores_ok (has_entry cid x)) (SignCSRHandler pk body)"
proof -
  have "stable (stores_ok (has_entry cid x)) (issue_and_record pk req u c k)" for req u c k
    unfolding issue_and_record_def IssueClientCertFromCSR_def container_info_def Let_def
    by (intro store_intros entry_csm)
  then show ?thesis by (auto simp: stable_def SignCSRHandler_def split: sum.splits)
qed

subsection \<open>Hook requests are authorised by their certificate\<close>

lemma validate_one:
  assumes "io_ok d" "CHR ''/'' \<notin> set i"
  shows "\<exists>v. validateSpiffe ([(x, Some \<lparr>u_Scheme = ''spiffe'', u_Host = ''raind'', u_Path = ''/container/'' @ i\<rparr>)] # chain) st d = (v, d) \<and>
    (\<forall>b. v = Inr b \<longrightarrow> hs_Id st = i) \<and> (\<forall>m. v \<noteq> Inl (Panic m))"
proof -
  have "split_on (CHR ''/'') (''container/'' @ i) = [''container'', i]" using assms(2) by (simp add: split_on_no_sep)
  moreover have "trim_prefix (''/container/'' @ i) ''/'' = ''container/'' @ i" by (simp add: trim_prefix_def has_prefix_def)
  ultimately show ?thesis using assms(1) by (simp add: validateSpiffe_def Let_def access_ok)
qed

text \<open>C13: a hook request changes no container but the one its certificate names: with a certificate
  for container \<open>i\<close>, whatever the body says, every other container and every address is as before; a
  request that is refused changes nothing, and one that is not refused is about \<open>i\<close>.\<close>

theorem hook_authorised:
  assumes io: "io_ok d" and inv: "csm_inv (d_csm d)" and i: "CHR ''/'' \<notin> set i"
    and peers: "hq_Peers r = [(x, Some \<lparr>u_Scheme = ''spiffe'', u_Host = ''raind'', u_Path = ''/container/'' @ i\<rparr>)] # chain"
    and run: "ApplyHook w json r d = (Inr (status, msg), d')"
  shows "(\<forall>j. j \<noteq> i \<longrightarrow> GetContainerById j (d_csm d') = GetContainerById j (d_csm d)) \<and> d_ipam d' = d_ipam d \<and>
    (status \<in> {400, 403} \<longrightarrow> d' = d) \<and>
    (status \<in> {200, 500} \<longrightarrow> (\<exists>body st. hq_Body r = Inr body \<and> json body = Inr st \<and> hs_Id st = i)) \<and> status \<in> {200, 400, 403, 500}"
proof (cases "\<exists>body st. hq_Event r \<noteq> [] \<and> hq_Body r = Inr body \<and> json body = Inr st")
  case False
  then have "d' = d \<and> status = 400" using run by (auto simp: ApplyHook_def split: if_splits sum.splits)
  then show ?thesis by simp
next
  case True
  then obtain body st where st: "hq_Event r \<noteq> []" "hq_Body r = Inr body" "json body = Inr st" by blast
  obtain v where v: "validateSpiffe (hq_Peers r) st d = (v, d)" "\<And>b. v = Inr b \<Longrightarrow> hs_Id st = i" "\<And>m. v \<noteq> Inl (Panic m)"
    using validate_one [OF io i, of x chain st] peers by auto
  show ?thesis
  proof (cases v)
    case (Inl e)
    then obtain m where "e = Err m" using v(3) by (cases e) auto
    then have "d' = d \<and> status = 403" using run st v(1) Inl by (simp add: ApplyHook_def)
    then show ?thesis by simp
  next
    case (Inr b)
    obtain a d1 where a: "HookAction w st (hq_Event r) d = (a, d1)" by fastforce
    have d1: "only_container i d d1"
      using stableD [OF HookAction_only [of st d] a] v(2) [OF Inr] io inv by (simp add: only_container_def)
    have "d' = d1 \<and> status \<in> {200, 500}"
      using run st v(1) Inr a by (cases a; cases "projl a") (auto simp: ApplyHook_def attempt_def bnd_def)
    then show ?thesis using d1 inv st v(2) [OF Inr] by (auto simp: only_container_def GetContainerById_map)
  qed
qed

text \<open>A certificate without a URI passes the check for every container.\<close>

lemma no_uri_certificate: "validateSpiffe ([] # chain) st d = (Inr True, d)"
  by (simp add: validateSpiffe_def)

lemma record_Inr:
  assumes "issue_and_record pk req u ca key d = (Inr (Inr der), d')"
  obtains j sp t where "IssueClientCertFromCSR pk req ca key u d = (Inr (der, j, sp), t)" "csm_do (upd (UpdateSpiffe j sp)) t = (Inr (), d')"
proof -
  obtain r t where r: "attempt (IssueClientCertFromCSR pk req ca key u) d = (Inr r, t)"
    using assms unfolding issue_and_record_def bnd_Inr by blast
  with assms obtain der' j sp where j: "r = Inr (der', j, sp)" by (cases r) (auto simp: issue_and_record_def)
  obtain v t' where v: "attempt (csm_do (upd (UpdateSpiffe j sp))) t = (Inr v, t')"
    using assms r j by (auto simp: issue_and_record_def bnd_Inr)
  with assms r j have "der' = der" "t' = d'" "v = Inr ()" by (cases v; simp add: issue_and_record_def)+
  then show ?thesis using that r v j by (simp add: attempt_Inr)
qed

lemma container_info_at:
  assumes "io_ok d" "csm_inv (d_csm d)"
  shows "container_info i d = (Inr (case map_of (Containers (d_csm d)) i of None \<Rightarrow> zero_container | Some c \<Rightarrow> c), d)"
  using assms by (cases "map_of (Containers (d_csm d)) i") (simp_all add: container_info_def or_zero_def GetContainerById_map access_ok access_error)

lemma issue_Inr:
  assumes io: "io_ok d" and inv: "csm_inv (d_csm d)" and parts: "split_on (CHR ''/'') (trim_prefix (u_Path u) ''/'') = [role, i]"
    and iss: "IssueClientCertFromCSR pk req ca key u d = (Inr (der, j, sp), t)"
  obtains c serial h1 h2 where "map_of (Containers (d_csm d)) i = Some c" "c_State c = ''creating''" "sp = url_string (spiffe_url i)"
    "pk_sign pk \<lparr>tp_SerialNumber = serial, tp_CommonName = ''raind-client'', tp_IsCA = False, tp_URIs = [spiffe_url i]\<rparr>
        ca (csr_PublicKey req) key h1 = (Inr der, h2)"
proof -
  let ?info = "case map_of (Containers (d_csm d)) i of None \<Rightarrow> zero_container | Some c \<Rightarrow> c"
  have st: "c_State ?info = ''creating''"
    using iss parts io inv by (auto simp: IssueClientCertFromCSR_def Let_def access_ok container_info_at split: if_splits)
  then obtain c where c: "map_of (Containers (d_csm d)) i = Some c" by (cases "map_of (Containers (d_csm d)) i") (auto simp: zero_container_def)
  obtain serial t1 where "on_host (pk_serial pk) d = (Inr serial, t1)"
      and sign: "on_host (pk_sign pk \<lparr>tp_SerialNumber = serial, tp_CommonName = ''raind-client'', tp_IsCA = False, tp_URIs = [spiffe_url i]\<rparr>
        ca (csr_PublicKey req) key) t1 = (Inr der, t)" and sp: "sp = url_string (spiffe_url i)"
    using iss parts io inv c csm_key [OF inv c]
    by (auto simp: IssueClientCertFromCSR_def Let_def access_ok container_info_at bnd_Inr split: if_splits)
  then show ?thesis using that [OF c _ sp] st c by (auto simp: on_host_def split: prod.splits)
qed

text \<open>C15: a certificate is signed only while its container is being created, and it names this
  container: when the signing endpoint answers with a certificate, the request had one SPIFFE URI, of a
  container in state \<open>creating\<close>; what was signed is a client certificate for exactly this container,
  which the container store now has as its SPIFFE identifier; no other container has changed.\<close>

theorem certificate_names_container:
  assumes io: "io_ok d" and inv: "csm_inv (d_csm d)" and run: "SignCSRHandler pk body d = (Inr (Inr der), d')"
  shows "\<exists>i c. csr_container pk body = Some i \<and> map_of (Containers (d_csm d)) i = Some c \<and> c_State c = ''creating'' \<and>
    (\<exists>t ca key ckey h h'. pk_sign pk t ca key ckey h = (Inr der, h') \<and> \<not> tp_IsCA t \<and> map url_string (tp_URIs t) = [''spiffe://raind/container/'' @ i]) \<and>
    GetSpiffeById i (d_csm d') = Inr (''spiffe://raind/container/'' @ i) \<and>
    (\<forall>j. j \<noteq> i \<longrightarrow> GetContainerById j (d_csm d') = GetContainerById j (d_csm d))"
proof -
  obtain req u role i ca key where c: "csr_container pk body = Some i"
      and u: "extractAndValidateSPIFFE (csr_URIs req) ''raind'' = Inr (u, role, i)" and go: "issue_and_record pk req u ca key d = (Inr (Inr der), d')"
    using run by (auto simp: SignCSRHandler_def csr_container_def bind_res_def split: sum.splits if_splits)
  have parts: "split_on (CHR ''/'') (trim_prefix (u_Path u) ''/'') = [role, i]" using extract_url [OF u] by simp
  obtain j sp t where iss: "IssueClientCertFromCSR pk req ca key u d = (Inr (der, j, sp), t)"
      and up: "csm_do (upd (UpdateSpiffe j sp)) t = (Inr (), d')"
    by (rule record_Inr [OF go])
  have j: "j = i" using issue_id [OF iss] parts by simp
  obtain c serial h1 h2 where cm: "map_of (Containers (d_csm d)) i = Some c" "c_State c = ''creating''" and sp: "sp = url_string (spiffe_url i)"
      and sign: "pk_sign pk \<lparr>tp_SerialNumber = serial, tp_CommonName = ''raind-client'', tp_IsCA = False, tp_URIs = [spiffe_url i]\<rparr>
        ca (csr_PublicKey req) key h1 = (Inr der, h2)"
    by (rule issue_Inr [OF io inv parts iss])
  have t: "only_container i d t" using stableD [OF issue_only [of i d] iss] io inv by (simp add: only_container_def)
  have d': "only_container i d d'" using stableD [OF only_container_csm(4) up [unfolded j] t] .
  obtain cs where cs: "UpdateSpiffe i sp (d_csm t) = Inr cs" "d_csm d' = cs"
    using up t csm_upd_step [of t "UpdateSpiffe i sp"] by (cases "UpdateSpiffe i sp (d_csm t)") (auto simp: j only_container_def)
  then obtain c' where c': "cs = (d_csm t)\<lparr>Containers := mput i (c'\<lparr>c_SpiffeId := sp\<rparr>) (Containers (d_csm t))\<rparr>"
    by (cases "map_of (Containers (d_csm t)) i") (auto simp: UpdateSpiffe_def)
  have "map_of (Containers (d_csm d')) i = Some (c'\<lparr>c_SpiffeId := sp\<rparr>)" unfolding cs(2) c' by simp
  then have "GetSpiffeById i (d_csm d') = Inr sp"
    using csm_scan [of "d_csm d'" i] d' by (simp add: GetSpiffeById_def only_container_def)
  moreover have "url_string (spiffe_url i) = ''spiffe://raind/container/'' @ i" by (simp add: url_string_def spiffe_url_def)
  moreover have "\<exists>t ca key ckey h h'. pk_sign pk t ca key ckey h = (Inr der, h') \<and> \<not> tp_IsCA t \<and> map url_string (tp_URIs t) = [url_string (spiffe_url i)]"
    by (intro exI conjI, rule sign) simp_all
  ultimately show ?thesis using c cm sp d' inv by (auto simp: only_container_def GetContainerById_map)
qed

subsection \<open>Examples\<close>

definition hook_state :: "string \<Rightarrow> string \<Rightarrow> int \<Rightarrow> ServiceStateModel" where
  "hook_state i status pid =
     \<lparr>hs_OciVersion = ''1.3.0'', hs_Id = i, hs_Status = status, hs_Pid = pid, hs_ExitCode = 0, hs_Reason = '''', hs_Message = '''',
      hs_Rootfs = '''', hs_Bundler = '''', hs_Annotations = \<lparr>an_AnnotationVersion = '''', an_NetConfig = '''', an_ImageConfig = ''''\<rparr>\<rparr>"

text \<open>A runtime that starts, kills and deletes containers and posts the states to the hooks.\<close>

definition posting_droplet :: "'h world \<Rightarrow> int \<Rightarrow> command \<Rightarrow> 'h daemon \<Rightarrow> (string \<times> error option) \<times> 'h daemon" where
  "posting_droplet w pid cmd d =
     (let post = (\<lambda>status p ev. (('''', None), snd (HookAction w (hook_state (last cmd) status p) ev d))) in
      if take 2 cmd = [''droplet'', ''start''] then post ''running'' pid ''poststart''
      else if take 2 cmd = [''droplet'', ''kill''] then post ''stopped'' 0 ''stopContainer''
      else if take 2 cmd = [''droplet'', ''delete''] then post ''stopped'' 0 ''poststop''
      else (('''', None), d))"

definition posting_world :: "(string \<rightharpoonup> string) world" where
  "posting_world = demo_world\<lparr>w_droplet := \<lambda>cmd d. if length cmd = 3 then posting_droplet demo_world 4242 cmd d else (('''', None), d)\<rparr>"

lemma HookAction_world: "HookAction (w\<lparr>w_droplet := f\<rparr>) = HookAction w"
  by (simp add: fun_eq_iff HookAction_def hook_update_def ChangeCgroupMode_def)

text \<open>A running container posts its state; its certificate is for it, so the other container is as before.\<close>

theorem hooks_meet_runtime_laws_witness: "runtime_laws posting_world ''i1''"
proof (rule hooks_meet_runtime_laws)
  fix cmd out and d d' :: "(string \<rightharpoonup> string) daemon"
  assume cmd: "''i1'' \<in> set cmd \<or> take 2 cmd = [''droplet'', ''spec'']" and run: "w_droplet posting_world cmd d = (out, d')"
  have eq: "HookAction posting_world = HookAction demo_world" by (simp add: posting_world_def HookAction_world)
  show "hook_run posting_world undefined ''i1'' d d'"
  proof (cases "d' = d")
    case True
    then show ?thesis by (simp add: run_done)
  next
    case False
    then obtain x y z where c3: "cmd = [x, y, z]" using run by (auto simp: posting_world_def length_Suc_conv numeral_3_eq_3 split: if_splits)
    have z: "z = ''i1''" using cmd run False c3 by (auto simp: posting_world_def posting_droplet_def Let_def split: if_splits)
    obtain status p ev where "d' = snd (HookAction posting_world (hook_state ''i1'' status p) ev d)"
      using run False c3 z by (auto simp: posting_world_def posting_droplet_def Let_def HookAction_world split: if_splits)
    then have "HookAction posting_world (hook_state ''i1'' status p) ev d = (fst (HookAction posting_world (hook_state ''i1'' status p) ev d), d')"
      by simp
    moreover have "hs_Id (hook_state ''i1'' status p) = ''i1''" by (simp add: hook_state_def)
    ultimately show ?thesis using run_hook [OF run_done] by metis
  qed
qed

definition demo_json :: "string \<Rightarrow> ServiceStateModel result" where
  "demo_json body = Inr (hook_state body ''running'' 9)"

theorem hook_authorised_witness:
  "ApplyHook demo_world demo_json
     \<lparr>hq_Event = ''poststart'', hq_Body = Inr ''i2'', hq_Peers = [[(''u'', Some \<lparr>u_Scheme = ''spiffe'', u_Host = ''raind'', u_Path = ''/container/i1''\<rparr>)]]\<rparr>
     demo_machine =
     (Inr (403, ''validate failed: SPIFFE ID did not match the state ID: spiffe=i1, state=i2''), demo_machine)"
    (is "ApplyHook _ _ ?r _ = ?x")
proof -
  have run: "ApplyHook demo_world demo_json ?r demo_machine = (Inr (403, ''validate failed: SPIFFE ID did not match the state ID: spiffe=i1, state=i2''), snd (ApplyHook demo_world demo_json ?r demo_machine))"
    by (simp add: ApplyHook_def demo_json_def hook_state_def validateSpiffe_def Let_def trim_prefix_def has_prefix_def access_ok IsContainerExist_def
        GetContainerIdByName_def GetContainerNameById_def csm_demo_def demo_container_def)
  have "snd (ApplyHook demo_world demo_json ?r demo_machine) = demo_machine"
    using hook_authorised [OF _ _ _ _ run, of "''i1''" "''u''" "[]"] csm_demo_inv by simp
  with run show ?thesis by simp
qed

definition demo_pki :: "(string \<rightharpoonup> string) pki" where
  "demo_pki = \<lparr>pk_pem = (\<lambda>b. Some (''CERTIFICATE REQUEST'', b)),
     pk_csr = (\<lambda>b. Inr \<lparr>csr_URIs = [\<lparr>u_Scheme = ''spiffe'', u_Host = ''raind'', u_Path = ''/container/'' @ b\<rparr>], csr_PublicKey = ''pub''\<rparr>),
     pk_signed = (\<lambda>r. True), pk_ca = (\<lambda>c k h. Inr (''ca'', ''key'')), pk_serial = (\<lambda>h. (Inr 1, h)), pk_sign = (\<lambda>t ca k ck h. (Inr ''der'', h))\<rparr>"

definition creating_machine :: "(string \<rightharpoonup> string) daemon" where
  "creating_machine = demo_machine\<lparr>d_csm := \<lparr>cs_Version = ''0.1.0'', Containers = [(''i3'', (demo_container ''i3'' ''new'')\<lparr>c_State := ''creating''\<rparr>)]\<rparr>\<rparr>"

theorem certificate_names_container_witness:
  "GetSpiffeById ''i3'' (d_csm (snd (SignCSRHandler demo_pki (''i3'', None) creating_machine))) = Inr ''spiffe://raind/container/i3''"
proof -
  have io: "io_ok creating_machine" and inv: "csm_inv (d_csm creating_machine)"
    by (simp_all add: creating_machine_def io_ok_def demo_machine_def demo_daemon_def csm_inv_def keyed_def mwf_def demo_container_def)
  have names: "csr_container demo_pki (''i3'', None) = Some ''i3''"
    by (simp add: csr_container_def bind_res_def ioReadAllLimit_def demo_pki_def parseCSRFromPEM_def extractAndValidateSPIFFE_def
        Let_def trim_prefix_def has_prefix_def isSafeID_def less_eq_char_def)
  have c: "map_of (Containers (d_csm creating_machine)) ''i3'' = Some ((demo_container ''i3'' ''new'')\<lparr>c_State := ''creating''\<rparr>)"
    by (simp add: creating_machine_def)
  have known: "IsContainerExist ''i3'' (d_csm creating_machine)"
    by (simp add: creating_machine_def IsContainerExist_def GetContainerNameById_def demo_container_def)
  have up: "\<exists>d'. csm_do (upd (UpdateSpiffe ''i3'' sp)) creating_machine = (Inr (), d')" for sp
    using csm_upd_step(1) [OF io, of "UpdateSpiffe ''i3'' sp"] c by (simp add: UpdateSpiffe_def)
  have iss: "IssueClientCertFromCSR demo_pki req x y \<lparr>u_Scheme = ''spiffe'', u_Host = ''raind'', u_Path = ''/container/i3''\<rparr> creating_machine =
      (Inr (''der'', ''i3'', url_string (spiffe_url ''i3'')), creating_machine)" for req x y
    using io inv c known
    by (simp add: IssueClientCertFromCSR_def Let_def trim_prefix_def has_prefix_def access_ok container_info_at on_host_def demo_pki_def
        demo_container_def)
  have "\<exists>d'. SignCSRHandler demo_pki (''i3'', None) creating_machine = (Inr (Inr ''der''), d')"
    using iss up [of "url_string (spiffe_url ''i3'')"]
    by (auto simp: SignCSRHandler_def ioReadAllLimit_def demo_pki_def parseCSRFromPEM_def extractAndValidateSPIFFE_def
        Let_def trim_prefix_def has_prefix_def isSafeID_def less_eq_char_def issue_and_record_def)
  then show ?thesis using certificate_names_container [OF io inv] names by fastforce
qed

end
