(* ===== verification/Lifecycle.thy ===== *)
theory Lifecycle
  imports Hook
begin

text \<open>
  The life cycle of a container: the services (\<open>service_start.go\<close>, \<open>service_stop.go\<close>,
  \<open>service_delete.go\<close>) refuse what its state does not allow and change nothing then; with a runtime
  that does its work and posts it to the hooks, a created container can be started, stopped and
  deleted, and nothing of it is left.
\<close>

subsection \<open>What the services refuse\<close>

text \<open>The container that a service may work on: known, not managed by a bottle unless a bottle asks,
  and in one of the states the operation is for.\<close>

definition may_operate :: "string set \<Rightarrow> string \<Rightarrow> bool \<Rightarrow> ContainerState \<Rightarrow> bool" where
  "may_operate states target opBottle cs =
     (case ResolveContainerId target cs of
        Inl e \<Rightarrow> False
      | Inr i \<Rightarrow> (case map_of (Containers cs) i of
          None \<Rightarrow> False
        | Some c \<Rightarrow> (c_BottleId c = [] \<or> opBottle) \<and> c_State c \<in> states))"

lemma refused:
  assumes io: "io_ok d" and inv: "csm_inv (d_csm d)" and no: "\<not> may_operate S target op (d_csm d)"
    and body: "\<And>i c. c_BottleId c \<noteq> [] \<and> \<not> op \<or> c_State c \<notin> S \<Longrightarrow> \<exists>e. k i c d = (Inl (Err e), d)" and S: "[] \<notin> S"
  shows "\<exists>e. bnd (resolve_container target) (\<lambda>i. bnd (container_info i) (k i)) d = (Inl (Err e), d)"
proof (cases "ResolveContainerId target (d_csm d)")
  case (Inl e)
  then show ?thesis using io by (simp add: resolve_container_ok)
next
  case (Inr i)
  let ?c = "case map_of (Containers (d_csm d)) i of None \<Rightarrow> zero_container | Some c \<Rightarrow> c"
  have "c_BottleId ?c \<noteq> [] \<and> \<not> op \<or> c_State ?c \<notin> S"
    using no Inr S by (auto simp: may_operate_def zero_container_def split: option.splits)
  from body [OF this] show ?thesis using Inr io inv by (auto simp: resolve_container_ok container_info_at)
qed

text \<open>C40: the services refuse what the state of a container does not allow, and then nothing at all
  has changed: starting needs a container in state \<open>created\<close> or \<open>stopped\<close>, stopping one in
  state \<open>running\<close>, deleting one in state \<open>creating\<close>, \<open>created\<close> or \<open>stopped\<close>; the container must be
  known, and one of a bottle is touched only by bottle operations.\<close>

theorem lifecycle_guards:
  assumes "io_ok d" "csm_inv (d_csm d)"
  shows "(\<not> may_operate {''created'', ''stopped''} target op (d_csm d) \<longrightarrow> (\<exists>e. Start w target tty op d = (Inl (Err e), d))) \<and>
    (\<not> may_operate {''running''} target op (d_csm d) \<longrightarrow> (\<exists>e. Stop w target op d = (Inl (Err e), d))) \<and>
    (\<not> may_operate {''creating'', ''created'', ''stopped''} target op (d_csm d) \<longrightarrow> (\<exists>e. Delete w target op d = (Inl (Err e), d)))"
  unfolding Start_def Stop_def Delete_def
  by (intro conjI impI refused [OF assms]; assumption?) (auto simp: bottle_error_def)

theorem lifecycle_guards_witness:
  "(\<exists>e. Stop demo_world ''web'' False demo_machine = (Inl (Err e), demo_machine)) \<and>
   (\<exists>e. Delete demo_world ''nobody'' True demo_machine = (Inl (Err e), demo_machine))"
proof -
  have "\<not> may_operate {''running''} ''web'' False (d_csm demo_machine)"
    "\<not> may_operate {''creating'', ''created'', ''stopped''} ''nobody'' True (d_csm demo_machine)"
    by (simp_all add: may_operate_def ResolveContainerId_def GetContainerIdByName_def GetContainerById_def csm_demo_def demo_container_def)
  then show ?thesis using lifecycle_guards [of demo_machine] csm_demo_inv by simp
qed

subsection \<open>The cycle completes\<close>

text \<open>
  What is relied on of the runtime: it starts, kills and deletes the container and posts the state it
  reached to the hook service.  On the host, \<open>iptables\<close> commands and the removal of files succeed.
\<close>

definition posts :: "'h world \<Rightarrow> string \<Rightarrow> string \<Rightarrow> string \<Rightarrow> string \<Rightarrow> bool" where
  "posts w cid verb status ev \<longleftrightarrow>
     (\<forall>d. \<exists>st out. hs_Id st = cid \<and> hs_Status st = status \<and> w_droplet w [''droplet'', verb, cid] d = ((out, None), snd (HookAction w st ev d)))"

definition runtime_reports :: "'h world \<Rightarrow> string \<Rightarrow> bool" where
  "runtime_reports w cid \<longleftrightarrow> posts w cid ''start'' ''running'' ''poststart'' \<and> posts w cid ''kill'' ''stopped'' ''stopContainer'' \<and>
     posts w cid ''delete'' ''stopped'' ''poststop''"

definition host_works :: "'h world \<Rightarrow> bool" where
  "host_works w \<longleftrightarrow> (\<forall>cmd h. fst (w_run w cmd h)) \<and> (\<forall>p h. fst (os_do (w_os w) (Os_RemoveAll p) h) = Inr ()) \<and>
     (\<forall>p h. fst (os_do (w_os w) (Os_Remove p) h) = Inr ())"

text \<open>Only the entry of one container has changed, and it is in the given state.\<close>

definition entry_step :: "string \<Rightarrow> string \<Rightarrow> 'h daemon \<Rightarrow> 'h daemon \<Rightarrow> bool" where
  "entry_step cid s d d' \<longleftrightarrow> io_ok d' \<and> d_ipam d' = d_ipam d \<and>
     (\<exists>c c'. map_of (Containers (d_csm d)) cid = Some c \<and> d_csm d' = (d_csm d)\<lparr>Containers := mput cid c' (Containers (d_csm d))\<rparr> \<and>
        c_State c' = s \<and> c_ContainerId c' = c_ContainerId c \<and> c_ContainerName c' = c_ContainerName c \<and> c_BottleId c' = c_BottleId c)"

lemma touch_container_keeps [simp]:
  "c_State (touch_container now s c) = c_State c" "c_ContainerName (touch_container now s c) = c_ContainerName c"
  "c_BottleId (touch_container now s c) = c_BottleId c"
  by (simp_all add: touch_container_def)

lemma now_step:
  obtains now h where "w_now w d = (Inr now, d\<lparr>d_host := h\<rparr>)"
  by (cases "im_now (w_image w) (d_host d)") (simp add: Now_def on_host_def)

lemma wrap_ok [simp]: "m s = (Inr x, t) \<Longrightarrow> wrap_err p m s = (Inr x, t)"
  by (simp add: wrap_err_def)

lemma hook_update_step:
  assumes io: "io_ok d" and c: "map_of (Containers (d_csm d)) (hs_Id st) = Some c"
  obtains d1 where "hook_update w st d = (Inr (), d1)" "entry_step (hs_Id st) (hs_Status st) d d1"
proof -
  obtain now h where now: "w_now w d = (Inr now, d\<lparr>d_host := h\<rparr>)" by (rule now_step)
  let ?d = "d\<lparr>d_host := h\<rparr>"
  obtain cs where cs: "UpdateContainer now (hs_Id st) (hs_Status st) (hs_Pid st) (d_csm ?d) = Inr cs"
    using c by (simp add: UpdateContainer_def Let_def)
  have "hook_update w st d = (Inr (), ?d\<lparr>d_csm := cs\<rparr>)"
    using now csm_upd_step(1) [of ?d "UpdateContainer now (hs_Id st) (hs_Status st) (hs_Pid st)", OF _ cs] io
    by (simp add: hook_update_def io_ok_def)
  moreover have "entry_step (hs_Id st) (hs_Status st) d (?d\<lparr>d_csm := cs\<rparr>)"
    using cs c io by (auto simp: entry_step_def UpdateContainer_def Let_def io_ok_def split: if_splits)
  ultimately show ?thesis by (rule that)
qed

lemma entry_step_trans:
  assumes "entry_step cid s d d1" "entry_step cid s' d1 d2"
  shows "entry_step cid s' d d2"
  using assms by (fastforce simp: entry_step_def)

text \<open>The identifiers and names decide how a container is resolved.\<close>

definition names_of :: "ContainerState \<Rightarrow> (string \<times> string) list" where
  "names_of st = map (\<lambda>(i, c). (c_ContainerId c, c_ContainerName c)) (Containers st)"

lemma names_mput:
  "map_of m k = Some c \<Longrightarrow> g c' = g c \<Longrightarrow> map (\<lambda>(i, c). g c) (mput k c' m) = map (\<lambda>(i, c). g c) m"
  by (induction m) (auto split: if_splits)

lemma range_find_names:
  "map_option (\<lambda>(i, c). f c) (range_find (\<lambda>c. P (f c)) m) = List.find P (map (\<lambda>(i, c). f c) m)"
  unfolding range_find_def by (induction m) auto

lemma resolve_names: "names_of st = names_of st' \<Longrightarrow> ResolveContainerId t st = ResolveContainerId t st'"
proof -
  assume eq: "names_of st = names_of st'"
  have r: "GetContainerIdByName t s = (case List.find (\<lambda>(i, n). n = t) (names_of s) of Some (i, n) \<Rightarrow> Inr i
      | None \<Rightarrow> Inl (Err (''container: '' @ t @ '' not found'')))"
    "(case GetContainerById t s of Inl e \<Rightarrow> Inl e | Inr c \<Rightarrow> Inr t) =
      (case List.find (\<lambda>(i, n). i = t) (names_of s) of Some x \<Rightarrow> Inr t | None \<Rightarrow> Inl (Err (''container: '' @ t @ '' not found'')))" for s
    using range_find_names [of "\<lambda>c. (c_ContainerId c, c_ContainerName c)" "\<lambda>(i, n). n = t" "Containers s", symmetric]
      range_find_names [of "\<lambda>c. (c_ContainerId c, c_ContainerName c)" "\<lambda>(i, n). i = t" "Containers s", symmetric]
    by (simp_all add: GetContainerIdByName_def GetContainerById_def names_of_def split: option.split)
  show ?thesis unfolding ResolveContainerId_def r eq ..
qed

lemma entry_step_facts:
  assumes step: "entry_step cid s d d'" and inv: "csm_inv (d_csm d)"
  shows "io_ok d'" "csm_inv (d_csm d')" "ResolveContainerId t (d_csm d') = ResolveContainerId t (d_csm d)"
    "\<And>j. j \<noteq> cid \<Longrightarrow> map_of (Containers (d_csm d')) j = map_of (Containers (d_csm d)) j" "d_ipam d' = d_ipam d"
    "\<exists>c c'. map_of (Containers (d_csm d)) cid = Some c \<and> map_of (Containers (d_csm d')) cid = Some c' \<and> c_State c' = s \<and> c_BottleId c' = c_BottleId c"
proof -
  obtain c c' where c: "map_of (Containers (d_csm d)) cid = Some c" "d_csm d' = (d_csm d)\<lparr>Containers := mput cid c' (Containers (d_csm d))\<rparr>"
      "c_State c' = s" "c_ContainerId c' = c_ContainerId c" "c_ContainerName c' = c_ContainerName c" "c_BottleId c' = c_BottleId c"
    using step by (auto simp: entry_step_def)
  show "csm_inv (d_csm d')" unfolding c(2) using csm_put_inv [OF inv, of c' cid] csm_key [OF inv c(1)] c(4) by simp
  have "names_of (d_csm d') = names_of (d_csm d)"
    unfolding c(2) names_of_def using names_mput [OF c(1), of "\<lambda>c. (c_ContainerId c, c_ContainerName c)" c'] c(4,5) by simp
  then show "ResolveContainerId t (d_csm d') = ResolveContainerId t (d_csm d)" by (rule resolve_names)
qed (use step in \<open>auto simp: entry_step_def\<close>)

lemma posts_run:
  assumes "posts w cid verb status ev"
  obtains st where "hs_Id st = cid" "hs_Status st = status" "droplet_run w what [''droplet'', verb, cid] d = (Inr (), snd (HookAction w st ev d))"
  using assms unfolding posts_def by (auto simp: droplet_run_def elim!: allE [of _ d])

lemma Start_created:
  assumes io: "io_ok d" and inv: "csm_inv (d_csm d)" and t: "ResolveContainerId target (d_csm d) = Inr cid"
    and c: "map_of (Containers (d_csm d)) cid = Some c" "c_BottleId c = [] \<or> op" "c_State c = ''created''" and w: "runtime_reports w cid"
  obtains d1 where "Start w target tty op d = (Inr cid, d1)" "entry_step cid ''running'' d d1"
proof -
  obtain st where st: "hs_Id st = cid" "hs_Status st = ''running''"
      "droplet_run w ''start'' [''droplet'', ''start'', cid] d = (Inr (), snd (HookAction w st ''poststart'' d))"
    using w posts_run [of w cid "''start''" "''running''" "''poststart''" "''start''" d] by (auto simp: runtime_reports_def)
  obtain d1 where d1: "hook_update w st d = (Inr (), d1)" "entry_step cid ''running'' d d1"
    using hook_update_step [OF io, of st c w] c(1) st(1,2) by auto
  then have "droplet_Start w cid d = (Inr (), d1)" using st(3) by (simp add: droplet_Start_def HookAction_def)
  then have "Start w target tty op d = (Inr cid, d1)"
    using io inv t c by (simp add: Start_def resolve_container_ok container_info_at startContainer_def)
  then show ?thesis using d1(2) by (rule that)
qed

lemma stop_hook_step:
  assumes io: "io_ok d" and c: "map_of (Containers (d_csm d)) (hs_Id st) = Some c"
  shows "entry_step (hs_Id st) (hs_Status st) d (snd (HookAction w st ''stopContainer'' d))"
proof -
  obtain d1 where d1: "hook_update w st d = (Inr (), d1)" "entry_step (hs_Id st) (hs_Status st) d d1" by (rule hook_update_step [OF io c])
  obtain c' where c': "map_of (Containers (d_csm d1)) (hs_Id st) = Some c'" "c_State c' = hs_Status st" "io_ok d1"
    using d1(2) by (auto simp: entry_step_def)
  let ?up = "UpdateExitStatus (hs_Id st) (hs_ExitCode st) (hs_Reason st) (hs_Message st)"
  obtain cs where cs: "?up (d_csm d1) = Inr cs" using c'(1) by (simp add: UpdateExitStatus_def)
  have "entry_step (hs_Id st) (hs_Status st) d1 (d1\<lparr>d_csm := cs\<rparr>)"
    using cs c' by (auto simp: entry_step_def UpdateExitStatus_def io_ok_def)
  moreover have "snd (HookAction w st ''stopContainer'' d) = d1\<lparr>d_csm := cs\<rparr>"
    using d1(1) csm_upd_step(1) [OF c'(3), of ?up, OF cs] by (simp add: HookAction_def)
  ultimately show ?thesis using entry_step_trans [OF d1(2)] by simp
qed

lemma entry_step_frame: "stable (entry_step cid s d) (psm_do f)" "stable (entry_step cid s d) (on_host m)"
  by (auto simp: stable_def entry_step_def access_def store_access_simps io_ok_def on_host_def split: sum.splits prod.splits)

lemma ignored:
  assumes "io_ok d" "\<And>m st. f st \<noteq> Inl (Panic m)"
  shows "\<exists>d'. ignore (psm_do (upd f)) d = (Inr (), d')"
proof (cases "f (d_psm d)")
  case (Inl e)
  then obtain m where "e = Err m" using assms(2) [of "d_psm d"] by (cases e) auto
  then show ?thesis using Inl access_error [OF assms(1), of "upd f" d_psm e d_psm_update] by (simp add: ignore_def upd_def)
next
  case (Inr st)
  then show ?thesis using access_ok [OF assms(1), of "upd f" d_psm "()" st d_psm_update] by (simp add: ignore_def upd_def)
qed

lemma Stop_running:
  assumes io: "io_ok d" and inv: "csm_inv (d_csm d)" and t: "ResolveContainerId target (d_csm d) = Inr cid"
    and c: "map_of (Containers (d_csm d)) cid = Some c" "c_BottleId c = [] \<or> op" "c_State c = ''running''" and w: "runtime_reports w cid"
  obtains d1 where "Stop w target op d = (Inr cid, d1)" "entry_step cid ''stopped'' d d1"
proof -
  obtain st where st: "hs_Id st = cid" "hs_Status st = ''stopped''"
      "droplet_run w ''stop'' [''droplet'', ''kill'', cid] d = (Inr (), snd (HookAction w st ''stopContainer'' d))"
    using w posts_run [of w cid "''kill''" "''stopped''" "''stopContainer''" "''stop''" d] by (auto simp: runtime_reports_def)
  let ?d = "snd (HookAction w st ''stopContainer'' d)"
  have step: "entry_step cid ''stopped'' d ?d" using stop_hook_step [OF io, of st c w] c(1) st(1,2) by simp
  let ?mark = "if c_PodId c \<noteq> [] \<and> \<not> has_prefix (c_ContainerName c) PodInfraContainerNamePrefix
    then bnd (w_now w) (\<lambda>now. ignore (psm_do (upd (UpdatePod now (c_PodId c) ''degraded'')))) else ret ()"
  have "stable (entry_step cid ''stopped'' d) ?mark" unfolding Now_def by (intro stable_intros stable_ignore entry_step_frame)
  then have after: "entry_step cid ''stopped'' d (snd (?mark ?d))" using step by (simp add: stable_def)
  have "\<exists>d1. ?mark ?d = (Inr (), d1)"
  proof -
    obtain now h where now: "w_now w ?d = (Inr now, ?d\<lparr>d_host := h\<rparr>)" by (rule now_step)
    have "io_ok (?d\<lparr>d_host := h\<rparr>)" using step by (simp add: entry_step_def io_ok_def)
    from ignored [OF this, of "UpdatePod now (c_PodId c) ''degraded''"] now show ?thesis
      by (auto simp: UpdatePod_def pod_not_found_def Let_def split: option.splits)
  qed
  then have "Stop w target op d = (Inr cid, snd (?mark ?d))"
    using io inv t c st(3) by (auto simp: Stop_def resolve_container_ok container_info_at stopContainer_def droplet_Stop_def)
  then show ?thesis using after by (rule that)
qed

lemma commands_ok:
  assumes "\<And>cmd h. fst (run cmd h)"
  shows "\<exists>h'. for_each (cmd_Run run) cmds h = (Inr (), h')"
proof (induction cmds arbitrary: h)
  case (Cons c cs)
  obtain h1 where "run c h = (True, h1)" using assms [of c h] by (cases "run c h") auto
  then show ?case using Cons by simp
qed simp

lemma forwards_address:
  assumes "GetForwardInfo cid st = Inr fs" "fs \<noteq> []"
  obtains x where "GetContainerAddress cid st = Inr x"
proof (cases "find_alloc (\<lambda>(addr, a). ContainerId a = cid) (Pools st)")
  case None
  then have "container_absent cid st" by (simp add: find_alloc_None container_absent_def case_prod_beta)
  then show ?thesis using absent_forwards [of cid st] assms by simp
next
  case (Some x)
  then show ?thesis using that by (cases x) (simp add: GetContainerAddress_def)
qed

lemma cleanup_ok:
  assumes w: "host_works w" and io: "io_ok d"
  shows "\<exists>h. cleanupForwardRules w cid d = (Inr (), d\<lparr>d_host := h\<rparr>)"
proof -
  obtain fs where fs: "GetForwardInfo cid (d_ipam d) = Inr fs" by (simp add: GetForwardInfo_def)
  let ?f = "\<lambda>f. RemoveForwardingRule (w_run w) cid \<lparr>sn_HostPort = itoa (HostPort f), sn_ContainerPort = itoa (ContainerPort f), sn_Protocol = Protocol f\<rparr>"
  have all: "\<exists>h. for_each ?f gs (d\<lparr>d_host := h0\<rparr>) = (Inr (), d\<lparr>d_host := h\<rparr>)" if ne: "fs \<noteq> []" for gs h0
  proof -
    obtain x where x: "GetContainerAddress cid (d_ipam d) = Inr x"
      by (rule forwards_address [OF fs ne])
    have one: "\<exists>h2. ?f g (d\<lparr>d_host := h1\<rparr>) = (Inr (), d\<lparr>d_host := h2\<rparr>)" for g h1
    proof -
      obtain h2 where "deleteForwardRules (w_run w) (fst x) (fst (snd x)) (snd (snd x))
          \<lparr>sn_HostPort = itoa (HostPort g), sn_ContainerPort = itoa (ContainerPort g), sn_Protocol = Protocol g\<rparr> h1 = (Inr (), h2)"
        using commands_ok [of "w_run w"] w unfolding deleteForwardRules_def host_works_def by blast
      then show ?thesis using io x by (cases x) (auto simp: RemoveForwardingRule_def access_ok io_ok_def on_host_def intro!: exI [of _ h2])
    qed
    show ?thesis
    proof (induction gs arbitrary: h0)
      case (Cons g gs)
      obtain h2 where "?f g (d\<lparr>d_host := h0\<rparr>) = (Inr (), d\<lparr>d_host := h2\<rparr>)" using one by blast
      with Cons.IH [of h2] show ?case by simp
    qed auto
  qed
  have "\<exists>h. for_each ?f fs d = (Inr (), d\<lparr>d_host := h\<rparr>)"
  proof (cases "fs = []")
    case True
    then show ?thesis by (auto intro!: exI [of _ "d_host d"])
  next
    case False
    then show ?thesis using all [of fs "d_host d"] by simp
  qed
  then show ?thesis using fs io by (simp add: cleanupForwardRules_def access_ok)
qed

lemma delete_hook:
  assumes io: "io_ok d" and inv: "csm_inv (d_csm d)" and c: "map_of (Containers (d_csm d)) (hs_Id st) = Some c"
  shows "only_container (hs_Id st) d (snd (HookAction w st ''poststop'' d))"
    "map_of (Containers (d_csm (snd (HookAction w st ''poststop'' d)))) (hs_Id st) = None"
proof -
  show "only_container (hs_Id st) d (snd (HookAction w st ''poststop'' d))"
    using HookAction_only [of st d w "''poststop''"] io inv by (simp add: stable_def only_container_def)
  obtain cs where cs: "RemoveContainer (hs_Id st) (d_csm d) = Inr cs" "map_of (Containers cs) (hs_Id st) = None"
    using c inv by (auto simp: RemoveContainer_def csm_scan)
  let ?d = "d\<lparr>d_csm := cs\<rparr>"
  have rm: "csm_do (upd (RemoveContainer (hs_Id st))) d = (Inr (), ?d)" using csm_upd_step(1) [OF io, of "RemoveContainer (hs_Id st)", OF cs(1)] .
  have "unchanged ?d (snd (CommitPolicy (w_run w) ?d))"
    using commit_unchanged [of ?d "w_run w"] io by (simp add: stable_def unchanged_def io_ok_def)
  moreover have "snd (HookAction w st ''poststop'' d) = snd (CommitPolicy (w_run w) ?d)"
    using rm by (auto simp: HookAction_def wrap_err_def split: prod.splits sum.splits error.splits)
  ultimately show "map_of (Containers (d_csm (snd (HookAction w st ''poststop'' d)))) (hs_Id st) = None"
    using cs(2) by (simp add: unchanged_def)
qed

text \<open>The addresses without those of a container that has at most one.\<close>

definition one_address :: "string \<Rightarrow> IpamState \<Rightarrow> bool" where
  "one_address cid st \<longleftrightarrow> (\<forall>a b al a' b' al'. alloc_view st a = Some (b, al) \<and> ContainerId al = cid \<and>
     alloc_view st a' = Some (b', al') \<and> ContainerId al' = cid \<longrightarrow> a = a')"

lemma release_effect:
  assumes io: "io_ok d" and inv: "ipam_inv (d_ipam d)" and one: "one_address cid (d_ipam d)"
  obtains ip where "releaseAddress cid d = (Inr (), d\<lparr>d_ipam := ip\<rparr>)" "container_absent cid ip"
    "\<forall>a b al. ContainerId al \<noteq> cid \<longrightarrow> alloc_view ip a = Some (b, al) \<longleftrightarrow> alloc_view (d_ipam d) a = Some (b, al)"
proof -
  obtain ip where r: "Release cid (d_ipam d) = Inr ip" by (simp add: Release_def)
  have ip: "ipam_inv ip" using Release_inv [OF inv r] .
  have "releaseAddress cid d = (Inr (), d\<lparr>d_ipam := ip\<rparr>)" using ipam_upd_step(1) [OF io, of "Release cid", OF r] by (simp add: releaseAddress_def)
  moreover have "container_absent cid ip"
  proof (rule disjE [OF Release_view [OF inv r]])
    assume "container_absent cid (d_ipam d) \<and> alloc_view ip = alloc_view (d_ipam d)"
    then show ?thesis using container_absent_view [OF ip] container_absent_view [OF inv] by simp
  next
    assume "\<exists>a b al. alloc_view (d_ipam d) a = Some (b, al) \<and> ContainerId al = cid \<and> alloc_view ip = (alloc_view (d_ipam d))(a := None)"
    then obtain a b al where a: "alloc_view (d_ipam d) a = Some (b, al)" "ContainerId al = cid" "alloc_view ip = (alloc_view (d_ipam d))(a := None)"
      by blast
    have "ContainerId al' \<noteq> cid" if "alloc_view ip a' = Some (b', al')" for a' b' al'
    proof
      assume "ContainerId al' = cid"
      moreover have "a' \<noteq> a" "alloc_view (d_ipam d) a' = Some (b', al')" using that a(3) by (auto split: if_splits)
      ultimately show False using one a(1,2) unfolding one_address_def by blast
    qed
    then show ?thesis using container_absent_view [OF ip] by blast
  qed
  moreover have "\<forall>a b al. ContainerId al \<noteq> cid \<longrightarrow> alloc_view ip a = Some (b, al) \<longleftrightarrow> alloc_view (d_ipam d) a = Some (b, al)"
    using Release_view [OF inv r] by (auto split: if_splits)
  ultimately show ?thesis by (rule that)
qed

lemma fs_ok: "fst (os_do (w_os w) c (d_host d)) = Inr () \<Longrightarrow> \<exists>h. fs_do w c d = (Inr (), d\<lparr>d_host := h\<rparr>)"
  by (cases "os_do (w_os w) c (d_host d)") (auto simp: on_host_def)

lemma Delete_effect:
  assumes io: "io_ok d" and inv: "csm_inv (d_csm d)" "ipam_inv (d_ipam d)" and t: "ResolveContainerId target (d_csm d) = Inr cid"
    and c: "map_of (Containers (d_csm d)) cid = Some c" "c_BottleId c = [] \<or> op" "c_State c \<in> {''creating'', ''created'', ''stopped''}"
    and w: "runtime_reports w cid" "host_works w" and one: "one_address cid (d_ipam d)"
  obtains d1 where "Delete w target op d = (Inr cid, d1)" "io_ok d1" "csm_inv (d_csm d1)" "map_of (Containers (d_csm d1)) cid = None"
    "\<forall>j. j \<noteq> cid \<longrightarrow> map_of (Containers (d_csm d1)) j = map_of (Containers (d_csm d)) j" "container_absent cid (d_ipam d1)"
    "\<forall>a b al. ContainerId al \<noteq> cid \<longrightarrow> alloc_view (d_ipam d1) a = Some (b, al) \<longleftrightarrow> alloc_view (d_ipam d) a = Some (b, al)"
proof -
  obtain st where st: "hs_Id st = cid" "droplet_run w ''delete'' [''droplet'', ''delete'', cid] d = (Inr (), snd (HookAction w st ''poststop'' d))"
    using w posts_run [of w cid "''delete''" "''stopped''" "''poststop''" "''delete''" d] by (auto simp: runtime_reports_def)
  let ?d1 = "snd (HookAction w st ''poststop'' d)"
  have d1: "only_container cid d ?d1" "map_of (Containers (d_csm ?d1)) cid = None"
    using delete_hook [OF io inv(1), of st c w] c(1) st(1) by simp_all
  then have io1: "io_ok ?d1" and ip1: "d_ipam ?d1 = d_ipam d" by (auto simp: only_container_def)
  obtain h where h: "cleanupForwardRules w cid ?d1 = (Inr (), ?d1\<lparr>d_host := h\<rparr>)" using cleanup_ok [OF w(2) io1] by blast
  let ?d2 = "?d1\<lparr>d_host := h\<rparr>"
  have pre: "io_ok ?d2" "ipam_inv (d_ipam ?d2)" "one_address cid (d_ipam ?d2)" using io1 ip1 inv(2) one by (simp_all add: io_ok_def)
  obtain ip where ip: "releaseAddress cid ?d2 = (Inr (), ?d2\<lparr>d_ipam := ip\<rparr>)" "container_absent cid ip"
      "\<forall>a b al. ContainerId al \<noteq> cid \<longrightarrow> alloc_view ip a = Some (b, al) \<longleftrightarrow> alloc_view (d_ipam ?d2) a = Some (b, al)"
    by (rule release_effect [OF pre])
  let ?d3 = "?d2\<lparr>d_ipam := ip\<rparr>"
  obtain h4 where h4: "deleteContainerDirectory w cid ?d3 = (Inr (), ?d3\<lparr>d_host := h4\<rparr>)"
    using fs_ok [of w "Os_RemoveAll (path_join [ContainerRootDir, cid])" ?d3] w(2) by (auto simp: deleteContainerDirectory_def host_works_def)
  let ?d4 = "?d3\<lparr>d_host := h4\<rparr>"
  obtain h5 where h5: "deleteCgroupSubtree w cid ?d4 = (Inr (), ?d4\<lparr>d_host := h5\<rparr>)"
    using fs_ok [of w "Os_Remove (path_join [CgroupRuntimeDir, cid])" ?d4] w(2) by (auto simp: deleteCgroupSubtree_def host_works_def)
  have "Delete w target op d = (Inr cid, ?d4\<lparr>d_host := h5\<rparr>)"
    using io inv(1) t c st(2) h ip(1) h4 h5
    by (simp add: Delete_def resolve_container_ok container_info_at deleteContainer_def droplet_Delete_def del: insert_iff)
  then show ?thesis
  proof (rule that)
    show "io_ok (?d4\<lparr>d_host := h5\<rparr>)" using io1 by (simp add: io_ok_def)
    show "csm_inv (d_csm (?d4\<lparr>d_host := h5\<rparr>))" using d1(1) by (simp add: only_container_def)
    show "map_of (Containers (d_csm (?d4\<lparr>d_host := h5\<rparr>))) cid = None" using d1(2) by simp
    show "\<forall>j. j \<noteq> cid \<longrightarrow> map_of (Containers (d_csm (?d4\<lparr>d_host := h5\<rparr>))) j = map_of (Containers (d_csm d)) j"
      using d1(1) by (simp add: only_container_def)
    show "container_absent cid (d_ipam (?d4\<lparr>d_host := h5\<rparr>))" using ip(2) by simp
    show "\<forall>a b al. ContainerId al \<noteq> cid \<longrightarrow> alloc_view (d_ipam (?d4\<lparr>d_host := h5\<rparr>)) a = Some (b, al) \<longleftrightarrow> alloc_view (d_ipam d) a = Some (b, al)"
      using ip(3) ip1 by simp
  qed
qed

text \<open>C9: the life cycle completes: with a runtime that does its work and posts it to the hooks, a
  created container is started, then stopped, then deleted without error; it is \<open>running\<close> after the
  first and \<open>stopped\<close> after the second step, and after the last its entry and its address are gone
  while every other container and every other address is as before.\<close>

theorem lifecycle_completes:
  assumes "io_ok d" "csm_inv (d_csm d)" "ipam_inv (d_ipam d)" "ResolveContainerId target (d_csm d) = Inr cid"
    "map_of (Containers (d_csm d)) cid = Some c" "c_BottleId c = [] \<or> op" "c_State c = ''created''"
    "runtime_reports w cid" "host_works w" "one_address cid (d_ipam d)"
  shows "\<exists>d1 d2 d3. Start w target tty op d = (Inr cid, d1) \<and> Stop w target op d1 = (Inr cid, d2) \<and> Delete w target op d2 = (Inr cid, d3) \<and>
    map_option c_State (map_of (Containers (d_csm d1)) cid) = Some ''running'' \<and>
    map_option c_State (map_of (Containers (d_csm d2)) cid) = Some ''stopped'' \<and>
    map_of (Containers (d_csm d3)) cid = None \<and> container_absent cid (d_ipam d3) \<and>
    (\<forall>j. j \<noteq> cid \<longrightarrow> map_of (Containers (d_csm d3)) j = map_of (Containers (d_csm d)) j) \<and>
    (\<forall>a b al. ContainerId al \<noteq> cid \<longrightarrow> alloc_view (d_ipam d3) a = Some (b, al) \<longleftrightarrow> alloc_view (d_ipam d) a = Some (b, al))"
proof -
  obtain d1 where d1: "Start w target tty op d = (Inr cid, d1)" "entry_step cid ''running'' d d1" using Start_created assms by metis
  note f1 = entry_step_facts [OF d1(2) assms(2)]
  obtain c1 where c1: "map_of (Containers (d_csm d1)) cid = Some c1" "c_State c1 = ''running''" "c_BottleId c1 = c_BottleId c"
    using f1(6) assms(5) by auto
  obtain d2 where d2: "Stop w target op d1 = (Inr cid, d2)" "entry_step cid ''stopped'' d1 d2"
  proof (rule Stop_running [of d1 target cid c1 op w])
    show "ResolveContainerId target (d_csm d1) = Inr cid" "c_BottleId c1 = [] \<or> op" using f1(3) assms(4,6) c1(3) by simp_all
  qed (use f1 c1 assms in simp_all)
  note f2 = entry_step_facts [OF d2(2) f1(2)]
  obtain c2 where c2: "map_of (Containers (d_csm d2)) cid = Some c2" "c_State c2 = ''stopped''" "c_BottleId c2 = c_BottleId c"
    using f2(6) c1 by auto
  have t2: "ResolveContainerId target (d_csm d2) = Inr cid" using f1(3) f2(3) assms(4) by simp
  have a2: "c_BottleId c2 = [] \<or> op" "c_State c2 \<in> {''creating'', ''created'', ''stopped''}" using c2 assms(6) by simp_all
  have i2: "ipam_inv (d_ipam d2)" "one_address cid (d_ipam d2)" using f1(5) f2(5) assms(3,10) by simp_all
  obtain d3 where d3: "Delete w target op d2 = (Inr cid, d3)" "io_ok d3" "csm_inv (d_csm d3)" "map_of (Containers (d_csm d3)) cid = None"
      "\<forall>j. j \<noteq> cid \<longrightarrow> map_of (Containers (d_csm d3)) j = map_of (Containers (d_csm d2)) j" "container_absent cid (d_ipam d3)"
      "\<forall>a b al. ContainerId al \<noteq> cid \<longrightarrow> alloc_view (d_ipam d3) a = Some (b, al) \<longleftrightarrow> alloc_view (d_ipam d2) a = Some (b, al)"
    by (rule Delete_effect [OF f2(1,2) i2(1) t2 c2(1) a2 assms(8,9) i2(2)])
  show ?thesis
    by (intro exI conjI, rule d1(1), rule d2(1), rule d3(1))
      (use c1 c2 d3 f1(4,5) f2(4,5) in simp_all)
qed

text \<open>A container \<open>i1\<close> of the example store, with the runtime that posts what it does.\<close>

lemma posting_reports: "runtime_reports posting_world ''i1''"
proof -
  have "HookAction posting_world = HookAction demo_world" by (simp add: posting_world_def HookAction_world)
  then show ?thesis unfolding runtime_reports_def posts_def
    by (intro conjI allI exI [of _ "hook_state ''i1'' ''running'' 4242"] exI [of _ "hook_state ''i1'' ''stopped'' 0"] exI [of _ "''''"])
      (simp_all add: posting_world_def posting_droplet_def hook_state_def)
qed

theorem lifecycle_completes_witness:
  "\<exists>d1 d2 d3. Start posting_world ''web'' False False demo_machine = (Inr ''i1'', d1) \<and> Stop posting_world ''web'' False d1 = (Inr ''i1'', d2) \<and>
     Delete posting_world ''web'' False d2 = (Inr ''i1'', d3) \<and> map_of (Containers (d_csm d3)) ''i1'' = None"
proof -
  have "ResolveContainerId ''web'' (d_csm demo_machine) = Inr ''i1''"
    by (simp add: ResolveContainerId_def GetContainerIdByName_def csm_demo_def demo_container_def)
  moreover have "map_of (Containers (d_csm demo_machine)) ''i1'' = Some (demo_container ''i1'' ''web'')" by (simp add: csm_demo_def)
  moreover have "c_BottleId (demo_container ''i1'' ''web'') = []" "c_State (demo_container ''i1'' ''web'') = ''created''"
    by (simp_all add: demo_container_def)
  moreover have "host_works posting_world"
    by (simp add: host_works_def posting_world_def demo_world_def demo_image_env_def demo_hub_def file_os_def)
  moreover have "one_address ''i1'' (d_ipam demo_machine)"
    using alloc_view_iff [OF ipam_initial_inv] by (auto simp: one_address_def ipam_initial_def default_pool_def allocs_def)
  ultimately show ?thesis
    using lifecycle_completes [of demo_machine "''web''" "''i1''" "demo_container ''i1'' ''web''" False posting_world False]
      posting_reports csm_demo_inv ipam_initial_inv by fastforce
qed

end
