(* ===== verification/Bottle_Service.thy ===== *)
theory Bottle_Service
  imports Lifecycle Start_Order
begin

text \<open>
  Bottles: groups of containers that are created, started, stopped and deleted together
  (\<open>src/internal/core/bottle/service.go\<close>), and their registration with policies
  (\<open>src/internal/api/http/bottle/handler.go\<close>).  The start order is that of \<open>BuildStartOrder\<close>.
\<close>

subsection \<open>Names and networks\<close>

definition buildContainerName :: "string \<Rightarrow> string \<Rightarrow> string" where
  "buildContainerName bottleName serviceName = bottleName @ ''-'' @ serviceName"

definition shouldCreateBottleNetwork :: "(string, ServiceSpec) gomap \<Rightarrow> bool" where
  "shouldCreateBottleNetwork services = (services \<noteq> [] \<and> list_all (\<lambda>(_, svc). ss_Network svc = []) services)"

definition bottleIdPrefix :: "string \<Rightarrow> string" where
  "bottleIdPrefix bottleId = (if length bottleId \<le> 10 then bottleId else take 10 bottleId)"

text \<open>\<open>m[k]\<close> of a map of strings.\<close>

definition str_at :: "(string, string) gomap \<Rightarrow> string \<Rightarrow> string" where
  "str_at m k = (case map_of m k of None \<Rightarrow> [] | Some v \<Rightarrow> v)"

text \<open>\<open>bsmHandler.ResolveBottleId\<close>: two reads of the store.\<close>

definition bsm_ResolveBottleId :: "string \<Rightarrow> (string, 'h daemon) act" where
  "bsm_ResolveBottleId str =
     bnd (attempt (bsm_do (query (GetBottleIdByName str)))) (\<lambda>r.
       case r of
         Inr bottleId \<Rightarrow> ret bottleId
       | Inl _ \<Rightarrow> seq (bsm_do (query (GetBottleById str))) (ret str))"

text \<open>The beginning of every operation: the bottle with a start order.\<close>

definition bottle_info :: "string \<Rightarrow> (string \<times> BottleInfo, 'h daemon) act" where
  "bottle_info bottleIdOrName =
     bnd (bsm_ResolveBottleId bottleIdOrName) (\<lambda>bottleId.
     bnd (bsm_do (query (GetBottleById bottleId))) (\<lambda>info.
       if b_StartOrder info = [] then fail (Err ''start order is empty'') else ret (bottleId, info)))"

subsection \<open>Addresses of dependencies in the environment\<close>

fun dep_addrs :: "BottleInfo \<Rightarrow> (string, string) gomap \<Rightarrow> string list \<Rightarrow> (string, string) gomap \<Rightarrow> ((string, string) gomap, 'h daemon) act" where
  "dep_addrs info containers [] depAddrs = ret depAddrs"
| "dep_addrs info containers (dep # deps) depAddrs =
     bnd (if str_at containers dep \<noteq> [] then ret (str_at containers dep)
          else bnd (attempt (csm_do (query (GetContainerIdByName (buildContainerName (b_BottleName info) dep))))) (\<lambda>r.
            case r of
              Inl _ \<Rightarrow> fail (Err (''container for dependency '' @ dep @ '' not found''))
            | Inr i \<Rightarrow> ret i)) (\<lambda>containerId.
     bnd (ipam_do (query (GetNetworkInfoById containerId))) (\<lambda>(addr, _).
       dep_addrs info containers deps (mput dep addr depAddrs)))"

text \<open>The loop over \<open>depAddrs\<close>, in the order in which it visits the map.\<close>

fun replace_dep :: "(string, string) gomap \<Rightarrow> string \<Rightarrow> string" where
  "replace_dep [] val = val"
| "replace_dep ((dep, addr) # r) val =
     (if has_prefix val (dep @ '':'') then addr @ drop (length dep) val
      else if val = dep then addr
      else replace_dep r val)"

definition resolve_kv :: "(string, string) gomap \<Rightarrow> string \<Rightarrow> string" where
  "resolve_kv depAddrs kv = (case str_cut (CHR ''='') kv of None \<Rightarrow> kv | Some (key, val) \<Rightarrow> key @ ''='' @ replace_dep depAddrs val)"

definition resolveEnvWithDeps :: "BottleInfo \<Rightarrow> (string, string) gomap \<Rightarrow> string \<Rightarrow> string list \<Rightarrow> (string list, 'h daemon) act" where
  "resolveEnvWithDeps info containers serviceName env =
     (case map_of (b_Services info) serviceName of
        None \<Rightarrow> ret env
      | Some spec \<Rightarrow>
          if DependsOn spec = [] \<or> env = [] then ret env
          else bnd (dep_addrs info containers (DependsOn spec) []) (\<lambda>depAddrs. ret (map (resolve_kv depAddrs) env)))"

subsection \<open>Creating\<close>

definition rollbackCreatedContainers ::
  "'h world \<Rightarrow> string list \<Rightarrow> (string, string) gomap \<Rightarrow> string \<Rightarrow> string \<Rightarrow> bool \<Rightarrow> (unit, 'h daemon) act" where
  "rollbackCreatedContainers w made containers bottleId bridge autoNetwork =
     seq (for_each (\<lambda>i. ignore (Delete w i True)) (rev made))
    (seq (ignore (bsm_do (upd (UpdateBottleContainers bottleId (filter (\<lambda>(_, cid). cid \<notin> set made) containers)))))
         (if autoNetwork \<and> bridge \<noteq> [] then
            seq (ignore (RemoveNetwork (w_run w) bridge)) (ignore (bsm_do (upd (UpdateBottleNetwork bottleId [] False))))
          else ret ()))"

text \<open>The network of the bottle: its bridge and whether it was made for the bottle.\<close>

definition bottle_network :: "'h world \<Rightarrow> string \<Rightarrow> BottleInfo \<Rightarrow> (string \<times> bool, 'h daemon) act" where
  "bottle_network w bottleId info =
     (if b_Network info = [] \<and> shouldCreateBottleNetwork (b_Services info) then
        (let bridge = ''raind'' @ bottleIdPrefix bottleId in
         seq (CreateNewNetwork (w_run w) bridge)
        (bnd (attempt (bsm_do (upd (UpdateBottleNetwork bottleId bridge True)))) (\<lambda>r.
           case r of
             Inl e \<Rightarrow> seq (ignore (RemoveNetwork (w_run w) bridge)) (fail e)
           | Inr _ \<Rightarrow> ret (bridge, True))))
      else
        seq (if b_Network info = [] \<and> \<not> b_NetworkAuto info then ignore (bsm_do (upd (UpdateBottleNetwork bottleId [] False))) else ret ())
            (ret (b_Network info, b_NetworkAuto info)))"

definition service_params :: "string \<Rightarrow> BottleInfo \<Rightarrow> string \<Rightarrow> bool \<Rightarrow> string \<Rightarrow> ServiceSpec \<Rightarrow> string list \<Rightarrow> ServiceCreateModel" where
  "service_params bottleId info bridge autoNetwork serviceName spec env =
     \<lparr>sc_Image = ss_Image spec, sc_Os = '''', sc_Arch = '''', sc_Command = ss_Command spec, sc_Port = ss_Ports spec,
      sc_Mount = ss_Mount spec, sc_Env = env, sc_Network = (if ss_Network spec = [] \<and> autoNetwork then bridge else ss_Network spec),
      sc_Tty = ss_Tty spec, sc_Name = buildContainerName (b_BottleName info) serviceName, sc_BottleId = bottleId, sc_PodId = '''',
      sc_IsPodInfra = False\<rparr>"

text \<open>The loop over the start order; a service without specification ends it without a rollback.\<close>

fun create_services ::
  "'h world \<Rightarrow> string \<Rightarrow> BottleInfo \<Rightarrow> string \<Rightarrow> bool \<Rightarrow> string list \<Rightarrow> (string, string) gomap \<Rightarrow> string list \<Rightarrow> (unit, 'h daemon) act" where
  "create_services w bottleId info bridge autoNetwork [] containers made = ret ()"
| "create_services w bottleId info bridge autoNetwork (serviceName # services) containers made =
     (if str_at containers serviceName \<noteq> [] then create_services w bottleId info bridge autoNetwork services containers made
      else (case map_of (b_Services info) serviceName of
        None \<Rightarrow> fail (Err (''service spec not found: '' @ serviceName))
      | Some spec \<Rightarrow>
          bnd (with_rollback (resolveEnvWithDeps info containers serviceName (ss_Env spec))
                 (rollbackCreatedContainers w made containers bottleId bridge autoNetwork)) (\<lambda>env.
          bnd (with_rollback (Create w (service_params bottleId info bridge autoNetwork serviceName spec env))
                 (rollbackCreatedContainers w made containers bottleId bridge autoNetwork)) (\<lambda>containerId.
          let containers' = mput serviceName containerId containers; made' = made @ [containerId] in
          seq (with_rollback (bsm_do (upd (UpdateBottleContainer bottleId serviceName containerId)))
                 (rollbackCreatedContainers w made' containers' bottleId bridge autoNetwork))
              (create_services w bottleId info bridge autoNetwork services containers' made')))))"

definition bottle_Create :: "'h world \<Rightarrow> string \<Rightarrow> (string, 'h daemon) act" where
  "bottle_Create w bottleIdOrName =
     bnd (bottle_info bottleIdOrName) (\<lambda>(bottleId, info).
     bnd (bottle_network w bottleId info) (\<lambda>(bridge, autoNetwork).
     seq (create_services w bottleId info bridge autoNetwork (b_StartOrder info) (b_Containers info) [])
         (ret bottleId)))"

subsection \<open>Starting, stopping, deleting\<close>

definition start_service :: "'h world \<Rightarrow> BottleInfo \<Rightarrow> string \<Rightarrow> (unit, 'h daemon) act" where
  "start_service w info serviceName =
     (if str_at (b_Containers info) serviceName = [] then fail (Err (''container for service '' @ serviceName @ '' not created''))
      else (case map_of (b_Services info) serviceName of
        None \<Rightarrow> fail (Err (''service spec not found: '' @ serviceName))
      | Some spec \<Rightarrow> seq (Start w (str_at (b_Containers info) serviceName) (ss_Tty spec) True) (ret ())))"

definition bottle_Start :: "'h world \<Rightarrow> string \<Rightarrow> (string, 'h daemon) act" where
  "bottle_Start w bottleIdOrName =
     bnd (bottle_info bottleIdOrName) (\<lambda>(bottleId, info).
     seq (for_each (start_service w info) (b_StartOrder info)) (ret bottleId))"

definition stop_service :: "'h world \<Rightarrow> BottleInfo \<Rightarrow> string \<Rightarrow> (unit, 'h daemon) act" where
  "stop_service w info serviceName =
     (let containerId = str_at (b_Containers info) serviceName in
      if containerId = [] then fail (Err (''container for service '' @ serviceName @ '' not found''))
      else bnd (getContainerState containerId) (\<lambda>state.
        if state \<noteq> ''running'' then ret () else seq (Stop w containerId True) (ret ())))"

definition bottle_Stop :: "'h world \<Rightarrow> string \<Rightarrow> (string, 'h daemon) act" where
  "bottle_Stop w bottleIdOrName =
     bnd (bottle_info bottleIdOrName) (\<lambda>(bottleId, info).
     seq (for_each (stop_service w info) (rev (b_StartOrder info))) (ret bottleId))"

definition delete_service :: "'h world \<Rightarrow> BottleInfo \<Rightarrow> string \<Rightarrow> (unit, 'h daemon) act" where
  "delete_service w info serviceName =
     (let containerId = str_at (b_Containers info) serviceName in
      if containerId = [] then fail (Err (''container for service '' @ serviceName @ '' not found''))
      else bnd (getContainerState containerId) (\<lambda>state.
        seq (if state = ''running'' then seq (Stop w containerId True) (ret ()) else ret ())
            (seq (Delete w containerId True) (ret ()))))"

definition removeBottlePolicies :: "'h world \<Rightarrow> BottlePolicyInfo list \<Rightarrow> (unit, 'h daemon) act" where
  "removeBottlePolicies w policies =
     for_each (\<lambda>p. if bp_Id p = [] then ret () else seq (RemoveUserPolicy (bp_Id p)) (CommitPolicy (w_run w))) policies"

definition bottle_Delete :: "'h world \<Rightarrow> string \<Rightarrow> (string, 'h daemon) act" where
  "bottle_Delete w bottleIdOrName =
     bnd (bottle_info bottleIdOrName) (\<lambda>(bottleId, info).
     seq (for_each (delete_service w info) (rev (b_StartOrder info)))
    (seq (removeBottlePolicies w (b_Policies info))
    (seq (if b_NetworkAuto info \<and> b_Network info \<noteq> [] then RemoveNetwork (w_run w) (b_Network info) else ret ())
    (seq (bsm_do (upd (RemoveBottle bottleId)))
         (ret bottleId)))))"

subsection \<open>Registration (api/http/bottle/handler.go)\<close>

definition mapPolicyChain :: "string \<Rightarrow> string result" where
  "mapPolicyChain policyType =
     (if policyType = ''east-west'' then Inr ''RAIND-EW''
      else if policyType = ''north-south_observe'' then Inr ''RAIND-NS-OBS''
      else if policyType = ''north-south_enforce'' then Inr ''RAIND-NS-ENF''
      else Inl (Err (''unknown policy type: '' @ policyType)))"

text \<open>\<open>ip6\<close> tells the IPv6 addresses and networks.\<close>

definition isIPAddress :: "(string \<Rightarrow> bool) \<Rightarrow> string \<Rightarrow> bool" where
  "isIPAddress ip6 s = (ParseIP4 s \<noteq> None \<or> ParseCIDR4 s \<noteq> None \<or> ip6 s)"

definition validatePolicyDestination :: "(string \<Rightarrow> bool) \<Rightarrow> string \<Rightarrow> string \<Rightarrow> unit result" where
  "validatePolicyDestination ip6 chainName dest =
     (if chainName = ''RAIND-EW'' \<and> isIPAddress ip6 dest then Inl (Err ''east-west destination must be container name or id'')
      else if chainName \<in> {''RAIND-NS-OBS'', ''RAIND-NS-ENF''} \<and> \<not> isIPAddress ip6 dest
      then Inl (Err ''north-south destination must be ip address'')
      else Inr ())"

definition resolvePolicyEndpoint :: "string \<Rightarrow> (string, ServiceSpec) gomap \<Rightarrow> string \<Rightarrow> string" where
  "resolvePolicyEndpoint bottleName services value = (if map_of services value \<noteq> None then bottleName @ ''-'' @ value else value)"

definition normalizePolicyEndpoint :: "string \<Rightarrow> string \<Rightarrow> string" where
  "normalizePolicyEndpoint bottleName value = trim_prefix value (bottleName @ ''-'')"

definition rollbackPolicies :: "'h world \<Rightarrow> string list \<Rightarrow> (unit, 'h daemon) act" where
  "rollbackPolicies w ids = seq (for_each (\<lambda>i. ignore (RemoveUserPolicy i)) ids) (ignore (CommitPolicy (w_run w)))"

text \<open>One policy of the specification: the chain, the endpoints, the new entry.\<close>

definition apply_policy ::
  "'h world \<Rightarrow> (string \<Rightarrow> bool) \<Rightarrow> string \<Rightarrow> (string, ServiceSpec) gomap \<Rightarrow> BottlePolicyInfo \<Rightarrow> (BottlePolicyInfo, 'h daemon) act" where
  "apply_policy w ip6 bottleName services p =
     bnd (lift_res (mapPolicyChain (bp_Type p))) (\<lambda>chainName.
     let src = resolvePolicyEndpoint bottleName services (bp_Source p); dst = resolvePolicyEndpoint bottleName services (bp_Destination p) in
     seq (lift_res (validatePolicyDestination ip6 chainName dst))
    (bnd (NewUlid w) (\<lambda>u.
     bnd (AddUserPolicy u \<lparr>ap_ChainName = chainName, ap_Source = src, ap_Destination = dst, ap_Protocol = bp_Protocol p,
            ap_DestPort = bp_DestPort p, ap_Comment = bp_Comment p\<rparr>) (\<lambda>i.
       ret (p\<lparr>bp_Id := i, bp_Source := src, bp_Destination := dst\<rparr>)))))"

text \<open>An error of the last commit is returned without a rollback.\<close>

fun apply_policies ::
  "'h world \<Rightarrow> (string \<Rightarrow> bool) \<Rightarrow> string \<Rightarrow> (string, ServiceSpec) gomap \<Rightarrow> BottlePolicyInfo list \<Rightarrow> BottlePolicyInfo list \<Rightarrow>
   (BottlePolicyInfo list, 'h daemon) act" where
  "apply_policies w ip6 bottleName services [] stored = seq (CommitPolicy (w_run w)) (ret stored)"
| "apply_policies w ip6 bottleName services (p # ps) stored =
     bnd (with_rollback (apply_policy w ip6 bottleName services p) (rollbackPolicies w (map bp_Id stored))) (\<lambda>q.
       apply_policies w ip6 bottleName services ps (stored @ [q]))"

definition applyPolicies ::
  "'h world \<Rightarrow> (string \<Rightarrow> bool) \<Rightarrow> string \<Rightarrow> (string, ServiceSpec) gomap \<Rightarrow> BottlePolicyInfo list \<Rightarrow> (BottlePolicyInfo list, 'h daemon) act" where
  "applyPolicies w ip6 bottleName services policies =
     (if policies = [] then ret [] else apply_policies w ip6 bottleName services policies [])"

definition extractPolicyIds :: "BottlePolicyInfo list \<Rightarrow> string list" where
  "extractPolicyIds policies = filter (\<lambda>i. i \<noteq> []) (map bp_Id policies)"

text \<open>\<open>visit\<close> is the order of the loop over \<open>inDegree\<close> in \<open>BuildStartOrder\<close>, \<open>decoded\<close> the
  document from the YAML library; the answer is a status with a message, and the new bottle on success.\<close>

definition register_failed :: "nat \<Rightarrow> string \<Rightarrow> error \<Rightarrow> (response \<times> string option, 'h daemon) act" where
  "register_failed status what e = ret ((status, what @ err_text e), None)"

definition RegisterBottle ::
  "'h world \<Rightarrow> (string \<Rightarrow> bool) \<Rightarrow> string list \<Rightarrow> string result \<Rightarrow> BottleSpec result \<Rightarrow> (response \<times> string option, 'h daemon) act" where
  "RegisterBottle w ip6 visit body decoded =
     (case body of
        Inl e \<Rightarrow> register_failed 400 ''invalid body: '' e
      | Inr _ \<Rightarrow> (case DecodeSpec decoded of
          Inl e \<Rightarrow> register_failed 400 ''invalid yaml: '' e
        | Inr spec \<Rightarrow> (case BuildStartOrder visit spec of
            Inl e \<Rightarrow> register_failed 400 ''invalid dependency: '' e
          | Inr order \<Rightarrow>
              bnd (or_zero False (bsm_do (query (\<lambda>st. Inr (bsm_IsNameAlreadyUsed (bs_Name spec) st))))) (\<lambda>used.
              if used then ret ((400, ''name already used by other bottle''), None)
              else bnd (NewUlid w) (\<lambda>u.
                if length u < 12 then fail (Panic ''slice bounds out of range'')
                else let bottleId = take 12 u in
                bnd (attempt (applyPolicies w ip6 (bs_Name spec) (bs_Services spec) (bs_Policies spec))) (\<lambda>r.
                case r of
                  Inl e \<Rightarrow> register_failed 400 ''policy failed: '' e
                | Inr policies \<Rightarrow>
                    bnd (w_now w) (\<lambda>now.
                    bnd (attempt (bsm_do (upd (StoreBottle now bottleId (bs_Name spec) (bs_Services spec) order policies)))) (\<lambda>s.
                    case s of
                      Inl e \<Rightarrow> seq (rollbackPolicies w (extractPolicyIds policies)) (register_failed 500 ''store failed: '' e)
                    | Inr _ \<Rightarrow> bnd (attempt (bottle_Create w bottleId)) (\<lambda>c.
                        case c of
                          Inl e \<Rightarrow> seq (ignore (bsm_do (upd (RemoveBottle bottleId))))
                                  (seq (rollbackPolicies w (extractPolicyIds policies)) (register_failed 500 ''create containers failed: '' e))
                        | Inr _ \<Rightarrow> ret ((201, ''bottle registered''), Some bottleId))))))))))"

definition ActionBottle :: "'h world \<Rightarrow> string \<Rightarrow> string \<Rightarrow> (response, 'h daemon) act" where
  "ActionBottle w bottleId action =
     (if bottleId = [] \<or> action = [] then ret (400, ''missing bottleId or action'')
      else if action \<notin> {''start'', ''stop'', ''delete''} then ret (400, ''unknown action'')
      else bnd (attempt (if action = ''start'' then bottle_Start w bottleId else if action = ''stop'' then bottle_Stop w bottleId
                         else bottle_Delete w bottleId)) (\<lambda>r.
        case r of Inl e \<Rightarrow> ret (500, ''service failed: '' @ err_text e) | Inr _ \<Rightarrow> ret (200, ''bottle action done'')))"

text \<open>The status of a bottle: the common state of its containers.\<close>

fun bottle_status :: "(string, string) gomap \<Rightarrow> string \<Rightarrow> (string, 'h daemon) act" where
  "bottle_status [] status = ret (if status = [] then ''unknown'' else status)"
| "bottle_status ((_, containerId) # cs) status =
     bnd (attempt (svc_GetContainerById containerId)) (\<lambda>r.
       case r of
         Inl _ \<Rightarrow> ret ''abnormal''
       | Inr state \<Rightarrow>
           if status = [] then bottle_status cs (st_State state)
           else if status \<noteq> st_State state then ret ''abnormal''
           else bottle_status cs status)"

definition buildBottleStatus :: "BottleInfo \<Rightarrow> (string, 'h daemon) act" where
  "buildBottleStatus info = (if b_Containers info = [] then ret ''unknown'' else bottle_status (b_Containers info) [])"

subsection \<open>The environment of a service\<close>

text \<open>A value is a host, or a host with a port after a colon.\<close>

abbreviation no_colon :: "char \<Rightarrow> bool" where
  "no_colon c \<equiv> c \<noteq> CHR '':''"

definition subst_host :: "(string \<rightharpoonup> string) \<Rightarrow> string \<Rightarrow> string" where
  "subst_host addr val = (case addr (takeWhile no_colon val) of None \<Rightarrow> val | Some a \<Rightarrow> a @ dropWhile no_colon val)"

definition env_entry :: "(string \<rightharpoonup> string) \<Rightarrow> string \<Rightarrow> string" where
  "env_entry addr kv = (case str_cut (CHR ''='') kv of None \<Rightarrow> kv | Some (key, val) \<Rightarrow> key @ ''='' @ subst_host addr val)"

lemma env_entry_empty: "env_entry Map.empty kv = kv"
  using str_cut_Some [of "CHR ''=''" kv] by (auto simp: env_entry_def subst_host_def split: option.split)

lemma prefix_host:
  assumes "CHR '':'' \<notin> set dep"
  shows "has_prefix val (dep @ '':'') \<longleftrightarrow> takeWhile no_colon val = dep \<and> dropWhile no_colon val \<noteq> []"
    "val = dep \<longleftrightarrow> takeWhile no_colon val = dep \<and> dropWhile no_colon val = []"
proof -
  have d: "takeWhile no_colon (dep @ CHR '':'' # r) = dep" for r using assms by (subst takeWhile_append2) auto
  have "has_prefix val (dep @ '':'') \<longleftrightarrow> (\<exists>r. val = dep @ CHR '':'' # r)" by (auto simp: has_prefix_def) (metis append_Cons append_Nil append_assoc append_take_drop_id)
  moreover have "(\<exists>r. val = dep @ CHR '':'' # r) \<longleftrightarrow> takeWhile no_colon val = dep \<and> dropWhile no_colon val \<noteq> []"
  proof
    assume r: "takeWhile no_colon val = dep \<and> dropWhile no_colon val \<noteq> []"
    then have "hd (dropWhile no_colon val) = CHR '':''" using hd_dropWhile by blast
    then show "\<exists>r. val = dep @ CHR '':'' # r" using r by (metis list.collapse takeWhile_dropWhile_id)
  next
    assume "\<exists>r. val = dep @ CHR '':'' # r"
    then show "takeWhile no_colon val = dep \<and> dropWhile no_colon val \<noteq> []" using assms d by (auto simp: dropWhile_append2)
  qed
  ultimately show "has_prefix val (dep @ '':'') \<longleftrightarrow> takeWhile no_colon val = dep \<and> dropWhile no_colon val \<noteq> []" by simp
  show "val = dep \<longleftrightarrow> takeWhile no_colon val = dep \<and> dropWhile no_colon val = []"
  proof
    assume "val = dep"
    then have "\<forall>c \<in> set val. no_colon c" using assms by blast
    then show "takeWhile no_colon val = dep \<and> dropWhile no_colon val = []" using \<open>val = dep\<close> by simp
  next
    assume "takeWhile no_colon val = dep \<and> dropWhile no_colon val = []"
    then show "val = dep" by (metis append_Nil2 takeWhile_dropWhile_id)
  qed
qed

lemma replace_dep_subst:
  assumes "\<forall>dep \<in> fst ` set deps. CHR '':'' \<notin> set dep"
  shows "replace_dep deps val = subst_host (map_of deps) val"
  using assms
proof (induction deps)
  case Nil
  then show ?case by (simp add: subst_host_def)
next
  case (Cons e deps)
  obtain dep addr where e: "e = (dep, addr)" by fastforce
  have "drop (length dep) val = dropWhile no_colon val" if "takeWhile no_colon val = dep"
    using that by (metis append_eq_conv_conj takeWhile_dropWhile_id)
  then show ?case using Cons e prefix_host [of dep val] by (cases "takeWhile no_colon val = dep") (auto simp: subst_host_def)
qed

text \<open>The address of the container of a dependency.\<close>

definition dep_container :: "BottleInfo \<Rightarrow> (string, string) gomap \<Rightarrow> ContainerState \<Rightarrow> string \<Rightarrow> string result" where
  "dep_container info containers cs dep =
     (if str_at containers dep \<noteq> [] then Inr (str_at containers dep) else GetContainerIdByName (buildContainerName (b_BottleName info) dep) cs)"

definition dep_address :: "BottleInfo \<Rightarrow> (string, string) gomap \<Rightarrow> 'h daemon \<Rightarrow> string \<Rightarrow> string option" where
  "dep_address info containers d dep =
     (case bind_res (dep_container info containers (d_csm d) dep) (\<lambda>i. GetNetworkInfoById i (d_ipam d)) of Inl e \<Rightarrow> None | Inr (addr, a) \<Rightarrow> Some addr)"

lemma dep_addrs_step:
  assumes io: "io_ok d"
  shows "dep_addrs info containers (dep # deps) acc d =
    (case dep_container info containers (d_csm d) dep of
       Inl e \<Rightarrow> (Inl (Err (''container for dependency '' @ dep @ '' not found'')), d)
     | Inr i \<Rightarrow> (case GetNetworkInfoById i (d_ipam d) of Inl e \<Rightarrow> (Inl e, d)
         | Inr (addr, a) \<Rightarrow> dep_addrs info containers deps (mput dep addr acc) d))"
proof -
  have net: "bnd (ipam_do (query (GetNetworkInfoById i))) (\<lambda>(addr, _). dep_addrs info containers deps (mput dep addr acc)) d =
      (case GetNetworkInfoById i (d_ipam d) of Inl e \<Rightarrow> (Inl e, d) | Inr (addr, a) \<Rightarrow> dep_addrs info containers deps (mput dep addr acc) d)" for i
    using io by (cases "GetNetworkInfoById i (d_ipam d)") (auto simp: access_ok access_error)
  show ?thesis
  proof (cases "str_at containers dep = []")
    case False
    then show ?thesis using net by (simp add: dep_container_def)
  next
    case True
    let ?n = "buildContainerName (b_BottleName info) dep"
    show ?thesis
    proof (cases "GetContainerIdByName ?n (d_csm d)")
      case (Inl e)
      then obtain m where "e = Err m" by (auto simp: GetContainerIdByName_def split: option.splits)
      then show ?thesis using True Inl io by (simp add: dep_container_def access_error)
    next
      case (Inr i)
      then show ?thesis using True io net by (simp add: dep_container_def access_ok)
    qed
  qed
qed

lemma dep_addrs_ok:
  assumes io: "io_ok d" and "dep_addrs info containers deps acc d = (Inr m, d')" "mwf acc"
  shows "d' = d \<and> map_of m = map_of acc ++ (dep_address info containers d |` set deps)
    \<and> (\<forall>dep \<in> set deps. dep_address info containers d dep \<noteq> None)"
  using assms(2,3)
proof (induction deps arbitrary: acc)
  case Nil
  then show ?case by simp
next
  case (Cons dep deps)
  obtain i addr a where i: "dep_container info containers (d_csm d) dep = Inr i" "GetNetworkInfoById i (d_ipam d) = Inr (addr, a)"
      "dep_addrs info containers deps (mput dep addr acc) d = (Inr m, d')"
    using Cons.prems(1) unfolding dep_addrs_step [OF io] by (auto split: sum.splits)
  have dep: "dep_address info containers d dep = Some addr" using i by (simp add: dep_address_def bind_res_def)
  from Cons.IH [OF i(3)] Cons.prems(2) have IH: "d' = d" "map_of m = map_of (mput dep addr acc) ++ (dep_address info containers d |` set deps)"
      "\<forall>x \<in> set deps. dep_address info containers d x \<noteq> None" by blast+
  have "map_of m = map_of acc ++ (dep_address info containers d |` set (dep # deps))"
    unfolding IH(2) using dep by (auto simp: fun_eq_iff map_add_def restrict_map_def split: option.splits)
  then show ?case using IH(1,3) dep by simp
qed

text \<open>C20: the environment of a service refers to its dependencies by address: in a value \<open>dep\<close> or
  \<open>dep:port\<close>, where \<open>dep\<close> is a dependency of the service, exactly the name is replaced by the address that
  the container of the dependency holds, all other values stay as they are, whatever the order in
  which the code visits its map; the stores are only read.\<close>

theorem bottle_env_resolved:
  assumes io: "io_ok d" and spec: "map_of (b_Services info) s = Some spec" "\<forall>dep \<in> set (DependsOn spec). CHR '':'' \<notin> set dep"
    and run: "resolveEnvWithDeps info containers s env d = (Inr env', d')"
  shows "d' = d \<and> env' = map (env_entry (dep_address info containers d |` set (DependsOn spec))) env"
proof (cases "DependsOn spec = [] \<or> env = []")
  case True
  moreover have "env' = env" "d' = d" using True run spec(1) by (auto simp: resolveEnvWithDeps_def)
  ultimately show ?thesis by (auto simp: env_entry_empty [abs_def] map_idI env_entry_empty)
next
  case False
  obtain m where m: "dep_addrs info containers (DependsOn spec) [] d = (Inr m, d')" "env' = map (resolve_kv m) env"
    using run spec(1) False by (auto simp: resolveEnvWithDeps_def bnd_Inr)
  from dep_addrs_ok [OF io m(1)] have mm: "d' = d" "map_of m = dep_address info containers d |` set (DependsOn spec)" by auto
  have "fst ` set m \<subseteq> set (DependsOn spec)"
    using mm(2) by (metis dom_map_of_conv_image_fst dom_restrict inf_le2)
  then have "\<forall>dep \<in> fst ` set m. CHR '':'' \<notin> set dep" using spec(2) by blast
  from replace_dep_subst [OF this] have "replace_dep m val = subst_host (dep_address info containers d |` set (DependsOn spec)) val" for val
    using mm(2) by simp
  then have "resolve_kv m = env_entry (dep_address info containers d |` set (DependsOn spec))"
    by (auto simp: fun_eq_iff resolve_kv_def env_entry_def split: option.split)
  then show ?thesis using m(2) mm(1) by simp
qed

definition demo_bottle :: BottleInfo where
  "demo_bottle = \<lparr>b_BottleId = ''b1'', b_BottleName = ''shop'', b_Services = [(''api'', (demo_svc [''db''])\<lparr>ss_Env := [''DB=db:5432'', ''MODE=dbx'']\<rparr>)],
     b_StartOrder = [''db'', ''api''], b_Containers = [(''db'', ''i2'')], b_Policies = [], b_Network = '''', b_NetworkAuto = False, b_CreatedAt = 0\<rparr>"

theorem bottle_env_resolved_witness:
  "resolveEnvWithDeps demo_bottle (b_Containers demo_bottle) ''api'' [''DB=db:5432'', ''MODE=dbx''] (demo_daemon npm_initial ()) =
     (Inr [''DB=10.166.0.2:5432'', ''MODE=dbx''], demo_daemon npm_initial ())"
proof -
  let ?d = "demo_daemon npm_initial ()"
  let ?run = "resolveEnvWithDeps demo_bottle (b_Containers demo_bottle) ''api'' [''DB=db:5432'', ''MODE=dbx''] ?d"
  have io: "io_ok ?d" by simp
  have spec: "map_of (b_Services demo_bottle) ''api'' = Some ((demo_svc [''db''])\<lparr>ss_Env := [''DB=db:5432'', ''MODE=dbx'']\<rparr>)"
    "\<forall>dep \<in> set (DependsOn ((demo_svc [''db''])\<lparr>ss_Env := [''DB=db:5432'', ''MODE=dbx'']\<rparr>)). CHR '':'' \<notin> set dep"
    by (simp_all add: demo_bottle_def demo_svc_def)
  have net: "GetNetworkInfoById ''i2'' (d_ipam ?d) = Inr (''10.166.0.2'', demo_alloc ''i2'')"
    by (simp add: demo_ipam_def GetNetworkInfoById_def ipam_initial_def default_pool_def demo_alloc_def allocs_def)
  have cont: "dep_container demo_bottle (b_Containers demo_bottle) (d_csm ?d) ''db'' = Inr ''i2''"
    by (simp add: dep_container_def demo_bottle_def str_at_def)
  have "\<exists>e. ?run = (Inr e, ?d)"
    using spec(1) net cont dep_addrs_step [OF io, of demo_bottle "b_Containers demo_bottle" "''db''" "[]" "[]"]
    by (simp add: resolveEnvWithDeps_def demo_svc_def)
  then obtain e where e: "?run = (Inr e, ?d)" by blast
  have "dep_address demo_bottle (b_Containers demo_bottle) ?d ''db'' = Some ''10.166.0.2''" using net cont by (simp add: dep_address_def bind_res_def)
  then have "e = [''DB=10.166.0.2:5432'', ''MODE=dbx'']"
    using bottle_env_resolved [OF io spec e] by (simp add: demo_svc_def env_entry_def subst_host_def restrict_map_def)
  with e show ?thesis by simp
qed

end
