(* ===== verification/Pod_Service.thy ===== *)
theory Pod_Service
  imports Lifecycle
begin

text \<open>
  Pods (\<open>src/internal/core/pod\<close>): the service that creates, starts, stops and removes them and the
  controller that brings replica sets and templates to the wanted state.
\<close>

subsection \<open>The service: lists (service.go, service_list.go)\<close>

record pod_CreateModel =
  pc_Name :: string
  pc_Namespace :: string
  pc_UID :: string
  pc_NetworkNS :: string
  pc_IPCNS :: string
  pc_UTSNS :: string
  pc_UserNS :: string
  pc_Labels :: "(string, string) gomap"
  pc_Annotations :: "(string, string) gomap"
  pc_Containers :: "ContainerTemplateSpec list"

record svc_PodState =
  sp_PodId :: string
  sp_Name :: string
  sp_Namespace :: string
  sp_UID :: string
  sp_State :: string
  sp_DesiredContainers :: int
  sp_RunningContainers :: int
  sp_NetworkNS :: string
  sp_IPCNS :: string
  sp_UTSNS :: string
  sp_UserNS :: string
  sp_Labels :: "(string, string) gomap"
  sp_Annotations :: "(string, string) gomap"
  sp_CreatedAt :: time
  sp_StartedAt :: time
  sp_StoppedAt :: time

definition pod_isPodInfraName :: "string \<Rightarrow> bool" where
  "pod_isPodInfraName name = has_prefix name PodInfraContainerNamePrefix"

definition getContainerCounts :: "string \<Rightarrow> string \<Rightarrow> (int \<times> int, 'h daemon) act" where
  "getContainerCounts podId templateId =
     bnd (if templateId = [] then ret 0
          else bnd (attempt (psm_do (query (GetPodTemplate templateId)))) (\<lambda>r.
            case r of Inl _ \<Rightarrow> ret 0 | Inr t \<Rightarrow> ret (int (length (pt_Containers (t_Spec t)))))) (\<lambda>desired.
     bnd (svc_GetContainersByPodId podId) (\<lambda>containers.
       let members = filter (\<lambda>c. \<not> pod_isPodInfraName (st_Name c)) containers in
       ret (if desired = 0 then int (length members) else desired, int (length (filter (\<lambda>c. st_State c = ''running'') members)))))"

definition pod_state :: "PodInfo \<Rightarrow> int \<times> int \<Rightarrow> svc_PodState" where
  "pod_state p n =
     \<lparr>sp_PodId = p_PodId p, sp_Name = p_Name p, sp_Namespace = p_Namespace p, sp_UID = p_UID p, sp_State = p_State p,
      sp_DesiredContainers = fst n, sp_RunningContainers = snd n, sp_NetworkNS = p_NetworkNS p, sp_IPCNS = p_IPCNS p,
      sp_UTSNS = p_UTSNS p, sp_UserNS = p_UserNS p, sp_Labels = p_Labels p, sp_Annotations = p_Annotations p,
      sp_CreatedAt = p_CreatedAt p, sp_StartedAt = p_StartedAt p, sp_StoppedAt = p_StoppedAt p\<rparr>"

fun pod_states :: "PodInfo list \<Rightarrow> (svc_PodState list, 'h daemon) act" where
  "pod_states [] = ret []"
| "pod_states (p # ps) =
     bnd (getContainerCounts (p_PodId p) (p_TemplateId p)) (\<lambda>n. bnd (pod_states ps) (\<lambda>rest. ret (pod_state p n # rest)))"

definition svc_GetPodList :: "(svc_PodState list, 'h daemon) act" where
  "svc_GetPodList = bnd (psm_do (query GetPodList)) pod_states"

definition svc_GetPodById :: "string \<Rightarrow> (svc_PodState, 'h daemon) act" where
  "svc_GetPodById podId =
     bnd (psm_do (query (GetPodById podId))) (\<lambda>p. bnd (getContainerCounts (p_PodId p) (p_TemplateId p)) (\<lambda>n. ret (pod_state p n)))"

subsection \<open>Removing (service_delete.go)\<close>

definition stopContainerIgnoreStopped :: "'h world \<Rightarrow> string \<Rightarrow> (unit, 'h daemon) act" where
  "stopContainerIgnoreStopped w containerId =
     bnd (attempt (Stop w containerId False)) (\<lambda>r.
       case r of
         Inr _ \<Rightarrow> ret ()
       | Inl e \<Rightarrow> if str_contains (err_text e) ''stop operation not allowed to current container status'' then ret () else fail e)"

definition remove_member :: "'h world \<Rightarrow> svc_ContainerState \<Rightarrow> (unit, 'h daemon) act" where
  "remove_member w c = seq (stopContainerIgnoreStopped w (st_ContainerId c)) (seq (Delete w (st_ContainerId c) False) (ret ()))"

text \<open>Members in the order of the list, then the infrastructure container; the last one found counts.\<close>

definition pod_Remove :: "'h world \<Rightarrow> string \<Rightarrow> (string, 'h daemon) act" where
  "pod_Remove w podId =
     bnd (psm_do (query (GetPodById podId))) (\<lambda>podInfo.
     bnd (svc_GetContainersByPodId podId) (\<lambda>containers.
     let infra = filter (\<lambda>c. pod_isPodInfraName (st_Name c)) containers in
     seq (for_each (remove_member w) (filter (\<lambda>c. \<not> pod_isPodInfraName (st_Name c)) containers))
    (seq (if infra = [] then ret () else remove_member w (last infra))
    (seq (psm_do (upd (RemovePod podId)))
    (seq (if p_TemplateId podInfo = [] then ret ()
          else bnd (attempt (psm_do (query (IsTemplateReferenced (p_TemplateId podInfo))))) (\<lambda>r.
            case r of
              Inr False \<Rightarrow> ignore (psm_do (upd (RemovePodTemplate (p_TemplateId podInfo))))
            | _ \<Rightarrow> ret ()))
         (ret podId))))))"

subsection \<open>Creating (service_create.go)\<close>

definition store_pod :: "'h world \<Rightarrow> string \<Rightarrow> pod_CreateModel \<Rightarrow> (string, 'h daemon) act" where
  "store_pod w templateId p =
     bnd (NewUlid w) (\<lambda>podId.
     bnd (w_now w) (\<lambda>now.
     seq (psm_do (upd (StorePod now podId templateId (pc_Name p) (pc_Namespace p) (pc_UID p) ''created'' (pc_NetworkNS p) (pc_IPCNS p)
           (pc_UTSNS p) (pc_UserNS p) (pc_Labels p) (pc_Annotations p))))
         (ret podId)))"

text \<open>A pod of the same name with another \<open>UID\<close> is removed first.\<close>

definition replace_pod :: "'h world \<Rightarrow> string \<Rightarrow> pod_CreateModel \<Rightarrow> (string, 'h daemon) act" where
  "replace_pod w templateId p =
     bnd (attempt (psm_do (query (GetPodIdByName (pc_Name p) (pc_Namespace p))))) (\<lambda>r.
       case r of
         Inl _ \<Rightarrow> store_pod w templateId p
       | Inr existingId \<Rightarrow>
           bnd (attempt (psm_do (query (GetPodById existingId)))) (\<lambda>s.
             case s of
               Inl _ \<Rightarrow> store_pod w templateId p
             | Inr existing \<Rightarrow>
                 if p_UID existing \<noteq> [] \<and> pc_UID p \<noteq> [] \<and> p_UID existing = pc_UID p then ret existingId
                 else if p_UID existing \<noteq> [] \<and> pc_UID p \<noteq> [] \<and> p_UID existing \<noteq> pc_UID p
                 then seq (pod_Remove w existingId) (store_pod w templateId p)
                 else fail (Err (''pod name already used: '' @ pc_Namespace p @ ''/'' @ pc_Name p))))"

definition createWithTemplate :: "'h world \<Rightarrow> string \<Rightarrow> pod_CreateModel \<Rightarrow> (string, 'h daemon) act" where
  "createWithTemplate w templateId p =
     (if pc_Name p = [] then fail (Err ''pod name is required'')
      else if pc_Namespace p = [] then fail (Err ''pod namespace is required'')
      else bnd (if pc_UID p = [] then NewUlid w else ret (pc_UID p)) (\<lambda>uid. replace_pod w templateId (p\<lparr>pc_UID := uid\<rparr>)))"

definition pod_Create :: "'h world \<Rightarrow> pod_CreateModel \<Rightarrow> (string, 'h daemon) act" where
  "pod_Create w p =
     bnd (NewUlid w) (\<lambda>templateId.
     bnd (w_now w) (\<lambda>now.
     seq (psm_do (upd (StorePodTemplate now templateId
           \<lparr>pt_Name = pc_Name p, pt_Namespace = pc_Namespace p, pt_NetworkNS = pc_NetworkNS p, pt_IPCNS = pc_IPCNS p, pt_UTSNS = pc_UTSNS p,
            pt_UserNS = pc_UserNS p, pt_Labels = pc_Labels p, pt_Annotations = pc_Annotations p, pt_Containers = pc_Containers p\<rparr>)))
         (createWithTemplate w templateId p)))"

definition CreateFromTemplate :: "'h world \<Rightarrow> string \<Rightarrow> string \<Rightarrow> (string, 'h daemon) act" where
  "CreateFromTemplate w templateId nameOverride =
     bnd (psm_do (query (GetPodTemplate templateId))) (\<lambda>template.
     let s = t_Spec template in
     createWithTemplate w templateId
       \<lparr>pc_Name = (if nameOverride \<noteq> [] then nameOverride else pt_Name s), pc_Namespace = pt_Namespace s, pc_UID = '''',
        pc_NetworkNS = pt_NetworkNS s, pc_IPCNS = pt_IPCNS s, pc_UTSNS = pt_UTSNS s, pc_UserNS = pt_UserNS s, pc_Labels = pt_Labels s,
        pc_Annotations = pt_Annotations s, pc_Containers = []\<rparr>)"

definition RecreateFromTemplate :: "'h world \<Rightarrow> string \<Rightarrow> (string, 'h daemon) act" where
  "RecreateFromTemplate w templateId = CreateFromTemplate w templateId ''''"

subsection \<open>Starting and stopping (service_start.go, service_stop.go)\<close>

text \<open>\<open>m[k]\<close> of a map of strings.\<close>

definition label_at :: "(string, string) gomap \<Rightarrow> string \<Rightarrow> string" where
  "label_at m k = (case map_of m k of None \<Rightarrow> [] | Some v \<Rightarrow> v)"

definition equalStringMap :: "(string, string) gomap \<Rightarrow> (string, string) gomap \<Rightarrow> bool" where
  "equalStringMap a b = (length a = length b \<and> list_all (\<lambda>(k, v). label_at b k = v) a)"

fun check_images :: "ContainerTemplateSpec list \<Rightarrow> unit result" where
  "check_images [] = Inr ()"
| "check_images (c # cs) =
     (if ct_Name c \<noteq> [] \<and> ct_Image c = [] then Inl (Err (''pod template invalid: container image required: '' @ ct_Name c))
      else check_images cs)"

definition ensurePodTemplateConsistency :: "PodInfo \<Rightarrow> (unit, 'h daemon) act" where
  "ensurePodTemplateConsistency podInfo =
     (if p_TemplateId podInfo = [] then ret ()
      else bnd (psm_do (query (GetPodTemplate (p_TemplateId podInfo)))) (\<lambda>tpl.
        let s = t_Spec tpl in
        seq (if pt_Name s \<noteq> p_Name podInfo \<or> pt_Namespace s \<noteq> p_Namespace podInfo then
               bnd (psm_do (query (IsTemplateReferenced (p_TemplateId podInfo)))) (\<lambda>inUse.
                 if inUse then ret () else fail (Err ''pod template mismatch: name/namespace''))
             else ret ())
       (seq (if equalStringMap (pt_Labels s) (p_Labels podInfo) then ret () else fail (Err ''pod template mismatch: labels''))
       (seq (if equalStringMap (pt_Annotations s) (p_Annotations podInfo) then ret () else fail (Err ''pod template mismatch: annotations''))
            (lift_res (check_images (pt_Containers s)))))))"

definition buildPodMemberName :: "string \<Rightarrow> string \<Rightarrow> string" where
  "buildPodMemberName baseName podId =
     (if baseName = [] then baseName else baseName @ ''-'' @ (if length podId > 8 then drop (length podId - 8) podId else podId))"

definition member_params :: "string \<Rightarrow> ContainerTemplateSpec \<Rightarrow> ServiceCreateModel" where
  "member_params podId s =
     \<lparr>sc_Image = ct_Image s, sc_Os = '''', sc_Arch = '''', sc_Command = ct_Command s, sc_Port = ct_Port s, sc_Mount = ct_Mount s,
      sc_Env = ct_Env s, sc_Network = ct_Network s, sc_Tty = ct_Tty s, sc_Name = ct_Name s, sc_BottleId = '''', sc_PodId = podId,
      sc_IsPodInfra = False\<rparr>"

definition ensurePodTemplateContainers :: "'h world \<Rightarrow> PodInfo \<Rightarrow> (unit, 'h daemon) act" where
  "ensurePodTemplateContainers w podInfo =
     (if p_TemplateId podInfo = [] then ret ()
      else bnd (psm_do (query (GetPodTemplate (p_TemplateId podInfo)))) (\<lambda>tpl.
        if pt_Containers (t_Spec tpl) = [] then ret ()
        else bnd (svc_GetContainersByPodId (p_PodId podInfo)) (\<lambda>containers.
          let actual = map st_Name (filter (\<lambda>c. \<not> pod_isPodInfraName (st_Name c)) containers) in
          for_each (\<lambda>s.
            if ct_Name s = [] then ret ()
            else if ct_Image s = [] then fail (Err (''pod template invalid: container image required: '' @ ct_Name s))
            else if buildPodMemberName (ct_Name s) (p_PodId podInfo) \<in> set actual then ret ()
            else seq (Create w (member_params (p_PodId podInfo) s)) (ret ())) (pt_Containers (t_Spec tpl)))))"

definition start_if_needed :: "'h world \<Rightarrow> svc_ContainerState \<Rightarrow> (unit, 'h daemon) act" where
  "start_if_needed w c = (if st_State c = ''running'' then ret () else seq (Start w (st_ContainerId c) False False) (ret ()))"

definition pod_Start :: "'h world \<Rightarrow> string \<Rightarrow> (string, 'h daemon) act" where
  "pod_Start w podId =
     bnd (psm_do (query (GetPodById podId))) (\<lambda>podInfo.
     seq (ensurePodTemplateConsistency podInfo)
    (seq (ensurePodTemplateContainers w podInfo)
    (bnd (svc_GetContainersByPodId podId) (\<lambda>containers.
     seq (for_each (start_if_needed w) (filter (\<lambda>c. pod_isPodInfraName (st_Name c)) containers))
    (seq (for_each (start_if_needed w) (filter (\<lambda>c. \<not> pod_isPodInfraName (st_Name c)) containers))
    (bnd (w_now w) (\<lambda>now.
     seq (psm_do (upd (UpdatePod now podId ''running'')))
    (seq (ignore (psm_do (upd (UpdatePodStoppedByUser podId False))))
         (ret podId)))))))))"

definition pod_Stop :: "'h world \<Rightarrow> string \<Rightarrow> (string, 'h daemon) act" where
  "pod_Stop w podId =
     bnd (svc_GetContainersByPodId podId) (\<lambda>containers.
     seq (for_each (\<lambda>c. seq (Stop w (st_ContainerId c) False) (ret ())) (filter (\<lambda>c. \<not> pod_isPodInfraName (st_Name c)) containers))
    (bnd (w_now w) (\<lambda>now.
     seq (psm_do (upd (UpdatePod now podId ''stopped'')))
    (seq (psm_do (upd (UpdatePodStoppedByUser podId True)))
         (ret podId)))))"

subsection \<open>The controller (controller.go)\<close>

definition getPodInfraState :: "string \<Rightarrow> (string, 'h daemon) act" where
  "getPodInfraState podId =
     bnd (svc_GetContainersByPodId podId) (\<lambda>containers.
       case List.find (\<lambda>c. has_prefix (st_Name c) PodInfraContainerNamePrefix) containers of
         None \<Rightarrow> ret ''missing''
       | Some c \<Rightarrow> ret (if st_State c = ''running'' then ''running'' else ''stopped''))"

definition isPodInfraDown :: "string \<Rightarrow> (bool, 'h daemon) act" where
  "isPodInfraDown podId = bnd (getPodInfraState podId) (\<lambda>state. ret (state \<noteq> ''running''))"

text \<open>Errors of single containers are dropped.\<close>

definition drop_containers :: "'h world \<Rightarrow> string \<Rightarrow> (unit, 'h daemon) act" where
  "drop_containers w podId =
     bnd (svc_GetContainersByPodId podId) (\<lambda>containers.
       for_each (\<lambda>c. seq (if st_State c = ''running'' then ignore (Stop w (st_ContainerId c) False) else ret ())
                         (ignore (Delete w (st_ContainerId c) False))) containers)"

definition recreatePod :: "'h world \<Rightarrow> PodInfo \<Rightarrow> (unit, 'h daemon) act" where
  "recreatePod w podInfo =
     seq (drop_containers w (p_PodId podInfo))
    (seq (bnd (attempt (psm_do (upd (RemovePod (p_PodId podInfo))))) (\<lambda>r.
            case r of Inl e \<Rightarrow> if str_contains (err_text e) ''not found'' then ret () else fail e | Inr _ \<Rightarrow> ret ()))
         (if p_TemplateId podInfo = [] then ret ()
          else bnd (RecreateFromTemplate w (p_TemplateId podInfo)) (\<lambda>newPodId. seq (pod_Start w newPodId) (ret ()))))"

definition deletePod :: "'h world \<Rightarrow> PodInfo \<Rightarrow> (unit, 'h daemon) act" where
  "deletePod w podInfo = seq (drop_containers w (p_PodId podInfo)) (psm_do (upd (RemovePod (p_PodId podInfo))))"

text \<open>The pods of a template, in the order of the list; pods without template are in no group.\<close>

definition pods_of :: "string \<Rightarrow> PodInfo list \<Rightarrow> PodInfo list" where
  "pods_of templateId pods = filter (\<lambda>p. p_TemplateId p \<noteq> [] \<and> p_TemplateId p = templateId) pods"

text \<open>New pods until one cannot be created.\<close>

primrec scale_up :: "'h world \<Rightarrow> ReplicaSetSpec \<Rightarrow> nat \<Rightarrow> (unit, 'h daemon) act" where
  "scale_up w s 0 = ret ()"
| "scale_up w s (Suc n) =
     bnd (NewUlid w) (\<lambda>u.
       if length u < 8 then fail (Panic ''slice bounds out of range'')
       else bnd (attempt (CreateFromTemplate w (rs_TemplateId s) (rs_Name s @ ''-'' @ take 8 u))) (\<lambda>r.
         case r of
           Inl _ \<Rightarrow> ret ()
         | Inr podId \<Rightarrow> seq (ignore (pod_Start w podId)) (scale_up w s n)))"

definition scale_down :: "'h world \<Rightarrow> PodInfo list \<Rightarrow> nat \<Rightarrow> (unit, 'h daemon) act" where
  "scale_down w podList excess =
     seq (for_each (\<lambda>p. ignore (deletePod w p)) (take excess podList))
         (if excess > length podList then fail (Panic ''index out of range'') else ret ())"

text \<open>The pods of the list as it was before scaling.\<close>

definition revive_pod :: "'h world \<Rightarrow> PodInfo \<Rightarrow> (unit, 'h daemon) act" where
  "revive_pod w p =
     (if p_StoppedByUser p then ret ()
      else if p_State p = ''degraded'' then
        bnd (attempt (getPodInfraState (p_PodId p))) (\<lambda>r.
          case r of
            Inl _ \<Rightarrow> ret ()
          | Inr infraState \<Rightarrow> if infraState \<noteq> ''running'' then ignore (recreatePod w p) else ignore (pod_Start w (p_PodId p)))
      else if p_State p = ''stopped'' then ignore (pod_Start w (p_PodId p))
      else ret ())"

definition reconcile_rs :: "'h world \<Rightarrow> PodInfo list \<Rightarrow> ReplicaSetInfo \<Rightarrow> (unit, 'h daemon) act" where
  "reconcile_rs w pods rs =
     (let podList = pods_of (rs_TemplateId (r_Spec rs)) pods; current = int (length podList); replicas = rs_Replicas (r_Spec rs) in
      seq (if current < replicas then scale_up w (r_Spec rs) (nat (replicas - current))
           else if current > replicas then scale_down w podList (nat (current - replicas))
           else ret ())
          (for_each (revive_pod w) podList))"

text \<open>The loop over the pods of a template: whether one is active, a degraded and a stopped one.\<close>

fun scan_pods :: "'h world \<Rightarrow> PodInfo list \<Rightarrow> string \<Rightarrow> string \<Rightarrow> (bool \<times> string \<times> string, 'h daemon) act" where
  "scan_pods w [] degraded stopped = ret (False, degraded, stopped)"
| "scan_pods w (p # ps) degraded stopped =
     bnd (if p_StoppedByUser p then ret (Inr False) else attempt (isPodInfraDown (p_PodId p))) (\<lambda>r.
       case r of
         Inr True \<Rightarrow> seq (ignore (recreatePod w p)) (ret (True, degraded, stopped))
       | _ \<Rightarrow>
           let degraded' = (if p_State p = ''degraded'' \<and> \<not> p_StoppedByUser p \<and> degraded = [] then p_PodId p else degraded) in
           if p_State p \<noteq> ''stopped'' then ret (True, degraded', stopped)
           else scan_pods w ps degraded' (if p_StoppedByUser p \<or> stopped \<noteq> [] then stopped else p_PodId p))"

definition reconcile_template :: "'h world \<Rightarrow> PodInfo list \<Rightarrow> PodTemplateInfo \<Rightarrow> (unit, 'h daemon) act" where
  "reconcile_template w pods tpl =
     bnd (attempt (psm_do (query (IsTemplateReferenced (t_TemplateId tpl))))) (\<lambda>r.
       case r of
         Inl _ \<Rightarrow> ret ()
       | Inr True \<Rightarrow> ret ()
       | Inr False \<Rightarrow>
           (let podList = pods_of (t_TemplateId tpl) pods in
            if podList = [] then ignore (RecreateFromTemplate w (t_TemplateId tpl))
            else bnd (scan_pods w podList [] []) (\<lambda>(hasActive, degraded, stopped).
              if degraded \<noteq> [] then ignore (pod_Start w degraded)
              else if hasActive \<or> stopped = [] then ret ()
              else ignore (pod_Start w stopped))))"

definition reconcileOnce :: "'h world \<Rightarrow> (unit, 'h daemon) act" where
  "reconcileOnce w =
     bnd (psm_do (query GetReplicaSetList)) (\<lambda>replicaSets.
     bnd (psm_do (query GetPodTemplateList)) (\<lambda>templates.
       if templates = [] \<and> replicaSets = [] then ret ()
       else bnd (psm_do (query GetPodList)) (\<lambda>pods.
         seq (for_each (reconcile_rs w pods) replicaSets)
             (for_each (reconcile_template w pods) templates))))"

end
