(* ===== verification/Pod_Facts.thy ===== *)
theory Pod_Facts
  imports Pod_Service
begin

text \<open>
  Pods keep their names and templates through everything the container service does to them, so
  that no two pods of a namespace share a name and scaling down removes exactly the excess pods.
\<close>

subsection \<open>The pods of the document\<close>

definition pod_key :: "PodInfo \<Rightarrow> string \<times> string \<times> string" where
  "pod_key p = (p_Name p, p_Namespace p, p_TemplateId p)"

definition pod_names :: "PodState \<Rightarrow> (string \<times> string \<times> string \<times> string) list" where
  "pod_names st = map (map_prod id pod_key) (Pods st)"

definition pods_are :: "(string \<times> string \<times> string \<times> string) list \<Rightarrow> 'h daemon \<Rightarrow> bool" where
  "pods_are V d \<longleftrightarrow> io_ok d \<and> psm_inv (d_psm d) \<and> pod_names (d_psm d) = V"

lemma view_mput: "map_of m k = Some v \<Longrightarrow> g v' = g v \<Longrightarrow> map (map_prod id g) (mput k v' m) = map (map_prod id g) m"
  by (induction m) (auto split: if_splits)

lemma view_mdel: "map (map_prod id g) (mdel k m) = filter (\<lambda>e. fst e \<noteq> k) (map (map_prod id g) m)"
  by (induction m) auto

text \<open>The operations that do not create or remove a pod.\<close>

definition renames_nothing :: "(PodState \<Rightarrow> PodState result) \<Rightarrow> bool" where
  "renames_nothing f \<longleftrightarrow> (\<forall>st st'. psm_inv st \<and> f st = Inr st' \<longrightarrow> psm_inv st' \<and> pod_names st' = pod_names st)"

lemma pod_key_updates [simp]:
  "pod_key (p\<lparr>p_State := s\<rparr>) = pod_key p" "pod_key (p\<lparr>p_CreatedAt := t\<rparr>) = pod_key p" "pod_key (p\<lparr>p_StartedAt := t\<rparr>) = pod_key p"
  "pod_key (p\<lparr>p_StoppedAt := t\<rparr>) = pod_key p" "pod_key (p\<lparr>p_StoppedByUser := b\<rparr>) = pod_key p" "pod_key (p\<lparr>p_OwnerPid := i\<rparr>) = pod_key p"
  "pod_key (p\<lparr>p_NetworkNS := n\<rparr>) = pod_key p" "pod_key (p\<lparr>p_IPCNS := n\<rparr>) = pod_key p" "pod_key (p\<lparr>p_UTSNS := n\<rparr>) = pod_key p"
  "pod_key (p\<lparr>p_UserNS := n\<rparr>) = pod_key p"
  by (simp_all add: pod_key_def)

lemma renames_nothingI:
  assumes "\<And>st. f st = psm_apply op st" "\<And>st st'. f st = Inr st' \<Longrightarrow> pod_names st' = pod_names st"
  shows "renames_nothing f"
  using assms psm_apply_inv [of _ op] by (auto simp: renames_nothing_def)

lemma pod_put:
  assumes "\<And>p. pod_key (g p) = pod_key p"
    and "(case map_of (Pods st) i of None \<Rightarrow> Inl e | Some p \<Rightarrow> Inr (st\<lparr>Pods := mput i (g p) (Pods st)\<rparr>)) = Inr st'"
  shows "pod_names st' = pod_names st"
  using assms(2) by (auto simp: pod_names_def assms(1) intro!: view_mput split: option.splits)

lemma pod_updates:
  "renames_nothing (ResetPodNamespaces i)" "renames_nothing (UpdatePod now i s)" "renames_nothing (UpdatePodStoppedByUser i b)"
  "renames_nothing (UpdatePodNamespaces pid i n1 n2 n3 n4)"
proof -
  show "renames_nothing (ResetPodNamespaces i)"
    by (rule renames_nothingI [of _ "Op_ResetPodNamespaces i"]) (simp, unfold ResetPodNamespaces_def, erule pod_put [rotated], simp)
  show "renames_nothing (UpdatePod now i s)"
    by (rule renames_nothingI [of _ "Op_UpdatePod now i s"]) (simp, unfold UpdatePod_def Let_def, erule pod_put [rotated], simp)
  show "renames_nothing (UpdatePodStoppedByUser i b)"
    by (rule renames_nothingI [of _ "Op_UpdatePodStoppedByUser i b"]) (simp, unfold UpdatePodStoppedByUser_def, erule pod_put [rotated], simp)
  show "renames_nothing (UpdatePodNamespaces pid i n1 n2 n3 n4)"
    by (rule renames_nothingI [of _ "Op_UpdatePodNamespaces pid i n1 n2 n3 n4"])
      (simp, unfold UpdatePodNamespaces_def Let_def, erule pod_put [rotated], simp)
qed

lemma template_updates:
  "renames_nothing (AddContainerToPodTemplate i c)" "renames_nothing (StorePodTemplate now t s)" "renames_nothing (RemovePodTemplate t)"
proof -
  have names: "pod_names st' = pod_names st"
    if "AddContainerToPodTemplate i c st = Inr st' \<or> StorePodTemplate now t s st = Inr st' \<or> RemovePodTemplate t st = Inr st'" for st st'
    using that by (auto simp: psm_template_defs pod_names_def Let_def split: option.splits if_splits)
  show "renames_nothing (AddContainerToPodTemplate i c)" by (rule renames_nothingI [of _ "Op_AddContainerToPodTemplate i c"]) (use names in auto)
  show "renames_nothing (StorePodTemplate now t s)" by (rule renames_nothingI [of _ "Op_StorePodTemplate now t s"]) (use names in auto)
  show "renames_nothing (RemovePodTemplate t)" by (rule renames_nothingI [of _ "Op_RemovePodTemplate t"]) (use names in auto)
qed

lemmas psm_updates = pod_updates template_updates

lemma pods_access:
  "stable (pods_are V) (ilm_do f)" "stable (pods_are V) (ipam_do g)" "stable (pods_are V) (csm_do k)" "stable (pods_are V) (psm_do (query q))"
  by (auto simp: stable_def pods_are_def access_def store_access_simps io_ok_def query_def split: sum.splits prod.splits)

lemma pods_update: "renames_nothing f \<Longrightarrow> stable (pods_are V) (psm_do (upd f))"
  by (auto simp: stable_def pods_are_def access_def store_access_simps io_ok_def upd_def renames_nothing_def split: sum.splits prod.splits)

lemma pods_host: "stable (pods_are V) (on_host m)" "stable (pods_are V) (Now c)" "stable (pods_are V) (NewUlid w)"
  unfolding Now_def NewUlid_def by (intro stable_on_host; simp add: pods_are_def io_ok_def)+

lemmas pods_intros = stable_intros pods_access pods_host pods_update psm_updates stable_if_state

subsection \<open>The container service keeps the pods\<close>

text \<open>What is relied on of the runtime, and of what happens during a pause: pods are neither made, removed nor renamed.\<close>

definition keeps_pods :: "'h world \<Rightarrow> bool" where
  "keeps_pods w \<longleftrightarrow> (\<forall>V cmd d out d'. w_droplet w cmd d = (out, d') \<and> pods_are V d \<longrightarrow> pods_are V d') \<and>
     (\<forall>V d. pods_are V d \<longrightarrow> pods_are V (w_sleep w d))"

lemma pods_droplet:
  assumes "keeps_pods w"
  shows "stable (pods_are V) (droplet_run w what cmd)"
  using assms by (auto simp: stable_def droplet_run_def keeps_pods_def split: prod.splits option.splits)

lemma pods_runtime:
  assumes "keeps_pods w"
  shows "stable (pods_are V) (droplet_Spec w s)" "stable (pods_are V) (droplet_Create w cid tty pid)"
    "stable (pods_are V) (createContainer w cid tty)" "stable (pods_are V) (joinContainer w cid tty podId)"
    "stable (pods_are V) (startContainer w cid)" "stable (pods_are V) (stopContainer w cid)" "stable (pods_are V) (deleteContainer w cid)"
  unfolding droplet_Spec_def droplet_Create_def joinContainer_def createContainer_def startContainer_def stopContainer_def
    deleteContainer_def droplet_Start_def droplet_Stop_def droplet_Delete_def Let_def
  by (intro pods_intros pods_droplet [OF assms])+

lemma pods_resolve: "stable (pods_are V) (resolve_container t)" "stable (pods_are V) (container_info i)"
  "stable (pods_are V) (svc_GetContainersByPodId podId)"
  unfolding resolve_container_def csm_ResolveContainerId_def container_info_def svc_GetContainersByPodId_def buildContainerStateList_def Let_def
  by (intro pods_intros)+

lemma pods_forward: "stable (pods_are V) (cleanupForwardRules w i)" "stable (pods_are V) (setupForwardRule w i ports)"
  unfolding cleanupForwardRules_def setupForwardRule_def CreateForwardingRule_def RemoveForwardingRule_def by (intro pods_intros)+

lemma pods_directory: "stable (pods_are V) (setupContainerDirectory w i)" "stable (pods_are V) (setupEtcFiles w i a g)"
  "stable (pods_are V) (setupCgroupSubtree w i)" "stable (pods_are V) (deleteContainerDirectory w i)"
  "stable (pods_are V) (deleteCgroupSubtree w i)" "stable (pods_are V) (releaseAddress i)"
  unfolding setupContainerDirectory_def setupEtcFiles_def setupCgroupSubtree_def deleteContainerDirectory_def deleteCgroupSubtree_def
    releaseAddress_def Let_def
  by (intro pods_intros)+

lemma pods_lifecycle:
  assumes "keeps_pods w"
  shows "stable (pods_are V) (Start w t tty ob)" "stable (pods_are V) (Stop w t ob)" "stable (pods_are V) (Delete w t ob)"
  unfolding Start_def Stop_def Delete_def
  by (intro pods_intros pods_resolve pods_forward pods_directory pods_runtime [OF assms])+

lemma pods_rollback: "stable (pods_are V) (rollback w f i)"
  unfolding rollback_def rollback_entry_def rollback_cgroup_def by (intro pods_intros pods_forward pods_directory)

lemma pods_name: "stable (pods_are V) (container_name w p)"
proof -
  have r: "stable (pods_are V) (GenerateRandName w)" unfolding GenerateRandName_def pick_def by (intro pods_intros)
  have "stable (pods_are V) (gen_name w k)" for k
    by (induction k) (simp_all only: gen_name.simps, (intro pods_intros r; assumption?)+)
  then show ?thesis unfolding container_name_def generateContainerName_def Let_def by (intro pods_intros)
qed

lemma pods_image: "stable (pods_are V) (image_exists w repo ref)" "stable (pods_are V) (pullImage w i os arch)"
  "stable (pods_are V) (GetImageConfig env path)" "stable (pods_are V) (pod_owner podId)"
proof -
  have "stable (pods_are V) (or_zero False (ilm_do (query (\<lambda>st. Inr (IsImageExist (\<lambda>p. path_exists w p h) repo ref st)))))" for h
    by (intro pods_intros)
  then show "stable (pods_are V) (image_exists w repo ref)" by (auto simp: stable_def image_exists_def)
  show "stable (pods_are V) (pullImage w i os arch)" "stable (pods_are V) (GetImageConfig env path)" "stable (pods_are V) (pod_owner podId)"
    unfolding pullImage_def Pull_def GetImageConfig_def pod_owner_def Let_def by (intro pods_intros)+
qed

lemma pods_steps:
  assumes "keeps_pods w"
  shows "stable (pods_are V) (create_steps w p cid name)"
proof -
  have res: "stable (pods_are V) (create_resources w p cid)"
    unfolding create_resources_def allocateAddress_def Let_def by (intro pods_intros pods_image)
  have entry: "stable (pods_are V) (create_entry w p cid name repo ref cfg)" for repo ref cfg
    unfolding create_entry_def Let_def by (intro pods_intros)
  have spec: "stable (pods_are V) (createContainerSpec w cid p repo ref cfg b a g podId)" for repo ref cfg b a g podId
    unfolding createContainerSpec_def spec_namespaces_def Let_def by (intro pods_intros pods_runtime [OF assms])
  have finish: "stable (pods_are V) (create_finish w p cid name)"
    unfolding create_finish_def by (intro pods_intros pods_image pods_runtime [OF assms])
  show ?thesis unfolding create_steps_def Let_def
    by (intro pods_intros pods_rollback pods_directory pods_forward res entry spec finish)
qed

lemma pods_wait: "keeps_pods w \<Longrightarrow> stable (pods_are V) (wait_namespaces w podId n)"
proof (induction n)
  case (Suc n)
  then have "stable (pods_are V) (\<lambda>d. if podNamespacesReady w p d then (Inr (), d) else wait_namespaces w podId n (w_sleep w d))" for p
    by (auto simp: stable_def keeps_pods_def)
  then show ?case by (simp only: wait_namespaces.simps) (rule stable_bnd [OF pods_access(4)])
qed (simp add: stable_def)

lemma pods_Create:
  assumes "keeps_pods w"
  shows "stable (pods_are V) (Create w p)"
proof -
  have body: "stable (pods_are V) (create_body w p)" for p
    unfolding create_body_def by (intro pods_intros pods_name pods_steps [OF assms])
  have find: "stable (pods_are V) (findPodInfraContainer podId)" for podId
    unfolding findPodInfraContainer_def by (intro pods_intros pods_resolve) (auto split: option.split intro: pods_intros)
  have ready: "stable (pods_are V) (\<lambda>d. if b d then (Inr (), d) else m d)" if "stable (pods_are V) m" for m and b :: "_ \<Rightarrow> bool"
    using that by (simp add: stable_def)
  have "stable (pods_are V) (ensurePodInfra w podId network)" for podId network
    unfolding ensurePodInfra_def waitForPodNamespaces_def
    by (rule stable_bnd [OF pods_access(4)], rule ready) (intro pods_intros find body pods_lifecycle [OF assms] pods_wait [OF assms])
  then show ?thesis unfolding Create_def by (intro pods_intros body)
qed

subsection \<open>No two pods of a namespace share a name\<close>

definition full_name :: "PodInfo \<Rightarrow> string \<times> string" where
  "full_name p = (p_Name p, p_Namespace p)"

definition unique_pods :: "'h daemon \<Rightarrow> bool" where
  "unique_pods d \<longleftrightarrow> io_ok d \<and> psm_inv (d_psm d) \<and> distinct (map (full_name \<circ> snd) (Pods (d_psm d)))"

definition name_free :: "string \<times> string \<Rightarrow> 'h daemon \<Rightarrow> bool" where
  "name_free n d \<longleftrightarrow> unique_pods d \<and> n \<notin> (full_name \<circ> snd) ` set (Pods (d_psm d))"

text \<open>Both conditions depend on the names of the pods only.\<close>

abbreviation names_in :: "(string \<times> string \<times> string \<times> string) list \<Rightarrow> (string \<times> string) list" where
  "names_in V \<equiv> map (\<lambda>(i, n, ns, t). (n, ns)) V"

lemma names_in_pods: "names_in (pod_names st) = map (full_name \<circ> snd) (Pods st)"
  by (simp add: pod_names_def full_name_def pod_key_def comp_def case_prod_beta)

lemma unique_pods_names: "unique_pods d \<longleftrightarrow> (\<exists>V. pods_are V d \<and> distinct (names_in V))"
  by (auto simp: unique_pods_def pods_are_def simp flip: names_in_pods)

lemma name_free_names: "name_free n d \<longleftrightarrow> (\<exists>V. pods_are V d \<and> distinct (names_in V) \<and> n \<notin> set (names_in V))"
proof -
  have "(full_name \<circ> snd) ` set (Pods (d_psm d)) = set (names_in (pod_names (d_psm d)))" by (simp only: names_in_pods set_map)
  then show ?thesis unfolding name_free_def unique_pods_names by (auto simp: pods_are_def)
qed

lemma unique_keeps: "(\<And>V. stable (pods_are V) m) \<Longrightarrow> stable unique_pods m"
  unfolding stable_def unique_pods_names by blast

lemma name_free_keeps: "(\<And>V. stable (pods_are V) m) \<Longrightarrow> stable (name_free n) m"
  unfolding stable_def name_free_names by blast

lemmas unique_intros = stable_intros unique_keeps [OF pods_host(3)] unique_keeps [OF pods_host(2)] unique_keeps [OF pods_access(4)]
  unique_keeps [OF pods_update] psm_updates unique_keeps [OF pods_resolve(3)]

lemma distinct_mput:
  "distinct (map (f \<circ> snd) m) \<Longrightarrow> f q \<notin> (f \<circ> snd) ` set m \<Longrightarrow> distinct (map (f \<circ> snd) (mput k q m))"
proof (induction m)
  case (Cons e m)
  have "(f \<circ> snd) ` set (mput k q m) \<subseteq> insert (f q) ((f \<circ> snd) ` set m)"
    using set_mput_subset [of k q m] by force
  with Cons show ?case by (cases e) (auto simp: image_iff)
qed simp

lemma store_pod_unique:
  assumes "name_free (pc_Name p, pc_Namespace p) d"
  shows "unique_pods (snd (store_pod w t p d))"
proof -
  let ?n = "(pc_Name p, pc_Namespace p)"
  have ids: "stable (name_free ?n) (NewUlid w)" "stable (name_free ?n) (w_now w)" by (intro name_free_keeps pods_host)+
  obtain u h where u: "NewUlid w d = (Inr u, d\<lparr>d_host := h\<rparr>)" by (cases "w_ulid w (d_host d)") (simp add: NewUlid_def on_host_def)
  obtain now h' where n: "w_now w (d\<lparr>d_host := h\<rparr>) = (Inr now, d\<lparr>d_host := h, d_host := h'\<rparr>)" by (rule now_step)
  define d2 where "d2 = d\<lparr>d_host := h, d_host := h'\<rparr>"
  have free: "name_free ?n d2" using stableD [OF ids(2) n stableD [OF ids(1) u assms]] by (simp add: d2_def)
  define op where "op = Op_StorePod now u t (pc_Name p) (pc_Namespace p) (pc_UID p) ''created'' (pc_NetworkNS p) (pc_IPCNS p) (pc_UTSNS p)
    (pc_UserNS p) (pc_Labels p) (pc_Annotations p)"
  obtain st where st: "psm_apply op (d_psm d2) = Inr st" by (simp add: op_def StorePod_def)
  have "psm_inv st" using psm_apply_inv [OF _ st] free by (simp add: name_free_def unique_pods_def)
  moreover have "\<exists>q. Pods st = mput u q (Pods (d_psm d2)) \<and> full_name q = ?n" using st by (auto simp: op_def StorePod_def full_name_def)
  then have "distinct (map (full_name \<circ> snd) (Pods st))"
    using distinct_mput [of full_name "Pods (d_psm d2)"] free by (auto simp del: comp_apply simp: name_free_def unique_pods_def)
  ultimately have "unique_pods (d2\<lparr>d_psm := st\<rparr>)" using free by (simp add: name_free_def unique_pods_def io_ok_def)
  moreover have "psm_do (upd (psm_apply op)) d2 = (Inr (), d2\<lparr>d_psm := st\<rparr>)"
    using access_ok [of d2 "upd (psm_apply op)" d_psm "()" st d_psm_update] free st by (simp add: upd_def name_free_def unique_pods_def)
  then have "store_pod w t p d = (Inr u, d2\<lparr>d_psm := st\<rparr>)" using u n by (simp add: store_pod_def op_def d2_def)
  ultimately show ?thesis by simp
qed

text \<open>A removal that succeeds has taken the pod out, one that fails at most that pod.\<close>

lemma pod_Remove_effect:
  assumes w: "keeps_pods w" and d: "pods_are V d" and run: "pod_Remove w podId d = (r, d')"
  shows "pods_are (filter (\<lambda>e. fst e \<noteq> podId) V) d' \<or> (pods_are V d' \<and> \<not> is_ok r)"
proof -
  let ?V = "filter (\<lambda>e. fst e \<noteq> podId) V"
  define out where "out = (\<lambda>podInfo :: PodInfo. seq (if p_TemplateId podInfo = [] then ret ()
          else bnd (attempt (psm_do (query (IsTemplateReferenced (p_TemplateId podInfo))))) (\<lambda>r.
            case r of Inr False \<Rightarrow> ignore (psm_do (upd (RemovePodTemplate (p_TemplateId podInfo)))) | _ \<Rightarrow> ret ())) (ret podId) :: (string, 'a daemon) act)"
  define first where "first = bnd (psm_do (query (GetPodById podId))) (\<lambda>podInfo. bnd (svc_GetContainersByPodId podId) (\<lambda>containers.
     let infra = filter (\<lambda>c. pod_isPodInfraName (st_Name c)) containers in
     seq (for_each (remove_member w) (filter (\<lambda>c. \<not> pod_isPodInfraName (st_Name c)) containers))
    (seq (if infra = [] then ret () else remove_member w (last infra)) (ret podInfo))))"
  have member: "stable (pods_are V) (remove_member w c)" for c
    unfolding remove_member_def stopContainerIgnoreStopped_def by (intro pods_intros pods_lifecycle [OF w])
  have first: "stable (pods_are V) first" unfolding first_def Let_def by (intro pods_intros pods_resolve member)
  have out: "stable (pods_are U) (out i)" for U i
    unfolding out_def by (intro pods_intros) (auto split: bool.split intro!: pods_intros)
  have split: "pod_Remove w podId d = bnd first (\<lambda>i. seq (psm_do (upd (RemovePod podId))) (out i)) d"
    by (simp add: pod_Remove_def first_def out_def seq_def bnd_def Let_def split: prod.splits sum.splits)
  obtain x d1 where x: "first d = (x, d1)" by fastforce
  have d1: "pods_are V d1" using stableD [OF first x d] .
  show ?thesis
  proof (cases x)
    case (Inl e)
    then show ?thesis using run x d1 split by auto
  next
    case (Inr i)
    obtain y d2 where y: "psm_do (upd (RemovePod podId)) d1 = (y, d2)" by fastforce
    have "case y of Inl e \<Rightarrow> pods_are V d2 | Inr u \<Rightarrow> pods_are ?V d2"
      using y d1 psm_apply_inv [of "d_psm d1" "Op_RemovePod podId"]
      by (auto simp: pods_are_def access_def store_access_simps io_ok_def upd_def RemovePod_def pod_names_def view_mdel split: if_splits sum.splits)
    then show ?thesis using run x Inr y split stableD [OF out] by (cases y) auto
  qed
qed

lemma pod_by_name:
  assumes "unique_pods d"
  shows "case fst (psm_do (query (GetPodIdByName n ns)) d) of
      Inl e \<Rightarrow> name_free (n, ns) d
    | Inr i \<Rightarrow> \<exists>p. map_of (Pods (d_psm d)) i = Some p \<and> full_name p = (n, ns)" (is "case fst ?q of Inl e \<Rightarrow> _ | Inr i \<Rightarrow> _")
    and "snd (psm_do (query (GetPodIdByName n ns)) d) = d"
proof -
  let ?m = "Pods (d_psm d)"
  have wf: "mwf ?m" "psm_inv (d_psm d)" using assms by (auto simp: unique_pods_def psm_inv_def keyed_def)
  show "snd (psm_do (query (GetPodIdByName n ns)) d) = d"
    using assms by (cases "GetPodIdByName n ns (d_psm d)") (simp_all add: unique_pods_def access_ok access_error)
  show "case fst ?q of Inl e \<Rightarrow> name_free (n, ns) d | Inr i \<Rightarrow> \<exists>p. map_of ?m i = Some p \<and> full_name p = (n, ns)"
  proof (cases "range_find (\<lambda>p. p_Name p = n \<and> p_Namespace p = ns) ?m")
    case None
    then have "name_free (n, ns) d" using assms by (fastforce simp: range_find_None name_free_def full_name_def)
    then show ?thesis using None assms by (simp add: GetPodIdByName_def unique_pods_def access_error)
  next
    case (Some e)
    obtain k p where e: "e = (k, p)" by (cases e)
    then have "(k, p) \<in> set ?m" "full_name p = (n, ns)" using range_find_SomeD [OF Some [unfolded e]] by (auto simp: full_name_def)
    then have "map_of ?m (p_PodId p) = Some p" using wf psm_keys(1) [OF wf(2), of k p] by (auto simp: mwf_map_of_iff)
    then show ?thesis using Some e assms \<open>full_name p = _\<close> by (simp add: GetPodIdByName_def unique_pods_def access_ok)
  qed
qed

lemma pod_Remove_unique:
  assumes "keeps_pods w" "unique_pods d" "pod_Remove w i d = (r, d')"
  shows "unique_pods d'"
    and "is_ok r \<Longrightarrow> map_of (Pods (d_psm d)) i = Some p \<Longrightarrow> name_free (full_name p) d'"
proof -
  obtain V where V: "pods_are V d" "distinct (names_in V)" using assms(2) by (auto simp: unique_pods_names)
  note eff = pod_Remove_effect [OF assms(1) V(1) assms(3)]
  have d: "distinct (names_in (filter (\<lambda>e. fst e \<noteq> i) V))" by (rule distinct_map_filter [OF V(2)])
  show "unique_pods d'" using eff V(2) d by (auto simp: unique_pods_names)
  assume ok: "is_ok r" and p: "map_of (Pods (d_psm d)) i = Some p"
  have m: "(i, pod_key p) \<in> set V" using map_of_SomeD [OF p] V(1) by (force simp: pods_are_def pod_names_def)
  have "full_name p \<notin> set (names_in (filter (\<lambda>e. fst e \<noteq> i) V))"
  proof
    assume "full_name p \<in> set (names_in (filter (\<lambda>e. fst e \<noteq> i) V))"
    then obtain e where e: "e \<in> set V" "fst e \<noteq> i" "(\<lambda>(i, n, ns, t). (n, ns)) e = full_name p" by auto
    have "(\<lambda>(i, n, ns, t). (n, ns)) (i, pod_key p) = full_name p" by (simp add: pod_key_def full_name_def)
    then have "e = (i, pod_key p)" using distinct_map_inj [OF V(2) e(1) m] e(3) by simp
    then show False using e(2) by simp
  qed
  then show "name_free (full_name p) d'" unfolding name_free_names using eff ok d by (intro exI [of _ "filter (\<lambda>e. fst e \<noteq> i) V"]) simp
qed

lemma createWithTemplate_unique:
  assumes w: "keeps_pods w"
  shows "stable unique_pods (createWithTemplate w t p)"
proof -
  have rep: "unique_pods (snd (replace_pod w t q d))" if d: "unique_pods d" for q d
  proof -
    let ?q = "psm_do (query (GetPodIdByName (pc_Name q) (pc_Namespace q)))"
    note byname = pod_by_name [OF d, of "pc_Name q" "pc_Namespace q"]
    have io: "io_ok d" using d by (simp add: unique_pods_def)
    show ?thesis
    proof (cases "GetPodIdByName (pc_Name q) (pc_Namespace q) (d_psm d)")
      case (Inl e)
      then have x: "?q d = (Inl e, d)" using io by (simp add: access_error)
      obtain m where "e = Err m" using Inl by (auto simp: GetPodIdByName_def split: option.splits prod.splits)
      then have "replace_pod w t q d = store_pod w t q d" using x by (simp add: replace_pod_def)
      then show ?thesis using byname(1) x store_pod_unique by simp
    next
      case (Inr i)
      then have x: "?q d = (Inr i, d)" using io by (simp add: access_ok)
      then obtain e where e: "map_of (Pods (d_psm d)) i = Some e" "full_name e = (pc_Name q, pc_Namespace q)" using byname(1) by auto
      then have g: "psm_do (query (GetPodById i)) d = (Inr e, d)" using io by (simp add: access_ok GetPodById_def)
      obtain r d1 where r: "pod_Remove w i d = (r, d1)" by fastforce
      have "unique_pods (snd (seq (pod_Remove w i) (store_pod w t q) d))"
        using pod_Remove_unique [OF w d r] e store_pod_unique r by (cases r) auto
      then show ?thesis using x g d by (simp add: replace_pod_def)
    qed
  qed
  then have "stable unique_pods (replace_pod w t q)" for q by (fastforce simp: stable_def dest: rep)
  then show ?thesis unfolding createWithTemplate_def by (intro unique_intros)
qed

lemma pods_Start:
  assumes "keeps_pods w"
  shows "stable (pods_are V) (pod_Start w i)" "stable (pods_are V) (pod_Stop w i)" "stable (pods_are V) (drop_containers w i)"
proof -
  have ops: "stable (pods_are V) (ensurePodTemplateConsistency info)" "stable (pods_are V) (ensurePodTemplateContainers w info)"
    "stable (pods_are V) (start_if_needed w c)" for info c
    unfolding ensurePodTemplateConsistency_def ensurePodTemplateContainers_def start_if_needed_def Let_def
    by (intro pods_intros pods_resolve pods_Create [OF assms] pods_lifecycle [OF assms])+
  show "stable (pods_are V) (pod_Start w i)" "stable (pods_are V) (pod_Stop w i)" "stable (pods_are V) (drop_containers w i)"
    unfolding pod_Start_def pod_Stop_def drop_containers_def by (intro pods_intros ops pods_resolve pods_lifecycle [OF assms])+
qed

lemma RemovePod_unique: "stable unique_pods (psm_do (upd (RemovePod i)))"
proof -
  have "unique_pods d'" if d: "unique_pods d" and run: "psm_do (upd (RemovePod i)) d = (r, d')" for d r and d' :: "'a daemon"
  proof -
    have "distinct (map (full_name \<circ> snd) (mdel i (Pods (d_psm d))))"
      using d distinct_map_filter [of "full_name \<circ> snd" "Pods (d_psm d)"] by (simp add: unique_pods_def AList.delete_eq)
    then show ?thesis using run d psm_apply_inv [of "d_psm d" "Op_RemovePod i"]
      by (auto simp: unique_pods_def access_def store_access_simps io_ok_def upd_def RemovePod_def split: if_splits)
  qed
  then show ?thesis unfolding stable_def by (metis prod.collapse)
qed

lemma controller_unique:
  assumes w: "keeps_pods w"
  shows "stable unique_pods (CreateFromTemplate w t n)" "stable unique_pods (RecreateFromTemplate w t)" "stable unique_pods (recreatePod w p)"
    "stable unique_pods (deletePod w p)"
proof -
  note start = unique_keeps [OF pods_Start(1) [OF w]] unique_keeps [OF pods_Start(3) [OF w]]
  show c: "stable unique_pods (CreateFromTemplate w t n)" for t n
    unfolding CreateFromTemplate_def Let_def by (intro unique_intros createWithTemplate_unique [OF w])
  then show r: "stable unique_pods (RecreateFromTemplate w t)" for t unfolding RecreateFromTemplate_def .
  show "stable unique_pods (recreatePod w p)" "stable unique_pods (deletePod w p)"
    unfolding recreatePod_def deletePod_def by (intro unique_intros start r RemovePod_unique)+
qed

lemma scan_unique: "keeps_pods w \<Longrightarrow> stable unique_pods (scan_pods w ps a b)"
proof (induction ps arbitrary: a b)
  case (Cons p ps)
  have down: "stable unique_pods (isPodInfraDown i)" for i :: string
    unfolding isPodInfraDown_def getPodInfraState_def by (intro unique_intros) (auto split: option.split intro: unique_intros)
  show ?case
    unfolding scan_pods.simps Let_def
    by (intro stable_bnd stable_if stable_ret stable_attempt down)
      (auto split: sum.split bool.split intro!: unique_intros controller_unique [OF Cons.prems] Cons.IH [OF Cons.prems])
qed (simp add: stable_def)

lemma reconcile_unique:
  assumes w: "keeps_pods w"
  shows "stable unique_pods (reconcileOnce w)"
proof -
  note start = unique_keeps [OF pods_Start(1) [OF w]]
  note ops = start controller_unique [OF w] scan_unique [OF w]
  have infra: "stable unique_pods (getPodInfraState i)" for i :: string
    unfolding getPodInfraState_def by (intro unique_intros) (auto split: option.split intro: unique_intros)
  have up: "stable unique_pods (scale_up w s n)" for s n
    by (induction n) (simp_all only: scale_up.simps, (intro unique_intros ops; assumption?)+)
  have revive: "stable unique_pods (revive_pod w p)" for p unfolding revive_pod_def by (intro unique_intros ops infra)
  have rs: "stable unique_pods (reconcile_rs w pods rs)" for pods rs
    unfolding reconcile_rs_def scale_down_def Let_def by (intro unique_intros ops up revive)
  have tpl: "stable unique_pods (reconcile_template w pods t)" for pods t
    unfolding reconcile_template_def Let_def
    by (intro unique_intros) (auto split: bool.split intro!: unique_intros ops)
  show ?thesis unfolding reconcileOnce_def by (intro unique_intros rs tpl)
qed

subsection \<open>A runtime that reaches the daemon through its hooks\<close>

lemma pods_commit: "stable (pods_are V) (CommitPolicy run)"
proof -
  have "pods_are V (snd (CommitPolicy run d))" if "pods_are V d" for d :: "'a daemon"
  proof -
    have "unchanged d (snd (CommitPolicy run d))"
      using commit_unchanged [of d run] that by (simp add: stable_def unchanged_def pods_are_def)
    then show ?thesis using that by (simp add: pods_are_def unchanged_def)
  qed
  then show ?thesis by (simp add: stable_def)
qed

lemma pods_hook: "stable (pods_are V) (HookAction w st ev)" "stable (pods_are V) (SignCSRHandler pk body)"
proof -
  show "stable (pods_are V) (HookAction w st ev)"
    unfolding HookAction_def hook_update_def updatePodNamespacesIfOwner_def ChangeCgroupMode_def by (intro pods_intros pods_commit)
  have "stable (pods_are V) (issue_and_record pk req u c k)" for req u c k
    unfolding issue_and_record_def IssueClientCertFromCSR_def Let_def
    by (intro pods_intros pods_resolve; simp add: pods_are_def io_ok_def)
  then show "stable (pods_are V) (SignCSRHandler pk body)"
    by (auto simp: stable_def SignCSRHandler_def split: sum.splits)
qed

lemma hook_run_pods: "hook_run w pk cid d d' \<Longrightarrow> pods_are V d \<Longrightarrow> pods_are V d'"
proof (induction rule: hook_run.induct)
  case (run_host d d1 h)
  then show ?case by (simp add: pods_are_def io_ok_def)
next
  case (run_hook d d1 st ev r d2)
  then show ?case using stableD [OF pods_hook(1)] by blast
next
  case (run_sign d d1 body r' d2)
  then show ?case using stableD [OF pods_hook(2)] by blast
qed

lemma hooks_keep_pods:
  assumes "\<And>cmd d out d'. w_droplet w cmd d = (out, d') \<Longrightarrow> \<exists>cid. hook_run w pk cid d d'" "\<And>d. \<exists>cid. hook_run w pk cid d (w_sleep w d)"
  shows "keeps_pods w"
  unfolding keeps_pods_def using assms hook_run_pods by blast

subsection \<open>Histories of calls\<close>

datatype pod_call =
    Call_Create pod_CreateModel
  | Call_Start string
  | Call_Stop string
  | Call_Remove string
  | Call_Reconcile

fun pod_step :: "'h world \<Rightarrow> pod_call \<Rightarrow> (unit, 'h daemon) act" where
  "pod_step w (Call_Create p) = ignore (pod_Create w p)"
| "pod_step w (Call_Start i) = ignore (pod_Start w i)"
| "pod_step w (Call_Stop i) = ignore (pod_Stop w i)"
| "pod_step w (Call_Remove i) = ignore (pod_Remove w i)"
| "pod_step w Call_Reconcile = ignore (reconcileOnce w)"

definition pod_history :: "'h world \<Rightarrow> pod_call list \<Rightarrow> 'h daemon \<Rightarrow> 'h daemon" where
  "pod_history w cs d = fold (\<lambda>c d. snd (pod_step w c d)) cs d"

lemma pod_step_unique:
  assumes w: "keeps_pods w"
  shows "stable unique_pods (pod_step w c)"
proof (cases c)
  case (Call_Create p)
  then show ?thesis by (simp add: pod_Create_def) (intro unique_intros createWithTemplate_unique [OF w])
next
  case (Call_Remove i)
  have "stable unique_pods (pod_Remove w i)" unfolding stable_def using pod_Remove_unique(1) [OF w] by (metis prod.collapse)
  then show ?thesis using Call_Remove by (simp add: stable_ignore)
qed (simp_all add: stable_ignore unique_keeps pods_Start [OF w] reconcile_unique [OF w])

text \<open>No two pods of a namespace share a name: the pods of the store have different full names
  after any sequence of creations, starts, stops, removals and passes of the controller, whatever the
  calls answer and whichever commands and file operations on the host fail, when they had before.\<close>

theorem pod_names_unique:
  assumes "keeps_pods w" "unique_pods d"
  shows "unique_pods (pod_history w cs d)"
  using assms(2) unfolding pod_history_def
proof (induction cs arbitrary: d)
  case (Cons c cs)
  then show ?case using pod_step_unique [OF assms(1), of c] by (simp add: stable_def)
qed simp

lemma posting_keeps_pods: "keeps_pods posting_world"
proof -
  have "pods_are V d'" if "w_droplet posting_world cmd d = (out, d')" "pods_are V d" for V cmd d out d'
    using that pods_hook(1) [of V demo_world]
    by (auto simp: posting_world_def posting_droplet_def Let_def stable_def split: if_splits)
  then show ?thesis by (auto simp: keeps_pods_def) (simp add: posting_world_def demo_world_def)
qed

theorem pod_names_unique_witness:
  "unique_pods (pod_history posting_world [Call_Reconcile, Call_Start ''p1'', Call_Remove ''p1''] (demo_machine\<lparr>d_psm := psm_demo\<rparr>))"
proof -
  have "unique_pods (demo_machine\<lparr>d_psm := psm_demo\<rparr>)"
    using psm_demo_inv by (simp add: unique_pods_def io_ok_def demo_machine_def demo_daemon_def) (simp add: psm_demo_def full_name_def demo_pod_def)
  then show ?thesis by (rule pod_names_unique [OF posting_keeps_pods])
qed

subsection \<open>Calls that do not panic\<close>

definition calm :: "('s \<Rightarrow> bool) \<Rightarrow> ('a, 's) act \<Rightarrow> bool" where
  "calm P m \<longleftrightarrow> stable P m \<and> (\<forall>s x. P s \<longrightarrow> fst (m s) \<noteq> Inl (Panic x))"

named_theorems calm_intros \<open>actions that keep a condition and do not panic\<close>

lemma calm_basic [calm_intros]: "calm P (ret x)" "calm P (fail (Err e))"
  by (simp_all add: calm_def stable_def)

lemma calm_bnd [calm_intros]: "calm P m \<Longrightarrow> (\<And>x. calm P (k x)) \<Longrightarrow> calm P (bnd m k)"
proof -
  assume m: "calm P m" and k: "\<And>x. calm P (k x)"
  have "fst (bnd m k s) \<noteq> Inl (Panic x)" if s: "P s" for s x
  proof (cases "m s")
    case (Pair r t)
    then have "P t" "\<forall>x. r \<noteq> Inl (Panic x)" using m s unfolding calm_def stable_def by (metis snd_conv, metis fst_conv)
    then show ?thesis using Pair k by (cases r) (auto simp: calm_def)
  qed
  then show ?thesis using m k by (auto simp: calm_def intro: stable_bnd)
qed

lemma calm_seq [calm_intros]: "calm P m \<Longrightarrow> calm P k \<Longrightarrow> calm P (seq m k)"
  unfolding seq_def by (rule calm_bnd)

lemma calm_attempt [calm_intros]: "calm P m \<Longrightarrow> calm P (attempt m)"
proof -
  assume m: "calm P m"
  have "fst (attempt m s) \<noteq> Inl (Panic x)" if "P s" for s x
    using m that by (cases "m s"; cases "fst (m s)"; cases "projl (fst (m s))") (auto simp: calm_def attempt_def)
  then show ?thesis using m by (auto simp: calm_def intro: stable_attempt)
qed

lemma calm_ignore [calm_intros]: "calm P m \<Longrightarrow> calm P (ignore m)"
  unfolding ignore_def by (intro calm_intros)

lemma calm_or_zero [calm_intros]: "calm P m \<Longrightarrow> calm P (or_zero z m)"
  unfolding or_zero_def by (intro calm_intros) (auto split: sum.split intro: calm_intros)

lemma calm_wrap [calm_intros]: "calm P m \<Longrightarrow> calm P (wrap_err t m)"
proof -
  assume m: "calm P m"
  have "fst (wrap_err t m s) \<noteq> Inl (Panic x)" if "P s" for s x
    using m that by (cases "m s"; cases "fst (m s)"; cases "projl (fst (m s))") (auto simp: calm_def wrap_err_def)
  then show ?thesis using m by (auto simp: calm_def intro: stable_wrap)
qed

lemma calm_if [calm_intros]: "(b \<Longrightarrow> calm P m) \<Longrightarrow> (\<not> b \<Longrightarrow> calm P m') \<Longrightarrow> calm P (if b then m else m')"
  by simp

lemma calm_for_each [calm_intros]: "(\<And>x. calm P (f x)) \<Longrightarrow> calm P (for_each f xs)"
proof (induction xs)
  case (Cons x xs)
  have "for_each f (x # xs) = seq (f x) (for_each f xs)"
    by (auto simp: fun_eq_iff seq_def bnd_def split: prod.splits sum.splits)
  with Cons show ?case by (simp add: calm_seq)
qed (simp add: calm_def stable_def)

lemma calm_access:
  assumes "stable (pods_are V) (access get put fn)" "\<And>st x. fn st \<noteq> Inl (Panic x)"
  shows "calm (pods_are V) (access get put fn)"
proof -
  have "fst (access get put fn d) \<noteq> Inl (Panic x)" if "pods_are V d" for d x
    using that assms(2) by (auto simp: pods_are_def io_ok_def access_def store_access_simps split: prod.splits sum.splits)
  then show ?thesis using assms(1) by (simp add: calm_def)
qed

lemma calm_host: "(\<And>h x. fst (m h) \<noteq> Inl (Panic x)) \<Longrightarrow> calm (pods_are V) (on_host m)"
  unfolding calm_def using pods_host(1) [of V m] by (auto simp: on_host_def split: prod.split) (metis fst_conv)

text \<open>What is relied on of the file system: a removal that fails returns an error.\<close>

definition os_errors :: "'h world \<Rightarrow> bool" where
  "os_errors w \<longleftrightarrow> (\<forall>p h x. fst (os_do (w_os w) (Os_RemoveAll p) h) \<noteq> Inl (Panic x) \<and> fst (os_do (w_os w) (Os_Remove p) h) \<noteq> Inl (Panic x))"

lemma commands_no_panic: "fst (for_each (cmd_Run run) cs h) \<noteq> Inl (Panic x)"
proof (induction cs arbitrary: h)
  case (Cons c cs)
  then show ?case by (cases "run c h"; cases "fst (run c h)") (auto simp: cmd_Run_def command_failed_def)
qed simp

lemma calm_lifecycle:
  assumes w: "keeps_pods w" and os: "os_errors w"
  shows "calm (pods_are V) (Stop w t ob)" "calm (pods_are V) (Delete w t ob)"
proof -
  have drop: "calm (pods_are V) (droplet_run w what cmd)" for what cmd
    using pods_droplet [OF w] by (auto simp: calm_def droplet_run_def split: prod.splits option.splits)
  have query: "calm (pods_are V) (csm_do (query (GetContainerIdByName n)))" "calm (pods_are V) (csm_do (query (GetContainerById i)))"
    "calm (pods_are V) (ipam_do (query (GetForwardInfo i)))" "calm (pods_are V) (ipam_do (query (GetContainerAddress i)))"
    "calm (pods_are V) (ipam_do (upd (Release i)))" "calm (pods_are V) (psm_do (upd (UpdatePod now i s)))" for n i now s
    by (intro calm_access pods_intros,
        auto simp: query_def GetContainerIdByName_def GetContainerById_def GetForwardInfo_def GetContainerAddress_def upd_def Release_def
          UpdatePod_def pod_not_found_def Let_def split: option.splits sum.splits)+
  have now: "calm (pods_are V) (w_now w)" unfolding Now_def by (rule calm_host) (simp split: prod.splits)
  have fs: "calm (pods_are V) (fs_do w (Os_RemoveAll p))" "calm (pods_are V) (fs_do w (Os_Remove p))" for p
    using os by (intro calm_host; simp add: os_errors_def)+
  have rule: "calm (pods_are V) (RemoveForwardingRule run i p)" for run i p
    unfolding RemoveForwardingRule_def deleteForwardRules_def
    by (intro calm_intros query) (auto split: prod.split intro!: calm_host simp: commands_no_panic simp del: for_each.simps)
  have res: "calm (pods_are V) (resolve_container t)" "calm (pods_are V) (container_info i)" for i
    unfolding resolve_container_def csm_ResolveContainerId_def container_info_def
    by (intro calm_intros query; auto split: sum.split intro!: calm_intros query)+
  note ops = calm_intros query now fs rule drop res
  show "calm (pods_are V) (Stop w t ob)"
    unfolding Stop_def stopContainer_def droplet_Stop_def bottle_error_def by (intro ops)
  show "calm (pods_are V) (Delete w t ob)"
    unfolding Delete_def deleteContainer_def droplet_Delete_def cleanupForwardRules_def releaseAddress_def deleteContainerDirectory_def
      deleteCgroupSubtree_def bottle_error_def by (intro ops)
qed

subsection \<open>Scaling down\<close>

lemma calm_run: "calm P m \<Longrightarrow> P s \<Longrightarrow> \<exists>s'. ignore m s = (Inr (), s') \<and> P s'"
  by (cases "m s"; cases "fst (m s)"; cases "projl (fst (m s))") (force simp: calm_def stable_def ignore_def attempt_def bnd_def)+

lemma each_run:
  assumes "\<And>x s. P s \<Longrightarrow> \<exists>s'. f x s = (Inr (), s') \<and> P s'" "P s"
  shows "\<exists>s'. for_each f xs s = (Inr (), s') \<and> P s'"
  using assms(2)
proof (induction xs arbitrary: s)
  case (Cons x xs)
  then show ?case using assms(1) [of s x] by fastforce
qed simp

lemma drop_containers_run:
  assumes w: "keeps_pods w" "os_errors w" and d: "pods_are V d"
  shows "\<exists>d'. drop_containers w i d = (Inr (), d') \<and> pods_are V d'"
proof -
  let ?f = "\<lambda>c. seq (if st_State c = ''running'' then ignore (Stop w (st_ContainerId c) False) else ret ()) (ignore (Delete w (st_ContainerId c) False))"
  have io: "io_ok d" using d by (simp add: pods_are_def)
  obtain cs where cs: "svc_GetContainersByPodId i d = (Inr cs, d)"
    using io by (simp add: svc_GetContainersByPodId_def buildContainerStateList_def access_ok GetContainersByPodId_def GetPoolList_def)
  have "\<exists>s'. ?f c s = (Inr (), s') \<and> pods_are V s'" if s: "pods_are V s" for c s
  proof -
    obtain s1 where s1: "(if st_State c = ''running'' then ignore (Stop w (st_ContainerId c) False) else ret ()) s = (Inr (), s1)" "pods_are V s1"
      using calm_run [OF calm_lifecycle(1) [OF w] s] s by (cases "st_State c = ''running''") auto
    show ?thesis using calm_run [OF calm_lifecycle(2) [OF w] s1(2)] s1(1) by simp
  qed
  from each_run [of "pods_are V" ?f, OF this d] show ?thesis using cs by (simp add: drop_containers_def)
qed

lemma deletePods_run:
  assumes w: "keeps_pods w" "os_errors w"
  shows "pods_are V d \<Longrightarrow> \<exists>d'. for_each (\<lambda>p. ignore (deletePod w p)) ps d = (Inr (), d') \<and>
    pods_are (filter (\<lambda>e. fst e \<notin> set (map p_PodId ps)) V) d'"
proof (induction ps arbitrary: V d)
  case (Cons p ps)
  let ?V = "filter (\<lambda>e. fst e \<noteq> p_PodId p) V"
  obtain d1 where d1: "drop_containers w (p_PodId p) d = (Inr (), d1)" "pods_are V d1"
    using drop_containers_run [OF w Cons.prems] by blast
  obtain d2 where d2: "ignore (deletePod w p) d = (Inr (), d2)" "pods_are ?V d2"
  proof (cases "map_of (Pods (d_psm d1)) (p_PodId p)")
    case None
    then have r: "psm_do (upd (RemovePod (p_PodId p))) d1 = (Inl (pod_not_found (p_PodId p)), d1)"
      using d1(2) access_error [of d1 "upd (RemovePod (p_PodId p))" d_psm "pod_not_found (p_PodId p)" d_psm_update]
      by (simp add: pods_are_def upd_def RemovePod_def)
    have "?V = V" using None d1(2) by (force simp: filter_id_conv pods_are_def pod_names_def map_of_eq_None_iff)
    then show ?thesis using that [of d1] d1 r by (simp add: ignore_def deletePod_def pod_not_found_def)
  next
    case (Some q)
    let ?st = "(d_psm d1)\<lparr>Pods := mdel (p_PodId p) (Pods (d_psm d1))\<rparr>"
    have r: "psm_do (upd (RemovePod (p_PodId p))) d1 = (Inr (), d1\<lparr>d_psm := ?st\<rparr>)"
      using Some d1(2) access_ok [of d1 "upd (RemovePod (p_PodId p))" d_psm "()" ?st d_psm_update]
      by (simp add: pods_are_def upd_def RemovePod_def)
    have "pods_are ?V (d1\<lparr>d_psm := ?st\<rparr>)"
      using d1(2) psm_del_inv(1) by (auto simp: pods_are_def pod_names_def view_mdel io_ok_def)
    then show ?thesis using that d1(1) r by (simp add: ignore_def deletePod_def)
  qed
  obtain d3 where d3: "for_each (\<lambda>p. ignore (deletePod w p)) ps d2 = (Inr (), d3)"
    "pods_are (filter (\<lambda>e. fst e \<notin> set (map p_PodId ps)) ?V) d3" using Cons.IH [OF d2(2)] by blast
  have "(\<lambda>e :: string \<times> string \<times> string \<times> string. fst e \<noteq> p_PodId p \<and> fst e \<notin> p_PodId ` set ps) = (\<lambda>e. fst e \<notin> set (map p_PodId (p # ps)))" by auto
  then show ?case using d2(1) d3 by simp
qed simp

text \<open>The pods of a template, by their entries.\<close>

definition of_template :: "string \<Rightarrow> string \<times> string \<times> string \<times> string \<Rightarrow> bool" where
  "of_template t e \<longleftrightarrow> (case e of (i, n, ns, t') \<Rightarrow> t' \<noteq> [] \<and> t' = t)"

lemma pods_of_names:
  assumes "psm_inv st"
  shows "map p_PodId (pods_of t (map snd (Pods st))) = map fst (filter (of_template t) (pod_names st))"
proof -
  have "map p_PodId (pods_of t (map snd m)) = map fst (filter (of_template t) (map (map_prod id pod_key) m))"
    if "\<forall>(k, p) \<in> set m. p_PodId p = k" for m
    using that by (induction m) (auto simp: pods_of_def of_template_def pod_key_def)
  then show ?thesis using assms by (simp add: psm_inv_def keyed_def pod_names_def)
qed

lemma filter_not_taken:
  assumes "distinct (map f xs)"
  shows "filter (\<lambda>e. f e \<notin> set (map f (take n xs))) xs = drop n xs"
proof -
  define ys zs where "ys = take n xs" and "zs = drop n xs"
  have "f ` set ys \<inter> f ` set zs = {}"
    using assms unfolding ys_def zs_def by (metis append_take_drop_id distinct_append list.set_map map_append)
  then have "\<forall>e \<in> set zs. f e \<notin> f ` set ys" by blast
  then have "filter (\<lambda>e. f e \<notin> set (map f ys)) (ys @ zs) = zs" by (simp add: filter_id_conv)
  then show ?thesis by (simp only: ys_def zs_def append_take_drop_id)
qed

text \<open>A pod that the controller leaves alone.\<close>

definition at_rest :: "PodInfo \<Rightarrow> bool" where
  "at_rest p \<longleftrightarrow> p_StoppedByUser p \<or> p_State p \<notin> {''degraded'', ''stopped''}"

lemma revive_at_rest: "list_all at_rest ps \<Longrightarrow> for_each (revive_pod w) ps d = (Inr (), d)"
  by (induction ps) (auto simp: at_rest_def revive_pod_def)

text \<open>C11: scaling down is exact: when a replica set has more pods than replicas and none of its pods
  needs to be revived, a pass of the controller over the replica set ends without error and removes
  the excess pods, the first ones of the list, and no others: as many pods of the template as there
  are replicas remain, and every other pod keeps its name and template.  Containers that cannot be
  stopped or deleted do not hold it up.  The files of the stores can be read and written, nothing else
  creates or removes pods while the pass waits for a command, and failing calls return an error.\<close>

theorem scale_down_exact:
  assumes w: "keeps_pods w" "os_errors w" and d: "io_ok d" "psm_inv (d_psm d)"
    and "pods = map snd (Pods (d_psm d))" "podList = pods_of (rs_TemplateId (r_Spec rs)) pods"
    and "0 \<le> rs_Replicas (r_Spec rs)" "rs_Replicas (r_Spec rs) < int (length podList)" "list_all at_rest podList"
  shows "\<exists>d'. reconcile_rs w pods rs d = (Inr (), d') \<and> io_ok d' \<and> psm_inv (d_psm d') \<and>
    pod_names (d_psm d') =
      filter (\<lambda>e. fst e \<notin> set (map p_PodId (take (length podList - nat (rs_Replicas (r_Spec rs))) podList))) (pod_names (d_psm d)) \<and>
    int (length (pods_of (rs_TemplateId (r_Spec rs)) (map snd (Pods (d_psm d'))))) = rs_Replicas (r_Spec rs)"
proof -
  define t n where "t = rs_TemplateId (r_Spec rs)" and "n = rs_Replicas (r_Spec rs)"
  define k where "k = length podList - nat n"
  define V where "V = pod_names (d_psm d)"
  have V: "pods_are V d" using d by (simp add: pods_are_def V_def)
  define out where "out = set (map p_PodId (take k podList))"
  obtain d' where d': "for_each (\<lambda>p. ignore (deletePod w p)) (take k podList) d = (Inr (), d')" "pods_are (filter (\<lambda>e. fst e \<notin> out) V) d'"
    unfolding out_def using deletePods_run [OF w V] by blast
  have "reconcile_rs w pods rs d = seq (scale_down w podList k) (for_each (revive_pod w) podList) d"
    using assms(6-8) by (simp add: reconcile_rs_def Let_def k_def n_def nat_diff_distrib)
  also have "scale_down w podList k d = (Inr (), d')" using d'(1) by (simp add: scale_down_def k_def)
  then have "seq (scale_down w podList k) (for_each (revive_pod w) podList) d = (Inr (), d')" by (simp add: revive_at_rest [OF assms(9)])
  finally have run: "reconcile_rs w pods rs d = (Inr (), d')" .
  have ids: "map p_PodId podList = map fst (filter (of_template t) V)"
    using pods_of_names [OF d(2)] assms(5,6) by (simp add: V_def t_def)
  have "distinct (map fst V)" using d(2) by (simp add: V_def pod_names_def psm_inv_def keyed_def mwf_def comp_def)
  then have dist: "distinct (map fst (filter (of_template t) V))" by (rule distinct_map_filter)
  have "out = set (map fst (take k (filter (of_template t) V)))" unfolding out_def by (metis ids take_map)
  then have "filter (of_template t) (filter (\<lambda>e. fst e \<notin> out) V) = drop k (filter (of_template t) V)"
    using filter_not_taken [OF dist, of k] by (simp add: filter_filter conj_commute)
  then have "length (pods_of t (map snd (Pods (d_psm d')))) = length podList - k"
    using d'(2) pods_of_names [of "d_psm d'" t] ids unfolding pods_are_def by (metis length_drop length_map)
  then have "int (length (pods_of t (map snd (Pods (d_psm d'))))) = n" using assms(7,8) by (simp add: k_def n_def)
  with run d'(2) show ?thesis by (simp add: pods_are_def V_def t_def n_def k_def out_def)
qed

definition demo_set :: ReplicaSetInfo where
  "demo_set = \<lparr>r_ReplicaSetId = ''r1'', r_Spec = \<lparr>rs_Name = ''web'', rs_Namespace = ''default'', rs_Replicas = 1, rs_TemplateId = ''t1'', rs_Selector = []\<rparr>, r_CreatedAt = 1\<rparr>"

theorem scale_down_exact_witness:
  "\<exists>d'. reconcile_rs posting_world [demo_pod ''p1'' ''t1'' ''web'', demo_pod ''p2'' ''t1'' ''db''] demo_set (demo_machine\<lparr>d_psm := psm_demo\<rparr>) = (Inr (), d') \<and>
     pod_names (d_psm d') = [(''p2'', ''db'', ''default'', ''t1'')]"
proof -
  let ?d = "demo_machine\<lparr>d_psm := psm_demo\<rparr>" and ?l = "[demo_pod ''p1'' ''t1'' ''web'', demo_pod ''p2'' ''t1'' ''db'']"
  have os: "os_errors posting_world" by (simp add: os_errors_def posting_world_def demo_world_def demo_image_env_def demo_hub_def file_os_def)
  have l: "?l = map snd (Pods (d_psm ?d))" "?l = pods_of (rs_TemplateId (r_Spec demo_set)) ?l"
    by (simp_all add: psm_demo_def pods_of_def demo_pod_def demo_set_def)
  obtain d' where "reconcile_rs posting_world ?l demo_set ?d = (Inr (), d')"
    "pod_names (d_psm d') = filter (\<lambda>e. fst e \<notin> set (map p_PodId (take (length ?l - nat (rs_Replicas (r_Spec demo_set))) ?l))) (pod_names psm_demo)"
    using scale_down_exact [OF posting_keeps_pods os _ _ l] psm_demo_inv
    by (auto simp: io_ok_def demo_machine_def demo_daemon_def demo_set_def at_rest_def demo_pod_def)
  then show ?thesis by (simp add: demo_set_def psm_demo_def pod_names_def pod_key_def demo_pod_def)
qed

end
