(* ===== verification/Service_Controller.thy ===== *)
theory Service_Controller
  imports Pod_Facts "HOL-Library.List_Lexorder"
begin

text \<open>
  Services in front of pods: the manifest (\<open>src/internal/core/service/manifest.go\<close>), the endpoint that
  stores it (\<open>src/internal/api/http/service/handler.go\<close>) and the controller that keeps the rules of the
  packet filter in step with the pods behind a service (\<open>src/internal/core/service/controller.go\<close>).
\<close>

subsection \<open>The manifest (manifest.go)\<close>

record ServiceManifest =
  sm_Name :: string
  sm_Namespace :: string
  sm_Selector :: "(string, string) gomap"
  sm_Ports :: "ServicePort list"

record serviceMeta =
  me_Name :: string
  me_Namespace :: string
  me_Labels :: "(string, string) gomap"

record servicePortManifest =
  pm_Port :: int
  pm_TargetPort :: int
  pm_Protocol :: string

record serviceSpec =
  ss_Selector :: "(string, string) gomap"
  ss_Ports :: "servicePortManifest list"

record serviceManifest =
  sf_APIVersion :: string
  sf_Kind :: string
  sf_Metadata :: serviceMeta
  sf_Spec :: serviceSpec

definition service_port :: "servicePortManifest \<Rightarrow> ServicePort" where
  "service_port p =
     \<lparr>sp_Port = pm_Port p, sp_TargetPort = (if pm_TargetPort p = 0 then pm_Port p else pm_TargetPort p),
      sp_Protocol = (if pm_Protocol p = [] then ''tcp'' else pm_Protocol p)\<rparr>"

definition buildServiceManifest :: "serviceManifest \<Rightarrow> ServiceManifest" where
  "buildServiceManifest m =
     \<lparr>sm_Name = me_Name (sf_Metadata m),
      sm_Namespace = (if me_Namespace (sf_Metadata m) = [] then ''default'' else me_Namespace (sf_Metadata m)),
      sm_Selector = ss_Selector (sf_Spec m), sm_Ports = map service_port (filter (\<lambda>p. pm_Port p \<noteq> 0) (ss_Ports (sf_Spec m)))\<rparr>"

text \<open>
  What is used of the YAML library: the documents of a body, each a map or an error, with the number
  of keys of a map and its \<open>kind\<close> (empty when it is missing or not a string), and the conversion of a
  map to the bytes that are decoded again as a manifest.
\<close>

record 'y yaml =
  y_docs :: "string \<Rightarrow> 'y result list"
  y_len :: "'y \<Rightarrow> nat"
  y_kind :: "'y \<Rightarrow> string"
  y_Marshal :: "'y \<Rightarrow> string result"

fun service_docs :: "'y yaml \<Rightarrow> (string \<Rightarrow> serviceManifest result) \<Rightarrow> 'y result list \<Rightarrow> ServiceManifest result" where
  "service_docs y un [] = Inl (Err ''service manifest not found'')"
| "service_docs y un (Inl e # ds) = Inl e"
| "service_docs y un (Inr raw # ds) =
     (if y_len y raw = 0 then service_docs y un ds
      else if y_kind y raw = [] then Inl (Err ''kind is required'')
      else if y_kind y raw \<noteq> ''Service'' then Inl (Err (''unsupported kind: '' @ y_kind y raw))
      else bind_res (y_Marshal y raw) (\<lambda>b. bind_res (un b) (\<lambda>svc. Inr (buildServiceManifest svc))))"

definition DecodeK8sServiceManifest :: "'y yaml \<Rightarrow> (string \<Rightarrow> serviceManifest result) \<Rightarrow> string \<Rightarrow> ServiceManifest result" where
  "DecodeK8sServiceManifest y un body = service_docs y un (y_docs y body)"

subsection \<open>The endpoint (api/http/service/handler.go)\<close>

text \<open>The answer is a status with a message, and the identifier of the new service on success.\<close>

definition CreateService ::
  "'h world \<Rightarrow> 'y yaml \<Rightarrow> (string \<Rightarrow> serviceManifest result) \<Rightarrow> string result \<Rightarrow> (response \<times> string, 'h daemon) act" where
  "CreateService w y un body =
     (case body of
        Inl e \<Rightarrow> ret ((400, ''read body failed: '' @ err_text e), '''')
      | Inr b \<Rightarrow> (case DecodeK8sServiceManifest y un b of
          Inl e \<Rightarrow> ret ((400, ''invalid yaml: '' @ err_text e), '''')
        | Inr m \<Rightarrow>
            if sm_Name m = [] \<or> sm_Namespace m = [] then ret ((400, ''name and namespace are required''), '''')
            else bnd (or_zero False (ssm_do (query (\<lambda>st. Inr (ssm_IsNameAlreadyUsed (sm_Name m) (sm_Namespace m) st))))) (\<lambda>used.
              if used then ret ((400, ''name already used by other service''), '''')
              else bnd (NewUlid w) (\<lambda>serviceId.
                   bnd (w_now w) (\<lambda>now.
                   bnd (attempt (ssm_do (upd (StoreService now serviceId
                     \<lparr>sv_ServiceId = '''', sv_Name = sm_Name m, sv_Namespace = sm_Namespace m, sv_Selector = sm_Selector m,
                      sv_Ports = sm_Ports m, sv_CreatedAt = 0\<rparr>)))) (\<lambda>r.
                     case r of
                       Inl e \<Rightarrow> ret ((500, ''store failed: '' @ err_text e), '''')
                     | Inr _ \<Rightarrow> ret ((201, ''service created''), serviceId)))))))"

definition http_RemoveService :: "string \<Rightarrow> (response, 'h daemon) act" where
  "http_RemoveService serviceId =
     (if serviceId = [] then ret (400, ''missing serviceId'')
      else bnd (attempt (ssm_do (upd (RemoveService serviceId)))) (\<lambda>r.
        case r of Inl e \<Rightarrow> ret (500, ''remove failed: '' @ err_text e) | Inr _ \<Rightarrow> ret (200, ''service removed'')))"

subsection \<open>Endpoints (controller.go)\<close>

record svcEndpoint =
  ep_Addr :: string
  ep_HostInterface :: string
  ep_Bridge :: string

definition labelsMatch :: "(string, string) gomap \<Rightarrow> (string, string) gomap \<Rightarrow> bool" where
  "labelsMatch selector labels = (selector \<noteq> [] \<and> list_all (\<lambda>(k, v). label_at labels k = v) selector)"

definition getInfraContainerId :: "string \<Rightarrow> (string, 'h daemon) act" where
  "getInfraContainerId podId =
     bnd (svc_GetContainersByPodId podId) (\<lambda>containers.
       case List.find (\<lambda>c. has_prefix (st_Name c) PodInfraContainerNamePrefix) containers of
         Some c \<Rightarrow> ret (st_ContainerId c)
       | None \<Rightarrow> fail (Err (''infra container not found for pod: '' @ podId)))"

fun collect_endpoints :: "ServiceInfo \<Rightarrow> PodInfo list \<Rightarrow> (svcEndpoint list, 'h daemon) act" where
  "collect_endpoints svc [] = ret []"
| "collect_endpoints svc (p # ps) =
     (if p_Namespace p \<noteq> sv_Namespace svc \<or> \<not> labelsMatch (sv_Selector svc) (p_Labels p) then collect_endpoints svc ps
      else bnd (attempt (bnd (getInfraContainerId (p_PodId p)) (\<lambda>infraId. ipam_do (query (GetContainerAddress infraId))))) (\<lambda>r.
        case r of
          Inl _ \<Rightarrow> collect_endpoints svc ps
        | Inr (host, bridge, addr) \<Rightarrow>
            bnd (collect_endpoints svc ps) (\<lambda>es. ret (\<lparr>ep_Addr = addr, ep_HostInterface = host, ep_Bridge = bridge\<rparr> # es))))"

text \<open>The addresses of the infrastructure containers differ, so the order is determined by them.\<close>

definition buildEndpoints :: "ServiceInfo \<Rightarrow> PodInfo list \<Rightarrow> (svcEndpoint list, 'h daemon) act" where
  "buildEndpoints svc pods = bnd (collect_endpoints svc pods) (\<lambda>es. ret (sort_key ep_Addr es))"

definition buildStateKey :: "ServiceInfo \<Rightarrow> svcEndpoint list \<Rightarrow> string" where
  "buildStateKey svc endpoints =
     str_join '','' (sort (map (\<lambda>p. itoa (sp_Port p) @ '':'' @ itoa (sp_TargetPort p) @ ''/'' @ to_lower (sp_Protocol p)) (sv_Ports svc) @
       map ep_Addr endpoints))"

subsection \<open>Rules (controller.go)\<close>

definition serviceChainName :: "string \<Rightarrow> int \<Rightarrow> string" where
  "serviceChainName serviceId port = ''RAIND-SVC-'' @ (if length serviceId > 8 then take 8 serviceId else serviceId) @ ''-'' @ itoa port"

definition deleteChain :: "'h runner \<Rightarrow> string \<Rightarrow> (unit, 'h) act" where
  "deleteChain run chain = cmd_Run run [''iptables'', ''-t'', ''nat'', ''-X'', chain]"

definition ensureChain :: "'h runner \<Rightarrow> string \<Rightarrow> (unit, 'h) act" where
  "ensureChain run chain = ignore (cmd_Run run [''iptables'', ''-t'', ''nat'', ''-N'', chain])"

definition flushChain :: "'h runner \<Rightarrow> string \<Rightarrow> (unit, 'h) act" where
  "flushChain run chain = cmd_Run run [''iptables'', ''-t'', ''nat'', ''-F'', chain]"

definition jump_spec :: "string \<Rightarrow> string \<Rightarrow> int \<Rightarrow> string list" where
  "jump_spec chain proto port = [''-p'', proto, ''--dport'', itoa port, ''-j'', chain]"

definition local_spec :: "string \<Rightarrow> string \<Rightarrow> int \<Rightarrow> string list" where
  "local_spec chain proto port = [''-m'', ''addrtype'', ''--dst-type'', ''LOCAL''] @ jump_spec chain proto port"

definition deleteJumpRule :: "'h runner \<Rightarrow> string \<Rightarrow> string \<Rightarrow> int \<Rightarrow> (unit, 'h) act" where
  "deleteJumpRule run chain proto port =
     seq (ignore (cmd_Run run ([''iptables'', ''-t'', ''nat'', ''-D'', ''PREROUTING''] @ jump_spec chain proto port)))
         (ignore (cmd_Run run ([''iptables'', ''-t'', ''nat'', ''-D'', ''OUTPUT''] @ local_spec chain proto port)))"

definition addJumpRule :: "'h runner \<Rightarrow> string \<Rightarrow> string \<Rightarrow> int \<Rightarrow> (unit, 'h) act" where
  "addJumpRule run chain proto port =
     seq (cmd_Run run ([''iptables'', ''-t'', ''nat'', ''-A'', ''PREROUTING''] @ jump_spec chain proto port))
         (cmd_Run run ([''iptables'', ''-t'', ''nat'', ''-A'', ''OUTPUT''] @ local_spec chain proto port))"

text \<open>
  \<open>fmt.Sprintf("%.4f", 1.0/float64(n))\<close>: the quotient is rounded to four digits.  The decimal
  fraction is half way between two only for \<open>n = 32 * 5 ^ j\<close>; for \<open>n = 32\<close> the floating point
  value is exact and the even digit is taken, for the others it lies above the fraction.
\<close>

definition prob_text :: "nat \<Rightarrow> string" where
  "prob_text n =
     (let q = (if n = 32 then 312 else (20000 + n) div (2 * n)); digits = dec (q mod 10000)
      in dec (q div 10000) @ ''.'' @ replicate (4 - length digits) (CHR ''0'') @ digits)"

text \<open>\<open>share\<close> is the number of endpoints among which the rule picks, none for the last rule.\<close>

definition endpoint_spec :: "string \<Rightarrow> int \<Rightarrow> string \<Rightarrow> nat option \<Rightarrow> string list" where
  "endpoint_spec addr targetPort proto share =
     [''-p'', proto] @
     (case share of Some n \<Rightarrow> [''-m'', ''statistic'', ''--mode'', ''random'', ''--probability'', prob_text n] | None \<Rightarrow> []) @
     [''-j'', ''DNAT'', ''--to-destination'', addr @ '':'' @ itoa targetPort]"

definition addEndpointRule :: "'h runner \<Rightarrow> string \<Rightarrow> string \<Rightarrow> int \<Rightarrow> string \<Rightarrow> nat option \<Rightarrow> (unit, 'h) act" where
  "addEndpointRule run chain addr targetPort proto share =
     cmd_Run run ([''iptables'', ''-t'', ''nat'', ''-A'', chain] @ endpoint_spec addr targetPort proto share)"

definition addForwardRules :: "'h runner \<Rightarrow> svcEndpoint \<Rightarrow> int \<Rightarrow> string \<Rightarrow> (unit, 'h) act" where
  "addForwardRules run ep targetPort proto =
     (if ep_HostInterface ep = [] \<or> ep_Bridge ep = [] then ret ()
      else for_each (\<lambda>args. ignore (cmd_Run run (''iptables'' # args)))
       [[''-I'', ''FORWARD'', ''1'', ''-i'', ep_Bridge ep, ''-o'', ep_Bridge ep, ''-p'', proto, ''-m'', ''conntrack'', ''--ctstate'', ''DNAT'',
           ''--dport'', itoa targetPort, ''-d'', ep_Addr ep, ''-j'', ''ACCEPT''],
        [''-A'', ''FORWARD'', ''-i'', ep_HostInterface ep, ''-o'', ep_Bridge ep, ''-p'', proto, ''--dport'', itoa targetPort,
           ''-d'', ep_Addr ep, ''-j'', ''ACCEPT''],
        [''-A'', ''FORWARD'', ''-o'', ep_HostInterface ep, ''-i'', ep_Bridge ep, ''-p'', proto, ''--sport'', itoa targetPort,
           ''-s'', ep_Addr ep, ''-j'', ''ACCEPT'']])"

definition port_proto :: "ServicePort \<Rightarrow> string" where
  "port_proto port = (if to_lower (sp_Protocol port) = [] then ''tcp'' else to_lower (sp_Protocol port))"

text \<open>The endpoints with their share: all but the last pick with the probability of one over their number.\<close>

definition shares :: "svcEndpoint list \<Rightarrow> (svcEndpoint \<times> nat option) list" where
  "shares es = map (\<lambda>i. (es ! i, if i < length es - 1 then Some (length es) else None)) [0..<length es]"

definition apply_port :: "'h runner \<Rightarrow> string \<Rightarrow> svcEndpoint list \<Rightarrow> ServicePort \<Rightarrow> (unit, 'h) act" where
  "apply_port run serviceId endpoints port =
     (if sp_Port port = 0 \<or> sp_TargetPort port = 0 then ret ()
      else let proto = port_proto port; chain = serviceChainName serviceId (sp_Port port) in
        seq (ensureChain run chain)
       (seq (flushChain run chain)
       (seq (deleteJumpRule run chain proto (sp_Port port))
       (seq (addJumpRule run chain proto (sp_Port port))
            (for_each (\<lambda>(ep, share).
               seq (addEndpointRule run chain (ep_Addr ep) (sp_TargetPort port) proto share)
                   (addForwardRules run ep (sp_TargetPort port) proto)) (shares endpoints))))))"

definition applyRules :: "'h runner \<Rightarrow> ServiceInfo \<Rightarrow> svcEndpoint list \<Rightarrow> (unit, 'h) act" where
  "applyRules run svc endpoints = for_each (apply_port run (sv_ServiceId svc) endpoints) (sv_Ports svc)"

subsection \<open>The controller's memory and its pass (controller.go)\<close>

record service_memory =
  lastState :: "(string, string) gomap"
  lastPorts :: "(string, ServicePort list) gomap"

definition cleanupService :: "'h runner \<Rightarrow> string \<Rightarrow> service_memory \<Rightarrow> (unit, 'h) act" where
  "cleanupService run serviceId m =
     for_each (\<lambda>p.
       if sp_Port p = 0 then ret ()
       else let chain = serviceChainName serviceId (sp_Port p) in
         seq (deleteJumpRule run chain ''tcp'' (sp_Port p))
        (seq (deleteJumpRule run chain ''udp'' (sp_Port p))
        (seq (ignore (flushChain run chain))
             (ignore (deleteChain run chain)))))
       (case map_of (lastPorts m) serviceId of None \<Rightarrow> [] | Some ports \<Rightarrow> ports)"

definition serviceExists :: "string \<Rightarrow> ServiceInfo list \<Rightarrow> bool" where
  "serviceExists serviceId services = list_ex (\<lambda>s. sv_ServiceId s = serviceId) services"

text \<open>Errors of the rules are logged only.\<close>

fun reconcile_services :: "'h world \<Rightarrow> PodInfo list \<Rightarrow> ServiceInfo list \<Rightarrow> service_memory \<Rightarrow> (service_memory, 'h daemon) act" where
  "reconcile_services w pods [] m = ret m"
| "reconcile_services w pods (svc # ss) m =
     bnd (attempt (buildEndpoints svc pods)) (\<lambda>r.
       case r of
         Inl _ \<Rightarrow> reconcile_services w pods ss m
       | Inr endpoints \<Rightarrow>
           let stateKey = buildStateKey svc endpoints in
           if mget0 (lastState m) (sv_ServiceId svc) = stateKey then reconcile_services w pods ss m
           else seq (ignore (on_host (applyRules (w_run w) svc endpoints)))
             (reconcile_services w pods ss
               (m\<lparr>lastState := mput (sv_ServiceId svc) stateKey (lastState m), lastPorts := mput (sv_ServiceId svc) (sv_Ports svc) (lastPorts m)\<rparr>)))"

fun cleanup_removed :: "'h world \<Rightarrow> ServiceInfo list \<Rightarrow> string list \<Rightarrow> service_memory \<Rightarrow> (service_memory, 'h daemon) act" where
  "cleanup_removed w services [] m = ret m"
| "cleanup_removed w services (serviceId # ids) m =
     (if serviceExists serviceId services then cleanup_removed w services ids m
      else seq (on_host (cleanupService (w_run w) serviceId m))
        (cleanup_removed w services ids (m\<lparr>lastState := mdel serviceId (lastState m), lastPorts := mdel serviceId (lastPorts m)\<rparr>)))"

definition svc_reconcileOnce :: "'h world \<Rightarrow> service_memory \<Rightarrow> (service_memory, 'h daemon) act" where
  "svc_reconcileOnce w m =
     bnd (ssm_do (query GetServiceList)) (\<lambda>services.
     bnd (if services = [] then ret m
          else bnd (psm_do (query GetPodList)) (\<lambda>pods. reconcile_services w pods services m)) (\<lambda>m'.
       cleanup_removed w services (map fst (lastState m')) m'))"

subsection \<open>The endpoints of a service\<close>

text \<open>The address of the infrastructure container of a pod, as the stores have it.\<close>

definition pod_endpoint :: "ContainerState \<Rightarrow> IpamState \<Rightarrow> PodInfo \<Rightarrow> svcEndpoint option" where
  "pod_endpoint cs ip p =
     (case List.find (\<lambda>c. has_prefix (c_ContainerName c) PodInfraContainerNamePrefix) (filter (\<lambda>c. c_PodId c = p_PodId p) (map snd (Containers cs))) of
        None \<Rightarrow> None
      | Some c \<Rightarrow> (case GetContainerAddress (c_ContainerId c) ip of
          Inl _ \<Rightarrow> None
        | Inr (host, bridge, addr) \<Rightarrow> Some \<lparr>ep_Addr = addr, ep_HostInterface = host, ep_Bridge = bridge\<rparr>))"

definition selected :: "ServiceInfo \<Rightarrow> PodInfo \<Rightarrow> bool" where
  "selected svc p \<longleftrightarrow> p_Namespace p = sv_Namespace svc \<and> labelsMatch (sv_Selector svc) (p_Labels p)"

definition service_endpoints :: "ContainerState \<Rightarrow> IpamState \<Rightarrow> PodInfo list \<Rightarrow> ServiceInfo \<Rightarrow> svcEndpoint list" where
  "service_endpoints cs ip pods svc = sort_key ep_Addr (List.map_filter (pod_endpoint cs ip) (filter (selected svc) pods))"

lemma find_map: "List.find P (map f xs) = map_option f (List.find (P \<circ> f) xs)"
  by (induction xs) auto

lemma infra_step:
  assumes "io_ok d"
  shows "case pod_endpoint (d_csm d) (d_ipam d) p of
       Some e \<Rightarrow> bnd (getInfraContainerId (p_PodId p)) (\<lambda>i. ipam_do (query (GetContainerAddress i))) d = (Inr (ep_HostInterface e, ep_Bridge e, ep_Addr e), d)
     | None \<Rightarrow> \<exists>m. bnd (getInfraContainerId (p_PodId p)) (\<lambda>i. ipam_do (query (GetContainerAddress i))) d = (Inl (Err m), d)"
proof -
  let ?cs = "filter (\<lambda>c. c_PodId c = p_PodId p) (map snd (Containers (d_csm d)))"
  define st where "st = (\<lambda>c. let (address, forwards) = container_network (Pools (d_ipam d)) (c_ContainerId c)
               in container_state c (c_ContainerName c) address forwards)"
  have list: "svc_GetContainersByPodId (p_PodId p) d = (Inr (map st ?cs), d)"
    using assms by (simp add: svc_GetContainersByPodId_def buildContainerStateList_def access_ok GetContainersByPodId_def GetPoolList_def st_def)
  have name: "(\<lambda>c. has_prefix (st_Name c) PodInfraContainerNamePrefix) \<circ> st = (\<lambda>c. has_prefix (c_ContainerName c) PodInfraContainerNamePrefix)"
    and id: "st_ContainerId (st c) = c_ContainerId c" for c
    by (auto simp: st_def container_state_def fun_eq_iff split: prod.splits)
  have get: "getInfraContainerId (p_PodId p) d =
      (case map_option st (List.find (\<lambda>c. has_prefix (c_ContainerName c) PodInfraContainerNamePrefix) ?cs) of
         Some c \<Rightarrow> ret (st_ContainerId c) | None \<Rightarrow> fail (Err (''infra container not found for pod: '' @ p_PodId p))) d"
    unfolding getInfraContainerId_def by (subst bnd_step, rule list) (simp only: find_map name)
  show ?thesis
  proof (cases "List.find (\<lambda>c. has_prefix (c_ContainerName c) PodInfraContainerNamePrefix) ?cs")
    case None
    then have "getInfraContainerId (p_PodId p) d = (Inl (Err (''infra container not found for pod: '' @ p_PodId p)), d)" using get by simp
    then show ?thesis using None by (simp add: pod_endpoint_def)
  next
    case (Some c)
    then have i: "getInfraContainerId (p_PodId p) d = (Inr (c_ContainerId c), d)" using get id by simp
    show ?thesis
    proof (cases "GetContainerAddress (c_ContainerId c) (d_ipam d)")
      case (Inl e)
      then have "e = Err (''container: '' @ c_ContainerId c @ '' not found'')" by (auto simp: GetContainerAddress_def split: option.splits prod.splits)
      then show ?thesis using i Some Inl assms by (simp add: pod_endpoint_def access_error)
    next
      case (Inr x)
      then show ?thesis using i Some assms by (cases x) (simp add: pod_endpoint_def access_ok)
    qed
  qed
qed

lemma buildEndpoints_spec:
  assumes "io_ok d"
  shows "buildEndpoints svc pods d = (Inr (service_endpoints (d_csm d) (d_ipam d) pods svc), d)"
proof -
  have "collect_endpoints svc pods d = (Inr (List.map_filter (pod_endpoint (d_csm d) (d_ipam d)) (filter (selected svc) pods)), d)"
  proof (induction pods)
    case (Cons p ps)
    show ?case
    proof (cases "selected svc p")
      case False
      then have "collect_endpoints svc (p # ps) d = collect_endpoints svc ps d" by (auto simp: selected_def)
      then show ?thesis using Cons False by simp
    next
      case True
      then have sel: "p_Namespace p = sv_Namespace svc" "labelsMatch (sv_Selector svc) (p_Labels p)" by (simp_all add: selected_def)
      then show ?thesis using Cons infra_step [OF assms, of p] True
        by (cases "pod_endpoint (d_csm d) (d_ipam d) p") (auto simp: map_filter_simps sel)
    qed
  qed (simp add: map_filter_simps)
  then show ?thesis by (simp add: buildEndpoints_def service_endpoints_def)
qed

subsection \<open>A pass of the controller settles\<close>

definition key_of :: "'h daemon \<Rightarrow> ServiceInfo \<Rightarrow> string" where
  "key_of d svc = buildStateKey svc (service_endpoints (d_csm d) (d_ipam d) (map snd (Pods (d_psm d))) svc)"

lemma key_of_host [simp]: "key_of (d\<lparr>d_host := h\<rparr>) = key_of d"
  by (simp add: key_of_def fun_eq_iff)

lemma run_no_panic: "fst (cmd_Run run cmd h) \<noteq> Inl (Panic x)"
  by (cases "run cmd h"; cases "fst (run cmd h)") (auto simp: cmd_Run_def command_failed_def)

abbreviation quiet :: "('a, 'h) act \<Rightarrow> bool" where
  "quiet \<equiv> calm (\<lambda>h. True)"

lemma quiet_run: "quiet (cmd_Run run cmd)"
  using run_no_panic [of run cmd] by (simp add: calm_def stable_def)

lemma ignore_quiet: "quiet m \<Longrightarrow> \<exists>h'. ignore m h = (Inr (), h')"
  using calm_run [of "\<lambda>h. True" m h] by simp

lemma applyRules_quiet: "quiet (applyRules run svc es)"
  unfolding applyRules_def apply_port_def Let_def ensureChain_def flushChain_def deleteJumpRule_def addJumpRule_def addEndpointRule_def addForwardRules_def
  by (intro calm_intros quiet_run) (auto split: prod.split intro!: calm_intros quiet_run simp del: for_each.simps)

lemma cleanup_run: "\<exists>h'. cleanupService run i m h = (Inr (), h')"
proof -
  have seq: "\<exists>h'. seq a b h = (Inr (), h')" if "\<And>h. \<exists>h'. a h = (Inr (), h')" "\<And>h. \<exists>h'. b h = (Inr (), h')" for a b :: "(unit, 'a) act" and h
    using that(1) [of h] that(2) by fastforce
  have ign: "\<exists>h'. ignore (cmd_Run run cmd) h = (Inr (), h')" for cmd h by (rule ignore_quiet [OF quiet_run])
  define f where "f = (\<lambda>p :: ServicePort. if sp_Port p = 0 then ret () else let chain = serviceChainName i (sp_Port p) in
         seq (deleteJumpRule run chain ''tcp'' (sp_Port p)) (seq (deleteJumpRule run chain ''udp'' (sp_Port p))
        (seq (ignore (flushChain run chain)) (ignore (deleteChain run chain)))))"
  have "\<exists>h'. f p h = (Inr (), h') \<and> True" for p h
    unfolding f_def deleteJumpRule_def flushChain_def deleteChain_def Let_def by (cases "sp_Port p = 0") (simp_all, intro seq ign)
  from each_run [of "\<lambda>h. True" f, OF this TrueI] show ?thesis by (simp add: cleanupService_def f_def [symmetric])
qed

lemma services_step:
  assumes "io_ok d"
  shows "\<exists>h m'. reconcile_services w pods (svc # ss) m d = reconcile_services w pods ss m' (d\<lparr>d_host := h\<rparr>) \<and>
    mget0 (lastState m') (sv_ServiceId svc) = buildStateKey svc (service_endpoints (d_csm d) (d_ipam d) pods svc) \<and>
    (\<forall>i. i \<noteq> sv_ServiceId svc \<longrightarrow> map_of (lastState m') i = map_of (lastState m) i) \<and>
    (mget0 (lastState m) (sv_ServiceId svc) = buildStateKey svc (service_endpoints (d_csm d) (d_ipam d) pods svc) \<longrightarrow> m' = m \<and> h = d_host d)"
proof -
  let ?es = "service_endpoints (d_csm d) (d_ipam d) pods svc" and ?i = "sv_ServiceId svc"
  have e: "attempt (buildEndpoints svc pods) d = (Inr (Inr ?es), d)" using buildEndpoints_spec [OF assms] by simp
  show ?thesis
  proof (cases "mget0 (lastState m) ?i = buildStateKey svc ?es")
    case True
    then show ?thesis using e by (intro exI [of _ "d_host d"] exI [of _ m]) simp
  next
    case False
    let ?m = "m\<lparr>lastState := mput ?i (buildStateKey svc ?es) (lastState m), lastPorts := mput ?i (sv_Ports svc) (lastPorts m)\<rparr>"
    obtain h where "ignore (applyRules (w_run w) svc ?es) (d_host d) = (Inr (), h)" using ignore_quiet [OF applyRules_quiet [of "w_run w" svc ?es], of "d_host d"] by blast
    then have "ignore (on_host (applyRules (w_run w) svc ?es)) d = (Inr (), d\<lparr>d_host := h\<rparr>)"
      by (auto simp: ignore_def on_host_def attempt_def bnd_def split: prod.splits sum.splits error.splits)
    then show ?thesis using e False by (intro exI [of _ h] exI [of _ ?m]) (simp add: mget0_def)
  qed
qed

lemma services_run:
  assumes "distinct (map sv_ServiceId ss)" "io_ok d"
  shows "\<exists>h m'. reconcile_services w pods ss m d = (Inr m', d\<lparr>d_host := h\<rparr>) \<and>
    (\<forall>s \<in> set ss. mget0 (lastState m') (sv_ServiceId s) = buildStateKey s (service_endpoints (d_csm d) (d_ipam d) pods s)) \<and>
    (\<forall>i. i \<notin> sv_ServiceId ` set ss \<longrightarrow> map_of (lastState m') i = map_of (lastState m) i)"
  using assms
proof (induction ss arbitrary: m d)
  case Nil
  then show ?case by (intro exI [of _ "d_host d"] exI [of _ m]) simp
next
  case (Cons s ss)
  obtain h1 m1 where 1: "reconcile_services w pods (s # ss) m d = reconcile_services w pods ss m1 (d\<lparr>d_host := h1\<rparr>)"
    "mget0 (lastState m1) (sv_ServiceId s) = buildStateKey s (service_endpoints (d_csm d) (d_ipam d) pods s)"
    "\<forall>i. i \<noteq> sv_ServiceId s \<longrightarrow> map_of (lastState m1) i = map_of (lastState m) i"
    using services_step [OF Cons.prems(2)] by metis
  have "io_ok (d\<lparr>d_host := h1\<rparr>)" using Cons.prems(2) by (simp add: io_ok_def)
  then obtain h2 m2 where 2: "reconcile_services w pods ss m1 (d\<lparr>d_host := h1\<rparr>) = (Inr m2, d\<lparr>d_host := h1\<rparr>\<lparr>d_host := h2\<rparr>)"
    "\<forall>s \<in> set ss. mget0 (lastState m2) (sv_ServiceId s) = buildStateKey s (service_endpoints (d_csm d) (d_ipam d) pods s)"
    "\<forall>i. i \<notin> sv_ServiceId ` set ss \<longrightarrow> map_of (lastState m2) i = map_of (lastState m1) i"
    using Cons.IH [of "d\<lparr>d_host := h1\<rparr>" m1] Cons.prems(1) by auto
  have "mget0 (lastState m2) (sv_ServiceId s) = mget0 (lastState m1) (sv_ServiceId s)"
    using 2(3) Cons.prems(1) by (simp add: mget0_def)
  then show ?case using 1 2 by (intro exI [of _ h2] exI [of _ m2]) auto
qed

lemma services_settled:
  assumes "io_ok d" "\<forall>s \<in> set ss. mget0 (lastState m) (sv_ServiceId s) = buildStateKey s (service_endpoints (d_csm d) (d_ipam d) pods s)"
  shows "reconcile_services w pods ss m d = (Inr m, d)"
  using assms(2)
proof (induction ss)
  case (Cons s ss)
  then show ?case using services_step [OF assms(1), of w pods s ss m] by auto
qed simp

lemma cleanup_removed_run:
  "\<exists>h m'. cleanup_removed w services ids m d = (Inr m', d\<lparr>d_host := h\<rparr>) \<and>
    (\<forall>i. map_of (lastState m') i = (if i \<in> set ids \<and> \<not> serviceExists i services then None else map_of (lastState m) i)) \<and>
    (list_all (\<lambda>i. serviceExists i services) ids \<longrightarrow> m' = m \<and> h = d_host d)"
proof (induction ids arbitrary: m d)
  case Nil
  show ?case by (intro exI [of _ "d_host d"] exI [of _ m]) simp
next
  case (Cons i ids)
  show ?case
  proof (cases "serviceExists i services")
    case True
    obtain h m' where "cleanup_removed w services ids m d = (Inr m', d\<lparr>d_host := h\<rparr>)"
      "\<forall>j. map_of (lastState m') j = (if j \<in> set ids \<and> \<not> serviceExists j services then None else map_of (lastState m) j)"
      "list_all (\<lambda>i. serviceExists i services) ids \<longrightarrow> m' = m \<and> h = d_host d" using Cons.IH [of m d] by blast
    then show ?thesis using True by (intro exI [of _ h] exI [of _ m']) auto
  next
    case False
    let ?m = "m\<lparr>lastState := mdel i (lastState m), lastPorts := mdel i (lastPorts m)\<rparr>"
    obtain h where "cleanupService (w_run w) i m (d_host d) = (Inr (), h)" using cleanup_run [of "w_run w" i m "d_host d"] by blast
    then have "on_host (cleanupService (w_run w) i m) d = (Inr (), d\<lparr>d_host := h\<rparr>)" by (rule on_host_simp)
    moreover obtain h' m' where "cleanup_removed w services ids ?m (d\<lparr>d_host := h\<rparr>) = (Inr m', d\<lparr>d_host := h\<rparr>\<lparr>d_host := h'\<rparr>)"
      "\<forall>j. map_of (lastState m') j = (if j \<in> set ids \<and> \<not> serviceExists j services then None else map_of (lastState ?m) j)"
      using Cons.IH [of ?m "d\<lparr>d_host := h\<rparr>"] by blast
    ultimately show ?thesis using False by (intro exI [of _ h'] exI [of _ m']) auto
  qed
qed

text \<open>C16: a pass of the controller settles the rules: it ends without error, changes nothing but the
  host and its memory, remembers for every service the ports and endpoints the stores give, forgets
  the services that are gone, and a second pass on the same stores runs no command at all, whichever
  commands of the first one failed.\<close>

theorem service_pass_settles:
  assumes "io_ok d" "ssm_inv (d_ssm d)"
  shows "\<exists>m' h. svc_reconcileOnce w m d = (Inr m', d\<lparr>d_host := h\<rparr>) \<and>
    list_all (\<lambda>s. mget0 (lastState m') (sv_ServiceId s) = key_of d s) (map snd (Services (d_ssm d))) \<and>
    fst ` set (lastState m') \<subseteq> fst ` set (Services (d_ssm d)) \<and>
    svc_reconcileOnce w m' (d\<lparr>d_host := h\<rparr>) = (Inr m', d\<lparr>d_host := h\<rparr>)"
proof -
  let ?ss = "map snd (Services (d_ssm d))" and ?pods = "map snd (Pods (d_psm d))"
  have ids: "map sv_ServiceId ?ss = map fst (Services (d_ssm d))" using assms(2) by (auto simp: ssm_inv_def keyed_def)
  have dist: "distinct (map sv_ServiceId ?ss)" unfolding ids using assms(2) by (simp add: ssm_inv_def keyed_def mwf_def)
  have ex: "serviceExists i ?ss \<longleftrightarrow> i \<in> fst ` set (Services (d_ssm d))" for i
  proof -
    have "serviceExists i ?ss \<longleftrightarrow> i \<in> set (map sv_ServiceId ?ss)" by (auto simp: serviceExists_def list_ex_iff)
    then show ?thesis by (simp only: ids set_map)
  qed
  have list: "ssm_do (query GetServiceList) e = (Inr ?ss, e)" "psm_do (query GetPodList) e = (Inr ?pods, e)"
    if "e = d\<lparr>d_host := h\<rparr>" for e h
    using assms(1) that by (simp_all add: access_ok GetServiceList_def GetPodList_def io_ok_def)
  define mid where "mid = (\<lambda>m. if ?ss = [] then ret m else bnd (psm_do (query GetPodList)) (\<lambda>pods. reconcile_services w pods ?ss m))"
  have pass: "svc_reconcileOnce w m e = bnd (mid m) (\<lambda>m'. cleanup_removed w ?ss (map fst (lastState m')) m') e"
    if "e = d\<lparr>d_host := h\<rparr>" for m e h
    using list(1) [OF that] by (simp add: svc_reconcileOnce_def mid_def)
  obtain h1 m1 where 1: "mid m d = (Inr m1, d\<lparr>d_host := h1\<rparr>)" "\<forall>s \<in> set ?ss. mget0 (lastState m1) (sv_ServiceId s) = key_of d s"
  proof (cases "?ss = []")
    case True
    then show ?thesis using that [of m "d_host d"] by (simp add: mid_def)
  next
    case False
    then show ?thesis using that services_run [OF dist assms(1), of w ?pods m] list(2) [of d "d_host d"]
      by (auto simp: mid_def key_of_def)
  qed
  obtain h2 m2 where 2: "cleanup_removed w ?ss (map fst (lastState m1)) m1 (d\<lparr>d_host := h1\<rparr>) = (Inr m2, d\<lparr>d_host := h1\<rparr>\<lparr>d_host := h2\<rparr>)"
    "\<forall>i. map_of (lastState m2) i = (if i \<in> set (map fst (lastState m1)) \<and> \<not> serviceExists i ?ss then None else map_of (lastState m1) i)"
    using cleanup_removed_run [of w ?ss "map fst (lastState m1)" m1 "d\<lparr>d_host := h1\<rparr>"] by blast
  have keys: "fst ` set (lastState m2) \<subseteq> fst ` set (Services (d_ssm d))"
  proof
    fix i assume "i \<in> fst ` set (lastState m2)"
    then have "map_of (lastState m2) i \<noteq> None" by (simp add: map_of_eq_None_iff)
    then have "i \<in> set (map fst (lastState m1))" "serviceExists i ?ss"
      using 2(2) map_of_eq_None_iff [of "lastState m1" i] by (auto split: if_splits)
    then show "i \<in> fst ` set (Services (d_ssm d))" by (simp add: ex)
  qed
  have state: "\<forall>s \<in> set ?ss. mget0 (lastState m2) (sv_ServiceId s) = key_of d s"
    using 1(2) 2(2) by (auto simp: mget0_def serviceExists_def list_ex_iff)
  let ?d = "d\<lparr>d_host := h2\<rparr>"
  have "mid m2 ?d = (Inr m2, ?d)"
    using services_settled [of ?d ?ss m2 ?pods w] state assms(1) list(2) [of ?d h2] by (auto simp: mid_def key_of_def io_ok_def)
  moreover have "cleanup_removed w ?ss (map fst (lastState m2)) m2 ?d = (Inr m2, ?d)"
    using cleanup_removed_run [of w ?ss "map fst (lastState m2)" m2 ?d] keys ex by (auto simp: list_all_iff)
  ultimately have "svc_reconcileOnce w m2 ?d = (Inr m2, ?d)" using pass [of ?d h2 m2] by simp
  then show ?thesis using pass [of d "d_host d" m] 1(1) 2(1) keys state by (intro exI [of _ m2] exI [of _ h2]) (simp add: list_all_iff)
qed

subsection \<open>The chain of a service\<close>

text \<open>Rules of the forward chain do not matter to the chains of the table \<open>nat\<close>.\<close>

definition nat_rules :: "'r tables \<Rightarrow> string \<Rightarrow> 'r list option" where
  "nat_rules T c = T (''nat'', c)"

lemma forward_rules_nat:
  assumes laws: "iptables_laws run tables parse valid"
  shows "\<exists>h'. addForwardRules run ep port proto h = (Inr (), h') \<and> nat_rules (tables h') = nat_rules (tables h)"
proof -
  let ?P = "\<lambda>h'. nat_rules (tables h') = nat_rules (tables h)"
  have cmd: "\<exists>s'. ignore (cmd_Run run cmd) s = (Inr (), s') \<and> ?P s'"
    if eff: "chain_cmd run tables cmd (''filter'', ''FORWARD'') f" and s: "?P s" for cmd f s
  proof (cases "f (tables s (''filter'', ''FORWARD''))")
    case None
    then have "run cmd s = (False, s)" by (rule chain_cmd_fail [OF eff])
    then show ?thesis using s by (simp add: ignore_def command_failed_def)
  next
    case (Some rs)
    then obtain s' where "run cmd s = (True, s')" "tables s' = (tables s)((''filter'', ''FORWARD'') \<mapsto> rs)" using chain_cmd_ok [OF eff] by blast
    then show ?thesis using s by (simp add: ignore_def nat_rules_def fun_eq_iff)
  qed
  note ins = laws_cmds(5) [OF laws, where t = "''filter''" and c = "''FORWARD''"]
    and app = laws_cmds(3) [OF laws, where t = "''filter''" and c = "''FORWARD''"]
  show ?thesis
  proof (cases "ep_HostInterface ep = [] \<or> ep_Bridge ep = []")
    case False
    define a where "a = [''-i'', ep_Bridge ep, ''-o'', ep_Bridge ep, ''-p'', proto, ''-m'', ''conntrack'', ''--ctstate'', ''DNAT'',
           ''--dport'', itoa port, ''-d'', ep_Addr ep, ''-j'', ''ACCEPT'']"
    define b where "b = [''-i'', ep_HostInterface ep, ''-o'', ep_Bridge ep, ''-p'', proto, ''--dport'', itoa port,
           ''-d'', ep_Addr ep, ''-j'', ''ACCEPT'']"
    define c where "c = [''-o'', ep_HostInterface ep, ''-i'', ep_Bridge ep, ''-p'', proto, ''--sport'', itoa port,
           ''-s'', ep_Addr ep, ''-j'', ''ACCEPT'']"
    have o: "opt_spec a" "opt_spec b" "opt_spec c" by (simp_all add: a_def b_def c_def opt_spec_def has_prefix_def)
    have r: "addForwardRules run ep port proto = for_each (\<lambda>args. ignore (cmd_Run run (''iptables'' # args)))
      [''-I'' # ''FORWARD'' # ''1'' # a, ''-A'' # ''FORWARD'' # b, ''-A'' # ''FORWARD'' # c]"
      using False by (simp add: addForwardRules_def a_def b_def c_def)
    obtain s1 where s1: "ignore (cmd_Run run (''iptables'' # ''-I'' # ''FORWARD'' # ''1'' # a)) h = (Inr (), s1)" "?P s1"
      using cmd [OF ins [OF o(1)], of h] by (auto simp: ipt_def)
    obtain s2 where s2: "ignore (cmd_Run run (''iptables'' # ''-A'' # ''FORWARD'' # b)) s1 = (Inr (), s2)" "?P s2"
      using cmd [OF app [OF o(2)] s1(2)] by (auto simp: ipt_def)
    obtain s3 where "ignore (cmd_Run run (''iptables'' # ''-A'' # ''FORWARD'' # c)) s2 = (Inr (), s3)" "?P s3"
      using cmd [OF app [OF o(3)] s2(2)] by (auto simp: ipt_def)
    then show ?thesis unfolding r using s1(1) s2(1) by simp
  qed (simp add: addForwardRules_def)
qed

lemma endpoint_rules:
  assumes laws: "iptables_laws run tables parse valid"
  shows "\<forall>(ep, share) \<in> set es. valid (endpoint_spec (ep_Addr ep) port proto share) \<Longrightarrow> nat_rules (tables h) c = Some rs \<Longrightarrow>
    \<exists>h'. for_each (\<lambda>(ep, share). seq (addEndpointRule run c (ep_Addr ep) port proto share) (addForwardRules run ep port proto)) es h = (Inr (), h') \<and>
      nat_rules (tables h') = (nat_rules (tables h))(c \<mapsto> rs @ map (\<lambda>(ep, share). parse (endpoint_spec (ep_Addr ep) port proto share)) es)"
proof (induction es arbitrary: h rs)
  case Nil
  then show ?case by (simp add: fun_upd_idem)
next
  case (Cons e es)
  obtain ep share where e: "e = (ep, share)" by (cases e)
  let ?s = "endpoint_spec (ep_Addr ep) port proto share"
  have o: "opt_spec ?s" by (simp add: endpoint_spec_def opt_spec_def has_prefix_def)
  obtain h1 where "run (ipt ''nat'' (''-A'' # c # ?s)) h = (True, h1)" "tables h1 = (tables h)((''nat'', c) \<mapsto> rs @ [parse ?s])"
    using laws_append [OF laws o, of h "''nat''" c rs] Cons.prems e by (auto simp: nat_rules_def)
  then have 1: "addEndpointRule run c (ep_Addr ep) port proto share h = (Inr (), h1)" "nat_rules (tables h1) = (nat_rules (tables h))(c \<mapsto> rs @ [parse ?s])"
    by (simp_all add: addEndpointRule_def ipt_def nat_rules_def fun_eq_iff)
  obtain h2 where 2: "addForwardRules run ep port proto h1 = (Inr (), h2)" "nat_rules (tables h2) = nat_rules (tables h1)"
    using forward_rules_nat [OF laws] by blast
  have "nat_rules (tables h2) c = Some (rs @ [parse ?s])" using 1 2 by simp
  moreover have "\<forall>(ep, share) \<in> set es. valid (endpoint_spec (ep_Addr ep) port proto share)" using Cons.prems(1) by simp
  ultimately obtain h3 where
    "for_each (\<lambda>(ep, share). seq (addEndpointRule run c (ep_Addr ep) port proto share) (addForwardRules run ep port proto)) es h2 = (Inr (), h3)"
    "nat_rules (tables h3) = (nat_rules (tables h2))(c \<mapsto> (rs @ [parse ?s]) @ map (\<lambda>(ep, share). parse (endpoint_spec (ep_Addr ep) port proto share)) es)"
    using Cons.IH by blast
  then show ?case using e 1 2 by (intro exI [of _ h3]) (simp add: fun_eq_iff)
qed

definition routed :: "ServicePort \<Rightarrow> bool" where
  "routed p \<longleftrightarrow> sp_Port p \<noteq> 0 \<and> sp_TargetPort p \<noteq> 0"

text \<open>The specifications of the rules of a port.\<close>

definition port_specs :: "string \<Rightarrow> svcEndpoint list \<Rightarrow> ServicePort \<Rightarrow> string list list" where
  "port_specs i es p = map (\<lambda>(ep, share). endpoint_spec (ep_Addr ep) (sp_TargetPort p) (port_proto p) share) (shares es)"

abbreviation port_chain :: "string \<Rightarrow> ServicePort \<Rightarrow> string" where
  "port_chain i p \<equiv> serviceChainName i (sp_Port p)"

definition port_jumps :: "string \<Rightarrow> ServicePort \<Rightarrow> string list \<times> string list" where
  "port_jumps i p = (jump_spec (port_chain i p) (port_proto p) (sp_Port p), local_spec (port_chain i p) (port_proto p) (sp_Port p))"

definition port_valid :: "(string list \<Rightarrow> bool) \<Rightarrow> string \<Rightarrow> svcEndpoint list \<Rightarrow> ServicePort \<Rightarrow> bool" where
  "port_valid valid i es p \<longleftrightarrow> valid (fst (port_jumps i p)) \<and> valid (snd (port_jumps i p)) \<and> list_all valid (port_specs i es p)"

lemma chain_names [simp]: "serviceChainName i n \<noteq> ''PREROUTING''" "serviceChainName i n \<noteq> ''OUTPUT''"
  by (simp_all add: serviceChainName_def)

lemma chain_inj: "serviceChainName i n = serviceChainName i k \<Longrightarrow> n = k"
  by (simp add: serviceChainName_def itoa_inj split: if_splits)

lemma nat_cmd:
  assumes laws: "iptables_laws run tables parse valid" and o: "opt_spec spec" and v: "valid spec" and c: "nat_rules (tables h) c = Some rs"
  shows "\<exists>h'. ignore (cmd_Run run ([''iptables'', ''-t'', ''nat'', ''-D'', c] @ spec)) h = (Inr (), h') \<and>
      nat_rules (tables h') = (nat_rules (tables h))(c \<mapsto> remove1 (parse spec) rs)"
    and "\<exists>h'. cmd_Run run ([''iptables'', ''-t'', ''nat'', ''-A'', c] @ spec) h = (Inr (), h') \<and>
      nat_rules (tables h') = (nat_rules (tables h))(c \<mapsto> rs @ [parse spec])"
proof -
  have t: "tables h (''nat'', c) = Some rs" using c by (simp add: nat_rules_def)
  obtain h' where "run (ipt ''nat'' (''-A'' # c # spec)) h = (True, h')" "tables h' = (tables h)((''nat'', c) \<mapsto> rs @ [parse spec])"
    using laws_append [OF laws o v t] by blast
  then show "\<exists>h'. cmd_Run run ([''iptables'', ''-t'', ''nat'', ''-A'', c] @ spec) h = (Inr (), h') \<and>
      nat_rules (tables h') = (nat_rules (tables h))(c \<mapsto> rs @ [parse spec])"
    by (intro exI [of _ h']) (simp add: ipt_def nat_rules_def fun_eq_iff)
  show "\<exists>h'. ignore (cmd_Run run ([''iptables'', ''-t'', ''nat'', ''-D'', c] @ spec)) h = (Inr (), h') \<and>
      nat_rules (tables h') = (nat_rules (tables h))(c \<mapsto> remove1 (parse spec) rs)"
  proof (cases "parse spec \<in> set rs")
    case True
    then obtain h' where "run (ipt ''nat'' (''-D'' # c # spec)) h = (True, h')" "tables h' = (tables h)((''nat'', c) \<mapsto> remove1 (parse spec) rs)"
      using laws_delete [OF laws o v t] by blast
    then show ?thesis by (intro exI [of _ h']) (simp add: ignore_def ipt_def nat_rules_def fun_eq_iff)
  next
    case False
    then have "run (ipt ''nat'' (''-D'' # c # spec)) h = (False, h)"
      using chain_cmd_fail [OF laws_cmds(6) [OF laws o, where t = "''nat''" and c = c], where h = h] t by (simp add: with_rules_def)
    then show ?thesis using False c by (intro exI [of _ h]) (simp add: ignore_def ipt_def command_failed_def remove1_idem fun_upd_idem)
  qed
qed

lemma fresh_chain:
  assumes laws: "iptables_laws run tables parse valid"
  shows "\<exists>h'. seq (ensureChain run c) (flushChain run c) h = (Inr (), h') \<and> nat_rules (tables h') = (nat_rules (tables h))(c \<mapsto> [])"
proof -
  obtain h1 rs where 1: "ensureChain run c h = (Inr (), h1)" "tables h1 = (tables h)((''nat'', c) \<mapsto> rs)"
  proof (cases "tables h (''nat'', c)")
    case None
    then obtain h1 where "run (ipt ''nat'' [''-N'', c]) h = (True, h1)" "tables h1 = (tables h)((''nat'', c) \<mapsto> [])" using laws_new [OF laws] by blast
    then show ?thesis using that [of h1 "[]"] by (simp add: ensureChain_def ignore_def ipt_def)
  next
    case (Some rs)
    then have "run (ipt ''nat'' [''-N'', c]) h = (False, h)" using chain_cmd_fail [OF laws_cmds(1) [OF laws, where t = "''nat''" and c = c], where h = h] by simp
    then show ?thesis using that [of h rs] Some by (simp add: ensureChain_def ignore_def ipt_def command_failed_def fun_upd_idem)
  qed
  then have "tables h1 (''nat'', c) = Some rs" by simp
  then obtain h2 where "run (ipt ''nat'' [''-F'', c]) h1 = (True, h2)" "tables h2 = (tables h1)((''nat'', c) \<mapsto> [])" using laws_flush [OF laws] by blast
  then show ?thesis using 1 by (intro exI [of _ h2]) (simp add: flushChain_def ipt_def nat_rules_def fun_eq_iff)
qed

lemma apply_port_effect:
  assumes laws: "iptables_laws run tables parse valid" and p: "routed p" "port_valid valid i es p"
    and nat: "nat_rules (tables h) ''PREROUTING'' = Some pre" "nat_rules (tables h) ''OUTPUT'' = Some out"
  shows "\<exists>h'. apply_port run i es p h = (Inr (), h') \<and>
    nat_rules (tables h') = (nat_rules (tables h))(''PREROUTING'' \<mapsto> remove1 (parse (fst (port_jumps i p))) pre @ [parse (fst (port_jumps i p))],
      ''OUTPUT'' \<mapsto> remove1 (parse (snd (port_jumps i p))) out @ [parse (snd (port_jumps i p))], port_chain i p \<mapsto> map parse (port_specs i es p))"
proof -
  define c j l where "c = port_chain i p" and "j = jump_spec c (port_proto p) (sp_Port p)" and "l = local_spec c (port_proto p) (sp_Port p)"
  have jl: "port_jumps i p = (j, l)" by (simp add: port_jumps_def c_def j_def l_def)
  have v: "valid j" "valid l" "\<forall>s \<in> set (port_specs i es p). valid s" using p(2) by (simp_all add: port_valid_def jl list_all_iff)
  have o: "opt_spec j" "opt_spec l" by (simp_all add: j_def l_def local_spec_def jump_spec_def opt_spec_def has_prefix_def)
  have c: "c \<noteq> ''PREROUTING''" "c \<noteq> ''OUTPUT''" by (simp_all add: c_def)
  let ?T = "\<lambda>h. nat_rules (tables h)"
  obtain h0 where 0: "seq (ensureChain run c) (flushChain run c) h = (Inr (), h0)" "?T h0 = (?T h)(c \<mapsto> [])" using fresh_chain [OF laws] by blast
  obtain h1 where 1: "ignore (cmd_Run run ([''iptables'', ''-t'', ''nat'', ''-D'', ''PREROUTING''] @ j)) h0 = (Inr (), h1)"
    "?T h1 = (?T h0)(''PREROUTING'' \<mapsto> remove1 (parse j) pre)"
    using nat_cmd(1) [OF laws o(1) v(1), of h0 "''PREROUTING''" pre] 0(2) nat c by auto
  obtain h2 where 2: "ignore (cmd_Run run ([''iptables'', ''-t'', ''nat'', ''-D'', ''OUTPUT''] @ l)) h1 = (Inr (), h2)"
    "?T h2 = (?T h1)(''OUTPUT'' \<mapsto> remove1 (parse l) out)"
    using nat_cmd(1) [OF laws o(2) v(2), of h1 "''OUTPUT''" out] 0(2) 1(2) nat c by auto
  obtain h3 where 3: "cmd_Run run ([''iptables'', ''-t'', ''nat'', ''-A'', ''PREROUTING''] @ j) h2 = (Inr (), h3)"
    "?T h3 = (?T h2)(''PREROUTING'' \<mapsto> remove1 (parse j) pre @ [parse j])"
    using nat_cmd(2) [OF laws o(1) v(1), of h2 "''PREROUTING''" "remove1 (parse j) pre"] 1(2) 2(2) by auto
  obtain h4 where 4: "cmd_Run run ([''iptables'', ''-t'', ''nat'', ''-A'', ''OUTPUT''] @ l) h3 = (Inr (), h4)"
    "?T h4 = (?T h3)(''OUTPUT'' \<mapsto> remove1 (parse l) out @ [parse l])"
    using nat_cmd(2) [OF laws o(2) v(2), of h3 "''OUTPUT''" "remove1 (parse l) out"] 2(2) 3(2) by auto
  have "?T h4 c = Some []" using 0(2) 1(2) 2(2) 3(2) 4(2) c by simp
  moreover have "\<forall>(ep, share) \<in> set (shares es). valid (endpoint_spec (ep_Addr ep) (sp_TargetPort p) (port_proto p) share)"
    using v(3) by (auto simp: port_specs_def)
  ultimately obtain h5 where 5: "for_each (\<lambda>(ep, share). seq (addEndpointRule run c (ep_Addr ep) (sp_TargetPort p) (port_proto p) share)
      (addForwardRules run ep (sp_TargetPort p) (port_proto p))) (shares es) h4 = (Inr (), h5)"
    "?T h5 = (?T h4)(c \<mapsto> [] @ map (\<lambda>(ep, share). parse (endpoint_spec (ep_Addr ep) (sp_TargetPort p) (port_proto p) share)) (shares es))"
    using endpoint_rules [OF laws] by blast
  obtain g where g: "ensureChain run c h = (Inr (), g)" "flushChain run c g = (Inr (), h0)" using 0(1) by (auto simp: seq_def bnd_Inr)
  have "apply_port run i es p h = (Inr (), h5)"
    using p(1) g 1(1) 2(1) 3(1) 4(1) 5(1) unfolding routed_def
    by (simp add: apply_port_def Let_def c_def [symmetric] deleteJumpRule_def addJumpRule_def j_def [symmetric] l_def [symmetric])
  moreover have "?T h5 = (?T h)(''PREROUTING'' \<mapsto> remove1 (parse j) pre @ [parse j], ''OUTPUT'' \<mapsto> remove1 (parse l) out @ [parse l],
      c \<mapsto> map parse (port_specs i es p))"
    unfolding 5(2) 4(2) 3(2) 2(2) 1(2) 0(2) using c by (auto simp: fun_eq_iff port_specs_def)
  ultimately show ?thesis by (simp add: jl c_def)
qed

text \<open>The chains of the ports hold their rules, and the jumps lead to them.\<close>

definition sends :: "(string list \<Rightarrow> 'r) \<Rightarrow> string \<Rightarrow> svcEndpoint list \<Rightarrow> ServicePort list \<Rightarrow> (string \<Rightarrow> 'r list option) \<Rightarrow> bool" where
  "sends parse i es ps T \<longleftrightarrow> (\<exists>pre out. T ''PREROUTING'' = Some pre \<and> T ''OUTPUT'' = Some out \<and>
     (\<forall>p \<in> set (filter routed ps). T (port_chain i p) = Some (map parse (port_specs i es p)) \<and>
        parse (fst (port_jumps i p)) \<in> set pre \<and> parse (snd (port_jumps i p)) \<in> set out))"

text \<open>Only jumps to the chains of the ports are added to the two entry chains, and other chains keep their rules.\<close>

definition keeps_rules ::
  "(string list \<Rightarrow> 'r) \<Rightarrow> string \<Rightarrow> ServicePort list \<Rightarrow> (string \<Rightarrow> 'r list option) \<Rightarrow> (string \<Rightarrow> 'r list option) \<Rightarrow> bool" where
  "keeps_rules parse i ps T T' \<longleftrightarrow>
     (\<forall>(c, jump) \<in> {(''PREROUTING'', fst), (''OUTPUT'', snd)}. \<forall>rs rs'. T c = Some rs \<and> T' c = Some rs' \<longrightarrow>
        set rs \<subseteq> set rs' \<and> set rs' \<subseteq> set rs \<union> (\<lambda>p. parse (jump (port_jumps i p))) ` set (filter routed ps)) \<and>
     (\<forall>c. c \<notin> {''PREROUTING'', ''OUTPUT''} \<union> port_chain i ` set (filter routed ps) \<longrightarrow> T' c = T c)"

lemma ports_effect:
  assumes laws: "iptables_laws run tables parse valid"
    and "distinct (map sp_Port (filter routed ps))" "list_all (port_valid valid i es) (filter routed ps)"
      "nat_rules (tables h) ''PREROUTING'' \<noteq> None" "nat_rules (tables h) ''OUTPUT'' \<noteq> None"
  shows "\<exists>h'. for_each (apply_port run i es) ps h = (Inr (), h') \<and> sends parse i es ps (nat_rules (tables h')) \<and>
    keeps_rules parse i ps (nat_rules (tables h)) (nat_rules (tables h'))"
  using assms(2-)
proof (induction ps arbitrary: h)
  case Nil
  then show ?case by (auto simp: sends_def keeps_rules_def)
next
  case (Cons p ps)
  show ?case
  proof (cases "routed p")
    case False
    then have "apply_port run i es p h = (Inr (), h)" by (auto simp: apply_port_def routed_def)
    then show ?thesis using Cons.IH [of h] Cons.prems False by (simp add: sends_def keeps_rules_def)
  next
    case True
    let ?J = "parse (fst (port_jumps i p))" and ?L = "parse (snd (port_jumps i p))" and ?T = "\<lambda>h. nat_rules (tables h)"
    obtain pre out where nat: "?T h ''PREROUTING'' = Some pre" "?T h ''OUTPUT'' = Some out" using Cons.prems(3,4) by blast
    obtain h1 where 1: "apply_port run i es p h = (Inr (), h1)"
      "?T h1 = (?T h)(''PREROUTING'' \<mapsto> remove1 ?J pre @ [?J], ''OUTPUT'' \<mapsto> remove1 ?L out @ [?L], port_chain i p \<mapsto> map parse (port_specs i es p))"
      using apply_port_effect [OF laws True _ nat, of i es] Cons.prems True by auto
    have in1: "?T h1 ''PREROUTING'' = Some (remove1 ?J pre @ [?J])" "?T h1 ''OUTPUT'' = Some (remove1 ?L out @ [?L])"
      unfolding 1(2) using chain_names [symmetric] by simp_all
    have "?T h1 ''PREROUTING'' \<noteq> None" "?T h1 ''OUTPUT'' \<noteq> None" using in1 by simp_all
    then obtain h2 where 2: "for_each (apply_port run i es) ps h1 = (Inr (), h2)" "sends parse i es ps (?T h2)" "keeps_rules parse i ps (?T h1) (?T h2)"
      using Cons.IH [of h1] Cons.prems(1,2) True by auto
    obtain pre2 out2 where in2: "?T h2 ''PREROUTING'' = Some pre2" "?T h2 ''OUTPUT'' = Some out2"
      "\<forall>p \<in> set (filter routed ps). ?T h2 (port_chain i p) = Some (map parse (port_specs i es p)) \<and>
        parse (fst (port_jumps i p)) \<in> set pre2 \<and> parse (snd (port_jumps i p)) \<in> set out2" using 2(2) unfolding sends_def by blast
    let ?jumps = "\<lambda>f ps. (\<lambda>p. parse (f (port_jumps i p))) ` set (filter routed ps)"
    have moved: "set (remove1 r rs @ [r]) = insert r (set rs)" for r and rs :: "'b list"
      by (induction rs) auto
    have "set (remove1 ?J pre @ [?J]) \<subseteq> set pre2 \<and> set pre2 \<subseteq> set (remove1 ?J pre @ [?J]) \<union> ?jumps fst ps"
      "set (remove1 ?L out @ [?L]) \<subseteq> set out2 \<and> set out2 \<subseteq> set (remove1 ?L out @ [?L]) \<union> ?jumps snd ps"
      using 2(3) in1 in2(1,2) by (simp_all add: keeps_rules_def)
    then have sub: "?J \<in> set pre2" "?L \<in> set out2" "set pre \<subseteq> set pre2" "set out \<subseteq> set out2"
      and sup: "set pre2 \<subseteq> set pre \<union> ?jumps fst (p # ps)" "set out2 \<subseteq> set out \<union> ?jumps snd (p # ps)"
      unfolding moved using True by auto
    have "sp_Port p \<notin> sp_Port ` set (filter routed ps)" using Cons.prems(1) True by simp
    then have "port_chain i p \<notin> {''PREROUTING'', ''OUTPUT''} \<union> port_chain i ` set (filter routed ps)" using chain_inj by auto
    then have "?T h2 (port_chain i p) = ?T h1 (port_chain i p)" using 2(3) unfolding keeps_rules_def by blast
    also have "\<dots> = Some (map parse (port_specs i es p))" unfolding 1(2) by simp
    finally have "sends parse i es (p # ps) (?T h2)" using in2 sub True by (auto simp: sends_def)
    moreover have "?T h2 c = ?T h c" if "c \<notin> {''PREROUTING'', ''OUTPUT''} \<union> port_chain i ` set (filter routed (p # ps))" for c
    proof -
      have "?T h2 c = ?T h1 c" using 2(3) that True unfolding keeps_rules_def by auto
      then show ?thesis unfolding 1(2) using that True by auto
    qed
    then have "keeps_rules parse i (p # ps) (?T h) (?T h2)" using nat in2(1,2) sub sup by (simp add: keeps_rules_def)
    ultimately show ?thesis using 1(1) 2(1) by simp
  qed
qed

text \<open>
  The rules that let the packets through to the endpoints.  They go to the front and to the end of the
  chain \<open>FORWARD\<close> of the table \<open>filter\<close>; no other table than \<open>nat\<close> changes otherwise.
\<close>

definition forward_specs :: "svcEndpoint \<Rightarrow> int \<Rightarrow> string \<Rightarrow> string list list" where
  "forward_specs ep port proto =
     (if ep_HostInterface ep = [] \<or> ep_Bridge ep = [] then []
      else [[''-i'', ep_Bridge ep, ''-o'', ep_Bridge ep, ''-p'', proto, ''-m'', ''conntrack'', ''--ctstate'', ''DNAT'',
               ''--dport'', itoa port, ''-d'', ep_Addr ep, ''-j'', ''ACCEPT''],
            [''-i'', ep_HostInterface ep, ''-o'', ep_Bridge ep, ''-p'', proto, ''--dport'', itoa port, ''-d'', ep_Addr ep, ''-j'', ''ACCEPT''],
            [''-o'', ep_HostInterface ep, ''-i'', ep_Bridge ep, ''-p'', proto, ''--sport'', itoa port, ''-s'', ep_Addr ep, ''-j'', ''ACCEPT'']])"

definition service_forwards :: "svcEndpoint list \<Rightarrow> ServicePort list \<Rightarrow> string list set" where
  "service_forwards es ps = (\<Union>ep \<in> set es. \<Union>p \<in> set ps. set (forward_specs ep (sp_TargetPort p) (port_proto p)))"

definition forwards_only :: "'r set \<Rightarrow> 'r tables \<Rightarrow> 'r tables \<Rightarrow> bool" where
  "forwards_only R T T' \<longleftrightarrow>
     (\<forall>t c. t \<noteq> ''nat'' \<and> (t, c) \<noteq> (''filter'', ''FORWARD'') \<longrightarrow> T' (t, c) = T (t, c)) \<and>
     (case T (''filter'', ''FORWARD'') of
        None \<Rightarrow> T' (''filter'', ''FORWARD'') = None
      | Some rs \<Rightarrow> \<exists>pre post. T' (''filter'', ''FORWARD'') = Some (pre @ rs @ post) \<and> set (pre @ post) \<subseteq> R)"

lemma forwards_only_refl: "forwards_only R T T"
  by (auto simp: forwards_only_def split: option.splits intro!: exI [of _ "[]"])

lemma command_forwards:
  assumes eff: "chain_cmd run tables cmd (t, c) f" and s: "forwards_only R T (tables s)"
    and f: "t = ''nat'' \<or> (t, c) = (''filter'', ''FORWARD'') \<and> (\<exists>r \<in> R. f = with_rules b (\<lambda>rs. r # rs) \<or> f = with_rules b (\<lambda>rs. rs @ [r]))"
  shows "forwards_only R T (tables (snd (run cmd s)))"
proof (cases "f (tables s (t, c))")
  case None
  then show ?thesis using chain_cmd_fail [OF eff] s by simp
next
  case (Some new)
  then obtain s' where s': "run cmd s = (True, s')" "tables s' = (tables s)((t, c) \<mapsto> new)" using chain_cmd_ok [OF eff] by blast
  show ?thesis
  proof (cases "t = ''nat''")
    case True
    have "tables s' (u, x) = tables s (u, x)" if "u \<noteq> ''nat''" for u x using that True s'(2) by simp
    moreover have "tables s' (''filter'', ''FORWARD'') = tables s (''filter'', ''FORWARD'')" using True s'(2) by simp
    ultimately show ?thesis using s s'(1) by (auto simp: forwards_only_def split: option.splits)
  next
    case False
    then obtain r where tc: "t = ''filter''" "c = ''FORWARD''" and r: "r \<in> R" "f = with_rules b (\<lambda>rs. r # rs) \<or> f = with_rules b (\<lambda>rs. rs @ [r])"
      using f by auto
    then obtain old where old: "tables s (''filter'', ''FORWARD'') = Some old" "new = r # old \<or> new = old @ [r]"
      using Some by (auto simp: with_rules_def split: if_splits)
    obtain rs where rs: "T (''filter'', ''FORWARD'') = Some rs" using s old(1) by (auto simp: forwards_only_def split: option.splits)
    then obtain pre post where fb: "old = pre @ rs @ post" "set (pre @ post) \<subseteq> R"
      using s old(1) by (auto simp: forwards_only_def)
    from old(2) have "\<exists>pre post. new = pre @ rs @ post \<and> set (pre @ post) \<subseteq> R"
    proof
      assume "new = r # old"
      then show ?thesis using fb r(1) by (intro exI [of _ "r # pre"] exI [of _ post]) simp
    next
      assume "new = old @ [r]"
      then show ?thesis using fb r(1) by (intro exI [of _ pre] exI [of _ "post @ [r]"]) simp
    qed
    then show ?thesis using s s' tc rs by (auto simp: forwards_only_def)
  qed
qed

lemma run_forwards:
  assumes "\<And>s. forwards_only R T (tables s) \<Longrightarrow> forwards_only R T (tables (snd (run cmd s)))"
  shows "stable (\<lambda>s. forwards_only R T (tables s)) (cmd_Run run cmd)"
  using assms by (auto simp: stable_def cmd_Run_def split: prod.splits) (metis snd_conv)+

lemma nat_forwards:
  assumes laws: "iptables_laws run tables parse valid"
  shows "stable (\<lambda>s. forwards_only R T (tables s)) (ensureChain run c)" "stable (\<lambda>s. forwards_only R T (tables s)) (flushChain run c)"
    "stable (\<lambda>s. forwards_only R T (tables s)) (deleteJumpRule run c proto port)"
    "stable (\<lambda>s. forwards_only R T (tables s)) (addJumpRule run c proto port)"
    "stable (\<lambda>s. forwards_only R T (tables s)) (addEndpointRule run c addr target proto share)"
proof -
  let ?P = "\<lambda>s. forwards_only R T (tables s)"
  note cmds = laws_cmds [OF laws, where t = "''nat''", unfolded ipt_def, simplified]
  have o: "opt_spec (jump_spec c proto port)" "opt_spec (local_spec c proto port)" "opt_spec (endpoint_spec addr target proto share)"
    by (simp_all add: local_spec_def jump_spec_def endpoint_spec_def opt_spec_def has_prefix_def)
  have new: "stable ?P (cmd_Run run [''iptables'', ''-t'', ''nat'', ''-N'', c])"
    and flush: "stable ?P (cmd_Run run [''iptables'', ''-t'', ''nat'', ''-F'', c])"
    by (rule run_forwards, rule command_forwards [OF cmds(1)] command_forwards [OF cmds(2)], assumption, simp)+
  have add: "stable ?P (cmd_Run run (''iptables'' # ''-t'' # ''nat'' # ''-A'' # x # spec))" if "opt_spec spec" for x spec
    by (rule run_forwards, rule command_forwards [OF cmds(3) [OF that]], assumption, simp)
  have del: "stable ?P (cmd_Run run (''iptables'' # ''-t'' # ''nat'' # ''-D'' # x # spec))" if "opt_spec spec" for x spec
    by (rule run_forwards, rule command_forwards [OF cmds(6) [OF that]], assumption, simp)
  show "stable ?P (ensureChain run c)" unfolding ensureChain_def by (intro stable_intros new)
  show "stable ?P (flushChain run c)" unfolding flushChain_def by (rule flush)
  show "stable ?P (deleteJumpRule run c proto port)" unfolding deleteJumpRule_def using del o by (simp add: stable_seq stable_ignore)
  show "stable ?P (addJumpRule run c proto port)" unfolding addJumpRule_def using add o by (simp add: stable_seq)
  show "stable ?P (addEndpointRule run c addr target proto share)" unfolding addEndpointRule_def using add o by simp
qed

lemma accept_forwards:
  assumes laws: "iptables_laws run tables parse valid" and R: "parse ` set (forward_specs ep port proto) \<subseteq> R"
  shows "stable (\<lambda>s. forwards_only R T (tables s)) (addForwardRules run ep port proto)"
proof (cases "ep_HostInterface ep = [] \<or> ep_Bridge ep = []")
  case False
  let ?P = "\<lambda>s. forwards_only R T (tables s)"
  note ins = laws_cmds(5) [OF laws, where t = "''filter''" and c = "''FORWARD''", unfolded ipt_def, simplified]
    and app = laws_cmds(3) [OF laws, where t = "''filter''" and c = "''FORWARD''", unfolded ipt_def, simplified]
  have i: "stable ?P (cmd_Run run (''iptables'' # ''-I'' # ''FORWARD'' # ''1'' # spec))" if "opt_spec spec" "parse spec \<in> R" for spec
    by (rule run_forwards, rule command_forwards [OF ins [OF that(1)]], assumption) (use that(2) in blast)
  have a: "stable ?P (cmd_Run run (''iptables'' # ''-A'' # ''FORWARD'' # spec))" if "opt_spec spec" "parse spec \<in> R" for spec
    by (rule run_forwards, rule command_forwards [OF app [OF that(1)]], assumption) (use that(2) in blast)
  obtain x y z where s: "forward_specs ep port proto = [x, y, z]" using False by (auto simp: forward_specs_def)
  then have o: "opt_spec x" "opt_spec y" "opt_spec z"
    using False by (auto simp: forward_specs_def opt_spec_def has_prefix_def)
  have r: "parse x \<in> R" "parse y \<in> R" "parse z \<in> R" using R s by auto
  have eq: "addForwardRules run ep port proto = for_each (\<lambda>args. ignore (cmd_Run run (''iptables'' # args)))
      [''-I'' # ''FORWARD'' # ''1'' # x, ''-A'' # ''FORWARD'' # y, ''-A'' # ''FORWARD'' # z]"
    using False s by (auto simp: addForwardRules_def forward_specs_def)
  have "stable ?P (ignore (cmd_Run run (''iptables'' # args)))"
    if "args \<in> set [''-I'' # ''FORWARD'' # ''1'' # x, ''-A'' # ''FORWARD'' # y, ''-A'' # ''FORWARD'' # z]" for args
    using that i [OF o(1) r(1)] a [OF o(2) r(2)] a [OF o(3) r(3)] by (auto intro: stable_ignore)
  then show ?thesis unfolding eq by (rule stable_for_each_mem)
qed (simp add: addForwardRules_def stable_ret)

lemma service_forwards_only:
  assumes laws: "iptables_laws run tables parse valid"
  shows "stable (\<lambda>s. forwards_only (parse ` service_forwards es (filter routed ps)) T (tables s)) (for_each (apply_port run i es) ps)"
proof (rule stable_for_each_mem)
  fix p assume p: "p \<in> set ps"
  let ?P = "\<lambda>s. forwards_only (parse ` service_forwards es (filter routed ps)) T (tables s)"
  have ends: "fst x \<in> set es" if "x \<in> set (shares es)" for x using that by (auto simp: shares_def)
  show "stable ?P (apply_port run i es p)"
  proof (cases "routed p")
    case True
    have "stable ?P (case x of (ep, share) \<Rightarrow> seq (addEndpointRule run c (ep_Addr ep) (sp_TargetPort p) (port_proto p) share)
        (addForwardRules run ep (sp_TargetPort p) (port_proto p)))" if "x \<in> set (shares es)" for x c
    proof -
      obtain ep share where x: "x = (ep, share)" by (cases x)
      have "set (forward_specs ep (sp_TargetPort p) (port_proto p)) \<subseteq> service_forwards es (filter routed ps)"
        using ends [OF that] p True unfolding service_forwards_def by (auto simp: x)
      then have "parse ` set (forward_specs ep (sp_TargetPort p) (port_proto p)) \<subseteq> parse ` service_forwards es (filter routed ps)" by blast
      from accept_forwards [OF laws this] show ?thesis using nat_forwards(5) [OF laws] by (simp add: x stable_seq)
    qed
    then have "stable ?P (for_each (\<lambda>(ep, share). seq (addEndpointRule run c (ep_Addr ep) (sp_TargetPort p) (port_proto p) share)
        (addForwardRules run ep (sp_TargetPort p) (port_proto p))) (shares es))" for c
      by (rule stable_for_each_mem)
    then show ?thesis unfolding apply_port_def Let_def by (intro stable_if stable_ret stable_seq nat_forwards [OF laws])
  qed (auto simp: apply_port_def routed_def stable_ret)
qed

text \<open>C12: the rules of a service send each port to its endpoints: when the packet filter accepts the
  rules and the port numbers of the service differ, they are applied without error, the chain of every
  port holds one rule per endpoint in the order of the addresses and nothing else, the packets for the
  port are sent to it from outside and from the host, and the chains of the address translation that
  are not of this service keep their rules, the two entry chains gaining the jumps only.  Of all other
  tables, only the chain \<open>FORWARD\<close> changes: it keeps its rules in their order and gains accepting rules
  for the endpoints.\<close>

theorem service_rules_correct:
  assumes "iptables_laws run tables parse valid"
    and "distinct (map sp_Port (filter routed (sv_Ports svc)))" "list_all (port_valid valid (sv_ServiceId svc) es) (filter routed (sv_Ports svc))"
    and "nat_rules (tables h) ''PREROUTING'' \<noteq> None" "nat_rules (tables h) ''OUTPUT'' \<noteq> None"
  shows "\<exists>h'. applyRules run svc es h = (Inr (), h') \<and> sends parse (sv_ServiceId svc) es (sv_Ports svc) (nat_rules (tables h')) \<and>
    keeps_rules parse (sv_ServiceId svc) (sv_Ports svc) (nat_rules (tables h)) (nat_rules (tables h')) \<and>
    forwards_only (parse ` service_forwards es (filter routed (sv_Ports svc))) (tables h) (tables h')"
proof -
  obtain h' where h: "for_each (apply_port run (sv_ServiceId svc) es) (sv_Ports svc) h = (Inr (), h')"
    "sends parse (sv_ServiceId svc) es (sv_Ports svc) (nat_rules (tables h'))"
    "keeps_rules parse (sv_ServiceId svc) (sv_Ports svc) (nat_rules (tables h)) (nat_rules (tables h'))"
    using ports_effect [OF assms] by blast
  have "forwards_only (parse ` service_forwards es (filter routed (sv_Ports svc))) (tables h) (tables h')"
    using stableD [OF service_forwards_only [OF assms(1)] h(1) forwards_only_refl] .
  then show ?thesis unfolding applyRules_def using h by blast
qed

text \<open>The name of a chain does not have the protocol: of two ports with the same number, such as 53 over
  TCP and over UDP, the second empties the chain of the first.\<close>

lemma second_protocol_flushes:
  assumes laws: "iptables_laws run tables parse valid" and "routed p" "routed q" "sp_Port q = sp_Port p"
    and "port_valid valid i es p" "port_valid valid i es q" "nat_rules (tables h) ''PREROUTING'' \<noteq> None" "nat_rules (tables h) ''OUTPUT'' \<noteq> None"
  shows "\<exists>h'. for_each (apply_port run i es) [p, q] h = (Inr (), h') \<and>
    nat_rules (tables h') (port_chain i p) = Some (map parse (port_specs i es q))"
proof -
  obtain pre out where nat: "nat_rules (tables h) ''PREROUTING'' = Some pre" "nat_rules (tables h) ''OUTPUT'' = Some out" using assms(7,8) by blast
  obtain h1 where h1: "apply_port run i es p h = (Inr (), h1)"
    "nat_rules (tables h1) ''PREROUTING'' \<noteq> None" "nat_rules (tables h1) ''OUTPUT'' \<noteq> None"
    using apply_port_effect [OF laws assms(2,5) nat] chain_names [symmetric] by fastforce
  then obtain pre' out' where nat': "nat_rules (tables h1) ''PREROUTING'' = Some pre'" "nat_rules (tables h1) ''OUTPUT'' = Some out'" by blast
  obtain h2 where "apply_port run i es q h1 = (Inr (), h2)" "nat_rules (tables h2) (port_chain i q) = Some (map parse (port_specs i es q))"
    using apply_port_effect [OF laws assms(3,6) nat'] by fastforce
  then show ?thesis using h1(1) assms(4) by simp
qed

subsection \<open>Examples\<close>

definition demo_service :: ServiceInfo where
  "demo_service = \<lparr>sv_ServiceId = ''s1'', sv_Name = ''web'', sv_Namespace = ''default'', sv_Selector = [(''app'', ''web'')],
     sv_Ports = [\<lparr>sp_Port = 80, sp_TargetPort = 8080, sp_Protocol = ''TCP''\<rparr>], sv_CreatedAt = 1\<rparr>"

definition demo_ends :: "svcEndpoint list" where
  "demo_ends = map (\<lambda>a. \<lparr>ep_Addr = a, ep_HostInterface = ''eth0'', ep_Bridge = ''raind0''\<rparr>) [''10.166.0.1'', ''10.166.0.2'']"

lemma demo_specs: "port_specs ''s1'' demo_ends \<lparr>sp_Port = 80, sp_TargetPort = 8080, sp_Protocol = ''TCP''\<rparr> =
  [[''-p'', ''tcp'', ''-m'', ''statistic'', ''--mode'', ''random'', ''--probability'', ''0.5000'', ''-j'', ''DNAT'', ''--to-destination'', ''10.166.0.1:8080''],
   [''-p'', ''tcp'', ''-j'', ''DNAT'', ''--to-destination'', ''10.166.0.2:8080'']]"
proof -
  have n: "dec 8080 = ''8080''" "dec 5000 = ''5000''" "dec 0 = ''0''" by (simp_all add: dec_eval)
  have l: "to_lower ''TCP'' = ''tcp''" by (simp add: to_lower_def lower_char_def char_of_def bit_0)
  show ?thesis by (simp add: port_specs_def shares_def demo_ends_def endpoint_spec_def port_proto_def prob_text_def itoa_def n l upt_rec Let_def)
qed

theorem service_rules_correct_witness:
  "\<exists>h'. applyRules table_run demo_service demo_ends (\<lambda>k. Some []) = (Inr (), h') \<and>
     h' (''nat'', ''RAIND-SVC-s1-80'') = Some
       [[''-p'', ''tcp'', ''-m'', ''statistic'', ''--mode'', ''random'', ''--probability'', ''0.5000'', ''-j'', ''DNAT'', ''--to-destination'', ''10.166.0.1:8080''],
        [''-p'', ''tcp'', ''-j'', ''DNAT'', ''--to-destination'', ''10.166.0.2:8080'']]"
proof -
  have c: "serviceChainName ''s1'' 80 = ''RAIND-SVC-s1-80''" by (simp add: serviceChainName_def itoa_def dec_eval)
  have i: "sv_ServiceId demo_service = ''s1''" by (simp add: demo_service_def)
  have "distinct (map sp_Port (filter routed (sv_Ports demo_service)))"
    "list_all (port_valid (\<lambda>s. True) (sv_ServiceId demo_service) demo_ends) (filter routed (sv_Ports demo_service))"
    by (simp_all add: demo_service_def port_valid_def list_all_iff)
  from service_rules_correct [OF table_laws this, of "\<lambda>k. Some []"]
  obtain h' where h: "applyRules table_run demo_service demo_ends (\<lambda>k. Some []) = (Inr (), h')"
    "sends (\<lambda>s. s) ''s1'' demo_ends (sv_Ports demo_service) (nat_rules h')" unfolding i by (auto simp: nat_rules_def)
  then show ?thesis by (auto simp: sends_def demo_service_def routed_def demo_specs c nat_rules_def)
qed

theorem service_pass_settles_witness:
  "\<exists>m' h. svc_reconcileOnce posting_world \<lparr>lastState = [(''s0'', ''x'')], lastPorts = []\<rparr>
       (demo_machine\<lparr>d_ssm := \<lparr>sst_Version = ''0.1.0'', Services = [(''s1'', demo_service)]\<rparr>\<rparr>) =
         (Inr m', demo_machine\<lparr>d_ssm := \<lparr>sst_Version = ''0.1.0'', Services = [(''s1'', demo_service)]\<rparr>, d_host := h\<rparr>) \<and>
     map_of (lastState m') ''s0'' = None"
proof -
  let ?d = "demo_machine\<lparr>d_ssm := \<lparr>sst_Version = ''0.1.0'', Services = [(''s1'', demo_service)]\<rparr>\<rparr>"
  have "io_ok ?d" "ssm_inv (d_ssm ?d)" by (simp_all add: io_ok_def demo_machine_def demo_daemon_def ssm_inv_def keyed_def demo_service_def)
  from service_pass_settles [OF this, of posting_world "\<lparr>lastState = [(''s0'', ''x'')], lastPorts = []\<rparr>"]
  show ?thesis by (auto simp: map_of_eq_None_iff)
qed

text \<open>The name of a chain has eight characters of the identifier, the time stamp of a ULID: services
  created within the same second and with the same port share a chain.\<close>

lemma service_chains_collide: "length stamp = 8 \<Longrightarrow> serviceChainName (stamp @ a) port = serviceChainName (stamp @ b) port"
  by (cases "a = []"; cases "b = []") (simp_all add: serviceChainName_def)

text \<open>Every rule but the last is taken with the same probability, although it is only reached when
  the rules before it were not taken: of three endpoints the second gets two ninths of the connections.\<close>

lemma unequal_shares: "map snd (shares [a, b, c]) = [Some 3, Some 3, None]"
  by (simp add: shares_def upt_rec)

end
