(* ===== verification/Enriched_Log.thy ===== *)
theory Enriched_Log
  imports Policy_Commit Ipam_Facts Layers
begin

text \<open>
  The packet log (\<open>src/internal/enriched_log/service.go\<close>): records of the packet filter get the
  containers of their addresses and the policy that caused them, and go to a log file that is
  rotated.  The records name the policy by the prefix that the rules of the policy service carry.
\<close>

subsection \<open>Addresses to containers: the resolver\<close>

record ContainerMeta =
  cm_ContainerId :: string
  cm_ContainerName :: string
  cm_Ipv4 :: string
  cm_Veth :: string
  cm_SpiffeId :: string

definition no_meta :: ContainerMeta where
  "no_meta = \<lparr>cm_ContainerId = '''', cm_ContainerName = '''', cm_Ipv4 = '''', cm_Veth = '''', cm_SpiffeId = ''''\<rparr>"

text \<open>The loops of \<open>NewResolver\<close> and \<open>Refresh\<close>; only the second passes over an allocation whose
  container has no name.\<close>

fun resolve_addrs ::
  "bool \<Rightarrow> (string \<times> Allocation) list \<Rightarrow> (string, ContainerMeta) gomap \<Rightarrow> ((string, ContainerMeta) gomap, 'h daemon) act" where
  "resolve_addrs strict [] m = ret m"
| "resolve_addrs strict ((addr, info) # rest) m =
     (if map_of m addr \<noteq> None then resolve_addrs strict rest m
      else bnd (attempt (csm_do (query (GetContainerNameById (ContainerId info))))) (\<lambda>containerName.
        if strict \<and> \<not> is_ok containerName then resolve_addrs strict rest m
        else bnd (or_zero '''' (csm_do (query (GetSpiffeById (ContainerId info))))) (\<lambda>spiffeId.
          resolve_addrs strict rest (mput addr
            \<lparr>cm_ContainerId = ContainerId info, cm_ContainerName = (case containerName of Inr n \<Rightarrow> n | Inl _ \<Rightarrow> ''''), cm_Ipv4 = addr,
             cm_Veth = al_Interface info, cm_SpiffeId = spiffeId\<rparr> m))))"

definition all_allocs :: "Pool list \<Rightarrow> (string \<times> Allocation) list" where
  "all_allocs pool = concat (map allocs pool)"

definition NewResolver :: "((string, ContainerMeta) gomap, 'h daemon) act" where
  "NewResolver = bnd (or_zero [] (ipam_do (query GetPoolList))) (\<lambda>pool. resolve_addrs False (all_allocs pool) [])"

definition Refresh :: "((string, ContainerMeta) gomap, 'h daemon) act" where
  "Refresh = bnd (or_zero [] (ipam_do (query GetPoolList))) (\<lambda>pool. resolve_addrs True (all_allocs pool) [])"

subsection \<open>Records of the packet filter\<close>

text \<open>
  The values of a decoded JSON object.  Numbers are \<open>float64\<close>: \<open>J_whole\<close> for one that its conversion to
  \<open>int64\<close> gives back, \<open>J_fraction\<close> with that conversion and the text of \<open>%f\<close> for another; \<open>J_other\<close> has
  the text of \<open>%v\<close>.
\<close>

datatype json_value = J_null | J_string string | J_whole int | J_fraction int string | J_other string

type_synonym RawRecord = "(string, json_value) gomap"

definition rr_str :: "RawRecord \<Rightarrow> string \<Rightarrow> string" where
  "rr_str rr key =
     (case map_of rr key of
        None \<Rightarrow> '''' | Some J_null \<Rightarrow> '''' | Some (J_string t) \<Rightarrow> t | Some (J_whole v) \<Rightarrow> itoa v
      | Some (J_fraction v t) \<Rightarrow> t | Some (J_other t) \<Rightarrow> t)"

definition rr_int :: "RawRecord \<Rightarrow> string \<Rightarrow> int option" where
  "rr_int rr key =
     (case map_of rr key of Some (J_whole v) \<Rightarrow> Some v | Some (J_fraction v t) \<Rightarrow> Some v | _ \<Rightarrow> None)"

definition int_or_0 :: "int option \<Rightarrow> int" where
  "int_or_0 v = (case v of None \<Rightarrow> 0 | Some i \<Rightarrow> i)"

record log_Endpoint =
  le_Kind :: string
  le_Ip :: string
  le_Port :: int
  le_ContainerId :: string
  le_ContainerName :: string
  le_SpiffeId :: string
  le_Veth :: string

record log_Policy =
  lp_Source :: string
  lp_Id :: string

record Enriched =
  en_GeneratedTS :: string
  en_ReceivedTS :: string
  en_EventType :: string
  en_Policy :: log_Policy
  en_Kind :: string
  en_Verdict :: string
  en_Proto :: string
  en_Src :: log_Endpoint
  en_Dst :: log_Endpoint
  en_ICMP :: "(string, int) gomap"
  en_RuleHint :: string
  en_RawHash :: string
  en_Unresolved :: bool
  en_Reason :: string

definition ipProtoToName :: "int \<Rightarrow> string" where
  "ipProtoToName ipProto =
     (if ipProto = 6 then ''TCP'' else if ipProto = 17 then ''UDP'' else if ipProto = 1 then ''ICMP''
      else if ipProto = 58 then ''ICMPV6'' else if ipProto \<noteq> 0 then ''IPPROTO_'' @ itoa ipProto else ''UNKNOWN'')"

text \<open>The kind, the verdict and the policy that a prefix tells; a prefix of another form is indexed out of range.\<close>

definition classify :: "string \<Rightarrow> (string \<times> string \<times> string) result" where
  "classify prefix =
     (case split_n2 (CHR '','') prefix of
        [_, rest] \<Rightarrow> (case split_n2 (CHR ''='') rest of
          [_, policyId] \<Rightarrow>
            (let p = to_upper prefix in
             Inr (if str_contains p ''EW'' \<and> str_contains p ''ALLOW'' then (''east-west'', ''allow'', policyId)
                  else if str_contains p ''EW'' \<and> str_contains p ''DENY'' then (''east-west'', ''deny'', policyId)
                  else if str_contains p ''NS'' \<and> str_contains p ''ALLOW'' then (''north-south'', ''allow'', policyId)
                  else if str_contains p ''NS'' \<and> str_contains p ''DENY'' then (''north-south'', ''deny'', policyId)
                  else (''unknown'', ''unknown'', ''unknown'')))
        | _ \<Rightarrow> Inl (Panic ''index out of range''))
      | _ \<Rightarrow> Inl (Panic ''index out of range''))"

text \<open>\<open>net.ParseIP\<close> on IPv6 text, for the addresses that \<open>To4\<close> turns into IPv4 ones: eight fields of up to
  four hexadecimal digits, a run of zero fields written \<open>::\<close>, the last two fields possibly a dotted quad.\<close>

definition hex_val :: "char \<Rightarrow> nat option" where
  "hex_val c =
     (let n = (of_char c :: nat) in
      if 48 \<le> n \<and> n \<le> 57 then Some (n - 48) else if 97 \<le> n \<and> n \<le> 102 then Some (n - 87)
      else if 65 \<le> n \<and> n \<le> 70 then Some (n - 55) else None)"

definition hex_field :: "string \<Rightarrow> nat option" where
  "hex_field s =
     (if s = [] \<or> length s > 4 then None
      else fold (\<lambda>c acc. case (acc, hex_val c) of (Some n, Some d) \<Rightarrow> Some (16 * n + d) | _ \<Rightarrow> None) s (Some 0))"

definition quad_fields :: "string \<Rightarrow> nat list option" where
  "quad_fields s = (case ParseIP4 s of None \<Rightarrow> None | Some ip \<Rightarrow> Some [unat ip div 65536, unat ip mod 65536])"

fun ip6_fields :: "bool \<Rightarrow> string list \<Rightarrow> nat list option" where
  "ip6_fields tail [] = Some []"
| "ip6_fields tail (p # ps) =
     (case (case hex_field p of Some n \<Rightarrow> Some [n] | None \<Rightarrow> if tail \<and> ps = [] then quad_fields p else None) of
        None \<Rightarrow> None
      | Some fs \<Rightarrow> map_option (\<lambda>gs. fs @ gs) (ip6_fields tail ps))"

text \<open>The text before and after the first \<open>::\<close>.\<close>

fun cut_ellipsis :: "string \<Rightarrow> (string \<times> string) option" where
  "cut_ellipsis (a # b # s) =
     (if a = CHR '':'' \<and> b = CHR '':'' then Some ([], s) else map_option (\<lambda>(x, y). (a # x, y)) (cut_ellipsis (b # s)))"
| "cut_ellipsis _ = None"

definition ParseIP6 :: "string \<Rightarrow> nat list option" where
  "ParseIP6 s =
     (let parts = (\<lambda>t. if t = [] then [] else split_on (CHR '':'') t) in
      case cut_ellipsis s of
        None \<Rightarrow> (case ip6_fields True (parts s) of Some fs \<Rightarrow> if length fs = 8 then Some fs else None | None \<Rightarrow> None)
      | Some (a, b) \<Rightarrow> (case (ip6_fields False (parts a), ip6_fields True (parts b)) of
          (Some fs, Some gs) \<Rightarrow>
            if length fs + length gs < 8 then Some (fs @ replicate (8 - length fs - length gs) 0 @ gs) else None
        | _ \<Rightarrow> None))"

text \<open>\<open>net.ParseIP(s).To4()\<close>.\<close>

definition ParseIP_To4 :: "string \<Rightarrow> ip option" where
  "ParseIP_To4 s =
     (case ParseIP4 s of
        Some ip \<Rightarrow> Some ip
      | None \<Rightarrow> (case ParseIP6 s of
          Some fs \<Rightarrow> if take 6 fs = [0, 0, 0, 0, 0, 65535] then Some (word_of_nat (65536 * fs ! 6 + fs ! 7)) else None
        | None \<Rightarrow> None))"

definition isInRuntimeSubnet :: "ipnet \<Rightarrow> string \<Rightarrow> bool" where
  "isInRuntimeSubnet subnet ipStr0 =
     (let ipStr = trim_space ipStr0 in
      if ipStr = [] then False else (case ParseIP_To4 ipStr of None \<Rightarrow> False | Some v4 \<Rightarrow> net_contains subnet v4))"

text \<open>One endpoint: the two blocks for source and destination are the same.\<close>

definition log_endpoint :: "ipnet \<Rightarrow> (string, ContainerMeta) gomap \<Rightarrow> string \<Rightarrow> int \<Rightarrow> log_Endpoint" where
  "log_endpoint subnet resolveMap ip port =
     (let e = \<lparr>le_Kind = ''unknown'', le_Ip = ip, le_Port = port, le_ContainerId = '''', le_ContainerName = '''', le_SpiffeId = '''', le_Veth = ''''\<rparr> in
      if ip = [] then e
      else if isInRuntimeSubnet subnet ip then
        (let m = (case map_of resolveMap ip of Some x \<Rightarrow> x | None \<Rightarrow> no_meta) in
         e\<lparr>le_Kind := (if map_of resolveMap ip = None then ''container_unresolved'' else ''container''), le_ContainerId := cm_ContainerId m,
           le_ContainerName := cm_ContainerName m, le_Veth := cm_Veth m, le_SpiffeId := cm_SpiffeId m\<rparr>)
      else e\<lparr>le_Kind := ''external''\<rparr>)"

definition icmp_field :: "RawRecord \<Rightarrow> string \<Rightarrow> string \<Rightarrow> (string, int) gomap" where
  "icmp_field rr key name = (case rr_int rr key of Some v \<Rightarrow> [(name, v)] | None \<Rightarrow> [])"

text \<open>\<open>now\<close> is the formatted time and \<open>hash\<close> the SHA-256 of a text in hexadecimal.\<close>

definition enrich ::
  "(string \<Rightarrow> string) \<Rightarrow> ipnet \<Rightarrow> (string, ContainerMeta) gomap \<Rightarrow> string \<Rightarrow> RawRecord \<Rightarrow> string \<Rightarrow> Enriched result" where
  "enrich hash subnet resolveMap now rr rawLine =
     (let prefix = rr_str rr ''oob.prefix''; srcIp = rr_str rr ''src_ip''; dstIp = rr_str rr ''dest_ip'';
          proto = ipProtoToName (int_or_0 (rr_int rr ''ip.protocol'')) in
      bind_res (classify prefix) (\<lambda>(kind, verdict, policyId).
      let src = log_endpoint subnet resolveMap srcIp (int_or_0 (rr_int rr ''src_port''));
          dst = log_endpoint subnet resolveMap dstIp (int_or_0 (rr_int rr ''dest_port''));
          icmp = (if proto = ''ICMP'' \<or> proto = ''ICMPV6''
                  then icmp_field rr ''icmp.type'' ''type'' @ icmp_field rr ''icmp.code'' ''code'' @ icmp_field rr ''icmp.ecchoseq'' ''seq'' else []);
          reasons = (if isInRuntimeSubnet subnet srcIp \<and> le_ContainerId src = [] then [''src ip not mapped''] else []) @
                    (if isInRuntimeSubnet subnet dstIp \<and> le_ContainerId dst = [] then [''dst ip not mapped''] else []) in
      Inr \<lparr>en_GeneratedTS = rr_str rr ''timestamp'', en_ReceivedTS = now, en_EventType = ''log.netflow'',
           en_Policy = (if policyId = ''predefined'' then \<lparr>lp_Source = ''predefined'', lp_Id = ''''\<rparr> else \<lparr>lp_Source = ''user'', lp_Id = policyId\<rparr>),
           en_Kind = kind, en_Verdict = verdict, en_Proto = proto, en_Src = src, en_Dst = dst, en_ICMP = icmp, en_RuleHint = prefix,
           en_RawHash = hash rawLine, en_Unresolved = (reasons \<noteq> []), en_Reason = str_join ''; '' reasons\<rparr>))"

subsection \<open>The log file\<close>

text \<open>
  \<open>lg_open\<close> opens a file for appending, creating it when it is missing, and gives its size (0 when \<open>Stat\<close>
  fails); \<open>lg_append\<close> is what writing and flushing a text does to it, errors being dropped; the JSON
  functions, the hash and the formatted time are parameters too.
\<close>

record 'h log_env =
  lg_os :: "'h os"
  lg_open :: "string \<Rightarrow> (int, 'h) act"
  lg_append :: "string \<Rightarrow> string \<Rightarrow> 'h \<Rightarrow> 'h"
  lg_decode :: "string \<Rightarrow> RawRecord result"
  lg_encode :: "Enriched \<Rightarrow> string result"
  lg_hash :: "string \<Rightarrow> string"
  lg_now :: "'h \<Rightarrow> string \<times> 'h"

text \<open>The output of the enricher; \<open>er_open\<close> is false after a rotation that could not open the new file.\<close>

record 'h enricher =
  er_OutPath :: string
  er_size :: int
  er_open :: bool
  er_host :: 'h

definition er_do :: "('a, 'h) act \<Rightarrow> ('a, 'h enricher) act" where
  "er_do m e = (case m (er_host e) of (r, h) \<Rightarrow> (r, e\<lparr>er_host := h\<rparr>))"

abbreviation enrichedMaxBytes :: int where "enrichedMaxBytes \<equiv> 52428800"
abbreviation enrichedMaxBackups :: nat where "enrichedMaxBackups \<equiv> 5"

definition open_output :: "'h log_env \<Rightarrow> bool \<Rightarrow> (unit, 'h enricher) act" where
  "open_output env fresh e =
     (case lg_open env (er_OutPath e) (er_host e) of
        (Inl x, h) \<Rightarrow> (Inl x, e\<lparr>er_open := er_open e \<and> \<not> fresh, er_host := h\<rparr>)
      | (Inr sz, h) \<Rightarrow> (Inr (), e\<lparr>er_open := True, er_size := (if fresh then 0 else sz), er_host := h\<rparr>))"

definition OpenOutput :: "'h log_env \<Rightarrow> (unit, 'h enricher) act" where
  "OpenOutput env = (\<lambda>e. seq (er_do (os_do (lg_os env) (Os_MkdirAll (path_dir (er_OutPath e)) 488))) (open_output env False) e)"

definition backup_name :: "string \<Rightarrow> nat \<Rightarrow> string" where
  "backup_name path i = path @ ''.'' @ dec i"

definition shift_backup :: "'h os \<Rightarrow> string \<Rightarrow> nat \<Rightarrow> (unit, 'h) act" where
  "shift_backup os path i h =
     (if os_stat os (backup_name path i) h \<in> {Stat_dir, Stat_other}
      then ignore (os_do os (Os_Rename (backup_name path i) (backup_name path (i + 1)))) h else (Inr (), h))"

definition shift_backups :: "'h os \<Rightarrow> string \<Rightarrow> (unit, 'h) act" where
  "shift_backups os path =
     seq (ignore (os_do os (Os_Remove (backup_name path enrichedMaxBackups))))
    (seq (for_each (shift_backup os path) (rev [1..<enrichedMaxBackups]))
         (ignore (os_do os (Os_Rename path (backup_name path 1)))))"

definition rotate_log :: "'h log_env \<Rightarrow> (unit, 'h enricher) act" where
  "rotate_log env = (\<lambda>e. seq (er_do (shift_backups (lg_os env) (er_OutPath e))) (open_output env True) e)"

definition rotateIfNeeded :: "'h log_env \<Rightarrow> int \<Rightarrow> (unit, 'h enricher) act" where
  "rotateIfNeeded env nextBytes e = (if er_size e + nextBytes \<le> enrichedMaxBytes then (Inr (), e) else rotate_log env e)"

definition write_entry :: "'h log_env \<Rightarrow> string \<Rightarrow> (unit, 'h enricher) act" where
  "write_entry env b e =
     (Inr (), e\<lparr>er_size := er_size e + int (length b + 1),
        er_host := (if er_open e then lg_append env (er_OutPath e) (b @ [newline]) (er_host e) else er_host e)\<rparr>)"

definition HandleRawLine :: "'h log_env \<Rightarrow> ipnet \<Rightarrow> (string, ContainerMeta) gomap \<Rightarrow> string \<Rightarrow> (unit, 'h enricher) act" where
  "HandleRawLine env subnet resolveMap line =
     (if line = [] then ret ()
      else case lg_decode env line of
        Inl _ \<Rightarrow> ret ()
      | Inr rr \<Rightarrow>
          bnd (er_do (\<lambda>h. case lg_now env h of (t, h') \<Rightarrow> (Inr t, h'))) (\<lambda>now.
          bnd (lift_res (enrich (lg_hash env) subnet resolveMap now rr line)) (\<lambda>en.
            case lg_encode env en of
              Inl _ \<Rightarrow> ret ()
            | Inr b \<Rightarrow>
                bnd (attempt (rotateIfNeeded env (int (length b + 1)))) (\<lambda>r.
                  case r of Inl _ \<Rightarrow> ret () | Inr _ \<Rightarrow> write_entry env b))))"

text \<open>The lines that the tailer reads, with the resolver's map at that time; a panic ends the daemon.\<close>

fun log_lines :: "'h log_env \<Rightarrow> ipnet \<Rightarrow> ((string, ContainerMeta) gomap \<times> string) list \<Rightarrow> (unit, 'h enricher) act" where
  "log_lines env subnet [] = ret ()"
| "log_lines env subnet ((m, line) # rest) = seq (HandleRawLine env subnet m (trim_space line)) (log_lines env subnet rest)"

subsection \<open>The log names the policy and its verdict\<close>

lemma to_upper_append: "to_upper (s @ t) = to_upper s @ to_upper t"
  by (simp add: to_upper_def)

lemma upper_prefixes:
  "to_upper ''RAIND-EW-ALLOW,id='' = ''RAIND-EW-ALLOW,ID=''" "to_upper ''RAIND-EW-DENY,id='' = ''RAIND-EW-DENY,ID=''"
  "to_upper ''RAIND-NS-ALLOW,id='' = ''RAIND-NS-ALLOW,ID=''" "to_upper ''RAIND-NS-DENY,id='' = ''RAIND-NS-DENY,ID=''"
  "to_upper ''predefined'' = ''PREDEFINED''"
  by code_simp+

lemma prefix_contains:
  "str_contains (''RAIND-NS-ALLOW,ID='' @ x) ''EW'' = str_contains x ''EW''"
  "str_contains (''RAIND-NS-DENY,ID='' @ x) ''EW'' = str_contains x ''EW''"
  "str_contains (''RAIND-NS-DENY,ID='' @ x) ''ALLOW'' = str_contains x ''ALLOW''"
  "str_contains (''RAIND-EW-DENY,ID='' @ x) ''ALLOW'' = str_contains x ''ALLOW''"
  "str_contains (''RAIND-EW-ALLOW,ID='' @ x) ''EW''" "str_contains (''RAIND-EW-ALLOW,ID='' @ x) ''ALLOW''"
  "str_contains (''RAIND-EW-DENY,ID='' @ x) ''EW''" "str_contains (''RAIND-EW-DENY,ID='' @ x) ''DENY''"
  "str_contains (''RAIND-NS-ALLOW,ID='' @ x) ''NS''" "str_contains (''RAIND-NS-ALLOW,ID='' @ x) ''ALLOW''"
  "str_contains (''RAIND-NS-DENY,ID='' @ x) ''NS''" "str_contains (''RAIND-NS-DENY,ID='' @ x) ''DENY''"
  by (simp_all add: has_prefix_def)

text \<open>The prefixes of the rules; an identifier with \<open>EW\<close> or \<open>ALLOW\<close> in it would mislead the classification.\<close>

definition plain_id :: "string \<Rightarrow> bool" where
  "plain_id i \<longleftrightarrow> \<not> str_contains (to_upper i) ''EW'' \<and> \<not> str_contains (to_upper i) ''ALLOW''"

lemma classify_prefixes:
  "classify (''RAIND-EW-ALLOW,id='' @ i) = Inr (''east-west'', ''allow'', i)"
  "plain_id i \<Longrightarrow> classify (''RAIND-EW-DENY,id='' @ i) = Inr (''east-west'', ''deny'', i)"
  "plain_id i \<Longrightarrow> classify (''RAIND-NS-ALLOW,id='' @ i) = Inr (''north-south'', ''allow'', i)"
  "plain_id i \<Longrightarrow> classify (''RAIND-NS-DENY,id='' @ i) = Inr (''north-south'', ''deny'', i)"
  unfolding classify_def Let_def to_upper_append upper_prefixes prefix_contains
  by (simp_all add: split_n2_def plain_id_def has_prefix_def)

lemma plain_predefined: "plain_id ''predefined''"
  by (simp add: plain_id_def upper_prefixes has_prefix_def)

text \<open>Policy identifiers are ULIDs, which can contain \<open>EW\<close>: a denied north-south connection is then logged
  as an east-west one.\<close>

lemma ulid_misclassified: "classify (''RAIND-NS-DENY,id='' @ ''01JEW0000000000000000000AB'') = Inr (''east-west'', ''deny'', ''01JEW0000000000000000000AB'')"
  by code_simp

text \<open>A record with another prefix ends the daemon.\<close>

lemma foreign_prefix_panics: "CHR '','' \<notin> set prefix \<Longrightarrow> classify prefix = Inl (Panic ''index out of range'')"
  by (simp add: classify_def split_n2_def str_cut_None [THEN iffD2])

definition chain_kind :: "string \<Rightarrow> string" where
  "chain_kind c = (if c = ''RAIND-EW'' then ''east-west'' else ''north-south'')"

definition logged_as :: "Enriched result \<Rightarrow> string \<Rightarrow> string \<Rightarrow> log_Policy \<Rightarrow> bool" where
  "logged_as r kind verdict policy \<longleftrightarrow> (case r of Inl e \<Rightarrow> False | Inr en \<Rightarrow> en_Kind en = kind \<and> en_Verdict en = verdict \<and> en_Policy en = policy)"

lemma enrich_class:
  assumes "classify (rr_str rr ''oob.prefix'') = Inr (kind, verdict, i)"
  shows "logged_as (enrich hash subnet m now rr line) kind verdict
    (if i = ''predefined'' then \<lparr>lp_Source = ''predefined'', lp_Id = ''''\<rparr> else \<lparr>lp_Source = ''user'', lp_Id = i\<rparr>)"
  using assms by (simp add: enrich_def Let_def logged_as_def)

definition by_policy :: "string \<Rightarrow> log_Policy" where
  "by_policy i = \<lparr>lp_Source = ''user'', lp_Id = i\<rparr>"

definition by_default :: log_Policy where
  "by_default = \<lparr>lp_Source = ''predefined'', lp_Id = ''''\<rparr>"

lemma user_rule_class:
  assumes "plain_id (pol_Id p)" "c \<in> set policy_chains" "verdict_of c ip cs logging p = Inr rules" "(r, ''NFLOG'') \<in> set rules"
  shows "classify (r_NflogPrefix r) = Inr (chain_kind c, if snd (hd rules) = ''ACCEPT'' then ''allow'' else ''deny'', pol_Id p)"
  using assms classify_prefixes [of "pol_Id p"]
  by (auto simp: policy_chains_def verdict_of_def ew_verdict_def ns_verdict_def Let_def logged_def ew_nflog_def ns_nflog_def ns_action_def
      chain_kind_def ew_accept_def ns_rule_def rule0_def split: sum.splits if_splits)

lemma predefined_prefixes:
  "(r, ''NFLOG'') \<in> set (ew_rules nets logging) \<Longrightarrow> r_NflogPrefix r = ''RAIND-EW-DENY,id='' @ ''predefined''"
  "(r, ''NFLOG'') \<in> set (obs_rules host nets logging) \<Longrightarrow> r_NflogPrefix r = ''RAIND-NS-ALLOW,id='' @ ''predefined''"
  "(r, ''NFLOG'') \<in> set (enf_rules host nets logging) \<Longrightarrow> r_NflogPrefix r = ''RAIND-NS-DENY,id='' @ ''predefined''"
  by (auto simp: ew_rules_def obs_rules_def enf_rules_def logged_def split: if_splits)

text \<open>C23: the packet log tells the truth about policies.  A record that the packet filter wrote for a rule
  of a user policy is logged with the kind of the policy's chain, with the verdict of the rule that stands
  beside the logging rule (allowed when that rule accepts, denied when it drops) and with the identifier of
  the policy; a record of a predefined logging rule is logged as predefined, denied in the east-west and in
  the enforcing chain and allowed in the observing one.  Identifiers are assumed not to contain \<open>EW\<close> or \<open>ALLOW\<close>.\<close>

theorem log_attribution:
  assumes "plain_id (pol_Id p)" "pol_Id p \<noteq> ''predefined''" "c \<in> set policy_chains" "verdict_of c ip cs logging p = Inr rules"
  shows "(\<forall>r rr. (r, ''NFLOG'') \<in> set rules \<and> rr_str rr ''oob.prefix'' = r_NflogPrefix r \<longrightarrow>
      logged_as (enrich hash subnet m now rr line) (chain_kind c) (if snd (hd rules) = ''ACCEPT'' then ''allow'' else ''deny'') (by_policy (pol_Id p))) \<and>
    (\<forall>r rr. (r, ''NFLOG'') \<in> set (ew_rules nets logging) \<and> rr_str rr ''oob.prefix'' = r_NflogPrefix r \<longrightarrow>
      logged_as (enrich hash subnet m now rr line) ''east-west'' ''deny'' by_default) \<and>
    (\<forall>r rr. (r, ''NFLOG'') \<in> set (obs_rules host nets logging) \<and> rr_str rr ''oob.prefix'' = r_NflogPrefix r \<longrightarrow>
      logged_as (enrich hash subnet m now rr line) ''north-south'' ''allow'' by_default) \<and>
    (\<forall>r rr. (r, ''NFLOG'') \<in> set (enf_rules host nets logging) \<and> rr_str rr ''oob.prefix'' = r_NflogPrefix r \<longrightarrow>
      logged_as (enrich hash subnet m now rr line) ''north-south'' ''deny'' by_default)"
proof -
  note pre = classify_prefixes(2-4) [OF plain_predefined]
  have user: "logged_as (enrich hash subnet m now rr line) kind verdict (by_policy (pol_Id p))"
    if "classify (rr_str rr ''oob.prefix'') = Inr (kind, verdict, pol_Id p)" for rr kind verdict
    using enrich_class [OF that] assms(2) by (simp add: by_policy_def)
  have predefined: "logged_as (enrich hash subnet m now rr line) kind verdict by_default"
    if "classify (rr_str rr ''oob.prefix'') = Inr (kind, verdict, ''predefined'')" for rr kind verdict
    using enrich_class [OF that] by (simp add: by_default_def)
  show ?thesis
    using user_rule_class [OF assms(1,3,4)] predefined_prefixes pre by (auto simp del: append.simps intro!: user predefined)
qed

theorem log_attribution_witness:
  "logged_as (enrich (\<lambda>s. s) runtime_net [] ''t'' [(''oob.prefix'', J_string ''RAIND-EW-ALLOW,id=p1'')] ''x'') ''east-west'' ''allow'' (by_policy ''p1'')"
proof -
  let ?p = "demo_policy ''p1''" and ?rr = "[(''oob.prefix'', J_string ''RAIND-EW-ALLOW,id=p1'')]"
  let ?rules = "[(ew_accept ?p ''rd_i1'' ''rd_i2'', ''ACCEPT''), (ew_nflog ?p ''rd_i1'' ''rd_i2'', ''NFLOG'')]"
  have v: "verdict_of ''RAIND-EW'' demo_ipam csm_demo True ?p = Inr ?rules"
    by (simp add: verdict_of_def ew_verdict_def Let_def demo_policy_def resolve_id_def csm_demo_def demo_container_def demo_ipam_eval logged_def
        GetContainerIdByName_def range_find_def)
  have i: "pol_Id ?p = ''p1''" by (simp add: demo_policy_def)
  have plain: "plain_id (pol_Id ?p)" unfolding i by code_simp
  show ?thesis
    using conjunct1 [OF log_attribution [OF plain _ _ v, of "\<lambda>s. s" runtime_net "[]" "''t''" "''x''"], rule_format, of "ew_nflog ?p ''rd_i1'' ''rd_i2''" ?rr]
    by (simp add: i policy_chains_def rr_str_def ew_nflog_def chain_kind_def)
qed

subsection \<open>The log names the containers\<close>

definition meta_of :: "ContainerState \<Rightarrow> string \<Rightarrow> Allocation \<Rightarrow> ContainerMeta" where
  "meta_of cs addr info =
     \<lparr>cm_ContainerId = ContainerId info, cm_ContainerName = (case GetContainerNameById (ContainerId info) cs of Inr n \<Rightarrow> n | Inl _ \<Rightarrow> ''''),
      cm_Ipv4 = addr, cm_Veth = al_Interface info, cm_SpiffeId = (case GetSpiffeById (ContainerId info) cs of Inr x \<Rightarrow> x | Inl _ \<Rightarrow> '''')\<rparr>"

definition has_name :: "ContainerState \<Rightarrow> string \<times> Allocation \<Rightarrow> bool" where
  "has_name cs e \<longleftrightarrow> is_ok (GetContainerNameById (ContainerId (snd e)) cs)"

text \<open>What the loop makes of an address: an entry it had, or the first allocation with a name.\<close>

definition resolved :: "bool \<Rightarrow> ContainerState \<Rightarrow> (string \<times> Allocation) list \<Rightarrow> (string, ContainerMeta) gomap \<Rightarrow> string \<Rightarrow> ContainerMeta option" where
  "resolved strict cs L m a =
     (case map_of m a of Some x \<Rightarrow> Some x
      | None \<Rightarrow> map_option (meta_of cs a) (map_of (filter (\<lambda>e. strict \<longrightarrow> has_name cs e) L) a))"

lemma resolved_skip:
  "map_of m addr \<noteq> None \<or> strict \<and> \<not> has_name cs (addr, info) \<Longrightarrow> resolved strict cs ((addr, info) # L) m = resolved strict cs L m"
  by (auto simp: resolved_def fun_eq_iff split: option.split)

lemma resolved_put:
  "map_of m addr = None \<Longrightarrow> (strict \<longrightarrow> has_name cs (addr, info)) \<Longrightarrow>
   resolved strict cs ((addr, info) # L) m = resolved strict cs L (mput addr (meta_of cs addr info) m)"
  by (auto simp: resolved_def fun_eq_iff split: option.split)

lemma csm_lookup:
  assumes "io_ok d"
  shows "attempt (csm_do (query (GetContainerNameById i))) d = (Inr (GetContainerNameById i (d_csm d)), d)"
    "or_zero '''' (csm_do (query (GetSpiffeById i))) d = (Inr (case GetSpiffeById i (d_csm d) of Inr x \<Rightarrow> x | Inl _ \<Rightarrow> ''''), d)"
  using assms
  by (auto simp: GetContainerNameById_def GetSpiffeById_def access_ok access_error or_zero_def split: option.splits)

lemma resolve_addrs_map:
  assumes "io_ok d"
  shows "\<exists>m'. resolve_addrs strict L m d = (Inr m', d) \<and> map_of m' = resolved strict (d_csm d) L m"
proof (induction L arbitrary: m)
  case Nil
  show ?case by (auto simp: resolved_def fun_eq_iff split: option.split)
next
  case (Cons e L)
  obtain addr info where e: "e = (addr, info)" by (cases e)
  show ?case
  proof (cases "map_of m addr \<noteq> None \<or> strict \<and> \<not> has_name (d_csm d) (addr, info)")
    case True
    then have "resolve_addrs strict (e # L) m d = resolve_addrs strict L m d"
      using csm_lookup [OF assms] by (auto simp: e has_name_def)
    with Cons [of m] show ?thesis unfolding e resolved_skip [OF True] by simp
  next
    case False
    let ?m = "mput addr (meta_of (d_csm d) addr info) m"
    have "resolve_addrs strict (e # L) m d = resolve_addrs strict L ?m d"
      using csm_lookup [OF assms] False by (auto simp: e has_name_def meta_of_def)
    with Cons [of ?m] False show ?thesis unfolding e by (subst resolved_put) auto
  qed
qed

lemma alloc_in_pools: "(a, al) \<in> set (all_allocs ps) \<longleftrightarrow> (\<exists>p \<in> set ps. (a, al) \<in> set (allocs p))"
  by (simp add: all_allocs_def)

lemma lookup_allocs:
  assumes "ipam_inv st"
  shows "map_of (filter P (all_allocs (Pools st))) a = (case alloc_view st a of Some (b, al) \<Rightarrow> if P (a, al) then Some al else None | None \<Rightarrow> None)"
proof (cases "map_of (filter P (all_allocs (Pools st))) a")
  case None
  then have "\<not> P (a, al)" if "(a, al) \<in> set (all_allocs (Pools st))" for al using that by (force simp: map_of_eq_None_iff)
  then show ?thesis using None alloc_view_iff [OF assms, of a] by (auto simp: alloc_in_pools split: option.split)
next
  case (Some al)
  then have "(a, al) \<in> set (all_allocs (Pools st))" "P (a, al)" by (auto dest: map_of_SomeD)
  then obtain p where "p \<in> set (Pools st)" "(a, al) \<in> set (allocs p)" "P (a, al)" by (auto simp: alloc_in_pools)
  then have "alloc_view st a = Some (pl_Interface p, al)" by (auto simp: alloc_view_iff [OF assms])
  then show ?thesis using Some \<open>P (a, al)\<close> by simp
qed

lemma info_by_ip: "GetInfoByIp a st = Inr (i, v) \<longleftrightarrow> (\<exists>b al. alloc_view st a = Some (b, al) \<and> i = ContainerId al \<and> v = al_Interface al)"
  by (auto simp: GetInfoByIp_def alloc_view_def split: option.splits)

lemma Refresh_map:
  assumes "io_ok d" "ipam_inv (d_ipam d)"
  obtains m where "Refresh d = (Inr m, d)"
    "\<And>a. map_of m a = (case alloc_view (d_ipam d) a of
       Some (b, al) \<Rightarrow> if has_name (d_csm d) (a, al) then Some (meta_of (d_csm d) a al) else None | None \<Rightarrow> None)"
proof -
  have "or_zero [] (ipam_do (query GetPoolList)) d = (Inr (Pools (d_ipam d)), d)" using assms(1) by (simp add: GetPoolList_def access_ok)
  moreover obtain m where "resolve_addrs True (all_allocs (Pools (d_ipam d))) [] d = (Inr m, d)"
    "map_of m = resolved True (d_csm d) (all_allocs (Pools (d_ipam d))) []"
    using resolve_addrs_map [OF assms(1), of True "all_allocs (Pools (d_ipam d))" "[]"] by blast
  ultimately show ?thesis
    using that [of m] by (simp add: Refresh_def resolved_def lookup_allocs [OF assms(2)] split: option.split)
qed

lemma trim_space_id: "\<forall>c \<in> set s. \<not> is_space c \<Longrightarrow> trim_space s = s"
  by (simp add: trim_space_def dropWhile_eq_self_iff) (metis dropWhile_eq_self_iff last_in_set last_rev list.set_sel(1) rev_is_Nil_conv rev_rev_ident set_rev)

lemma ip_string_no_space: "trim_space (ip_string y) = ip_string y"
proof (rule trim_space_id, rule ballI)
  fix c assume "c \<in> set (ip_string y)"
  then have "c = CHR ''.'' \<or> digit_val c \<noteq> None"
    using dec_chars by (auto simp: ip_string_def bytes_of_def)
  then show "\<not> is_space c" by (auto simp: is_space_def digit_val_def Let_def split: if_splits)
qed

lemma pool_address_in_runtime:
  assumes "ipam_inv st" "alloc_view st a = Some (b, al)"
  shows "isInRuntimeSubnet runtime_net a" "a \<noteq> []"
proof -
  obtain p where p: "p \<in> set (Pools st)" "(a, al) \<in> set (allocs p)" using assms by (auto simp: alloc_view_iff)
  have "pool_ok p" using assms(1) p(1) by (simp add: ipam_inv_def)
  then obtain x y where x: "256 dvd unat x" "net_contains runtime_net x" "a = ip_string y" "net_contains (net24 x) y"
    using p(2) by (force elim!: pool_okE simp: usable_def image_iff)
  have "unat x \<le> unat y" "unat y < unat x + 256" using wf_net_contains [of 24 "net24 x" y] x(1,4) by (simp_all add: wf_net24)
  moreover have "178651136 \<le> unat x" "unat x < 178651136 + 65536"
    using wf_net_contains [OF wf_runtime_net, of x] x(2) by (simp_all add: runtime_net_def)
  ultimately have "178651136 \<le> unat y" "unat y < 178651136 + 65536" using x(1) by presburger+
  then have y: "net_contains runtime_net y" using wf_net_contains [OF wf_runtime_net, of y] by (simp add: runtime_net_def)
  show "a \<noteq> []" using ParseIP4_ip_string [of y] unfolding x(3) by (auto simp: ParseIP4_def parse_octet_def undec_def)
  then show "isInRuntimeSubnet runtime_net a"
    using y unfolding x(3) by (simp add: isInRuntimeSubnet_def ip_string_no_space ParseIP_To4_def ParseIP4_ip_string)
qed

text \<open>C26: the packet log names the containers.  After a refresh, an endpoint whose address the address store
  holds for a container is logged with the identifier and the host interface that the store has for it and
  with the name and the identity of the container; an endpoint that is logged with a container is one of
  these; and the network the addresses are compared with is the one the store is configured with.\<close>

theorem log_endpoints_resolved:
  assumes "io_ok d" "ipam_inv (d_ipam d)"
  shows "\<exists>m. Refresh d = (Inr m, d) \<and> bind_res (GetRuntimeSubnet (d_ipam d)) (\<lambda>s. Inr (ParseCIDR4 s)) = Inr (Some runtime_net) \<and>
    (\<forall>ip port cid veth name spiffe. GetInfoByIp ip (d_ipam d) = Inr (cid, veth) \<and> GetContainerNameById cid (d_csm d) = Inr name \<and>
        GetSpiffeById cid (d_csm d) = Inr spiffe \<longrightarrow>
      log_endpoint runtime_net m ip port = \<lparr>le_Kind = ''container'', le_Ip = ip, le_Port = port, le_ContainerId = cid,
        le_ContainerName = name, le_SpiffeId = spiffe, le_Veth = veth\<rparr>) \<and>
    (\<forall>ip port. le_Kind (log_endpoint runtime_net m ip port) = ''container'' \<longrightarrow>
      (\<exists>cid veth. GetInfoByIp ip (d_ipam d) = Inr (cid, veth) \<and> cid = le_ContainerId (log_endpoint runtime_net m ip port) \<and>
        is_ok (GetContainerNameById cid (d_csm d))))"
proof -
  obtain m where m: "Refresh d = (Inr m, d)" "\<And>a. map_of m a = (case alloc_view (d_ipam d) a of
       Some (b, al) \<Rightarrow> if has_name (d_csm d) (a, al) then Some (meta_of (d_csm d) a al) else None | None \<Rightarrow> None)"
    using Refresh_map [OF assms] by blast
  have net: "bind_res (GetRuntimeSubnet (d_ipam d)) (\<lambda>s. Inr (ParseCIDR4 s)) = Inr (Some runtime_net)"
    using assms(2) by (simp add: ipam_inv_def GetRuntimeSubnet_def parse_runtime)
  have known: "log_endpoint runtime_net m ip port = \<lparr>le_Kind = ''container'', le_Ip = ip, le_Port = port, le_ContainerId = cid,
        le_ContainerName = name, le_SpiffeId = spiffe, le_Veth = veth\<rparr>"
    if h: "GetInfoByIp ip (d_ipam d) = Inr (cid, veth)" "GetContainerNameById cid (d_csm d) = Inr name" "GetSpiffeById cid (d_csm d) = Inr spiffe"
    for ip port cid veth name spiffe
  proof -
    obtain b al where al: "alloc_view (d_ipam d) ip = Some (b, al)" "cid = ContainerId al" "veth = al_Interface al"
      using h(1) by (auto simp: info_by_ip)
    then have "map_of m ip = Some (meta_of (d_csm d) ip al)" using m(2) [of ip] h(2) by (simp add: has_name_def is_ok_def)
    then show ?thesis using pool_address_in_runtime [OF assms(2) al(1)] al h by (simp add: log_endpoint_def Let_def meta_of_def)
  qed
  have only: "\<exists>cid veth. GetInfoByIp ip (d_ipam d) = Inr (cid, veth) \<and> cid = le_ContainerId (log_endpoint runtime_net m ip port) \<and>
      is_ok (GetContainerNameById cid (d_csm d))"
    if "le_Kind (log_endpoint runtime_net m ip port) = ''container''" for ip port
    using that m(2) [of ip]
    by (auto simp: log_endpoint_def Let_def info_by_ip meta_of_def has_name_def split: if_splits option.splits)
  show ?thesis using m(1) net known only by (intro exI [of _ m]) blast
qed

lemma demo_ipam_inv: "ipam_inv demo_ipam"
proof -
  let ?m = "[(''10.166.0.1'', demo_alloc ''i1''), (''10.166.0.2'', demo_alloc ''i2'')]"
  have s: "ip_string 178651137 = ''10.166.0.1''" "ip_string 178651138 = ''10.166.0.2''" "ip_string 178651136 = ''10.166.0.0''"
    by (simp_all add: ip_string_def bytes_of_def dec_eval)
  have "pool_ok (default_pool\<lparr>Allocations := Some ?m\<rparr>)"
  proof (rule pool_ok_allocations [OF default_pool_ok])
    fix a x assume a: "a \<in> set (mkeys ?m)" and x: "ParseCIDR4 (Subnet default_pool) = Some (net24 x)"
    have "Subnet default_pool = ipnet_string (net24 178651136)" by (simp add: default_pool_def ipnet_string_def mask_ones_cidr s dec_eval)
    then have x: "x = 178651136" using x ParseCIDR4_ipnet_string [of 24 "net24 178651136"] by (simp add: wf_net24)
    have wf: "wf_net 24 (net24 178651136)" by (simp add: wf_net24)
    have "usable (net24 x) (ipv4Add x 254) [] 178651137" "usable (net24 x) (ipv4Add x 254) [] 178651138"
      unfolding x usable_def wf_net_contains [OF wf] broadcast_net24 [of 178651136, simplified] by (simp_all add: ipv4Add_def)
    then show "\<exists>y. a = ip_string y \<and> usable (net24 x) (ipv4Add x 254) [] y" using a s(1,2) by (auto intro: exI [of _ 178651137] exI [of _ 178651138])
  qed (simp add: mwf_def)
  then show ?thesis by (simp add: ipam_inv_def demo_ipam_def ipam_initial_def)
qed

theorem log_endpoints_resolved_witness:
  "\<exists>m. Refresh (demo_daemon npm_initial ()) = (Inr m, demo_daemon npm_initial ()) \<and>
     le_ContainerId (log_endpoint runtime_net m ''10.166.0.1'' 80) = ''i1'' \<and> le_ContainerName (log_endpoint runtime_net m ''10.166.0.1'' 80) = ''web''"
proof -
  let ?d = "demo_daemon npm_initial ()"
  have inv: "ipam_inv (d_ipam ?d)" by (simp add: demo_ipam_inv)
  have "GetInfoByIp ''10.166.0.1'' (d_ipam ?d) = Inr (''i1'', ''rd_i1'')"
    by (simp add: GetInfoByIp_def demo_ipam_def default_pool_def allocs_def demo_alloc_def ipam_initial_def)
  moreover have "GetContainerNameById ''i1'' (d_csm ?d) = Inr ''web''" "is_ok (GetSpiffeById ''i1'' (d_csm ?d))"
    by (simp_all add: GetContainerNameById_def GetSpiffeById_def csm_demo_def demo_container_def)
  moreover obtain spiffe where "GetSpiffeById ''i1'' (d_csm ?d) = Inr spiffe" using calculation(3) by (cases "GetSpiffeById ''i1'' (d_csm ?d)") auto
  ultimately show ?thesis using log_endpoints_resolved [OF _ inv] by fastforce
qed

subsection \<open>The log file stays small\<close>

text \<open>
  What is relied on of the system for the file at \<open>out\<close>: appending adds a prefix of the text, opening creates an
  empty file when there is none and changes nothing otherwise, a renaming that succeeds moves the file away and one that
  fails leaves it, no call panics, and reading the clock changes no file.
\<close>

definition log_laws :: "('h \<Rightarrow> string \<rightharpoonup> string) \<Rightarrow> 'h log_env \<Rightarrow> string \<Rightarrow> bool" where
  "log_laws files env out \<longleftrightarrow>
     (\<forall>t h. \<exists>k. files (lg_append env out t h) out = map_option (\<lambda>c. c @ take k t) (files h out)) \<and>
     (\<forall>h. case lg_open env out h of
        (Inr n, h') \<Rightarrow> files h' out = Some (case files h out of None \<Rightarrow> [] | Some c \<Rightarrow> c)
      | (Inl e, h') \<Rightarrow> files h' out = files h out) \<and>
     (\<forall>h. case os_do (lg_os env) (Os_Rename out (backup_name out 1)) h of
        (Inr u, h') \<Rightarrow> files h' out = None
      | (Inl e, h') \<Rightarrow> files h' out = files h out) \<and>
     (\<forall>c h p. fst (os_do (lg_os env) c h) \<noteq> Inl (Panic p)) \<and>
     (\<forall>h. files (snd (lg_now env h)) out = files h out)"

text \<open>The errors of the renaming are dropped by the code, so the bound is for systems on which it works.\<close>

definition renames_work :: "'h log_env \<Rightarrow> string \<Rightarrow> bool" where
  "renames_work env out \<longleftrightarrow> (\<forall>h. is_ok (fst (os_do (lg_os env) (Os_Rename out (backup_name out 1)) h)))"

lemma rename_moves:
  assumes "log_laws files env out" "renames_work env out"
  shows "files (snd (os_do (lg_os env) (Os_Rename out (backup_name out 1)) h)) out = None"
proof -
  obtain u h' where "os_do (lg_os env) (Os_Rename out (backup_name out 1)) h = (Inr u, h')"
    using assms(2) by (metis is_ok_iff prod.collapse renames_work_def)
  then show ?thesis
    using assms(1) [unfolded log_laws_def, THEN conjunct2, THEN conjunct2, THEN conjunct1, THEN spec, of h] by simp
qed

text \<open>The recorded size is at least the length of the file, and at most the bound.\<close>

definition log_inv :: "('h \<Rightarrow> string \<rightharpoonup> string) \<Rightarrow> string \<Rightarrow> int \<Rightarrow> 'h enricher \<Rightarrow> bool" where
  "log_inv files out bound e \<longleftrightarrow> er_OutPath e = out \<and> er_size e \<le> bound \<and>
     (case files (er_host e) out of None \<Rightarrow> True | Some c \<Rightarrow> int (length c) \<le> er_size e)"

lemma ignore_ok: "(\<And>h p. fst (m h) \<noteq> Inl (Panic p)) \<Longrightarrow> ignore m h = (Inr (), snd (m h))"
  by (cases "m h"; cases "fst (m h)") (auto simp: ignore_def attempt_def bnd_def split: error.splits, (metis error.exhaust fst_conv)+)

lemma shift_backups_renames:
  assumes "\<And>c h p. fst (os_do os c h) \<noteq> Inl (Panic p)" "\<And>h. files (snd (os_do os (Os_Rename path (backup_name path 1)) h)) path = None"
  shows "\<exists>h'. shift_backups os path h = (Inr (), h') \<and> files h' path = None"
proof -
  have i: "ignore (os_do os c) k = (Inr (), snd (os_do os c k))" for c k using assms(1) by (rule ignore_ok)
  have "\<exists>k'. for_each (shift_backup os path) is k = (Inr (), k')" for "is" k
    by (induction "is" arbitrary: k) (auto simp: shift_backup_def i)
  then obtain k where "for_each (shift_backup os path) (rev [1..<enrichedMaxBackups]) (snd (os_do os (Os_Remove (backup_name path enrichedMaxBackups)) h)) = (Inr (), k)"
    by blast
  then show ?thesis using assms(2) [of k] by (simp add: shift_backups_def i del: upt_Suc upt_rec_numeral)
qed

lemma rotate_bound:
  assumes laws: "log_laws files env out" "renames_work env out" and e: "log_inv files out bound e"
    and r: "rotateIfNeeded env n e = (r, e')" and bound: "0 \<le> bound"
  shows "log_inv files out bound e'" "is_ok r \<Longrightarrow> er_size e' + n \<le> max enrichedMaxBytes n"
proof -
  have "log_inv files out bound e' \<and> (is_ok r \<longrightarrow> er_size e' + n \<le> max enrichedMaxBytes n)"
  proof (cases "er_size e + n \<le> enrichedMaxBytes")
    case True
    then show ?thesis using r e by (auto simp: rotateIfNeeded_def)
  next
    case False
    obtain h1 where s: "shift_backups (lg_os env) out (er_host e) = (Inr (), h1)" and gone: "files h1 out = None"
      using shift_backups_renames [of "lg_os env" files out "er_host e"] rename_moves [OF laws] laws(1) unfolding log_laws_def by blast
    have out: "er_OutPath e = out" using e by (simp add: log_inv_def)
    obtain y h2 where y: "lg_open env out h1 = (y, h2)" by fastforce
    have open_law: "case y of Inr n \<Rightarrow> files h2 out = Some [] | Inl e \<Rightarrow> files h2 out = None"
      using laws(1) gone y unfolding log_laws_def by (auto split: sum.splits dest: spec [of _ h1])
    have "rotateIfNeeded env n e = open_output env True (e\<lparr>er_host := h1\<rparr>)"
      using False s by (simp add: rotateIfNeeded_def rotate_log_def out er_do_def)
    then show ?thesis using r y open_law e bound by (cases y) (auto simp: open_output_def out log_inv_def)
  qed
  then show "log_inv files out bound e'" "is_ok r \<Longrightarrow> er_size e' + n \<le> max enrichedMaxBytes n" by auto
qed

lemma write_bound:
  assumes laws: "log_laws files env out" and e: "log_inv files out bound e" and fits: "er_size e + int (length b + 1) \<le> bound"
  shows "log_inv files out bound (snd (write_entry env b e))"
proof -
  have "er_OutPath e = out" using e by (simp add: log_inv_def)
  moreover obtain k where "files (lg_append env out (b @ [newline]) (er_host e)) out =
      map_option (\<lambda>c. c @ take k (b @ [newline])) (files (er_host e) out)" using laws unfolding log_laws_def by blast
  ultimately show ?thesis using e fits
    by (cases "files (er_host e) out") (auto simp: write_entry_def log_inv_def min_def)
qed

lemma line_bound:
  assumes laws: "log_laws files env out" "renames_work env out" and lines: "\<And>en b. lg_encode env en = Inr b \<Longrightarrow> int (length b + 1) \<le> bound"
    and max: "enrichedMaxBytes \<le> bound" and e: "log_inv files out bound e"
  shows "log_inv files out bound (snd (HandleRawLine env subnet m line e))"
proof -
  obtain t h where t: "lg_now env (er_host e) = (t, h)" by fastforce
  let ?e = "e\<lparr>er_host := h\<rparr>"
  have "files h out = files (er_host e) out" using laws(1) t unfolding log_laws_def by (metis snd_conv)
  then have e1: "log_inv files out bound ?e" using e by (auto simp: log_inv_def split: option.splits)
  have step: "log_inv files out bound (snd (bnd (attempt (rotateIfNeeded env (int (length b + 1)))) (\<lambda>r. case r of Inl _ \<Rightarrow> ret () | Inr _ \<Rightarrow> write_entry env b) ?e))"
    if b: "lg_encode env en = Inr b" for en b
  proof -
    obtain r e' where r: "rotateIfNeeded env (int (length b + 1)) ?e = (r, e')" by fastforce
    note rb = rotate_bound [OF laws e1 r]
    show ?thesis
    proof (cases r)
      case (Inr u)
      then have "er_size e' + int (length b + 1) \<le> bound" using rb(2) lines [OF b] max by (simp add: is_ok_def)
      then show ?thesis using write_bound [OF laws(1)] rb(1) Inr r max by simp
    next
      case (Inl x)
      then show ?thesis using rb(1) r max by (cases x) (auto simp: attempt_def bnd_def)
    qed
  qed
  show ?thesis
  proof (cases "line = [] \<or> \<not> is_ok (lg_decode env line)")
    case True
    then show ?thesis using e by (auto simp: HandleRawLine_def is_ok_def split: sum.splits)
  next
    case False
    then obtain rr where rr: "lg_decode env line = Inr rr" by (auto simp: is_ok_iff)
    show ?thesis
    proof (cases "enrich (lg_hash env) subnet m t rr line")
      case (Inl x)
      then show ?thesis using e1 rr False t by (simp add: HandleRawLine_def er_do_def)
    next
      case (Inr en)
      then show ?thesis using e1 rr False t step [of en] by (cases "lg_encode env en") (simp_all add: HandleRawLine_def er_do_def)
    qed
  qed
qed

text \<open>C24: the packet log does not fill the disk: on a system on which the log file can be renamed, it never holds more than
  50 MiB or the longest entry, whichever is more, when it did not at first and its length was recorded, however many lines come in and whether or not files can be opened or are
  written in full; and the recorded size, by which the rotation is decided, is never below the length of the file.\<close>

theorem log_file_bounded:
  assumes "log_laws files env out" "renames_work env out" "\<And>en b. lg_encode env en = Inr b \<Longrightarrow> int (length b + 1) \<le> bound"
    and "enrichedMaxBytes \<le> bound" "log_inv files out bound e" "log_lines env subnet ls e = (r, e')" "files (er_host e') out = Some c"
  shows "int (length c) \<le> er_size e' \<and> er_size e' \<le> bound"
proof -
  have "log_inv files out bound (snd (log_lines env subnet ls e))" using assms(5)
  proof (induction ls arbitrary: e)
    case (Cons l ls)
    obtain m line where l: "l = (m, line)" by (cases l)
    have "log_inv files out bound (snd (HandleRawLine env subnet m (trim_space line) e))" using line_bound [OF assms(1-4) Cons.prems] .
    then show ?case using Cons.IH by (auto simp: l seq_def bnd_def split: prod.split sum.split)
  qed simp
  then show ?thesis using assms(6,7) by (simp add: log_inv_def)
qed

text \<open>A system whose files are a map from paths to texts.\<close>

definition demo_log_env :: "(string \<rightharpoonup> string) log_env" where
  "demo_log_env = \<lparr>
     lg_os = \<lparr>os_do = (\<lambda>c h. (Inr (), case c of Os_Rename p q \<Rightarrow> h(q := h p, p := None) | _ \<Rightarrow> h)), os_stat = (\<lambda>p h. Stat_missing),
       os_readdir = (\<lambda>p h. Inr []), os_tar = (\<lambda>p h. Inr []), os_read = (\<lambda>p h. Inr '''')\<rparr>,
     lg_open = (\<lambda>p h. (Inr 0, if h p = None then h(p \<mapsto> []) else h)), lg_append = (\<lambda>p t h. h(p := map_option (\<lambda>c. c @ t) (h p))),
     lg_decode = (\<lambda>l. Inr [(''oob.prefix'', J_string ''RAIND-EW-ALLOW,id=p1'')]), lg_encode = (\<lambda>en. Inr ''entry''), lg_hash = (\<lambda>s. s),
     lg_now = (\<lambda>h. (''t'', h))\<rparr>"

lemma demo_log_laws: "log_laws (\<lambda>h. h) demo_log_env ''log''" "renames_work demo_log_env ''log''"
proof -
  have "\<exists>k. map_option (\<lambda>c. c @ t) x = map_option (\<lambda>c. c @ take k t) x" for t :: string and x by (rule exI [of _ "length t"]) simp
  then show "log_laws (\<lambda>h. h) demo_log_env ''log''" unfolding log_laws_def demo_log_env_def by (auto simp: backup_name_def split: option.splits)
  show "renames_work demo_log_env ''log''" by (simp add: renames_work_def demo_log_env_def is_ok_def)
qed

text \<open>When the renaming fails, the old file is opened again and its size is taken as 0.\<close>

lemma failed_rename_forgets_size:
  "rotate_log (demo_log_env\<lparr>lg_os := (lg_os demo_log_env)\<lparr>os_do := \<lambda>c h. (case c of Os_Rename p q \<Rightarrow> Inl (Err ''busy'') | _ \<Rightarrow> Inr (), h)\<rparr>\<rparr>)
     \<lparr>er_OutPath = ''log'', er_size = enrichedMaxBytes, er_open = True, er_host = [''log'' \<mapsto> x]\<rparr> =
   (Inr (), \<lparr>er_OutPath = ''log'', er_size = 0, er_open = True, er_host = [''log'' \<mapsto> x]\<rparr>)"
  by (simp add: rotate_log_def shift_backups_def shift_backup_def er_do_def open_output_def demo_log_env_def ignore_def upt_rec)

theorem log_file_bounded_witness:
  "case snd (log_lines demo_log_env runtime_net [([], ''a''), ([], ''b'')] \<lparr>er_OutPath = ''log'', er_size = 0, er_open = True, er_host = [''log'' \<mapsto> '''']\<rparr>) of
     e' \<Rightarrow> er_host e' ''log'' = Some (''entry'' @ [newline] @ ''entry'' @ [newline]) \<and>
       int (length (''entry'' @ [newline] @ ''entry'' @ [newline])) \<le> er_size e' \<and> er_size e' \<le> enrichedMaxBytes"
proof -
  let ?e = "\<lparr>er_OutPath = ''log'', er_size = 0, er_open = True, er_host = [''log'' \<mapsto> '''']\<rparr>" and ?ls = "[([], ''a''), ([], ''b'')]"
  have t: "trim_space ''a'' = ''a''" "trim_space ''b'' = ''b''" by (simp_all add: trim_space_def is_space_def)
  have c: "classify ''RAIND-EW-ALLOW,id=p1'' = Inr (''east-west'', ''allow'', ''p1'')" using classify_prefixes(1) [of "''p1''"] by simp
  have h: "er_host (snd (log_lines demo_log_env runtime_net ?ls ?e)) ''log'' = Some (''entry'' @ [newline] @ ''entry'' @ [newline])"
    by (simp add: t c HandleRawLine_def demo_log_env_def er_do_def enrich_def rr_str_def Let_def rotateIfNeeded_def write_entry_def)
  obtain r e' where r: "log_lines demo_log_env runtime_net ?ls ?e = (r, e')" by fastforce
  have inv: "log_inv (\<lambda>h. h) ''log'' enrichedMaxBytes ?e" by (simp add: log_inv_def)
  have fits: "int (length b + 1) \<le> enrichedMaxBytes" if "lg_encode demo_log_env en = Inr b" for en b
    using that by (auto simp: demo_log_env_def)
  have "er_host e' ''log'' = Some (''entry'' @ [newline] @ ''entry'' @ [newline])" using h r by simp
  then have "int (length (''entry'' @ [newline] @ ''entry'' @ [newline])) \<le> er_size e' \<and> er_size e' \<le> enrichedMaxBytes"
    by - (rule log_file_bounded [OF demo_log_laws _ order.refl inv r]; (erule fits | assumption))
  then show ?thesis using h r by simp
qed

end
