(* ===== verification/Image_Build.thy ===== *)
theory Image_Build
  imports Container
begin

text \<open>
  Building an image (\<open>src/internal/core/image/service_build.go\<close>): the instructions of a Dripfile are
  applied to a copy of the base image, the collected \<open>RUN\<close> lines are executed in a container, and the
  result is stored as an image.  The build context comes as a tar archive
  (\<open>src/internal/api/http/image/handler.go\<close>).
\<close>

subsection \<open>Data and parameters\<close>

record ServiceBuildModel =
  sb_Image :: string
  sb_ContextDir :: string
  sb_DripfilePath :: string
  sb_Network :: string

record buildState =
  bs_imageRepo :: string
  bs_imageRef :: string
  bs_rootfsPath :: string
  bs_env :: "string list"
  bs_workdir :: string
  bs_cmd :: "string list"
  bs_entrypoint :: "string list"
  bs_runScript :: "string list"

record buildInstruction =
  ins_op :: string
  ins_args :: string

datatype file_kind = Kind_dir | Kind_symlink | Kind_regular | Kind_other

record file_info =
  fi_Kind :: file_kind
  fi_Perm :: nat
  fi_Mode :: nat

text \<open>
  \<open>fi_Perm\<close> are the permissions of \<open>info.Mode()\<close>, \<open>fi_Mode\<close> are its bits as \<open>MkdirAll\<close> takes them (the
  permissions with the setuid, setgid and sticky bits).
  \<open>b_lstat\<close>, \<open>b_readlink\<close> and \<open>b_mkdtemp\<close> are the calls of package \<open>os\<close>; \<open>b_open\<close> tells whether a file
  can be opened for reading; \<open>b_exec_json\<close> decodes a list of strings and \<open>b_config_text\<close> encodes an image
  configuration.
\<close>

record 'h builder =
  b_world :: "'h world"
  b_lstat :: "string \<Rightarrow> 'h \<Rightarrow> file_info result"
  b_readlink :: "string \<Rightarrow> 'h \<Rightarrow> string result"
  b_open :: "string \<Rightarrow> 'h \<Rightarrow> unit result"
  b_mkdtemp :: "string \<Rightarrow> (string, 'h) act"
  b_exec_json :: "string \<Rightarrow> string list result"
  b_config_text :: "ImageConfigFile \<Rightarrow> string result"

abbreviation b_os :: "'h builder \<Rightarrow> 'h os" where
  "b_os b \<equiv> w_os (b_world b)"

abbreviation b_do :: "'h builder \<Rightarrow> os_call \<Rightarrow> (unit, 'h) act" where
  "b_do b c \<equiv> os_do (b_os b) c"

text \<open>A question to the host.\<close>

definition ask :: "('h \<Rightarrow> 'a result) \<Rightarrow> ('a, 'h) act" where
  "ask f h = (f h, h)"

definition is_not_exist :: "'h builder \<Rightarrow> error \<Rightarrow> bool" where
  "is_not_exist b e = im_not_exist (w_image (b_world b)) e"

text \<open>\<open>defer cleanup()\<close>: it runs after a panic too and its result is dropped.\<close>

definition deferred :: "('a, 's) act \<Rightarrow> ('b, 's) act \<Rightarrow> ('a, 's) act" where
  "deferred m c s = (case m s of (r, s') \<Rightarrow> (r, snd (c s')))"

text \<open>A step before the point where more is to be cleaned up.\<close>

definition step_or :: "('a, 's) act \<Rightarrow> ('b, 's) act \<Rightarrow> ('a \<Rightarrow> ('c, 's) act) \<Rightarrow> ('c, 's) act" where
  "step_or m c k s = (case m s of (Inl e, s') \<Rightarrow> (Inl e, snd (c s')) | (Inr x, s') \<Rightarrow> k x s')"

definition is_abs :: "string \<Rightarrow> bool" where
  "is_abs p = has_prefix p ''/''"

subsection \<open>Walking a directory (package filepath)\<close>

definition path_elems :: "string \<Rightarrow> string list" where
  "path_elems s = filter (\<lambda>e. e \<noteq> []) (split_on (CHR ''/'') s)"

fun strip_common :: "string list \<Rightarrow> string list \<Rightarrow> string list \<times> string list" where
  "strip_common (a # as) (b # bs) = (if a = b then strip_common as bs else (a # as, b # bs))"
| "strip_common as bs = (as, bs)"

text \<open>\<open>filepath.Rel\<close>.\<close>

definition path_rel :: "string \<Rightarrow> string \<Rightarrow> string result" where
  "path_rel basepath targpath =
     (let base = path_clean basepath; targ = path_clean targpath; bad = Inl (Err (''Rel: can't make '' @ targpath @ '' relative to '' @ basepath)) in
      if base = targ then Inr ''.''
      else let base' = (if base = ''.'' then '''' else base) in
        if has_prefix base' ''/'' \<noteq> has_prefix targ ''/'' then bad
        else case strip_common (path_elems base') (path_elems targ) of
          (bs, ts) \<Rightarrow> if bs \<noteq> [] \<and> hd bs = ''..'' then bad else Inr (str_join ''/'' (map (\<lambda>_. ''..'') bs @ ts)))"

text \<open>
  \<open>filepath.WalkDir\<close> for a function that returns the error it is called with.  Directories are read when
  they are visited.  The system refuses paths of more than 4096 characters, so a tree is less than 4096 levels
  deep; at that depth reading a directory fails.
\<close>

definition max_depth :: nat where
  "max_depth = 4096"

primrec walk_dir :: "'h builder \<Rightarrow> (string \<Rightarrow> error option \<Rightarrow> (unit, 'h) act) \<Rightarrow> nat \<Rightarrow> string \<times> bool \<Rightarrow> (unit, 'h) act" where
  "walk_dir b fn 0 p = seq (fn (fst p) None) (if snd p then fn (fst p) (Some (Err ''file name too long'')) else ret ())"
| "walk_dir b fn (Suc n) p =
     seq (fn (fst p) None)
         (if \<not> snd p then ret ()
          else (\<lambda>h. case os_readdir (b_os b) (fst p) h of
            Inl e \<Rightarrow> fn (fst p) (Some e) h
          | Inr names \<Rightarrow>
              for_each (walk_dir b fn n)
                (map (\<lambda>name. let q = path_join [fst p, name] in
                   (q, case b_lstat b q h of Inr i \<Rightarrow> fi_Kind i = Kind_dir | Inl _ \<Rightarrow> False)) names) h))"

definition WalkDir :: "'h builder \<Rightarrow> string \<Rightarrow> (string \<Rightarrow> error option \<Rightarrow> (unit, 'h) act) \<Rightarrow> (unit, 'h) act" where
  "WalkDir b root fn h =
     (case b_lstat b root h of
        Inl e \<Rightarrow> fn root (Some e) h
      | Inr i \<Rightarrow> walk_dir b fn max_depth (root, fi_Kind i = Kind_dir) h)"

subsection \<open>Copying\<close>

definition build_copyFile :: "'h builder \<Rightarrow> string \<Rightarrow> string \<Rightarrow> nat \<Rightarrow> (unit, 'h) act" where
  "build_copyFile b src dst perm =
     seq (b_do b (Os_MkdirAll (path_dir dst) mode755))
    (seq (ask (b_open b src))
    (seq (b_do b (Os_Create dst perm))
    (bnd (attempt (\<lambda>h. b_do b (Os_Copy dst (os_read (b_os b) src h)) h)) (\<lambda>r.
       case r of Inl e \<Rightarrow> seq (ignore (b_do b (Os_Close dst))) (fail e) | Inr _ \<Rightarrow> b_do b (Os_Close dst)))))"

definition copy_entry :: "'h builder \<Rightarrow> string \<Rightarrow> string \<Rightarrow> string \<Rightarrow> error option \<Rightarrow> (unit, 'h) act" where
  "copy_entry b src dst path err =
     (case err of
        Some e \<Rightarrow> fail e
      | None \<Rightarrow>
          if path = src then ret ()
          else bnd (lift_res (path_rel src path)) (\<lambda>rel.
            let target = path_join [dst, rel] in
            bnd (ask (b_lstat b path)) (\<lambda>info.
              case fi_Kind info of
                Kind_dir \<Rightarrow> b_do b (Os_MkdirAll target (fi_Perm info))
              | Kind_symlink \<Rightarrow> bnd (ask (b_readlink b path)) (\<lambda>link. b_do b (Os_Symlink link target))
              | Kind_regular \<Rightarrow> build_copyFile b path target (fi_Perm info)
              | Kind_other \<Rightarrow> ret ())))"

definition copyDir :: "'h builder \<Rightarrow> string \<Rightarrow> string \<Rightarrow> (unit, 'h) act" where
  "copyDir b src dst =
     bnd (ask (b_lstat b src)) (\<lambda>info.
       if fi_Kind info \<noteq> Kind_dir then fail (Err (''not a directory: '' @ src))
       else seq (b_do b (Os_MkdirAll dst (fi_Mode info))) (WalkDir b src (copy_entry b src dst)))"

definition overlay_entry :: "'h builder \<Rightarrow> string \<Rightarrow> string \<Rightarrow> string \<Rightarrow> error option \<Rightarrow> (unit, 'h) act" where
  "overlay_entry b upperDir rootfs path err =
     (case err of
        Some e \<Rightarrow> fail e
      | None \<Rightarrow>
          if path = upperDir then ret ()
          else bnd (lift_res (path_rel upperDir path)) (\<lambda>rel.
            let base = path_base rel; dir = path_dir rel in
            if has_prefix base ''.wh.'' then
              (if base = ''.wh..wh..opq'' then
                 (let targetDir = path_join [rootfs, dir] in
                  bnd (attempt (ask (os_readdir (b_os b) targetDir))) (\<lambda>r.
                    case r of
                      Inl e \<Rightarrow> if is_not_exist b e then ret () else fail e
                    | Inr entries \<Rightarrow> for_each (\<lambda>e. b_do b (Os_RemoveAll (path_join [targetDir, e]))) entries))
               else b_do b (Os_RemoveAll (path_join [rootfs, dir, trim_prefix base ''.wh.''])))
            else bnd (ask (b_lstat b path)) (\<lambda>info.
              let target = path_join [rootfs, rel] in
              case fi_Kind info of
                Kind_dir \<Rightarrow> b_do b (Os_MkdirAll target (fi_Perm info))
              | Kind_symlink \<Rightarrow> bnd (ask (b_readlink b path)) (\<lambda>link.
                  seq (ignore (b_do b (Os_RemoveAll target))) (b_do b (Os_Symlink link target)))
              | Kind_regular \<Rightarrow> build_copyFile b path target (fi_Perm info)
              | Kind_other \<Rightarrow> ret ())))"

definition applyOverlayUpper :: "'h builder \<Rightarrow> string \<Rightarrow> string \<Rightarrow> (unit, 'h) act" where
  "applyOverlayUpper b upperDir rootfs = WalkDir b upperDir (overlay_entry b upperDir rootfs)"

definition safeJoin :: "string \<Rightarrow> string \<Rightarrow> string result" where
  "safeJoin baseDir rel =
     (let clean = path_clean rel in
      if has_prefix clean ''..'' \<or> is_abs clean then Inl (Err (''invalid path: '' @ rel))
      else let full = path_join [baseDir, clean] in
        if \<not> has_prefix full (path_clean baseDir @ ''/'') \<and> path_clean baseDir \<noteq> full then Inl (Err (''invalid path: '' @ rel))
        else Inr full)"

subsection \<open>The build context\<close>

definition extract_entry :: "'h builder \<Rightarrow> string \<Rightarrow> tar_header \<Rightarrow> string result \<Rightarrow> (unit, 'h) act" where
  "extract_entry b dst hdr content =
     (if th_Name hdr = [] then ret ()
      else bnd (lift_res (safeJoin dst (th_Name hdr))) (\<lambda>target.
        case th_Typeflag hdr of
          TypeDir \<Rightarrow> b_do b (Os_MkdirAll target (th_Mode hdr))
        | TypeReg \<Rightarrow>
            seq (b_do b (Os_MkdirAll (path_dir target) mode755))
           (seq (b_do b (Os_Create target (th_Mode hdr)))
           (bnd (attempt (b_do b (Os_Copy target content))) (\<lambda>r.
              case r of Inl e \<Rightarrow> seq (ignore (b_do b (Os_Close target))) (fail e) | Inr _ \<Rightarrow> b_do b (Os_Close target))))
        | TypeSymlink \<Rightarrow> seq (b_do b (Os_MkdirAll (path_dir target) mode755)) (b_do b (Os_Symlink (th_Linkname hdr) target))
        | _ \<Rightarrow> ret ()))"

fun ExtractTarToDir :: "'h builder \<Rightarrow> tar_item list \<Rightarrow> string \<Rightarrow> (unit, 'h) act" where
  "ExtractTarToDir b [] dst = ret ()"
| "ExtractTarToDir b (Tar_error e # is) dst = fail e"
| "ExtractTarToDir b (Tar_nil # is) dst = ExtractTarToDir b is dst"
| "ExtractTarToDir b (Tar_entry hdr content # is) dst = seq (extract_entry b dst hdr content) (ExtractTarToDir b is dst)"

subsection \<open>Reading the Dripfile\<close>

abbreviation backslash :: char where "backslash \<equiv> CHR 0x5C"

text \<open>The loop over the lines with the text of a continued line in \<open>buf\<close>.\<close>

fun join_lines :: "string \<Rightarrow> string list \<Rightarrow> string list" where
  "join_lines buf [] = (if buf = [] then [] else [buf])"
| "join_lines buf (line # ls) =
     (let l = trim_space line in
      if l = [] \<or> has_prefix l ''#'' then join_lines buf ls
      else if has_suffix l [backslash] then join_lines (buf @ trim_suffix l [backslash] @ '' '') ls
      else if buf \<noteq> [] then (buf @ l) # join_lines [] ls
      else l # join_lines [] ls)"

definition parse_line :: "string \<Rightarrow> buildInstruction list" where
  "parse_line line =
     (case str_fields line of
        [] \<Rightarrow> []
      | p # _ \<Rightarrow> [\<lparr>ins_op = to_upper p, ins_args = trim_space (drop (length p) line)\<rparr>])"

definition parse_text :: "string \<Rightarrow> buildInstruction list" where
  "parse_text text = concat (map parse_line (join_lines [] (split_on newline text)))"

definition parseDripfile :: "'h builder \<Rightarrow> string \<Rightarrow> (buildInstruction list, 'h) act" where
  "parseDripfile b path = bnd (ask (os_read (b_os b) path)) (\<lambda>data. ret (parse_text data))"

definition parseShellOrExec :: "'h builder \<Rightarrow> string \<Rightarrow> string list result" where
  "parseShellOrExec b arg0 =
     (let arg = trim_space arg0 in
      if arg = [] then Inl (Err ''command is empty'')
      else if has_prefix arg ''['' then
        (case b_exec_json b arg of Inl e \<Rightarrow> Inl (Err (''invalid exec form: '' @ err_text e)) | Inr arr \<Rightarrow> Inr arr)
      else Inr [''/bin/sh'', ''-c'', arg])"

definition setEnvVar :: "string list \<Rightarrow> string \<Rightarrow> string \<Rightarrow> string list" where
  "setEnvVar env key0 value =
     (let key = trim_space key0; prefix = key @ ''='' in
      if key = [] then env
      else case List.find (\<lambda>i. has_prefix (env ! i) prefix) [0..<length env] of
        Some i \<Rightarrow> env[i := prefix @ value]
      | None \<Rightarrow> env @ [prefix @ value])"

definition buildVethName :: "string \<Rightarrow> string" where
  "buildVethName containerId =
     (let token0 = (case split_n2 (CHR ''-'') containerId of [a, b] \<Rightarrow> if b \<noteq> [] then b else containerId | _ \<Rightarrow> containerId);
          token = filter (\<lambda>c. c \<noteq> CHR ''-'') token0;
          name = take 15 (''rd_'' @ token) in
      if name = ''rd_'' then take 15 (''rd_'' @ containerId) else name)"

definition runLineFromArg :: "'h builder \<Rightarrow> string \<Rightarrow> string result" where
  "runLineFromArg b arg0 =
     (let arg = trim_space arg0 in
      if arg = [] then Inl (Err ''RUN requires command'')
      else if has_prefix arg ''['' then
        (case b_exec_json b arg of
           Inl e \<Rightarrow> Inl (Err (''invalid exec form: '' @ err_text e))
         | Inr arr \<Rightarrow> Inr (str_join '' '' (map (w_quote (b_world b)) arr)))
      else Inr arg)"

definition renderRunBlock :: "'h builder \<Rightarrow> string list \<Rightarrow> string \<Rightarrow> string \<Rightarrow> string list" where
  "renderRunBlock b env workdir runLine =
     (let q = w_quote (b_world b) in
      concat (map (\<lambda>kv. case split_n2 (CHR ''='') kv of [k, v] \<Rightarrow> [''export '' @ k @ ''='' @ q v] | _ \<Rightarrow> []) env) @
      (if workdir \<noteq> [] then [''mkdir -p '' @ q workdir, ''cd '' @ q workdir] else []) @ [runLine])"

subsection \<open>The instructions\<close>

text \<open>The state of a build and the daemon.\<close>

record 'h building =
  bd_state :: buildState
  bd_daemon :: "'h daemon"

definition at_daemon :: "('a, 'h daemon) act \<Rightarrow> ('a, 'h building) act" where
  "at_daemon m s = (case m (bd_daemon s) of (r, d) \<Rightarrow> (r, s\<lparr>bd_daemon := d\<rparr>))"

abbreviation at_host :: "('a, 'h) act \<Rightarrow> ('a, 'h building) act" where
  "at_host m \<equiv> at_daemon (on_host m)"

definition get_state :: "(buildState, 'h building) act" where
  "get_state s = (Inr (bd_state s), s)"

definition set_state :: "(buildState \<Rightarrow> buildState) \<Rightarrow> (unit, 'h building) act" where
  "set_state f s = (Inr (), s\<lparr>bd_state := f (bd_state s)\<rparr>)"

definition applyFrom :: "'h builder \<Rightarrow> string \<Rightarrow> (unit, 'h building) act" where
  "applyFrom b arg =
     (case str_fields arg of
        [] \<Rightarrow> fail (Panic ''index out of range'')
      | img0 # _ \<Rightarrow>
          let img = trim_space img0; w = b_world b in
          if img = [] then fail (Err ''FROM requires image'')
          else bnd (lift_res (image_parseImageRef img)) (\<lambda>(imageRepo, imageRef).
            bnd (at_daemon (image_exists w imageRepo imageRef)) (\<lambda>here.
            seq (if here then ret () else at_daemon (Pull (w_image w) \<lparr>sp_Image = img, sp_Os = '''', sp_Arch = ''''\<rparr>))
           (bnd (at_daemon (ilm_do (query (GetConfigPath imageRepo imageRef)))) (\<lambda>configPath.
            bnd (at_daemon (GetImageConfig (w_image w) configPath)) (\<lambda>imageConfig.
            bnd (at_daemon (ilm_do (query (GetRootfsPath imageRepo imageRef)))) (\<lambda>baseRootfs.
            bnd (at_host (b_mkdtemp b ''raind-build-rootfs-'')) (\<lambda>tmpRootfs.
            seq (at_host (copyDir b baseRootfs tmpRootfs))
                (let cfg = if_Config imageConfig in
                 set_state (\<lambda>st. st\<lparr>bs_imageRepo := imageRepo, bs_imageRef := imageRef, bs_rootfsPath := tmpRootfs, bs_env := ic_Env cfg,
                   bs_workdir := (if ic_WorkingDir cfg = [] then ''/'' else ic_WorkingDir cfg), bs_cmd := ic_Cmd cfg,
                   bs_entrypoint := ic_Entrypoint cfg\<rparr>))))))))))"

definition in_rootfs :: "string \<Rightarrow> string \<Rightarrow> string" where
  "in_rootfs rootfs path = path_join [rootfs, trim_prefix path ''/'']"

definition applyWorkdir :: "'h builder \<Rightarrow> string \<Rightarrow> (unit, 'h building) act" where
  "applyWorkdir b arg =
     (let dir = trim_space arg in
      if dir = [] then fail (Err ''WORKDIR requires path'')
      else seq (set_state (\<lambda>st. st\<lparr>bs_workdir := path_clean (if is_abs dir then dir else path_join [bs_workdir st, dir])\<rparr>))
               (bnd get_state (\<lambda>st. at_host (b_do b (Os_MkdirAll (in_rootfs (bs_rootfsPath st) (bs_workdir st)) mode755)))))"

fun env_loop :: "string list \<Rightarrow> string list \<Rightarrow> error option \<times> string list" where
  "env_loop [] env = (None, env)"
| "env_loop (p # ps) env =
     (case split_n2 (CHR ''='') p of
        [k, v] \<Rightarrow> env_loop ps (setEnvVar env k v)
      | _ \<Rightarrow> (case ps of
          [] \<Rightarrow> (Some (Err ''ENV requires key value''), env)
        | v # ps' \<Rightarrow> env_loop ps' (setEnvVar env p v)))"

definition applyEnv :: "string \<Rightarrow> (unit, 'h building) act" where
  "applyEnv arg0 =
     (let arg = trim_space arg0 in
      if arg = [] then fail (Err ''ENV requires key=value'')
      else bnd get_state (\<lambda>st. case env_loop (str_fields arg) (bs_env st) of
        (err, env) \<Rightarrow> seq (set_state (\<lambda>st. st\<lparr>bs_env := env\<rparr>)) (case err of None \<Rightarrow> ret () | Some e \<Rightarrow> fail e)))"

definition copy_source :: "'h builder \<Rightarrow> string \<Rightarrow> string \<Rightarrow> string \<Rightarrow> (unit, 'h) act" where
  "copy_source b srcPath dst dstPath =
     seq (if has_suffix dst ''/'' then b_do b (Os_MkdirAll dstPath mode755) else ret ())
    (bnd (ask (b_lstat b srcPath)) (\<lambda>info.
       if fi_Kind info = Kind_dir then copyDir b srcPath dstPath
       else (\<lambda>h. build_copyFile b srcPath
         (case b_lstat b dstPath h of
            Inr i \<Rightarrow> if fi_Kind i = Kind_dir then path_join [dstPath, path_base srcPath] else dstPath
          | Inl _ \<Rightarrow> dstPath) (fi_Perm info) h)))"

definition applyCopy :: "'h builder \<Rightarrow> string \<Rightarrow> string \<Rightarrow> (unit, 'h building) act" where
  "applyCopy b contextDir arg =
     (case str_fields arg of
        [src, dst] \<Rightarrow>
          bnd (lift_res (safeJoin contextDir src)) (\<lambda>srcPath.
          bnd get_state (\<lambda>st.
            let dstAbs = (if is_abs dst then dst else path_join [bs_workdir st, dst]) in
            at_host (copy_source b srcPath dst (in_rootfs (bs_rootfsPath st) (path_clean dstAbs)))))
      | parts \<Rightarrow>
          if length parts < 2 then fail (Err ''COPY/ADD requires src and dest'')
          else fail (Err ''COPY/ADD multiple sources not supported''))"

definition applyRun :: "'h builder \<Rightarrow> string \<Rightarrow> (unit, 'h building) act" where
  "applyRun b arg =
     bnd (lift_res (runLineFromArg b arg)) (\<lambda>runLine.
     bnd get_state (\<lambda>st.
     seq (if bs_workdir st \<noteq> [] then at_host (b_do b (Os_MkdirAll (in_rootfs (bs_rootfsPath st) (bs_workdir st)) mode755)) else ret ())
         (set_state (\<lambda>st. st\<lparr>bs_runScript := bs_runScript st @ renderRunBlock b (bs_env st) (bs_workdir st) runLine\<rparr>))))"

definition applyCmd :: "'h builder \<Rightarrow> string \<Rightarrow> (unit, 'h building) act" where
  "applyCmd b arg = bnd (lift_res (parseShellOrExec b arg)) (\<lambda>cmd. set_state (\<lambda>st. st\<lparr>bs_cmd := cmd\<rparr>))"

definition applyEntrypoint :: "'h builder \<Rightarrow> string \<Rightarrow> (unit, 'h building) act" where
  "applyEntrypoint b arg = bnd (lift_res (parseShellOrExec b arg)) (\<lambda>entry. set_state (\<lambda>st. st\<lparr>bs_entrypoint := entry\<rparr>))"

subsection \<open>Running the script in a container\<close>

definition allocateBuildAddress :: "'h world \<Rightarrow> string \<Rightarrow> string \<Rightarrow> (string \<times> string, 'h daemon) act" where
  "allocateBuildAddress w containerId bridge =
     bnd (w_now w) (\<lambda>now.
     bnd (ipam_do (Allocate now containerId bridge)) (\<lambda>addr.
     bnd (ipam_do (query (GetBridgeAddr bridge))) (\<lambda>gateway.
       ret (hd (split_on (CHR ''/'') gateway), addr @ ''/24''))))"

definition setupBuildContainerDirectory :: "'h world \<Rightarrow> string \<Rightarrow> (unit, 'h daemon) act" where
  "setupBuildContainerDirectory w containerDir =
     for_each (\<lambda>dir. fs_do w (Os_MkdirAll dir mode755))
       (containerDir # map (\<lambda>s. path_join [containerDir, s]) [''diff'', ''work'', ''merged'', ''etc'', ''logs'', ''cert''])"

definition setupBuildEtcFiles :: "'h world \<Rightarrow> string \<Rightarrow> string \<Rightarrow> string \<Rightarrow> (unit, 'h daemon) act" where
  "setupBuildEtcFiles w containerId containerAddr containerGateway =
     (let etcDir = path_join [ContainerRootDir, containerId, ''etc''];
          hostsData = ''127.0.0.1 localhost'' @ [newline] @ (split_n2 (CHR ''/'') containerAddr ! 0) @ '' '' @ containerId @ [newline] in
      seq (fs_do w (Os_WriteFile (path_join [etcDir, ''hosts'']) hostsData 420))
     (seq (fs_do w (Os_WriteFile (path_join [etcDir, ''hostname'']) (containerId @ [newline]) 420))
          (fs_do w (Os_WriteFile (path_join [etcDir, ''resolv.conf'']) (''nameserver '' @ containerGateway @ [newline]) 420))))"

definition setupBuildCgroup :: "'h world \<Rightarrow> string \<Rightarrow> (unit, 'h daemon) act" where
  "setupBuildCgroup w containerId = fs_do w (Os_MkdirAll (path_join [CgroupRuntimeDir, containerId]) mode755)"

definition writeBuildRunScript :: "'h world \<Rightarrow> string \<Rightarrow> string \<Rightarrow> (string, 'h daemon) act" where
  "writeBuildRunScript w upperDir runLine =
     (let hostPath = path_join [upperDir, ''raind-build'', ''run.sh''];
          content = ''#!/bin/sh'' @ [newline] @ ''set -ex'' @ [newline] @ runLine @ [newline] in
      seq (fs_do w (Os_MkdirAll (path_dir hostPath) mode755))
     (seq (fs_do w (Os_WriteFile hostPath content mode755)) (ret ''/raind-build/run.sh'')))"

text \<open>An error that says that something is missing already is passed over.\<close>

definition remove_existing :: "'h builder \<Rightarrow> string \<Rightarrow> (unit, 'h) act" where
  "remove_existing b path =
     bnd (attempt (b_do b (Os_Remove path))) (\<lambda>r. case r of Inl e \<Rightarrow> if is_not_exist b e then ret () else fail e | Inr _ \<Rightarrow> ret ())"

definition removeBuildRunScript :: "'h builder \<Rightarrow> string \<Rightarrow> (unit, 'h) act" where
  "removeBuildRunScript b mergedDir =
     (let runDir = path_join [mergedDir, ''raind-build''] in
      seq (remove_existing b (path_join [runDir, ''run.sh'']))
     (bnd (attempt (ask (os_readdir (b_os b) runDir))) (\<lambda>r.
        case r of
          Inl e \<Rightarrow> if is_not_exist b e then ret () else fail e
        | Inr entries \<Rightarrow> if entries = [] then remove_existing b runDir else ret ())))"

text \<open>
  The wait for the container to stop.  It ends at the deadline, so it returns when the clock advances; \<open>None\<close>
  says that it does not return.
\<close>

definition read_clock :: "'h world \<Rightarrow> 'h daemon \<Rightarrow> time \<times> 'h daemon" where
  "read_clock w d = (case im_now (w_image w) (d_host d) of (t, h) \<Rightarrow> (t, d\<lparr>d_host := h\<rparr>))"

partial_function (option) wait_stopped :: "'h world \<Rightarrow> string \<Rightarrow> time \<Rightarrow> 'h daemon \<Rightarrow> (ContainerInfo result \<times> 'h daemon) option" where
  "wait_stopped w containerId deadline d =
     (case read_clock w d of (now, d1) \<Rightarrow>
        if \<not> now < deadline then Some (Inl (Err (''timeout waiting for build container to stop: '' @ containerId)), d1)
        else (case csm_do (query (GetContainerById containerId)) d1 of (r, d2) \<Rightarrow>
          (case r of
             Inl e \<Rightarrow> wait_stopped w containerId deadline (w_sleep w d2)
           | Inr info \<Rightarrow>
               if c_State info = ''stopped'' then Some (Inr info, d2)
               else if c_State info \<in> {''running'', ''created'', ''creating''} then wait_stopped w containerId deadline (w_sleep w d2)
               else Some (Inl (Err (''unexpected container state: '' @ c_State info)), d2))))"

definition waitBuildContainerStopped :: "'h world \<Rightarrow> string \<Rightarrow> time \<Rightarrow> (ContainerInfo, 'h daemon) act" where
  "waitBuildContainerStopped w containerId timeout d =
     (case read_clock w d of (now, d1) \<Rightarrow>
        (case wait_stopped w containerId (now + timeout) d1 of
           Some r \<Rightarrow> r
         | None \<Rightarrow> (Inl (Panic ''the wait does not end''), d1)))"

fun log_tail :: "'h builder \<Rightarrow> string list \<Rightarrow> 'h \<Rightarrow> string" where
  "log_tail b [] h = ''''"
| "log_tail b (p # ps) h =
     (case os_read (b_os b) p h of
        Inl _ \<Rightarrow> log_tail b ps h
      | Inr t \<Rightarrow> let out = trim_space (drop (length t - 4096) t) in if out \<noteq> [] then out else log_tail b ps h)"

definition readBuildLogTail :: "'h builder \<Rightarrow> string \<Rightarrow> string \<Rightarrow> 'h \<Rightarrow> string" where
  "readBuildLogTail b logPath containerDir h =
     log_tail b (rev (remdups (rev ((if trim_space logPath \<noteq> [] then [logPath] else []) @
       [path_join [containerDir, ''logs'', ''console.log''], path_join [containerDir, ''logs'', ''init.log'']])))) h"

definition buildRunFailedError :: "'h builder \<Rightarrow> ContainerInfo \<Rightarrow> string \<Rightarrow> 'h \<Rightarrow> error" where
  "buildRunFailedError b info containerDir h =
     (let tail = readBuildLogTail b (c_LogPath info) containerDir h in
      Err (''RUN command failed: exit_code='' @ itoa (c_ExitCode info) @
        (if trim_space (c_Reason info) \<noteq> [] then '', reason='' @ c_Reason info else []) @
        (if trim_space (c_Message info) \<noteq> [] then '', message='' @ c_Message info else []) @
        (if tail \<noteq> [] then [newline] @ ''--- build log tail ---'' @ [newline] @ tail else [])))"

definition copyBuildConfig :: "'h builder \<Rightarrow> string \<Rightarrow> (unit, 'h) act" where
  "copyBuildConfig b containerDir =
     bnd (ask (os_read (b_os b) (path_join [containerDir, ''config.json'']))) (\<lambda>t.
       b_do b (Os_WriteFile (path_join [''/tmp'', ''raind-build-debug-config.json'']) t 420))"

record buildRollback =
  br_releaseAddr :: bool
  br_containerDir :: bool
  br_cgroup :: bool
  br_csmEntry :: bool

definition build_cleanup :: "'h world \<Rightarrow> buildRollback \<Rightarrow> string \<Rightarrow> (unit, 'h daemon) act" where
  "build_cleanup w f containerId =
     seq (if br_releaseAddr f then ignore (ipam_do (upd (Release containerId))) else ret ())
    (seq (if br_cgroup f then ignore (fs_do w (Os_RemoveAll (path_join [CgroupRuntimeDir, containerId]))) else ret ())
    (seq (if br_containerDir f then ignore (fs_do w (Os_RemoveAll (path_join [ContainerRootDir, containerId]))) else ret ())
         (if br_csmEntry f then ignore (csm_do (upd (RemoveContainer containerId))) else ret ())))"

definition build_spec ::
  "'h builder \<Rightarrow> buildState \<Rightarrow> string \<Rightarrow> string \<Rightarrow> string \<Rightarrow> string \<Rightarrow> string \<Rightarrow> string \<Rightarrow> string \<Rightarrow> SpecModel" where
  "build_spec b st containerId bridge hostInterface hookAddr runScriptPath containerAddr containerGateway =
     (let dir = path_join [ContainerRootDir, containerId];
          cert = path_join [ContainerRootDir, containerId, ''/cert/client.crt''];
          key = path_join [ContainerRootDir, containerId, ''/cert/client.key''];
          droplet = (\<lambda>event. hook_command (''https://'' @ hookAddr @ '':7756/v1/hooks/droplet'') event cert key);
          setter = ''RAIND-HOOK-SETTER=CONDENSER'' in
      \<lparr>s_Rootfs = path_join [dir, ''merged''], s_Cwd = bs_workdir st,
       s_Command = buildCommand (b_world b) [''/bin/sh'', ''-e''] [runScriptPath],
       s_Namespace = [''mount'', ''network'', ''uts'', ''pid'', ''ipc'', ''user'', ''cgroup''], s_NSPath = [], s_Hostname = containerId,
       s_Env = bs_env st, s_Mount = [], s_HostInterface = hostInterface, s_BridgeInterface = bridge,
       s_ContainerInterface = buildVethName containerId, s_ContainerInterfaceAddr = containerAddr, s_ContainerGateway = containerGateway,
       s_ContainerDns = [''8.8.8.8''], s_ImageLayer = [bs_rootfsPath st], s_UpperDir = path_join [dir, ''diff''], s_WorkDir = path_join [dir, ''work''],
       s_CreateRuntimeHook = [hook_command ''https://localhost:7757/v1/pki/sign'' ''requestCert'' ''/etc/raind/cert/raindHookClient.crt''
           ''/etc/raind/cert/raindHookClient.key'', droplet ''createRuntime''],
       s_CreateRuntimeHookEnv = [setter, setter], s_CreateContainerHook = [droplet ''createContainer''], s_CreateContainerHookEnv = [setter],
       s_StartContainerHook = [], s_StartContainerHookEnv = [], s_PoststartHook = [droplet ''poststart''], s_PoststartHookEnv = [setter],
       s_StopContainerHook = [droplet ''stopContainer''], s_StopContainerHookEnv = [setter], s_PoststopHook = [], s_PoststopHookEnv = [],
       s_Output = dir\<rparr>)"

text \<open>Before the container is entered in the store: interface, hook address and the script.\<close>

definition build_prepare ::
  "'h world \<Rightarrow> string \<Rightarrow> string list \<Rightarrow> (string \<times> string \<times> string, 'h daemon) act" where
  "build_prepare w containerId scriptLines =
     (let dir = path_join [ContainerRootDir, containerId]; runLine = str_join [newline] scriptLines in
      bnd (ipam_do (query GetDefaultInterface)) (\<lambda>hostInterface.
      bnd (ipam_do (query GetDefaultInterfaceAddr)) (\<lambda>hookAddr.
      if trim_space runLine = [] then fail (Err ''run command is empty'')
      else bnd (writeBuildRunScript w (path_join [dir, ''diff'']) runLine) (\<lambda>runScriptPath.
        bnd (w_now w) (\<lambda>now.
        seq (csm_do (upd (StoreContainer now containerId ''creating'' 0 True ''build'' ''build'' [''/bin/sh'', ''-e'', runScriptPath] containerId ''''
              (path_join [dir, ''logs'', ''console.log'']) '''')))
            (ret (hostInterface, hd (split_on (CHR ''/'') hookAddr), runScriptPath)))))))"

definition build_execute :: "'h builder \<Rightarrow> buildState \<Rightarrow> string \<Rightarrow> SpecModel \<Rightarrow> (unit, 'h daemon) act" where
  "build_execute b st containerId spec =
     (let w = b_world b; dir = path_join [ContainerRootDir, containerId]; upperDir = path_join [dir, ''diff''] in
      seq (droplet_Spec w spec)
     (seq (on_host (copyBuildConfig b dir))
     (seq (droplet_Create w containerId True 0)
     (seq (droplet_Start w containerId)
     (bnd (waitBuildContainerStopped w containerId 600000000000) (\<lambda>info.
        if c_ExitCode info \<noteq> 0 \<and> c_Message info \<noteq> ''process down detected.''
        then (\<lambda>d. (Inl (buildRunFailedError b info dir (d_host d)), d))
        else seq (ignore (on_host (removeBuildRunScript b upperDir)))
            (seq (droplet_Delete w containerId)
                 (on_host (applyOverlayUpper b upperDir (bs_rootfsPath st))))))))))"

text \<open>The stages once an address is held, each with what is to be cleaned up when it is the last one.\<close>

definition build_cleanup_at :: "'h world \<Rightarrow> string \<Rightarrow> bool \<Rightarrow> bool \<Rightarrow> bool \<Rightarrow> (unit, 'h daemon) act" where
  "build_cleanup_at w containerId dir cgroup entry =
     build_cleanup w \<lparr>br_releaseAddr = True, br_containerDir = dir, br_cgroup = cgroup, br_csmEntry = entry\<rparr> containerId"

definition build_stages ::
  "'h builder \<Rightarrow> buildState \<Rightarrow> string \<Rightarrow> string \<Rightarrow> string list \<Rightarrow> string \<times> string \<Rightarrow> (unit, 'h daemon) act" where
  "build_stages b st containerId bridge scriptLines = (\<lambda>(containerGateway, containerAddr).
     let w = b_world b; cleanup = build_cleanup_at w containerId in
     step_or (setupBuildContainerDirectory w (path_join [ContainerRootDir, containerId])) (cleanup False False False) (\<lambda>_.
     step_or (seq (setupBuildEtcFiles w containerId containerAddr containerGateway) (setupBuildCgroup w containerId)) (cleanup True False False) (\<lambda>_.
     step_or (build_prepare w containerId scriptLines) (cleanup True True False) (\<lambda>(hostInterface, hookAddr, runScriptPath).
       deferred (build_execute b st containerId
         (build_spec b st containerId bridge hostInterface hookAddr runScriptPath containerAddr containerGateway)) (cleanup True True True)))))"

definition runCommandInContainer :: "'h builder \<Rightarrow> buildState \<Rightarrow> string \<Rightarrow> string list \<Rightarrow> (unit, 'h daemon) act" where
  "runCommandInContainer b st bridge scriptLines =
     bnd (NewUlid (b_world b)) (\<lambda>u.
       if length u < 12 then fail (Panic ''slice bounds out of range'')
       else let containerId = ''build-'' @ take 12 u in
         bnd (allocateBuildAddress (b_world b) containerId bridge) (build_stages b st containerId bridge scriptLines))"

subsection \<open>The built image\<close>

definition built_path :: "string \<Rightarrow> string \<Rightarrow> string" where
  "built_path imageRepo imageRef =
     path_join [''/etc/raind/image/layers'', if str_contains imageRepo ''/'' then last (split_on (CHR ''/'') imageRepo) else imageRepo, imageRef]"

definition storeBuiltImage :: "'h builder \<Rightarrow> string \<Rightarrow> string \<Rightarrow> buildState \<Rightarrow> (unit, 'h daemon) act" where
  "storeBuiltImage b imageRepo imageRef st =
     (let w = b_world b; repoOut = built_path imageRepo imageRef; rootfsPath = path_join [repoOut, ''rootfs''];
          configPath = path_join [repoOut, ''config.json''];
          config = \<lparr>if_Config = \<lparr>ic_Env = bs_env st, ic_Cmd = bs_cmd st, ic_Entrypoint = bs_entrypoint st, ic_WorkingDir = bs_workdir st,
            ic_User = ''''\<rparr>\<rparr> in
      bnd (image_exists w imageRepo imageRef) (\<lambda>here.
      seq (if here then seq (ilm_do (upd (RemoveImage imageRepo imageRef))) (ignore (fs_do w (Os_RemoveAll repoOut))) else ret ())
     (seq (fs_do w (Os_MkdirAll repoOut mode755))
     (seq (on_host (copyDir b (bs_rootfsPath st) rootfsPath))
     (bnd (lift_res (b_config_text b config)) (\<lambda>t.
      seq (fs_do w (Os_WriteFile configPath t 420))
          (bnd (w_now w) (\<lambda>now. ilm_do (upd (StoreImage now imageRepo imageRef repoOut configPath rootfsPath))))))))))"

definition apply_instruction :: "'h builder \<Rightarrow> string \<Rightarrow> buildInstruction \<Rightarrow> (unit, 'h building) act" where
  "apply_instruction b contextDir ins =
     (let op = ins_op ins; args = ins_args ins in
      if op = ''FROM'' then bnd get_state (\<lambda>st.
        if bs_imageRepo st \<noteq> [] then fail (Err ''multi-stage build is not supported'') else applyFrom b args)
      else if op = ''WORKDIR'' then applyWorkdir b args
      else if op = ''ENV'' then applyEnv args
      else if op = ''COPY'' \<or> op = ''ADD'' then applyCopy b contextDir args
      else if op = ''RUN'' then applyRun b args
      else if op = ''CMD'' then applyCmd b args
      else if op = ''ENTRYPOINT'' then applyEntrypoint b args
      else fail (Err (''unsupported instruction: '' @ op)))"

definition no_build :: buildState where
  "no_build = \<lparr>bs_imageRepo = '''', bs_imageRef = '''', bs_rootfsPath = '''', bs_env = [], bs_workdir = ''/'', bs_cmd = [], bs_entrypoint = [],
     bs_runScript = []\<rparr>"

definition build_steps :: "'h builder \<Rightarrow> ServiceBuildModel \<Rightarrow> buildInstruction list \<Rightarrow> (string, 'h building) act" where
  "build_steps b p instructions =
     (let bridge = (if sb_Network p = [] then ''raind0'' else sb_Network p) in
      seq (for_each (apply_instruction b (sb_ContextDir p)) instructions)
     (bnd get_state (\<lambda>st.
        if bs_rootfsPath st = [] then fail (Err ''missing FROM instruction'')
        else seq (if bs_runScript st \<noteq> [] then at_daemon (runCommandInContainer b st bridge (bs_runScript st)) else ret ())
          (bnd (lift_res (image_parseImageRef (sb_Image p))) (\<lambda>(imageRepo, imageRef).
             seq (at_daemon (storeBuiltImage b imageRepo imageRef st)) (ret (imageRepo @ '':'' @ imageRef)))))))"

definition drop_rootfs :: "'h builder \<Rightarrow> (unit, 'h building) act" where
  "drop_rootfs b = bnd get_state (\<lambda>st. if bs_rootfsPath st \<noteq> [] then ignore (at_host (b_do b (Os_RemoveAll (bs_rootfsPath st)))) else ret ())"

definition Build :: "'h builder \<Rightarrow> ServiceBuildModel \<Rightarrow> (string, 'h daemon) act" where
  "Build b p =
     (if sb_Image p = [] then fail (Err ''image tag is required'')
      else if sb_ContextDir p = [] then fail (Err ''context dir is required'')
      else if sb_DripfilePath p = [] then fail (Err ''dripfile path is required'')
      else bnd (on_host (parseDripfile b (sb_DripfilePath p))) (\<lambda>instructions d.
        case deferred (build_steps b p instructions) (drop_rootfs b) \<lparr>bd_state = no_build, bd_daemon = d\<rparr> of
          (r, s) \<Rightarrow> (r, bd_daemon s)))"

subsection \<open>The endpoint (api/http/image/handler.go)\<close>

text \<open>The three query parameters, the archive of the context, and the answer with the name of the image.\<close>

definition BuildImage ::
  "'h builder \<Rightarrow> string \<Rightarrow> string \<Rightarrow> string \<Rightarrow> string \<Rightarrow> tar_item list \<Rightarrow> ((nat \<times> string) \<times> string, 'h daemon) act" where
  "BuildImage b tag dripfile0 dockerfile network body =
     (if tag = [] then ret ((400, ''missing tag query''), '''')
      else
        (let dripfile = (if dripfile0 \<noteq> [] then dripfile0 else if dockerfile \<noteq> [] then dockerfile else ''Dripfile'') in
         bnd (attempt (on_host (b_mkdtemp b ''raind-build-context-''))) (\<lambda>t.
           case t of
             Inl e \<Rightarrow> ret ((500, ''create temp dir failed: '' @ err_text e), '''')
           | Inr tmpDir \<Rightarrow>
               deferred
                 (bnd (attempt (on_host (ExtractTarToDir b body tmpDir))) (\<lambda>x.
                    case x of
                      Inl e \<Rightarrow> ret ((400, ''invalid build context: '' @ err_text e), '''')
                    | Inr _ \<Rightarrow>
                        let dfPath = path_join [tmpDir, path_clean dripfile] in
                        case path_rel tmpDir dfPath of
                          Inl _ \<Rightarrow> ret ((400, ''invalid dripfile path''), '''')
                        | Inr rel \<Rightarrow>
                            if has_prefix rel ''..'' then ret ((400, ''invalid dripfile path''), '''')
                            else bnd (attempt (Build b \<lparr>sb_Image = tag, sb_ContextDir = tmpDir, sb_DripfilePath = dfPath, sb_Network = network\<rparr>)) (\<lambda>r.
                              case r of
                                Inl e \<Rightarrow> ret ((500, ''build failed: '' @ err_text e), '''')
                              | Inr img \<Rightarrow> ret ((200, ''build completed''), img))))
                 (on_host (b_do b (Os_RemoveAll tmpDir))))))"

end
