(* ===== verification/Build_Facts.thy ===== *)
theory Build_Facts
  imports Image_Build Container_Facts
begin

text \<open>
  What building an image keeps: waiting ends, instructions are read as written, the host is only changed
  below the root of the new image, and the container of the build leaves nothing behind.
\<close>

subsection \<open>The wait for the build container ends\<close>

text \<open>What is relied on of the clock: it does not go back, and it advances while the daemon sleeps.\<close>

definition clock_laws :: "'h world \<Rightarrow> bool" where
  "clock_laws w \<longleftrightarrow>
     (\<forall>h t h'. im_now (w_image w) h = (t, h') \<longrightarrow> t \<le> fst (im_now (w_image w) h')) \<and>
     (\<forall>d. fst (im_now (w_image w) (d_host d)) < fst (im_now (w_image w) (d_host (w_sleep w d))))"

lemma query_host: "csm_do (query f) d = (r, d') \<Longrightarrow> d_host d' = d_host d"
  by (auto simp: access_def split: prod.splits)

lemma query_found: "csm_do (query (GetContainerById i)) d = (Inr c, d') \<Longrightarrow> c_ContainerId c = i \<and> d_csm d' = d_csm d"
  by (cases "d_io d"; cases "hd (d_io d)")
    (auto simp: access_def store_access_simps query_def GetContainerById_def split: prod.splits sum.splits option.splits list.splits
      dest!: range_find_SomeD)

definition waited :: "string \<Rightarrow> ContainerInfo result \<Rightarrow> bool" where
  "waited containerId r \<longleftrightarrow> (case r of Inl e \<Rightarrow> \<exists>m. e = Err m | Inr info \<Rightarrow> c_ContainerId info = containerId \<and> c_State info = ''stopped'')"

lemma wait_stopped_returns:
  assumes "clock_laws w"
  shows "\<exists>r d'. wait_stopped w containerId deadline d = Some (r, d') \<and> waited containerId r"
proof (induction "nat (deadline - fst (im_now (w_image w) (d_host d)))" arbitrary: d rule: less_induct)
  case less
  obtain now h where n: "im_now (w_image w) (d_host d) = (now, h)" by fastforce
  let ?d1 = "d\<lparr>d_host := h\<rparr>"
  have clock: "read_clock w d = (now, ?d1)" by (simp add: read_clock_def n)
  show ?case
  proof (cases "now < deadline")
    case False
    then show ?thesis by (subst wait_stopped.simps) (simp add: clock waited_def)
  next
    case True
    obtain x d2 where x: "csm_do (query (GetContainerById containerId)) ?d1 = (x, d2)" by fastforce
    have "d_host d2 = h" using query_host [OF x] by simp
    then have "now < fst (im_now (w_image w) (d_host (w_sleep w d2)))"
      using assms n unfolding clock_laws_def by (metis le_less_trans)
    then have again: "\<exists>r d'. wait_stopped w containerId deadline (w_sleep w d2) = Some (r, d') \<and> waited containerId r"
      using True n by (intro less) simp
    have found: "c_ContainerId info = containerId" if "x = Inr info" for info using query_found [OF x [unfolded that]] by simp
    show ?thesis
      by (subst wait_stopped.simps) (use True again found in \<open>auto simp: clock x waited_def split: sum.split\<close>)
  qed
qed

text \<open>C25: waiting for a build container always ends.  When the clock advances while the daemon sleeps, the loop
  returns, whatever the runtime and other requests do to the stores meanwhile: with the information of the very
  container, which is stopped, or with an error; it never panics.\<close>

theorem build_wait_returns:
  assumes "clock_laws w"
  shows "\<exists>r d'. waitBuildContainerStopped w containerId timeout d = (r, d') \<and>
    wait_stopped w containerId (fst (read_clock w d) + timeout) (snd (read_clock w d)) = Some (r, d') \<and>
    (case r of Inl e \<Rightarrow> \<exists>m. e = Err m | Inr info \<Rightarrow> c_ContainerId info = containerId \<and> c_State info = ''stopped'')"
proof -
  obtain r d' where "wait_stopped w containerId (fst (read_clock w d) + timeout) (snd (read_clock w d)) = Some (r, d')" "waited containerId r"
    using wait_stopped_returns [OF assms] by blast
  then show ?thesis by (auto simp: waitBuildContainerStopped_def waited_def split: prod.split)
qed

text \<open>A machine whose clock counts the characters of a file and advances by one when the daemon sleeps.\<close>

definition ticks :: "(string \<rightharpoonup> string) \<Rightarrow> string" where
  "ticks h = (case h ''clock'' of None \<Rightarrow> '''' | Some t \<Rightarrow> t)"

definition ticking_world :: "(string \<rightharpoonup> string) world" where
  "ticking_world = demo_world\<lparr>w_image := demo_image_env\<lparr>im_now := (\<lambda>h. (int (length (ticks h)), h))\<rparr>,
     w_sleep := (\<lambda>d. d\<lparr>d_host := (d_host d)(''clock'' \<mapsto> ticks (d_host d) @ ''x'')\<rparr>)\<rparr>"

lemma ticking_laws: "clock_laws ticking_world"
  by (auto simp: clock_laws_def ticking_world_def ticks_def)

theorem build_wait_returns_witness:
  "\<exists>r d'. waitBuildContainerStopped ticking_world ''absent'' 3 demo_machine = (r, d') \<and> waited ''absent'' r"
  using build_wait_returns [OF ticking_laws, of "''absent''" 3 demo_machine] unfolding waited_def by blast

subsection \<open>A Dripfile is read as written\<close>

definition show_ins :: "buildInstruction \<Rightarrow> string" where
  "show_ins i = ins_op i @ '' '' @ ins_args i"

text \<open>An instruction that can be written in one line.\<close>

definition wf_ins :: "buildInstruction \<Rightarrow> bool" where
  "wf_ins i \<longleftrightarrow> ins_op i \<noteq> [] \<and> list_all (\<lambda>c. \<not> is_space c) (ins_op i) \<and> to_upper (ins_op i) = ins_op i \<and> hd (ins_op i) \<noteq> CHR ''#'' \<and>
     ins_args i \<noteq> [] \<and> trim_space (ins_args i) = ins_args i \<and> newline \<notin> set (ins_args i) \<and> last (ins_args i) \<noteq> backslash"

lemma trim_space_iff: "s \<noteq> [] \<Longrightarrow> trim_space s = s \<longleftrightarrow> \<not> is_space (hd s) \<and> \<not> is_space (last s)"
proof -
  assume "s \<noteq> []"
  then obtain c t where s: "s = c # t" by (cases s) auto
  show ?thesis
  proof (cases "is_space c")
    case True
    have "length (trim_space s) \<le> length t"
      using True length_dropWhile_le [of is_space "rev (dropWhile is_space t)"] length_dropWhile_le [of is_space t]
      by (simp add: trim_space_def s)
    then have "trim_space s \<noteq> s" by (auto simp: s)
    then show ?thesis using True s by simp
  next
    case False
    have "rev (dropWhile is_space (rev s)) = s \<longleftrightarrow> \<not> is_space (last s)"
      using \<open>s \<noteq> []\<close> by (metis dropWhile_eq_self_iff hd_rev rev_is_Nil_conv rev_swap)
    then show ?thesis using False by (simp add: trim_space_def s)
  qed
qed

lemma newline_space: "is_space newline" "newline \<noteq> CHR '' ''"
  by code_simp+

lemma show_ins_line:
  assumes "wf_ins i"
  shows "trim_space (show_ins i) = show_ins i" "show_ins i \<noteq> []" "\<not> has_prefix (show_ins i) ''#''"
    "\<not> has_suffix (show_ins i) [backslash]" "newline \<notin> set (show_ins i)"
proof -
  obtain c op where op: "ins_op i = c # op" using assms by (cases "ins_op i") (auto simp: wf_ins_def)
  have a: "ins_args i \<noteq> []" "\<not> is_space (last (ins_args i))" "last (ins_args i) \<noteq> backslash"
    using assms trim_space_iff [of "ins_args i"] by (auto simp: wf_ins_def)
  have c: "\<not> is_space c" "c \<noteq> CHR ''#''" using assms by (auto simp: wf_ins_def op)
  have e: "hd (show_ins i) = c" "last (show_ins i) = last (ins_args i)" "show_ins i \<noteq> []"
    using a(1) by (simp_all add: show_ins_def op)
  show "show_ins i \<noteq> []" by (rule e(3))
  show "trim_space (show_ins i) = show_ins i" using trim_space_iff [OF e(3)] e(1,2) a(2) c(1) by simp
  show "\<not> has_prefix (show_ins i) ''#''" using c(2) by (simp add: show_ins_def op has_prefix_def)
  have "hd (rev (show_ins i)) \<noteq> backslash" using a(3) e by (simp add: hd_rev)
  then show "\<not> has_suffix (show_ins i) [backslash]" using e(3) by (cases "rev (show_ins i)") (auto simp: has_suffix_def has_prefix_def)
  show "newline \<notin> set (show_ins i)" using assms newline_space by (auto simp: show_ins_def wf_ins_def list_all_iff)
qed

lemma parse_line_show:
  assumes "wf_ins i"
  shows "parse_line (show_ins i) = [i]"
proof -
  obtain c op where op: "ins_op i = c # op" using assms by (cases "ins_op i") (auto simp: wf_ins_def)
  have ns: "\<not> is_space c" "\<forall>x \<in> set op. \<not> is_space x" using assms by (auto simp: wf_ins_def op list_all_iff)
  have sp: "is_space (CHR '' '')" by (simp add: is_space_def)
  have "takeWhile (\<lambda>x. \<not> is_space x) (op @ CHR '' '' # ins_args i) = op" using ns(2) sp by (simp add: takeWhile_append2)
  then have f: "\<exists>rest. str_fields (show_ins i) = ins_op i # rest" using ns(1) by (simp add: show_ins_def op)
  have "trim_space (CHR '' '' # ins_args i) = trim_space (ins_args i)" using sp by (simp add: trim_space_def)
  then show ?thesis using f assms by (auto simp: parse_line_def show_ins_def wf_ins_def)
qed

lemma join_lines_show: "list_all wf_ins is \<Longrightarrow> join_lines [] (map show_ins is) = map show_ins is"
  by (induction "is") (simp_all add: show_ins_line Let_def)

text \<open>C27: a Dripfile is read as it is written: the instructions of a build, written one per line, are parsed back in
  their order with their arguments.\<close>

theorem dripfile_roundtrip:
  assumes "list_all wf_ins is"
  shows "parse_text (str_join [newline] (map show_ins is)) = is"
proof (cases "is = []")
  case True
  then show ?thesis by (simp add: parse_text_def trim_space_def)
next
  case False
  have "split_on newline (str_join [newline] (map show_ins is)) = map show_ins is"
    using assms False show_ins_line(5) by (intro split_on_join) (auto simp: list_all_iff)
  then have "parse_text (str_join [newline] (map show_ins is)) = concat (map parse_line (map show_ins is))"
    using assms by (simp add: parse_text_def join_lines_show)
  also have "\<dots> = is" using assms by (induction "is") (simp_all add: parse_line_show)
  finally show ?thesis .
qed

theorem dripfile_roundtrip_witness:
  "parse_text (''FROM alpine:3.20'' @ [newline] @ ''ENV A=1 B=2'' @ [newline] @ ''RUN make'') =
     [\<lparr>ins_op = ''FROM'', ins_args = ''alpine:3.20''\<rparr>, \<lparr>ins_op = ''ENV'', ins_args = ''A=1 B=2''\<rparr>, \<lparr>ins_op = ''RUN'', ins_args = ''make''\<rparr>]"
proof -
  let ?is = "[\<lparr>ins_op = ''FROM'', ins_args = ''alpine:3.20''\<rparr>, \<lparr>ins_op = ''ENV'', ins_args = ''A=1 B=2''\<rparr>, \<lparr>ins_op = ''RUN'', ins_args = ''make''\<rparr>]"
  have "list_all wf_ins ?is" by code_simp
  from dripfile_roundtrip [OF this] show ?thesis by (simp add: show_ins_def)
qed

text \<open>A line that holds a backslash only shifts the text of the next instruction against its fields.\<close>

lemma lone_backslash_corrupts:
  "parse_text ([backslash, newline] @ ''RUN ls'') = [\<lparr>ins_op = ''RUN'', ins_args = ''N ls''\<rparr>]"
  by code_simp

subsection \<open>Where a build writes\<close>







lemma stable_ask [stable_intros]: "stable P (ask f)"
  by (simp add: stable_def ask_def)
























text \<open>A machine that records the calls, with a build in the directory \<open>/r\<close>.\<close>

definition trace_builder :: "os_call list builder" where
  "trace_builder = \<lparr>b_world = \<lparr>w_run = (\<lambda>c h. (True, h)), w_droplet = (\<lambda>cmd d. (('''', None), d)),
       w_image = \<lparr>im_hub = \<lparr>hub_os = (trace_os [])\<lparr>os_read := \<lambda>p h. Inr ''data''\<rparr>, hub_get = (\<lambda>u hs h. (Inl (Err ''offline''), h)), hub_token_url = (\<lambda>a b c. Inr a),
           hub_token_json = (\<lambda>b. Inl (Err ''offline'')), hub_list_json = (\<lambda>b. Inr []), hub_manifest_json = (\<lambda>b. Inl (Err ''offline'')),
           hub_sha256 = rev\<rparr>,
         im_config_json = (\<lambda>b. Inl (Err ''no config'')), im_not_exist = (\<lambda>e. False), im_GOOS = ''linux'', im_GOARCH = ''amd64'',
         im_walk = (\<lambda>p h. []), im_now = (\<lambda>h. (7, h))\<rparr>,
       w_busy = (\<lambda>e. False), w_rand = (\<lambda>n h. (Inr 0, h)), w_ulid = (\<lambda>h. (''c12345678901xyz'', h)), w_quote = (\<lambda>s. s), w_sleep = (\<lambda>d. d)\<rparr>,
     b_lstat = (\<lambda>p h. Inr (if p = ''/ctx/app'' then \<lparr>fi_Kind = Kind_regular, fi_Perm = 420, fi_Mode = 420\<rparr>
        else \<lparr>fi_Kind = Kind_dir, fi_Perm = mode755, fi_Mode = mode755\<rparr>)),
     b_readlink = (\<lambda>p h. Inr ''''), b_open = (\<lambda>p h. Inr ()),
     b_mkdtemp = (\<lambda>p h. (Inr ''/r'', h)), b_exec_json = (\<lambda>s. Inr [s]), b_config_text = (\<lambda>c. Inr ''{}'')\<rparr>"

definition trace_build :: "os_call list building" where
  "trace_build = \<lparr>bd_state = no_build\<lparr>bs_rootfsPath := ''/r''\<rparr>, bd_daemon = demo_daemon npm_initial []\<rparr>"



text \<open>A link of the base image is followed: where \<open>/var/run\<close> of the image leads to \<open>/run\<close>, the directory that
  \<open>WORKDIR\<close> makes and the file that \<open>COPY\<close> writes are those of the host.\<close>

lemma copy_through_link:
  "d_host (bd_daemon (snd (for_each (apply_instruction trace_builder ''/ctx'')
       [\<lparr>ins_op = ''WORKDIR'', ins_args = ''/var/run''\<rparr>, \<lparr>ins_op = ''COPY'', ins_args = ''app .''\<rparr>] trace_build))) =
     [Os_MkdirAll ''/r/var/run'' mode755, Os_MkdirAll ''/r/var/run'' mode755, Os_Create ''/r/var/run/app'' 420,
      Os_Copy ''/r/var/run/app'' (Inr ''data''), Os_Close ''/r/var/run/app'']"
  by code_simp

text \<open>A machine that notes the paths it is given.\<close>

definition touch_os :: "(string \<rightharpoonup> string) os" where
  "touch_os = \<lparr>os_do = (\<lambda>c h. (Inr (), fold (\<lambda>p h. h(p \<mapsto> '''')) (call_paths c) h)), os_stat = (\<lambda>p h. Stat_dir),
     os_readdir = (\<lambda>p h. Inr [''a'']), os_tar = (\<lambda>p h. Inr []), os_read = (\<lambda>p h. Inr '''')\<rparr>"

definition touch_builder :: "(string \<rightharpoonup> string) builder" where
  "touch_builder = \<lparr>b_world = demo_world\<lparr>w_image := demo_image_env\<lparr>im_hub := demo_hub\<lparr>hub_os := touch_os\<rparr>\<rparr>\<rparr>,
     b_lstat = (\<lambda>p h. Inr \<lparr>fi_Kind = Kind_dir, fi_Perm = mode755, fi_Mode = mode755\<rparr>), b_readlink = (\<lambda>p h. Inr ''''), b_open = (\<lambda>p h. Inr ()),
     b_mkdtemp = (\<lambda>p h. (Inr ''/r'', h)), b_exec_json = (\<lambda>s. Inr [s]), b_config_text = (\<lambda>c. Inr ''{}'')\<rparr>"

text \<open>
  What the script leaves is not confined in this way: a file \<open>.wh...\<close> of its upper directory stands for the
  removal of \<open>..\<close>, and the directory above the root file system is removed.
\<close>

lemma whiteout_climbs:
  "overlay_entry touch_builder ''/u'' ''/tmp/r'' ''/u/.wh...'' None h = (Inr (), h(''/tmp'' \<mapsto> ''''))"
  by (simp add: overlay_entry_def path_rel_def path_elems_def path_base_def path_dir_def path_clean_def path_join_def has_prefix_def trim_prefix_def
      Let_def touch_builder_def touch_os_def)

text \<open>What the overlay file system itself leaves for a removed file is a device: it is passed over.\<close>

lemma device_ignored:
  "b_lstat b ''/u/etc/motd'' h = Inr \<lparr>fi_Kind = Kind_other, fi_Perm = p, fi_Mode = m\<rparr> \<Longrightarrow> overlay_entry b ''/u'' ''/r'' ''/u/etc/motd'' None h = (Inr (), h)"
  by (simp add: overlay_entry_def path_rel_def path_elems_def path_base_def path_dir_def path_clean_def path_join_def has_prefix_def
      Let_def ask_def bnd_def)

subsection \<open>What a build leaves in the stores\<close>

text \<open>
  While the daemon sleeps the hooks of the container may run: they leave the address store and the entries
  of all other containers as they are.  The removal of a directory does not panic.
\<close>

definition sleep_laws :: "'h world \<Rightarrow> string \<Rightarrow> bool" where
  "sleep_laws w cid \<longleftrightarrow> (\<forall>d. io_ok d \<and> csm_inv (d_csm d) \<longrightarrow> io_ok (w_sleep w d) \<and> d_ipam (w_sleep w d) = d_ipam d \<and>
     csm_inv (d_csm (w_sleep w d)) \<and> (\<forall>j. j \<noteq> cid \<longrightarrow> map_of (Containers (d_csm (w_sleep w d))) j = map_of (Containers (d_csm d)) j))"

definition no_panic_removal :: "'h world \<Rightarrow> bool" where
  "no_panic_removal w \<longleftrightarrow> (\<forall>p h s. fst (os_do (w_os w) (Os_RemoveAll p) h) \<noteq> Inl (Panic s))"

text \<open>The container has its address and has no entry yet.\<close>

definition unentered :: "addresses \<Rightarrow> (string \<rightharpoonup> ContainerInfo) \<Rightarrow> string \<Rightarrow> string \<Rightarrow> IpamState \<Rightarrow> ContainerState \<Rightarrow> bool" where
  "unentered V M cid b ip cs \<longleftrightarrow> held V M cid (Some b) (\<lambda>_. True) ip cs \<and> map_of (Containers cs) cid = None"

lemma unentered_held: "stores_ok (unentered V M cid b) d \<Longrightarrow> stores_ok (held V M cid (Some b) (\<lambda>_. True)) d"
  by (simp add: stores_ok_def unentered_def)

lemma step_or_post:
  assumes "\<And>e t. m s = (Inl e, t) \<Longrightarrow> Q (snd (c t))" "\<And>x t. m s = (Inr x, t) \<Longrightarrow> Q (snd (k x t))"
  shows "Q (snd (step_or m c k s))"
  using assms by (auto simp: step_or_def split: prod.split sum.split)

lemma step_or_stable:
  assumes "stable U m" "U s" "\<And>t. U t \<Longrightarrow> Q (snd (c t))" "\<And>x t. U t \<Longrightarrow> Q (snd (k x t))"
  shows "Q (snd (step_or m c k s))"
proof (rule step_or_post)
  fix e t assume "m s = (Inl e, t)"
  from stableD [OF assms(1) this assms(2)] show "Q (snd (c t))" by (rule assms(3))
next
  fix x t assume "m s = (Inr x, t)"
  from stableD [OF assms(1) this assms(2)] show "Q (snd (k x t))" by (rule assms(4))
qed

lemma deferred_post: "(\<And>r t. m s = (r, t) \<Longrightarrow> Q (snd (c t))) \<Longrightarrow> Q (snd (deferred m c s))"
  by (auto simp: deferred_def split: prod.split)

lemma ignore_remove: "no_panic_removal w \<Longrightarrow> \<exists>h. (if f then ignore (fs_do w (Os_RemoveAll p)) else ret ()) d = (Inr (), d\<lparr>d_host := h\<rparr>)"
proof (cases f)
  case True
  assume c: "no_panic_removal w"
  obtain r h where r: "os_do (w_os w) (Os_RemoveAll p) (d_host d) = (r, h)" by fastforce
  then have "r = Inr () \<or> (\<exists>e. r = Inl (Err e))" using c unfolding no_panic_removal_def by (cases r) (metis fst_conv error.exhaust, simp)
  then show ?thesis using True r by (auto simp: ignore_def on_host_def attempt_def bnd_def)
qed (auto intro: exI [of _ "d_host d"])

lemma ignore_entry: "snd (ignore (csm_do (upd (RemoveContainer cid))) d) = snd (rollback_entry cid d)"
  by (auto simp: ignore_def rollback_entry_def bnd_def split: prod.split sum.split)

lemma build_cleanup_clean:
  assumes fr: "fresh V M cid" and no_panic_removal: "no_panic_removal w" and d: "stores_ok (held V M cid (Some b) F) d" and f: "br_releaseAddr f"
    and entry: "br_csmEntry f \<or> map_of (Containers (d_csm d)) cid = None"
  shows "stores_ok (clean V M) (snd (build_cleanup w f cid d))"
proof -
  obtain d1 where d1: "releaseAddress cid d = (Inr (), d1)" "stores_ok (held V M cid None F) d1" by (rule release_held [OF fr d])
  have csm: "d_csm d1 = d_csm d" using d1(1) by (auto simp: releaseAddress_def access_def split: prod.splits)
  obtain h2 where d2: "(if br_cgroup f then ignore (fs_do w (Os_RemoveAll (path_join [CgroupRuntimeDir, cid]))) else ret ()) d1 = (Inr (), d1\<lparr>d_host := h2\<rparr>)"
    using ignore_remove [OF no_panic_removal] by blast
  obtain h3 where d3: "(if br_containerDir f then ignore (fs_do w (Os_RemoveAll (path_join [ContainerRootDir, cid]))) else ret ()) (d1\<lparr>d_host := h2\<rparr>) =
    (Inr (), d1\<lparr>d_host := h3\<rparr>)" using ignore_remove [OF no_panic_removal, of "br_containerDir f" _ "d1\<lparr>d_host := h2\<rparr>"] by auto
  have run: "build_cleanup w f cid d = (if br_csmEntry f then ignore (csm_do (upd (RemoveContainer cid))) else ret ()) (d1\<lparr>d_host := h3\<rparr>)"
    using f d1(1) d2 d3 by (simp add: build_cleanup_def releaseAddress_def ignore_def)
  have s: "stores_ok (held V M cid None F) (d1\<lparr>d_host := h3\<rparr>)" using d1(2) by (simp add: stores_ok_def)
  show ?thesis
  proof (cases "br_csmEntry f")
    case True
    obtain d4 where "rollback_entry cid (d1\<lparr>d_host := h3\<rparr>) = (Inr (), d4)" "stores_ok (clean V M) d4" by (rule remove_entry [OF fr s])
    then show ?thesis using run True ignore_entry [of cid "d1\<lparr>d_host := h3\<rparr>"] by simp
  next
    case False
    then have "map_of (Containers (d_csm d1)) j = M j" for j
      using entry csm fr s by (cases "j = cid") (simp_all add: stores_ok_def held_def fresh_def)
    then show ?thesis using run False s by (simp add: stores_ok_def held_def clean_def fun_eq_iff)
  qed
qed

lemma store_entry_held:
  assumes d: "stores_ok (held V M cid own F) d"
  obtains d' where "csm_do (upd (StoreContainer now cid state pid tty repo ref cmd name bottle log pod)) d = (Inr (), d')"
    "stores_ok (held V M cid own F) d'"
proof -
  define op where "op = Op_StoreContainer now cid state pid tty repo ref cmd name bottle log pod"
  have io: "io_ok d" and inv: "csm_inv (d_csm d)" using d by (auto simp: stores_ok_def held_def)
  obtain cs where cs: "csm_apply op (d_csm d) = Inr cs" by (simp add: op_def StoreContainer_def)
  have "map_of (Containers cs) j = map_of (Containers (d_csm d)) j" if "j \<noteq> cid" for j
    using csm_view_other [OF inv cs, of j] that by (simp add: op_def)
  then have "stores_ok (held V M cid own F) (d\<lparr>d_csm := cs\<rparr>)" using d csm_apply_inv [OF inv cs] by (simp add: stores_ok_def held_def)
  then show ?thesis using that [of "d\<lparr>d_csm := cs\<rparr>"] csm_upd_step(1) [of d "csm_apply op", OF io cs] by (simp add: op_def)
qed

lemma prepare_held:
  assumes d: "stores_ok (unentered V M cid b) d" and run: "build_prepare w cid ls d = (r, d')"
  shows "case r of Inl e \<Rightarrow> stores_ok (unentered V M cid b) d' | Inr x \<Rightarrow> stores_ok (held V M cid (Some b) (\<lambda>_. True)) d'"
proof -
  let ?U = "stores_ok (unentered V M cid b)"
  define first where "first = bnd (ipam_do (query GetDefaultInterface)) (\<lambda>hostInterface.
      bnd (ipam_do (query GetDefaultInterfaceAddr)) (\<lambda>hookAddr.
      if trim_space (str_join [newline] ls) = [] then fail (Err ''run command is empty'')
      else bnd (writeBuildRunScript w (path_join [path_join [ContainerRootDir, cid], ''diff'']) (str_join [newline] ls)) (\<lambda>runScriptPath.
        bnd (w_now w) (\<lambda>now. ret (hostInterface, hookAddr, runScriptPath, now)))))"
  define last where "last = (\<lambda>(hostInterface :: string, hookAddr, runScriptPath, now).
      seq (csm_do (upd (StoreContainer now cid ''creating'' 0 True ''build'' ''build'' [''/bin/sh'', ''-e'', runScriptPath] cid ''''
            (path_join [path_join [ContainerRootDir, cid], ''logs'', ''console.log'']) '''')))
          ((ret (hostInterface, hd (split_on (CHR ''/'') hookAddr), runScriptPath)) :: (string \<times> string \<times> string, 'a daemon) act))"
  have split: "build_prepare w cid ls d = bnd first last d"
    by (auto simp: build_prepare_def Let_def first_def last_def bnd_def split: prod.split sum.split)
  have "stable ?U first" unfolding first_def writeBuildRunScript_def Let_def by (intro store_intros)
  moreover obtain x d1 where x: "first d = (x, d1)" by fastforce
  ultimately have d1: "?U d1" using d by (metis stableD)
  show ?thesis
  proof (cases x)
    case (Inl e)
    then show ?thesis using run x d1 split by auto
  next
    case (Inr y)
    obtain hi ha p now where y: "y = (hi, ha, p, now)" by (metis prod_cases4)
    obtain d2 where "csm_do (upd (StoreContainer now cid ''creating'' 0 True ''build'' ''build'' [''/bin/sh'', ''-e'', p] cid ''''
        (path_join [path_join [ContainerRootDir, cid], ''logs'', ''console.log'']) '''')) d1 = (Inr (), d2)"
      "stores_ok (held V M cid (Some b) (\<lambda>_. True)) d2" by (rule store_entry_held [OF unentered_held [OF d1]])
    then show ?thesis using run x Inr y split by (auto simp: last_def)
  qed
qed

lemma sleep_held: "sleep_laws w cid \<Longrightarrow> stores_ok (held V M cid own F) d \<Longrightarrow> stores_ok (held V M cid own F) (w_sleep w d)"
proof -
  assume s: "sleep_laws w cid" and d: "stores_ok (held V M cid own F) d"
  then have "io_ok d \<and> csm_inv (d_csm d)" by (simp add: stores_ok_def held_def)
  with s have "io_ok (w_sleep w d) \<and> d_ipam (w_sleep w d) = d_ipam d \<and> csm_inv (d_csm (w_sleep w d)) \<and>
    (\<forall>j. j \<noteq> cid \<longrightarrow> map_of (Containers (d_csm (w_sleep w d))) j = map_of (Containers (d_csm d)) j)" unfolding sleep_laws_def by blast
  then show ?thesis using d by (simp add: stores_ok_def held_def)
qed

lemma wait_stopped_held:
  assumes "wait_stopped w cid deadline d = Some (r, d')" "sleep_laws w cid" "stores_ok (held V M cid own F) d"
  shows "stores_ok (held V M cid own F) d'"
proof -
  let ?H = "stores_ok (held V M cid own F)"
  have "i = cid \<longrightarrow> sleep_laws w i \<longrightarrow> ?H d \<longrightarrow> ?H (snd rd)" if "wait_stopped w i deadline d = Some rd" for w i deadline d rd
    using that
  proof (rule wait_stopped.raw_induct [where P = "\<lambda>w i dl d rd. i = cid \<longrightarrow> sleep_laws w i \<longrightarrow> ?H d \<longrightarrow> ?H (snd rd)", rotated], goal_cases)
    case (1 wait w i dl d rd)
    obtain now d1 where c: "read_clock w d = (now, d1)" by fastforce
    obtain x d2 where x: "csm_do (query (GetContainerById i)) d1 = (x, d2)" by fastforce
    have h: "?H d1 \<and> ?H d2" if "?H d"
    proof -
      have "?H d1" using that c by (auto simp: read_clock_def stores_ok_def split: prod.splits)
      then show ?thesis using stableD [OF access_stores(4) x] by blast
    qed
    have again: "i = cid \<longrightarrow> sleep_laws w i \<longrightarrow> ?H d \<longrightarrow> ?H (snd rd)" if "wait w i dl (w_sleep w d2) = Some rd"
      using 1(1) [OF that] sleep_held [of w cid V M own F d2] h by blast
    show ?case using 1(2) again h unfolding c x prod.case by (auto split: if_splits sum.splits)
  qed
  from this [OF assms(1)] show ?thesis using assms(2,3) by simp
qed

lemma execute_held:
  fixes b :: "'a builder"
  assumes laws: "runtime_laws (b_world b) cid" "sleep_laws (b_world b) cid"
  shows "stable (stores_ok (held V M cid own F)) (build_execute b st cid spec)"
proof -
  let ?H = "stores_ok (held V M cid own F) :: 'a daemon \<Rightarrow> bool"
  have wait: "stable ?H (waitBuildContainerStopped (b_world b) cid t)" for t
    unfolding stable_def
  proof (intro allI impI)
    fix d :: "'a daemon"
    assume d: "stores_ok (held V M cid own F) d"
    obtain now d1 where c: "read_clock (b_world b) d = (now, d1)" by fastforce
    have "?H d1" using d c by (auto simp: read_clock_def stores_ok_def split: prod.splits)
    then show "stores_ok (held V M cid own F) (snd (waitBuildContainerStopped (b_world b) cid t d))"
      using wait_stopped_held [OF _ laws(2)] c by (auto simp: waitBuildContainerStopped_def split: option.split)
  qed
  have "stable ?H (droplet_Start (b_world b) cid)" "stable ?H (droplet_Delete (b_world b) cid)"
    unfolding droplet_Start_def droplet_Delete_def by (rule droplet_held [OF laws(1)], simp)+
  moreover have "stable ?H (\<lambda>d. (Inl (e d), d))" for e :: "'a daemon \<Rightarrow> error" by (simp add: stable_def)
  ultimately show ?thesis
    unfolding build_execute_def Let_def by (intro store_intros wait runtime_held [OF laws(1)])
qed

lemma stages_clean:
  fixes b :: "'a builder"
  assumes fr: "fresh V M cid" and laws: "runtime_laws (b_world b) cid" "sleep_laws (b_world b) cid" "no_panic_removal (b_world b)"
    and d: "stores_ok (unentered V M cid bridge) d"
  shows "stores_ok (clean V M) (snd (build_stages b st cid bridge script (g, a) d))"
proof -
  let ?w = "b_world b" and ?clr = "build_cleanup_at (b_world b) cid" and ?U = "stores_ok (unentered V M cid bridge) :: 'a daemon \<Rightarrow> bool"
  let ?H = "stores_ok (held V M cid (Some bridge) (\<lambda>_. True)) :: 'a daemon \<Rightarrow> bool" and ?Q = "stores_ok (clean V M) :: 'a daemon \<Rightarrow> bool"
  have cleanU: "?Q (snd (?clr dir cg False t))" if "?U t" for dir cg t
    unfolding build_cleanup_at_def using build_cleanup_clean [OF fr laws(3) unentered_held [OF that]] that
    by (simp add: stores_ok_def unentered_def)
  have cleanH: "?Q (snd (?clr dir cg True t))" if "?H t" for dir cg t
    unfolding build_cleanup_at_def using build_cleanup_clean [OF fr laws(3) that] by simp
  have host: "stable ?U (setupBuildContainerDirectory ?w p)" "stable ?U (setupBuildEtcFiles ?w p x y)" "stable ?U (setupBuildCgroup ?w p)" for p x y
    unfolding setupBuildContainerDirectory_def setupBuildEtcFiles_def setupBuildCgroup_def Let_def by (intro store_intros)+
  define exec where "exec = (\<lambda>(hi, ha, p). deferred (build_execute b st cid (build_spec b st cid bridge hi ha p a g)) (?clr True True True))"
  have exec: "?Q (snd (exec x t))" if "?H t" for x t
  proof (cases x)
    case (fields hi ha p)
    show ?thesis unfolding exec_def fields prod.case
      by (rule deferred_post, rule cleanH) (metis stableD [OF execute_held [OF laws(1,2)]] that)
  qed
  have prep: "?Q (snd (step_or (build_prepare ?w cid script) (?clr True True False) exec t))" if "?U t" for t
    by (rule step_or_post) (use prepare_held [OF that] cleanU exec in \<open>force\<close>)+
  have etc: "?Q (snd (step_or (seq (setupBuildEtcFiles ?w cid a g) (setupBuildCgroup ?w cid)) (?clr True False False)
      (\<lambda>_. step_or (build_prepare ?w cid script) (?clr True True False) exec) t))" if "?U t" for t
    by (rule step_or_stable [where U = ?U and Q = ?Q]) (simp_all add: stable_seq host that cleanU prep)
  show ?thesis unfolding build_stages_def prod.case Let_def exec_def [symmetric]
    by (rule step_or_stable [where U = ?U and Q = ?Q]) (simp_all add: host d cleanU etc)
qed

text \<open>C21: While the files of the stores can be read and written, running the script of a build leaves nothing behind
  in them: whatever else happens, from a full network to a script that fails or does not end, every address has the
  owner it had before, and the container store has exactly the entries it had.  The identifier is new; the runtime
  and its hooks touch the build container only, and removing a directory does not panic.
\<close>

theorem build_leaves_nothing:
  assumes "io_ok d" "ipam_inv (d_ipam d)" "csm_inv (d_csm d)"
    and ulid: "w_ulid (b_world b) (d_host d) = (u, h)" and cid: "cid = ''build-'' @ take 12 u"
    and laws: "runtime_laws (b_world b) cid" "sleep_laws (b_world b) cid" "no_panic_removal (b_world b)"
    and new: "container_absent cid (d_ipam d)" "map_of (Containers (d_csm d)) cid = None"
    and run: "runCommandInContainer b st bridge script d = (r, d')"
  shows "alloc_view (d_ipam d') = alloc_view (d_ipam d) \<and> map_of (Containers (d_csm d')) = map_of (Containers (d_csm d))"
proof -
  define V M where "V = alloc_view (d_ipam d)" and "M = map_of (Containers (d_csm d))"
  have fr: "fresh V M cid" using new container_absent_view [OF assms(2)] by (auto simp: fresh_def V_def M_def)
  obtain d0 where d0: "NewUlid (b_world b) d = (Inr u, d0)" "d0 = d\<lparr>d_host := h\<rparr>" using ulid by (auto simp: NewUlid_def on_host_def)
  have q0: "stores_ok (clean V M) d0" using assms(1-3) d0(2) by (simp add: stores_ok_def clean_def V_def M_def)
  have "stores_ok (clean V M) d'"
  proof (cases "length u < 12")
    case True
    then show ?thesis using run d0 q0 by (simp add: runCommandInContainer_def)
  next
    case False
    obtain x d1 where x: "allocateBuildAddress (b_world b) cid bridge d0 = (x, d1)" by fastforce
    have "allocateAddress (b_world b) cid bridge d0 = (x, d1)" using x by (simp add: allocateBuildAddress_def allocateAddress_def)
    note al = allocate_held [OF q0 fr this]
    have go: "runCommandInContainer b st bridge script d = bnd (allocateBuildAddress (b_world b) cid bridge) (build_stages b st cid bridge script) d0"
      using d0(1) False by (simp add: runCommandInContainer_def cid Let_def)
    have "d_csm d1 = d_csm d0"
      using x by (auto simp: allocateBuildAddress_def bnd_def access_def Now_def on_host_def split: prod.splits sum.splits)
    then have u: "stores_ok (unentered V M cid bridge) d1" if "stores_ok (held V M cid (Some bridge) (\<lambda>fs. fs = [])) d1"
      using held_any [OF that] new(2) d0(2) by (simp add: stores_ok_def unentered_def)
    show ?thesis
    proof (cases x)
      case (Inl e)
      then show ?thesis using al go run x by auto
    next
      case (Inr ga)
      then have "stores_ok (unentered V M cid bridge) d1" using al u by simp
      then show ?thesis using stages_clean [OF fr laws, of bridge d1 st script "fst ga" "snd ga"] go run x Inr by (metis bnd_step prod.collapse snd_conv)
    qed
  qed
  then show ?thesis by (simp add: stores_ok_def clean_def V_def M_def)
qed

text \<open>On the example machine \<open>droplet\<close> fails.\<close>

theorem build_leaves_nothing_witness:
  "\<exists>r d'. runCommandInContainer (touch_builder\<lparr>b_world := demo_world\<rparr>) no_build ''raind0'' [''make''] demo_machine = (r, d') \<and>
     alloc_view (d_ipam d') = alloc_view (ipam_initial ''eth0'' ''192.168.0.2/24'') \<and> map_of (Containers (d_csm d')) = map_of (Containers csm_demo)"
proof -
  let ?b = "touch_builder\<lparr>b_world := demo_world\<rparr>" and ?cid = "''build-'' @ take 12 ''c12345678901xyz''"
  obtain r d' where run: "runCommandInContainer ?b no_build ''raind0'' [''make''] demo_machine = (r, d')" by fastforce
  have "runtime_laws (b_world ?b) ?cid" by (auto simp: runtime_laws_def demo_world_def)
  moreover have "sleep_laws (b_world ?b) ?cid" by (simp add: sleep_laws_def demo_world_def)
  moreover have "no_panic_removal (b_world ?b)" by (simp add: no_panic_removal_def demo_world_def demo_image_env_def demo_hub_def file_os_def)
  moreover have "container_absent ?cid (d_ipam demo_machine)"
    by (simp add: container_absent_def ipam_initial_def default_pool_def allocs_def)
  moreover have "map_of (Containers (d_csm demo_machine)) ?cid = None" by (simp add: csm_demo_def demo_container_def)
  moreover have "ipam_inv (d_ipam demo_machine)" "csm_inv (d_csm demo_machine)" using ipam_initial_inv csm_demo_inv by simp_all
  moreover have "w_ulid (b_world ?b) (d_host demo_machine) = (''c12345678901xyz'', d_host demo_machine)" by (simp add: demo_world_def)
  ultimately show ?thesis using build_leaves_nothing [OF _ _ _ _ refl _ _ _ _ _ run] run by auto
qed

text \<open>An error of the store between the allocation and the reading of the gateway leaves the address allocated:
  nothing has been noted for the rollback yet.\<close>

lemma build_fault_keeps_address:
  assumes "w_ulid (b_world b) (d_host d) = (u, h)" "12 \<le> length u" "w_now (b_world b) (d\<lparr>d_host := h\<rparr>) = (Inr now, d\<lparr>d_host := h\<rparr>)"
    and "Allocate now (''build-'' @ take 12 u) bridge (d_ipam d) = Inr (a, ip)" "d_io d = [None, Some e]"
  shows "\<exists>d'. runCommandInContainer b st bridge script d = (Inl e, d') \<and> d_ipam d' = ip"
proof -
  have "\<exists>d'. allocateBuildAddress (b_world b) (''build-'' @ take 12 u) bridge (d\<lparr>d_host := h\<rparr>) = (Inl e, d') \<and> d_ipam d' = ip"
    using assms(3-5) by (simp add: allocateBuildAddress_def access_def query_def store_access_simps bnd_def)
  moreover have "NewUlid (b_world b) d = (Inr u, d\<lparr>d_host := h\<rparr>)" using assms(1) by (simp add: NewUlid_def on_host_def)
  ultimately show ?thesis using assms(2) by (auto simp: runCommandInContainer_def Let_def)
qed

subsection \<open>Names\<close>

text \<open>The system refuses interface names of more than 15 characters.\<close>

lemma veth_bound: "length (buildVethName i) \<le> 15" "has_prefix (buildVethName i) ''rd_''"
  by (simp_all add: buildVethName_def has_prefix_def Let_def)

text \<open>What \<open>ENV\<close> sets is what the list says for the name: a later value replaces the earlier one in its place.\<close>

lemma setEnvVar_get:
  assumes "trim_space key \<noteq> []"
  shows "List.find (\<lambda>kv. has_prefix kv (trim_space key @ ''='')) (setEnvVar env key value) = Some (trim_space key @ ''='' @ value)"
proof -
  let ?p = "\<lambda>kv. has_prefix kv (trim_space key @ ''='')"
  have new: "?p (trim_space key @ ''='' @ value)" by (simp add: has_prefix_def)
  show ?thesis
  proof (cases "List.find (\<lambda>i. ?p (env ! i)) [0..<length env]")
    case None
    then have "\<not> ?p x" if "x \<in> set env" for x using that by (auto simp: find_None_iff in_set_conv_nth)
    then have "List.find ?p env = None" by (simp add: find_None_iff)
    then have "List.find ?p (env @ [y]) = (if ?p y then Some y else None)" for y by (induction env) (auto split: if_splits)
    then show ?thesis using None assms new by (simp add: setEnvVar_def Let_def)
  next
    case (Some i)
    then have i: "i < length env" "?p (env ! i)" "\<And>j. j < i \<Longrightarrow> \<not> ?p (env ! j)" by (auto simp: find_Some_iff)
    have "List.find ?p (env[i := trim_space key @ ''='' @ value]) = Some (trim_space key @ ''='' @ value)"
      unfolding find_Some_iff using i new by (intro exI [of _ i]) (auto simp: nth_list_update)
    then show ?thesis using Some assms by (simp add: setEnvVar_def Let_def)
  qed
qed

text \<open>\<open>FROM\<close> without an image ends the request with a panic.\<close>

lemma from_without_image: "fst (apply_instruction b ctx \<lparr>ins_op = ''FROM'', ins_args = ''''\<rparr> \<lparr>bd_state = no_build, bd_daemon = d\<rparr>) = Inl (Panic ''index out of range'')"
  by (simp add: apply_instruction_def bnd_def get_state_def no_build_def applyFrom_def)

text \<open>Two repositories whose names end alike share the directory of the image that is built.\<close>

lemma built_path_shared: "built_path ''team-a/web'' ref = built_path ''team-b/web'' ref"
proof -
  have "str_contains ''team-a/web'' ''/''" "str_contains ''team-b/web'' ''/''" by code_simp+
  moreover have "last (split_on (CHR ''/'') ''team-a/web'') = last (split_on (CHR ''/'') ''team-b/web'')" by code_simp
  ultimately show ?thesis by (simp add: built_path_def)
qed

end
