(* ===== verification/Pod_Api.thy ===== *)
theory Pod_Api
  imports Service_Controller
begin

text \<open>
  The interface to pods: manifests of pods and replica sets (\<open>src/internal/core/pod/manifest.go\<close>) and the
  endpoint that applies and deletes them, scales replica sets and reports on them
  (\<open>src/internal/api/http/pod/handler.go\<close>).
\<close>

subsection \<open>Manifests (manifest.go)\<close>

record PodManifest =
  mf_Kind :: string
  mf_Name :: string
  mf_Namespace :: string
  mf_Labels :: "(string, string) gomap"
  mf_Annotations :: "(string, string) gomap"
  mf_Containers :: "ContainerTemplateSpec list"
  mf_Replicas :: int
  mf_Selector :: "(string, string) gomap"

record manifestMeta =
  mm_Name :: string
  mm_Namespace :: string
  mm_Labels :: "(string, string) gomap"
  mm_Annotations :: "(string, string) gomap"

record manifestEnvVar =
  ev_Name :: string
  ev_Value :: string

record manifestPort =
  mp_ContainerPort :: int
  mp_HostPort :: int

record manifestHostPath =
  hp_Path :: string

record manifestVolume =
  mv_Name :: string
  mv_HostPath :: manifestHostPath

record manifestVolumeMount =
  vm_Name :: string
  vm_MountPath :: string
  vm_ReadOnly :: bool

record containerManifest =
  cf_Name :: string
  cf_Image :: string
  cf_Command :: "string list"
  cf_Args :: "string list"
  cf_Env :: "manifestEnvVar list"
  cf_Ports :: "manifestPort list"
  cf_Mount :: "string list"
  cf_VolumeMounts :: "manifestVolumeMount list"
  cf_Tty :: bool

record podManifestSpec =
  ps_Containers :: "containerManifest list"
  ps_Volumes :: "manifestVolume list"

record podManifest =
  pf_APIVersion :: string
  pf_Kind :: string
  pf_Metadata :: manifestMeta
  pf_Spec :: podManifestSpec

record rsTemplate =
  rt_Metadata :: manifestMeta
  rt_Spec :: podManifestSpec

text \<open>The labels to match are a map or nil.\<close>

record replicaSetManifest =
  rf_APIVersion :: string
  rf_Kind :: string
  rf_Metadata :: manifestMeta
  rf_MatchLabels :: "(string, string) gomap option"
  rf_Replicas :: int
  rf_Template :: rsTemplate

text \<open>\<open>%q\<close> for a text without special characters.\<close>

definition quoted :: "string \<Rightarrow> string" where
  "quoted s = CHR 0x22 # s @ [CHR 0x22]"

fun volume_paths :: "manifestVolume list \<Rightarrow> (string, string) gomap \<Rightarrow> (string, string) gomap result" where
  "volume_paths [] m = Inr m"
| "volume_paths (v # vs) m =
     (if mv_Name v = [] then volume_paths vs m
      else if hp_Path (mv_HostPath v) = [] then Inl (Err (''volume '' @ quoted (mv_Name v) @ '': only hostPath volumes are supported''))
      else volume_paths vs (mput (mv_Name v) (hp_Path (mv_HostPath v)) m))"

fun volume_mounts :: "(string, string) gomap \<Rightarrow> string \<Rightarrow> manifestVolumeMount list \<Rightarrow> string list result" where
  "volume_mounts m name [] = Inr []"
| "volume_mounts m name (v # vs) =
     (if vm_Name v = [] \<or> vm_MountPath v = [] then volume_mounts m name vs
      else case map_of m (vm_Name v) of
        None \<Rightarrow> Inl (Err (''container '' @ quoted name @ '': volume '' @ quoted (vm_Name v) @ '' not found''))
      | Some hostPath \<Rightarrow>
          bind_res (volume_mounts m name vs) (\<lambda>rest. Inr ((hostPath @ '':'' @ vm_MountPath v @ (if vm_ReadOnly v then '':ro'' else [])) # rest)))"

definition port_text :: "manifestPort \<Rightarrow> string" where
  "port_text p = itoa (mp_HostPort p) @ '':'' @ itoa (mp_ContainerPort p)"

definition published :: "containerManifest \<Rightarrow> manifestPort list" where
  "published c = filter (\<lambda>p. mp_ContainerPort p \<noteq> 0 \<and> mp_HostPort p \<noteq> 0) (cf_Ports c)"

definition container_spec :: "(string, string) gomap \<Rightarrow> containerManifest \<Rightarrow> ContainerTemplateSpec result" where
  "container_spec volumeHostPath c =
     bind_res (volume_mounts volumeHostPath (cf_Name c) (cf_VolumeMounts c)) (\<lambda>mounts.
       Inr \<lparr>ct_Name = cf_Name c, ct_Image = cf_Image c, ct_Command = cf_Command c @ cf_Args c, ct_Port = map port_text (published c),
            ct_Mount = cf_Mount c @ mounts, ct_Env = map (\<lambda>e. ev_Name e @ ''='' @ ev_Value e) (filter (\<lambda>e. ev_Name e \<noteq> []) (cf_Env c)),
            ct_Network = '''', ct_Tty = cf_Tty c\<rparr>)"

fun container_specs :: "(string, string) gomap \<Rightarrow> containerManifest list \<Rightarrow> ContainerTemplateSpec list result" where
  "container_specs m [] = Inr []"
| "container_specs m (c # cs) = bind_res (container_spec m c) (\<lambda>s. bind_res (container_specs m cs) (\<lambda>ss. Inr (s # ss)))"

definition buildPodManifest :: "manifestMeta \<Rightarrow> containerManifest list \<Rightarrow> manifestVolume list \<Rightarrow> PodManifest result" where
  "buildPodManifest meta containers volumes =
     bind_res (volume_paths volumes []) (\<lambda>volumeHostPath.
     bind_res (container_specs volumeHostPath containers) (\<lambda>specs.
       Inr \<lparr>mf_Kind = '''', mf_Name = mm_Name meta, mf_Namespace = (if mm_Namespace meta = [] then ''default'' else mm_Namespace meta),
            mf_Labels = mm_Labels meta, mf_Annotations = mm_Annotations meta, mf_Containers = specs, mf_Replicas = 0, mf_Selector = []\<rparr>))"

definition mergeLabels :: "(string, string) gomap \<Rightarrow> (string, string) gomap \<Rightarrow> (string, string) gomap" where
  "mergeLabels base extra = fold (\<lambda>(k, v). mput k v) (base @ extra) []"

text \<open>What the YAML library makes of a body and of a document: \<open>yc_yaml\<close> as for services, and the decoders.\<close>

record 'y yaml_codec =
  yc_yaml :: "'y yaml"
  yc_service :: "string \<Rightarrow> serviceManifest result"
  yc_pod :: "string \<Rightarrow> podManifest result"
  yc_rs :: "string \<Rightarrow> replicaSetManifest result"

definition decode_pod :: "podManifest \<Rightarrow> PodManifest result" where
  "decode_pod pod =
     bind_res (buildPodManifest (pf_Metadata pod) (ps_Containers (pf_Spec pod)) (ps_Volumes (pf_Spec pod))) (\<lambda>m.
       if mf_Name m = [] then Inl (Err ''pod name is required'') else Inr (m\<lparr>mf_Kind := ''Pod''\<rparr>))"

definition decode_rs :: "replicaSetManifest \<Rightarrow> PodManifest result" where
  "decode_rs rs =
     (let t = rf_Template rs; meta0 = rt_Metadata t;
          meta = (if mm_Name meta0 = [] then meta0\<lparr>mm_Name := mm_Name (rf_Metadata rs)\<rparr> else meta0) in
      bind_res (buildPodManifest meta (ps_Containers (rt_Spec t)) (ps_Volumes (rt_Spec t))) (\<lambda>m.
        if mf_Name m = [] then Inl (Err ''replicaset template name is required'')
        else Inr (m\<lparr>mf_Kind := ''ReplicaSet'', mf_Replicas := (if rf_Replicas rs = 0 then 1 else rf_Replicas rs),
          mf_Selector := (case rf_MatchLabels rs of Some l \<Rightarrow> l | None \<Rightarrow> mf_Labels m)\<rparr>)))"

fun manifest_docs :: "'y yaml_codec \<Rightarrow> 'y result list \<Rightarrow> PodManifest list result" where
  "manifest_docs y [] = Inr []"
| "manifest_docs y (Inl e # ds) = Inl e"
| "manifest_docs y (Inr raw # ds) =
     (let kind = y_kind (yc_yaml y) raw in
      if y_len (yc_yaml y) raw = 0 then manifest_docs y ds
      else if kind = [] then Inl (Err ''kind is required'')
      else bind_res (y_Marshal (yc_yaml y) raw) (\<lambda>b.
        bind_res
          (if kind = ''Pod'' then bind_res (yc_pod y b) decode_pod
           else if kind = ''ReplicaSet'' then bind_res (yc_rs y b) decode_rs
           else Inl (Err (''unsupported kind: '' @ kind)))
          (\<lambda>m. bind_res (manifest_docs y ds) (\<lambda>ms. Inr (m # ms)))))"

definition DecodeK8sManifests :: "'y yaml_codec \<Rightarrow> string \<Rightarrow> PodManifest list result" where
  "DecodeK8sManifests y body = manifest_docs y (y_docs (yc_yaml y) body)"

subsection \<open>Creating and applying (handler.go)\<close>

record CreatePodContainerRequest =
  cr_Name :: string
  cr_Image :: string
  cr_Command :: "string list"
  cr_Port :: "string list"
  cr_Mount :: "string list"
  cr_Env :: "string list"
  cr_Network :: string
  cr_Tty :: bool

record CreatePodRequest =
  rq_Name :: string
  rq_Namespace :: string
  rq_UID :: string
  rq_NetworkNS :: string
  rq_IPCNS :: string
  rq_UTSNS :: string
  rq_UserNS :: string
  rq_Labels :: "(string, string) gomap"
  rq_Annotations :: "(string, string) gomap"
  rq_Containers :: "CreatePodContainerRequest list"

definition CreatePod :: "'h world \<Rightarrow> CreatePodRequest result \<Rightarrow> (response \<times> string, 'h daemon) act" where
  "CreatePod w body =
     (case body of
        Inl e \<Rightarrow> ret ((400, ''invalid json: '' @ err_text e), '''')
      | Inr req \<Rightarrow>
          bnd (attempt (pod_Create w
            \<lparr>pc_Name = rq_Name req, pc_Namespace = rq_Namespace req, pc_UID = rq_UID req, pc_NetworkNS = rq_NetworkNS req,
             pc_IPCNS = rq_IPCNS req, pc_UTSNS = rq_UTSNS req, pc_UserNS = rq_UserNS req, pc_Labels = rq_Labels req,
             pc_Annotations = rq_Annotations req,
             pc_Containers = map (\<lambda>c. \<lparr>ct_Name = cr_Name c, ct_Image = cr_Image c, ct_Command = cr_Command c, ct_Port = cr_Port c,
               ct_Mount = cr_Mount c, ct_Env = cr_Env c, ct_Network = cr_Network c, ct_Tty = cr_Tty c\<rparr>) (rq_Containers req)\<rparr>)) (\<lambda>r.
            case r of
              Inl e \<Rightarrow> ret ((500, ''create pod failed: '' @ err_text e), '''')
            | Inr podId \<Rightarrow> ret ((200, ''pod created''), podId)))"

record ApplyPodResult =
  ap_PodId :: string
  ap_ReplicaSetId :: string
  ap_Name :: string
  ap_Namespace :: string
  ap_ContainerIds :: "string list"

record ApplyServiceResult =
  as_ServiceId :: string
  as_Name :: string
  as_Namespace :: string

text \<open>
  A document either ends the request with an answer (\<open>Inl\<close>) or adds to its result.  \<open>answer_error\<close> is the answer
  to an error of a call.
\<close>

definition answer_error :: "nat \<Rightarrow> string \<Rightarrow> ('a, 's) act \<Rightarrow> ('a \<Rightarrow> (response + 'b, 's) act) \<Rightarrow> (response + 'b, 's) act" where
  "answer_error status msg m k = bnd (attempt m) (\<lambda>r. case r of Inl e \<Rightarrow> ret (Inl (status, msg @ err_text e)) | Inr x \<Rightarrow> k x)"

definition apply_service :: "'h world \<Rightarrow> 'y yaml_codec \<Rightarrow> string \<Rightarrow> (response + ApplyServiceResult, 'h daemon) act" where
  "apply_service w y rawBytes =
     answer_error 400 ''invalid yaml: '' (lift_res (DecodeK8sServiceManifest (yc_yaml y) (yc_service y) rawBytes)) (\<lambda>m.
       if sm_Name m = [] \<or> sm_Namespace m = [] then ret (Inl (400, ''name and namespace are required''))
       else bnd (or_zero False (ssm_do (query (\<lambda>st. Inr (ssm_IsNameAlreadyUsed (sm_Name m) (sm_Namespace m) st))))) (\<lambda>used.
         if used then ret (Inl (400, ''name already used by other service''))
         else bnd (NewUlid w) (\<lambda>serviceId. bnd (w_now w) (\<lambda>now.
           answer_error 500 ''service store failed: ''
             (ssm_do (upd (StoreService now serviceId
                \<lparr>sv_ServiceId = '''', sv_Name = sm_Name m, sv_Namespace = sm_Namespace m, sv_Selector = sm_Selector m, sv_Ports = sm_Ports m,
                 sv_CreatedAt = 0\<rparr>)))
             (\<lambda>_. ret (Inr \<lparr>as_ServiceId = serviceId, as_Name = sm_Name m, as_Namespace = sm_Namespace m\<rparr>))))))"

definition apply_replicaset :: "'h world \<Rightarrow> PodManifest \<Rightarrow> (response + ApplyPodResult, 'h daemon) act" where
  "apply_replicaset w m =
     bnd (NewUlid w) (\<lambda>templateId. bnd (w_now w) (\<lambda>now.
       answer_error 500 ''template store failed: ''
         (psm_do (upd (StorePodTemplate now templateId
            \<lparr>pt_Name = mf_Name m, pt_Namespace = mf_Namespace m, pt_NetworkNS = '''', pt_IPCNS = '''', pt_UTSNS = '''', pt_UserNS = '''',
             pt_Labels = mf_Labels m, pt_Annotations = mf_Annotations m, pt_Containers = mf_Containers m\<rparr>))) (\<lambda>_.
       bnd (NewUlid w) (\<lambda>replicaSetId. bnd (w_now w) (\<lambda>now'.
         answer_error 500 ''replicaset store failed: ''
           (psm_do (upd (StoreReplicaSet now' replicaSetId
              \<lparr>rs_Name = mf_Name m, rs_Namespace = mf_Namespace m, rs_Replicas = mf_Replicas m, rs_TemplateId = templateId,
               rs_Selector = mf_Selector m\<rparr>)))
           (\<lambda>_. ret (Inr \<lparr>ap_PodId = '''', ap_ReplicaSetId = replicaSetId, ap_Name = mf_Name m, ap_Namespace = mf_Namespace m,
              ap_ContainerIds = []\<rparr>)))))))"

text \<open>The containers of a pod with an image; the pod is removed when one cannot be created.\<close>

fun apply_containers :: "'h world \<Rightarrow> string \<Rightarrow> ContainerTemplateSpec list \<Rightarrow> (response + string list, 'h daemon) act" where
  "apply_containers w podId [] = ret (Inr [])"
| "apply_containers w podId (c # cs) =
     (if ct_Image c = [] then apply_containers w podId cs
      else bnd (attempt (Create w (member_params podId c))) (\<lambda>r.
        case r of
          Inl e \<Rightarrow> seq (ignore (pod_Remove w podId)) (ret (Inl (500, ''container create failed: '' @ err_text e)))
        | Inr containerId \<Rightarrow> bnd (apply_containers w podId cs) (\<lambda>s.
            case s of Inl a \<Rightarrow> ret (Inl a) | Inr ids \<Rightarrow> ret (Inr (containerId # ids)))))"

definition apply_pod :: "'h world \<Rightarrow> PodManifest \<Rightarrow> (response + ApplyPodResult, 'h daemon) act" where
  "apply_pod w m =
     answer_error 500 ''pod create failed: ''
       (pod_Create w
          \<lparr>pc_Name = mf_Name m, pc_Namespace = mf_Namespace m, pc_UID = '''', pc_NetworkNS = '''', pc_IPCNS = '''', pc_UTSNS = '''', pc_UserNS = '''',
           pc_Labels = mf_Labels m, pc_Annotations = mf_Annotations m, pc_Containers = mf_Containers m\<rparr>) (\<lambda>podId.
       bnd (apply_containers w podId (mf_Containers m)) (\<lambda>s.
         case s of
           Inl a \<Rightarrow> ret (Inl a)
         | Inr ids \<Rightarrow> ret (Inr \<lparr>ap_PodId = podId, ap_ReplicaSetId = '''', ap_Name = mf_Name m, ap_Namespace = mf_Namespace m,
             ap_ContainerIds = ids\<rparr>)))"

text \<open>The first manifest of a document; without one the missing error is dereferenced.\<close>

definition first_manifest :: "'y yaml_codec \<Rightarrow> string \<Rightarrow> (PodManifest \<Rightarrow> (response + 'b, 's) act) \<Rightarrow> (response + 'b, 's) act" where
  "first_manifest y rawBytes k =
     (case DecodeK8sManifests y rawBytes of
        Inl e \<Rightarrow> ret (Inl (400, ''invalid yaml: '' @ err_text e))
      | Inr [] \<Rightarrow> fail (Panic ''nil pointer dereference'')
      | Inr (m # _) \<Rightarrow> k m)"

definition apply_doc :: "'h world \<Rightarrow> 'y yaml_codec \<Rightarrow> 'y \<Rightarrow> (response + ApplyPodResult list \<times> ApplyServiceResult list, 'h daemon) act" where
  "apply_doc w y raw =
     (let kind = y_kind (yc_yaml y) raw in
      if y_len (yc_yaml y) raw = 0 then ret (Inr ([], []))
      else if kind = [] then ret (Inl (400, ''kind is required''))
      else answer_error 400 ''invalid yaml: '' (lift_res (y_Marshal (yc_yaml y) raw)) (\<lambda>rawBytes.
        if kind = ''Service'' then bnd (apply_service w y rawBytes) (\<lambda>r. ret (map_sum id (\<lambda>s. ([], [s])) r))
        else if kind = ''Pod'' \<or> kind = ''ReplicaSet'' then
          bnd (first_manifest y rawBytes (\<lambda>m. if mf_Kind m = ''ReplicaSet'' then apply_replicaset w m else apply_pod w m))
            (\<lambda>r. ret (map_sum id (\<lambda>p. ([p], [])) r))
        else ret (Inl (400, ''unsupported kind: '' @ kind))))"

fun each_doc :: "('y \<Rightarrow> (response + 'b list \<times> 'c list, 's) act) \<Rightarrow> 'y result list \<Rightarrow> (response + 'b list \<times> 'c list, 's) act" where
  "each_doc f [] = ret (Inr ([], []))"
| "each_doc f (Inl e # ds) = ret (Inl (400, ''invalid yaml: '' @ err_text e))"
| "each_doc f (Inr raw # ds) =
     bnd (f raw) (\<lambda>r. case r of
       Inl a \<Rightarrow> ret (Inl a)
     | Inr (ps, ss) \<Rightarrow> bnd (each_doc f ds) (\<lambda>s. case s of Inl a \<Rightarrow> ret (Inl a) | Inr (ps', ss') \<Rightarrow> ret (Inr (ps @ ps', ss @ ss'))))"

definition ApplyPodYaml ::
  "'h world \<Rightarrow> 'y yaml_codec \<Rightarrow> string result \<Rightarrow> (response + response \<times> ApplyPodResult list \<times> ApplyServiceResult list, 'h daemon) act" where
  "ApplyPodYaml w y body =
     (case body of
        Inl e \<Rightarrow> ret (Inl (400, ''invalid body: '' @ err_text e))
      | Inr b \<Rightarrow> bnd (each_doc (apply_doc w y) (y_docs (yc_yaml y) b)) (\<lambda>r. ret (map_sum id (\<lambda>x. ((201, ''resources applied''), x)) r)))"

subsection \<open>Deleting\<close>

definition http_labelsMatch :: "(string, string) gomap \<Rightarrow> (string, string) gomap \<Rightarrow> string \<Rightarrow> string \<Rightarrow> bool" where
  "http_labelsMatch selector labels selectorNamespace podNamespace =
     ((selectorNamespace = [] \<or> selectorNamespace = podNamespace) \<and> selector \<noteq> [] \<and> list_all (\<lambda>(k, v). label_at labels k = v) selector)"

text \<open>The pods that a choice finds and then the template when nothing refers to it; errors are dropped.\<close>

definition drop_pods :: "'h world \<Rightarrow> (PodInfo \<Rightarrow> bool) \<Rightarrow> (unit, 'h daemon) act" where
  "drop_pods w chosen =
     bnd (attempt (psm_do (query GetPodList))) (\<lambda>r.
       case r of Inl _ \<Rightarrow> ret () | Inr pods \<Rightarrow> for_each (\<lambda>p. ignore (pod_Remove w (p_PodId p))) (filter chosen pods))"

definition drop_template :: "string \<Rightarrow> (unit, 'h daemon) act" where
  "drop_template templateId =
     bnd (attempt (psm_do (query (IsTemplateReferenced templateId)))) (\<lambda>r.
       if r = Inr False then ignore (psm_do (upd (RemovePodTemplate templateId))) else ret ())"

definition removeReplicaSetById :: "'h world \<Rightarrow> string \<Rightarrow> (unit, 'h daemon) act" where
  "removeReplicaSetById w replicaSetId =
     bnd (psm_do (query (GetReplicaSet replicaSetId))) (\<lambda>rs.
     seq (psm_do (upd (RemoveReplicaSet replicaSetId)))
    (seq (drop_pods w (\<lambda>p. p_TemplateId p = rs_TemplateId (r_Spec rs) \<or>
            http_labelsMatch (rs_Selector (r_Spec rs)) (p_Labels p) (rs_Namespace (r_Spec rs)) (p_Namespace p)))
         (drop_template (rs_TemplateId (r_Spec rs)))))"

datatype deleted =
    Deleted_pod string string string
  | Deleted_replicaset string string string
  | Deleted_service string string string

text \<open>The entries of a list that carry the name of the manifest, each of which is removed.\<close>

definition delete_found ::
  "('a list, 's) act \<Rightarrow> ('a \<Rightarrow> bool) \<Rightarrow> ('a \<Rightarrow> (unit, 's) act) \<Rightarrow> ('a \<Rightarrow> deleted) \<Rightarrow> string \<Rightarrow> (response + deleted list, 's) act" where
  "delete_found list_all_of wanted remove report missing =
     answer_error 500 ''list failed: '' list_all_of (\<lambda>list.
       answer_error 500 ''remove failed: '' (for_each remove (filter wanted list)) (\<lambda>_.
         if filter wanted list = [] then ret (Inl (404, missing)) else ret (Inr (map report (filter wanted list)))))"

definition delete_service :: "'y yaml_codec \<Rightarrow> string \<Rightarrow> (response + deleted list, 'h daemon) act" where
  "delete_service y rawBytes =
     answer_error 400 ''invalid yaml: '' (lift_res (DecodeK8sServiceManifest (yc_yaml y) (yc_service y) rawBytes)) (\<lambda>m.
       delete_found (ssm_do (query GetServiceList)) (\<lambda>s. sv_Name s = sm_Name m \<and> sv_Namespace s = sm_Namespace m)
         (\<lambda>s. ssm_do (upd (RemoveService (sv_ServiceId s))))
         (\<lambda>s. Deleted_service (sv_ServiceId s) (sv_Name s) (sv_Namespace s)) ''service not found'')"

definition delete_replicaset :: "'h world \<Rightarrow> PodManifest \<Rightarrow> (response + deleted list, 'h daemon) act" where
  "delete_replicaset w m =
     delete_found (psm_do (query GetReplicaSetList)) (\<lambda>rs. rs_Name (r_Spec rs) = mf_Name m \<and> rs_Namespace (r_Spec rs) = mf_Namespace m)
       (\<lambda>rs. removeReplicaSetById w (r_ReplicaSetId rs))
       (\<lambda>rs. Deleted_replicaset (r_ReplicaSetId rs) (rs_Name (r_Spec rs)) (rs_Namespace (r_Spec rs))) ''replicaset not found''"

definition delete_pod :: "'h world \<Rightarrow> PodManifest \<Rightarrow> (response + deleted list, 'h daemon) act" where
  "delete_pod w m =
     delete_found (psm_do (query GetPodList)) (\<lambda>p. p_Name p = mf_Name m \<and> p_Namespace p = mf_Namespace m)
       (\<lambda>p. seq (pod_Remove w (p_PodId p)) (ret ()))
       (\<lambda>p. Deleted_pod (p_PodId p) (p_Name p) (p_Namespace p)) ''pod not found''"

definition delete_doc :: "'h world \<Rightarrow> 'y yaml_codec \<Rightarrow> 'y \<Rightarrow> (response + deleted list \<times> unit list, 'h daemon) act" where
  "delete_doc w y raw =
     (let kind = y_kind (yc_yaml y) raw in
      if y_len (yc_yaml y) raw = 0 then ret (Inr ([], []))
      else if kind = [] then ret (Inl (400, ''kind is required''))
      else answer_error 400 ''invalid yaml: '' (lift_res (y_Marshal (yc_yaml y) raw)) (\<lambda>rawBytes.
        bnd (if kind = ''Service'' then delete_service y rawBytes
             else if kind = ''ReplicaSet'' then first_manifest y rawBytes (delete_replicaset w)
             else if kind = ''Pod'' then first_manifest y rawBytes (delete_pod w)
             else ret (Inl (400, ''unsupported kind: '' @ kind)))
          (\<lambda>r. ret (map_sum id (\<lambda>ds. (ds, [])) r))))"

definition DeleteResourceYaml :: "'h world \<Rightarrow> 'y yaml_codec \<Rightarrow> string result \<Rightarrow> (response + response \<times> deleted list, 'h daemon) act" where
  "DeleteResourceYaml w y body =
     (case body of
        Inl e \<Rightarrow> ret (Inl (400, ''invalid body: '' @ err_text e))
      | Inr b \<Rightarrow> bnd (each_doc (delete_doc w y) (y_docs (yc_yaml y) b)) (\<lambda>r. ret (map_sum id (\<lambda>x. ((200, ''resources deleted''), fst x)) r)))"

definition http_RemoveReplicaSet :: "'h world \<Rightarrow> string \<Rightarrow> (response + string, 'h daemon) act" where
  "http_RemoveReplicaSet w replicaSetId =
     (if replicaSetId = [] then ret (Inl (400, ''missing replicaSetId''))
      else answer_error 500 ''get failed: '' (psm_do (query (GetReplicaSet replicaSetId))) (\<lambda>rs.
        answer_error 500 ''remove failed: '' (psm_do (upd (RemoveReplicaSet replicaSetId))) (\<lambda>_.
          seq (drop_pods w (\<lambda>p. p_TemplateId p = rs_TemplateId (r_Spec rs)))
         (seq (drop_template (rs_TemplateId (r_Spec rs))) (ret (Inr replicaSetId))))))"

subsection \<open>Scaling and reports\<close>

definition ScaleReplicaSet :: "string \<Rightarrow> int result \<Rightarrow> (response + string \<times> int, 'h daemon) act" where
  "ScaleReplicaSet replicaSetId body =
     (if replicaSetId = [] then ret (Inl (400, ''missing replicaSetId''))
      else answer_error 400 ''invalid json: '' (lift_res body) (\<lambda>replicas.
        if replicas < 0 then ret (Inl (400, ''replicas must be >= 0''))
        else answer_error 500 ''scale failed: '' (psm_do (upd (UpdateReplicaSetReplicas replicaSetId replicas)))
          (\<lambda>_. ret (Inr (replicaSetId, replicas)))))"

definition getTemplateContainerCount :: "string \<Rightarrow> (int, 'h daemon) act" where
  "getTemplateContainerCount templateId =
     (if templateId = [] then ret 0
      else bnd (attempt (psm_do (query (GetPodTemplate templateId)))) (\<lambda>r.
        case r of Inl _ \<Rightarrow> ret 0 | Inr t \<Rightarrow> ret (int (length (pt_Containers (t_Spec t))))))"

definition getPodContainerCounts :: "string \<Rightarrow> int \<Rightarrow> (int \<times> int, 'h daemon) act" where
  "getPodContainerCounts podId desiredFallback =
     bnd (svc_GetContainersByPodId podId) (\<lambda>containers.
       let members = filter (\<lambda>c. \<not> has_prefix (st_Name c) PodInfraContainerNamePrefix) containers in
       ret (if desiredFallback = 0 then int (length members) else desiredFallback,
            int (length (filter (\<lambda>c. st_State c = ''running'') members))))"

text \<open>The pods of a replica set, and how many of them have all their containers running.\<close>

definition rs_pods :: "ReplicaSetSpec \<Rightarrow> PodInfo list \<Rightarrow> PodInfo list" where
  "rs_pods s pods = filter (\<lambda>p. http_labelsMatch (rs_Selector s) (p_Labels p) (rs_Namespace s) (p_Namespace p) \<or> p_TemplateId p = rs_TemplateId s) pods"

fun count_ready :: "int \<Rightarrow> PodInfo list \<Rightarrow> (int, 'h daemon) act" where
  "count_ready templateCount [] = ret 0"
| "count_ready templateCount (p # ps) =
     bnd (attempt (getPodContainerCounts (p_PodId p) templateCount)) (\<lambda>r.
     bnd (count_ready templateCount ps) (\<lambda>n.
       ret (case r of Inl _ \<Rightarrow> n | Inr (desired, running) \<Rightarrow> if desired > 0 \<and> running = desired then n + 1 else n)))"

record ReplicaSetSummary =
  su_ReplicaSetId :: string
  su_Name :: string
  su_Namespace :: string
  su_Replicas :: int
  su_Desired :: int
  su_Current :: int
  su_Ready :: int
  su_TemplateId :: string
  su_Selector :: "(string, string) gomap"
  su_CreatedAt :: time

definition rs_summary :: "ReplicaSetInfo \<Rightarrow> int \<Rightarrow> int \<Rightarrow> ReplicaSetSummary" where
  "rs_summary rs current ready =
     \<lparr>su_ReplicaSetId = r_ReplicaSetId rs, su_Name = rs_Name (r_Spec rs), su_Namespace = rs_Namespace (r_Spec rs),
      su_Replicas = rs_Replicas (r_Spec rs), su_Desired = rs_Replicas (r_Spec rs), su_Current = current, su_Ready = ready,
      su_TemplateId = rs_TemplateId (r_Spec rs), su_Selector = rs_Selector (r_Spec rs), su_CreatedAt = r_CreatedAt rs\<rparr>"

fun rs_summaries :: "PodInfo list \<Rightarrow> ReplicaSetInfo list \<Rightarrow> (ReplicaSetSummary list, 'h daemon) act" where
  "rs_summaries pods [] = ret []"
| "rs_summaries pods (rs # rest) =
     bnd (getTemplateContainerCount (rs_TemplateId (r_Spec rs))) (\<lambda>templateCount.
     bnd (count_ready templateCount (rs_pods (r_Spec rs) pods)) (\<lambda>ready.
     bnd (rs_summaries pods rest) (\<lambda>res. ret (rs_summary rs (int (length (rs_pods (r_Spec rs) pods))) ready # res))))"

definition http_GetReplicaSetList :: "(response + ReplicaSetSummary list, 'h daemon) act" where
  "http_GetReplicaSetList =
     answer_error 500 ''list failed: '' (psm_do (query GetReplicaSetList)) (\<lambda>list.
     answer_error 500 ''list pods failed: '' (psm_do (query GetPodList)) (\<lambda>pods.
       bnd (rs_summaries pods list) (\<lambda>res. ret (Inr res))))"

text \<open>The detail is the summary with the template in place of its identifier.\<close>

definition GetReplicaSetById :: "string \<Rightarrow> (response + ReplicaSetSummary \<times> PodTemplateSpec, 'h daemon) act" where
  "GetReplicaSetById replicaSetId =
     (if replicaSetId = [] then ret (Inl (400, ''missing replicaSetId''))
      else answer_error 500 ''get failed: '' (psm_do (query (GetReplicaSet replicaSetId))) (\<lambda>rs.
        answer_error 500 ''template lookup failed: '' (psm_do (query (GetPodTemplate (rs_TemplateId (r_Spec rs))))) (\<lambda>template.
        answer_error 500 ''list pods failed: '' (psm_do (query GetPodList)) (\<lambda>pods.
          let mine = rs_pods (r_Spec rs) pods in
          bnd (count_ready (int (length (pt_Containers (t_Spec template)))) mine) (\<lambda>ready.
            ret (Inr (rs_summary rs (int (length mine)) ready, t_Spec template)))))))"

subsection \<open>Pods by identifier\<close>

definition with_pod :: "string \<Rightarrow> string \<Rightarrow> ('a, 's) act \<Rightarrow> (response + 'a, 's) act" where
  "with_pod podId msg m =
     (if podId = [] then ret (Inl (400, ''missing podId'')) else answer_error 500 msg m (\<lambda>x. ret (Inr x)))"

definition StartPod :: "'h world \<Rightarrow> string \<Rightarrow> (response + string, 'h daemon) act" where
  "StartPod w podId = with_pod podId ''start pod failed: '' (pod_Start w podId)"

definition StopPod :: "'h world \<Rightarrow> string \<Rightarrow> (response + string, 'h daemon) act" where
  "StopPod w podId = with_pod podId ''stop pod failed: '' (pod_Stop w podId)"

definition http_RemovePod :: "'h world \<Rightarrow> string \<Rightarrow> (response + string, 'h daemon) act" where
  "http_RemovePod w podId = with_pod podId ''remove pod failed: '' (pod_Remove w podId)"

definition http_GetPodList :: "(response + svc_PodState list, 'h daemon) act" where
  "http_GetPodList = answer_error 500 ''retrieve pod list failed: '' svc_GetPodList (\<lambda>l. ret (Inr l))"

definition http_GetPodById :: "string \<Rightarrow> (response + svc_PodState, 'h daemon) act" where
  "http_GetPodById podId = with_pod podId ''retrieve pod failed: '' (svc_GetPodById podId)"

subsection \<open>Names of pods stay unique\<close>

lemma stable_answer [stable_intros]: "stable P m \<Longrightarrow> (\<And>x. stable P (k x)) \<Longrightarrow> stable P (answer_error s t m k)"
  unfolding answer_error_def by (intro stable_intros)

lemma stable_first_manifest [stable_intros]: "(\<And>m. stable P (k m)) \<Longrightarrow> stable P (first_manifest y b k)"
  by (auto simp: first_manifest_def split: sum.split list.split intro: stable_intros)

lemma stable_each_doc: "(\<And>x. stable P (f x)) \<Longrightarrow> stable P (each_doc f ds)"
proof (induction f ds rule: each_doc.induct)
  case (3 f raw ds)
  then show ?case by (auto intro!: stable_intros split: prod.split)
qed (auto intro: stable_intros)

lemma stable_with_pod [stable_intros]: "stable P m \<Longrightarrow> stable P (with_pod i t m)"
  unfolding with_pod_def by (intro stable_intros)

lemma replicaset_updates:
  "renames_nothing (StoreReplicaSet now i s)" "renames_nothing (RemoveReplicaSet i)" "renames_nothing (UpdateReplicaSetReplicas i n)"
proof -
  show "renames_nothing (StoreReplicaSet now i s)"
    by (rule renames_nothingI [of _ "Op_StoreReplicaSet now i s"]) (auto simp: StoreReplicaSet_def pod_names_def)
  show "renames_nothing (RemoveReplicaSet i)"
    by (rule renames_nothingI [of _ "Op_RemoveReplicaSet i"]) (auto simp: RemoveReplicaSet_def pod_names_def split: if_splits)
  show "renames_nothing (UpdateReplicaSetReplicas i n)"
    by (rule renames_nothingI [of _ "Op_UpdateReplicaSetReplicas i n"])
      (auto simp: UpdateReplicaSetReplicas_def pod_names_def split: option.splits if_splits)
qed

lemmas api_intros = unique_intros stable_answer stable_first_manifest stable_with_pod replicaset_updates stable_ignore

lemma remove_unique: "keeps_pods w \<Longrightarrow> stable unique_pods (pod_Remove w i)"
  unfolding stable_def using pod_Remove_unique(1) by (metis prod.collapse)

lemma create_unique: "keeps_pods w \<Longrightarrow> stable unique_pods (pod_Create w p)"
  unfolding pod_Create_def by (intro unique_intros createWithTemplate_unique)

lemma ssm_unique: "stable unique_pods (ssm_do f)"
  by (auto simp: stable_def unique_pods_def access_def store_access_simps io_ok_def split: sum.splits prod.splits)

lemma apply_unique:
  assumes w: "keeps_pods w"
  shows "stable unique_pods (apply_doc w y raw)"
proof -
  note ops = remove_unique [OF w] create_unique [OF w] unique_keeps [OF pods_Create [OF w]] ssm_unique stable_ignore
  have containers: "stable unique_pods (apply_containers w i cs)" for i cs
    by (induction cs) (simp_all only: apply_containers.simps, (intro api_intros ops; assumption?)+)
  have pod: "stable unique_pods (apply_pod w m)" for m unfolding apply_pod_def by (intro api_intros ops containers)
  have rs: "stable unique_pods (apply_replicaset w m)" for m unfolding apply_replicaset_def by (intro api_intros ops)
  have svc: "stable unique_pods (apply_service w y b)" for b unfolding apply_service_def by (intro api_intros ops)
  show ?thesis unfolding apply_doc_def Let_def by (intro api_intros pod rs svc)
qed

lemma delete_unique:
  assumes w: "keeps_pods w"
  shows "stable unique_pods (delete_doc w y raw)" "stable unique_pods (http_RemoveReplicaSet w i)"
proof -
  note ops = remove_unique [OF w] ssm_unique stable_ignore
  have drop: "stable unique_pods (drop_pods w c)" "stable unique_pods (drop_template t)" for c t
    unfolding drop_pods_def drop_template_def by (intro api_intros ops)+
  have one: "stable unique_pods (removeReplicaSetById w i)" for i unfolding removeReplicaSetById_def by (intro api_intros drop)
  show "stable unique_pods (delete_doc w y raw)"
    unfolding delete_doc_def delete_service_def delete_replicaset_def delete_pod_def delete_found_def Let_def
    by (intro api_intros ops one)
  show "stable unique_pods (http_RemoveReplicaSet w i)" unfolding http_RemoveReplicaSet_def by (intro api_intros drop)
qed

datatype api_call =
    Api_CreatePod "CreatePodRequest result"
  | Api_Apply "string result"
  | Api_Delete "string result"
  | Api_Scale string "int result"
  | Api_RemoveReplicaSet string
  | Api_StartPod string
  | Api_StopPod string
  | Api_RemovePod string
  | Api_Reconcile

fun api_step :: "'h world \<Rightarrow> 'y yaml_codec \<Rightarrow> api_call \<Rightarrow> (unit, 'h daemon) act" where
  "api_step w y (Api_CreatePod b) = ignore (CreatePod w b)"
| "api_step w y (Api_Apply b) = ignore (ApplyPodYaml w y b)"
| "api_step w y (Api_Delete b) = ignore (DeleteResourceYaml w y b)"
| "api_step w y (Api_Scale i b) = ignore (ScaleReplicaSet i b)"
| "api_step w y (Api_RemoveReplicaSet i) = ignore (http_RemoveReplicaSet w i)"
| "api_step w y (Api_StartPod i) = ignore (StartPod w i)"
| "api_step w y (Api_StopPod i) = ignore (StopPod w i)"
| "api_step w y (Api_RemovePod i) = ignore (http_RemovePod w i)"
| "api_step w y Api_Reconcile = ignore (reconcileOnce w)"

definition api_history :: "'h world \<Rightarrow> 'y yaml_codec \<Rightarrow> api_call list \<Rightarrow> 'h daemon \<Rightarrow> 'h daemon" where
  "api_history w y cs d = fold (\<lambda>c d. snd (api_step w y c d)) cs d"

lemma api_step_unique:
  assumes w: "keeps_pods w"
  shows "stable unique_pods (api_step w y c)"
proof -
  have docs: "stable unique_pods (ApplyPodYaml w y b)" "stable unique_pods (DeleteResourceYaml w y b)" for b
    unfolding ApplyPodYaml_def DeleteResourceYaml_def by (intro api_intros stable_each_doc apply_unique [OF w] delete_unique [OF w])+
  have pods: "stable unique_pods (CreatePod w b)" "stable unique_pods (StartPod w i)" "stable unique_pods (StopPod w i)"
    "stable unique_pods (http_RemovePod w i)" "stable unique_pods (ScaleReplicaSet i n)" for b i n
    unfolding CreatePod_def StartPod_def StopPod_def http_RemovePod_def ScaleReplicaSet_def
    by (intro api_intros create_unique [OF w] remove_unique [OF w] unique_keeps [OF pods_Start(1) [OF w]] unique_keeps [OF pods_Start(2) [OF w]])+
  show ?thesis
    by (cases c) (simp_all add: stable_ignore docs pods delete_unique [OF w] reconcile_unique [OF w])
qed

lemma api_history_unique:
  assumes "keeps_pods w"
  shows "unique_pods d \<Longrightarrow> unique_pods (api_history w y cs d)"
  unfolding api_history_def
proof (induction cs arbitrary: d)
  case (Cons c cs)
  then show ?case using api_step_unique [OF assms(1), of y c] by (simp add: stable_def)
qed simp

text \<open>C10: requests that are served one after another give no two pods of a namespace the same name: the pods of
  the store have different full names after any sequence of requests to the pod endpoint (single pods, manifests
  with any number of documents applied or deleted, scaled or removed replica sets) and passes of the controller,
  whatever the requests contain and answer and whichever commands and file operations on the host fail, when they
  had before.  The files of the stores can be read and written throughout, and what runs while a command or a pause
  of the daemon lasts creates and renames no pod: the statement is not about requests that overlap.\<close>

theorem pod_api_names_unique:
  assumes "keeps_pods w" "io_ok d" "psm_inv (d_psm d)" "distinct (map (full_name \<circ> snd) (Pods (d_psm d)))"
  shows "distinct (map (full_name \<circ> snd) (Pods (d_psm (api_history w y cs d)))) \<and>
    psm_inv (d_psm (api_history w y cs d)) \<and> io_ok (api_history w y cs d)"
  using api_history_unique [OF assms(1), of d y cs] assms(2-4) by (simp add: unique_pods_def)

text \<open>A codec whose documents are the kinds themselves, and a pod without containers.\<close>

definition demo_codec :: "string yaml_codec" where
  "demo_codec = \<lparr>yc_yaml = \<lparr>y_docs = (\<lambda>b. map Inr (split_on (CHR '';'') b)), y_len = length, y_kind = (\<lambda>s. s), y_Marshal = (\<lambda>s. Inr s)\<rparr>,
     yc_service = (\<lambda>b. Inl (Err ''not a service'')),
     yc_pod = (\<lambda>b. Inr \<lparr>pf_APIVersion = ''v1'', pf_Kind = b, pf_Metadata = \<lparr>mm_Name = ''web'', mm_Namespace = '''', mm_Labels = [], mm_Annotations = []\<rparr>,
       pf_Spec = \<lparr>ps_Containers = [], ps_Volumes = []\<rparr>\<rparr>),
     yc_rs = (\<lambda>b. Inl (Err ''not a replica set''))\<rparr>"

lemma demo_unique: "unique_pods (demo_machine\<lparr>d_psm := psm_demo\<rparr>)"
  using psm_demo_inv by (simp add: unique_pods_def io_ok_def demo_machine_def demo_daemon_def) (simp add: psm_demo_def full_name_def demo_pod_def)

theorem pod_api_names_unique_witness:
  "distinct (map (full_name \<circ> snd) (Pods (d_psm (api_history posting_world demo_codec
     [Api_Apply (Inr ''Pod;Pod''), Api_Reconcile, Api_Delete (Inr ''Pod''), Api_RemovePod ''p1''] (demo_machine\<lparr>d_psm := psm_demo\<rparr>)))))"
  by (rule pod_api_names_unique [THEN conjunct1, OF posting_keeps_pods]) (use demo_unique in \<open>simp_all add: unique_pods_def\<close>)

text \<open>
  The name is looked up and the pod is stored under the lock one after the other, so two creations that both find
  the name free store two pods with it; and a lookup that fails for another reason than a missing pod counts as a
  free name.
\<close>

lemma store_pod_entry:
  assumes "io_ok d" "store_pod w t p d = (Inr i, d')"
  shows "io_ok d' \<and> (\<exists>q. full_name q = (pc_Name p, pc_Namespace p) \<and> Pods (d_psm d') = mput i q (Pods (d_psm d)))"
proof -
  obtain u h where u: "NewUlid w d = (Inr u, d\<lparr>d_host := h\<rparr>)" by (cases "w_ulid w (d_host d)") (simp add: NewUlid_def on_host_def)
  obtain now h' where n: "w_now w (d\<lparr>d_host := h\<rparr>) = (Inr now, d\<lparr>d_host := h, d_host := h'\<rparr>)" by (rule now_step)
  define d2 where "d2 = d\<lparr>d_host := h, d_host := h'\<rparr>"
  have io: "io_ok d2" and psm: "d_psm d2 = d_psm d" using assms(1) by (simp_all add: d2_def io_ok_def)
  define op where "op = Op_StorePod now u t (pc_Name p) (pc_Namespace p) (pc_UID p) ''created'' (pc_NetworkNS p) (pc_IPCNS p) (pc_UTSNS p)
    (pc_UserNS p) (pc_Labels p) (pc_Annotations p)"
  obtain st where st: "psm_apply op (d_psm d2) = Inr st" by (simp add: op_def StorePod_def)
  have "psm_do (upd (psm_apply op)) d2 = (Inr (), d2\<lparr>d_psm := st\<rparr>)"
    using access_ok [of d2 "upd (psm_apply op)" d_psm "()" st d_psm_update] io st by (simp add: upd_def)
  then have "i = u" "d' = d2\<lparr>d_psm := st\<rparr>" using assms(2) u n by (simp_all add: store_pod_def op_def d2_def)
  moreover have "\<exists>q. Pods st = mput u q (Pods (d_psm d)) \<and> full_name q = (pc_Name p, pc_Namespace p)"
    using st psm by (auto simp: op_def StorePod_def full_name_def)
  ultimately show ?thesis using io by (auto simp: io_ok_def)
qed

lemma unchecked_stores_duplicate:
  assumes "io_ok d" "store_pod w t p d = (Inr i, d1)" "store_pod w t' p d1 = (Inr j, d2)" "i \<noteq> j"
  shows "\<exists>a b. map_of (Pods (d_psm d2)) i = Some a \<and> map_of (Pods (d_psm d2)) j = Some b \<and> full_name a = full_name b"
  using store_pod_entry [OF assms(1,2)] store_pod_entry [OF _ assms(3)] assms(4) by auto

lemma lookup_fault_stores: "d_io d = [Some (Err e)] \<Longrightarrow> replace_pod w t p d = store_pod w t p (d\<lparr>d_io := []\<rparr>)"
  by (simp add: replace_pod_def access_def store_access_simps attempt_def bnd_def query_def)

subsection \<open>Deleting by manifest is exact\<close>

lemma remove_pods_effect:
  assumes w: "keeps_pods w"
  shows "pods_are V d \<Longrightarrow> for_each (\<lambda>p. seq (pod_Remove w (p_PodId p)) (ret ())) ps d = (r, d') \<Longrightarrow>
    \<exists>K \<subseteq> p_PodId ` set ps. pods_are (filter (\<lambda>e. fst e \<notin> K) V) d' \<and> (is_ok r \<longrightarrow> K = p_PodId ` set ps)"
proof (induction ps arbitrary: V d)
  case Nil
  then show ?case by auto
next
  case (Cons p ps)
  let ?i = "p_PodId p"
  obtain x d1 where x: "pod_Remove w ?i d = (x, d1)" by fastforce
  have eff: "pods_are (filter (\<lambda>e. fst e \<noteq> ?i) V) d1 \<or> (pods_are V d1 \<and> \<not> is_ok x)" by (rule pod_Remove_effect [OF w Cons.prems(1) x])
  show ?case
  proof (cases x)
    case (Inl e)
    then have "r = Inl e" "d' = d1" using Cons.prems(2) x by auto
    then show ?thesis using eff by (intro exI [of _ "if pods_are V d1 then {} else {?i}"]) auto
  next
    case (Inr u)
    then have "seq (pod_Remove w ?i) (ret ()) d = (Inr (), d1)" using x by simp
    then have go: "for_each (\<lambda>p. seq (pod_Remove w (p_PodId p)) (ret ())) ps d1 = (r, d')"
      using Cons.prems(2) by (simp only: for_each.simps prod.case sum.case)
    have "pods_are (filter (\<lambda>e. fst e \<noteq> ?i) V) d1" using eff Inr by simp
    then obtain K where K: "K \<subseteq> p_PodId ` set ps" "pods_are (filter (\<lambda>e. fst e \<notin> K) (filter (\<lambda>e. fst e \<noteq> ?i) V)) d'"
      "is_ok r \<longrightarrow> K = p_PodId ` set ps" using Cons.IH [OF _ go] by blast
    have "filter (\<lambda>e. fst e \<notin> K) (filter (\<lambda>e. fst e \<noteq> ?i) V) = filter (\<lambda>e. fst e \<notin> insert ?i K) V" by (simp add: conj_commute)
    then show ?thesis using K by (intro exI [of _ "insert ?i K"]) auto
  qed
qed

lemma pods_view:
  assumes "pods_are V d"
  shows "V = map (\<lambda>p. (p_PodId p, pod_key p)) (map snd (Pods (d_psm d)))" "distinct (map p_PodId (map snd (Pods (d_psm d))))"
proof -
  have inv: "keyed p_PodId (Pods (d_psm d))" using assms by (simp add: pods_are_def psm_inv_def)
  have key: "p_PodId (snd e) = fst e" if "e \<in> set (Pods (d_psm d))" for e
    using inv that by (auto simp: keyed_def)
  have V: "V = map (map_prod id pod_key) (Pods (d_psm d))" using assms by (simp add: pods_are_def pod_names_def)
  show "V = map (\<lambda>p. (p_PodId p, pod_key p)) (map snd (Pods (d_psm d)))" unfolding V by (auto simp: key map_prod_def split_beta)
  have "map p_PodId (map snd (Pods (d_psm d))) = map fst (Pods (d_psm d))" by (simp add: key)
  moreover have "distinct (map fst (Pods (d_psm d)))" using inv by (simp add: keyed_def mwf_def)
  ultimately show "distinct (map p_PodId (map snd (Pods (d_psm d))))" by (simp only:)
qed

abbreviation same_name :: "PodManifest \<Rightarrow> string \<times> string \<times> string \<times> string \<Rightarrow> bool" where
  "same_name m \<equiv> (\<lambda>(i, n, ns, t). n = mf_Name m \<and> ns = mf_Namespace m)"

definition deleted_exactly ::
  "PodManifest \<Rightarrow> (string \<times> string \<times> string \<times> string) list \<Rightarrow> (response + deleted list) \<Rightarrow> 'h daemon \<Rightarrow> bool" where
  "deleted_exactly m V a d' \<longleftrightarrow> (case a of
      Inr ds \<Rightarrow> ds \<noteq> [] \<and> ds = map (\<lambda>(i, n, ns, t). Deleted_pod i n ns) (filter (same_name m) V) \<and>
        pods_are (filter (\<lambda>e. \<not> same_name m e) V) d'
    | Inl (status, msg) \<Rightarrow>
        (status = 404 \<longrightarrow> pods_are V d' \<and> filter (same_name m) V = []) \<and>
        (\<exists>K. pods_are (filter (\<lambda>e. fst e \<notin> K) V) d' \<and> (\<forall>e \<in> set V. fst e \<in> K \<longrightarrow> same_name m e)))"

lemma delete_pod_run:
  assumes "io_ok d" "for_each (\<lambda>p. seq (pod_Remove w (p_PodId p)) (ret ()))
      (filter (\<lambda>p. p_Name p = mf_Name m \<and> p_Namespace p = mf_Namespace m) ps) d = (x, d1)" "ps = map snd (Pods (d_psm d))"
  shows "delete_pod w m d = (case x of
      Inl (Err e) \<Rightarrow> (Inr (Inl (500, ''remove failed: '' @ e)), d1) | Inl (Panic e) \<Rightarrow> (Inl (Panic e), d1)
    | Inr u \<Rightarrow> (Inr (if filter (\<lambda>p. p_Name p = mf_Name m \<and> p_Namespace p = mf_Namespace m) ps = [] then Inl (404, ''pod not found'')
        else Inr (map (\<lambda>p. Deleted_pod (p_PodId p) (p_Name p) (p_Namespace p))
          (filter (\<lambda>p. p_Name p = mf_Name m \<and> p_Namespace p = mf_Namespace m) ps))), d1))"
proof -
  have "psm_do (query GetPodList) d = (Inr ps, d)" using assms(1,3) by (simp add: access_ok GetPodList_def)
  then show ?thesis using assms(2)
    by (auto simp add: delete_pod_def delete_found_def answer_error_def attempt_def bnd_def split: sum.split error.split)
qed

lemma delete_pod_effect:
  assumes w: "keeps_pods w" and d: "pods_are V d" and run: "delete_pod w m d = (Inr a, d')"
  shows "deleted_exactly m V a d'"
proof -
  let ?f = "\<lambda>p. p_Name p = mf_Name m \<and> p_Namespace p = mf_Namespace m" and ?g = "\<lambda>p. (p_PodId p, pod_key p)"
  define ps where "ps = map snd (Pods (d_psm d))"
  note V = pods_view(1) [OF d, folded ps_def] and dist = pods_view(2) [OF d, folded ps_def]
  have io: "io_ok d" using d by (simp add: pods_are_def)
  obtain x d1 where x: "for_each (\<lambda>p. seq (pod_Remove w (p_PodId p)) (ret ())) (filter ?f ps) d = (x, d1)" by fastforce
  obtain K where K: "K \<subseteq> p_PodId ` set (filter ?f ps)" "pods_are (filter (\<lambda>e. fst e \<notin> K) V) d1" "is_ok x \<longrightarrow> K = p_PodId ` set (filter ?f ps)"
    using remove_pods_effect [OF w d x] by blast
  have only: "?f p" if p: "p \<in> set ps" "p_PodId p \<in> K" for p
  proof -
    obtain q where q: "q \<in> set ps" "?f q" "p_PodId p = p_PodId q" using K(1) p(2) by auto
    then have "p = q" using distinct_map_inj [OF dist p(1) q(1)] by simp
    then show ?thesis using q(2) by simp
  qed
  have same: "same_name m (?g p) = ?f p" for p by (simp add: pod_key_def)
  have gone: "filter (\<lambda>e. fst e \<notin> K) V = filter (\<lambda>e. \<not> same_name m e) V" if "is_ok x"
  proof -
    have "p_PodId p \<in> K" if "p \<in> set ps" "?f p" for p using K(3) \<open>is_ok x\<close> that by simp
    then have "filter (\<lambda>p. p_PodId p \<notin> K) ps = filter (\<lambda>p. \<not> ?f p) ps" using only by (intro filter_cong refl) blast
    then show ?thesis unfolding V filter_map comp_def same fst_conv by simp
  qed
  have some: "filter (same_name m) V = map ?g (filter ?f ps)" unfolding V filter_map comp_def same by simp
  have kept: "\<forall>e \<in> set V. fst e \<in> K \<longrightarrow> same_name m e" using only unfolding V by (auto simp: pod_key_def)
  note r = run [unfolded delete_pod_run [OF io x ps_def]]
  show ?thesis
  proof (cases x)
    case (Inl e)
    then show ?thesis using r K(2) kept by (cases e) (auto simp: deleted_exactly_def)
  next
    case (Inr u)
    have all: "pods_are (filter (\<lambda>e. \<not> same_name m e) V) d1" using K(2) gone Inr by simp
    show ?thesis
    proof (cases "filter ?f ps = []")
      case True
      then have "filter (same_name m) V = []" using some by simp
      then have "filter (\<lambda>e. \<not> same_name m e) V = V" by (auto simp: filter_empty_conv intro!: filter_True)
      then show ?thesis using r Inr True all K(2) kept \<open>filter (same_name m) V = []\<close> by (auto simp: deleted_exactly_def)
    next
      case False
      then show ?thesis using r Inr all some by (auto simp: deleted_exactly_def pod_key_def comp_def)
    qed
  qed
qed

text \<open>C28: deleting a pod by its manifest deletes exactly that pod.  For a body with one document that describes a pod:
  with the answer 200 the pods of the store are those from before without the ones of this name in this
  namespace, which are reported in their order; with 404 there was none and all pods are left; with any
  other answer at most pods of this name are gone.  The templates, identifiers and names of all other pods are as before.\<close>

theorem delete_by_manifest_exact:
  assumes w: "keeps_pods w" and d: "pods_are V d"
    and body: "y_docs (yc_yaml y) body = [Inr raw]" "y_len (yc_yaml y) raw \<noteq> 0" "y_kind (yc_yaml y) raw = ''Pod''"
      "y_Marshal (yc_yaml y) raw = Inr bytes" "DecodeK8sManifests y bytes = Inr [m]"
    and run: "DeleteResourceYaml w y (Inr body) d = (Inr a, d')"
  shows "case a of
      Inr (answer, ds) \<Rightarrow> fst answer = 200 \<and> ds \<noteq> [] \<and>
        ds = map (\<lambda>(i, n, ns, t). Deleted_pod i n ns) (filter (\<lambda>(i, n, ns, t). n = mf_Name m \<and> ns = mf_Namespace m) V) \<and>
        pods_are (filter (\<lambda>e. \<not> (case e of (i, n, ns, t) \<Rightarrow> n = mf_Name m \<and> ns = mf_Namespace m)) V) d'
    | Inl (status, msg) \<Rightarrow>
        (status = 404 \<longrightarrow> pods_are V d' \<and> filter (\<lambda>(i, n, ns, t). n = mf_Name m \<and> ns = mf_Namespace m) V = []) \<and>
        (\<exists>K. pods_are (filter (\<lambda>e. fst e \<notin> K) V) d' \<and>
          (\<forall>e \<in> set V. fst e \<in> K \<longrightarrow> (case e of (i, n, ns, t) \<Rightarrow> n = mf_Name m \<and> ns = mf_Namespace m)))"
proof -
  have "delete_doc w y raw = bnd (delete_pod w m) (\<lambda>r. ret (map_sum id (\<lambda>ds. (ds, [])) r))"
    using body(2-5) by (simp add: delete_doc_def first_manifest_def answer_error_def bnd_def fun_eq_iff attempt_def)
  then have go: "DeleteResourceYaml w y (Inr body) d = bnd (delete_pod w m) (\<lambda>r. ret (map_sum id (\<lambda>ds. ((200, ''resources deleted''), ds)) r)) d"
  proof -
    obtain r d1 where r: "delete_pod w m d = (r, d1)" by fastforce
    show ?thesis using body(1) r \<open>delete_doc w y raw = _\<close>
      by (cases r; cases "projr r") (simp_all add: DeleteResourceYaml_def bnd_def)
  qed
  have "bnd (delete_pod w m) (\<lambda>r. ret (map_sum id (\<lambda>ds. ((200, ''resources deleted''), ds)) r)) d = (Inr a, d')" using go run by simp
  then obtain b where b: "delete_pod w m d = (Inr b, d')" "a = map_sum id (\<lambda>ds. ((200, ''resources deleted''), ds)) b"
    unfolding bnd_Inr by auto
  show ?thesis using delete_pod_effect [OF w d b(1)] unfolding b(2) deleted_exactly_def by (cases b) auto
qed

text \<open>The example store has one pod \<open>web\<close> in the default namespace.\<close>

lemma demo_decode: "\<exists>m. DecodeK8sManifests demo_codec ''Pod'' = Inr [m] \<and> mf_Name m = ''web'' \<and> mf_Namespace m = ''default''"
  by (simp add: DecodeK8sManifests_def demo_codec_def decode_pod_def buildPodManifest_def Let_def)

lemma demo_remove: "\<exists>d'. pod_Remove posting_world ''p1'' (demo_machine\<lparr>d_psm := psm_demo\<rparr>) = (Inr ''p1'', d')"
proof -
  let ?d = "demo_machine\<lparr>d_psm := psm_demo\<rparr>"
  have io: "io_ok ?d" by (simp add: demo_machine_def io_ok_def)
  have 1: "psm_do (query (GetPodById ''p1'')) ?d = (Inr (demo_pod ''p1'' ''t1'' ''web''), ?d)"
    using io by (simp add: access_ok GetPodById_def psm_demo_def)
  have 2: "svc_GetContainersByPodId ''p1'' ?d = (Inr [], ?d)"
  proof -
    have "GetContainersByPodId ''p1'' (d_csm ?d) = Inr []" by (simp add: GetContainersByPodId_def csm_demo_def demo_container_def)
    then have "csm_do (query (GetContainersByPodId ''p1'')) ?d = (Inr [], ?d)" using io by simp
    moreover have "GetPoolList (d_ipam ?d) = Inr (Pools (d_ipam ?d))" by (simp add: GetPoolList_def)
    then have "ipam_do (query GetPoolList) ?d = (Inr (Pools (d_ipam ?d)), ?d)" using io by simp
    ultimately show ?thesis by (simp add: svc_GetContainersByPodId_def buildContainerStateList_def)
  qed
  have 3: "psm_do (upd (RemovePod ''p1'')) ?d = (Inr (), demo_machine\<lparr>d_psm := psm_demo\<lparr>Pods := [(''p2'', demo_pod ''p2'' ''t1'' ''db'')]\<rparr>\<rparr>)"
    using io by (simp add: access_ok upd_def RemovePod_def psm_demo_def)
  define e where "e = demo_machine\<lparr>d_psm := psm_demo\<lparr>Pods := [(''p2'', demo_pod ''p2'' ''t1'' ''db'')]\<rparr>\<rparr>"
  have e: "io_ok e" by (simp add: e_def demo_machine_def io_ok_def)
  have 4: "psm_do (query (IsTemplateReferenced ''t1'')) e = (Inr False, e)"
  proof -
    have "query (IsTemplateReferenced ''t1'') (d_psm e) = Inr (False, d_psm e)" by (simp add: query_def IsTemplateReferenced_def e_def psm_demo_def)
    from access_ok [of e "query (IsTemplateReferenced ''t1'')" d_psm False "d_psm e" d_psm_update, OF e this] show ?thesis by simp
  qed
  have 5: "\<exists>d'. psm_do (upd (RemovePodTemplate ''t1'')) e = (Inr (), d')"
    using e by (simp add: access_ok upd_def RemovePodTemplate_def e_def psm_demo_def)
  show ?thesis using 1 2 3 [folded e_def] 4 5
    by (auto simp add: pod_Remove_def demo_pod_def ignore_def seq_def bnd_def attempt_def)
qed


theorem delete_by_manifest_exact_witness:
  "\<exists>d'. DeleteResourceYaml posting_world demo_codec (Inr ''Pod'') (demo_machine\<lparr>d_psm := psm_demo\<rparr>) =
       (Inr (Inr ((200, ''resources deleted''), [Deleted_pod ''p1'' ''web'' ''default''])), d') \<and>
     pod_names (d_psm d') = [(''p2'', ''db'', ''default'', ''t1'')]"
proof -
  let ?d = "demo_machine\<lparr>d_psm := psm_demo\<rparr>"
  obtain m where m: "DecodeK8sManifests demo_codec ''Pod'' = Inr [m]" "mf_Name m = ''web''" "mf_Namespace m = ''default''" using demo_decode by blast
  have d: "pods_are (pod_names psm_demo) ?d" using demo_unique by (simp add: pods_are_def unique_pods_def)
  have y: "y_docs (yc_yaml demo_codec) ''Pod'' = [Inr ''Pod'']" "y_len (yc_yaml demo_codec) ''Pod'' \<noteq> 0" "y_kind (yc_yaml demo_codec) ''Pod'' = ''Pod''"
    "y_Marshal (yc_yaml demo_codec) ''Pod'' = Inr ''Pod''" by (simp_all add: demo_codec_def)
  obtain d' where rm: "pod_Remove posting_world ''p1'' ?d = (Inr ''p1'', d')" using demo_remove by blast
  have io: "io_ok ?d" using d by (simp add: pods_are_def)
  have "for_each (\<lambda>p. seq (pod_Remove posting_world (p_PodId p)) (ret ())) (filter (\<lambda>p. p_Name p = mf_Name m \<and> p_Namespace p = mf_Namespace m)
      [demo_pod ''p1'' ''t1'' ''web'', demo_pod ''p2'' ''t1'' ''db'']) ?d = (Inr (), d')"
    using rm m(2,3) by (simp add: demo_pod_def)
  from delete_pod_run [OF io this] have "delete_pod posting_world m ?d = (Inr (Inr [Deleted_pod ''p1'' ''web'' ''default'']), d')"
    using m(2,3) by (simp add: psm_demo_def demo_pod_def)
  then have run: "DeleteResourceYaml posting_world demo_codec (Inr ''Pod'') ?d =
      (Inr (Inr ((200, ''resources deleted''), [Deleted_pod ''p1'' ''web'' ''default''])), d')"
    using y m(1) by (simp add: DeleteResourceYaml_def delete_doc_def first_manifest_def answer_error_def)
  from delete_by_manifest_exact [OF posting_keeps_pods d y m(1) run] show ?thesis
    using run m(2,3) by (auto simp: pods_are_def pod_names_def psm_demo_def demo_pod_def pod_key_def)
qed

subsection \<open>Ports of a manifest reach the container service\<close>

definition valid_port :: "manifestPort \<Rightarrow> bool" where
  "valid_port p \<longleftrightarrow> 0 \<le> mp_HostPort p \<and> mp_HostPort p < 65536 \<and> 0 \<le> mp_ContainerPort p \<and> mp_ContainerPort p < 65536"

lemma port_text_forward:
  assumes "valid_port p"
  shows "port_forward (port_text p) = \<lparr>HostPort = mp_HostPort p, ContainerPort = mp_ContainerPort p, Protocol = ''tcp''\<rparr>"
proof -
  have h: "itoa (mp_HostPort p) = dec (nat (mp_HostPort p))" "itoa (mp_ContainerPort p) = dec (nat (mp_ContainerPort p))"
    using assms by (simp_all add: valid_port_def itoa_def)
  have "CHR '':'' \<notin> set (dec n)" for n by (rule dec_no_sep) (simp add: digit_val_def)
  then have "split_on (CHR '':'') (port_text p) = [dec (nat (mp_HostPort p)), dec (nat (mp_ContainerPort p))]"
    using split_on_append [of "CHR '':''" "dec (nat (mp_HostPort p))" "dec (nat (mp_ContainerPort p))"] by (simp add: port_text_def h)
  moreover have "atoi (dec (nat (mp_HostPort p))) = mp_HostPort p" "atoi (dec (nat (mp_ContainerPort p))) = mp_ContainerPort p"
    using assms by (auto simp: valid_port_def atoi_dec)
  ultimately show ?thesis by (simp add: port_forward_def parse_port_def)
qed


definition usable_mounts :: "containerManifest \<Rightarrow> manifestVolumeMount list" where
  "usable_mounts c = filter (\<lambda>v. vm_Name v \<noteq> [] \<and> vm_MountPath v \<noteq> []) (cf_VolumeMounts c)"

lemma volume_mounts_spec:
  "volume_mounts m name vs = Inr ts \<Longrightarrow>
    ts = map (\<lambda>v. the (map_of m (vm_Name v)) @ '':'' @ vm_MountPath v @ (if vm_ReadOnly v then '':ro'' else []))
      (filter (\<lambda>v. vm_Name v \<noteq> [] \<and> vm_MountPath v \<noteq> []) vs) \<and>
    (\<forall>v \<in> set vs. vm_Name v \<noteq> [] \<and> vm_MountPath v \<noteq> [] \<longrightarrow> map_of m (vm_Name v) \<noteq> None)"
proof (induction vs arbitrary: ts)
  case (Cons v vs)
  then show ?case by (fastforce simp: bind_res_eq_Inr split: if_splits option.splits)
qed simp

lemma volume_paths_spec:
  "volume_paths vs m = Inr m' \<Longrightarrow>
    map_of m' = (\<lambda>n. case List.find (\<lambda>v. mv_Name v = n \<and> n \<noteq> []) (rev vs) of Some v \<Rightarrow> Some (hp_Path (mv_HostPath v)) | None \<Rightarrow> map_of m n)"
proof (induction vs arbitrary: m)
  case (Cons v vs)
  have app: "List.find P (xs @ [x]) = (case List.find P xs of Some y \<Rightarrow> Some y | None \<Rightarrow> if P x then Some x else None)" for P xs and x :: manifestVolume
    by (induction xs) auto
  show ?case
  proof (cases "mv_Name v = []")
    case True
    then show ?thesis using Cons by (auto simp: app fun_eq_iff split: option.split)
  next
    case False
    then have "volume_paths vs (mput (mv_Name v) (hp_Path (mv_HostPath v)) m) = Inr m'" using Cons.prems by (auto split: if_splits)
    from Cons.IH [OF this] show ?thesis using False by (auto simp: app fun_eq_iff split: option.split)
  qed
qed simp

lemma container_specs_spec:
  "container_specs m cs = Inr ss \<Longrightarrow> list_all2 (\<lambda>c s. container_spec m c = Inr s) cs ss"
  by (induction cs arbitrary: ss) (auto simp: bind_res_eq_Inr)

text \<open>The host path of the last volume of a name.\<close>

definition host_path :: "manifestVolume list \<Rightarrow> string \<Rightarrow> string option" where
  "host_path vs n = map_option (hp_Path \<circ> mv_HostPath) (List.find (\<lambda>v. mv_Name v = n \<and> n \<noteq> []) (rev vs))"

text \<open>C30: what a manifest says of a container is what the container service does: there is one container for each in the manifest, in
  the order of the manifest and with its image; the port forwards the container service derives from its
  texts are exactly the published ports of the manifest; every volume mount names the host path of its volume,
  and a mount of a volume that is not declared is never accepted.\<close>

theorem manifest_reaches_containers:
  assumes "buildPodManifest meta cs vs = Inr m" "list_all (\<lambda>c. list_all valid_port (cf_Ports c)) cs"
  shows "list_all2 (\<lambda>c s. ct_Name s = cf_Name c \<and> ct_Image s = cf_Image c \<and>
      map port_forward (ct_Port s) = map (\<lambda>p. \<lparr>HostPort = mp_HostPort p, ContainerPort = mp_ContainerPort p, Protocol = ''tcp''\<rparr>)
        (filter (\<lambda>p. mp_ContainerPort p \<noteq> 0 \<and> mp_HostPort p \<noteq> 0) (cf_Ports c)) \<and>
      list_all (\<lambda>v. host_path vs (vm_Name v) \<noteq> None) (usable_mounts c) \<and>
      ct_Mount s = cf_Mount c @ map (\<lambda>v. the (host_path vs (vm_Name v)) @ '':'' @ vm_MountPath v @ (if vm_ReadOnly v then '':ro'' else []))
        (usable_mounts c)) cs (mf_Containers m)"
proof -
  obtain pm where pm: "volume_paths vs [] = Inr pm" "container_specs pm cs = Inr (mf_Containers m)"
    using assms(1) by (auto simp: buildPodManifest_def bind_res_eq_Inr)
  have paths: "map_of pm = host_path vs" using volume_paths_spec [OF pm(1)] by (auto simp: host_path_def fun_eq_iff split: option.split)
  have "list_all2 (\<lambda>c s. container_spec pm c = Inr s \<and> list_all valid_port (cf_Ports c)) cs (mf_Containers m)"
    using container_specs_spec [OF pm(2)] assms(2) by (simp add: list_all2_conv_all_nth list_all_length)
  then show ?thesis
  proof (rule list_all2_mono)
    fix c s assume s: "container_spec pm c = Inr s \<and> list_all valid_port (cf_Ports c)"
    then obtain ts where ts: "volume_mounts pm (cf_Name c) (cf_VolumeMounts c) = Inr ts" by (auto simp: container_spec_def bind_res_eq_Inr)
    have "port_forward (port_text p) = \<lparr>HostPort = mp_HostPort p, ContainerPort = mp_ContainerPort p, Protocol = ''tcp''\<rparr>" if "p \<in> set (cf_Ports c)" for p
      using s that by (intro port_text_forward) (auto simp: list_all_iff)
    then show "ct_Name s = cf_Name c \<and> ct_Image s = cf_Image c \<and>
      map port_forward (ct_Port s) = map (\<lambda>p. \<lparr>HostPort = mp_HostPort p, ContainerPort = mp_ContainerPort p, Protocol = ''tcp''\<rparr>)
        (filter (\<lambda>p. mp_ContainerPort p \<noteq> 0 \<and> mp_HostPort p \<noteq> 0) (cf_Ports c)) \<and>
      list_all (\<lambda>v. host_path vs (vm_Name v) \<noteq> None) (usable_mounts c) \<and>
      ct_Mount s = cf_Mount c @ map (\<lambda>v. the (host_path vs (vm_Name v)) @ '':'' @ vm_MountPath v @ (if vm_ReadOnly v then '':ro'' else []))
        (usable_mounts c)"
      using s volume_mounts_spec [OF ts] ts
      by (auto simp: container_spec_def published_def usable_mounts_def paths list_all_iff)
  qed
qed

definition demo_manifest_container :: containerManifest where
  "demo_manifest_container = \<lparr>cf_Name = ''a'', cf_Image = ''alpine'', cf_Command = [], cf_Args = [''sh''], cf_Env = [],
     cf_Ports = [\<lparr>mp_ContainerPort = 80, mp_HostPort = 8080\<rparr>, \<lparr>mp_ContainerPort = 443, mp_HostPort = 0\<rparr>], cf_Mount = [],
     cf_VolumeMounts = [\<lparr>vm_Name = ''data'', vm_MountPath = ''/var'', vm_ReadOnly = True\<rparr>], cf_Tty = False\<rparr>"

theorem manifest_reaches_containers_witness:
  "\<exists>m. buildPodManifest \<lparr>mm_Name = ''web'', mm_Namespace = '''', mm_Labels = [], mm_Annotations = []\<rparr> [demo_manifest_container]
       [\<lparr>mv_Name = ''data'', mv_HostPath = \<lparr>hp_Path = ''/srv''\<rparr>\<rparr>] = Inr m \<and>
     map (\<lambda>s. map port_forward (ct_Port s)) (mf_Containers m) = [[\<lparr>HostPort = 8080, ContainerPort = 80, Protocol = ''tcp''\<rparr>]] \<and>
     map ct_Mount (mf_Containers m) = [[''/srv:/var:ro'']]"
proof -
  let ?meta = "\<lparr>mm_Name = ''web'', mm_Namespace = '''', mm_Labels = [], mm_Annotations = []\<rparr>"
  let ?vs = "[\<lparr>mv_Name = ''data'', mv_HostPath = \<lparr>hp_Path = ''/srv''\<rparr>\<rparr>]"
  obtain m where m: "buildPodManifest ?meta [demo_manifest_container] ?vs = Inr m"
    by (simp add: buildPodManifest_def container_spec_def demo_manifest_container_def)
  have "list_all (\<lambda>c. list_all valid_port (cf_Ports c)) [demo_manifest_container]" by (simp add: demo_manifest_container_def valid_port_def)
  from manifest_reaches_containers [OF m this] show ?thesis using m
    by (auto simp: list_all2_Cons1 usable_mounts_def demo_manifest_container_def host_path_def)
qed

end
