(* ===== verification/Http_Api.thy ===== *)
theory Http_Api
  imports Lifecycle
begin

text \<open>
  The endpoints of containers, images, networks and policies (\<open>src/internal/api/http\<close>).  A handler decodes the
  request, calls one service and writes an answer; some write two.
\<close>

subsection \<open>Answers\<close>

text \<open>
  The answers a handler writes, in order: the client sees the first status and all bodies.  The data is \<open>None\<close> for
  a null.  A decoded request is the value with the error of the decoder: fields that were read before the error, or
  beside an unknown one, have their values.
\<close>

record 'd ApiResponse =
  ar_Code :: nat
  ar_Status :: string
  ar_Message :: string
  ar_Data :: "'d option"

type_synonym 'd replies = "'d ApiResponse list"
type_synonym 'r decoded = "'r \<times> error option"

definition RespondSuccess :: "nat \<Rightarrow> string \<Rightarrow> 'd option \<Rightarrow> 'd ApiResponse" where
  "RespondSuccess statusCode message data =
     \<lparr>ar_Code = statusCode, ar_Status = ''success'', ar_Message = message, ar_Data = data\<rparr>"

definition RespondFail :: "nat \<Rightarrow> string \<Rightarrow> 'd option \<Rightarrow> 'd ApiResponse" where
  "RespondFail statusCode message data =
     \<lparr>ar_Code = statusCode, ar_Status = ''fail'', ar_Message = message, ar_Data = data\<rparr>"

definition invalid_json :: "error \<Rightarrow> 'd option \<Rightarrow> 'd ApiResponse" where
  "invalid_json e data = RespondFail 400 (''invalid json: '' @ err_text e) data"

text \<open>A service is called and its result or its error is the answer.\<close>

definition respond :: "string \<Rightarrow> 'd option \<Rightarrow> string \<Rightarrow> ('x \<Rightarrow> 'd option) \<Rightarrow> ('x, 's) act \<Rightarrow> ('d replies, 's) act" where
  "respond failed fdata msg data m =
     bnd (attempt m) (\<lambda>r. case r of
       Inl e \<Rightarrow> ret [RespondFail 500 (failed @ err_text e) fdata]
     | Inr x \<Rightarrow> ret [RespondSuccess 200 msg (data x)])"

text \<open>With and without the return after an undecodable request.\<close>

definition checked :: "'r decoded \<Rightarrow> ('r \<Rightarrow> 'd option) \<Rightarrow> ('r \<Rightarrow> ('d replies, 's) act) \<Rightarrow> ('d replies, 's) act" where
  "checked body data k =
     (case body of (req, Some e) \<Rightarrow> ret [invalid_json e (data req)] | (req, None) \<Rightarrow> k req)"

definition carried_on :: "'r decoded \<Rightarrow> ('r \<Rightarrow> ('d replies, 's) act) \<Rightarrow> ('d replies, 's) act" where
  "carried_on body k =
     (case body of
        (req, Some e) \<Rightarrow> bnd (k req) (\<lambda>rs. ret (invalid_json e None # rs))
      | (req, None) \<Rightarrow> k req)"

definition required :: "string \<Rightarrow> string \<Rightarrow> 'd option \<Rightarrow> ('d replies, 's) act \<Rightarrow> ('d replies, 's) act" where
  "required value msg data k = (if value = [] then ret [RespondFail 400 msg data] else k)"

text \<open>The container of the request log.\<close>

definition log_target :: "string \<Rightarrow> (unit, 'h daemon) act" where
  "log_target containerId = ignore (csm_do (query (GetContainerIdAndName containerId)))"

subsection \<open>Containers (container/handler.go)\<close>

record CreateContainerRequest =
  cc_Image :: string
  cc_Command :: "string list"
  cc_Port :: "string list"
  cc_Mount :: "string list"
  cc_Env :: "string list"
  cc_Network :: string
  cc_Tty :: bool
  cc_Name :: string
  cc_PodId :: string

record ExecContainerRequest =
  ec_Command :: "string list"
  ec_Tty :: bool

definition CreateContainer :: "'h world \<Rightarrow> CreateContainerRequest decoded \<Rightarrow> (string replies, 'h daemon) act" where
  "CreateContainer w body =
     checked body (\<lambda>_. Some '''') (\<lambda>req. respond ''service failed: '' (Some '''') ''cotainer created'' Some
       (Create w \<lparr>sc_Image = cc_Image req, sc_Os = '''', sc_Arch = '''', sc_Command = cc_Command req, sc_Port = cc_Port req, sc_Mount = cc_Mount req,
          sc_Env = cc_Env req, sc_Network = cc_Network req, sc_Tty = cc_Tty req, sc_Name = cc_Name req, sc_BottleId = '''',
          sc_PodId = cc_PodId req, sc_IsPodInfra = False\<rparr>))"

definition StartContainer :: "'h world \<Rightarrow> string \<Rightarrow> bool decoded \<Rightarrow> (string replies, 'h daemon) act" where
  "StartContainer w containerId body =
     required containerId ''missing container Id'' (Some '''') (checked body (\<lambda>_. Some containerId) (\<lambda>tty.
       seq (log_target containerId)
         (respond ''service failed: '' (Some containerId) ''container started'' Some (Start w containerId tty False))))"

definition StopContainer :: "'h world \<Rightarrow> string \<Rightarrow> (string replies, 'h daemon) act" where
  "StopContainer w containerId =
     required containerId ''missing containerId'' (Some '''')
       (seq (log_target containerId)
         (respond ''service failed: '' (Some containerId) ''container stopped'' Some (Stop w containerId False)))"

text \<open>The answer to a failed command is followed by that of a successful one.\<close>

definition ExecContainer :: "'h world \<Rightarrow> string \<Rightarrow> ExecContainerRequest decoded \<Rightarrow> (string replies, 'h daemon) act" where
  "ExecContainer w containerId body =
     required containerId ''missing containerId'' (Some '''') (checked body (\<lambda>_. Some containerId) (\<lambda>req.
       seq (log_target containerId)
         (bnd (attempt (Exec w containerId (ec_Tty req) (ec_Command req))) (\<lambda>r.
            ret ((case r of Inl e \<Rightarrow> [RespondFail 500 (''service failed: '' @ err_text e) None] | Inr _ \<Rightarrow> [])
                 @ [RespondSuccess 200 ''container executed'' (Some containerId)])))))"

definition DeleteContainer :: "'h world \<Rightarrow> string \<Rightarrow> (string replies, 'h daemon) act" where
  "DeleteContainer w containerId =
     required containerId ''missing containerId'' (Some '''')
       (seq (log_target containerId)
         (respond ''service failed: '' (Some containerId) ''container deleted'' Some (Delete w containerId False)))"

definition http_GetContainerList :: "(svc_ContainerState list replies, 'h daemon) act" where
  "http_GetContainerList =
     respond ''retrieve container list failed: '' None ''retrieve container list success'' Some svc_GetContainerList"

definition http_GetContainerById :: "string \<Rightarrow> (svc_ContainerState replies, 'h daemon) act" where
  "http_GetContainerById containerId =
     required containerId ''missing container Id'' None
       (seq (log_target containerId) (respond '''' None ''retrieve container info success'' Some (svc_GetContainerById containerId)))"

definition http_GetContainerLogPath :: "string \<Rightarrow> (string replies, 'h daemon) act" where
  "http_GetContainerLogPath containerId =
     required containerId ''missing container Id'' None (respond ''log path: '' None ''log path'' Some (GetContainerLogPath containerId))"

subsection \<open>Images (image/handler.go)\<close>

definition http_PullImage :: "'h world \<Rightarrow> ServicePullModel decoded \<Rightarrow> (ServicePullModel replies, 'h daemon) act" where
  "http_PullImage w body =
     carried_on body (\<lambda>req. respond ''pull failed: '' None ''pull completed'' (\<lambda>_. Some req) (Pull (w_image w) req))"

definition http_RemoveImage :: "'h world \<Rightarrow> string decoded \<Rightarrow> (string replies, 'h daemon) act" where
  "http_RemoveImage w body =
     carried_on body (\<lambda>img. respond ''remove failed: '' None ''remove completed'' (\<lambda>_. Some img) (image_Remove (w_image w) img))"

definition http_GetImageList :: "(svc_ImageInfo list replies, 'h daemon) act" where
  "http_GetImageList = respond '''' None ''retrieve image list success'' Some svc_GetImageList"

definition http_GetImageStatus :: "'h world \<Rightarrow> string \<Rightarrow> (ImageStatusInfo replies, 'h daemon) act" where
  "http_GetImageStatus w imageStr =
     required imageStr ''missing image query'' None
       (respond ''retrieve image status failed: '' None ''retrieve image status success'' Some (GetImageStatus (w_image w) imageStr))"

definition http_GetImageFsInfo :: "'h world \<Rightarrow> string \<Rightarrow> (ImageFsInfo replies, 'h daemon) act" where
  "http_GetImageFsInfo w imageStr =
     required imageStr ''missing image query'' None
       (respond ''retrieve image fs info failed: '' None ''retrieve image fs info success'' Some (GetImageFsInfo (w_image w) imageStr))"

subsection \<open>Networks (network/handler.go)\<close>

definition http_GetNetworkList :: "(NetworkList list replies, 'h daemon) act" where
  "http_GetNetworkList =
     bnd (attempt (ipam_do (query GetNetworkList))) (\<lambda>r. case r of
       Inl _ \<Rightarrow> ret [RespondFail 500 ''get network list failed'' None]
     | Inr l \<Rightarrow> ret [RespondSuccess 200 ''network list'' (Some l)])"

definition CreateBridge :: "'h world \<Rightarrow> string decoded \<Rightarrow> (string replies, 'h daemon) act" where
  "CreateBridge w body =
     carried_on body (\<lambda>bridge.
       respond ''create failed: '' None (''create network: '' @ bridge @ '' completed'') (\<lambda>_. Some bridge) (CreateNewNetwork (w_run w) bridge))"

definition DeleteBridge :: "'h world \<Rightarrow> string \<Rightarrow> (string replies, 'h daemon) act" where
  "DeleteBridge w bridge =
     required bridge ''missing brige'' None
       (respond ''delete failed: '' None (''delete network: '' @ bridge @ '' completed'') (\<lambda>_. None) (RemoveNetwork (w_run w) bridge))"

subsection \<open>Policies (policy/handler.go)\<close>

datatype policy_data = Policy_req ServiceAddPolicyModel | Policy_id string

definition http_AddPolicy :: "'h world \<Rightarrow> ServiceAddPolicyModel decoded \<Rightarrow> (policy_data replies, 'h daemon) act" where
  "http_AddPolicy w body =
     checked body (\<lambda>req. Some (Policy_req req)) (\<lambda>req.
       respond ''service failed: '' (Some (Policy_req req)) ''policy created'' (\<lambda>policyId. Some (Policy_id policyId))
         (bnd (NewUlid w) (\<lambda>policyId. AddUserPolicy policyId req)))"

definition http_RemovePolicy :: "string \<Rightarrow> (string replies, 'h daemon) act" where
  "http_RemovePolicy policyId =
     required policyId ''missing policy Id'' None
       (respond ''service failed: '' None ''request accept. remove next commit'' (\<lambda>_. None) (RemoveUserPolicy policyId))"

definition http_CommitPolicy :: "'h world \<Rightarrow> (string replies, 'h daemon) act" where
  "http_CommitPolicy w = respond ''service failed: '' None ''policy committed'' (\<lambda>_. None) (CommitPolicy (w_run w))"

text \<open>The files of the policy store with the copy that is reverted to are modelled apart from the daemon's state.\<close>

definition http_RevertPolicy :: "npm_faults \<Rightarrow> (string replies, npm_files) act" where
  "http_RevertPolicy fl = respond ''service failed: '' None ''policy reverted'' (\<lambda>_. None) (RevertPolicy fl)"

definition http_GetPolicyList :: "string \<Rightarrow> (PolicyListModel replies, 'h daemon) act" where
  "http_GetPolicyList chainName =
     required chainName ''missing chain name'' None
       (bnd (GetPolicyList chainName) (\<lambda>l. ret [RespondSuccess 200 ''get list success'' (Some l)]))"

definition http_ChangeNSMode :: "string decoded \<Rightarrow> (string replies, 'h daemon) act" where
  "http_ChangeNSMode body =
     checked body Some (\<lambda>mode. respond ''service failed: '' (Some mode) ''North-South Mode changed'' (\<lambda>_. Some mode) (svc_ChangeNSMode mode))"

subsection \<open>The statuses of the answers\<close>

datatype http_call =
    Create_container "CreateContainerRequest decoded"
  | Start_container string "bool decoded"
  | Stop_container string
  | Exec_container string "ExecContainerRequest decoded"
  | Delete_container string
  | Container_list
  | Container_by_id string
  | Container_log_path string
  | Pull_image "ServicePullModel decoded"
  | Remove_image "string decoded"
  | Image_list
  | Image_status string
  | Image_fs_info string
  | Network_list
  | Create_bridge "string decoded"
  | Delete_bridge string
  | Add_policy "ServiceAddPolicyModel decoded"
  | Remove_policy string
  | Commit_policy
  | Policy_list string
  | Change_ns_mode "string decoded"

definition codes :: "('d replies, 's) act \<Rightarrow> (nat list, 's) act" where
  "codes m = bnd m (\<lambda>rs. ret (map ar_Code rs))"

fun http_step :: "'h world \<Rightarrow> http_call \<Rightarrow> (nat list, 'h daemon) act" where
  "http_step w (Create_container b) = codes (CreateContainer w b)"
| "http_step w (Start_container i b) = codes (StartContainer w i b)"
| "http_step w (Stop_container i) = codes (StopContainer w i)"
| "http_step w (Exec_container i b) = codes (ExecContainer w i b)"
| "http_step w (Delete_container i) = codes (DeleteContainer w i)"
| "http_step w Container_list = codes http_GetContainerList"
| "http_step w (Container_by_id i) = codes (http_GetContainerById i)"
| "http_step w (Container_log_path i) = codes (http_GetContainerLogPath i)"
| "http_step w (Pull_image b) = codes (http_PullImage w b)"
| "http_step w (Remove_image b) = codes (http_RemoveImage w b)"
| "http_step w Image_list = codes http_GetImageList"
| "http_step w (Image_status i) = codes (http_GetImageStatus w i)"
| "http_step w (Image_fs_info i) = codes (http_GetImageFsInfo w i)"
| "http_step w Network_list = codes http_GetNetworkList"
| "http_step w (Create_bridge b) = codes (CreateBridge w b)"
| "http_step w (Delete_bridge i) = codes (DeleteBridge w i)"
| "http_step w (Add_policy b) = codes (http_AddPolicy w b)"
| "http_step w (Remove_policy i) = codes (http_RemovePolicy i)"
| "http_step w Commit_policy = codes (http_CommitPolicy w)"
| "http_step w (Policy_list i) = codes (http_GetPolicyList i)"
| "http_step w (Change_ns_mode b) = codes (http_ChangeNSMode b)"






lemma codes_Inr:
  assumes "codes m d = (Inr cs, d')"
  obtains rs where "m d = (Inr rs, d')" "cs = map ar_Code rs"
  using assms by (auto simp: codes_def bnd_def ret_def split: prod.splits sum.splits)
















text \<open>An undecodable request to pull or remove an image, or to create a bridge, has the effect the decodable one has.\<close>

lemma undecodable_carried_out:
  "snd (CreateBridge w (bridge, Some e) d) = snd (CreateBridge w (bridge, None) d)"
  "snd (http_PullImage w (req, Some e) d) = snd (http_PullImage w (req, None) d)"
  "snd (http_RemoveImage w (img, Some e) d) = snd (http_RemoveImage w (img, None) d)"
  by (simp_all add: CreateBridge_def http_PullImage_def http_RemoveImage_def carried_on_def bnd_def ret_def
      split: prod.splits sum.splits)

text \<open>A failed execution is reported as both a failure and a success.\<close>

lemma failed_exec_answers_success:
  assumes "i \<noteq> []" and "log_target i d = (Inr (), d1)" and "Exec w i tty cmd d1 = (Inl (Err m), d')"
  shows "http_step w (Exec_container i (\<lparr>ec_Command = cmd, ec_Tty = tty\<rparr>, None)) d = (Inr [500, 200], d')"
  using assms by (simp add: ExecContainer_def required_def checked_def codes_def seq_def bnd_def attempt_def ret_def
      RespondFail_def RespondSuccess_def)

end
