(* ===== verification/Certificates.thy ===== *)
theory Certificates
  imports Lifecycle
begin

text \<open>
  The certificates of the daemon (\<open>src/internal/core/cert/service.go\<close>): the self-signed one of the server, the authority
  for clients and the client certificates it signs.  A pair of a certificate and a key is made only when one of its
  files is missing, and its files are created, never overwritten.
\<close>

subsection \<open>Model\<close>

record CertConfig =
  cg_CommonName :: string
  cg_DNSNames :: "string list"
  cg_IPAddresses :: "ip option list"
  cg_ValidFor :: time

record ClientCertConfig =
  cl_SpiiffeId :: string
  cl_CommonName :: string
  cl_DNSNames :: "string list"
  cl_URISANs :: "string list"
  cl_ValidFor :: time

datatype key_usage = DigitalSignature | KeyEncipherment | CertSign | CRLSign
datatype ext_key_usage = ServerAuth | ClientAuth

record x509_template =
  xt_SerialNumber :: nat
  xt_CommonName :: string
  xt_NotBefore :: time
  xt_NotAfter :: time
  xt_KeyUsage :: "key_usage list"
  xt_ExtKeyUsage :: "ext_key_usage list"
  xt_BasicConstraintsValid :: bool
  xt_IsCA :: bool
  xt_DNSNames :: "string list"
  xt_IPAddresses :: "ip option list"
  xt_URIs :: "url list"

text \<open>
  What the code takes from the libraries: \<open>ce_genkey\<close> is \<open>rsa.GenerateKey\<close>, \<open>ce_public\<close> the public half of a key,
  \<open>ce_marshal_key\<close> and \<open>ce_parse_key\<close> its PKCS 1 form, \<open>ce_serial\<close> the random serial number, \<open>ce_create\<close>
  \<open>x509.CreateCertificate\<close> with a template, its parent (the template itself, or a certificate), the public key and
  the signing key, \<open>ce_parse_cert\<close> \<open>x509.ParseCertificate\<close>, \<open>ce_url\<close> \<open>url.Parse\<close>, \<open>ce_pem\<close> and \<open>ce_pem_decode\<close> the PEM
  form of a typed block, \<open>ce_open_excl\<close> \<open>OpenFile\<close> with \<open>O_WRONLY|O_CREATE|O_EXCL\<close> and \<open>ce_pool\<close>
  \<open>AppendCertsFromPEM\<close>.  Keys and certificates are texts.
\<close>

record 'h certs =
  ce_os :: "'h os"
  ce_now :: "'h \<Rightarrow> time \<times> 'h"
  ce_genkey :: "nat \<Rightarrow> (string, 'h) act"
  ce_public :: "string \<Rightarrow> string"
  ce_marshal_key :: "string \<Rightarrow> string"
  ce_parse_key :: "string \<Rightarrow> string result"
  ce_serial :: "(nat, 'h) act"
  ce_create :: "x509_template \<Rightarrow> x509_template + string \<Rightarrow> string \<Rightarrow> string \<Rightarrow> (string, 'h) act"
  ce_parse_cert :: "string \<Rightarrow> string result"
  ce_url :: "string \<Rightarrow> url result"
  ce_pem :: "string \<Rightarrow> string \<Rightarrow> string"
  ce_pem_decode :: "string \<Rightarrow> (string \<times> string) option"
  ce_open_excl :: "string \<Rightarrow> nat \<Rightarrow> (unit, 'h) act"
  ce_pool :: "string \<Rightarrow> string option"

definition cert_now :: "'h certs \<Rightarrow> (time, 'h) act" where
  "cert_now c h = (case ce_now c h of (t, h') \<Rightarrow> (Inr t, h'))"

definition isFileExists :: "'h certs \<Rightarrow> string \<Rightarrow> 'h \<Rightarrow> bool" where
  "isFileExists c path h = (os_stat (ce_os c) path h \<in> {Stat_dir, Stat_other})"

text \<open>The file is closed by a deferred call whose error is lost.\<close>

definition writePem :: "'h certs \<Rightarrow> string \<Rightarrow> string \<Rightarrow> string \<Rightarrow> nat \<Rightarrow> (unit, 'h) act" where
  "writePem c path typ der perm =
     seq (ce_open_excl c path perm)
       (bnd (attempt (os_do (ce_os c) (Os_Copy path (Inr (ce_pem c typ der))))) (\<lambda>r.
          seq (ignore (os_do (ce_os c) (Os_Close path))) (lift_res r)))"

definition loadCertAndKey :: "'h certs \<Rightarrow> string \<Rightarrow> string \<Rightarrow> 'h \<Rightarrow> (string \<times> string) result" where
  "loadCertAndKey c certPath keyPath h =
     bind_res (os_read (ce_os c) certPath h) (\<lambda>certPEM.
     bind_res (os_read (ce_os c) keyPath h) (\<lambda>keyPEM.
     case ce_pem_decode c certPEM of
       None \<Rightarrow> Inl (Err ''invalid cert PEM'')
     | Some (typ, bytes) \<Rightarrow>
         if typ \<noteq> ''CERTIFICATE'' then Inl (Err ''invalid cert PEM'')
         else bind_res (ce_parse_cert c bytes) (\<lambda>cert.
           case ce_pem_decode c keyPEM of
             None \<Rightarrow> Inl (Err ''invalid key PEM'')
           | Some (_, kbytes) \<Rightarrow> bind_res (ce_parse_key c kbytes) (\<lambda>key. Inr (cert, key)))))"

text \<open>\<open>0644\<close> for the certificate and \<open>0600\<close> for its key.\<close>

definition write_pair :: "'h certs \<Rightarrow> string \<Rightarrow> string \<Rightarrow> string \<Rightarrow> string \<Rightarrow> (unit, 'h) act" where
  "write_pair c certPath keyPath derBytes privKey =
     seq (writePem c certPath ''CERTIFICATE'' derBytes 420)
         (writePem c keyPath ''RSA PRIVATE KEY'' (ce_marshal_key c privKey) 384)"

definition unless_both :: "'h certs \<Rightarrow> string \<Rightarrow> string \<Rightarrow> (unit, 'h) act \<Rightarrow> (unit, 'h) act" where
  "unless_both c certPath keyPath m h =
     (if isFileExists c certPath h \<and> isFileExists c keyPath h then (Inr (), h) else m h)"

definition hour :: time where
  "hour = 60 * 60 * 1000000000"

definition EnsureSelfSignedCert :: "'h certs \<Rightarrow> string \<Rightarrow> string \<Rightarrow> CertConfig \<Rightarrow> (unit, 'h) act" where
  "EnsureSelfSignedCert c certPath keyPath cfg =
     unless_both c certPath keyPath
      (bnd (ce_genkey c 4096) (\<lambda>privKey.
       bnd (ce_serial c) (\<lambda>serialNo.
       bnd (cert_now c) (\<lambda>t0. bnd (cert_now c) (\<lambda>t1.
       let template = \<lparr>xt_SerialNumber = serialNo, xt_CommonName = cg_CommonName cfg, xt_NotBefore = t0 - hour,
             xt_NotAfter = t1 + cg_ValidFor cfg, xt_KeyUsage = [DigitalSignature, KeyEncipherment, CertSign],
             xt_ExtKeyUsage = [ServerAuth], xt_BasicConstraintsValid = True, xt_IsCA = True,
             xt_DNSNames = cg_DNSNames cfg, xt_IPAddresses = cg_IPAddresses cfg, xt_URIs = []\<rparr> in
       bnd (ce_create c template (Inl template) (ce_public c privKey) privKey) (\<lambda>derBytes.
         write_pair c certPath keyPath derBytes privKey))))))"

definition EnsureClientCACert :: "'h certs \<Rightarrow> string \<Rightarrow> string \<Rightarrow> CertConfig \<Rightarrow> (unit, 'h) act" where
  "EnsureClientCACert c certPath keyPath cfg =
     unless_both c certPath keyPath
      (bnd (ce_genkey c 4096) (\<lambda>privKey.
       bnd (ce_serial c) (\<lambda>serialNo.
       bnd (cert_now c) (\<lambda>t0. bnd (cert_now c) (\<lambda>t1.
       let template = \<lparr>xt_SerialNumber = serialNo, xt_CommonName = cg_CommonName cfg, xt_NotBefore = t0 - hour,
             xt_NotAfter = t1 + cg_ValidFor cfg, xt_KeyUsage = [CertSign, CRLSign], xt_ExtKeyUsage = [],
             xt_BasicConstraintsValid = True, xt_IsCA = True, xt_DNSNames = [], xt_IPAddresses = [], xt_URIs = []\<rparr> in
       bnd (ce_create c template (Inl template) (ce_public c privKey) privKey) (\<lambda>derBytes.
         write_pair c certPath keyPath derBytes privKey))))))"

definition client_template :: "ClientCertConfig \<Rightarrow> nat \<Rightarrow> time \<Rightarrow> time \<Rightarrow> url \<Rightarrow> x509_template" where
  "client_template cfg serialNo t0 t1 uri =
     \<lparr>xt_SerialNumber = serialNo, xt_CommonName = cl_CommonName cfg, xt_NotBefore = t0 - 5 * 60 * 1000000000,
      xt_NotAfter = t1 + cl_ValidFor cfg, xt_KeyUsage = [DigitalSignature], xt_ExtKeyUsage = [ClientAuth],
      xt_BasicConstraintsValid = True, xt_IsCA = False, xt_DNSNames = [], xt_IPAddresses = [], xt_URIs = [uri]\<rparr>"

text \<open>\<open>%q\<close> for a text without special characters.\<close>

definition quoted_id :: "string \<Rightarrow> string" where
  "quoted_id s = CHR 0x22 # s @ [CHR 0x22]"

definition spiffe_uri :: "'h certs \<Rightarrow> string \<Rightarrow> url result" where
  "spiffe_uri c i =
     (case ce_url c i of
        Inl _ \<Rightarrow> Inl (Err (''invalid SPIFFE ID: '' @ quoted_id i))
      | Inr uri \<Rightarrow> if u_Scheme uri \<noteq> ''spiffe'' \<or> u_Host uri = [] then Inl (Err (''invalid SPIFFE ID: '' @ quoted_id i)) else Inr uri)"

definition IssueClientCert ::
  "'h certs \<Rightarrow> string \<Rightarrow> string \<Rightarrow> string \<Rightarrow> string \<Rightarrow> ClientCertConfig \<Rightarrow> (unit, 'h) act" where
  "IssueClientCert c certPath keyPath CACertPath CAKeyPath cfg =
     unless_both c certPath keyPath
      (bnd (ce_genkey c 3072) (\<lambda>privKey.
       bnd (ce_serial c) (\<lambda>serialNo.
       bnd (lift_res (spiffe_uri c (cl_SpiiffeId cfg))) (\<lambda>uri.
       bnd (cert_now c) (\<lambda>t0. bnd (cert_now c) (\<lambda>t1.
       bnd (\<lambda>h. (loadCertAndKey c CACertPath CAKeyPath h, h)) (\<lambda>(caCert, caKey).
       bnd (ce_create c (client_template cfg serialNo t0 t1 uri) (Inr caCert) (ce_public c privKey) caKey) (\<lambda>derBytes.
         write_pair c certPath keyPath derBytes privKey))))))))"

definition LoadCertPoolFromFile :: "'h certs \<Rightarrow> string \<Rightarrow> 'h \<Rightarrow> string result" where
  "LoadCertPoolFromFile c path h =
     bind_res (os_read (ce_os c) path h) (\<lambda>pemBytes.
       case ce_pool c pemBytes of None \<Rightarrow> Inl (Err ''failed to append CA cert'') | Some pool \<Rightarrow> Inr pool)"

subsection \<open>What the calls do to files\<close>

text \<open>
  \<open>files h\<close> are the files of the host with their contents.  Opening with \<open>O_EXCL\<close> succeeds only for a missing file,
  which is empty then; a successful write appends the text and one that fails leaves anything in that file; every
  other call leaves the files alone, and reading depends on the content only.
\<close>

definition keeps_files :: "('h \<Rightarrow> string \<rightharpoonup> string) \<Rightarrow> ('a, 'h) act \<Rightarrow> bool" where
  "keeps_files files m \<longleftrightarrow> (\<forall>h. files (snd (m h)) = files h)"

definition excl_law :: "('h \<Rightarrow> string \<rightharpoonup> string) \<Rightarrow> string \<Rightarrow> (unit, 'h) act \<Rightarrow> bool" where
  "excl_law files p m \<longleftrightarrow> (\<forall>h r h'. m h = (r, h') \<longrightarrow>
     (if r = Inr () then files h p = None \<and> files h' = (files h)(p \<mapsto> '''') else files h' = files h))"

definition write_law :: "('h \<Rightarrow> string \<rightharpoonup> string) \<Rightarrow> string \<Rightarrow> string \<Rightarrow> (unit, 'h) act \<Rightarrow> bool" where
  "write_law files p t m \<longleftrightarrow> (\<forall>h r h' x. m h = (r, h') \<longrightarrow> files h p = Some x \<longrightarrow>
     (\<exists>y. files h' = (files h)(p \<mapsto> y) \<and> (r = Inr () \<longrightarrow> y = x @ t)))"

definition cert_laws :: "'h certs \<Rightarrow> ('h \<Rightarrow> string \<rightharpoonup> string) \<Rightarrow> bool" where
  "cert_laws c files \<longleftrightarrow>
     (\<forall>p h. isFileExists c p h \<longleftrightarrow> files h p \<noteq> None) \<and>
     (\<forall>p h h'. files h p = files h' p \<longrightarrow> os_read (ce_os c) p h = os_read (ce_os c) p h') \<and>
     (\<forall>p perm. excl_law files p (ce_open_excl c p perm)) \<and>
     (\<forall>p t. write_law files p t (os_do (ce_os c) (Os_Copy p (Inr t)))) \<and>
     (\<forall>p. keeps_files files (os_do (ce_os c) (Os_Close p))) \<and>
     (\<forall>n. keeps_files files (ce_genkey c n)) \<and> keeps_files files (ce_serial c) \<and> keeps_files files (cert_now c) \<and>
     (\<forall>t p k s. keeps_files files (ce_create c t p k s))"

lemma cert_lawsD:
  assumes "cert_laws c files"
  shows "isFileExists c p h \<longleftrightarrow> files h p \<noteq> None" "excl_law files p (ce_open_excl c p perm)"
    "write_law files p t (os_do (ce_os c) (Os_Copy p (Inr t)))" "keeps_files files (os_do (ce_os c) (Os_Close p))"
    "keeps_files files (ce_genkey c n)" "keeps_files files (ce_serial c)" "keeps_files files (cert_now c)"
    "keeps_files files (ce_create c tm pa ke si)" "files h p = files h' p \<Longrightarrow> os_read (ce_os c) p h = os_read (ce_os c) p h'"
  using assms unfolding cert_laws_def by blast+

lemma keeps_filesD: "keeps_files files m \<Longrightarrow> m h = (r, h') \<Longrightarrow> files h' = files h"
  by (metis keeps_files_def snd_conv)

lemma keeps_files_stable: "keeps_files files m \<longleftrightarrow> (\<forall>f. stable (\<lambda>h. files h = f) m)"
  by (simp add: stable_def keeps_files_def)

lemma keeps_files_ignore: "keeps_files files m \<Longrightarrow> keeps_files files (ignore m)"
  unfolding keeps_files_stable by (simp add: stable_ignore)

lemma keeps_files_lift: "keeps_files files (lift_res r)" "keeps_files files (\<lambda>h. (f h, h))"
  by (simp_all add: keeps_files_def)

lemmas keeps_files_load = keeps_files_lift(2) [of _ "loadCertAndKey c cac cak"] for c cac cak

lemma writePem_files:
  assumes laws: "cert_laws c files" and run: "writePem c p typ der perm h = (r, h')"
  shows "if r = Inr () then files h p = None \<and> files h' = (files h)(p \<mapsto> ce_pem c typ der)
    else files h' = files h \<or> files h p = None \<and> (\<exists>x. files h' = (files h)(p \<mapsto> x))"
proof -
  obtain r1 h1 where o: "ce_open_excl c p perm h = (r1, h1)" by fastforce
  have e: "if r1 = Inr () then files h p = None \<and> files h1 = (files h)(p \<mapsto> '''') else files h1 = files h"
    using cert_lawsD(2) [OF laws, of p perm] o by (auto simp: excl_law_def)
  show ?thesis
  proof (cases r1)
    case (Inl x)
    then show ?thesis using run o e by (auto simp: writePem_def)
  next
    case (Inr u)
    obtain r2 h2 where w: "os_do (ce_os c) (Os_Copy p (Inr (ce_pem c typ der))) h1 = (r2, h2)" by fastforce
    have 2: "\<exists>y. files h2 = (files h)(p \<mapsto> y) \<and> (r2 = Inr () \<longrightarrow> y = ce_pem c typ der)"
      using cert_lawsD(3) [OF laws, of p "ce_pem c typ der"] w e Inr by (fastforce simp: write_law_def)
    have cl: "keeps_files files (ignore (os_do (ce_os c) (Os_Close p)))"
      by (rule keeps_files_ignore [OF cert_lawsD(4) [OF laws]])
    have 3: "files h' = files h2 \<and> (r = Inr () \<longrightarrow> r2 = Inr ())"
      using run o Inr w keeps_filesD [OF cl]
      by (auto simp: writePem_def seq_def bnd_def attempt_def split: prod.splits sum.splits error.splits)
    show ?thesis using 2 3 e Inr by auto
  qed
qed

lemma write_pair_files:
  assumes laws: "cert_laws c files" and ne: "cp \<noteq> kp" and run: "write_pair c cp kp der key h = (r, h')"
  shows "files h \<subseteq>\<^sub>m files h' \<and> (r = Inr () \<longrightarrow> files h cp = None \<and> files h kp = None \<and>
    files h' = (files h)(cp \<mapsto> ce_pem c ''CERTIFICATE'' der, kp \<mapsto> ce_pem c ''RSA PRIVATE KEY'' (ce_marshal_key c key)))"
proof -
  obtain r1 h1 where w: "writePem c cp ''CERTIFICATE'' der 420 h = (r1, h1)" by fastforce
  note 1 = writePem_files [OF laws w]
  then have le: "files h \<subseteq>\<^sub>m files h1" by (auto simp: map_le_def split: if_splits)
  show ?thesis
  proof (cases r1)
    case (Inl e)
    then show ?thesis using run w le by (auto simp: write_pair_def)
  next
    case (Inr u)
    then have k: "writePem c kp ''RSA PRIVATE KEY'' (ce_marshal_key c key) 384 h1 = (r, h')" using run w by (simp add: write_pair_def)
    note 2 = writePem_files [OF laws k]
    then have "files h1 \<subseteq>\<^sub>m files h'" by (auto simp: map_le_def split: if_splits)
    then have "files h \<subseteq>\<^sub>m files h'" by (rule map_le_trans [OF le])
    then show ?thesis using 1 2 Inr ne by (auto split: if_splits)
  qed
qed

subsection \<open>Pairs of a certificate and a key\<close>

text \<open>An action that only adds files, and when it succeeds has made both files, which were missing.\<close>

definition makes_pair :: "('h \<Rightarrow> string \<rightharpoonup> string) \<Rightarrow> string \<Rightarrow> string \<Rightarrow> (unit, 'h) act \<Rightarrow> bool" where
  "makes_pair files cp kp m \<longleftrightarrow> (\<forall>h r h'. m h = (r, h') \<longrightarrow> files h \<subseteq>\<^sub>m files h' \<and>
     (r = Inr () \<longrightarrow> files h cp = None \<and> files h kp = None \<and> files h' cp \<noteq> None \<and> files h' kp \<noteq> None))"

lemma makes_pairD: "makes_pair files cp kp m \<Longrightarrow> m h = (r, h') \<Longrightarrow> files h \<subseteq>\<^sub>m files h' \<and>
     (r = Inr () \<longrightarrow> files h cp = None \<and> files h kp = None \<and> files h' cp \<noteq> None \<and> files h' kp \<noteq> None)"
  unfolding makes_pair_def by blast

lemma makes_pair_write: "cert_laws c files \<Longrightarrow> cp \<noteq> kp \<Longrightarrow> makes_pair files cp kp (write_pair c cp kp der key)"
  unfolding makes_pair_def by (auto dest: write_pair_files)

lemma makes_pair_bnd:
  assumes "keeps_files files m" "\<And>x. makes_pair files cp kp (k x)"
  shows "makes_pair files cp kp (bnd m k)"
  unfolding makes_pair_def
proof (intro allI impI)
  fix h r h' assume run: "bnd m k h = (r, h')"
  obtain r1 h1 where m: "m h = (r1, h1)" by fastforce
  have f: "files h1 = files h" by (rule keeps_filesD [OF assms(1) m])
  show "files h \<subseteq>\<^sub>m files h' \<and> (r = Inr () \<longrightarrow> files h cp = None \<and> files h kp = None \<and> files h' cp \<noteq> None \<and> files h' kp \<noteq> None)"
  proof (cases r1)
    case (Inr x)
    then have "k x h1 = (r, h')" using run m by simp
    from makes_pairD [OF assms(2) this] show ?thesis unfolding f .
  qed (use run m f in auto)
qed

lemma makes_pair_prod: "(\<And>a b. makes_pair files cp kp (f a b)) \<Longrightarrow> makes_pair files cp kp (case x of (a, b) \<Rightarrow> f a b)"
  by (cases x) simp

lemmas pair_intros = makes_pair_bnd makes_pair_write makes_pair_prod keeps_files_lift(1) keeps_files_load

definition ensures_pair :: "('h \<Rightarrow> string \<rightharpoonup> string) \<Rightarrow> string \<Rightarrow> string \<Rightarrow> (unit, 'h) act \<Rightarrow> bool" where
  "ensures_pair files cp kp m \<longleftrightarrow> (\<forall>h r h'. m h = (r, h') \<longrightarrow> files h \<subseteq>\<^sub>m files h' \<and>
     (r = Inr () \<longrightarrow> files h' cp \<noteq> None \<and> files h' kp \<noteq> None) \<and>
     (if files h cp \<noteq> None \<and> files h kp \<noteq> None then r = Inr () \<and> h' = h
      else r = Inr () \<longrightarrow> files h cp = None \<and> files h kp = None))"

lemma ensures_pairD: "ensures_pair files cp kp m \<Longrightarrow> m h = (r, h') \<Longrightarrow> files h \<subseteq>\<^sub>m files h' \<and>
     (r = Inr () \<longrightarrow> files h' cp \<noteq> None \<and> files h' kp \<noteq> None) \<and>
     (if files h cp \<noteq> None \<and> files h kp \<noteq> None then r = Inr () \<and> h' = h
      else r = Inr () \<longrightarrow> files h cp = None \<and> files h kp = None)"
  unfolding ensures_pair_def by blast

lemma ensures_unless: "cert_laws c files \<Longrightarrow> makes_pair files cp kp m \<Longrightarrow> ensures_pair files cp kp (unless_both c cp kp m)"
  unfolding ensures_pair_def makes_pair_def unless_both_def by (auto simp: cert_lawsD(1) split: if_splits)

lemma ensures_certs:
  assumes laws: "cert_laws c files" and ne: "cp \<noteq> kp"
  shows "ensures_pair files cp kp (EnsureSelfSignedCert c cp kp cfg)" "ensures_pair files cp kp (EnsureClientCACert c cp kp cfg)"
    "ensures_pair files cp kp (IssueClientCert c cp kp cac cak ccfg)"
  unfolding EnsureSelfSignedCert_def EnsureClientCACert_def IssueClientCert_def Let_def
  by (intro ensures_unless [OF laws] pair_intros cert_lawsD(5-8) [OF laws] laws ne)+

lemma ensures_half:
  assumes "ensures_pair files cp kp m" "files h kp = None" "files h cp = Some x"
  shows "fst (m h) \<noteq> Inr ()"
proof
  obtain r h' where m: "m h = (r, h')" by fastforce
  assume "fst (m h) = Inr ()"
  then show False using ensures_pairD [OF assms(1) m] m assms(2,3) by simp
qed

text \<open>
  After a start that was interrupted between the two files no later one succeeds: the pair is not complete, so it is made
  again, and creating the file that exists fails.
\<close>

lemma half_pair_blocks:
  assumes "cert_laws c files" "cp \<noteq> kp" "files h cp = Some x" "files h kp = None"
  shows "fst (EnsureSelfSignedCert c cp kp cfg h) \<noteq> Inr ()" "fst (EnsureClientCACert c cp kp cfg h) \<noteq> Inr ()"
    "fst (IssueClientCert c cp kp cac cak ccfg h) \<noteq> Inr ()"
  using ensures_certs(1) [OF assms(1,2), of cfg] ensures_certs(2) [OF assms(1,2), of cfg]
    ensures_certs(3) [OF assms(1,2), of cac cak ccfg] assms(3,4)
  by (auto dest!: ensures_half)

subsection \<open>What a client certificate says\<close>

lemma load_files:
  assumes "cert_laws c files" "files h = files h'"
  shows "loadCertAndKey c cp kp h = loadCertAndKey c cp kp h'"
  using cert_lawsD(9) [OF assms(1), of h cp h'] cert_lawsD(9) [OF assms(1), of h kp h'] assms(2) by (simp add: loadCertAndKey_def)

lemma spiffe_uri_Inr: "spiffe_uri c i = Inr u \<longleftrightarrow> ce_url c i = Inr u \<and> u_Scheme u = ''spiffe'' \<and> u_Host u \<noteq> []"
  by (auto simp: spiffe_uri_def split: sum.splits)

text \<open>C31: a client certificate that is issued is signed by the authority on disk, for the key that is stored beside it.  When
  one of the files was missing and the call succeeds, then both were; the authority's certificate and key could be read; the
  certificate file holds what was signed with that key for a client with exactly the requested SPIFFE identifier, never for
  an authority; the key file holds the private half of the key it was signed for; and no other file has changed.\<close>

theorem issued_certificate:
  assumes laws: "cert_laws c files" and ne: "cp \<noteq> kp" and fresh: "files h cp = None \<or> files h kp = None"
    and run: "IssueClientCert c cp kp cac cak cfg h = (Inr (), h')"
  shows "files h cp = None \<and> files h kp = None \<and>
    (\<exists>key uri caCert caKey serialNo t0 t1 h1 h2 der.
       loadCertAndKey c cac cak h = Inr (caCert, caKey) \<and>
       ce_url c (cl_SpiiffeId cfg) = Inr uri \<and> u_Scheme uri = ''spiffe'' \<and> u_Host uri \<noteq> [] \<and>
       ce_create c (client_template cfg serialNo t0 t1 uri) (Inr caCert) (ce_public c key) caKey h1 = (Inr der, h2) \<and>
       files h' = (files h)(cp \<mapsto> ce_pem c ''CERTIFICATE'' der, kp \<mapsto> ce_pem c ''RSA PRIVATE KEY'' (ce_marshal_key c key)))"
proof -
  obtain key a serialNo b uri t0 d t1 e caCert caKey der f where
    1: "ce_genkey c 3072 h = (Inr key, a)" and 2: "ce_serial c a = (Inr serialNo, b)" and
    3: "spiffe_uri c (cl_SpiiffeId cfg) = Inr uri" and 4: "cert_now c b = (Inr t0, d)" and 5: "cert_now c d = (Inr t1, e)" and
    6: "loadCertAndKey c cac cak e = Inr (caCert, caKey)" and
    7: "ce_create c (client_template cfg serialNo t0 t1 uri) (Inr caCert) (ce_public c key) caKey e = (Inr der, f)" and
    8: "write_pair c cp kp der key f = (Inr (), h')"
    using run fresh by (auto simp: IssueClientCert_def unless_both_def cert_lawsD(1) [OF laws] bnd_Inr)
  have eq: "files e = files h" "files f = files h"
    using keeps_filesD [OF cert_lawsD(5) [OF laws] 1] keeps_filesD [OF cert_lawsD(6) [OF laws] 2]
      keeps_filesD [OF cert_lawsD(7) [OF laws] 4] keeps_filesD [OF cert_lawsD(7) [OF laws] 5]
      keeps_filesD [OF cert_lawsD(8) [OF laws] 7] by simp_all
  have "loadCertAndKey c cac cak h = Inr (caCert, caKey)" using 6 load_files [OF laws eq(1)] by simp
  moreover note write_pair_files [OF laws ne 8] 3 [unfolded spiffe_uri_Inr] 7
  ultimately show ?thesis unfolding eq by blast
qed

text \<open>A host of files with a clock that stands still and texts for keys and certificates.\<close>

definition demo_certs :: "(string \<rightharpoonup> string) certs" where
  "demo_certs = \<lparr>ce_os = \<lparr>os_do = (\<lambda>call h. case call of
        Os_Copy p (Inr t) \<Rightarrow> (Inr (), h(p := map_option (\<lambda>x. x @ t) (h p))) | _ \<Rightarrow> (Inr (), h)),
       os_stat = (\<lambda>p h. if h p = None then Stat_missing else Stat_other), os_readdir = (\<lambda>p h. Inr []),
       os_tar = (\<lambda>p h. Inr []), os_read = (\<lambda>p h. case h p of None \<Rightarrow> Inl (Err ''missing'') | Some t \<Rightarrow> Inr t)\<rparr>,
     ce_now = (\<lambda>h. (7, h)), ce_genkey = (\<lambda>n. ret ''key''), ce_public = (\<lambda>k. k @ '' public''), ce_marshal_key = (\<lambda>k. k),
     ce_parse_key = Inr, ce_serial = ret 5, ce_create = (\<lambda>t p k s. ret (xt_CommonName t @ ''/'' @ k @ ''/'' @ s)), ce_parse_cert = Inr,
     ce_url = (\<lambda>s. Inr \<lparr>u_Scheme = ''spiffe'', u_Host = ''raind'', u_Path = s\<rparr>), ce_pem = (\<lambda>typ b. typ @ '':'' @ b),
     ce_pem_decode = str_cut (CHR '':''), ce_open_excl = (\<lambda>p perm h. if h p = None then (Inr (), h(p \<mapsto> '''')) else (Inl (Err ''exists''), h)),
     ce_pool = Some\<rparr>"

lemma demo_cert_laws: "cert_laws demo_certs (\<lambda>h. h)"
  by (auto simp: cert_laws_def demo_certs_def isFileExists_def excl_law_def write_law_def keeps_files_def cert_now_def split: if_splits option.splits)

definition demo_client :: ClientCertConfig where
  "demo_client = \<lparr>cl_SpiiffeId = ''/cli/admin'', cl_CommonName = ''cli'', cl_DNSNames = [], cl_URISANs = [], cl_ValidFor = 9\<rparr>"

theorem issued_certificate_witness:
  "\<exists>h'. IssueClientCert demo_certs ''c'' ''k'' ''ca'' ''cakey'' demo_client [''ca'' \<mapsto> ''CERTIFICATE:CA'', ''cakey'' \<mapsto> ''KEY:secret''] = (Inr (), h') \<and>
     (\<exists>key. h' ''c'' = Some (''CERTIFICATE:cli/'' @ key @ '' public/secret'') \<and> h' ''k'' = Some (''RSA PRIVATE KEY:'' @ key))"
proof -
  let ?h = "[''ca'' \<mapsto> ''CERTIFICATE:CA'', ''cakey'' \<mapsto> ''KEY:secret'']"
  have run: "\<exists>h'. IssueClientCert demo_certs ''c'' ''k'' ''ca'' ''cakey'' demo_client ?h = (Inr (), h')"
    by (simp add: IssueClientCert_def unless_both_def isFileExists_def demo_certs_def spiffe_uri_def cert_now_def loadCertAndKey_def
        client_template_def demo_client_def write_pair_def writePem_def ignore_def)
  then obtain h' where h': "IssueClientCert demo_certs ''c'' ''k'' ''ca'' ''cakey'' demo_client ?h = (Inr (), h')" by blast
  have "loadCertAndKey demo_certs ''ca'' ''cakey'' ?h = Inr (''CA'', ''secret'')" by (simp add: loadCertAndKey_def demo_certs_def)
  with issued_certificate [OF demo_cert_laws _ _ h'] show ?thesis using h' by (auto simp: demo_certs_def client_template_def demo_client_def)
qed

end
