(* ===== verification/Startup.thy ===== *)
theory Startup
  imports Certificates
begin

text \<open>
  What the daemon does before it serves: the AppArmor profile (\<open>src/internal/lsm/apparmor.go\<close>) and the preparation of the host
  and of the stores (\<open>src/internal/env/bootstrap.go\<close>).
\<close>

text \<open>
  Beside the world and the certificates: \<open>bt_route\<close> and \<open>bt_addr\<close> are the outputs of \<open>ip route\<close> and \<open>ip addr\<close>,
  \<open>bt_scan\<close> opens a file and gives the lines a scanner finds with the error that ends them, \<open>bt_open_write\<close> is
  \<open>OpenFile\<close> with \<open>O_WRONLY\<close>, \<open>bt_parser\<close> runs \<open>apparmor_parser\<close> and gives its output with the error and
  whether the time was up.
\<close>

record 'h boot =
  bt_world :: "'h world"
  bt_certs :: "'h certs"
  bt_route :: "'h \<Rightarrow> string result"
  bt_addr :: "'h \<Rightarrow> string \<Rightarrow> string result"
  bt_scan :: "string \<Rightarrow> 'h \<Rightarrow> (string list \<times> error option) result"
  bt_open_write :: "string \<Rightarrow> (unit, 'h) act"
  bt_parser :: "command \<Rightarrow> 'h \<Rightarrow> (string \<times> (error \<times> bool) option) \<times> 'h"

abbreviation bt_do :: "'h boot \<Rightarrow> os_call \<Rightarrow> (unit, 'h) act" where
  "bt_do b c \<equiv> os_do (w_os (bt_world b)) c"

abbreviation bt_read :: "'h boot \<Rightarrow> string \<Rightarrow> (string, 'h) act" where
  "bt_read b p \<equiv> \<lambda>h. (os_read (w_os (bt_world b)) p h, h)"

subsection \<open>AppArmor (lsm/apparmor.go)\<close>

text \<open>The text of the profile is an argument.\<close>

definition AppArmorDir :: string where "AppArmorDir = ''/etc/raind/lsm/apparmor''"
definition AppArmorProfile :: string where "AppArmorProfile = ''raind-default''"

definition isAAEnabled :: "'h boot \<Rightarrow> (bool, 'h) act" where
  "isAAEnabled b =
     bnd (attempt (bt_read b ''/sys/module/apparmor/parameters/enabled'')) (\<lambda>r.
       case r of Inl _ \<Rightarrow> ret False | Inr t \<Rightarrow> ret (trim_space t \<in> {''Y'', ''y'', ''1''}))"

definition isProfilleLoaded :: "'h boot \<Rightarrow> string \<Rightarrow> (bool, 'h) act" where
  "isProfilleLoaded b profileName =
     bnd (attempt (bt_read b ''/sys/kernel/security/apparmor/profiles'')) (\<lambda>r.
       case r of
         Inl _ \<Rightarrow> ret False
       | Inr t \<Rightarrow> ret (list_ex (\<lambda>line. has_prefix line (profileName @ '' '') \<or> line = profileName) (split_on newline t)))"

definition loadProfileWithParser :: "'h boot \<Rightarrow> string \<Rightarrow> (unit, 'h) act" where
  "loadProfileWithParser b profilePath h =
     (case bt_parser b [''apparmor_parser'', ''-r'', profilePath] h of
        ((out, None), h') \<Rightarrow> (Inr (), h')
      | ((out, Some (e, timed_out)), h') \<Rightarrow>
          (Inl (Err (if timed_out then ''apparmor_parser timed out: '' @ out
                     else ''apparmor_parser failed: '' @ err_text e @ '': '' @ out)), h'))"

definition writeFileAtomic :: "'h boot \<Rightarrow> string \<Rightarrow> string \<Rightarrow> nat \<Rightarrow> (unit, 'h) act" where
  "writeFileAtomic b path data perm =
     (let tmp = path @ ''.tmp'' in
      seq (bt_do b (Os_MkdirAll (path_dir path) mode755))
     (seq (bt_do b (Os_WriteFile tmp data perm))
     (bnd (attempt (bt_do b (Os_Rename tmp path))) (\<lambda>r.
        case r of Inl e \<Rightarrow> seq (ignore (bt_do b (Os_Remove tmp))) (fail e) | Inr _ \<Rightarrow> ret ()))))"

definition EnsureRaindDefaultProfile :: "'h boot \<Rightarrow> string \<Rightarrow> (unit, 'h) act" where
  "EnsureRaindDefaultProfile b raindDefaultProfile =
     (let path = path_join [AppArmorDir, AppArmorProfile] in
      bnd (isAAEnabled b) (\<lambda>enabled.
      if \<not> enabled then fail (Err ''apparmor is not enabled on this host'')
      else seq (wrap_err ''write profile: '' (writeFileAtomic b path raindDefaultProfile 420))
        (bnd (wrap_err ''check profile loaded: '' (isProfilleLoaded b AppArmorProfile)) (\<lambda>loaded.
         if loaded then ret ()
         else seq (loadProfileWithParser b path)
           (bnd (wrap_err ''check profile loaded: '' (isProfilleLoaded b AppArmorProfile)) (\<lambda>loaded'.
              if loaded' then ret ()
              else fail (Err (''apparmor_parser succeeded but profile '' @ quoted_id AppArmorProfile @ '' not found in kernel list''))))))))"

subsection \<open>Directories and control groups (env/bootstrap.go)\<close>

text \<open>\<open>0o644\<close>.\<close>

definition setupRuntimeDirectory :: "'h boot \<Rightarrow> (unit, 'h daemon) act" where
  "setupRuntimeDirectory b =
     for_each (\<lambda>dir. on_host (bt_do b (Os_MkdirAll dir 420)))
       [''/etc/raind/container'', ''/etc/raind/image'', ''/etc/raind/image/layers'', ''/etc/raind/store'', ''/etc/raind/log/'',
        ''/etc/raind/cert'']"

definition CgroupSubtreeControlPath :: string where
  "CgroupSubtreeControlPath = ''/sys/fs/cgroup/raind/cgroup.subtree_control''"

definition setupCgroupDirectory :: "'h boot \<Rightarrow> (unit, 'h daemon) act" where
  "setupCgroupDirectory b = on_host (bt_do b (Os_MkdirAll CgroupRuntimeDir mode755))"

definition readCgroupEnabledControllers :: "'h boot \<Rightarrow> (string list, 'h daemon) act" where
  "readCgroupEnabledControllers b d =
     (case bt_scan b CgroupSubtreeControlPath (d_host d) of
        Inl e \<Rightarrow> (Inl e, d)
      | Inr (lines, Some e) \<Rightarrow> (Inl e, d)
      | Inr (lines, None) \<Rightarrow> (Inr (concat (map str_fields lines)), d))"

definition writeCgroupController :: "'h boot \<Rightarrow> string \<Rightarrow> (unit, 'h daemon) act" where
  "writeCgroupController b token =
     on_host (seq (bt_open_write b CgroupSubtreeControlPath)
       (bnd (attempt (bt_do b (Os_Copy CgroupSubtreeControlPath (Inr (token @ [newline]))))) (\<lambda>r.
          seq (ignore (bt_do b (Os_Close CgroupSubtreeControlPath))) (lift_res r))))"

text \<open>An error in reading ends the step without one.\<close>

definition enableCgroupControllers :: "'h boot \<Rightarrow> (unit, 'h daemon) act" where
  "enableCgroupControllers b =
     bnd (attempt (readCgroupEnabledControllers b)) (\<lambda>r.
       case r of
         Inl _ \<Rightarrow> ret ()
       | Inr enabled \<Rightarrow> for_each (\<lambda>c. if c \<in> set enabled then ret () else writeCgroupController b (''+'' @ c))
           [''cpu'', ''memory'', ''pids'', ''io''])"

definition createContainerCgroup :: "'h boot \<Rightarrow> (unit, 'h daemon) act" where
  "createContainerCgroup b =
     bnd (csm_do (query GetContainerList)) (\<lambda>containerList.
       for_each (\<lambda>c. on_host (bt_do b (Os_MkdirAll (path_join [CgroupRuntimeDir, c_ContainerId c]) mode755))) containerList)"

definition setupCgroup :: "'h boot \<Rightarrow> (unit, 'h daemon) act" where
  "setupCgroup b = seq (setupCgroupDirectory b) (seq (enableCgroupControllers b) (createContainerCgroup b))"

subsection \<open>Stores\<close>

definition setupIpam :: "'h boot \<Rightarrow> (unit, 'h daemon) act" where
  "setupIpam b =
     bnd (\<lambda>d. (GetDefaultInterfaceIpv4 (bt_route b (d_host d)), d)) (\<lambda>ifc.
     bnd (\<lambda>d. (GetDefaultInterfaceAddressIpv4 (bt_addr b (d_host d)) ifc, d)) (\<lambda>addr.
       ipam_do (upd (SetConfig_fn ifc addr))))"

definition setupCsm :: "(unit, 'h daemon) act" where
  "setupCsm = csm_do (upd SetContainerState)"

definition setupIlm :: "(unit, 'h daemon) act" where
  "setupIlm = ilm_do (upd ilm_SetConfig)"

text \<open>The error of the update is lost; a panic is not.\<close>

definition setupNpm :: "(unit, 'h daemon) act" where
  "setupNpm = seq (ignore (npm_do (upd SetNetworkPolicy_fn))) backup_policy"

subsection \<open>Network and policy\<close>

definition createBridgeInterface :: "'h boot \<Rightarrow> (unit, 'h daemon) act" where
  "createBridgeInterface b =
     bnd (ipam_do (query GetNetworkList)) (\<lambda>networkList.
       for_each (\<lambda>n. on_host (CreateBridgeInterface (w_run (bt_world b)) (nl_Interface n) (nl_Address n))) networkList)"

definition createMasqueradeRule :: "'h boot \<Rightarrow> (unit, 'h daemon) act" where
  "createMasqueradeRule b =
     bnd (ipam_do (query GetDefaultInterface)) (\<lambda>hostInterface.
     bnd (ipam_do (query GetRuntimeSubnet)) (\<lambda>runtimeSubnet.
       on_host (CreateMasqueradeRule (w_run (bt_world b)) runtimeSubnet hostInterface)))"

definition input_rule :: "string \<Rightarrow> string \<Rightarrow> int \<Rightarrow> InputRuleModel" where
  "input_rule src dst port = \<lparr>ir_SourceAddr = src, ir_DestAddr = dst, ir_Protocol = ''tcp'', ir_SourcePort = 0, ir_DestPort = port\<rparr>"

text \<open>Containers reach the hook server, port 7756 of the host, and not the management server, port 7755.\<close>

definition createManagementProtectRule :: "'h boot \<Rightarrow> (unit, 'h daemon) act" where
  "createManagementProtectRule b =
     bnd (ipam_do (query GetRuntimeSubnet)) (\<lambda>runtimeSubnet.
     bnd (ipam_do (query GetDefaultInterfaceAddr)) (\<lambda>hostAddr0.
       let hostAddr = hd (split_on (CHR ''/'') hostAddr0); run = w_run (bt_world b) in
       seq (on_host (InsertInputRule run 1 (input_rule runtimeSubnet hostAddr 7756) ''ACCEPT''))
           (on_host (InsertInputRule run 2 (input_rule runtimeSubnet hostAddr 7755) ''DROP''))))"

definition createDnsProxyInterface :: "'h boot \<Rightarrow> string \<Rightarrow> string \<Rightarrow> (unit, 'h daemon) act" where
  "createDnsProxyInterface b ifname addr = on_host (CreateBridgeInterface (w_run (bt_world b)) ifname addr)"

definition createRedirectDnsRule :: "'h boot \<Rightarrow> string \<Rightarrow> (unit, 'h daemon) act" where
  "createRedirectDnsRule b addr =
     bnd (ipam_do (query GetNetworkList)) (\<lambda>networkList.
       for_each (\<lambda>n. on_host (CreateRedirectDnsTrafficRule (w_run (bt_world b)) (nl_Interface n) addr)) networkList)"

definition setupDnsProxy :: "'h boot \<Rightarrow> (unit, 'h daemon) act" where
  "setupDnsProxy b =
     bnd (ipam_do (query GetDnsProxyInfo)) (\<lambda>(proxyIf, proxyAddr, _).
       seq (createDnsProxyInterface b proxyIf proxyAddr) (createRedirectDnsRule b proxyAddr))"

definition setupNetwork :: "'h boot \<Rightarrow> (unit, 'h daemon) act" where
  "setupNetwork b =
     seq (createBridgeInterface b) (seq (createMasqueradeRule b) (seq (createManagementProtectRule b) (setupDnsProxy b)))"

definition setupPolicy :: "'h boot \<Rightarrow> (unit, 'h daemon) act" where
  "setupPolicy b = seq (BuildPredefinedPolicy (w_run (bt_world b))) (BuildUserPolicy (w_run (bt_world b)))"

text \<open>Without the profile the daemon goes on.\<close>

definition setupAppArmor :: "'h boot \<Rightarrow> string \<Rightarrow> (unit, 'h daemon) act" where
  "setupAppArmor b profile = ignore (on_host (EnsureRaindDefaultProfile b profile))"

subsection \<open>Certificates\<close>

definition year :: time where
  "year = 365 * 24 * hour"

definition server_config :: "string \<Rightarrow> CertConfig" where
  "server_config hostaddr = \<lparr>cg_CommonName = ''raind'', cg_DNSNames = [''localhost''],
     cg_IPAddresses = [ParseIP4 ''127.0.0.1'', ParseIP4 hostaddr], cg_ValidFor = 5 * year\<rparr>"

definition issuer_config :: CertConfig where
  "issuer_config = \<lparr>cg_CommonName = ''raind client issuer'', cg_DNSNames = [], cg_IPAddresses = [], cg_ValidFor = 5 * year\<rparr>"

definition client_config :: "string \<Rightarrow> string \<Rightarrow> ClientCertConfig" where
  "client_config name spiffe =
     \<lparr>cl_SpiiffeId = spiffe, cl_CommonName = name, cl_DNSNames = [], cl_URISANs = [], cl_ValidFor = year\<rparr>"

definition ensure_certificates :: "'h boot \<Rightarrow> string \<Rightarrow> (unit, 'h daemon) act" where
  "ensure_certificates b hostaddr =
     seq (on_host (EnsureSelfSignedCert (bt_certs b) ''/etc/raind/cert/raind.crt'' ''/etc/raind/cert/raind.key''
            (server_config (hd (split_on (CHR ''/'') hostaddr)))))
    (seq (on_host (EnsureClientCACert (bt_certs b) ''/etc/raind/cert/raindClientCA.crt'' ''/etc/raind/cert/raindClientCA.key'' issuer_config))
    (seq (on_host (IssueClientCert (bt_certs b) ''/etc/raind/cert/raindClient.crt'' ''/etc/raind/cert/raindClient.key''
            ''/etc/raind/cert/raindClientCA.crt'' ''/etc/raind/cert/raindClientCA.key''
            (client_config ''raind-client'' ''spiffe://raind/cli/admin'')))
         (on_host (IssueClientCert (bt_certs b) ''/etc/raind/cert/raindHookClient.crt'' ''/etc/raind/cert/raindHookClient.key''
            ''/etc/raind/cert/raindClientCA.crt'' ''/etc/raind/cert/raindClientCA.key''
            (client_config ''raind-hook-client'' ''spiffe://raind/droplet/container'')))))"

definition setupCertificate :: "'h boot \<Rightarrow> (unit, 'h daemon) act" where
  "setupCertificate b = bnd (ipam_do (query GetDefaultInterfaceAddr)) (ensure_certificates b)"

definition SetupRuntime :: "'h boot \<Rightarrow> string \<Rightarrow> (unit, 'h daemon) act" where
  "SetupRuntime b profile =
     seq (setupRuntimeDirectory b) (seq (setupIpam b) (seq setupCsm (seq setupIlm (seq setupNpm
    (seq (setupCgroup b) (seq (setupCertificate b) (seq (setupNetwork b) (seq (setupPolicy b) (setupAppArmor b profile)))))))))"

subsection \<open>A restart keeps the stores\<close>

text \<open>The networks with their addresses, containers, images, pods, bottles and services of two daemons agree.\<close>

definition kept :: "'h daemon \<Rightarrow> 'h daemon \<Rightarrow> bool" where
  "kept d0 d \<longleftrightarrow> Pools (d_ipam d) = Pools (d_ipam d0) \<and> Containers (d_csm d) = Containers (d_csm d0) \<and>
     Repositories (d_ilm d) = Repositories (d_ilm d0) \<and> d_psm d = d_psm d0 \<and> d_bsm d = d_bsm d0 \<and> d_ssm d = d_ssm d0"

lemma kept_stores:
  "stable (kept d0) (csm_do (query f))" "stable (kept d0) (ipam_do (query g))" "stable (kept d0) (npm_do fn)"
  "stable (kept d0) (npm_read z k)" "stable (kept d0) backup_policy"
  by (auto simp: stable_def kept_def npm_read_def backup_policy_def access_def store_access_def query_def
      split: sum.splits prod.splits option.splits)

lemma kept_config:
  "stable (kept d0) (csm_do (upd SetContainerState))" "stable (kept d0) (ilm_do (upd ilm_SetConfig))"
  "Pools (d_ipam d0) \<noteq> [] \<Longrightarrow> stable (kept d0) (ipam_do (upd (SetConfig_fn ifc addr)))"
  by (auto simp: stable_def kept_def access_def store_access_def upd_def SetContainerState_def ilm_SetConfig_def SetConfig_fn_def Let_def
      split: sum.splits prod.splits option.splits)

lemma kept_host: "stable (kept d0) (on_host m)"
  by (rule stable_on_host) (simp add: kept_def)

lemma kept_ask: "stable (kept d0) (\<lambda>d. (f d, d))"
  by (simp add: stable_def)

lemma kept_scan: "stable (kept d0) (readCgroupEnabledControllers b)"
  by (simp add: stable_def readCgroupEnabledControllers_def split: sum.split prod.split option.split)

lemmas kept_intros = kept_stores kept_host kept_scan stable_intros stable_ignore

lemma kept_resolve: "stable (kept d0) (resolveContainerNameAndInfo n)"
  unfolding resolveContainerNameAndInfo_def by (intro kept_intros)

lemma kept_user:
  "stable (kept d0) (insertRaindEWUserPolicy run ps l)" "stable (kept d0) (insertRaindNSUserPolicy run c ps l)"
  unfolding insertRaindEWUserPolicy_def insert_ew_policy_def insertRaindNSUserPolicy_def insert_ns_policy_def Let_def
    insert_rule_def
  by (intro kept_intros kept_resolve)+

lemma kept_policy: "stable (kept d0) (setupPolicy b)"
  unfolding setupPolicy_def BuildPredefinedPolicy_def BuildUserPolicy_def createChain_def insertForward_def
    buildRaindRootChain_def buildRaindEWChain_def buildRaindNSEnforceChain_def buildRaindNSObserveChain_def add_rule_def Let_def
  by (intro kept_intros kept_user)

lemma kept_network: "stable (kept d0) (setupNetwork b)"
  unfolding setupNetwork_def createBridgeInterface_def createMasqueradeRule_def createManagementProtectRule_def setupDnsProxy_def
    createDnsProxyInterface_def createRedirectDnsRule_def Let_def
  by (intro kept_intros)

lemma kept_setup:
  "stable (kept d0) (setupRuntimeDirectory b)" "stable (kept d0) (setupCgroup b)" "stable (kept d0) setupNpm"
  "stable (kept d0) (setupCertificate b)" "stable (kept d0) (setupAppArmor b profile)"
  unfolding setupRuntimeDirectory_def setupCgroup_def setupCgroupDirectory_def enableCgroupControllers_def
    createContainerCgroup_def writeCgroupController_def setupNpm_def setupCertificate_def ensure_certificates_def setupAppArmor_def
  by (intro kept_intros)+

lemma kept_setup_stores:
  "stable (kept d0) setupCsm" "stable (kept d0) setupIlm" "Pools (d_ipam d0) \<noteq> [] \<Longrightarrow> stable (kept d0) (setupIpam b)"
  unfolding setupCsm_def setupIlm_def setupIpam_def by (intro kept_config stable_bnd kept_ask; assumption)+

text \<open>Restarting the daemon loses nothing.  Whatever the host answers, whichever commands, system calls and file operations
  fail, and whether the start succeeds or stops in the middle: the networks of the address store with all their
  allocations, the containers, the images, the pods, the bottles and the services are what they were before.\<close>

theorem restart_keeps_state:
  assumes "Pools (d_ipam d) \<noteq> []" "SetupRuntime b profile d = (r, d')"
  shows "Pools (d_ipam d') = Pools (d_ipam d) \<and> Containers (d_csm d') = Containers (d_csm d) \<and>
    Repositories (d_ilm d') = Repositories (d_ilm d) \<and> d_psm d' = d_psm d \<and> d_bsm d' = d_bsm d \<and> d_ssm d' = d_ssm d"
proof -
  have "stable (kept d) (SetupRuntime b profile)"
    unfolding SetupRuntime_def by (intro stable_seq kept_setup kept_setup_stores kept_network kept_policy assms(1))
  from stableD [OF this assms(2)] show ?thesis by (simp add: kept_def)
qed

text \<open>
  The copy of the policy that is in force is replaced by the file, so changes that were never committed can no longer be reverted.
\<close>

lemma restart_accepts_edits: "io_ok d \<Longrightarrow> \<exists>d'. setupNpm d = (Inr (), d') \<and> d_running d' = Doc (d_npm d') \<and>
    Policies (d_npm d') = Policies (d_npm d)"
  by (simp add: setupNpm_def ignore_def access_ok upd_def SetNetworkPolicy_fn_def backup_policy_def io_ok_def next_io_def)

definition demo_boot :: "(string \<rightharpoonup> string) boot" where
  "demo_boot = \<lparr>bt_world = demo_world, bt_certs = demo_certs, bt_route = (\<lambda>h. Inr ''default via 192.168.0.1 dev eth0''),
     bt_addr = (\<lambda>h i. Inr ''inet 192.168.0.2/24''), bt_scan = (\<lambda>p h. Inr ([''cpu io''], None)), bt_open_write = (\<lambda>p. ret ()),
     bt_parser = (\<lambda>c h. (('''', None), h))\<rparr>"

theorem restart_keeps_state_witness:
  "case SetupRuntime demo_boot ''profile'' demo_machine of
     (r, d') \<Rightarrow> Pools (d_ipam d') = Pools (d_ipam demo_machine) \<and> Containers (d_csm d') = Containers csm_demo"
proof -
  obtain r d' where run: "SetupRuntime demo_boot ''profile'' demo_machine = (r, d')" by fastforce
  have "Pools (d_ipam demo_machine) \<noteq> []" by (simp add: ipam_initial_def)
  from restart_keeps_state [OF this run] show ?thesis using run by simp
qed

subsection \<open>Certificates are made once\<close>

text \<open>An action that adds files, among them \<open>ps\<close> when it succeeds, and does nothing when all of these are there.\<close>

definition adds_files :: "('h \<Rightarrow> string \<rightharpoonup> string) \<Rightarrow> string set \<Rightarrow> (unit, 'h daemon) act \<Rightarrow> bool" where
  "adds_files files ps m \<longleftrightarrow> (\<forall>d r d'. m d = (r, d') \<longrightarrow> files (d_host d) \<subseteq>\<^sub>m files (d_host d') \<and>
     (r = Inr () \<longrightarrow> ps \<subseteq> dom (files (d_host d'))) \<and> (ps \<subseteq> dom (files (d_host d)) \<longrightarrow> r = Inr () \<and> d' = d))"

lemma adds_filesD:
  assumes "adds_files files ps m" "m d = (r, d')"
  shows "files (d_host d) \<subseteq>\<^sub>m files (d_host d')" "r = Inr () \<Longrightarrow> ps \<subseteq> dom (files (d_host d'))"
    "ps \<subseteq> dom (files (d_host d)) \<Longrightarrow> m d = (Inr (), d)"
  using assms unfolding adds_files_def by auto

lemma adds_files_host:
  assumes "ensures_pair files cp kp m"
  shows "adds_files files {cp, kp} (on_host m)"
  unfolding adds_files_def
proof (intro allI impI)
  fix d r and d' :: "'a daemon" assume run: "on_host m d = (r, d')"
  obtain h where m: "m (d_host d) = (r, h)" and d': "d' = d\<lparr>d_host := h\<rparr>" using run by (auto simp: on_host_def split: prod.splits)
  show "files (d_host d) \<subseteq>\<^sub>m files (d_host d') \<and> (r = Inr () \<longrightarrow> {cp, kp} \<subseteq> dom (files (d_host d'))) \<and>
      ({cp, kp} \<subseteq> dom (files (d_host d)) \<longrightarrow> r = Inr () \<and> d' = d)"
    using ensures_pairD [OF assms m] by (auto simp: d' split: if_splits)
qed

lemma adds_files_seq:
  assumes m: "adds_files files ps m" and k: "adds_files files qs k"
  shows "adds_files files (ps \<union> qs) (seq m k)"
  unfolding adds_files_def
proof (intro allI impI)
  fix d r d' assume run: "seq m k d = (r, d')"
  obtain r1 d1 where 1: "m d = (r1, d1)" by fastforce
  note m1 = adds_filesD [OF m 1]
  show "files (d_host d) \<subseteq>\<^sub>m files (d_host d') \<and> (r = Inr () \<longrightarrow> ps \<union> qs \<subseteq> dom (files (d_host d'))) \<and>
      (ps \<union> qs \<subseteq> dom (files (d_host d)) \<longrightarrow> r = Inr () \<and> d' = d)"
  proof (cases r1)
    case (Inl e)
    then show ?thesis using run 1 m1 by auto
  next
    case (Inr u)
    then have 2: "k d1 = (r, d')" using run 1 by simp
    note k1 = adds_filesD [OF k 2]
    have le: "dom (files (d_host d1)) \<subseteq> dom (files (d_host d'))" by (rule map_le_implies_dom_le [OF k1(1)])
    have "ps \<subseteq> dom (files (d_host d1))" using m1(2) Inr by simp
    then have "ps \<union> qs \<subseteq> dom (files (d_host d'))" if "r = Inr ()" using k1(2) [OF that] le by blast
    then show ?thesis using map_le_trans [OF m1(1) k1(1)] k1(3) m1(3) 1 2 by auto
  qed
qed

definition cert_paths :: "string list" where
  "cert_paths = [''/etc/raind/cert/raind.crt'', ''/etc/raind/cert/raind.key'', ''/etc/raind/cert/raindClientCA.crt'',
     ''/etc/raind/cert/raindClientCA.key'', ''/etc/raind/cert/raindClient.crt'', ''/etc/raind/cert/raindClient.key'',
     ''/etc/raind/cert/raindHookClient.crt'', ''/etc/raind/cert/raindHookClient.key'']"

text \<open>The four pairs one after the other.\<close>

lemma ensure_pairs_add:
  assumes "ensures_pair files c1 k1 m1" "ensures_pair files c2 k2 m2" "ensures_pair files c3 k3 m3" "ensures_pair files c4 k4 m4"
  shows "adds_files files (set [c1, k1, c2, k2, c3, k3, c4, k4]) (seq (on_host m1) (seq (on_host m2) (seq (on_host m3) (on_host m4))))"
proof -
  have "adds_files files ({c1, k1} \<union> ({c2, k2} \<union> ({c3, k3} \<union> {c4, k4})))
      (seq (on_host m1) (seq (on_host m2) (seq (on_host m3) (on_host m4))))"
    by (intro adds_files_seq adds_files_host assms)
  moreover have "{c1, k1} \<union> ({c2, k2} \<union> ({c3, k3} \<union> {c4, k4})) = set [c1, k1, c2, k2, c3, k3, c4, k4]" by auto
  ultimately show ?thesis by simp
qed

lemma ensure_certificates_add:
  assumes "cert_laws (bt_certs b) files"
  shows "adds_files files (set cert_paths) (ensure_certificates b a)"
  unfolding ensure_certificates_def cert_paths_def by (intro ensure_pairs_add ensures_certs [OF assms]; simp)

text \<open>The certificates of the daemon are made once.  Setting them up never changes or removes an existing file, whether it
  succeeds or not; after a success all four pairs are on disk, and setting them up again, as at the next start, succeeds
  and changes nothing at all.\<close>

theorem startup_certificates:
  assumes laws: "cert_laws (bt_certs b) files" and io: "io_ok d" and run: "setupCertificate b d = (r, d')"
  shows "files (d_host d) \<subseteq>\<^sub>m files (d_host d') \<and>
    (r = Inr () \<longrightarrow> set cert_paths \<subseteq> dom (files (d_host d')) \<and> setupCertificate b d' = (Inr (), d'))"
proof -
  let ?k = "ensure_certificates b"
  note k = ensure_certificates_add [OF laws] and eq = setupCertificate_def [of b]
  show ?thesis
  proof (cases "GetDefaultInterfaceAddr (d_ipam d)")
    case (Inl e)
    then show ?thesis using run io by (auto simp: eq access_error)
  next
    case (Inr a)
    then have "?k a d = (r, d')" using run io by (simp add: eq access_ok)
    note kd = adds_filesD [OF k this]
    have ip: "io_ok d' \<and> d_ipam d' = d_ipam d"
    proof -
      have "stable (ipam_is (d_ipam d)) (setupCertificate b)"
        unfolding setupCertificate_def ensure_certificates_def by (intro stable_intros ipam_is_host)
      from stableD [OF this run] show ?thesis using io by (simp add: ipam_is_def)
    qed
    have "?k a d' = (Inr (), d')" if "r = Inr ()"
      using kd(2) [OF that] adds_filesD(3) [OF k prod.collapse [symmetric]] by blast
    moreover have "GetDefaultInterfaceAddr (d_ipam d') = Inr a" using ip Inr by simp
    then have "ipam_do (query GetDefaultInterfaceAddr) d' = (Inr a, d')" using ip by (simp add: access_ok)
    ultimately show ?thesis using kd(1,2) by (simp add: eq)
  qed
qed

lemma demo_made:
  "h cp = None \<Longrightarrow> h kp = None \<Longrightarrow> cp \<noteq> kp \<Longrightarrow>
     EnsureSelfSignedCert demo_certs cp kp cfg h = (Inr (), h(cp \<mapsto> ''CERTIFICATE:'' @ cg_CommonName cfg @ ''/key public/key'', kp \<mapsto> ''RSA PRIVATE KEY:key''))"
  "h cp = None \<Longrightarrow> h kp = None \<Longrightarrow> cp \<noteq> kp \<Longrightarrow>
     EnsureClientCACert demo_certs cp kp cfg h = (Inr (), h(cp \<mapsto> ''CERTIFICATE:'' @ cg_CommonName cfg @ ''/key public/key'', kp \<mapsto> ''RSA PRIVATE KEY:key''))"
  "h cp = None \<Longrightarrow> h kp = None \<Longrightarrow> cp \<noteq> kp \<Longrightarrow> h cac = Some (''CERTIFICATE:'' @ x) \<Longrightarrow> h cak = Some ''RSA PRIVATE KEY:key'' \<Longrightarrow>
     IssueClientCert demo_certs cp kp cac cak ccfg h = (Inr (), h(cp \<mapsto> ''CERTIFICATE:'' @ cl_CommonName ccfg @ ''/key public/key'', kp \<mapsto> ''RSA PRIVATE KEY:key''))"
  by (simp_all add: EnsureSelfSignedCert_def EnsureClientCACert_def IssueClientCert_def unless_both_def isFileExists_def demo_certs_def
      spiffe_uri_def cert_now_def loadCertAndKey_def write_pair_def writePem_def ignore_def client_template_def Let_def)

theorem startup_certificates_witness:
  "case setupCertificate demo_boot demo_machine of
     (r, d') \<Rightarrow> r = Inr () \<and> setupCertificate demo_boot d' = (Inr (), d') \<and> d_host d' ''/etc/raind/cert/raind.key'' \<noteq> None"
proof -
  obtain r d' where run: "setupCertificate demo_boot demo_machine = (r, d')" by fastforce
  have "GetDefaultInterfaceAddr (d_ipam demo_machine) = Inr ''192.168.0.2/24''" by (simp add: GetDefaultInterfaceAddr_def ipam_initial_def)
  then have "r = Inr ()" using run
    by (simp add: setupCertificate_def ensure_certificates_def access_ok demo_boot_def on_host_def demo_made issuer_config_def seq_def bnd_def)
  have "cert_laws (bt_certs demo_boot) (\<lambda>h. h)" by (simp add: demo_boot_def demo_cert_laws)
  from startup_certificates [OF this _ run] show ?thesis using run \<open>r = Inr ()\<close> by (auto simp: cert_paths_def)
qed

subsection \<open>Containers do not reach the management server\<close>

text \<open>\<open>-I\<close> with the position 2 puts a rule behind the first one of a chain that has one.\<close>

definition second_law ::
  "'h runner \<Rightarrow> ('h \<Rightarrow> 'r tables) \<Rightarrow> (string list \<Rightarrow> 'r) \<Rightarrow> (string list \<Rightarrow> bool) \<Rightarrow> bool" where
  "second_law run tables parse valid \<longleftrightarrow> (\<forall>c spec. opt_spec spec \<longrightarrow>
     chain_cmd run tables (ipt ''filter'' (''-I'' # c # ''2'' # spec)) (''filter'', c)
       (\<lambda>x. case x of Some (r # rs) \<Rightarrow> if valid spec then Some (r # parse spec # rs) else None | _ \<Rightarrow> None))"

definition protect_spec :: "string \<Rightarrow> string \<Rightarrow> int \<Rightarrow> string \<Rightarrow> string list" where
  "protect_spec src dst port action = [''-s'', src, ''-d'', dst, ''-j'', action, ''-p'', ''tcp'', ''--dport'', itoa port]"

lemma opt_protect: "opt_spec (protect_spec src dst port action)"
  by (simp add: opt_spec_def protect_spec_def has_prefix_def)

lemma insert_input_unfold:
  assumes "port > 0"
  shows "InsertInputRule run num (input_rule src dst port) action =
    ensure_rule run (ipt ''filter'' (''-C'' # ''INPUT'' # protect_spec src dst port action))
      (ipt ''filter'' (''-I'' # ''INPUT'' # itoa num # protect_spec src dst port action))"
  using assms by (simp add: InsertInputRule_def input_rule_def args_if_def protect_spec_def ipt_def Let_def)

lemma ensure_present:
  assumes laws: "iptables_laws run tables parse valid" and "opt_spec spec" "valid spec" "tables h (t, c) = Some rs" "parse spec \<in> set rs"
  shows "ensure_rule run (ipt t (''-C'' # c # spec)) cmd h = (Inr (), h)"
  using laws_check [OF laws assms(2), of t c h] assms(3-) by (simp add: ensure_rule_def cmd_Run_def)

lemma ensure_absent:
  assumes laws: "iptables_laws run tables parse valid" and "opt_spec spec" "tables h (t, c) = Some rs" "parse spec \<notin> set rs"
    and "run cmd h = (True, h')"
  shows "ensure_rule run (ipt t (''-C'' # c # spec)) cmd h = (Inr (), h')"
  using laws_check [OF laws assms(2), of t c h] assms(3-) by (simp add: ensure_rule_def cmd_Run_def attempt_def bnd_def command_failed_def)

definition with_second :: "'r \<Rightarrow> 'r list \<Rightarrow> 'r list" where
  "with_second r rs = (if r \<in> set rs then rs else hd rs # r # tl rs)"

lemma ensure_second:
  assumes laws: "iptables_laws run tables parse valid" "second_law run tables parse valid" and s: "opt_spec spec" "valid spec"
    and t: "tables h (''filter'', c) = Some rs" "rs \<noteq> []"
  shows "\<exists>h'. ensure_rule run (ipt ''filter'' (''-C'' # c # spec)) (ipt ''filter'' (''-I'' # c # ''2'' # spec)) h = (Inr (), h') \<and>
    tables h' = (tables h)((''filter'', c) \<mapsto> with_second (parse spec) rs)"
proof (cases "parse spec \<in> set rs")
  case True
  show ?thesis
    using ensure_present [of run tables parse valid spec h "''filter''" c rs] laws(1) s fun_upd_idem [of "tables h" "(''filter'', c)" "Some rs"] t(1) True
    by (intro exI [of _ h] conjI) (simp_all only: with_second_def if_True)
next
  case False
  have "chain_cmd run tables (ipt ''filter'' (''-I'' # c # ''2'' # spec)) (''filter'', c)
       (\<lambda>x. case x of Some (r # rs) \<Rightarrow> if valid spec then Some (r # parse spec # rs) else None | _ \<Rightarrow> None)"
    using laws(2) s(1) by (simp add: second_law_def)
  from chain_cmd_ok [OF this, of h "hd rs # parse spec # tl rs"]
  obtain h' where "run (ipt ''filter'' (''-I'' # c # ''2'' # spec)) h = (True, h')"
    and h': "tables h' = (tables h)((''filter'', c) \<mapsto> hd rs # parse spec # tl rs)" using t s(2) by (cases rs) auto
  then have "ensure_rule run (ipt ''filter'' (''-C'' # c # spec)) (ipt ''filter'' (''-I'' # c # ''2'' # spec)) h = (Inr (), h')"
    using ensure_absent [of run tables parse valid spec h "''filter''" c rs] laws(1) s(1) t(1) False by blast
  then show ?thesis using h' False by (intro exI [of _ h']) (simp add: with_second_def)
qed

lemma ensure_first:
  assumes laws: "iptables_laws run tables parse valid" and s: "opt_spec spec" "valid spec" and t: "tables h (''filter'', c) = Some rs"
  shows "\<exists>h'. ensure_rule run (ipt ''filter'' (''-C'' # c # spec)) (ipt ''filter'' (''-I'' # c # ''1'' # spec)) h = (Inr (), h') \<and>
    tables h' = (tables h)((''filter'', c) \<mapsto> List.insert (parse spec) rs)"
proof (cases "parse spec \<in> set rs")
  case True
  show ?thesis
    using ensure_present [of run tables parse valid spec h "''filter''" c rs] laws s fun_upd_idem [of "tables h" "(''filter'', c)" "Some rs"] t True
    by (intro exI [of _ h] conjI) (simp_all only: List.insert_def if_True)
next
  case False
  obtain h' where h': "run (ipt ''filter'' (''-I'' # c # ''1'' # spec)) h = (True, h')" "tables h' = (tables h)((''filter'', c) \<mapsto> parse spec # rs)"
    using laws_insert_first [of run tables parse valid spec h "''filter''" c rs] laws s t by blast
  then have "ensure_rule run (ipt ''filter'' (''-C'' # c # spec)) (ipt ''filter'' (''-I'' # c # ''1'' # spec)) h = (Inr (), h')"
    using ensure_absent [of run tables parse valid spec h "''filter''" c rs] laws s(1) t False by blast
  then show ?thesis using h' False by (intro exI [of _ h']) (simp add: List.insert_def)
qed

lemma insert_filter: "\<not> P r \<Longrightarrow> filter P (List.insert r rs) = filter P rs"
  by (simp add: List.insert_def)

lemma second_set: "rs \<noteq> [] \<Longrightarrow> set (with_second r rs) = insert r (set rs)"
  by (cases rs) (auto simp: with_second_def)

lemma second_filter: "\<not> P r \<Longrightarrow> rs \<noteq> [] \<Longrightarrow> filter P (with_second r rs) = filter P rs"
  by (cases rs) (simp_all add: with_second_def)

text \<open>Start-up closes the management port to containers.  On a host whose \<open>iptables\<close> does what its manual says the step
  succeeds; the input chain then has the rule that drops the traffic of containers to port 7755 of the host and the one
  that accepts it to port 7756, at its head when it had neither; the other rules of the chain, in their order, and all
  other chains are as before; and doing it again, as at the next start, changes nothing.\<close>

theorem management_port_closed:
  assumes laws: "iptables_laws (w_run (bt_world b)) tables parse valid" "second_law (w_run (bt_world b)) tables parse valid"
    and io: "io_ok d" and cfg: "GetRuntimeSubnet (d_ipam d) = Inr src" "GetDefaultInterfaceAddr (d_ipam d) = Inr (dst @ CHR ''/'' # len)"
    and dst: "CHR ''/'' \<notin> set dst" and rules: "tables (d_host d) (''filter'', ''INPUT'') = Some rs"
    and ok: "valid (protect_spec src dst 7756 ''ACCEPT'')" "valid (protect_spec src dst 7755 ''DROP'')"
  shows "\<exists>d' rs'. createManagementProtectRule b d = (Inr (), d') \<and> createManagementProtectRule b d' = (Inr (), d') \<and>
    tables (d_host d') = (tables (d_host d))((''filter'', ''INPUT'') \<mapsto> rs') \<and>
    (let hook = parse (protect_spec src dst 7756 ''ACCEPT''); management = parse (protect_spec src dst 7755 ''DROP'') in
       {hook, management} \<subseteq> set rs' \<and>
       filter (\<lambda>r. r \<notin> {hook, management}) rs' = filter (\<lambda>r. r \<notin> {hook, management}) rs \<and>
       (hook \<notin> set rs \<and> management \<notin> set rs \<and> hook \<noteq> management \<longrightarrow> rs' = hook # management # rs))"
proof -
  let ?run = "w_run (bt_world b)" and ?k = "(''filter'', ''INPUT'')"
  let ?A = "protect_spec src dst 7756 ''ACCEPT''" and ?D = "protect_spec src dst 7755 ''DROP''"
  let ?ens = "\<lambda>n s. ensure_rule ?run (ipt ''filter'' (''-C'' # ''INPUT'' # s)) (ipt ''filter'' (''-I'' # ''INPUT'' # n # s))"
  have step: "createManagementProtectRule b e = seq (on_host (?ens ''1'' ?A)) (on_host (?ens ''2'' ?D)) e"
    if "io_ok e" "d_ipam e = d_ipam d" for e
  proof -
    have "ipam_do (query GetRuntimeSubnet) e = (Inr src, e)" "ipam_do (query GetDefaultInterfaceAddr) e = (Inr (dst @ CHR ''/'' # len), e)"
      using that(1) cfg that(2) [symmetric] by (simp_all add: access_ok)
    moreover have "hd (split_on (CHR ''/'') (dst @ CHR ''/'' # len)) = dst" using dst by (simp add: split_on_append)
    moreover have "itoa 1 = ''1''" "itoa 2 = ''2''" by code_simp+
    ultimately show ?thesis by (simp add: createManagementProtectRule_def insert_input_unfold Let_def)
  qed
  obtain h1 where 1: "?ens ''1'' ?A (d_host d) = (Inr (), h1)" "tables h1 = (tables (d_host d))(?k \<mapsto> List.insert (parse ?A) rs)"
    using ensure_first [of ?run tables parse valid ?A "d_host d" "''INPUT''" rs] laws(1) opt_protect ok(1) rules by blast
  let ?rs1 = "List.insert (parse ?A) rs" and ?rs2 = "with_second (parse ?D) (List.insert (parse ?A) rs)"
  have ne: "?rs1 \<noteq> []" by (auto simp: List.insert_def split: if_splits)
  obtain h2 where 2: "?ens ''2'' ?D h1 = (Inr (), h2)" "tables h2 = (tables (d_host d))(?k \<mapsto> ?rs2)"
  proof -
    have "tables h1 ?k = Some ?rs1" using 1(2) by simp
    from ensure_second [of ?run tables parse valid ?D h1 "''INPUT''" ?rs1, OF laws opt_protect ok(2) this ne] obtain h2 where "?ens ''2'' ?D h1 = (Inr (), h2)" "tables h2 = (tables h1)(?k \<mapsto> ?rs2)"
      by blast
    then show ?thesis using that [of h2] 1(2) by simp
  qed
  have in2: "parse ?A \<in> set ?rs2" "parse ?D \<in> set ?rs2"
    unfolding second_set [OF ne] by simp_all
  let ?d' = "d\<lparr>d_host := h2\<rparr>"
  have run: "createManagementProtectRule b d = (Inr (), ?d')" using step [OF io refl] 1(1) 2(1) by (simp add: on_host_def)
  have again: "createManagementProtectRule b ?d' = (Inr (), ?d')"
    using step [of ?d'] io laws(1) opt_protect ok ensure_present [of ?run tables parse valid ?A h2 "''filter''" "''INPUT''" ?rs2]
      ensure_present [of ?run tables parse valid ?D h2 "''filter''" "''INPUT''" ?rs2] 2(2) in2
    by (simp add: on_host_def io_ok_def)
  have others: "filter (\<lambda>r. r \<notin> {parse ?A, parse ?D}) ?rs2 = filter (\<lambda>r. r \<notin> {parse ?A, parse ?D}) rs"
    using ne by (simp add: second_filter insert_filter)
  have fresh: "?rs2 = parse ?A # parse ?D # rs" if "parse ?A \<notin> set rs" "parse ?D \<notin> set rs" "parse ?A \<noteq> parse ?D"
    using that by (auto simp: with_second_def List.insert_def)
  have tables: "tables (d_host ?d') = (tables (d_host d))(?k \<mapsto> ?rs2)" using 2(2) by simp
  show ?thesis unfolding Let_def
    by (rule exI [of _ ?d'], rule exI [of _ ?rs2]) (intro conjI impI run again tables others fresh; use in2 in simp)
qed

text \<open>\<open>table_run\<close> with the position 2.\<close>

definition second_run :: "string list tables runner" where
  "second_run cmd h =
     (case cmd of
        x # i # c # n # spec \<Rightarrow>
          if i = ''-I'' \<and> n = ''2''
          then (case h (''filter'', c) of Some (r # rs) \<Rightarrow> (True, h((''filter'', c) \<mapsto> r # spec # rs)) | _ \<Rightarrow> (False, h))
          else table_run cmd h
      | _ \<Rightarrow> table_run cmd h)"

lemma second_run_laws:
  "iptables_laws second_run (\<lambda>h. h) (\<lambda>s. s) (\<lambda>s. True)" "second_law second_run (\<lambda>h. h) (\<lambda>s. s) (\<lambda>s. True)"
proof -
  have e: "second_run (ipt t args) = table_run (ipt t args)" if "\<And>c spec. args \<noteq> ''-I'' # c # ''2'' # spec" for t args
    using that by (auto simp: fun_eq_iff second_run_def ipt_def split: list.split)
  have cong: "chain_cmd second_run T (ipt t args) k f = chain_cmd table_run T (ipt t args) k f"
    if "\<And>c spec. args \<noteq> ''-I'' # c # ''2'' # spec" for T t args k and f :: "string list list option \<Rightarrow> string list list option"
    unfolding chain_cmd_def e [OF that] by (rule refl)
  have opt: "spec \<noteq> ''2'' # s" if "opt_spec spec" for spec s using that by (auto simp: opt_spec_def has_prefix_def)
  show "iptables_laws second_run (\<lambda>h. h) (\<lambda>s. s) (\<lambda>s. True)"
    using table_laws unfolding iptables_laws_def by (simp add: e cong opt)
  show "second_law second_run (\<lambda>h. h) (\<lambda>s. s) (\<lambda>s. True)"
    by (auto simp: second_law_def chain_cmd_def second_run_def ipt_def split: option.split list.split)
qed

definition open_machine :: "string list tables daemon" where
  "open_machine = (demo_daemon npm_initial [(''filter'', ''INPUT'') \<mapsto> [[''-j'', ''ACCEPT'']]])\<lparr>d_ipam := ipam_initial ''eth0'' ''192.168.0.2/24''\<rparr>"

theorem management_port_closed_witness:
  "\<exists>d'. createManagementProtectRule (undefined\<lparr>bt_world := undefined\<lparr>w_run := second_run\<rparr>\<rparr>) open_machine = (Inr (), d') \<and>
     d_host d' (''filter'', ''INPUT'') = Some
       [protect_spec ''10.166.0.0/16'' ''192.168.0.2'' 7756 ''ACCEPT'', protect_spec ''10.166.0.0/16'' ''192.168.0.2'' 7755 ''DROP'', [''-j'', ''ACCEPT'']]"
proof -
  let ?b = "undefined\<lparr>bt_world := undefined\<lparr>w_run := second_run\<rparr>\<rparr> :: string list tables boot"
  have run: "w_run (bt_world ?b) = second_run" by simp
  have "GetRuntimeSubnet (d_ipam open_machine) = Inr ''10.166.0.0/16''"
    "GetDefaultInterfaceAddr (d_ipam open_machine) = Inr (''192.168.0.2'' @ CHR ''/'' # ''24'')"
    by (simp_all add: open_machine_def ipam_initial_def GetRuntimeSubnet_def GetDefaultInterfaceAddr_def)
  moreover have "io_ok open_machine" "d_host open_machine (''filter'', ''INPUT'') = Some [[''-j'', ''ACCEPT'']]"
    by (simp_all add: open_machine_def io_ok_def demo_daemon_def)
  ultimately show ?thesis
    using management_port_closed [of ?b "\<lambda>h. h" "\<lambda>s. s" "\<lambda>s. True" open_machine "''10.166.0.0/16''" "''192.168.0.2''" "''24''" "[[''-j'', ''ACCEPT'']]"]
      second_run_laws unfolding run by (auto simp: Let_def protect_spec_def)
qed

end
