(* ===== verification/Spec2Isabelle.thy ===== *)
theory Spec2Isabelle
  imports Ipam_Facts Csm Psm Bsm Ssm Ilm Npm Start_Order Dns Network Bottle_Service Service_Controller Enriched_Log
    Build_Facts Pod_Api Http_Api Startup
begin

text \<open>
  Condenser is the daemon of a container runtime: an HTTP server whose services create and run
  containers, pods, bottles (groups of containers) and services (load balancing in front of pods),
  give them addresses and networks, pull their images, filter their traffic and answer their DNS
  queries.  This development models its services and stores and proves the properties that make them
  correct.

  \<^bold>\<open>Parts and how they interact.\<close>  Seven stores under \<open>src/internal/store\<close> keep JSON documents in files:
  addresses (\<open>ipam\<close>), containers (\<open>csm\<close>), pods, templates and replica sets (\<open>psm\<close>), bottles (\<open>bsm\<close>),
  services (\<open>ssm\<close>), images (\<open>ilm\<close>) and network policies (\<open>npm\<close>).  The services under
  \<open>src/internal/core\<close> read and update them, run commands (\<open>ip\<close>, \<open>iptables\<close> and the container runtime
  \<open>droplet\<close>) and change files.  The runtime calls back: it posts the state of a container to the hook
  endpoint and has certificates signed.  Two controllers run every five seconds and bring pods and
  services to the state the documents ask for.

  \<^bold>\<open>Theories.\<close>
  \<^item> \<open>Prelude\<close>, \<open>Go_Text\<close>, \<open>Net_Addr\<close>: Go results, maps, strings, decimal numerals, IPv4 addresses (32 bit
    words) and networks.  A Go map is an association list whose order is the order in which a loop
    visits it, so a theorem about all lists covers every visiting order.
  \<^item> \<open>File_Store\<close>: the file protocol of all stores (lock, load, closure, temporary file, rename), with
    failing system calls, crashes between any two steps and concurrent clients.
  \<^item> \<open>Keyed_Store\<close>: the contract of a store of records that carry their identifier (a locale,
    interpreted on the container, pod, bottle, service and image stores).
  \<^item> \<open>Ipam\<close>, \<open>Ipam_Facts\<close>, \<open>Csm\<close>, \<open>Psm\<close>, \<open>Bsm\<close>, \<open>Ssm\<close>, \<open>Ilm\<close>, \<open>Npm\<close>: the stores.  Each manager method is
    the closure it runs under the lock, as a function from the document to a new one or an error.
  \<^item> \<open>Effects\<close>, \<open>Daemon\<close>: services as actions that return a Go result and a new state; the state is the
    documents of all stores, faults of their files, and the host.
  \<^item> \<open>Iptables\<close>, \<open>Policy_Service\<close>, \<open>Policy_Commit\<close>: \<open>core/policy\<close> and what a commit makes of the chains.
  \<^item> \<open>Network\<close>: \<open>core/network\<close>.
  \<^item> \<open>Image_Names\<close>, \<open>Layers\<close>, \<open>Registry\<close>, \<open>Image_Service\<close>: image references, the registry client
    (\<open>registry/dockerhub\<close>), unpacking of layers and \<open>core/image/service.go\<close>.
  \<^item> \<open>Runtime\<close>, \<open>Container\<close>, \<open>Container_Facts\<close>, \<open>Hook\<close>, \<open>Lifecycle\<close>: the driver of \<open>droplet\<close>, \<open>core/container\<close>, the
    hooks, the signing of certificates, and the life cycle of a container through all of them.
  \<^item> \<open>Certificates\<close>: the certificates of the daemon and the authority that signs those of its clients,
    \<open>core/cert/service.go\<close>.
  \<^item> \<open>Start_Order\<close>, \<open>Bottle_Service\<close>: \<open>core/bottle\<close> and the registration of bottles.
  \<^item> \<open>Pod_Service\<close>, \<open>Pod_Facts\<close>: \<open>core/pod\<close>, service and controller.
  \<^item> \<open>Service_Controller\<close>: \<open>core/service\<close> and the endpoint that stores services.
  \<^item> \<open>Pod_Api\<close>: pod and replica set manifests, \<open>core/pod/manifest.go\<close>, and the pod endpoint, \<open>api/http/pod\<close>.
  \<^item> \<open>Http_Api\<close>: the container, image, network and policy endpoints under \<open>api/http\<close>.
  \<^item> \<open>Dns\<close>: the DNS proxy and its cache.
  \<^item> \<open>Enriched_Log\<close>: the packet log, \<open>enriched_log/service.go\<close>.
  \<^item> \<open>Image_Build\<close>, \<open>Build_Facts\<close>: building images, \<open>core/image/service_build.go\<close>, and the endpoint that takes the
    archive of the context.
  \<^item> \<open>Startup\<close>: the preparation of the stores and of the host, \<open>env/bootstrap.go\<close>, and the AppArmor profile,
    \<open>lsm/apparmor.go\<close>.

  \<^bold>\<open>What the theorems show.\<close>  Stores: updates are serialisable and survive crashes; addresses are never
  given out twice, allocation and release undo each other and fail exactly when the pool is full;
  lookups by name and by identifier agree.  Services: the creation of containers
  outside pods and of networks is all or nothing, and a created container has the entry that was asked for; a commit
  builds exactly the chains of a reference definition and denies by default;
  start orders are topological; a created container can be started, stopped and deleted and leaves
  nothing behind; hook requests and certificates reach only the container they name; a client certificate is signed by
  the authority on disk for the key beside it; pod names stay unique whatever clients send one after another, deleting by
  a manifest and scaling down are exact, the rules of a service are those of its endpoints, change no other rule, and a second
  pass of its controller does nothing; an endpoint refuses malformed requests without an effect, with three exceptions.
  Unpacking layers and the instructions of a build after \<open>FROM\<close> hand the operating system only paths that are by their
  text below the root file system; a link that the system meets on the way leads elsewhere, and \<open>link_is_followed\<close> and
  \<open>copy_through_link\<close> show it.  The wait for a build container ends, and its
  script leaves the stores as they were.  The packet log attributes packets to the policies and containers
  that caused them and keeps its size where its file can be renamed.  A restart keeps the stores, makes certificates once and
  closes the management port to containers.

  Theorems that need the files of the stores to be readable and writable say so by \<open>io_ok\<close>; lemmas show what a fault
  does to those for which it matters (\<open>gateway_fault_keeps_address\<close>, \<open>build_fault_keeps_address\<close>, \<open>lookup_fault_stores\<close>).
  The store steps themselves serve concurrent clients (\<open>File_Store\<close>); the services are modelled one request after another, and
  \<open>unchecked_stores_duplicate\<close> shows where that matters for pods.

  \<^bold>\<open>Hypotheses on code that is not part of the program.\<close>  \<open>iptables_laws\<close> states what \<open>iptables\<close> does to the
  chains, \<open>second_law\<close> what inserting at the second position does; \<open>runtime_laws\<close>, \<open>creation_keeps_entry\<close> and \<open>keeps_pods\<close> state
  what a runtime command leaves alone, and all follow when the runtime reaches the daemon only through its hooks (\<open>hook_run\<close>),
  the second when none of them is the one after the end of a container; \<open>keeps_pods\<close> also says that nothing else creates or
  renames pods while the daemon sleeps; \<open>runtime_reports\<close> and \<open>host_works\<close>
  say that the runtime does what it is asked and posts the states, and that commands and removals
  succeed; \<open>sleep_laws\<close>, \<open>clock_laws\<close> and \<open>no_panic_removal\<close> say the same of a build: what happens while the daemon sleeps
  concerns the build container only, the clock advances, and removing a directory does not panic;
  \<open>logs_calls\<close> says that the calls which change files are recorded in the order in which they are made, \<open>plain_names\<close> that a
  directory lists elements of paths, and \<open>keeps_root\<close> that making files below a directory leaves it a directory;
  \<open>log_laws\<close> says what appending to a file and renaming it do, with success or without, \<open>renames_work\<close> that the log file can be
  renamed, and \<open>cert_laws\<close> what creating and writing one do.  Each is met by a concrete runner or world in an example.  System calls, HTTP, JSON and YAML
  decoding, SHA-256, X.509, random numbers, identifiers and the clock are arguments of the
  definitions; identifiers of new containers are assumed fresh where a theorem needs it.

  \<^bold>\<open>Bounds.\<close>  The search for a free address of a network takes as many steps as the network has
  addresses, and that for a free /24 one step more than there are networks, so both end by
  themselves.  The loop for a random container name tries eleven names and the one for the namespaces
  of a pod looks fifty times, as in the code.  The wait for a build container is a partial function whose
  missing value says that it does not return; it returns when the clock advances.  A walk over a directory
  goes 4096 levels deep, more than the system allows for a path.  Addresses and networks are IPv4; text is ASCII where the
  case of letters matters.

  \<^bold>\<open>Not modelled.\<close>  HTTP routing, web sockets and the request log, and the listing answers for bottles and services;
  following the packet and DNS logs, the monitor, container statistics and log files;
  the hook agent; the wiring in \<open>main.go\<close>.  The text of an error drops the marks that \<open>%q\<close> adds to a text with special
  characters.  They are input and output
  around the modelled parts.
\<close>

end
